(* ===== verification/Prelude.thy ===== *)
theory Prelude
  imports Main "HOL-Library.Word" "HOL-Library.State_Monad" "HOL-Library.Char_ord"
    "HOL-Library.List_Lexorder" "HOL-Library.Multiset"
begin

unbundle bit_operations_syntax

section \<open>Shared types, error results and the state monad\<close>

text \<open>
  This theory holds what every component shares: the names of the machine types the C++ code
  uses, its \<open>Roe<T>\<close> results (a value or an error message), a Hoare-style calculus for the
  state monad in which the rule engine is written, and lemmas on sorted lists.

  Conventions. \<open>std::string\<close> is \<open>string\<close> (a list of bytes), compared
  lexicographically by unsigned byte as \<open>std::string::compare\<close> does (\<open>Char_ord\<close> and
  \<open>List_Lexorder\<close>). \<open>uint64_t\<close> is \<open>64 word\<close>, so its arithmetic wraps as in the code.
  \<open>int64_t\<close> times in milliseconds are \<open>int\<close>; where the code casts one to
  \<open>uint64_t\<close>, the model writes the two's-complement cast out.
\<close>

named_theorems codec_cancel "cancellation laws of the length-prefixed encoders"
named_theorems enum_words "round trips between enumerations and their wire words"

type_synonym byte = "8 word"
type_synonym bytes = "byte list"
type_synonym u64 = "64 word"
type_synonym time_ms = int

subsection \<open>Results\<close>

text \<open>\<open>pp::Roe<T>\<close>: either an error with its message or a value.\<close>

datatype roe_error = Error string

type_synonym 'a roe = "roe_error + 'a"

fun is_ok :: "'a roe \<Rightarrow> bool" where
  "is_ok (Inr _) = True"
| "is_ok (Inl _) = False"

text \<open>The early return of the code: \<open>if (auto x = f(); !x) return x.error();\<close>\<close>

fun roe_bind :: "'a roe \<Rightarrow> ('a \<Rightarrow> 'b roe) \<Rightarrow> 'b roe" where
  "roe_bind (Inl e) f = Inl e"
| "roe_bind (Inr x) f = f x"

lemma roe_bind_Inr_iff: "roe_bind r f = Inr y \<longleftrightarrow> (\<exists>x. r = Inr x \<and> f x = Inr y)"
  by (cases r) auto

lemma is_ok_roe_bind: "is_ok (roe_bind r f) \<longleftrightarrow> (\<exists>x. r = Inr x \<and> is_ok (f x))"
  by (cases r) auto

lemma is_ok_iff: "is_ok r \<longleftrightarrow> (\<exists>x. r = Inr x)"
  by (cases r) auto

text \<open>A guard that returns an error, and one that returns success.\<close>

lemma guard_Inr [simp]: "(if b then Inl e else r) = Inr x \<longleftrightarrow> \<not> b \<and> r = Inr x"
  by auto

lemma guard_unit_Inr [simp]: "(if b then Inr () else r) = Inr () \<longleftrightarrow> b \<or> r = Inr ()"
  by auto

text \<open>Case analysis of a chain of \<open>if (...) return x;\<close>, one test at a time.\<close>

lemma if_Some_cases:
  "(if b then Some x else r) = Some t \<Longrightarrow> (b \<Longrightarrow> x = t \<Longrightarrow> P) \<Longrightarrow> (r = Some t \<Longrightarrow> P) \<Longrightarrow> P"
  by (auto split: if_splits)

subsection \<open>The state monad\<close>

text \<open>
  \<open>holds_after P m Q\<close>: started in a state satisfying \<open>P\<close>, the computation \<open>m\<close> ends with a
  value and a state satisfying \<open>Q\<close>.
\<close>

definition holds_after :: "('s \<Rightarrow> bool) \<Rightarrow> ('s, 'a) state \<Rightarrow> ('a \<Rightarrow> 's \<Rightarrow> bool) \<Rightarrow> bool" where
  "holds_after P m Q \<longleftrightarrow> (\<forall>s. P s \<longrightarrow> (case run_state m s of (a, s') \<Rightarrow> Q a s'))"

lemma holds_afterI:
  "(\<And>s a s'. P s \<Longrightarrow> run_state m s = (a, s') \<Longrightarrow> Q a s') \<Longrightarrow> holds_after P m Q"
  by (auto simp: holds_after_def split: prod.splits)

lemma holds_afterD:
  "holds_after P m Q \<Longrightarrow> P s \<Longrightarrow> run_state m s = (a, s') \<Longrightarrow> Q a s'"
  by (auto simp: holds_after_def split: prod.splits)

lemma holds_after_return: "(\<And>s. P s \<Longrightarrow> Q a s) \<Longrightarrow> holds_after P (State_Monad.return a) Q"
  by (simp add: holds_after_def State_Monad.return_def)

lemma holds_after_bind:
  assumes "holds_after P m R" and "\<And>a. holds_after (R a) (f a) Q"
  shows "holds_after P (State_Monad.bind m f) Q"
  using assms by (fastforce simp: holds_after_def State_Monad.bind_def split: prod.splits)

text \<open>An invariant \<open>I\<close> beside a fact \<open>R\<close> about the value alone.\<close>

lemma holds_after_bind_value:
  assumes "holds_after P m (\<lambda>a s. I s \<and> R a)" and "\<And>a. R a \<Longrightarrow> holds_after I (f a) Q"
  shows "holds_after P (State_Monad.bind m f) Q"
  using assms by (fastforce simp: holds_after_def State_Monad.bind_def split: prod.splits)

lemma holds_after_bind_inv:
  assumes "holds_after P m (\<lambda>_. I)" and "\<And>a. holds_after I (f a) Q"
  shows "holds_after P (State_Monad.bind m f) Q"
  using assms by (rule holds_after_bind)

lemma holds_after_if:
  "(b \<Longrightarrow> holds_after P m Q) \<Longrightarrow> (\<not> b \<Longrightarrow> holds_after P n Q) \<Longrightarrow>
    holds_after P (if b then m else n) Q"
  by simp

lemma holds_after_weaken:
  "holds_after P m Q \<Longrightarrow> (\<And>s. P' s \<Longrightarrow> P s) \<Longrightarrow> (\<And>a s. Q a s \<Longrightarrow> Q' a s) \<Longrightarrow> holds_after P' m Q'"
  unfolding holds_after_def by (fastforce split: prod.splits)

lemma holds_after_all:
  "(\<And>y. holds_after P m (Q y)) \<Longrightarrow> holds_after P m (\<lambda>a s. \<forall>y. Q y a s)"
  by (fastforce simp: holds_after_def split: prod.splits)

lemma holds_after_conj:
  "holds_after P m Q \<Longrightarrow> holds_after P m Q' \<Longrightarrow> holds_after P m (\<lambda>a s. Q a s \<and> Q' a s)"
  by (fastforce simp: holds_after_def split: prod.splits)

lemma holds_after_both:
  assumes "holds_after P m Q" and "holds_after P' m Q'"
    and "\<And>s. R s \<Longrightarrow> P s \<and> P' s" and "\<And>a s. Q a s \<Longrightarrow> Q' a s \<Longrightarrow> Z a s"
  shows "holds_after R m Z"
proof (rule holds_afterI)
  fix s a s'
  assume "R s" "run_state m s = (a, s')"
  then show "Z a s'" using holds_afterD [OF assms(1)] holds_afterD [OF assms(2)] assms(3,4) by blast
qed

lemma holds_after_vacuous: "(\<And>s. \<not> P s) \<Longrightarrow> holds_after P m Q"
  by (simp add: holds_after_def)

lemma holds_after_bind_get:
  "(\<And>v. holds_after P (f v) Q) \<Longrightarrow> holds_after P (State_Monad.bind State_Monad.get f) Q"
  by (simp add: holds_after_def State_Monad.bind_def State_Monad.get_def)

lemma holds_after_get: "(\<And>s. P s \<Longrightarrow> Q s s) \<Longrightarrow> holds_after P State_Monad.get Q"
  by (simp add: holds_after_def State_Monad.get_def)

lemma holds_after_update: "(\<And>s. P s \<Longrightarrow> Q () (f s)) \<Longrightarrow> holds_after P (State_Monad.update f) Q"
  by (simp add: holds_after_def State_Monad.update_def State_Monad.bind_def State_Monad.get_def
      State_Monad.set_def)

text \<open>\<open>std::any_of\<close> with a predicate that threads the state: it stops at the first success.\<close>

fun any_m :: "('a \<Rightarrow> ('s, bool) state) \<Rightarrow> 'a list \<Rightarrow> ('s, bool) state" where
  "any_m f [] = State_Monad.return False"
| "any_m f (x # xs) = do { b \<leftarrow> f x; if b then State_Monad.return True else any_m f xs }"

lemma holds_after_any_m:
  assumes "\<And>x. x \<in> set xs \<Longrightarrow> holds_after I (f x) (\<lambda>b s. I s \<and> (b \<longrightarrow> Q x))"
  shows "holds_after I (any_m f xs) (\<lambda>b s. I s \<and> (b \<longrightarrow> (\<exists>x \<in> set xs. Q x)))"
  using assms
proof (induction xs)
  case Nil
  show ?case by (auto intro: holds_after_return)
next
  case (Cons x xs)
  have head: "holds_after I (f x) (\<lambda>b s. I s \<and> (b \<longrightarrow> Q x))" using Cons.prems by simp
  have "holds_after I (any_m f xs) (\<lambda>b s. I s \<and> (b \<longrightarrow> (\<exists>x \<in> set xs. Q x)))"
    by (rule Cons.IH) (use Cons.prems in auto)
  then have rest: "holds_after (\<lambda>s. I s \<and> (b \<longrightarrow> Q x))
      (if b then State_Monad.return True else any_m f xs)
      (\<lambda>b s. I s \<and> (b \<longrightarrow> (\<exists>x \<in> set (x # xs). Q x)))" for b
    by (cases b) (auto intro: holds_after_return elim!: holds_after_weaken)
  show ?case
    unfolding any_m.simps by (rule holds_after_bind [OF head rest])
qed

text \<open>A range-based \<open>for\<close> whose body threads the state.\<close>

fun for_m :: "('a \<Rightarrow> ('s, unit) state) \<Rightarrow> 'a list \<Rightarrow> ('s, unit) state" where
  "for_m f [] = State_Monad.return ()"
| "for_m f (x # xs) = do { f x; for_m f xs }"

lemma holds_after_for_m:
  assumes "\<And>x. x \<in> set xs \<Longrightarrow> holds_after I (f x) (\<lambda>_. I)"
  shows "holds_after I (for_m f xs) (\<lambda>_. I)"
  using assms
proof (induction xs)
  case Nil
  show ?case by (auto intro: holds_after_return)
next
  case (Cons x xs)
  have "holds_after I (f x) (\<lambda>_. I)" using Cons.prems by simp
  moreover have "holds_after I (for_m f xs) (\<lambda>_. I)"
    by (rule Cons.IH) (use Cons.prems in auto)
  ultimately show ?case
    unfolding for_m.simps by (auto intro: holds_after_bind)
qed

text \<open>The same loop where each round also adds to a growing set \<open>D\<close>.\<close>

lemma holds_after_for_m_grows:
  assumes "\<And>x M. x \<in> set xs \<Longrightarrow>
      holds_after (\<lambda>s. I s \<and> M \<subseteq> D s) (f x) (\<lambda>_ s. I s \<and> M \<union> k x \<subseteq> D s)"
  shows "holds_after (\<lambda>s. I s \<and> M \<subseteq> D s) (for_m f xs) (\<lambda>_ s. I s \<and> M \<union> (\<Union>x \<in> set xs. k x) \<subseteq> D s)"
  using assms
proof (induction xs arbitrary: M)
  case (Cons x xs)
  have "holds_after (\<lambda>s. I s \<and> M \<subseteq> D s) (do { f x; for_m f xs })
      (\<lambda>_ s. I s \<and> (M \<union> k x) \<union> (\<Union>x \<in> set xs. k x) \<subseteq> D s)"
    by (rule holds_after_bind, rule Cons.prems, simp, rule Cons.IH, rule Cons.prems, simp)
  then show ?case by (simp add: Un_assoc)
qed (auto intro: holds_after_return)

subsection \<open>Sorting by a key\<close>

lemma length_one_of_distinct_const:
  "distinct (map f xs) \<Longrightarrow> xs \<noteq> [] \<Longrightarrow> \<forall>x \<in> set xs. f x = c \<Longrightarrow> length xs = 1"
  by (cases xs; cases "tl xs") auto

text \<open>Lists with distinct keys and the same elements sort to the same list.\<close>

lemma sort_key_unique:
  assumes "set xs = set ys" and "distinct (map f xs)" and "distinct (map f ys)"
  shows "sort_key f xs = sort_key f ys"
proof (rule sort_key_inj_key_eq)
  have "distinct xs" "distinct ys" using assms by (auto simp: distinct_map)
  then show "mset xs = mset (sort_key f ys)"
    using assms(1) by (simp add: set_eq_iff_mset_eq_distinct [symmetric])
  show "inj_on f (set xs)" using assms(2) by (simp add: distinct_map)
qed simp

lemma distinct_map_sort_key [simp]: "distinct (map g (sort_key f xs)) = distinct (map g xs)"
  by (metis mset_map mset_sort mset_eq_imp_distinct_iff)

text \<open>\<open>std::sort\<close> then \<open>std::unique\<close>: a strictly sorted list.\<close>

lemma sorted_remdups_adj_strict: "sorted xs \<Longrightarrow> sorted_wrt (<) (remdups_adj (xs :: 'a::linorder list))"
proof (induction xs rule: remdups_adj.induct)
  case (3 x y xs)
  then show ?case by (auto simp: order.strict_iff_order intro: order.trans)
qed simp_all

text \<open>A strictly sorted list is determined by its set.\<close>

lemma strict_sorted_unique:
  "sorted_wrt (<) (xs :: 'a::linorder list) \<Longrightarrow> sorted_wrt (<) ys \<Longrightarrow> set xs = set ys \<Longrightarrow> xs = ys"
  by (meson sorted_distinct_set_unique strict_sorted_iff)

end
