(* ===== verification/OrderedMap.thy ===== *)
theory OrderedMap
  imports Prelude
begin

section \<open>\<open>std::map\<close> and \<open>std::set\<close>\<close>

text \<open>
  The code keeps its indexes in \<open>std::map\<close> and \<open>std::set\<close> and iterates over them in key
  order; the order of iteration decides results (which add takes the last place, which removal
  names an entry). A map is therefore a strictly sorted association list, a set a strictly
  sorted list. \<open>map_of\<close> is the lookup.

  The locale \<open>std_map\<close> states what clients of such a map rely on, once, and its lemmas (a map is
  determined by its lookup function, folds of insertions) reach the components through the
  interpretation \<open>om\<close> on the model.
\<close>

subsection \<open>The model\<close>

text \<open>\<open>m[k] = v\<close>\<close>

fun om_put :: "'k::linorder \<Rightarrow> 'v \<Rightarrow> ('k \<times> 'v) list \<Rightarrow> ('k \<times> 'v) list" where
  "om_put k v [] = [(k, v)]"
| "om_put k v ((a, b) # m) =
     (if k < a then (k, v) # (a, b) # m
      else if k = a then (k, v) # m
      else (a, b) # om_put k v m)"

text \<open>\<open>m.emplace(k, v)\<close>: keeps the value already there.\<close>

definition om_emplace :: "'k::linorder \<Rightarrow> 'v \<Rightarrow> ('k \<times> 'v) list \<Rightarrow> ('k \<times> 'v) list" where
  "om_emplace k v m = (if map_of m k = None then om_put k v m else m)"

text \<open>\<open>m.erase(k)\<close>\<close>

fun om_erase :: "'k \<Rightarrow> ('k \<times> 'v) list \<Rightarrow> ('k \<times> 'v) list" where
  "om_erase k [] = []"
| "om_erase k ((a, b) # m) = (if k = a then m else (a, b) # om_erase k m)"

text \<open>\<open>m[k].push_back(v)\<close> on a map of vectors.\<close>

definition om_push :: "'k::linorder \<Rightarrow> 'v \<Rightarrow> ('k \<times> 'v list) list \<Rightarrow> ('k \<times> 'v list) list" where
  "om_push k v m = om_put k (case map_of m k of None \<Rightarrow> [v] | Some vs \<Rightarrow> vs @ [v]) m"

definition om_ok :: "('k::linorder \<times> 'v) list \<Rightarrow> bool" where
  "om_ok m \<longleftrightarrow> sorted_wrt (<) (map fst m)"

text \<open>\<open>s.insert(x)\<close>, \<open>s.count(x)\<close> is membership in \<open>set s\<close>.\<close>

fun os_insert :: "'a::linorder \<Rightarrow> 'a list \<Rightarrow> 'a list" where
  "os_insert x [] = [x]"
| "os_insert x (y # ys) =
     (if x < y then x # y # ys else if x = y then y # ys else y # os_insert x ys)"

definition os_erase :: "'a \<Rightarrow> 'a list \<Rightarrow> 'a list" where
  "os_erase x xs = filter (\<lambda>y. y \<noteq> x) xs"

abbreviation os_ok :: "'a::linorder list \<Rightarrow> bool" where
  "os_ok xs \<equiv> sorted_wrt (<) xs"

subsection \<open>Lookup, keys and order\<close>

lemma map_of_om_put [simp]: "map_of (om_put k v m) = (map_of m)(k \<mapsto> v)"
  by (induction k v m rule: om_put.induct) (auto simp: fun_eq_iff)

lemma keys_om_put [simp]: "fst ` set (om_put k v m) = insert k (fst ` set m)"
  by (induction k v m rule: om_put.induct) auto

lemma set_om_put: "set (om_put k v m) \<subseteq> insert (k, v) (set m)"
  by (induction k v m rule: om_put.induct) auto

lemma om_ok_Nil [simp]: "om_ok []"
  by (simp add: om_ok_def)

lemma om_ok_Cons [simp]:
  "om_ok ((k, v) # m) \<longleftrightarrow> (\<forall>k' \<in> fst ` set m. k < k') \<and> om_ok m"
  by (auto simp: om_ok_def)

lemma om_ok_put [simp]: "om_ok m \<Longrightarrow> om_ok (om_put k v m)"
  by (induction k v m rule: om_put.induct) auto

lemma om_ok_distinct: "om_ok m \<Longrightarrow> distinct (map fst m)"
  unfolding om_ok_def using strict_sorted_iff by blast

lemma om_ok_emplace [simp]: "om_ok m \<Longrightarrow> om_ok (om_emplace k v m)"
  by (simp add: om_emplace_def)

lemma map_of_om_emplace [simp]:
  "map_of (om_emplace k v m) = (case map_of m k of None \<Rightarrow> (map_of m)(k \<mapsto> v) | Some _ \<Rightarrow> map_of m)"
  by (auto simp: om_emplace_def split: option.splits)

lemma set_om_erase: "set (om_erase k m) \<subseteq> set m"
  by (induction k m rule: om_erase.induct) auto

lemma om_ok_erase [simp]: "om_ok m \<Longrightarrow> om_ok (om_erase k m)"
  by (induction k m rule: om_erase.induct) (use set_om_erase in \<open>force+\<close>)

lemma map_of_om_erase: "om_ok m \<Longrightarrow> map_of (om_erase k m) = (map_of m)(k := None)"
proof (induction k m rule: om_erase.induct)
  case (2 k a b m)
  then have "map_of m a = None" by (auto simp: map_of_eq_None_iff)
  with 2 show ?case by (auto simp: fun_eq_iff)
qed auto

lemma om_ok_push [simp]: "om_ok m \<Longrightarrow> om_ok (om_push k v m)"
  by (simp add: om_push_def)

lemma map_of_om_push [simp]:
  "map_of (om_push k v m) =
    (map_of m)(k \<mapsto> (case map_of m k of None \<Rightarrow> [v] | Some vs \<Rightarrow> vs @ [v]))"
  by (simp add: om_push_def)

lemma map_of_SomeI: "om_ok m \<Longrightarrow> (k, v) \<in> set m \<Longrightarrow> map_of m k = Some v"
  by (simp add: om_ok_distinct)

lemma map_of_mem_iff: "om_ok m \<Longrightarrow> map_of m k = Some v \<longleftrightarrow> (k, v) \<in> set m"
  by (rule map_of_eq_Some_iff) (rule om_ok_distinct)

lemma om_lookup_determines:
  assumes "om_ok m" "om_ok n" and eq: "map_of m = map_of n"
  shows "m = n"
proof -
  have sets: "set m = set n"
    using map_of_mem_iff [OF assms(1)] map_of_mem_iff [OF assms(2)] eq by auto
  have "inj_on fst (set m \<union> set n)"
    using om_ok_distinct [OF assms(1)] sets by (simp add: distinct_map)
  moreover have "map fst m = map fst n"
    by (rule strict_sorted_unique) (use assms sets in \<open>auto simp: om_ok_def\<close>)
  ultimately show ?thesis by (simp add: inj_on_map_eq_map)
qed

lemma set_os_insert [simp]: "set (os_insert x xs) = insert x (set xs)"
  by (induction x xs rule: os_insert.induct) auto

lemma os_ok_insert [simp]: "os_ok xs \<Longrightarrow> os_ok (os_insert x xs)"
  by (induction x xs rule: os_insert.induct) auto

lemma set_os_erase [simp]: "set (os_erase x xs) = set xs - {x}"
  by (auto simp: os_erase_def)

lemma os_ok_erase [simp]: "os_ok xs \<Longrightarrow> os_ok (os_erase x xs)"
  by (simp add: os_erase_def sorted_wrt_filter)

lemma os_ok_distinct: "os_ok xs \<Longrightarrow> distinct xs"
  using strict_sorted_iff by blast

lemma length_os_insert:
  "os_ok xs \<Longrightarrow> length (os_insert x xs) = (if x \<in> set xs then length xs else Suc (length xs))"
  by (metis os_ok_distinct os_ok_insert set_os_insert distinct_card card_insert_if List.finite_set)

subsection \<open>The contract clients rely on\<close>

locale std_map =
  fixes put :: "'k \<Rightarrow> 'v \<Rightarrow> 'm \<Rightarrow> 'm"
    and erase :: "'k \<Rightarrow> 'm \<Rightarrow> 'm"
    and find :: "'m \<Rightarrow> 'k \<Rightarrow> 'v option"
    and empty_map :: 'm
    and ok :: "'m \<Rightarrow> bool"
  assumes find_empty: "find empty_map = (\<lambda>_. None)"
    and find_put: "ok m \<Longrightarrow> find (put k v m) = (find m)(k \<mapsto> v)"
    and find_erase: "ok m \<Longrightarrow> find (erase k m) = (find m)(k := None)"
    and ok_empty: "ok empty_map"
    and ok_put: "ok m \<Longrightarrow> ok (put k v m)"
    and ok_erase: "ok m \<Longrightarrow> ok (erase k m)"
    and find_determines: "ok m \<Longrightarrow> ok n \<Longrightarrow> find m = find n \<Longrightarrow> m = n"
begin

lemma put_put: "ok m \<Longrightarrow> put k v (put k w m) = put k v m"
  by (rule find_determines) (simp_all add: ok_put find_put)

lemma put_commute: "ok m \<Longrightarrow> k \<noteq> l \<Longrightarrow> put k v (put l w m) = put l w (put k v m)"
  by (rule find_determines) (simp_all add: ok_put find_put fun_upd_twist)

lemma erase_put: "ok m \<Longrightarrow> find m k = None \<Longrightarrow> erase k (put k v m) = m"
  by (rule find_determines) (simp_all add: ok_put ok_erase find_put find_erase fun_upd_idem)

lemma put_known: "ok m \<Longrightarrow> find m k = Some v \<Longrightarrow> put k v m = m"
  by (rule find_determines) (simp_all add: ok_put find_put fun_upd_idem)

lemma ok_fold_put: "ok m \<Longrightarrow> ok (fold (\<lambda>x. put (key x) (val x)) xs m)"
  by (induction xs arbitrary: m) (simp_all add: ok_put)

text \<open>Inserting one after the other: the last insertion of a key is found.\<close>

lemma find_fold_put:
  "ok m \<Longrightarrow> find (fold (\<lambda>x. put (key x) (val x)) xs m) k =
    (case filter (\<lambda>x. key x = k) xs of [] \<Rightarrow> find m k | ys \<Rightarrow> Some (val (last ys)))"
proof (induction xs arbitrary: m)
  case (Cons x xs)
  have "ok (put (key x) (val x) m)" by (simp add: Cons.prems ok_put)
  from Cons.IH [OF this] show ?case
    by (auto simp: find_put Cons.prems split: list.splits)
qed simp

end

interpretation om: std_map om_put om_erase map_of "[]" om_ok
  by unfold_locales (simp_all add: map_of_om_erase om_lookup_determines)

text \<open>A map built by inserting each element of a list under its key.\<close>

lemma fold_put_keyed:
  "om_ok m \<Longrightarrow> om_ok (fold (\<lambda>x. om_put (key x) x) xs m)
    \<and> (map_of (fold (\<lambda>x. om_put (key x) x) xs m) i = Some x \<longrightarrow> key x = i \<and> x \<in> set xs \<or> map_of m i = Some x)
    \<and> (map_of (fold (\<lambda>x. om_put (key x) x) xs m) i \<noteq> None \<longleftrightarrow> i \<in> key ` set xs \<or> map_of m i \<noteq> None)"
proof (induction xs arbitrary: m)
  case (Cons y xs)
  have "om_ok (om_put (key y) y m)" using Cons.prems by simp
  from Cons.IH [OF this] show ?case by (auto split: if_splits)
qed simp

definition keyed :: "('a \<Rightarrow> 'k::linorder) \<Rightarrow> 'a list \<Rightarrow> ('k \<times> 'a) list" where
  "keyed key xs = fold (\<lambda>x. om_put (key x) x) xs []"

lemma om_ok_keyed [simp]: "om_ok (keyed key xs)"
  using fold_put_keyed [OF om_ok_Nil, THEN conjunct1] by (simp add: keyed_def)

lemma keyed_Some: "map_of (keyed key xs) i = Some x \<Longrightarrow> key x = i \<and> x \<in> set xs"
  using fold_put_keyed [OF om_ok_Nil, of key xs i x, THEN conjunct2, THEN conjunct1] by (simp add: keyed_def)

lemma keyed_None [simp]: "map_of (keyed key xs) i = None \<longleftrightarrow> i \<notin> key ` set xs"
  using fold_put_keyed [OF om_ok_Nil, of key xs i undefined, THEN conjunct2, THEN conjunct2]
  by (auto simp: keyed_def)

lemma keyed_distinct:
  assumes "distinct (map key xs)"
  shows "map_of (keyed key xs) i = Some x \<longleftrightarrow> x \<in> set xs \<and> key x = i"
proof
  assume x: "x \<in> set xs \<and> key x = i"
  then have "map_of (keyed key xs) i \<noteq> None" by simp blast
  then obtain y where y: "map_of (keyed key xs) i = Some y" by blast
  with keyed_Some [OF y] x assms show "map_of (keyed key xs) i = Some x"
    by (auto simp: distinct_map inj_on_def)
qed (use keyed_Some in fastforce)

lemma length_keyed_le: "length (keyed key xs) \<le> length xs"
proof -
  have "length (keyed key xs) = card (fst ` set (keyed key xs))"
    using om_ok_distinct [OF om_ok_keyed, of key xs] by (metis distinct_card length_map set_map)
  also have "fst ` set (keyed key xs) = key ` set xs"
    using keyed_None [of key xs] by (auto simp: map_of_eq_None_iff)
  also have "card (key ` set xs) \<le> length xs"
    by (meson List.finite_set card_image_le card_length order.trans)
  finally show ?thesis .
qed

text \<open>\<open>std::set\<close> from a range, and the fact that a set is determined by its elements.\<close>

definition os_of :: "'a::linorder list \<Rightarrow> 'a list" where
  "os_of xs = fold os_insert xs []"

lemma os_of_invariant: "os_ok acc \<Longrightarrow> os_ok (fold os_insert xs acc)"
  by (induction xs arbitrary: acc) auto

lemma os_ok_of [simp]: "os_ok (os_of xs)"
  by (simp add: os_of_def os_of_invariant)

lemma set_fold_os_insert: "set (fold os_insert xs acc) = set xs \<union> set acc"
  by (induction xs arbitrary: acc) auto

lemma set_os_of [simp]: "set (os_of xs) = set xs"
  by (simp add: os_of_def set_fold_os_insert)

lemma os_of_cong: "set xs = set ys \<Longrightarrow> os_of xs = os_of ys"
  by (rule strict_sorted_unique) simp_all

end
