(* ===== verification/GroupTypes.thy ===== *)
theory GroupTypes
  imports OrderedMap
begin

section \<open>Group types and permissions\<close>

text \<open>
  Models \<open>capabilities/messaging/src/lib/messaging/GroupTypes.h\<close> and \<open>GroupTypes.cpp\<close> (the
  enumerations, their wire words, the roster's rows and metadata) and
  \<open>GroupPermissions.cpp\<close> (\<open>GroupAllows\<close>, the one permission table).
\<close>

subsection \<open>Enumerations\<close>

datatype member_role = Owner | Admin | Member

datatype group_invite_policy = Everyone | ContactsOnly | Nobody

datatype group_preset = Open | Managed

datatype invite_status = Pending | Accepted | Declined | Expired | Blocked

datatype control_type =
    GroupInvite
  | GroupInviteAccept
  | GroupInviteDecline
  | MemberJoined
  | MemberLeft
  | MemberRemoved
  | OwnerTransferred
  | GroupRenamed
  | GroupForked
  | GroupOwnerUnreachable
  | GroupRosterStatementCtl
  | GroupRosterRequest
  | GroupRosterReply
  | GroupInviteRefused
  | GroupDissolved
  | GroupDissolvedSibling
  | MemberRoleChanged
  | GroupPresetChanged
  | GroupChangeCtl

datatype group_sync_state = Active | Checking | Removed | Dissolved

definition kMaxGroupMembers :: nat where
  "kMaxGroupMembers = 50"

definition kGroupInviteTtlMs :: time_ms where
  "kGroupInviteTtlMs = 24 * 60 * 60 * 1000"

definition kGroupInviteAcceptGraceMs :: time_ms where
  "kGroupInviteAcceptGraceMs = 24 * 60 * 60 * 1000"

subsection \<open>Wire and storage words\<close>

fun MemberRoleToString :: "member_role \<Rightarrow> string" where
  "MemberRoleToString Owner = ''owner''"
| "MemberRoleToString Admin = ''admin''"
| "MemberRoleToString Member = ''member''"

definition MemberRoleFromString :: "string \<Rightarrow> member_role" where
  "MemberRoleFromString v =
     (if v = ''owner'' then Owner else if v = ''admin'' then Admin else Member)"

definition GroupInvitePolicyFromString :: "string \<Rightarrow> group_invite_policy" where
  "GroupInvitePolicyFromString v =
     (if v = ''everyone'' then Everyone else if v = ''nobody'' then Nobody else ContactsOnly)"

fun GroupMembershipControlTypeToWire :: "control_type \<Rightarrow> string" where
  "GroupMembershipControlTypeToWire GroupInvite = ''group_invite''"
| "GroupMembershipControlTypeToWire GroupInviteAccept = ''group_invite_accept''"
| "GroupMembershipControlTypeToWire GroupInviteDecline = ''group_invite_decline''"
| "GroupMembershipControlTypeToWire MemberJoined = ''member_joined''"
| "GroupMembershipControlTypeToWire MemberLeft = ''member_left''"
| "GroupMembershipControlTypeToWire MemberRemoved = ''member_removed''"
| "GroupMembershipControlTypeToWire OwnerTransferred = ''owner_transferred''"
| "GroupMembershipControlTypeToWire GroupRenamed = ''group_renamed''"
| "GroupMembershipControlTypeToWire GroupForked = ''group_forked''"
| "GroupMembershipControlTypeToWire GroupOwnerUnreachable = ''group_owner_unreachable''"
| "GroupMembershipControlTypeToWire GroupRosterStatementCtl = ''group_roster_statement''"
| "GroupMembershipControlTypeToWire GroupRosterRequest = ''group_roster_request''"
| "GroupMembershipControlTypeToWire GroupRosterReply = ''group_roster_reply''"
| "GroupMembershipControlTypeToWire GroupInviteRefused = ''group_invite_refused''"
| "GroupMembershipControlTypeToWire GroupDissolved = ''group_dissolved''"
| "GroupMembershipControlTypeToWire GroupDissolvedSibling = ''group_dissolved_sibling''"
| "GroupMembershipControlTypeToWire MemberRoleChanged = ''member_role_changed''"
| "GroupMembershipControlTypeToWire GroupPresetChanged = ''group_preset_changed''"
| "GroupMembershipControlTypeToWire GroupChangeCtl = ''group_change''"

definition GroupMembershipControlTypeFromWire :: "string \<Rightarrow> control_type option" where
  "GroupMembershipControlTypeFromWire v =
     (if v = ''group_invite'' then Some GroupInvite
      else if v = ''group_invite_accept'' then Some GroupInviteAccept
      else if v = ''group_invite_decline'' then Some GroupInviteDecline
      else if v = ''group_invite_refused'' then Some GroupInviteRefused
      else if v = ''member_joined'' then Some MemberJoined
      else if v = ''member_left'' then Some MemberLeft
      else if v = ''member_removed'' then Some MemberRemoved
      else if v = ''member_role_changed'' then Some MemberRoleChanged
      else if v = ''group_preset_changed'' then Some GroupPresetChanged
      else if v = ''owner_transferred'' then Some OwnerTransferred
      else if v = ''group_renamed'' then Some GroupRenamed
      else if v = ''group_forked'' then Some GroupForked
      else if v = ''group_owner_unreachable'' then Some GroupOwnerUnreachable
      else if v = ''group_roster_statement'' then Some GroupRosterStatementCtl
      else if v = ''group_roster_request'' then Some GroupRosterRequest
      else if v = ''group_roster_reply'' then Some GroupRosterReply
      else if v = ''group_dissolved'' then Some GroupDissolved
      else if v = ''group_dissolved_sibling'' then Some GroupDissolvedSibling
      else if v = ''group_change'' then Some GroupChangeCtl
      else None)"

definition IsGroupRosterSyncControl :: "control_type \<Rightarrow> bool" where
  "IsGroupRosterSyncControl t \<longleftrightarrow>
     t = GroupRosterStatementCtl \<or> t = GroupRosterRequest \<or> t = GroupRosterReply"

fun GroupSyncStateToString :: "group_sync_state \<Rightarrow> string" where
  "GroupSyncStateToString Checking = ''checking''"
| "GroupSyncStateToString Removed = ''removed''"
| "GroupSyncStateToString Dissolved = ''dissolved''"
| "GroupSyncStateToString Active = ''active''"

definition GroupSyncStateFromString :: "string \<Rightarrow> group_sync_state" where
  "GroupSyncStateFromString v =
     (if v = ''checking'' then Checking
      else if v = ''removed'' then Removed
      else if v = ''dissolved'' then Dissolved
      else Active)"

definition GroupPresetToString :: "group_preset \<Rightarrow> string" where
  "GroupPresetToString p = (if p = Managed then ''managed'' else ''open'')"

definition GroupPresetFromString :: "string \<Rightarrow> group_preset" where
  "GroupPresetFromString v = (if v = ''managed'' then Managed else Open)"

lemma MemberRole_roundtrip [enum_words, simp]: "MemberRoleFromString (MemberRoleToString r) = r"
  by (cases r) (simp_all add: MemberRoleFromString_def)

lemma GroupSyncState_roundtrip [enum_words, simp]:
  "GroupSyncStateFromString (GroupSyncStateToString s) = s"
  by (cases s) (simp_all add: GroupSyncStateFromString_def)

lemma GroupPreset_roundtrip [enum_words, simp]:
  "GroupPresetFromString (GroupPresetToString p) = p"
  by (cases p) (simp_all add: GroupPresetFromString_def GroupPresetToString_def)

lemma control_type_from_to_wire [enum_words, simp]:
  "GroupMembershipControlTypeFromWire (GroupMembershipControlTypeToWire t) = Some t"
  by (cases t) (simp_all add: GroupMembershipControlTypeFromWire_def)

lemma control_type_to_from_wire:
  "GroupMembershipControlTypeFromWire v = Some t \<Longrightarrow> GroupMembershipControlTypeToWire t = v"
  unfolding GroupMembershipControlTypeFromWire_def by (elim if_Some_cases) simp_all

lemma MemberRoleToString_inject [simp]:
  "MemberRoleToString r = MemberRoleToString r' \<longleftrightarrow> r = r'"
  by (metis MemberRole_roundtrip)

lemma GroupPresetToString_inject [simp]:
  "GroupPresetToString p = GroupPresetToString p' \<longleftrightarrow> p = p'"
  by (metis GroupPreset_roundtrip)

subsection \<open>The roster's rows and metadata\<close>

record group_roster_member =
  rm_identity :: string
  rm_contact_id :: string
  rm_role :: member_role
  rm_joined_at :: time_ms
  rm_added_by :: string

record group_metadata =
  md_group_id :: string
  md_owner :: string
  md_title :: string
  md_roster_epoch :: u64
  md_preset :: group_preset
  md_session_epoch :: "32 word"
  md_title_version :: u64
  md_statement_json :: string
  md_sync_state :: group_sync_state
  md_sync_request_id :: string
  md_sync_requested_at :: time_ms

record group_invite_payload =
  ip_group_id :: string
  ip_group_title :: string
  ip_inviter :: string
  ip_invitee :: string
  ip_nonce :: string
  ip_roster_epoch :: u64
  ip_expires_at :: "time_ms option"
  ip_actor_role :: member_role
  ip_owner :: string
  ip_member_count :: u64
  ip_context :: string
  ip_call_id :: string

record pending_group_invite =
  pi_nonce :: string
  pi_group_id :: string
  pi_group_title :: string
  pi_inviter :: string
  pi_invitee :: string
  pi_roster_epoch :: u64
  pi_status :: invite_status
  pi_expires_at :: "time_ms option"
  pi_created_at :: time_ms
  pi_outbound :: bool
  pi_owner :: string

definition MadeInCall :: "group_invite_payload \<Rightarrow> bool" where
  "MadeInCall p \<longleftrightarrow> ip_context p = ''call'' \<and> ip_call_id p \<noteq> []"

definition InviteOwner :: "pending_group_invite \<Rightarrow> string" where
  "InviteOwner p = (if pi_owner p = [] then pi_inviter p else pi_owner p)"

subsection \<open>Permissions\<close>

datatype group_action =
    Send | Invite | MakeInviteLink | BringCallGuest | Rename | Remove | Readmit
  | RevokeInviteLink | Leave | RemoveCallGuest | MentionEveryone | SetRole | SetPreset
  | Transfer | Dissolve

fun GroupAllows :: "group_action \<Rightarrow> member_role \<Rightarrow> group_preset \<Rightarrow> member_role \<Rightarrow> bool" where
  "GroupAllows Send actor preset target = True"
| "GroupAllows Invite actor preset target = (preset = Open \<or> actor = Owner \<or> actor = Admin)"
| "GroupAllows MakeInviteLink actor preset target =
     (preset = Open \<or> actor = Owner \<or> actor = Admin)"
| "GroupAllows BringCallGuest actor preset target =
     (preset = Open \<or> actor = Owner \<or> actor = Admin)"
| "GroupAllows Rename actor preset target = (preset = Open \<or> actor = Owner \<or> actor = Admin)"
| "GroupAllows Remove actor preset target =
     (target \<noteq> Owner \<and> (actor = Owner \<or> (actor = Admin \<and> target = Member)))"
| "GroupAllows Readmit actor preset target = (actor = Owner \<or> actor = Admin)"
| "GroupAllows RevokeInviteLink actor preset target = (actor = Owner \<or> actor = Admin)"
| "GroupAllows RemoveCallGuest actor preset target = (actor = Owner \<or> actor = Admin)"
| "GroupAllows MentionEveryone actor preset target = (actor = Owner \<or> actor = Admin)"
| "GroupAllows Leave actor preset target = (actor \<noteq> Owner)"
| "GroupAllows SetRole actor preset target = (actor = Owner \<and> target \<noteq> Owner)"
| "GroupAllows SetPreset actor preset target = (actor = Owner)"
| "GroupAllows Transfer actor preset target = (actor = Owner)"
| "GroupAllows Dissolve actor preset target = (actor = Owner)"

fun RoleRank :: "member_role \<Rightarrow> nat" where
  "RoleRank Owner = 2"
| "RoleRank Admin = 1"
| "RoleRank Member = 0"

lemma GroupAllows_role_mono:
  "act \<noteq> Leave \<Longrightarrow> RoleRank a \<le> RoleRank b \<Longrightarrow> GroupAllows act a p t \<Longrightarrow> GroupAllows act b p t"
  by (cases act; cases a; cases b) auto

lemma GroupAllows_preset_mono: "GroupAllows act a Managed t \<Longrightarrow> GroupAllows act a Open t"
  by (cases act) auto

lemma GroupAllows_Remove_rank:
  "GroupAllows Remove a p t \<Longrightarrow> RoleRank t < RoleRank a"
  by (cases a; cases t) auto

lemma GroupAllows_Remove_not_owner: "\<not> GroupAllows Remove a p Owner"
  by simp

text \<open>
  The permission table (\<open>GroupAllows\<close>) is monotone: whatever a role may do under a preset, a
  higher role may do too (leaving apart, which the owner alone may not), and the Open preset
  allows all that Managed allows; a removal always goes down in rank, so nobody removes the owner
  or an equal, and only the owner sets roles, transfers or dissolves.
\<close>

theorem permission_table_ordered:
  "(act \<noteq> Leave \<and> RoleRank a \<le> RoleRank b \<and> GroupAllows act a p t \<longrightarrow> GroupAllows act b p t)
    \<and> (GroupAllows act a Managed t \<longrightarrow> GroupAllows act a Open t)
    \<and> (GroupAllows Remove a p t \<longrightarrow> RoleRank t < RoleRank a)
    \<and> (act \<in> {SetRole, SetPreset, Transfer, Dissolve} \<and> GroupAllows act a p t \<longrightarrow> a = Owner)"
proof -
  have "act \<in> {SetRole, SetPreset, Transfer, Dissolve} \<Longrightarrow> GroupAllows act a p t \<Longrightarrow> a = Owner"
    by (elim insertE emptyE) simp_all
  then show ?thesis
    using GroupAllows_role_mono [of act a b p t] GroupAllows_preset_mono [of act a t]
      GroupAllows_Remove_rank [of a p t] by blast
qed

theorem permission_table_ordered_witness:
  "GroupAllows Invite Owner Managed Member \<and> RoleRank Member < RoleRank Admin"
proof
  have "GroupAllows Invite Admin Managed Member" "RoleRank Admin \<le> RoleRank Owner" "Invite \<noteq> Leave"
    by simp_all
  then show "GroupAllows Invite Owner Managed Member"
    using permission_table_ordered [of Invite Admin Owner Managed Member] by blast
  have "GroupAllows Remove Admin Open Member" by simp
  then show "RoleRank Member < RoleRank Admin"
    using permission_table_ordered [of Remove Admin Owner Open Member] by blast
qed

end
