(* ===== verification/ByteCodec.thy ===== *)
theory ByteCodec
  imports GroupTypes
begin

section \<open>Length-prefixed byte encodings\<close>

text \<open>
  The bytes that owners and devices sign are built by the two \<open>Put\<close> overloads of
  \<open>GroupRosterStatement.cpp\<close> (the same text stands in \<open>GroupChange.cpp\<close>): a string is its
  length as four big-endian bytes and then its bytes, an integer is eight big-endian bytes.

  The locale \<open>prefix_code\<close> states what makes such an encoding safe to sign: a code word followed
  by anything can be split off in one way only, "no field can run into the next". Its lemmas
  carry the law to pairs and to counted lists, so that every record of the signed formats gets it
  from its fields.
\<close>

subsection \<open>The encoders\<close>

definition byte_of_char :: "char \<Rightarrow> byte" where
  "byte_of_char c = of_char c"

definition bytes_of_string :: "string \<Rightarrow> bytes" where
  "bytes_of_string s = map byte_of_char s"

definition put_u32 :: "32 word \<Rightarrow> bytes" where
  "put_u32 n = map (\<lambda>shift. ucast (drop_bit shift n)) [24, 16, 8, 0]"

definition put_u64 :: "u64 \<Rightarrow> bytes" where
  "put_u64 v = map (\<lambda>shift. ucast (drop_bit shift v)) [56, 48, 40, 32, 24, 16, 8, 0]"

definition put_string :: "string \<Rightarrow> bytes" where
  "put_string field = put_u32 (word_of_nat (length field)) @ bytes_of_string field"

text \<open>\<open>static_cast<uint64_t>\<close> of an \<open>int64_t\<close>: two's complement.\<close>

definition u64_of_time :: "time_ms \<Rightarrow> u64" where
  "u64_of_time t = word_of_int t"

definition put_time :: "time_ms \<Rightarrow> bytes" where
  "put_time t = put_u64 (u64_of_time t)"

definition put_list :: "('a \<Rightarrow> bytes) \<Rightarrow> 'a list \<Rightarrow> bytes" where
  "put_list put xs = put_u64 (word_of_nat (length xs)) @ concat (map put xs)"

text \<open>The values the encoders do not truncate.\<close>

definition short_string :: "string \<Rightarrow> bool" where
  "short_string s \<longleftrightarrow> length s < 2 ^ 32"

definition int64_range :: "time_ms \<Rightarrow> bool" where
  "int64_range t \<longleftrightarrow> - (2 ^ 63) \<le> t \<and> t < 2 ^ 63"

definition short_list :: "('a \<Rightarrow> bool) \<Rightarrow> 'a list \<Rightarrow> bool" where
  "short_list ok xs \<longleftrightarrow> length xs < 2 ^ 64 \<and> (\<forall>x \<in> set xs. ok x)"

subsection \<open>The contract\<close>

locale prefix_code =
  fixes put :: "'a \<Rightarrow> bytes" and ok :: "'a \<Rightarrow> bool"
  assumes split_off: "ok x \<Longrightarrow> ok y \<Longrightarrow> put x @ r = put y @ s \<Longrightarrow> x = y \<and> r = s"
begin

lemma cancel: "ok x \<Longrightarrow> ok y \<Longrightarrow> put x @ r = put y @ s \<longleftrightarrow> x = y \<and> r = s"
  using split_off by blast

lemma injective: "ok x \<Longrightarrow> ok y \<Longrightarrow> put x = put y \<longleftrightarrow> x = y"
  using cancel [of x y "[]" "[]"] by auto

lemma concat_cancel:
  "length xs = length ys \<Longrightarrow> \<forall>x \<in> set xs. ok x \<Longrightarrow> \<forall>y \<in> set ys. ok y \<Longrightarrow>
    concat (map put xs) @ r = concat (map put ys) @ s \<longleftrightarrow> xs = ys \<and> r = s"
  by (induction xs ys rule: list_induct2) (auto simp: cancel)

end

text \<open>Two encodings one after the other.\<close>

locale prefix_code_pair = first: prefix_code put ok + second: prefix_code put' ok'
  for put :: "'a \<Rightarrow> bytes" and ok and put' :: "'b \<Rightarrow> bytes" and ok'
begin

lemma pair_cancel:
  "ok a \<Longrightarrow> ok b \<Longrightarrow> ok' a' \<Longrightarrow> ok' b' \<Longrightarrow>
    put a @ put' a' @ r = put b @ put' b' @ s \<longleftrightarrow> a = b \<and> a' = b' \<and> r = s"
  by (simp add: first.cancel second.cancel)

end

subsection \<open>Integers and strings satisfy it\<close>

lemma length_put_u64 [simp]: "length (put_u64 v) = 8"
  by (simp add: put_u64_def)

lemma length_put_u32 [simp]: "length (put_u32 v) = 4"
  by (simp add: put_u32_def)

lemma byte_at_bit:
  assumes "(ucast (drop_bit k (v :: 'a::len word)) :: byte) = ucast (drop_bit k w)" and "i < 8"
  shows "bit v (k + i) = bit w (k + i)"
proof -
  have "bit (ucast (drop_bit k v) :: byte) i = bit (ucast (drop_bit k w) :: byte) i"
    using assms(1) by simp
  with assms(2) show ?thesis by (simp add: bit_ucast_iff bit_drop_bit_eq)
qed

text \<open>Equal bytes at every multiple of eight are equal words.\<close>

lemma bytes_determine_word:
  assumes "\<And>k. k < LENGTH('a) div 8 \<Longrightarrow>
      (ucast (drop_bit (8 * k) (v :: 'a::len word)) :: byte) = ucast (drop_bit (8 * k) w)"
    and "8 dvd LENGTH('a)"
  shows "v = w"
proof (rule bit_word_eqI)
  fix n :: nat
  assume "n < LENGTH('a)"
  then have "n div 8 < LENGTH('a) div 8"
    using assms(2) by (metis div_less_mono zero_less_numeral dvd_div_mult_self
        less_mult_imp_div_less)
  then have "bit v (8 * (n div 8) + n mod 8) = bit w (8 * (n div 8) + n mod 8)"
    by (intro byte_at_bit assms(1)) simp_all
  then show "bit v n = bit w n" by simp
qed

lemma put_u64_inject [simp]: "put_u64 v = put_u64 w \<longleftrightarrow> v = w"
proof
  assume eq: "put_u64 v = put_u64 w"
  show "v = w"
  proof (rule bytes_determine_word)
    fix k :: nat
    assume "k < LENGTH(64) div 8"
    then have "k \<in> {0, 1, 2, 3, 4, 5, 6, 7}" by auto
    then show "(ucast (drop_bit (8 * k) v) :: byte) = ucast (drop_bit (8 * k) w)"
      using eq by (auto simp: put_u64_def)
  qed simp
qed simp

lemma put_u32_inject [simp]: "put_u32 v = put_u32 w \<longleftrightarrow> v = w"
proof
  assume eq: "put_u32 v = put_u32 w"
  show "v = w"
  proof (rule bytes_determine_word)
    fix k :: nat
    assume "k < LENGTH(32) div 8"
    then have "k \<in> {0, 1, 2, 3}" by auto
    then show "(ucast (drop_bit (8 * k) v) :: byte) = ucast (drop_bit (8 * k) w)"
      using eq by (auto simp: put_u32_def)
  qed simp
qed simp

lemma byte_of_char_inject [simp]: "byte_of_char c = byte_of_char d \<longleftrightarrow> c = d"
proof
  assume "byte_of_char c = byte_of_char d"
  then have "word_of_nat (of_char c) = (word_of_nat (of_char d) :: byte)"
    by (simp add: byte_of_char_def of_nat_of_char)
  then have "(of_char c :: nat) mod 256 = of_char d mod 256"
    by (simp add: word_of_nat_eq_iff take_bit_nat_def)
  then show "c = d" by simp
qed simp

lemma char_of_byte [simp]: "char_of (unat (byte_of_char c)) = c"
proof -
  have "byte_of_char c = word_of_nat (of_char c)"
    unfolding byte_of_char_def by (rule of_nat_of_char [symmetric])
  then have "unat (byte_of_char c) = of_char c"
    by (simp add: unsigned_of_nat take_bit_nat_eq_self del: of_nat_of_char)
  then show ?thesis by simp
qed

lemma word_of_nat_length_inject:
  "m < 2 ^ LENGTH('a) \<Longrightarrow> n < 2 ^ LENGTH('a) \<Longrightarrow>
    (word_of_nat m :: 'a::len word) = word_of_nat n \<longleftrightarrow> m = n"
  by (simp add: word_of_nat_eq_iff take_bit_nat_eq_self)

lemma bytes_of_string_inject [simp]: "bytes_of_string s = bytes_of_string t \<longleftrightarrow> s = t"
  by (auto simp: bytes_of_string_def inj_map_eq_map inj_def)

lemma length_bytes_of_string [simp]: "length (bytes_of_string s) = length s"
  by (simp add: bytes_of_string_def)

interpretation u64_code: prefix_code put_u64 "\<lambda>_. True"
  by unfold_locales auto

interpretation string_code: prefix_code put_string short_string
proof
  fix x y r s
  assume ok: "short_string x" "short_string y"
    and eq: "put_string x @ r = put_string y @ s"
  from eq have "word_of_nat (length x) = (word_of_nat (length y) :: 32 word)"
    and rest: "bytes_of_string x @ r = bytes_of_string y @ s"
    by (auto simp: put_string_def)
  then have "length x = length y"
    using ok by (simp add: short_string_def word_of_nat_length_inject)
  with rest show "x = y \<and> r = s" by auto
qed

interpretation time_code: prefix_code put_time int64_range
proof
  fix x y r s
  assume ok: "int64_range x" "int64_range y" and eq: "put_time x @ r = put_time y @ s"
  from eq have "u64_of_time x = u64_of_time y" and "r = s" by (auto simp: put_time_def)
  then have "take_bit 64 x = take_bit 64 y"
    by (simp add: u64_of_time_def word_of_int_eq_iff)
  then have "x mod 2 ^ 64 = y mod 2 ^ 64" by (simp add: take_bit_int_def)
  then have "2 ^ 64 dvd x - y" by (simp add: mod_eq_dvd_iff)
  moreover have "\<bar>x - y\<bar> < 2 ^ 64" using ok by (auto simp: int64_range_def)
  ultimately have "x = y" using dvd_imp_le_int [of "x - y" "2 ^ 64"] by auto
  with \<open>r = s\<close> show "x = y \<and> r = s" by simp
qed

interpretation u64_string: prefix_code_pair put_string short_string put_u64 "\<lambda>_. True"
  by unfold_locales

text \<open>Counted lists of a prefix code are a prefix code.\<close>

context prefix_code begin

lemma list_cancel:
  "short_list ok xs \<Longrightarrow> short_list ok ys \<Longrightarrow>
    put_list put xs @ r = put_list put ys @ s \<longleftrightarrow> xs = ys \<and> r = s"
proof -
  assume xs: "short_list ok xs" and ys: "short_list ok ys"
  have "word_of_nat (length xs) = (word_of_nat (length ys) :: u64) \<longleftrightarrow> length xs = length ys"
    by (rule word_of_nat_length_inject) (use xs ys in \<open>simp_all add: short_list_def\<close>)
  then show ?thesis
    using xs ys concat_cancel [of xs ys r s]
    by (auto simp: put_list_def short_list_def)
qed

lemma list_injective:
  "short_list ok xs \<Longrightarrow> short_list ok ys \<Longrightarrow> put_list put xs = put_list put ys \<longleftrightarrow> xs = ys"
  using list_cancel [of xs ys "[]" "[]"] by simp

end

lemmas put_cancel [codec_cancel] =
  u64_code.cancel [OF TrueI TrueI] string_code.cancel time_code.cancel string_code.list_cancel
  string_code.injective time_code.injective string_code.list_injective u64_code.injective [OF TrueI TrueI]

end
