(* ===== verification/AccountCard.thy ===== *)
theory AccountCard
  imports ByteCodec
begin

section \<open>Account cards and the cryptography they rest on\<close>

text \<open>
  Models \<open>capabilities/people/src/lib/people/AccountCard.cpp\<close> (its JSON is in \<open>RosterJson\<close>): the card an
  account signs with its list of devices, the bytes it signs, and the check every receiver makes.

  The cryptographic primitives (libsodium's encodings and BLAKE2b-256, ML-DSA-65, the PeerId and
  account id derivations, the KEM binding) live in another repository: they are the fields of a
  \<open>crypto\<close> record, an argument of every definition that calls them, and nothing is assumed of them
  here.
\<close>

subsection \<open>Primitives that are parameters\<close>

record crypto =
  cr_base64_decode :: "string \<Rightarrow> bytes roe"
  cr_blake2b256 :: "bytes \<Rightarrow> bytes"
  cr_bytes_to_hex :: "bytes \<Rightarrow> string"
  cr_mldsa_verify :: "bytes \<Rightarrow> bytes \<Rightarrow> bytes \<Rightarrow> bool roe"
  cr_account_id :: "bytes \<Rightarrow> string roe"
  cr_peer_id :: "bytes \<Rightarrow> string roe"
  cr_verify_kem_binding :: "string \<Rightarrow> string \<Rightarrow> string \<Rightarrow> string \<Rightarrow> unit roe"
  cr_mldsa_pk_bytes :: nat
  cr_mldsa_sig_bytes :: nat
  cr_kem_pk_bytes :: nat

text \<open>
  A concrete instance for the witnesses: texts stand for their bytes, a signature verifies when it
  repeats its key, ids are the key's text.
\<close>

definition text_of_bytes :: "bytes \<Rightarrow> string" where
  "text_of_bytes bs = map (\<lambda>b. char_of (unat b)) bs"

definition sample_crypto :: crypto where
  "sample_crypto = \<lparr>cr_base64_decode = (\<lambda>s. Inr (bytes_of_string s)), cr_blake2b256 = (\<lambda>bs. bs),
     cr_bytes_to_hex = text_of_bytes,
     cr_mldsa_verify = (\<lambda>key message signature. Inr (signature = key)),
     cr_account_id = (\<lambda>key. Inr (text_of_bytes key)), cr_peer_id = (\<lambda>key. Inr (text_of_bytes key)),
     cr_verify_kem_binding = (\<lambda>account signing kem binding. Inr ()),
     cr_mldsa_pk_bytes = 1, cr_mldsa_sig_bytes = 1, cr_kem_pk_bytes = 1\<rparr>"

subsection \<open>Cards\<close>

record account_card_device =
  d_peer_id :: string
  d_signing_key :: string
  d_kem_key :: string

record key_card =
  k_account_id :: string
  k_signing_key :: string
  k_kem_key :: string
  k_binding_signature :: string

record account_card =
  a_keys :: key_card
  a_nickname :: string
  a_devices :: "account_card_device list"
  a_issued_at :: time_ms
  a_signature :: string

definition kMaxAccountCardDevices :: nat where
  "kMaxAccountCardDevices = 5"

definition kAccountCardClockSkewMs :: time_ms where
  "kAccountCardClockSkewMs = 5 * 60 * 1000"

definition FindCardDevice :: "account_card \<Rightarrow> string \<Rightarrow> account_card_device option" where
  "FindCardDevice ac peer_id = List.find (\<lambda>d. d_peer_id d = peer_id) (a_devices ac)"

definition CardDevicePeerIds :: "account_card \<Rightarrow> string list" where
  "CardDevicePeerIds ac = map d_peer_id (a_devices ac)"

definition VerifyCardDevice :: "crypto \<Rightarrow> account_card_device \<Rightarrow> unit roe" where
  "VerifyCardDevice cr device =
     (case (cr_base64_decode cr (d_signing_key device), cr_base64_decode cr (d_kem_key device)) of
        (Inr signing, Inr kem) \<Rightarrow>
          if length signing \<noteq> cr_mldsa_pk_bytes cr \<or> length kem \<noteq> cr_kem_pk_bytes cr
          then Inl (Error ''account card: a device's keys do not decode'')
          else if cr_peer_id cr signing \<noteq> Inr (d_peer_id device)
          then Inl (Error ''account card: a device's PeerId is not its signing key's'')
          else Inr ()
      | _ \<Rightarrow> Inl (Error ''account card: a device's keys do not decode''))"

definition VerifyKeyCard :: "crypto \<Rightarrow> key_card \<Rightarrow> unit roe" where
  "VerifyKeyCard cr ac =
     cr_verify_kem_binding cr (k_account_id ac) (k_signing_key ac) (k_kem_key ac)
       (k_binding_signature ac)"

text \<open>
  \<open>AccountCardSignBytes\<close>: the domain string with its NUL, the version byte, the raw keys, the
  nickname and the devices in PeerId order, each string with an eight-byte length. Empty when a
  key does not decode to its size.
\<close>

definition append_len_utf8 :: "string \<Rightarrow> bytes" where
  "append_len_utf8 s = put_u64 (word_of_nat (length s)) @ bytes_of_string s"

definition card_key_bytes :: "crypto \<Rightarrow> string \<Rightarrow> string \<Rightarrow> bytes option" where
  "card_key_bytes cr signing_key kem_key =
     (case (cr_base64_decode cr signing_key, cr_base64_decode cr kem_key) of
        (Inr signing, Inr kem) \<Rightarrow>
          if length signing = cr_mldsa_pk_bytes cr \<and> length kem = cr_kem_pk_bytes cr
          then Some (signing @ kem) else None
      | _ \<Rightarrow> None)"

fun card_device_bytes :: "crypto \<Rightarrow> account_card_device list \<Rightarrow> bytes option" where
  "card_device_bytes cr [] = Some []"
| "card_device_bytes cr (d # ds) =
     (case card_key_bytes cr (d_signing_key d) (d_kem_key d) of
        None \<Rightarrow> None
      | Some keys \<Rightarrow>
          map_option (\<lambda>rest. append_len_utf8 (d_peer_id d) @ keys @ rest) (card_device_bytes cr ds))"

definition AccountCardSignBytes :: "crypto \<Rightarrow> account_card \<Rightarrow> bytes" where
  "AccountCardSignBytes cr ac =
     (case card_key_bytes cr (k_signing_key (a_keys ac)) (k_kem_key (a_keys ac)) of
        None \<Rightarrow> []
      | Some keys \<Rightarrow>
          (case card_device_bytes cr (sort_key d_peer_id (a_devices ac)) of
             None \<Rightarrow> []
           | Some devices \<Rightarrow>
               bytes_of_string ''pp-browser:account-card-v2'' @ [0, 2] @ keys
                 @ append_len_utf8 (a_nickname ac)
                 @ put_u64 (word_of_nat (length (a_devices ac))) @ devices
                 @ put_time (a_issued_at ac)))"

fun first_error :: "unit roe list \<Rightarrow> unit roe" where
  "first_error [] = Inr ()"
| "first_error (Inl e # rs) = Inl e"
| "first_error (Inr u # rs) = first_error rs"

definition VerifyAccountCard :: "crypto \<Rightarrow> account_card \<Rightarrow> time_ms \<Rightarrow> unit roe" where
  "VerifyAccountCard cr ac now =
     roe_bind (VerifyKeyCard cr (a_keys ac)) (\<lambda>_.
       if length (a_devices ac) > kMaxAccountCardDevices
       then Inl (Error ''account card: too many devices'')
       else if a_devices ac = [] then Inl (Error ''account card: no device'')
       else if \<not> distinct (CardDevicePeerIds ac)
       then Inl (Error ''account card: duplicate device'')
       else roe_bind (first_error (map (VerifyCardDevice cr) (a_devices ac))) (\<lambda>_.
         if a_issued_at ac \<le> 0 \<or> a_issued_at ac > now + kAccountCardClockSkewMs
         then Inl (Error ''account card: issued in the future'')
         else (case (AccountCardSignBytes cr ac,
                     cr_base64_decode cr (k_signing_key (a_keys ac)),
                     cr_base64_decode cr (a_signature ac)) of
             (message, Inr signing, Inr signature) \<Rightarrow>
               if message = [] \<or> length signature \<noteq> cr_mldsa_sig_bytes cr
               then Inl (Error ''account card: malformed'')
               else if cr_mldsa_verify cr signing message signature = Inr True then Inr ()
               else Inl (Error ''account card: the account did not sign it'')
           | _ \<Rightarrow> Inl (Error ''account card: malformed''))))"

definition SignAccountCard :: "crypto \<Rightarrow> account_card \<Rightarrow> (bytes \<Rightarrow> string roe) \<Rightarrow> account_card roe" where
  "SignAccountCard cr ac sign =
     (let message = AccountCardSignBytes cr ac
      in if message = [] then Inl (Error ''account card: keys do not decode'')
         else roe_bind (sign message) (\<lambda>signature. Inr (ac\<lparr>a_signature := signature\<rparr>)))"

subsection \<open>What a verified card is\<close>

lemma FindCardDevice_SomeD:
  "FindCardDevice ac p = Some d \<Longrightarrow> d \<in> set (a_devices ac) \<and> d_peer_id d = p"
  by (auto simp: FindCardDevice_def find_Some_iff)

lemma first_error_ok: "first_error rs = Inr () \<longleftrightarrow> (\<forall>r \<in> set rs. is_ok r)"
  by (induction rs rule: first_error.induct) auto

lemma VerifyCardDevice_ok:
  "VerifyCardDevice cr d = Inr () \<Longrightarrow>
    \<exists>key. cr_base64_decode cr (d_signing_key d) = Inr key \<and> cr_peer_id cr key = Inr (d_peer_id d)"
  by (auto simp: VerifyCardDevice_def split: sum.splits if_splits)

lemma VerifyAccountCard_okD:
  assumes "VerifyAccountCard cr ac now = Inr ()"
  shows "distinct (CardDevicePeerIds ac)" "a_devices ac \<noteq> []"
    "length (a_devices ac) \<le> kMaxAccountCardDevices"
    "0 < a_issued_at ac" "a_issued_at ac \<le> now + kAccountCardClockSkewMs"
    "\<forall>d \<in> set (a_devices ac). VerifyCardDevice cr d = Inr ()"
    "\<exists>key sig. cr_base64_decode cr (k_signing_key (a_keys ac)) = Inr key
       \<and> cr_base64_decode cr (a_signature ac) = Inr sig
       \<and> cr_mldsa_verify cr key (AccountCardSignBytes cr ac) sig = Inr True"
proof -
  have ok: "first_error (map (VerifyCardDevice cr) (a_devices ac)) = Inr ()"
    using assms by (auto simp: VerifyAccountCard_def roe_bind_Inr_iff split: if_splits)
  then show "\<forall>d \<in> set (a_devices ac). VerifyCardDevice cr d = Inr ()"
    by (auto simp: first_error_ok is_ok_iff)
  show "distinct (CardDevicePeerIds ac)" "a_devices ac \<noteq> []"
    "length (a_devices ac) \<le> kMaxAccountCardDevices"
    "0 < a_issued_at ac" "a_issued_at ac \<le> now + kAccountCardClockSkewMs"
    using assms ok by (auto simp: VerifyAccountCard_def roe_bind_Inr_iff split: if_splits)
  show "\<exists>key sig. cr_base64_decode cr (k_signing_key (a_keys ac)) = Inr key
       \<and> cr_base64_decode cr (a_signature ac) = Inr sig
       \<and> cr_mldsa_verify cr key (AccountCardSignBytes cr ac) sig = Inr True"
    using assms ok
    by (auto simp: VerifyAccountCard_def roe_bind_Inr_iff split: if_splits sum.splits)
qed

lemma VerifyAccountCard_device_unique:
  assumes "VerifyAccountCard cr ac now = Inr ()" and "d \<in> set (a_devices ac)"
  shows "FindCardDevice ac (d_peer_id d) = Some d"
proof -
  have "distinct (map d_peer_id (a_devices ac))"
    using VerifyAccountCard_okD(1) [OF assms(1)] by (simp add: CardDevicePeerIds_def)
  then have inj: "inj_on d_peer_id (set (a_devices ac))" by (simp add: distinct_map)
  have "FindCardDevice ac (d_peer_id d) \<noteq> None"
    using assms(2) by (auto simp: FindCardDevice_def find_None_iff)
  then obtain e where "FindCardDevice ac (d_peer_id d) = Some e" by auto
  with inj assms(2) show ?thesis
    by (auto dest!: FindCardDevice_SomeD simp: inj_on_def)
qed

text \<open>The signature is not among the bytes signed, so a signed card carries one of its own bytes.\<close>

lemma sign_bytes_unsigned [simp]: "AccountCardSignBytes cr (ac\<lparr>a_signature := sig\<rparr>) = AccountCardSignBytes cr ac"
  by (simp add: AccountCardSignBytes_def cong: option.case_cong)

lemma SignAccountCard_ok:
  assumes "SignAccountCard cr ac sign = Inr ac'"
  shows "\<exists>sig. sign (AccountCardSignBytes cr ac') = Inr sig \<and> ac' = ac\<lparr>a_signature := sig\<rparr>"
  using assms by (auto simp: SignAccountCard_def Let_def roe_bind_Inr_iff split: if_splits)

end
