(* ===== verification/GroupChange.thy ===== *)
theory GroupChange
  imports AccountCard
begin

section \<open>Roster changes\<close>

text \<open>
  Models \<open>capabilities/messaging/src/lib/messaging/GroupChange.h\<close> and \<open>GroupChange.cpp\<close>: a
  change that a member or admin signs on top of the owner's statement, the bytes it signs, its id,
  the shape check, signing and verifying. Its JSON form is in \<open>RosterJson\<close>.
\<close>

subsection \<open>The record\<close>

datatype group_change_kind = KAdd | KLeave | KRemove | KRename | KLinkAdd | KLinkRevoke

record group_change =
  c_group_id :: string
  c_base_epoch :: u64
  c_signer :: string
  c_signer_device :: string
  c_at :: time_ms
  c_kind :: group_change_kind
  c_member :: string
  c_invite_nonce :: string
  c_link_id :: string
  c_readmits :: string
  c_adds :: "string list"
  c_keeps :: "string list"
  c_title :: string
  c_title_version :: u64
  c_secret_hash :: string
  c_expires_at :: time_ms
  c_max_uses :: u64
  c_signer_card :: "account_card option"
  c_signature :: string

definition kMaxNamedChanges :: nat where
  "kMaxNamedChanges = 256"

definition kMaxTitleBytes :: nat where
  "kMaxTitleBytes = 256"

fun KindToString :: "group_change_kind \<Rightarrow> string" where
  "KindToString KAdd = ''add''"
| "KindToString KLeave = ''leave''"
| "KindToString KRemove = ''remove''"
| "KindToString KRename = ''rename''"
| "KindToString KLinkAdd = ''link_add''"
| "KindToString KLinkRevoke = ''link_revoke''"

definition KindFromString :: "string \<Rightarrow> group_change_kind option" where
  "KindFromString v =
     List.find (\<lambda>kind. KindToString kind = v) [KAdd, KLeave, KRemove, KRename, KLinkAdd, KLinkRevoke]"

lemma KindToString_inject [simp]: "KindToString a = KindToString b \<longleftrightarrow> a = b"
  by (cases a; cases b) simp_all

lemma KindFromString_roundtrip [enum_words, simp]: "KindFromString (KindToString k) = Some k"
  by (cases k) (simp_all add: KindFromString_def)

subsection \<open>The signed bytes and the id\<close>

definition put_ids :: "string list \<Rightarrow> bytes" where
  "put_ids ids = put_list put_string (sort ids)"

definition PutBody :: "group_change \<Rightarrow> bytes" where
  "PutBody c =
     (case c_kind c of
        KAdd \<Rightarrow> put_string (c_member c) @ put_string (c_invite_nonce c)
                 @ put_string (c_link_id c) @ put_string (c_readmits c)
      | KLeave \<Rightarrow> put_ids (c_adds c) @ put_ids (c_keeps c)
      | KRemove \<Rightarrow> put_string (c_member c) @ put_ids (c_adds c) @ put_ids (c_keeps c)
      | KRename \<Rightarrow> put_string (c_title c) @ put_u64 (c_title_version c)
      | KLinkAdd \<Rightarrow> put_string (c_link_id c) @ put_string (c_secret_hash c)
                     @ put_time (c_expires_at c) @ put_u64 (c_max_uses c)
      | KLinkRevoke \<Rightarrow> put_string (c_link_id c))"

definition ChangeSignBytes :: "group_change \<Rightarrow> bytes" where
  "ChangeSignBytes c =
     put_string ''pp-browser:group-roster-change-v1'' @ put_string (c_group_id c)
       @ put_u64 (c_base_epoch c) @ put_string (c_signer c) @ put_string (c_signer_device c)
       @ put_time (c_at c) @ put_string (KindToString (c_kind c)) @ PutBody c"

definition ChangeId :: "crypto \<Rightarrow> group_change \<Rightarrow> string" where
  "ChangeId cr c = cr_bytes_to_hex cr (cr_blake2b256 cr (ChangeSignBytes c))"

text \<open>\<open>ChangesHash\<close>: the hash of the sorted, distinct ids a device holds.\<close>

definition ChangesHashBytes :: "string list \<Rightarrow> bytes" where
  "ChangesHashBytes ids = put_string ''pp-browser:group-changes-v1'' @ put_ids (remdups_adj (sort ids))"

definition ChangesHash :: "crypto \<Rightarrow> string list \<Rightarrow> string" where
  "ChangesHash cr ids = cr_bytes_to_hex cr (cr_blake2b256 cr (ChangesHashBytes ids))"

subsection \<open>The shape check\<close>

definition DistinctBounded :: "string list \<Rightarrow> bool" where
  "DistinctBounded ids \<longleftrightarrow>
     length ids \<le> kMaxNamedChanges \<and> (\<forall>id \<in> set ids. id \<noteq> []) \<and> distinct ids"

record body_fields =
  f_member :: bool
  f_invite :: bool
  f_link_id :: bool
  f_readmits :: bool
  f_named :: bool
  f_rename :: bool
  f_link :: bool

definition no_fields :: body_fields where
  "no_fields = \<lparr>f_member = False, f_invite = False, f_link_id = False, f_readmits = False,
     f_named = False, f_rename = False, f_link = False\<rparr>"

fun FieldsOf :: "group_change_kind \<Rightarrow> body_fields" where
  "FieldsOf KAdd =
     no_fields\<lparr>f_member := True, f_invite := True, f_link_id := True, f_readmits := True\<rparr>"
| "FieldsOf KLeave = no_fields\<lparr>f_named := True\<rparr>"
| "FieldsOf KRemove = no_fields\<lparr>f_member := True, f_named := True\<rparr>"
| "FieldsOf KRename = no_fields\<lparr>f_rename := True\<rparr>"
| "FieldsOf KLinkAdd = no_fields\<lparr>f_link_id := True, f_link := True\<rparr>"
| "FieldsOf KLinkRevoke = no_fields\<lparr>f_link_id := True\<rparr>"

definition NoForeignFields :: "group_change \<Rightarrow> bool" where
  "NoForeignFields c \<longleftrightarrow>
     (let f = FieldsOf (c_kind c) in
       (f_member f \<or> c_member c = []) \<and> (f_invite f \<or> c_invite_nonce c = [])
       \<and> (f_link_id f \<or> c_link_id c = []) \<and> (f_readmits f \<or> c_readmits c = [])
       \<and> (f_named f \<or> (c_adds c = [] \<and> c_keeps c = []))
       \<and> (f_rename f \<or> (c_title c = [] \<and> c_title_version c = 0))
       \<and> (f_link f \<or> (c_secret_hash c = [] \<and> c_expires_at c = 0 \<and> c_max_uses c = 0)))"

definition check_named :: "group_change \<Rightarrow> unit roe" where
  "check_named c =
     (if \<not> DistinctBounded (c_adds c) \<or> \<not> DistinctBounded (c_keeps c)
      then Inl (Error ''roster change: repeated, empty or too many named changes'') else Inr ())"

definition CheckBody :: "group_change \<Rightarrow> unit roe" where
  "CheckBody c =
     (case c_kind c of
        KAdd \<Rightarrow>
          if c_member c = [] \<or> c_member c = c_signer c
          then Inl (Error ''roster change: an add names someone other than its signer'')
          else if (c_invite_nonce c = []) = (c_link_id c = [])
          then Inl (Error ''roster change: an add carries its invite or its link, not both'')
          else Inr ()
      | KRemove \<Rightarrow>
          if c_member c = [] \<or> c_member c = c_signer c
          then Inl (Error ''roster change: a remove names someone other than its signer'')
          else check_named c
      | KLeave \<Rightarrow> check_named c
      | KRename \<Rightarrow>
          if c_title c = [] \<or> length (c_title c) > kMaxTitleBytes \<or> c_title_version c = 0
          then Inl (Error ''roster change: a rename carries a title and a version'')
          else Inr ()
      | KLinkAdd \<Rightarrow>
          if c_link_id c = [] \<or> c_secret_hash c = [] \<or> c_expires_at c \<le> 0
          then Inl (Error ''roster change: a link carries its id, secret hash and expiry'')
          else Inr ()
      | KLinkRevoke \<Rightarrow>
          if c_link_id c = [] then Inl (Error ''roster change: a revoke names its link'')
          else Inr ())"

definition CheckShape :: "group_change \<Rightarrow> unit roe" where
  "CheckShape c =
     (if c_group_id c = [] \<or> c_signer c = [] \<or> c_signer_device c = []
      then Inl (Error ''roster change: missing group, signer or device'')
      else if \<not> NoForeignFields c
      then Inl (Error ''roster change: carries a field its kind does not'')
      else CheckBody c)"

subsection \<open>Signing and verifying\<close>

definition SignChange :: "(bytes \<Rightarrow> string roe) \<Rightarrow> group_change \<Rightarrow> group_change roe" where
  "SignChange sign c =
     roe_bind (CheckShape c) (\<lambda>_.
       roe_bind (sign (ChangeSignBytes c)) (\<lambda>signature. Inr (c\<lparr>c_signature := signature\<rparr>)))"

definition VerifyDeviceSignature :: "crypto \<Rightarrow> group_change \<Rightarrow> account_card_device \<Rightarrow> unit roe" where
  "VerifyDeviceSignature cr c device =
     (if d_peer_id device \<noteq> c_signer_device c
      then Inl (Error ''roster change: not the signing device'')
      else (case (cr_base64_decode cr (d_signing_key device), cr_base64_decode cr (c_signature c)) of
          (Inr key, Inr signature) \<Rightarrow>
            if cr_mldsa_verify cr key (ChangeSignBytes c) signature = Inr True then Inr ()
            else Inl (Error ''roster change: the signature does not verify for the signing device'')
        | _ \<Rightarrow> Inl (Error ''roster change: bad key or signature encoding'')))"

definition VerifyChange :: "crypto \<Rightarrow> group_change \<Rightarrow> account_card \<Rightarrow> time_ms \<Rightarrow> unit roe" where
  "VerifyChange cr c ac now =
     (if k_account_id (a_keys ac) \<noteq> c_signer c
      then Inl (Error ''roster change: the card is not the signer's'')
      else roe_bind (VerifyAccountCard cr ac now) (\<lambda>_.
        case FindCardDevice ac (c_signer_device c) of
          None \<Rightarrow> Inl (Error ''roster change: the signing device is not on the signer's card'')
        | Some device \<Rightarrow> VerifyDeviceSignature cr c device))"

subsection \<open>What the signed bytes determine\<close>

text \<open>
  The values whose length or range the encoding does not truncate; every change a device can hold
  is far inside them.
\<close>

definition change_sizes_ok :: "group_change \<Rightarrow> bool" where
  "change_sizes_ok c \<longleftrightarrow>
     (\<forall>s \<in> {c_group_id c, c_signer c, c_signer_device c, c_member c, c_invite_nonce c, c_link_id c,
        c_readmits c, c_title c, c_secret_hash c}. short_string s)
     \<and> short_list short_string (c_adds c) \<and> short_list short_string (c_keeps c)
     \<and> int64_range (c_at c) \<and> int64_range (c_expires_at c)"

text \<open>
  A change as the signature sees it: the order of the named ids, the carried card and the signature
  itself are not signed.
\<close>

definition signed_change :: "group_change \<Rightarrow> group_change" where
  "signed_change c = c\<lparr>c_adds := sort (c_adds c), c_keeps := sort (c_keeps c),
     c_signer_card := None, c_signature := []\<rparr>"

lemma short_list_sort [simp]: "short_list ok (sort xs) \<longleftrightarrow> short_list ok xs"
  by (simp add: short_list_def)

lemma put_ids_cancel [codec_cancel]:
  "short_list short_string xs \<Longrightarrow> short_list short_string ys \<Longrightarrow>
    put_ids xs @ r = put_ids ys @ s \<longleftrightarrow> sort xs = sort ys \<and> r = s"
  by (simp add: put_ids_def codec_cancel)

lemma short_kind [simp]: "short_string (KindToString k)"
  by (cases k) (simp_all add: short_string_def)

lemma NoForeignFields_body:
  "NoForeignFields c \<Longrightarrow> NoForeignFields d \<Longrightarrow> change_sizes_ok c \<Longrightarrow> change_sizes_ok d \<Longrightarrow>
    c_kind c = c_kind d \<Longrightarrow> PutBody c = PutBody d \<Longrightarrow>
    c_member c = c_member d \<and> c_invite_nonce c = c_invite_nonce d \<and> c_link_id c = c_link_id d
    \<and> c_readmits c = c_readmits d \<and> sort (c_adds c) = sort (c_adds d)
    \<and> sort (c_keeps c) = sort (c_keeps d) \<and> c_title c = c_title d
    \<and> c_title_version c = c_title_version d \<and> c_secret_hash c = c_secret_hash d
    \<and> c_expires_at c = c_expires_at d \<and> c_max_uses c = c_max_uses d"
  using put_ids_cancel [of "c_keeps c" "c_keeps d" "[]" "[]"]
  by (cases "c_kind d")
    (simp_all add: PutBody_def NoForeignFields_def no_fields_def change_sizes_ok_def codec_cancel)

lemma CheckShape_NoForeign: "CheckShape c = Inr () \<Longrightarrow> NoForeignFields c"
  by (simp add: CheckShape_def split: if_splits)

text \<open>
  C38: signing a change is unambiguous. Two well-formed changes with the same signed bytes agree in
  every signed field: all of them but the order of the named ids, the carried card and the
  signature. No field of the encoding runs into the next, and no body can be read as another
  kind's.
\<close>

theorem change_sign_bytes_injective:
  assumes "CheckShape c = Inr ()" and "CheckShape d = Inr ()"
    and "change_sizes_ok c" and "change_sizes_ok d"
    and eq: "ChangeSignBytes c = ChangeSignBytes d"
  shows "signed_change c = signed_change d"
proof -
  have hdr: "c_group_id c = c_group_id d" "c_base_epoch c = c_base_epoch d"
    "c_signer c = c_signer d" "c_signer_device c = c_signer_device d" "c_at c = c_at d"
    "c_kind c = c_kind d" "PutBody c = PutBody d"
    using eq assms(3,4)
    by (simp_all add: ChangeSignBytes_def change_sizes_ok_def codec_cancel)
  from NoForeignFields_body [OF CheckShape_NoForeign [OF assms(1)] CheckShape_NoForeign [OF assms(2)]
      assms(3,4) hdr(6,7)] hdr
  show ?thesis by (simp add: signed_change_def)
qed

definition sample_change :: group_change where
  "sample_change = \<lparr>c_group_id = ''g'', c_base_epoch = 3, c_signer = ''bob'',
     c_signer_device = ''bob-1'', c_at = 1000, c_kind = KRemove, c_member = ''carol'',
     c_invite_nonce = [], c_link_id = [], c_readmits = [], c_adds = [''a2'', ''a1''],
     c_keeps = [''k1''], c_title = [], c_title_version = 0, c_secret_hash = [], c_expires_at = 0,
     c_max_uses = 0, c_signer_card = None, c_signature = ''s''\<rparr>"

theorem change_sign_bytes_injective_witness:
  "signed_change sample_change
    = signed_change (sample_change\<lparr>c_adds := [''a1'', ''a2''], c_signature := ''t''\<rparr>)"
proof (rule change_sign_bytes_injective)
  show "CheckShape sample_change = Inr ()"
    "CheckShape (sample_change\<lparr>c_adds := [''a1'', ''a2''], c_signature := ''t''\<rparr>) = Inr ()"
    by (simp_all add: CheckShape_def NoForeignFields_def no_fields_def sample_change_def CheckBody_def
        check_named_def DistinctBounded_def kMaxNamedChanges_def)
  show "change_sizes_ok sample_change"
    "change_sizes_ok (sample_change\<lparr>c_adds := [''a1'', ''a2''], c_signature := ''t''\<rparr>)"
    by (simp_all add: change_sizes_ok_def sample_change_def short_string_def short_list_def
        int64_range_def)
  show "ChangeSignBytes sample_change
      = ChangeSignBytes (sample_change\<lparr>c_adds := [''a1'', ''a2''], c_signature := ''t''\<rparr>)"
    by (simp add: ChangeSignBytes_def PutBody_def sample_change_def put_ids_def)
qed

text \<open>
  The hash of the held changes is a function of the set of their ids, and its preimage
  determines that set: two devices whose preimages agree hold the same ids.
\<close>

theorem changes_hash_of_set:
  assumes "short_list short_string ids" and "short_list short_string ids'"
  shows "(set ids = set ids' \<longrightarrow> ChangesHash cr ids = ChangesHash cr ids')
    \<and> (ChangesHashBytes ids = ChangesHashBytes ids' \<longrightarrow> set ids = set ids')"
proof (intro conjI impI)
  have sets: "set (remdups_adj (sort xs)) = set xs" for xs :: "string list"
    by simp
  show "ChangesHash cr ids = ChangesHash cr ids'" if "set ids = set ids'"
  proof -
    have "remdups_adj (sort ids) = remdups_adj (sort ids')"
      by (rule strict_sorted_unique) (simp_all add: sorted_remdups_adj_strict that)
    then show ?thesis by (simp add: ChangesHash_def ChangesHashBytes_def)
  qed
  show "set ids = set ids'" if "ChangesHashBytes ids = ChangesHashBytes ids'"
  proof -
    have short: "short_list short_string (remdups_adj (sort xs))" if "short_list short_string xs" for xs
      using that le_less_trans [OF remdups_adj_length [of "sort xs"]] by (auto simp: short_list_def)
    have "sort (remdups_adj (sort ids)) = sort (remdups_adj (sort ids'))"
      using that put_ids_cancel [OF short [OF assms(1)] short [OF assms(2)], of "[]" "[]"]
      by (simp add: ChangesHashBytes_def)
    then show ?thesis by (metis set_sort sets)
  qed
qed

theorem changes_hash_of_set_witness:
  "ChangesHash sample_crypto [''b'', ''a'', ''b''] = ChangesHash sample_crypto [''a'', ''b'']"
proof -
  have "short_list short_string [''b'', ''a'', ''b'']" "short_list short_string [''a'', ''b'']"
    by (simp_all add: short_list_def short_string_def)
  moreover have "set [''b'', ''a'', ''b''] = set [''a'', ''b'']" by auto
  ultimately show ?thesis using changes_hash_of_set by blast
qed

end
