(* ===== verification/GroupRosterStatement.thy ===== *)
theory GroupRosterStatement
  imports GroupChange
begin

section \<open>The owner-signed roster\<close>

text \<open>
  Models \<open>capabilities/messaging/src/lib/messaging/GroupRosterStatement.h\<close> and
  \<open>GroupRosterStatement.cpp\<close>: the statement an owner signs, the bytes it signs, signing,
  verifying (structure, signature and the chain of ownership transfers), and choosing among valid
  statements. Its JSON form is in \<open>RosterJson\<close>.
\<close>

subsection \<open>Records\<close>

record statement_member =
  sm_identity :: string
  sm_role :: member_role
  sm_joined_at :: time_ms
  sm_added_by :: string

record removed_member =
  rv_identity :: string
  rv_removal :: string
  rv_removed_by :: string

record invite_link =
  l_link_id :: string
  l_secret_hash :: string
  l_maker :: string
  l_expires_at :: time_ms
  l_max_uses :: u64
  l_uses :: u64

record folded_change =
  fc_id :: string
  fc_base_epoch :: u64

record owner_transfer =
  t_from :: string
  t_from_key :: string
  t_to :: string
  t_roster_epoch :: u64
  t_signature :: string

record statement =
  s_group_id :: string
  s_roster_epoch :: u64
  s_members :: "statement_member list"
  s_preset :: group_preset
  s_title :: string
  s_title_version :: u64
  s_removed :: "removed_member list"
  s_links :: "invite_link list"
  s_folded :: "folded_change list"
  s_change_floor :: u64
  s_owner :: string
  s_owner_key :: string
  s_owner_chain :: "owner_transfer list"
  s_owner_signature :: string
  s_dissolved :: bool

definition StatementLists :: "statement \<Rightarrow> string \<Rightarrow> bool" where
  "StatementLists s identity \<longleftrightarrow> (\<exists>m \<in> set (s_members s). sm_identity m = identity)"

definition StatementFolded :: "statement \<Rightarrow> string \<Rightarrow> bool" where
  "StatementFolded s cid \<longleftrightarrow> (\<exists>f \<in> set (s_folded s). fc_id f = cid)"

subsection \<open>The signed bytes\<close>

definition SortLists :: "statement \<Rightarrow> statement" where
  "SortLists s = s\<lparr>s_members := sort_key sm_identity (s_members s),
     s_removed := sort_key rv_identity (s_removed s),
     s_links := sort_key l_link_id (s_links s),
     s_folded := sort_key fc_id (s_folded s)\<rparr>"

definition put_member :: "statement_member \<Rightarrow> bytes" where
  "put_member m = put_string (sm_identity m) @ put_string (MemberRoleToString (sm_role m))
     @ put_time (sm_joined_at m) @ put_string (sm_added_by m)"

definition PutMembers :: "statement_member list \<Rightarrow> bytes" where
  "PutMembers = put_list put_member"

definition put_removed :: "removed_member \<Rightarrow> bytes" where
  "put_removed r = put_string (rv_identity r) @ put_string (rv_removal r)
     @ put_string (rv_removed_by r)"

definition PutRemoved :: "removed_member list \<Rightarrow> bytes" where
  "PutRemoved = put_list put_removed"

definition put_link :: "invite_link \<Rightarrow> bytes" where
  "put_link l = put_string (l_link_id l) @ put_string (l_secret_hash l) @ put_string (l_maker l)
     @ put_time (l_expires_at l) @ put_u64 (l_max_uses l) @ put_u64 (l_uses l)"

definition PutLinks :: "invite_link list \<Rightarrow> bytes" where
  "PutLinks = put_list put_link"

definition put_folded :: "folded_change \<Rightarrow> bytes" where
  "put_folded f = put_string (fc_id f) @ put_u64 (fc_base_epoch f)"

definition StatementSignBytes :: "statement \<Rightarrow> bytes" where
  "StatementSignBytes s =
     (let sorted = SortLists s in
       put_string (if s_dissolved s then ''pp-browser:group-dissolved-v3''
                   else ''pp-browser:group-roster-statement-v3'')
       @ put_string (s_group_id sorted) @ put_u64 (s_roster_epoch sorted)
       @ put_string (s_owner sorted) @ PutMembers (s_members sorted)
       @ put_string (GroupPresetToString (s_preset sorted)) @ put_string (s_title sorted)
       @ put_u64 (s_title_version sorted) @ PutRemoved (s_removed sorted)
       @ PutLinks (s_links sorted) @ put_list put_folded (s_folded sorted)
       @ put_u64 (s_change_floor sorted))"

definition TransferSignBytes :: "string \<Rightarrow> owner_transfer \<Rightarrow> bytes" where
  "TransferSignBytes group_id t =
     put_string ''pp-browser:group-owner-transfer-v1'' @ put_string group_id
       @ put_string (t_from t) @ put_string (t_to t) @ put_u64 (t_roster_epoch t)"

subsection \<open>Signing\<close>

text \<open>\<open>IAccountSigningAccess\<close>: the account's id and its signature, each of which may fail.\<close>

record account_signer =
  sg_account_id :: "string roe"
  sg_sign :: "bytes \<Rightarrow> string roe"

definition SignStatement :: "account_signer \<Rightarrow> string \<Rightarrow> statement \<Rightarrow> statement roe" where
  "SignStatement signer public_key draft =
     roe_bind (sg_account_id signer) (\<lambda>account.
       let ready = (SortLists draft)\<lparr>s_owner := account, s_owner_key := public_key\<rparr>
       in roe_bind (sg_sign signer (StatementSignBytes ready)) (\<lambda>signature.
            Inr (ready\<lparr>s_owner_signature := signature\<rparr>)))"

definition empty_statement :: statement where
  "empty_statement = \<lparr>s_group_id = [], s_roster_epoch = 0, s_members = [], s_preset = Open,
     s_title = [], s_title_version = 0, s_removed = [], s_links = [], s_folded = [],
     s_change_floor = 0, s_owner = [], s_owner_key = [], s_owner_chain = [],
     s_owner_signature = [], s_dissolved = False\<rparr>"

definition Sign ::
  "account_signer \<Rightarrow> string \<Rightarrow> string \<Rightarrow> u64 \<Rightarrow> statement_member list \<Rightarrow> owner_transfer list
    \<Rightarrow> bool \<Rightarrow> group_preset \<Rightarrow> statement roe" where
  "Sign signer public_key group_id roster_epoch members owner_chain dissolved preset =
     SignStatement signer public_key
       (empty_statement\<lparr>s_group_id := group_id, s_roster_epoch := roster_epoch,
          s_members := members, s_owner_chain := owner_chain, s_dissolved := dissolved,
          s_preset := preset\<rparr>)"

definition SignTransfer ::
  "account_signer \<Rightarrow> string \<Rightarrow> string \<Rightarrow> string \<Rightarrow> u64 \<Rightarrow> owner_transfer roe" where
  "SignTransfer signer public_key group_id to_identity roster_epoch =
     roe_bind (sg_account_id signer) (\<lambda>account.
       let t = \<lparr>t_from = account, t_from_key = public_key, t_to = to_identity,
                t_roster_epoch = roster_epoch, t_signature = []\<rparr>
       in roe_bind (sg_sign signer (TransferSignBytes group_id t)) (\<lambda>signature.
            Inr (t\<lparr>t_signature := signature\<rparr>)))"

subsection \<open>Verifying\<close>

definition AllUnique :: "('a \<Rightarrow> string) \<Rightarrow> 'a list \<Rightarrow> bool" where
  "AllUnique key items \<longleftrightarrow> (\<forall>x \<in> set items. key x \<noteq> []) \<and> distinct (map key items)"

definition CheckLists :: "statement \<Rightarrow> unit roe" where
  "CheckLists s =
     (if \<not> AllUnique rv_identity (s_removed s)
      then Inl (Error ''roster statement: empty or repeated removed account'')
      else if \<exists>r \<in> set (s_removed s). StatementLists s (rv_identity r)
      then Inl (Error ''roster statement: a removed account is also a member'')
      else if \<not> AllUnique l_link_id (s_links s)
      then Inl (Error ''roster statement: empty or repeated link id'')
      else if \<not> AllUnique fc_id (s_folded s)
      then Inl (Error ''roster statement: empty or repeated folded change'')
      else if s_change_floor s > s_roster_epoch s
      then Inl (Error ''roster statement: change floor above its epoch'')
      else if \<exists>f \<in> set (s_folded s). fc_base_epoch f < s_change_floor s
      then Inl (Error ''roster statement: a folded change below the change floor'')
      else Inr ())"

definition CheckSignature :: "crypto \<Rightarrow> string \<Rightarrow> string \<Rightarrow> bytes \<Rightarrow> string \<Rightarrow> unit roe" where
  "CheckSignature cr identity public_key message signature =
     (case cr_base64_decode cr public_key of
        Inl e \<Rightarrow> Inl (Error (''roster statement: bad key for '' @ identity))
      | Inr key \<Rightarrow>
          if cr_account_id cr key \<noteq> Inr identity
          then Inl (Error (''roster statement: key is not '' @ identity))
          else (case cr_base64_decode cr signature of
              Inl e \<Rightarrow> Inl (Error ''roster statement: bad signature encoding'')
            | Inr sig \<Rightarrow>
                if cr_mldsa_verify cr key message sig = Inr True then Inr ()
                else Inl (Error (''roster statement: signature does not verify for '' @ identity))))"

text \<open>The loop over the members: ids non-empty and new, the owners counted.\<close>

fun verify_members ::
  "string \<Rightarrow> statement_member list \<Rightarrow> string list \<Rightarrow> nat \<Rightarrow> bool \<Rightarrow> (nat \<times> bool) roe" where
  "verify_members owner [] seen owners listed = Inr (owners, listed)"
| "verify_members owner (m # ms) seen owners listed =
     (if sm_identity m = [] \<or> sm_identity m \<in> set seen
      then Inl (Error ''roster statement: empty or repeated member'')
      else if sm_role m = Owner
      then verify_members owner ms (sm_identity m # seen) (Suc owners) (sm_identity m = owner)
      else verify_members owner ms (sm_identity m # seen) owners listed)"

text \<open>The loop over the owner chain; \<open>prev\<close> is where the transfer before it led.\<close>

fun verify_chain ::
  "crypto \<Rightarrow> string \<Rightarrow> u64 \<Rightarrow> string option \<Rightarrow> u64 \<Rightarrow> owner_transfer list \<Rightarrow> unit roe" where
  "verify_chain cr group_id epoch prev last_epoch [] = Inr ()"
| "verify_chain cr group_id epoch prev last_epoch (t # ts) =
     (if (case prev of None \<Rightarrow> False | Some p \<Rightarrow> t_from t \<noteq> p)
      then Inl (Error ''roster statement: owner chain is broken'')
      else if t_roster_epoch t \<le> last_epoch \<or> t_roster_epoch t > epoch
      then Inl (Error ''roster statement: owner chain epochs out of order'')
      else roe_bind (CheckSignature cr (t_from t) (t_from_key t) (TransferSignBytes group_id t)
             (t_signature t))
           (\<lambda>_. verify_chain cr group_id epoch (Some (t_to t)) (t_roster_epoch t) ts))"

definition Verify :: "crypto \<Rightarrow> statement \<Rightarrow> string \<Rightarrow> unit roe" where
  "Verify cr s known_owner =
     (if s_group_id s = [] \<or> s_owner s = []
      then Inl (Error ''roster statement: missing group or owner'')
      else roe_bind (verify_members (s_owner s) (s_members s) [] 0 False) (\<lambda>(owners, listed).
        if owners \<noteq> 1 \<or> \<not> listed
        then Inl (Error ''roster statement: its signer must be its one owner'')
        else roe_bind (CheckLists s) (\<lambda>_.
          roe_bind (CheckSignature cr (s_owner s) (s_owner_key s) (StatementSignBytes s)
            (s_owner_signature s)) (\<lambda>_.
            roe_bind (verify_chain cr (s_group_id s) (s_roster_epoch s) None 0 (s_owner_chain s))
              (\<lambda>_.
              if s_owner_chain s \<noteq> [] \<and> t_to (last (s_owner_chain s)) \<noteq> s_owner s
              then Inl (Error ''roster statement: owner chain does not end at its owner'')
              else if known_owner = [] \<or> known_owner = s_owner s then Inr ()
              else if \<exists>t \<in> set (s_owner_chain s). t_from t = known_owner then Inr ()
              else Inl (Error ''roster statement: not signed by the owner we know''))))))"

subsection \<open>Choosing\<close>

definition OwnerHandedOn :: "owner_transfer list \<Rightarrow> statement \<Rightarrow> bool" where
  "OwnerHandedOn known candidate \<longleftrightarrow>
     (\<exists>away \<in> set known. t_from away = s_owner candidate
        \<and> t_roster_epoch away \<le> s_roster_epoch candidate
        \<and> \<not> (\<exists>again \<in> set known. t_to again = s_owner candidate
               \<and> t_roster_epoch again > t_roster_epoch away
               \<and> t_roster_epoch again \<le> s_roster_epoch candidate))"

fun pick_from :: "owner_transfer list \<Rightarrow> statement option \<Rightarrow> statement list \<Rightarrow> statement option" where
  "pick_from known best [] = best"
| "pick_from known best (s # ss) =
     (if OwnerHandedOn known s then pick_from known best ss
      else (case best of
          None \<Rightarrow> pick_from known (Some s) ss
        | Some b \<Rightarrow> pick_from known (if s_roster_epoch s > s_roster_epoch b then Some s else best) ss))"

definition Pick :: "statement list \<Rightarrow> statement option" where
  "Pick valid = pick_from (concat (map s_owner_chain valid)) None valid"

subsection \<open>What a verified statement is\<close>

text \<open>The structure \<open>Verify\<close> checks, as one predicate; what the owner's device must sign.\<close>

definition statement_wf :: "statement \<Rightarrow> bool" where
  "statement_wf s \<longleftrightarrow>
     AllUnique sm_identity (s_members s)
     \<and> (\<exists>m \<in> set (s_members s). sm_role m = Owner \<and> sm_identity m = s_owner s)
     \<and> (\<forall>m \<in> set (s_members s). sm_role m = Owner \<longrightarrow> sm_identity m = s_owner s)
     \<and> AllUnique rv_identity (s_removed s)
     \<and> (\<forall>r \<in> set (s_removed s). \<not> StatementLists s (rv_identity r))
     \<and> AllUnique l_link_id (s_links s) \<and> AllUnique fc_id (s_folded s)
     \<and> s_change_floor s \<le> s_roster_epoch s
     \<and> (\<forall>f \<in> set (s_folded s). s_change_floor s \<le> fc_base_epoch f)"

lemma statement_wf_lists: "CheckLists s = Inr () \<longleftrightarrow>
     AllUnique rv_identity (s_removed s)
     \<and> (\<forall>r \<in> set (s_removed s). \<not> StatementLists s (rv_identity r))
     \<and> AllUnique l_link_id (s_links s) \<and> AllUnique fc_id (s_folded s)
     \<and> s_change_floor s \<le> s_roster_epoch s
     \<and> (\<forall>f \<in> set (s_folded s). s_change_floor s \<le> fc_base_epoch f)"
  by (auto simp: CheckLists_def not_less not_le split: if_splits)

abbreviation owners_of :: "statement_member list \<Rightarrow> statement_member list" where
  "owners_of ms \<equiv> filter (\<lambda>m. sm_role m = Owner) ms"

lemma verify_members_Inr:
  "verify_members owner ms seen k l = Inr (n, l') \<longleftrightarrow>
    (\<forall>m \<in> set ms. sm_identity m \<noteq> [] \<and> sm_identity m \<notin> set seen) \<and> distinct (map sm_identity ms)
    \<and> n = k + length (owners_of ms)
    \<and> l' = (if owners_of ms = [] then l else sm_identity (last (owners_of ms)) = owner)"
proof (induction owner ms seen k l rule: verify_members.induct)
  case (1 owner seen k l)
  show ?case by auto
next
  case (2 owner m ms seen k l)
  show ?case
  proof (cases "sm_identity m = [] \<or> sm_identity m \<in> set seen")
    case False
    with 2 show ?thesis
      by (cases "sm_role m = Owner") (auto simp: image_iff)
  qed auto
qed

lemma one_owner:
  assumes "distinct (map sm_identity ms)"
  shows "length (owners_of ms) = 1 \<and> sm_identity (last (owners_of ms)) = owner
    \<longleftrightarrow> (\<exists>m \<in> set ms. sm_role m = Owner \<and> sm_identity m = owner)
      \<and> (\<forall>m \<in> set ms. sm_role m = Owner \<longrightarrow> sm_identity m = owner)" (is "?L \<longleftrightarrow> ?R")
proof
  assume ?L
  then obtain m where one: "owners_of ms = [m]" and m: "sm_identity m = owner"
    by (auto simp: length_Suc_conv)
  have "x = m" if "x \<in> set ms" "sm_role x = Owner" for x
  proof -
    have "x \<in> set (owners_of ms)" using that by simp
    then show ?thesis by (simp add: one)
  qed
  moreover have "m \<in> set (owners_of ms)" by (simp add: one)
  ultimately show ?R using m by auto
next
  assume R: ?R
  have "distinct (map sm_identity (owners_of ms))" using assms by (rule distinct_map_filter)
  moreover have ne: "owners_of ms \<noteq> []" and const: "\<forall>m \<in> set (owners_of ms). sm_identity m = owner"
    using R by (auto simp: filter_empty_conv)
  ultimately have "length (owners_of ms) = 1" by (metis length_one_of_distinct_const)
  with ne const show ?L by (meson last_in_set)
qed

lemma Verify_ok_iff:
  "Verify cr s known = Inr () \<longleftrightarrow>
    s_group_id s \<noteq> [] \<and> s_owner s \<noteq> [] \<and> statement_wf s
    \<and> CheckSignature cr (s_owner s) (s_owner_key s) (StatementSignBytes s) (s_owner_signature s) = Inr ()
    \<and> verify_chain cr (s_group_id s) (s_roster_epoch s) None 0 (s_owner_chain s) = Inr ()
    \<and> (s_owner_chain s \<noteq> [] \<longrightarrow> t_to (last (s_owner_chain s)) = s_owner s)
    \<and> (known = [] \<or> known = s_owner s \<or> (\<exists>t \<in> set (s_owner_chain s). t_from t = known))"
proof -
  have members: "(\<exists>n l. verify_members (s_owner s) (s_members s) [] 0 False = Inr (n, l) \<and> n = 1 \<and> l)
    \<longleftrightarrow> AllUnique sm_identity (s_members s)
      \<and> (\<exists>m \<in> set (s_members s). sm_role m = Owner \<and> sm_identity m = s_owner s)
      \<and> (\<forall>m \<in> set (s_members s). sm_role m = Owner \<longrightarrow> sm_identity m = s_owner s)"
    unfolding verify_members_Inr AllUnique_def using one_owner [of "s_members s" "s_owner s"] by force
  show ?thesis
    unfolding statement_wf_def using members
    by (auto simp: Verify_def roe_bind_Inr_iff statement_wf_lists)
qed

lemma CheckSignature_ok:
  "CheckSignature cr identity key message signature = Inr () \<longleftrightarrow>
    (\<exists>k sig. cr_base64_decode cr key = Inr k \<and> cr_account_id cr k = Inr identity
      \<and> cr_base64_decode cr signature = Inr sig \<and> cr_mldsa_verify cr k message sig = Inr True)"
  by (auto simp: CheckSignature_def split: sum.splits if_splits)

text \<open>
  A path of ownership: \<open>leads cr g ts a b\<close> says that the transfers \<open>ts\<close>, in order, each signed by
  the owner it moves from, hand group \<open>g\<close> from \<open>a\<close> to \<open>b\<close>.
\<close>

inductive leads :: "crypto \<Rightarrow> string \<Rightarrow> owner_transfer list \<Rightarrow> string \<Rightarrow> string \<Rightarrow> bool"
  for cr :: crypto and g :: string where
  leads_Nil: "leads cr g [] a a"
| leads_Cons: "t_from t = a \<Longrightarrow>
    CheckSignature cr a (t_from_key t) (TransferSignBytes g t) (t_signature t) = Inr () \<Longrightarrow>
    leads cr g ts (t_to t) b \<Longrightarrow> leads cr g (t # ts) a b"

inductive_simps leads_Cons_iff: "leads cr g (t # ts) a b"
inductive_simps leads_Nil_iff: "leads cr g [] a b"

lemma verify_chain_Cons:
  "verify_chain cr g e prev l (t # ts) = Inr () \<longleftrightarrow>
    (\<forall>p. prev = Some p \<longrightarrow> t_from t = p) \<and> l < t_roster_epoch t \<and> t_roster_epoch t \<le> e
    \<and> CheckSignature cr (t_from t) (t_from_key t) (TransferSignBytes g t) (t_signature t) = Inr ()
    \<and> verify_chain cr g e (Some (t_to t)) (t_roster_epoch t) ts = Inr ()"
  by (auto simp: roe_bind_Inr_iff not_le not_less split: option.splits)

declare verify_chain.simps(2) [simp del]

lemma verify_chain_epochs:
  "verify_chain cr g e prev l ts = Inr () \<Longrightarrow>
    sorted_wrt (<) (map t_roster_epoch ts) \<and> (\<forall>t \<in> set ts. l < t_roster_epoch t \<and> t_roster_epoch t \<le> e)"
proof (induction ts arbitrary: prev l)
  case (Cons t ts)
  then have rest: "sorted_wrt (<) (map t_roster_epoch ts)"
    "\<forall>u \<in> set ts. t_roster_epoch t < t_roster_epoch u \<and> t_roster_epoch u \<le> e"
    and "l < t_roster_epoch t" "t_roster_epoch t \<le> e"
    unfolding verify_chain_Cons by blast+
  then show ?case by (auto intro: less_trans)
qed simp

lemma verify_chain_leads:
  "verify_chain cr g e prev l ts = Inr () \<Longrightarrow> ts \<noteq> [] \<Longrightarrow>
    leads cr g ts (t_from (hd ts)) (t_to (last ts)) \<and> (\<forall>p. prev = Some p \<longrightarrow> t_from (hd ts) = p)"
proof (induction ts arbitrary: prev l)
  case (Cons t ts)
  show ?case
  proof (cases "ts = []")
    case True
    with Cons.prems show ?thesis by (simp add: verify_chain_Cons leads_Cons_iff leads_Nil_iff)
  next
    case False
    with Cons show ?thesis by (fastforce simp: verify_chain_Cons leads_Cons_iff)
  qed
qed simp

lemma verify_chain_drop:
  "verify_chain cr g e prev l (ts @ us) = Inr () \<Longrightarrow> us \<noteq> [] \<Longrightarrow>
    leads cr g us (t_from (hd us)) (t_to (last us))"
proof (induction ts arbitrary: prev l)
  case Nil
  then show ?case using verify_chain_leads by fastforce
next
  case (Cons t ts)
  then show ?case by (auto simp: verify_chain_Cons)
qed

lemma leads_key: "leads cr g (t # ts) a b \<Longrightarrow> t_from t = a"
  by (simp add: leads_Cons_iff)

text \<open>
  C5: a statement that verifies for a device that knows an owner is well formed, carries a signature
  under a key whose account id is its owner, and, when its owner is not the one the device knows,
  brings a chain of transfers from that one to its owner, each signed by the owner giving the group
  up, their epochs rising and none past the statement's.
\<close>

theorem verified_statement_authority:
  assumes ok: "Verify cr s known = Inr ()" and "known \<noteq> []"
  shows "statement_wf s
    \<and> (\<exists>key sig. cr_base64_decode cr (s_owner_key s) = Inr key
        \<and> cr_account_id cr key = Inr (s_owner s)
        \<and> cr_base64_decode cr (s_owner_signature s) = Inr sig
        \<and> cr_mldsa_verify cr key (StatementSignBytes s) sig = Inr True)
    \<and> (\<exists>before ts. s_owner_chain s = before @ ts \<and> leads cr (s_group_id s) ts known (s_owner s)
        \<and> sorted_wrt (<) (map t_roster_epoch ts) \<and> (\<forall>t \<in> set ts. t_roster_epoch t \<le> s_roster_epoch s))"
proof (intro conjI)
  note okD = ok [unfolded Verify_ok_iff]
  show "statement_wf s" using okD by blast
  show "\<exists>key sig. cr_base64_decode cr (s_owner_key s) = Inr key \<and> cr_account_id cr key = Inr (s_owner s)
      \<and> cr_base64_decode cr (s_owner_signature s) = Inr sig
      \<and> cr_mldsa_verify cr key (StatementSignBytes s) sig = Inr True"
    using okD by (simp add: CheckSignature_ok)
  show "\<exists>before ts. s_owner_chain s = before @ ts \<and> leads cr (s_group_id s) ts known (s_owner s)
      \<and> sorted_wrt (<) (map t_roster_epoch ts) \<and> (\<forall>t \<in> set ts. t_roster_epoch t \<le> s_roster_epoch s)"
  proof (cases "known = s_owner s")
    case True
    then show ?thesis by (intro exI [of _ "s_owner_chain s"] exI [of _ "[]"]) (simp add: leads_Nil_iff)
  next
    case False
    then obtain t where "t \<in> set (s_owner_chain s)" and from_known: "t_from t = known"
      using okD assms(2) by blast
    then obtain xs ys where chain: "s_owner_chain s = xs @ t # ys" by (meson split_list)
    with okD have vc: "verify_chain cr (s_group_id s) (s_roster_epoch s) None 0 (xs @ t # ys) = Inr ()"
      and "t_to (last (t # ys)) = s_owner s" by auto
    with verify_chain_drop [OF vc] from_known
    have "leads cr (s_group_id s) (t # ys) known (s_owner s)" by simp
    moreover from verify_chain_epochs [OF vc]
    have "sorted_wrt (<) (map t_roster_epoch (t # ys))
      \<and> (\<forall>u \<in> set (t # ys). t_roster_epoch u \<le> s_roster_epoch s)"
      by (simp add: sorted_wrt_append)
    ultimately show ?thesis using chain by blast
  qed
qed

text \<open>A small signed statement for the witnesses.\<close>

definition sample_transfer :: owner_transfer where
  "sample_transfer = \<lparr>t_from = ''z'', t_from_key = ''z'', t_to = ''a'', t_roster_epoch = 2,
     t_signature = ''z''\<rparr>"

definition sample_statement :: statement where
  "sample_statement = empty_statement\<lparr>s_group_id := ''g'', s_roster_epoch := 5,
     s_members := [\<lparr>sm_identity = ''a'', sm_role = Owner, sm_joined_at = 1, sm_added_by = []\<rparr>,
       \<lparr>sm_identity = ''b'', sm_role = Admin, sm_joined_at = 2, sm_added_by = ''a''\<rparr>,
       \<lparr>sm_identity = ''c'', sm_role = Member, sm_joined_at = 3, sm_added_by = ''b''\<rparr>,
       \<lparr>sm_identity = ''d'', sm_role = Member, sm_joined_at = 4, sm_added_by = ''b''\<rparr>],
     s_title := ''t'', s_title_version := 4, s_owner := ''a'', s_owner_key := ''a'',
     s_owner_chain := [sample_transfer], s_owner_signature := ''a''\<rparr>"

lemma text_of_bytes_of_string [simp]: "text_of_bytes (bytes_of_string s) = s"
  by (simp add: text_of_bytes_def bytes_of_string_def comp_def)

lemma sample_statement_verifies: "Verify sample_crypto sample_statement ''z'' = Inr ()"
  by (simp add: Verify_ok_iff sample_statement_def sample_transfer_def empty_statement_def
      sample_crypto_def statement_wf_def AllUnique_def StatementLists_def CheckSignature_def
      verify_chain_Cons)

theorem verified_statement_authority_witness:
  "\<exists>before ts. s_owner_chain sample_statement = before @ ts
     \<and> leads sample_crypto (s_group_id sample_statement) ts ''z'' (s_owner sample_statement)"
  using verified_statement_authority [OF sample_statement_verifies] by blast

subsection \<open>The signed bytes determine the statement\<close>

definition member_ok :: "statement_member \<Rightarrow> bool" where
  "member_ok m \<longleftrightarrow> short_string (sm_identity m) \<and> int64_range (sm_joined_at m)
     \<and> short_string (sm_added_by m)"

definition removed_ok :: "removed_member \<Rightarrow> bool" where
  "removed_ok r \<longleftrightarrow> short_string (rv_identity r) \<and> short_string (rv_removal r)
     \<and> short_string (rv_removed_by r)"

definition link_ok :: "invite_link \<Rightarrow> bool" where
  "link_ok l \<longleftrightarrow> short_string (l_link_id l) \<and> short_string (l_secret_hash l)
     \<and> short_string (l_maker l) \<and> int64_range (l_expires_at l)"

definition folded_ok :: "folded_change \<Rightarrow> bool" where
  "folded_ok f \<longleftrightarrow> short_string (fc_id f)"

lemma short_role [simp]: "short_string (MemberRoleToString r)"
  by (cases r) (simp_all add: short_string_def)

lemma short_preset [simp]: "short_string (GroupPresetToString p)"
  by (cases p) (simp_all add: GroupPresetToString_def short_string_def)

interpretation member_code: prefix_code put_member member_ok
  by unfold_locales (auto simp: put_member_def member_ok_def codec_cancel intro!: statement_member.equality)

interpretation removed_code: prefix_code put_removed removed_ok
  by unfold_locales (auto simp: put_removed_def removed_ok_def codec_cancel intro!: removed_member.equality)

interpretation link_code: prefix_code put_link link_ok
  by unfold_locales (auto simp: put_link_def link_ok_def codec_cancel intro!: invite_link.equality)

interpretation folded_code: prefix_code put_folded folded_ok
  by unfold_locales (auto simp: put_folded_def folded_ok_def codec_cancel intro!: folded_change.equality)

lemmas statement_list_cancel [codec_cancel] =
  member_code.list_cancel removed_code.list_cancel link_code.list_cancel folded_code.list_cancel
  folded_code.list_injective

definition statement_sizes_ok :: "statement \<Rightarrow> bool" where
  "statement_sizes_ok s \<longleftrightarrow>
     short_string (s_group_id s) \<and> short_string (s_owner s) \<and> short_string (s_title s)
     \<and> short_list member_ok (s_members s) \<and> short_list removed_ok (s_removed s)
     \<and> short_list link_ok (s_links s) \<and> short_list folded_ok (s_folded s)"

text \<open>A statement as its signature sees it: the owner's key, the chain and the signature aside.\<close>

definition signed_statement :: "statement \<Rightarrow> statement" where
  "signed_statement s = (SortLists s)\<lparr>s_owner_key := [], s_owner_chain := [], s_owner_signature := []\<rparr>"

lemma short_list_sort_key [simp]: "short_list ok (sort_key f xs) \<longleftrightarrow> short_list ok xs"
  by (simp add: short_list_def)

text \<open>
  C39: signing a statement is unambiguous. Statements with the same signed bytes agree in the
  dissolved flag and in every signed field, lists compared in their sorted order; in particular a
  roster cannot be read as a dissolve, nor a dissolve as a roster.
\<close>

theorem statement_sign_bytes_injective:
  assumes "statement_sizes_ok s" and "statement_sizes_ok u"
    and eq: "StatementSignBytes s = StatementSignBytes u"
  shows "signed_statement s = signed_statement u"
proof -
  let ?tag = "\<lambda>v. if s_dissolved v then ''pp-browser:group-dissolved-v3''
    else ''pp-browser:group-roster-statement-v3''"
  have tags: "short_string (?tag v)" for v by (simp add: short_string_def)
  have "?tag s = ?tag u"
    and rest: "s_group_id s = s_group_id u" "s_roster_epoch s = s_roster_epoch u"
    "s_owner s = s_owner u" "s_preset s = s_preset u" "s_title s = s_title u"
    "s_title_version s = s_title_version u" "s_change_floor s = s_change_floor u"
    "sort_key sm_identity (s_members s) = sort_key sm_identity (s_members u)"
    "sort_key rv_identity (s_removed s) = sort_key rv_identity (s_removed u)"
    "sort_key l_link_id (s_links s) = sort_key l_link_id (s_links u)"
    "sort_key fc_id (s_folded s) = sort_key fc_id (s_folded u)"
    using eq assms(1,2)
    by (simp_all add: StatementSignBytes_def Let_def SortLists_def PutMembers_def PutRemoved_def
        PutLinks_def statement_sizes_ok_def tags codec_cancel del: if_split)
  then have "s_dissolved s = s_dissolved u" by (simp split: if_splits)
  with rest show ?thesis
    by (intro statement.equality) (simp_all add: signed_statement_def SortLists_def)
qed

theorem statement_sign_bytes_injective_witness:
  "signed_statement sample_statement
    = signed_statement (sample_statement\<lparr>s_members := rev (s_members sample_statement),
        s_owner_signature := ''x''\<rparr>)"
proof (rule statement_sign_bytes_injective)
  show "statement_sizes_ok sample_statement"
    "statement_sizes_ok (sample_statement\<lparr>s_members := rev (s_members sample_statement),
        s_owner_signature := ''x''\<rparr>)"
    by (simp_all add: statement_sizes_ok_def sample_statement_def empty_statement_def short_string_def
        short_list_def member_ok_def int64_range_def)
  show "StatementSignBytes sample_statement
      = StatementSignBytes (sample_statement\<lparr>s_members := rev (s_members sample_statement),
          s_owner_signature := ''x''\<rparr>)"
    by (simp add: StatementSignBytes_def SortLists_def sample_statement_def empty_statement_def)
qed

subsection \<open>Signing, then verifying\<close>

lemma sort_key_idem [simp]: "sort_key f (sort_key f xs) = sort_key f xs"
  by (rule sort_key_id_if_sorted) simp

lemma SortLists_idem [simp]: "SortLists (SortLists s) = SortLists s"
  by (simp add: SortLists_def)

lemma StatementSignBytes_signature [simp]:
  "StatementSignBytes (s\<lparr>s_owner_signature := x\<rparr>) = StatementSignBytes s"
  by (simp add: StatementSignBytes_def SortLists_def)

lemma AllUnique_sort_key [simp]: "AllUnique f (sort_key g xs) \<longleftrightarrow> AllUnique f xs"
  by (simp add: AllUnique_def)

lemma statement_wf_SortLists [simp]: "statement_wf (SortLists s) \<longleftrightarrow> statement_wf s"
  by (simp add: statement_wf_def SortLists_def StatementLists_def)

lemma statement_wf_unsigned [simp]:
  "statement_wf (s\<lparr>s_owner_key := k\<rparr>) \<longleftrightarrow> statement_wf s"
  "statement_wf (s\<lparr>s_owner_signature := x\<rparr>) \<longleftrightarrow> statement_wf s"
  by (simp_all add: statement_wf_def StatementLists_def)

lemma statement_wf_reowned:
  "statement_wf ((SortLists s)\<lparr>s_owner := a, s_owner_key := k, s_owner_signature := x\<rparr>)
    \<longleftrightarrow> statement_wf (s\<lparr>s_owner := a\<rparr>)"
  by (simp add: statement_wf_def SortLists_def StatementLists_def)

lemma SortLists_same [simp]:
  "s_group_id (SortLists s) = s_group_id s" "s_roster_epoch (SortLists s) = s_roster_epoch s"
  "s_owner_chain (SortLists s) = s_owner_chain s" "s_owner (SortLists s) = s_owner s"
  "s_dissolved (SortLists s) = s_dissolved s"
  by (simp_all add: SortLists_def)

text \<open>
  What a signer's account key is to its device: the public key decodes to a key whose id is the
  account, and what it signs verifies under that key.
\<close>

definition signs_for :: "crypto \<Rightarrow> account_signer \<Rightarrow> string \<Rightarrow> string \<Rightarrow> bool" where
  "signs_for cr signer public_key account \<longleftrightarrow>
     sg_account_id signer = Inr account
     \<and> (\<exists>key. cr_base64_decode cr public_key = Inr key \<and> cr_account_id cr key = Inr account
         \<and> (\<forall>msg text. sg_sign signer msg = Inr text \<longrightarrow>
              (\<exists>sig. cr_base64_decode cr text = Inr sig \<and> cr_mldsa_verify cr key msg sig = Inr True)))"

lemma signs_for_CheckSignature:
  "signs_for cr signer pk account \<Longrightarrow> sg_sign signer msg = Inr sig \<Longrightarrow>
    CheckSignature cr account pk msg sig = Inr ()"
  by (auto simp: signs_for_def CheckSignature_ok)

text \<open>
  A statement that an owner signs verifies. If the draft is well formed with the signing account
  as its owner and its chain, if any, verifies and ends there, then what \<open>SignStatement\<close> returns
  passes \<open>Verify\<close> on a device that knows no owner, the signer, or an owner of the chain.
\<close>

theorem sign_then_verify:
  assumes signer: "signs_for cr signer public_key account"
    and signed: "SignStatement signer public_key draft = Inr s"
    and wf: "statement_wf (draft\<lparr>s_owner := account\<rparr>)"
    and named: "s_group_id draft \<noteq> []" "account \<noteq> []"
    and chain: "verify_chain cr (s_group_id draft) (s_roster_epoch draft) None 0 (s_owner_chain draft) = Inr ()"
      "s_owner_chain draft \<noteq> [] \<longrightarrow> t_to (last (s_owner_chain draft)) = account"
    and known: "known = [] \<or> known = account \<or> (\<exists>t \<in> set (s_owner_chain draft). t_from t = known)"
  shows "Verify cr s known = Inr ()"
proof -
  let ?ready = "(SortLists draft)\<lparr>s_owner := account, s_owner_key := public_key\<rparr>"
  have "sg_account_id signer = Inr account" using signer by (simp add: signs_for_def)
  with signed obtain sig where sig: "sg_sign signer (StatementSignBytes ?ready) = Inr sig"
    and s: "s = ?ready\<lparr>s_owner_signature := sig\<rparr>"
    by (auto simp: SignStatement_def roe_bind_Inr_iff Let_def)
  from signs_for_CheckSignature [OF signer sig]
  have "CheckSignature cr account public_key (StatementSignBytes s) sig = Inr ()"
    by (simp only: s StatementSignBytes_signature)
  moreover have "statement_wf s" using wf unfolding s statement_wf_reowned .
  ultimately show ?thesis
    unfolding Verify_ok_iff using named chain known by (simp add: s)
qed

text \<open>A signer for the witnesses: its key and its signature are its name.\<close>

definition sample_signer :: account_signer where
  "sample_signer = \<lparr>sg_account_id = Inr ''a'', sg_sign = (\<lambda>_. Inr ''a'')\<rparr>"

lemma sample_signs_for: "signs_for sample_crypto sample_signer ''a'' ''a''"
  by (simp add: signs_for_def sample_signer_def sample_crypto_def)

theorem sign_then_verify_witness:
  "\<exists>s. SignStatement sample_signer ''a'' sample_statement = Inr s
     \<and> Verify sample_crypto s ''z'' = Inr ()"
proof -
  obtain s where s: "SignStatement sample_signer ''a'' sample_statement = Inr s"
    by (simp add: SignStatement_def sample_signer_def)
  have "Verify sample_crypto s ''z'' = Inr ()"
    by (rule sign_then_verify [OF sample_signs_for s])
      (simp_all add: sample_statement_def sample_transfer_def empty_statement_def sample_crypto_def
        statement_wf_def AllUnique_def StatementLists_def CheckSignature_ok verify_chain_Cons)
  with s show ?thesis by blast
qed

subsection \<open>Which statement is picked\<close>

lemma pick_from_spec:
  "case pick_from known best ss of
     None \<Rightarrow> best = None \<and> (\<forall>s \<in> set ss. OwnerHandedOn known s)
   | Some p \<Rightarrow> (best = Some p \<or> p \<in> set ss \<and> \<not> OwnerHandedOn known p)
       \<and> (\<forall>b. best = Some b \<longrightarrow> s_roster_epoch b \<le> s_roster_epoch p)
       \<and> (\<forall>s \<in> set ss. \<not> OwnerHandedOn known s \<longrightarrow> s_roster_epoch s \<le> s_roster_epoch p)"
proof (induction known best ss rule: pick_from.induct)
  case (1 known best)
  show ?case by (cases best) auto
next
  case (2 known best s ss)
  show ?case
  proof (cases "OwnerHandedOn known s")
    case True
    with 2 show ?thesis by (auto split: option.splits)
  next
    case False
    show ?thesis
    proof (cases best)
      case None
      with 2(2) [OF False None] False show ?thesis by (auto split: option.splits)
    next
      case (Some b)
      with 2(3) [OF False Some] False show ?thesis
        by (auto split: option.splits if_splits intro: order.trans)
    qed
  qed
qed

text \<open>
  Of several verified statements \<open>Pick\<close> takes one whose owner has not, by any chain that any of
  them brings, handed the group on, with the highest epoch among those; it takes none only when
  every statement's owner has handed the group on.
\<close>

theorem pick_latest:
  "(Pick valid = None \<longrightarrow> (\<forall>s \<in> set valid. OwnerHandedOn (concat (map s_owner_chain valid)) s))
    \<and> (Pick valid = Some p \<longrightarrow>
        p \<in> set valid \<and> \<not> OwnerHandedOn (concat (map s_owner_chain valid)) p
        \<and> (\<forall>s \<in> set valid. \<not> OwnerHandedOn (concat (map s_owner_chain valid)) s
              \<longrightarrow> s_roster_epoch s \<le> s_roster_epoch p))"
  using pick_from_spec [where known = "concat (map s_owner_chain valid)" and best = None and ss = valid]
  by (auto simp: Pick_def)

theorem pick_latest_witness:
  "\<not> OwnerHandedOn [sample_transfer] sample_statement"
proof -
  have "Pick [sample_statement] = Some sample_statement"
    by (simp add: Pick_def OwnerHandedOn_def sample_statement_def sample_transfer_def
        empty_statement_def)
  moreover have "concat (map s_owner_chain [sample_statement]) = [sample_transfer]"
    by (simp add: sample_statement_def)
  ultimately show ?thesis using pick_latest [of "[sample_statement]" sample_statement] by simp
qed

end
