(* ===== verification/RulesCheck.thy ===== *)
theory RulesCheck
  imports GroupRosterStatement "HOL-Library.Product_Lexorder"
begin

section \<open>Checking the signatures of held changes\<close>

text \<open>
  Models the first part of \<open>capabilities/messaging/src/lib/messaging/GroupRosterRules.cpp\<close>: the
  cards that prove themselves for a signer (\<open>ProvedCards\<close>), the check of one change against them
  (\<open>CheckOne\<close>), the choice among copies of one change (\<open>BetterCopy\<close>, \<open>Collapse\<close>) and
  \<open>CheckChanges\<close>. What the rules run on afterwards is a list of checked changes, sorted by id,
  one per id.

  The card lookup (\<open>GroupCardLookup\<close>) is a function argument; an empty one in the code is the
  function that finds no card.
\<close>

subsection \<open>Checked changes\<close>

datatype change_proof = Proved | Malformed | NoCard | BadSignature

record checked_change =
  cc_change :: group_change
  cc_id :: string
  cc_proof :: change_proof
  cc_device_current :: bool

abbreviation cc_kind :: "checked_change \<Rightarrow> group_change_kind" where
  "cc_kind c \<equiv> c_kind (cc_change c)"

abbreviation cc_signer :: "checked_change \<Rightarrow> string" where
  "cc_signer c \<equiv> c_signer (cc_change c)"

abbreviation cc_member :: "checked_change \<Rightarrow> string" where
  "cc_member c \<equiv> c_member (cc_change c)"

subsection \<open>Cards\<close>

text \<open>\<open>NewerCard\<close> is the order of this key: later \<open>issued_at\<close> first, then the lower signature.\<close>

definition NewerCard :: "account_card \<Rightarrow> account_card \<Rightarrow> bool" where
  "NewerCard a b \<longleftrightarrow> (a_issued_at b, a_signature a) < (a_issued_at a, a_signature b)"

definition card_order :: "account_card \<Rightarrow> time_ms \<times> string" where
  "card_order ac = (- a_issued_at ac, a_signature ac)"

lemma NewerCard_iff_order: "NewerCard a b \<longleftrightarrow> card_order a < card_order b"
  by (auto simp: NewerCard_def card_order_def)

fun keep_proved :: "crypto \<Rightarrow> string \<Rightarrow> time_ms \<Rightarrow> account_card list \<Rightarrow> account_card list \<Rightarrow> account_card list" where
  "keep_proved cr account now [] proved = proved"
| "keep_proved cr account now (ac # acs) proved =
     (if ac \<notin> set proved \<and> k_account_id (a_keys ac) = account \<and> VerifyAccountCard cr ac now = Inr ()
      then keep_proved cr account now acs (proved @ [ac])
      else keep_proved cr account now acs proved)"

definition ProvedCards ::
  "crypto \<Rightarrow> string \<Rightarrow> group_change list \<Rightarrow> (string \<Rightarrow> account_card option) \<Rightarrow> time_ms
    \<Rightarrow> account_card list" where
  "ProvedCards cr account changes cards now =
     (let candidates = (case cards account of None \<Rightarrow> [] | Some held \<Rightarrow> [held])
            @ List.map_filter (\<lambda>c. if c_signer c = account then c_signer_card c else None) changes
      in sort_key card_order (keep_proved cr account now candidates []))"

subsection \<open>One change\<close>

fun check_cards ::
  "crypto \<Rightarrow> checked_change \<Rightarrow> bool \<Rightarrow> account_card list \<Rightarrow> checked_change" where
  "check_cards cr checked front [] = checked\<lparr>cc_proof := NoCard\<rparr>"
| "check_cards cr checked front (ac # acs) =
     (case FindCardDevice ac (c_signer_device (cc_change checked)) of
        Some device \<Rightarrow>
          checked\<lparr>cc_proof := (if VerifyDeviceSignature cr (cc_change checked) device = Inr ()
                               then Proved else BadSignature),
                  cc_device_current := front\<rparr>
      | None \<Rightarrow> check_cards cr checked False acs)"

definition CheckOne :: "crypto \<Rightarrow> group_change \<Rightarrow> account_card list \<Rightarrow> checked_change" where
  "CheckOne cr c cards =
     (let checked = \<lparr>cc_change = c, cc_id = ChangeId cr c, cc_proof = NoCard, cc_device_current = False\<rparr>
      in if CheckShape c \<noteq> Inr () then checked\<lparr>cc_proof := Malformed\<rparr>
         else check_cards cr checked True cards)"

subsection \<open>Copies of one change\<close>

definition copy_rank :: "checked_change \<Rightarrow> nat" where
  "copy_rank c = (if cc_proof c = Proved then 0 else if cc_proof c = NoCard then 1 else 2)"

definition BetterCopy :: "checked_change \<Rightarrow> checked_change \<Rightarrow> bool" where
  "BetterCopy a b \<longleftrightarrow>
     (if copy_rank a \<noteq> copy_rank b then copy_rank a < copy_rank b
      else c_signature (cc_change a) < c_signature (cc_change b))"

definition collapse_one ::
  "checked_change \<Rightarrow> (string \<times> checked_change) list \<Rightarrow> (string \<times> checked_change) list" where
  "collapse_one c best =
     (case map_of best (cc_id c) of
        None \<Rightarrow> om_put (cc_id c) c best
      | Some held \<Rightarrow> if BetterCopy c held then om_put (cc_id c) c best else best)"

definition Collapse :: "checked_change list \<Rightarrow> checked_change list" where
  "Collapse changes = map snd (fold collapse_one changes [])"

definition CheckChanges ::
  "crypto \<Rightarrow> group_change list \<Rightarrow> (string \<Rightarrow> account_card option) \<Rightarrow> time_ms \<Rightarrow> checked_change list" where
  "CheckChanges cr changes cards now =
     Collapse (map (\<lambda>c. CheckOne cr c (ProvedCards cr (c_signer c) changes cards now)) changes)"

subsection \<open>The copy that is kept\<close>

text \<open>\<open>BetterCopy\<close> compares this key.\<close>

definition copy_key :: "checked_change \<Rightarrow> nat \<times> string" where
  "copy_key c = (copy_rank c, c_signature (cc_change c))"

lemma BetterCopy_iff_key: "BetterCopy a b \<longleftrightarrow> copy_key a < copy_key b"
  by (auto simp: BetterCopy_def copy_key_def)

lemma om_ok_collapse_one [simp]: "om_ok m \<Longrightarrow> om_ok (collapse_one c m)"
  by (auto simp: collapse_one_def split: option.splits)

lemma om_ok_fold_collapse: "om_ok m \<Longrightarrow> om_ok (fold collapse_one cs m)"
  by (induction cs arbitrary: m) auto

lemma collapse_lookup:
  "om_ok m \<Longrightarrow> \<forall>i d. map_of m i = Some d \<longrightarrow> cc_id d = i \<Longrightarrow>
    case map_of (fold collapse_one cs m) k of
      None \<Rightarrow> map_of m k = None \<and> (\<forall>c \<in> set cs. cc_id c \<noteq> k)
    | Some d \<Rightarrow> cc_id d = k \<and> (d \<in> set cs \<or> map_of m k = Some d)
        \<and> (\<forall>c \<in> set cs. cc_id c = k \<longrightarrow> copy_key d \<le> copy_key c)
        \<and> (\<forall>c. map_of m k = Some c \<longrightarrow> copy_key d \<le> copy_key c)"
proof (induction cs arbitrary: m)
  case Nil
  then show ?case by (auto split: option.splits)
next
  case (Cons c cs)
  let ?m = "collapse_one c m"
  have ids: "\<forall>i d. map_of ?m i = Some d \<longrightarrow> cc_id d = i"
    using Cons.prems(2) by (auto simp: collapse_one_def split: option.splits if_splits)
  have step: "map_of ?m k = (if cc_id c \<noteq> k then map_of m k
      else case map_of m k of None \<Rightarrow> Some c | Some d \<Rightarrow> Some (if copy_key c < copy_key d then c else d))"
    by (auto simp: collapse_one_def BetterCopy_iff_key split: option.splits)
  from Cons.IH [OF om_ok_collapse_one [OF Cons.prems(1)] ids] Cons.prems(2)
  show ?case
    by (auto simp: step split: option.splits if_splits intro: order.trans less_imp_le)
qed

lemma collapse_find:
  "case map_of (fold collapse_one cs []) k of
      None \<Rightarrow> \<forall>c \<in> set cs. cc_id c \<noteq> k
    | Some d \<Rightarrow> cc_id d = k \<and> d \<in> set cs \<and> (\<forall>c \<in> set cs. cc_id c = k \<longrightarrow> copy_key d \<le> copy_key c)"
  using collapse_lookup [where m = "[]" and cs = cs and k = k] by (auto split: option.splits)

lemma om_ok_collapse [simp]: "om_ok (fold collapse_one cs [])"
  by (rule om_ok_fold_collapse) simp

lemma in_Collapse_iff:
  "d \<in> set (Collapse cs) \<longleftrightarrow> map_of (fold collapse_one cs []) (cc_id d) = Some d"
proof
  assume "d \<in> set (Collapse cs)"
  then obtain k where "(k, d) \<in> set (fold collapse_one cs [])"
    by (auto simp: Collapse_def)
  then have "map_of (fold collapse_one cs []) k = Some d"
    by (rule map_of_SomeI [OF om_ok_collapse])
  with collapse_find [of cs k] show "map_of (fold collapse_one cs []) (cc_id d) = Some d" by simp
next
  assume "map_of (fold collapse_one cs []) (cc_id d) = Some d"
  then show "d \<in> set (Collapse cs)"
    by (auto simp: Collapse_def image_iff dest!: map_of_SomeD intro: bexI [of _ "(cc_id d, d)"])
qed

lemma Collapse_best:
  "d \<in> set (Collapse cs) \<Longrightarrow>
    d \<in> set cs \<and> (\<forall>c \<in> set cs. cc_id c = cc_id d \<longrightarrow> copy_key d \<le> copy_key c)"
  using collapse_find [of cs "cc_id d"] by (simp add: in_Collapse_iff)

lemma Collapse_subset: "set (Collapse cs) \<subseteq> set cs"
  using Collapse_best by blast

lemma Collapse_covers: "c \<in> set cs \<Longrightarrow> \<exists>d \<in> set (Collapse cs). cc_id d = cc_id c"
  using collapse_find [of cs "cc_id c"] by (auto simp: in_Collapse_iff split: option.splits)

lemma Collapse_ids: "map cc_id (Collapse cs) = map fst (fold collapse_one cs [])"
proof -
  have "cc_id (snd p) = fst p" if "p \<in> set (fold collapse_one cs [])" for p
    using that collapse_find [of cs "fst p"] map_of_SomeI [OF om_ok_collapse, of "fst p" "snd p" cs] by simp
  then show ?thesis by (simp add: Collapse_def)
qed

lemma Collapse_sorted: "sorted_wrt (<) (map cc_id (Collapse cs))"
  using om_ok_collapse [of cs] by (simp add: Collapse_ids om_ok_def)

lemma Collapse_distinct: "distinct (map cc_id (Collapse cs))"
  using Collapse_sorted strict_sorted_iff by blast

lemma Collapse_unique_id:
  "c \<in> set (Collapse cs) \<Longrightarrow> d \<in> set (Collapse cs) \<Longrightarrow> cc_id c = cc_id d \<Longrightarrow> c = d"
  using Collapse_distinct [of cs] by (auto simp: distinct_map inj_on_def)

text \<open>Two lists sorted by distinct ids with the same elements are equal.\<close>

lemma id_sorted_unique:
  assumes "sorted_wrt (<) (map cc_id cs)" and "sorted_wrt (<) (map cc_id ds)" and "set cs = set ds"
  shows "cs = ds"
proof -
  have "map cc_id cs = map cc_id ds"
    by (rule strict_sorted_unique) (use assms in auto)
  moreover have "inj_on cc_id (set cs \<union> set ds)"
    using assms strict_sorted_iff [of "map cc_id cs"] by (simp add: distinct_map)
  ultimately show ?thesis by (simp add: inj_on_map_eq_map)
qed

lemma Collapse_of_sorted:
  assumes "sorted_wrt (<) (map cc_id cs)"
  shows "Collapse cs = cs"
proof (rule id_sorted_unique [OF Collapse_sorted assms])
  have "inj_on cc_id (set cs)"
    using assms strict_sorted_iff [of "map cc_id cs"] by (simp add: distinct_map)
  then show "set (Collapse cs) = set cs"
    using Collapse_subset [of cs] Collapse_covers by (fastforce simp: inj_on_def)
qed

lemma Collapse_idem [simp]: "Collapse (Collapse cs) = Collapse cs"
  by (rule Collapse_of_sorted) (rule Collapse_sorted)

text \<open>
  Copies that \<open>BetterCopy\<close> cannot tell apart are the same: what makes the choice a function of the
  set.
\<close>

definition tie_free :: "checked_change list \<Rightarrow> bool" where
  "tie_free cs \<longleftrightarrow>
     (\<forall>c \<in> set cs. \<forall>d \<in> set cs. cc_id c = cc_id d \<and> copy_key c = copy_key d \<longrightarrow> c = d)"

lemma Collapse_of_set:
  assumes "set cs = set ds" and "tie_free cs"
  shows "Collapse cs = Collapse ds"
proof (rule id_sorted_unique [OF Collapse_sorted Collapse_sorted])
  have sub: "c \<in> set (Collapse ys)"
    if "set xs = set ys" "tie_free xs" "c \<in> set (Collapse xs)" for c xs ys
  proof -
    from Collapse_best [OF that(3)] have c: "c \<in> set xs"
      "\<forall>d \<in> set xs. cc_id d = cc_id c \<longrightarrow> copy_key c \<le> copy_key d" by auto
    with that(1) obtain d where d: "d \<in> set (Collapse ys)" "cc_id d = cc_id c"
      using Collapse_covers by blast
    with Collapse_best [of d ys] c that(1) have "copy_key c = copy_key d" "d \<in> set xs"
      by (auto intro: order.antisym)
    with that(2) c(1) d(2) have "c = d" by (auto simp: tie_free_def)
    with d(1) show ?thesis by simp
  qed
  have "tie_free ds" using assms by (simp add: tie_free_def)
  with sub assms show "set (Collapse cs) = set (Collapse ds)" by blast
qed

subsection \<open>What a checked change is\<close>

text \<open>The cards a device has for an account: the held one and those that the changes carry.\<close>

definition known_cards ::
  "string \<Rightarrow> group_change list \<Rightarrow> (string \<Rightarrow> account_card option) \<Rightarrow> account_card set" where
  "known_cards account changes cards =
     {ac. cards account = Some ac \<or> (\<exists>c \<in> set changes. c_signer c = account \<and> c_signer_card c = Some ac)}"

definition proves_itself :: "crypto \<Rightarrow> time_ms \<Rightarrow> string \<Rightarrow> account_card \<Rightarrow> bool" where
  "proves_itself cr now account ac \<longleftrightarrow>
     k_account_id (a_keys ac) = account \<and> VerifyAccountCard cr ac now = Inr ()"

lemma set_keep_proved:
  "set (keep_proved cr account now acs proved) =
    set proved \<union> {ac \<in> set acs. proves_itself cr now account ac}"
  by (induction cr account now acs proved rule: keep_proved.induct) (auto simp: proves_itself_def)

lemma set_map_filter [simp]: "set (List.map_filter f xs) = {y. \<exists>x \<in> set xs. f x = Some y}"
  by (auto simp: map_filter_def image_iff) force

lemma set_ProvedCards:
  "set (ProvedCards cr account changes cards now) =
    {ac \<in> known_cards account changes cards. proves_itself cr now account ac}"
  by (auto simp: ProvedCards_def set_keep_proved known_cards_def split: option.splits if_splits)

lemma ProvedCards_newest_first:
  "sorted (map card_order (ProvedCards cr account changes cards now))"
  by (simp add: ProvedCards_def Let_def)

lemma check_cards_same [simp]:
  "cc_change (check_cards cr checked front acs) = cc_change checked"
  "cc_id (check_cards cr checked front acs) = cc_id checked"
  by (induction cr checked front acs rule: check_cards.induct) (auto split: option.splits)

lemma check_cards_Proved:
  "cc_proof (check_cards cr checked front acs) = Proved \<Longrightarrow>
    \<exists>ac \<in> set acs. \<exists>device. FindCardDevice ac (c_signer_device (cc_change checked)) = Some device
      \<and> VerifyDeviceSignature cr (cc_change checked) device = Inr ()"
  by (induction cr checked front acs rule: check_cards.induct) (auto split: option.splits if_splits)

lemma check_cards_not_front:
  "\<not> cc_device_current checked \<Longrightarrow> \<not> cc_device_current (check_cards cr checked False acs)"
  by (induction acs) (auto split: option.splits)

lemma check_cards_current:
  "\<not> cc_device_current checked \<Longrightarrow> cc_device_current (check_cards cr checked True acs) \<Longrightarrow>
    acs \<noteq> [] \<and> FindCardDevice (hd acs) (c_signer_device (cc_change checked)) \<noteq> None"
  by (cases acs) (auto simp: check_cards_not_front split: option.splits)

lemma CheckOne_same [simp]:
  "cc_change (CheckOne cr c acs) = c" "cc_id (CheckOne cr c acs) = ChangeId cr c"
  by (simp_all add: CheckOne_def Let_def)

lemma CheckOne_Proved:
  "cc_proof (CheckOne cr c acs) = Proved \<Longrightarrow>
    CheckShape c = Inr () \<and> (\<exists>ac \<in> set acs. \<exists>device.
      FindCardDevice ac (c_signer_device c) = Some device \<and> VerifyDeviceSignature cr c device = Inr ())"
  using check_cards_Proved [of cr "\<lparr>cc_change = c, cc_id = ChangeId cr c, cc_proof = NoCard,
      cc_device_current = False\<rparr>" True acs]
  by (simp add: CheckOne_def Let_def split: if_splits)

lemma CheckOne_current:
  "cc_device_current (CheckOne cr c acs) \<Longrightarrow>
    acs \<noteq> [] \<and> FindCardDevice (hd acs) (c_signer_device c) \<noteq> None"
  using check_cards_current [of "\<lparr>cc_change = c, cc_id = ChangeId cr c, cc_proof = NoCard,
      cc_device_current = False\<rparr>" cr acs]
  by (simp add: CheckOne_def Let_def split: if_splits)

lemma CheckChanges_from:
  "k \<in> set (CheckChanges cr changes cards now) \<Longrightarrow>
    \<exists>c \<in> set changes. k = CheckOne cr c (ProvedCards cr (c_signer c) changes cards now)"
  using Collapse_subset by (fastforce simp: CheckChanges_def)

text \<open>
  A change that counts as proved is well formed, its id is the hash of its signed bytes, and one
  of the cards known for its signer proves itself (the account signed it, each device's PeerId is
  its key's) and lists the signing device, under whose key the change's signed bytes verify. When
  its device counts as current, the newest of the signer's cards that prove themselves lists it.
\<close>

theorem proved_change_authentic:
  assumes "k \<in> set (CheckChanges cr changes cards now)" and "cc_proof k = Proved"
  shows "cc_change k \<in> set changes \<and> CheckShape (cc_change k) = Inr ()
    \<and> cc_id k = ChangeId cr (cc_change k)
    \<and> (\<exists>ac device. ac \<in> known_cards (cc_signer k) changes cards
        \<and> VerifyChange cr (cc_change k) ac now = Inr ()
        \<and> FindCardDevice ac (c_signer_device (cc_change k)) = Some device
        \<and> VerifyDeviceSignature cr (cc_change k) device = Inr ())
    \<and> (cc_device_current k \<longrightarrow> (\<exists>ac \<in> known_cards (cc_signer k) changes cards.
        proves_itself cr now (cc_signer k) ac
        \<and> FindCardDevice ac (c_signer_device (cc_change k)) \<noteq> None
        \<and> (\<forall>other \<in> known_cards (cc_signer k) changes cards.
             proves_itself cr now (cc_signer k) other \<longrightarrow> \<not> NewerCard other ac)))"
proof -
  obtain c where c: "c \<in> set changes"
    and k: "k = CheckOne cr c (ProvedCards cr (c_signer c) changes cards now)"
    using CheckChanges_from [OF assms(1)] by blast
  let ?proved = "ProvedCards cr (c_signer c) changes cards now"
  have same: "cc_change k = c" "cc_id k = ChangeId cr c" by (simp_all add: k)
  from CheckOne_Proved [of cr c ?proved] assms(2) obtain ac device
    where shape: "CheckShape c = Inr ()" and ac: "ac \<in> set ?proved"
      and device: "FindCardDevice ac (c_signer_device c) = Some device"
        "VerifyDeviceSignature cr c device = Inr ()"
    unfolding k by blast
  have "VerifyChange cr c ac now = Inr ()"
    using ac device by (simp add: VerifyChange_def set_ProvedCards proves_itself_def)
  moreover have "\<exists>ac \<in> known_cards (c_signer c) changes cards. proves_itself cr now (c_signer c) ac
      \<and> FindCardDevice ac (c_signer_device c) \<noteq> None
      \<and> (\<forall>other \<in> known_cards (c_signer c) changes cards.
           proves_itself cr now (c_signer c) other \<longrightarrow> \<not> NewerCard other ac)"
    if "cc_device_current k"
  proof -
    from CheckOne_current that obtain newest rest where front: "?proved = newest # rest"
      and lists: "FindCardDevice newest (c_signer_device c) \<noteq> None"
      unfolding k by (metis list.exhaust_sel)
    have first: "\<forall>other \<in> set ?proved. card_order newest \<le> card_order other"
      using ProvedCards_newest_first [of cr "c_signer c" changes cards now] by (auto simp: front)
    have "newest \<in> set ?proved" by (simp add: front)
    with lists first show ?thesis
      by (auto simp: set_ProvedCards NewerCard_iff_order not_less intro!: bexI [of _ newest])
  qed
  ultimately show ?thesis
    using c ac shape device by (auto simp: same set_ProvedCards)
qed

text \<open>A card and a change it proves, for the witnesses: admin \<open>b\<close> removes \<open>c\<close>.\<close>

definition sample_card :: account_card where
  "sample_card = \<lparr>a_keys = \<lparr>k_account_id = ''b'', k_signing_key = ''b'', k_kem_key = ''b'',
       k_binding_signature = []\<rparr>,
     a_nickname = ''bob'', a_devices = [\<lparr>d_peer_id = ''b'', d_signing_key = ''b'', d_kem_key = ''b''\<rparr>],
     a_issued_at = 1, a_signature = ''b''\<rparr>"

definition sample_remove :: group_change where
  "sample_remove = \<lparr>c_group_id = ''g'', c_base_epoch = 5, c_signer = ''b'', c_signer_device = ''b'',
     c_at = 9, c_kind = KRemove, c_member = ''c'', c_invite_nonce = [], c_link_id = [],
     c_readmits = [], c_adds = [], c_keeps = [], c_title = [], c_title_version = 0,
     c_secret_hash = [], c_expires_at = 0, c_max_uses = 0, c_signer_card = Some sample_card,
     c_signature = ''b''\<rparr>"

lemma sample_card_verifies: "VerifyAccountCard sample_crypto sample_card 10 = Inr ()"
  by (simp add: VerifyAccountCard_def VerifyKeyCard_def VerifyCardDevice_def sample_card_def
      sample_crypto_def kMaxAccountCardDevices_def kAccountCardClockSkewMs_def CardDevicePeerIds_def
      AccountCardSignBytes_def card_key_bytes_def)

lemma sample_remove_checked:
  "CheckChanges sample_crypto [sample_remove] (\<lambda>_. None) 10
    = [\<lparr>cc_change = sample_remove, cc_id = ChangeId sample_crypto sample_remove, cc_proof = Proved,
        cc_device_current = True\<rparr>]"
proof -
  have "ProvedCards sample_crypto ''b'' [sample_remove] (\<lambda>_. None) 10 = [sample_card]"
    using sample_card_verifies
    by (simp add: ProvedCards_def map_filter_simps sample_remove_def)
      (simp add: sample_card_def)
  moreover have "CheckShape sample_remove = Inr ()"
    by (simp add: CheckShape_def NoForeignFields_def no_fields_def sample_remove_def CheckBody_def
        check_named_def DistinctBounded_def kMaxNamedChanges_def)
  moreover have "c_signer sample_remove = ''b''" "c_signer_device sample_remove = ''b''"
    "c_signature sample_remove = ''b''" by (simp_all add: sample_remove_def)
  moreover have "FindCardDevice sample_card ''b'' = Some \<lparr>d_peer_id = ''b'', d_signing_key = ''b'', d_kem_key = ''b''\<rparr>"
    by (simp add: FindCardDevice_def sample_card_def)
  ultimately show ?thesis
    by (simp add: CheckChanges_def CheckOne_def Let_def VerifyDeviceSignature_def sample_crypto_def
        Collapse_def collapse_one_def)
qed

theorem proved_change_authentic_witness:
  "\<exists>ac device. ac \<in> known_cards ''b'' [sample_remove] (\<lambda>_. None)
     \<and> FindCardDevice ac ''b'' = Some device
     \<and> VerifyDeviceSignature sample_crypto sample_remove device = Inr ()"
proof -
  let ?k = "\<lparr>cc_change = sample_remove, cc_id = ChangeId sample_crypto sample_remove,
      cc_proof = Proved, cc_device_current = True\<rparr>"
  have "?k \<in> set (CheckChanges sample_crypto [sample_remove] (\<lambda>_. None) 10)"
    by (simp add: sample_remove_checked)
  from proved_change_authentic [OF this]
  have "\<exists>ac device. ac \<in> known_cards (c_signer sample_remove) [sample_remove] (\<lambda>_. None)
      \<and> FindCardDevice ac (c_signer_device sample_remove) = Some device
      \<and> VerifyDeviceSignature sample_crypto sample_remove device = Inr ()"
    by auto
  moreover have "c_signer sample_remove = ''b''" "c_signer_device sample_remove = ''b''"
    by (simp_all add: sample_remove_def)
  ultimately show ?thesis by simp
qed

end
