(* ===== verification/RulesEngine.thy ===== *)
theory RulesEngine
  imports RulesCheck
begin

section \<open>The roster rules R1 to R6\<close>

text \<open>
  Models the class \<open>RosterRules\<close> of \<open>GroupRosterRules.cpp\<close> and the records of
  \<open>GroupRosterRules.h\<close>: one run of the rules over a statement and a set of checked changes.

  What \<open>Classify\<close> and \<open>Index\<close> build and nobody changes afterwards is the record \<open>rule_index\<close>; the
  members the run changes (the memo tables, the sets of accounts, the verdicts) are the record
  \<open>rules_state\<close>, threaded through the state monad in the order in which the code reads and writes
  them.

  The memoised questions call each other recursively. They are one function \<open>ask\<close> over a
  \<open>query\<close> type, with fuel; the flag \<open>rf_exhausted\<close> records that the fuel ran out, and
  \<open>RulesMemo\<close> proves that it never does: each nested question puts a new key into the set of
  visited keys, of which there are at most five for a held change.
\<close>

subsection \<open>Verdicts and the view\<close>

datatype change_status = Applied | Superseded | Undone | Void | Dropped

datatype change_reason =
    RNone
  | OtherGroup | Folded | TooOld | RDissolved | RMalformed | RBadSignature
  | RNoCard | SignerNotJoined | NoSuchLink
  | DeviceOffCard | SignerOut | NotAllowed | RemovedMember | NotReadmitted | GroupFull | DuplicateLink
  | NamedByLeave | NamedByRemove | OlderTitle | LostRename

record change_verdict =
  v_id :: string
  v_kind :: group_change_kind
  v_signer :: string
  v_base_epoch :: u64
  v_status :: change_status
  v_reason :: change_reason

record view_member =
  vm_identity :: string
  vm_role :: member_role
  vm_joined_at :: time_ms
  vm_added_by :: string
  vm_added_in :: string

datatype link_end = Revoked | MakerOut | LinkExpired

record ended_link =
  e_link :: invite_link
  e_end :: link_end

definition kChangeFloorLag :: u64 where
  "kChangeFloorLag = 32"

record roster_view =
  w_group_id :: string
  w_statement_epoch :: u64
  w_owner :: string
  w_preset :: group_preset
  w_dissolved :: bool
  w_members :: "view_member list"
  w_removed :: "removed_member list"
  w_links :: "invite_link list"
  w_ended_links :: "ended_link list"
  w_title :: string
  w_title_version :: u64
  w_verdicts :: "change_verdict list"

definition ViewFind :: "roster_view \<Rightarrow> string \<Rightarrow> view_member option" where
  "ViewFind view identity = List.find (\<lambda>m. vm_identity m = identity) (w_members view)"

definition ViewLists :: "roster_view \<Rightarrow> string \<Rightarrow> bool" where
  "ViewLists view identity \<longleftrightarrow> ViewFind view identity \<noteq> None"

definition ViewVerdict :: "roster_view \<Rightarrow> string \<Rightarrow> change_verdict option" where
  "ViewVerdict view change_id = List.find (\<lambda>v. v_id v = change_id) (w_verdicts view)"

definition LiveLink :: "roster_view \<Rightarrow> string \<Rightarrow> invite_link option" where
  "LiveLink view link_id = List.find (\<lambda>l. l_link_id l = link_id) (w_links view)"

definition EndedLink :: "roster_view \<Rightarrow> string \<Rightarrow> ended_link option" where
  "EndedLink view link_id = List.find (\<lambda>l. l_link_id (e_link l) = link_id) (w_ended_links view)"

definition HeldIds :: "roster_view \<Rightarrow> string list" where
  "HeldIds view = map v_id (filter (\<lambda>v. v_status v \<noteq> Dropped) (w_verdicts view))"

subsection \<open>Sorting the changes in\<close>

type_synonym verdicts = "(string \<times> change_verdict) list"

definition Mark :: "checked_change \<Rightarrow> change_status \<Rightarrow> change_reason \<Rightarrow> verdicts \<Rightarrow> verdicts" where
  "Mark c status reason =
     om_put (cc_id c) \<lparr>v_id = cc_id c, v_kind = cc_kind c, v_signer = cc_signer c,
       v_base_epoch = c_base_epoch (cc_change c), v_status = status, v_reason = reason\<rparr>"

record classified =
  k_held :: "(string \<times> checked_change) list"
  k_verdicts :: verdicts
  k_joining :: "string list"

definition classify_one :: "statement \<Rightarrow> string list \<Rightarrow> checked_change \<Rightarrow> classified \<Rightarrow> classified" where
  "classify_one s folded c k =
     (if c_group_id (cc_change c) \<noteq> s_group_id s
      then k\<lparr>k_verdicts := Mark c Dropped OtherGroup (k_verdicts k)\<rparr>
      else if cc_id c \<in> set folded
      then k\<lparr>k_verdicts := Mark c Dropped Folded (k_verdicts k)\<rparr>
      else if c_base_epoch (cc_change c) < s_change_floor s
      then k\<lparr>k_verdicts := Mark c Dropped TooOld (k_verdicts k)\<rparr>
      else if s_dissolved s
      then k\<lparr>k_verdicts := Mark c Dropped RDissolved (k_verdicts k)\<rparr>
      else if cc_proof c = Malformed
      then k\<lparr>k_verdicts := Mark c Dropped RMalformed (k_verdicts k)\<rparr>
      else if cc_proof c = BadSignature
      then k\<lparr>k_verdicts := Mark c Dropped RBadSignature (k_verdicts k)\<rparr>
      else if cc_proof c = NoCard
      then k\<lparr>k_verdicts := Mark c Void RNoCard (k_verdicts k),
             k_joining := os_insert (if cc_kind c = KAdd then cc_member c else []) (k_joining k)\<rparr>
      else k\<lparr>k_held := om_put (cc_id c) c (k_held k)\<rparr>)"

definition Classify :: "statement \<Rightarrow> checked_change list \<Rightarrow> classified" where
  "Classify s changes =
     (let folded = os_of (map fc_id (s_folded s));
          k = fold (classify_one s folded) changes \<lparr>k_held = [], k_verdicts = [], k_joining = []\<rparr>
      in k\<lparr>k_joining := os_erase [] (k_joining k)\<rparr>)"

type_synonym changes_by = "(string \<times> checked_change list) list"

record rule_index =
  ix_statement :: statement
  ix_now :: time_ms
  ix_s_members :: "(string \<times> statement_member) list"
  ix_s_removed :: "(string \<times> removed_member) list"
  ix_held :: "(string \<times> checked_change) list"
  ix_adds :: "checked_change list"
  ix_renames :: "checked_change list"
  ix_link_adds :: "checked_change list"
  ix_link_revokes :: "checked_change list"
  ix_removes_of :: changes_by
  ix_leaves_by :: changes_by
  ix_kept_by_remove :: changes_by
  ix_kept_by_leave :: changes_by
  ix_joining :: "string list"

definition index_one :: "checked_change \<Rightarrow> rule_index \<Rightarrow> rule_index" where
  "index_one c ix =
     (case cc_kind c of
        KAdd \<Rightarrow> ix\<lparr>ix_adds := ix_adds ix @ [c], ix_joining := os_insert (cc_member c) (ix_joining ix)\<rparr>
      | KRemove \<Rightarrow> ix\<lparr>ix_removes_of := om_push (cc_member c) c (ix_removes_of ix),
          ix_kept_by_remove := fold (\<lambda>kept. om_push kept c) (c_keeps (cc_change c)) (ix_kept_by_remove ix)\<rparr>
      | KLeave \<Rightarrow> ix\<lparr>ix_leaves_by := om_push (cc_signer c) c (ix_leaves_by ix),
          ix_kept_by_leave := fold (\<lambda>kept. om_push kept c) (c_keeps (cc_change c)) (ix_kept_by_leave ix)\<rparr>
      | KRename \<Rightarrow> ix\<lparr>ix_renames := ix_renames ix @ [c]\<rparr>
      | KLinkAdd \<Rightarrow> ix\<lparr>ix_link_adds := ix_link_adds ix @ [c]\<rparr>
      | KLinkRevoke \<Rightarrow> ix\<lparr>ix_link_revokes := ix_link_revokes ix @ [c]\<rparr>)"

text \<open>The constructor's maps, what \<open>Classify\<close> holds, and \<open>Index\<close> over it.\<close>

definition rules_start :: "statement \<Rightarrow> time_ms \<Rightarrow> classified \<Rightarrow> rule_index" where
  "rules_start s now k = \<lparr>ix_statement = s, ix_now = now,
     ix_s_members = keyed sm_identity (s_members s),
     ix_s_removed = keyed rv_identity (s_removed s),
     ix_held = k_held k, ix_adds = [], ix_renames = [], ix_link_adds = [], ix_link_revokes = [],
     ix_removes_of = [], ix_leaves_by = [], ix_kept_by_remove = [], ix_kept_by_leave = [],
     ix_joining = k_joining k\<rparr>"

definition Index :: "rule_index \<Rightarrow> rule_index" where
  "Index ix = fold index_one (map snd (ix_held ix)) ix"

definition Of :: "changes_by \<Rightarrow> string \<Rightarrow> checked_change list" where
  "Of index key = (case map_of index key of None \<Rightarrow> [] | Some cs \<Rightarrow> cs)"

definition Names :: "string list \<Rightarrow> string \<Rightarrow> bool" where
  "Names ids cid \<longleftrightarrow> cid \<in> set ids"

definition StatementRole :: "rule_index \<Rightarrow> string \<Rightarrow> member_role" where
  "StatementRole ix account =
     (case map_of (ix_s_members ix) account of None \<Rightarrow> Member | Some m \<Rightarrow> sm_role m)"

definition InStatement :: "rule_index \<Rightarrow> string \<Rightarrow> bool" where
  "InStatement ix account \<longleftrightarrow> map_of (ix_s_members ix) account \<noteq> None"

subsection \<open>The state of a run\<close>

datatype fact_key = RemoveKeptKey string | LeaveKeptKey string | RemoveKey string | LeaveKey string
  | RemovedKey string

record rule_facts =
  rf_memo :: "fact_key \<Rightarrow> bool option"
  rf_visiting :: "fact_key set"
  rf_exhausted :: bool

record rules_state =
  rs_facts :: rule_facts
  rs_verdicts :: verdicts
  rs_in :: "string list"
  rs_present :: "string list"
  rs_accepted :: "string list"
  rs_static_reasons :: "(string \<times> change_reason) list"
  rs_joined_by :: "(string \<times> checked_change) list"
  rs_title :: string
  rs_title_version :: u64
  rs_links :: "(string \<times> invite_link) list"
  rs_gone_makers_links :: "(string \<times> invite_link) list"
  rs_revoked :: "string list"

type_synonym 'a run = "(rules_state, 'a) state"

definition update_facts :: "(rule_facts \<Rightarrow> rule_facts) \<Rightarrow> unit run" where
  "update_facts f = State_Monad.update (\<lambda>s. s\<lparr>rs_facts := f (rs_facts s)\<rparr>)"

definition mark :: "checked_change \<Rightarrow> change_status \<Rightarrow> change_reason \<Rightarrow> unit run" where
  "mark c status reason = State_Monad.update (\<lambda>s. s\<lparr>rs_verdicts := Mark c status reason (rs_verdicts s)\<rparr>)"

definition start_state :: "verdicts \<Rightarrow> rules_state" where
  "start_state vs = \<lparr>rs_facts = \<lparr>rf_memo = (\<lambda>_. None), rf_visiting = {}, rf_exhausted = False\<rparr>,
     rs_verdicts = vs, rs_in = [], rs_present = [], rs_accepted = [], rs_static_reasons = [],
     rs_joined_by = [], rs_title = [], rs_title_version = 0, rs_links = [], rs_gone_makers_links = [],
     rs_revoked = []\<rparr>"

subsection \<open>Memoised facts\<close>

text \<open>
  The questions the code memoises, each with what its key is: \<open>RemoveKept\<close>, \<open>LeaveKept\<close>,
  \<open>ValidRemove\<close>, \<open>ValidLeave\<close> and \<open>RemovedByChange\<close>.
\<close>

datatype query = RemoveKept checked_change | LeaveKept checked_change | ValidRemove checked_change
  | ValidLeave checked_change | RemovedByChange string

fun key_of :: "query \<Rightarrow> fact_key" where
  "key_of (RemoveKept c) = RemoveKeptKey (cc_id c)"
| "key_of (LeaveKept c) = LeaveKeptKey (cc_id c)"
| "key_of (ValidRemove r) = RemoveKey (cc_id r)"
| "key_of (ValidLeave l) = LeaveKey (cc_id l)"
| "key_of (RemovedByChange account) = RemovedKey account"

definition Memo :: "fact_key \<Rightarrow> bool run \<Rightarrow> bool run" where
  "Memo key compute = do {
     s \<leftarrow> State_Monad.get;
     case rf_memo (rs_facts s) key of
       Some found \<Rightarrow> State_Monad.return found
     | None \<Rightarrow>
         if key \<in> rf_visiting (rs_facts s) then State_Monad.return False
         else do {
           update_facts (\<lambda>f. f\<lparr>rf_visiting := insert key (rf_visiting f)\<rparr>);
           value \<leftarrow> compute;
           update_facts (\<lambda>f. f\<lparr>rf_visiting := rf_visiting f - {key},
             rf_memo := (rf_memo f)(key := Some value)\<rparr>);
           State_Monad.return value
         }
   }"

text \<open>
  The operations that ask such questions take the asker \<open>A\<close> as an argument: inside the recursion it
  is \<open>ask\<close> with less fuel, at the top level \<open>Ask\<close>.
\<close>

type_synonym asker = "query \<Rightarrow> bool run"

record signer_state =
  st_in :: bool
  st_present :: bool
  st_role_now :: member_role
  st_role_before_leave :: member_role

definition LeftByChange :: "asker \<Rightarrow> rule_index \<Rightarrow> string \<Rightarrow> bool run" where
  "LeftByChange A ix account = any_m (\<lambda>l. A (ValidLeave l)) (Of (ix_leaves_by ix) account)"

definition and_then :: "bool \<Rightarrow> bool run \<Rightarrow> bool run" where
  "and_then b m = (if b then m else State_Monad.return False)"

definition not_m :: "bool run \<Rightarrow> bool run" where
  "not_m m = do { b \<leftarrow> m; State_Monad.return (\<not> b) }"

definition StatementStands :: "asker \<Rightarrow> rule_index \<Rightarrow> string \<Rightarrow> bool run" where
  "StatementStands A ix account = and_then (InStatement ix account) (do {
     there \<leftarrow> not_m (A (RemovedByChange account));
     and_then there (not_m (LeftByChange A ix account))
   })"

definition FromStatement :: "asker \<Rightarrow> rule_index \<Rightarrow> string \<Rightarrow> signer_state run" where
  "FromStatement A ix account = do {
     present \<leftarrow> and_then (InStatement ix account) (not_m (A (RemovedByChange account)));
     is_in \<leftarrow> and_then present (not_m (LeftByChange A ix account));
     State_Monad.return \<lparr>st_in = is_in, st_present = present,
       st_role_now = (if is_in then StatementRole ix account else Member),
       st_role_before_leave = (if present then StatementRole ix account else Member)\<rparr>
   }"

definition FromRoster :: "asker \<Rightarrow> rule_index \<Rightarrow> string \<Rightarrow> signer_state run" where
  "FromRoster A ix account = do {
     st \<leftarrow> FromStatement A ix account;
     s \<leftarrow> State_Monad.get;
     State_Monad.return (st\<lparr>st_in := account \<in> set (rs_in s), st_present := account \<in> set (rs_present s)\<rparr>)
   }"

definition NotInReason :: "asker \<Rightarrow> rule_index \<Rightarrow> string \<Rightarrow> change_reason run" where
  "NotInReason A ix account = do {
     known \<leftarrow> (if InStatement ix account \<or> map_of (ix_s_removed ix) account \<noteq> None
               then State_Monad.return True
               else do {
                 removed \<leftarrow> A (RemovedByChange account);
                 if removed then State_Monad.return True else LeftByChange A ix account
               });
     State_Monad.return (if known then SignerOut else SignerNotJoined)
   }"

text \<open>The result is the reason and, when it is \<open>RNone\<close>, the role the change was judged at.\<close>

definition Entitlement ::
  "asker \<Rightarrow> rule_index \<Rightarrow> checked_change \<Rightarrow> group_action \<Rightarrow> member_role \<Rightarrow>
    (string \<Rightarrow> signer_state run) \<Rightarrow> (change_reason \<times> member_role) run" where
  "Entitlement A ix c action target state = do {
     kept \<leftarrow> A (RemoveKept c);
     if kept then State_Monad.return (RNone, StatementRole ix (cc_signer c))
     else if \<not> GroupAllows action (StatementRole ix (cc_signer c)) (s_preset (ix_statement ix)) target
     then State_Monad.return (NotAllowed, Member)
     else do {
       leave_kept \<leftarrow> A (LeaveKept c);
       if \<not> cc_device_current c \<and> \<not> leave_kept then State_Monad.return (DeviceOffCard, Member)
       else do {
         st \<leftarrow> state (cc_signer c);
         if st_in st \<or> leave_kept \<and> st_present st
         then (let acting = (if st_in st then st_role_now st else st_role_before_leave st) in
           State_Monad.return
             (if GroupAllows action acting (s_preset (ix_statement ix)) target
              then (RNone, acting) else (NotAllowed, Member)))
         else do {
           reason \<leftarrow> NotInReason A ix (cc_signer c);
           State_Monad.return (reason, Member)
         }
       }
     }
   }"

definition RemoveReason :: "asker \<Rightarrow> rule_index \<Rightarrow> checked_change \<Rightarrow> change_reason run" where
  "RemoveReason A ix r =
     (if cc_member r = s_owner (ix_statement ix) then State_Monad.return NotAllowed
      else do {
        (reason, _) \<leftarrow> Entitlement A ix r Remove (StatementRole ix (cc_member r)) (FromStatement A ix);
        State_Monad.return reason
      })"

definition LeaveReason :: "asker \<Rightarrow> rule_index \<Rightarrow> checked_change \<Rightarrow> change_reason run" where
  "LeaveReason A ix l =
     (if \<not> GroupAllows Leave (StatementRole ix (cc_signer l)) (s_preset (ix_statement ix)) Member
      then State_Monad.return NotAllowed
      else if cc_device_current l then State_Monad.return RNone
      else do {
        kept \<leftarrow> A (RemoveKept l);
        State_Monad.return (if kept then RNone else DeviceOffCard)
      })"

text \<open>What each memoised question computes.\<close>

fun answer :: "asker \<Rightarrow> rule_index \<Rightarrow> query \<Rightarrow> bool run" where
  "answer A ix (RemoveKept c) =
     any_m (\<lambda>r. and_then (cc_member r = cc_signer c) (A (ValidRemove r)))
       (Of (ix_kept_by_remove ix) (cc_id c))"
| "answer A ix (LeaveKept c) =
     (if map_of (ix_kept_by_leave ix) (cc_id c) = None then State_Monad.return False
      else do {
        removed \<leftarrow> A (RemovedByChange (cc_signer c));
        if removed then State_Monad.return False
        else any_m (\<lambda>l. and_then (cc_signer l = cc_signer c) (A (ValidLeave l)))
               (Of (ix_kept_by_leave ix) (cc_id c))
      })"
| "answer A ix (ValidRemove r) = do {
     reason \<leftarrow> RemoveReason A ix r;
     State_Monad.return (reason = RNone)
   }"
| "answer A ix (ValidLeave l) = do {
     reason \<leftarrow> LeaveReason A ix l;
     State_Monad.return (reason = RNone)
   }"
| "answer A ix (RemovedByChange account) = any_m (\<lambda>r. A (ValidRemove r)) (Of (ix_removes_of ix) account)"

fun ask :: "nat \<Rightarrow> rule_index \<Rightarrow> query \<Rightarrow> bool run" where
  "ask 0 ix q = do {
     update_facts (\<lambda>f. f\<lparr>rf_exhausted := True\<rparr>);
     State_Monad.return False
   }"
| "ask (Suc fuel) ix q = Memo (key_of q) (answer (ask fuel ix) ix q)"

definition rules_fuel :: "rule_index \<Rightarrow> nat" where
  "rules_fuel ix = 5 * length (ix_held ix) + 2"

definition Ask :: "rule_index \<Rightarrow> query \<Rightarrow> bool run" where
  "Ask ix = ask (rules_fuel ix) ix"

subsection \<open>Adds\<close>

definition StaticAddReason :: "asker \<Rightarrow> rule_index \<Rightarrow> checked_change \<Rightarrow> change_reason run" where
  "StaticAddReason A ix a = (let member = cc_member a; removes = Of (ix_removes_of ix) member in do {
     named \<leftarrow> any_m (\<lambda>r. do {
       valid \<leftarrow> A (ValidRemove r);
       State_Monad.return (valid \<and> Names (c_adds (cc_change r)) (cc_id a)) }) removes;
     if named then State_Monad.return NamedByRemove else do {
       removed \<leftarrow> A (RemovedByChange member);
       if removed \<and> StatementRole ix (cc_signer a) = Member then State_Monad.return RemovedMember else do {
         refused \<leftarrow> (case map_of (ix_s_removed ix) member of
             Some row \<Rightarrow> State_Monad.return
               (c_readmits (cc_change a) = [] \<or> c_readmits (cc_change a) \<noteq> rv_removal row)
           | None \<Rightarrow> and_then (c_readmits (cc_change a) \<noteq> [])
               (not_m (any_m (\<lambda>r. and_then (cc_id r = c_readmits (cc_change a)) (A (ValidRemove r))) removes)));
         if refused then State_Monad.return NotReadmitted else do {
           left \<leftarrow> any_m (\<lambda>l. do {
             valid \<leftarrow> A (ValidLeave l);
             State_Monad.return (valid \<and> Names (c_adds (cc_change l)) (cc_id a)) })
             (Of (ix_leaves_by ix) member);
           State_Monad.return (if left then NamedByLeave else RNone)
         }
       }
     }
   })"

definition AddEntitlement :: "asker \<Rightarrow> rule_index \<Rightarrow> checked_change \<Rightarrow> change_reason run" where
  "AddEntitlement A ix a = do {
     (reason, _) \<leftarrow> Entitlement A ix a (if c_readmits (cc_change a) = [] then Invite else Readmit) Member
       (FromRoster A ix);
     State_Monad.return reason
   }"

definition static_reason :: "rules_state \<Rightarrow> checked_change \<Rightarrow> change_reason" where
  "static_reason s a = (case map_of (rs_static_reasons s) (cc_id a) of None \<Rightarrow> RNone | Some r \<Rightarrow> r)"

text \<open>The part of \<open>TryAccept\<close> after the entitlement: take the place, or say that there is none.\<close>

definition take_in :: "checked_change \<Rightarrow> rules_state \<Rightarrow> bool \<times> rules_state" where
  "take_in a s = (let member = cc_member a; accepted = os_insert (cc_id a) (rs_accepted s) in
     if static_reason s a = NamedByLeave
     then (True, s\<lparr>rs_present := os_insert member (rs_present s), rs_accepted := accepted\<rparr>)
     else if member \<in> set (rs_in s) then (True, s\<lparr>rs_accepted := accepted\<rparr>)
     else if length (rs_in s) \<ge> kMaxGroupMembers then (False, s)
     else (True, s\<lparr>rs_in := os_insert member (rs_in s), rs_present := os_insert member (rs_present s),
                   rs_joined_by := om_put member a (rs_joined_by s), rs_accepted := accepted\<rparr>))"

definition TryAccept :: "asker \<Rightarrow> rule_index \<Rightarrow> checked_change \<Rightarrow> bool run" where
  "TryAccept A ix a = do {
     reason \<leftarrow> AddEntitlement A ix a;
     if reason \<noteq> RNone then State_Monad.return False else State (take_in a)
   }"

text \<open>One pass over the open adds; it says whether it took one in.\<close>

fun adds_round :: "asker \<Rightarrow> rule_index \<Rightarrow> checked_change list \<Rightarrow> bool run" where
  "adds_round A ix [] = State_Monad.return False"
| "adds_round A ix (a # as) = do {
     s \<leftarrow> State_Monad.get;
     taken \<leftarrow> and_then (cc_id a \<notin> set (rs_accepted s)) (TryAccept A ix a);
     more \<leftarrow> adds_round A ix as;
     State_Monad.return (taken \<or> more)
   }"

fun adds_rounds :: "nat \<Rightarrow> asker \<Rightarrow> rule_index \<Rightarrow> checked_change list \<Rightarrow> unit run" where
  "adds_rounds 0 A ix open_adds = State_Monad.return ()"
| "adds_rounds (Suc rounds) A ix open_adds = do {
     taken \<leftarrow> adds_round A ix open_adds;
     if taken then adds_rounds rounds A ix open_adds else State_Monad.return ()
   }"

definition stand_member :: "asker \<Rightarrow> rule_index \<Rightarrow> string \<Rightarrow> unit run" where
  "stand_member A ix identity = do {
     removed \<leftarrow> A (RemovedByChange identity);
     (if removed then State_Monad.return ()
      else State_Monad.update (\<lambda>s. s\<lparr>rs_present := os_insert identity (rs_present s)\<rparr>));
     stands \<leftarrow> StatementStands A ix identity;
     (if stands then State_Monad.update (\<lambda>s. s\<lparr>rs_in := os_insert identity (rs_in s)\<rparr>)
      else State_Monad.return ())
   }"

text \<open>The static reason of every add, and the adds that may still count, in id order.\<close>

fun open_adds :: "asker \<Rightarrow> rule_index \<Rightarrow> checked_change list \<Rightarrow> checked_change list run" where
  "open_adds A ix [] = State_Monad.return []"
| "open_adds A ix (a # as) = do {
     reason \<leftarrow> StaticAddReason A ix a;
     State_Monad.update (\<lambda>s. s\<lparr>rs_static_reasons := om_put (cc_id a) reason (rs_static_reasons s)\<rparr>);
     rest \<leftarrow> open_adds A ix as;
     State_Monad.return (if reason = RNone \<or> reason = NamedByLeave then a # rest else rest)
   }"

definition RunAdds :: "asker \<Rightarrow> rule_index \<Rightarrow> unit run" where
  "RunAdds A ix = do {
     for_m (stand_member A ix) (map fst (ix_s_members ix));
     still_open \<leftarrow> open_adds A ix (ix_adds ix);
     adds_rounds (Suc (length still_open)) A ix still_open
   }"

definition judge_add :: "asker \<Rightarrow> rule_index \<Rightarrow> checked_change \<Rightarrow> unit run" where
  "judge_add A ix a = do {
     s \<leftarrow> State_Monad.get;
     let static = static_reason s a;
     if cc_id a \<in> set (rs_accepted s)
     then mark a (if static = NamedByLeave then Undone else Applied)
            (if static = NamedByLeave then NamedByLeave else RNone)
     else if static = NamedByRemove then mark a Undone NamedByRemove
     else if static \<noteq> RNone \<and> static \<noteq> NamedByLeave then mark a Void static
     else do {
       reason \<leftarrow> AddEntitlement A ix a;
       mark a Void (if reason = RNone then GroupFull else reason)
     }
   }"

definition JudgeAdds :: "asker \<Rightarrow> rule_index \<Rightarrow> unit run" where
  "JudgeAdds A ix = for_m (judge_add A ix) (ix_adds ix)"

subsection \<open>Removes, leaves, renames, links\<close>

definition judge_remove :: "asker \<Rightarrow> rule_index \<Rightarrow> checked_change \<Rightarrow> unit run" where
  "judge_remove A ix r = do {
     valid \<leftarrow> A (ValidRemove r);
     reason \<leftarrow> (if valid then State_Monad.return RNone else RemoveReason A ix r);
     mark r (if reason = RNone then Applied else Void) reason
   }"

definition judge_leave :: "asker \<Rightarrow> rule_index \<Rightarrow> bool \<Rightarrow> checked_change \<Rightarrow> unit run" where
  "judge_leave A ix known l = do {
     valid \<leftarrow> A (ValidLeave l);
     reason \<leftarrow> (if valid then State_Monad.return RNone else LeaveReason A ix l);
     let verdict = (if reason = RNone \<and> \<not> known then SignerNotJoined else reason);
     mark l (if verdict = RNone then Applied else Void) verdict
   }"

definition JudgeRemovesAndLeaves :: "asker \<Rightarrow> rule_index \<Rightarrow> unit run" where
  "JudgeRemovesAndLeaves A ix = do {
     for_m (\<lambda>(_, removes). for_m (judge_remove A ix) removes) (ix_removes_of ix);
     for_m (\<lambda>(signer, leaves). for_m (judge_leave A ix
         (InStatement ix signer \<or> map_of (ix_s_removed ix) signer \<noteq> None
           \<or> signer \<in> set (ix_joining ix))) leaves) (ix_leaves_by ix)
   }"

text \<open>The loop of \<open>JudgeRenames\<close>: the best rename so far and its rank.\<close>

fun judge_renames ::
  "asker \<Rightarrow> rule_index \<Rightarrow> (checked_change \<times> (u64 \<times> nat)) option \<Rightarrow> checked_change list \<Rightarrow>
    (checked_change \<times> (u64 \<times> nat)) option run" where
  "judge_renames A ix best [] = State_Monad.return best"
| "judge_renames A ix best (c # cs) = do {
     (reason, role) \<leftarrow> Entitlement A ix c Rename Member (FromRoster A ix);
     if reason \<noteq> RNone then do { mark c Void reason; judge_renames A ix best cs }
     else if c_title_version (cc_change c) \<le> s_title_version (ix_statement ix)
     then do { mark c Superseded OlderTitle; judge_renames A ix best cs }
     else do {
       mark c Superseded LostRename;
       let rank = (c_title_version (cc_change c), RoleRank role);
       judge_renames A ix
         (case best of None \<Rightarrow> Some (c, rank)
          | Some (_, best_rank) \<Rightarrow> if rank > best_rank then Some (c, rank) else best) cs
     }
   }"

definition JudgeRenames :: "asker \<Rightarrow> rule_index \<Rightarrow> unit run" where
  "JudgeRenames A ix = do {
     best \<leftarrow> judge_renames A ix None (ix_renames ix);
     State_Monad.update (\<lambda>s. s\<lparr>rs_title := s_title (ix_statement ix),
       rs_title_version := s_title_version (ix_statement ix)\<rparr>);
     case best of
       None \<Rightarrow> State_Monad.return ()
     | Some (c, _) \<Rightarrow> do {
         mark c Applied RNone;
         State_Monad.update (\<lambda>s. s\<lparr>rs_title := c_title (cc_change c),
           rs_title_version := c_title_version (cc_change c)\<rparr>)
       }
   }"

definition LinkOf :: "group_change \<Rightarrow> invite_link" where
  "LinkOf c = \<lparr>l_link_id = c_link_id c, l_secret_hash = c_secret_hash c, l_maker = c_signer c,
     l_expires_at = c_expires_at c, l_max_uses = c_max_uses c, l_uses = 0\<rparr>"

definition judge_link_add :: "asker \<Rightarrow> rule_index \<Rightarrow> checked_change \<Rightarrow> unit run" where
  "judge_link_add A ix c = (let link_id = c_link_id (cc_change c) in do {
     (reason, _) \<leftarrow> Entitlement A ix c MakeInviteLink Member (FromRoster A ix);
     if reason \<noteq> RNone
     then do {
       mark c Void reason;
       if reason = SignerOut
       then State_Monad.update (\<lambda>s. s\<lparr>rs_gone_makers_links :=
              om_emplace link_id (LinkOf (cc_change c)) (rs_gone_makers_links s)\<rparr>)
       else State_Monad.return ()
     }
     else do {
       s \<leftarrow> State_Monad.get;
       if map_of (rs_links s) link_id \<noteq> None then mark c Void DuplicateLink
       else do {
         mark c Applied RNone;
         State_Monad.update (\<lambda>s. s\<lparr>rs_links := om_put link_id (LinkOf (cc_change c)) (rs_links s)\<rparr>)
       }
     }
   })"

definition JudgeLinkAdds :: "asker \<Rightarrow> rule_index \<Rightarrow> unit run" where
  "JudgeLinkAdds A ix = do {
     State_Monad.update (\<lambda>s. s\<lparr>rs_links :=
       fold (\<lambda>l. om_put (l_link_id l) l) (s_links (ix_statement ix)) (rs_links s)\<rparr>);
     for_m (judge_link_add A ix) (ix_link_adds ix);
     State_Monad.update (\<lambda>s. s\<lparr>rs_gone_makers_links :=
       fold om_erase (map fst (rs_links s)) (rs_gone_makers_links s)\<rparr>)
   }"

definition judge_link_revoke :: "asker \<Rightarrow> rule_index \<Rightarrow> checked_change \<Rightarrow> unit run" where
  "judge_link_revoke A ix c = do {
     s \<leftarrow> State_Monad.get;
     case map_of (rs_links s) (c_link_id (cc_change c)) of
       None \<Rightarrow> mark c Void NoSuchLink
     | Some link \<Rightarrow> do {
         (reason, _) \<leftarrow> Entitlement A ix c (if cc_signer c = l_maker link then Send else RevokeInviteLink)
           Member (FromRoster A ix);
         mark c (if reason = RNone then Applied else Void) reason;
         if reason = RNone
         then State_Monad.update (\<lambda>s. s\<lparr>rs_revoked := os_insert (c_link_id (cc_change c)) (rs_revoked s)\<rparr>)
         else State_Monad.return ()
       }
   }"

definition JudgeLinks :: "asker \<Rightarrow> rule_index \<Rightarrow> unit run" where
  "JudgeLinks A ix = do {
     JudgeLinkAdds A ix;
     for_m (judge_link_revoke A ix) (ix_link_revokes ix)
   }"

subsection \<open>The view\<close>

text \<open>
  \<open>s_members_.at(identity)\<close> throws for an unknown account; the model then gives a row of defaults,
  and \<open>RosterProps\<close> shows that every account in the view is in one of the two maps.
\<close>

definition MemberRow :: "rule_index \<Rightarrow> rules_state \<Rightarrow> string \<Rightarrow> view_member" where
  "MemberRow ix s identity =
     (case map_of (rs_joined_by s) identity of
        Some a \<Rightarrow> \<lparr>vm_identity = identity, vm_role = Member, vm_joined_at = c_at (cc_change a),
          vm_added_by = cc_signer a, vm_added_in = cc_id a\<rparr>
      | None \<Rightarrow> (case map_of (ix_s_members ix) identity of
          Some m \<Rightarrow> \<lparr>vm_identity = identity, vm_role = sm_role m, vm_joined_at = sm_joined_at m,
            vm_added_by = sm_added_by m, vm_added_in = []\<rparr>
        | None \<Rightarrow> \<lparr>vm_identity = identity, vm_role = Member, vm_joined_at = 0, vm_added_by = [],
            vm_added_in = []\<rparr>))"

text \<open>The lowest valid removal of an account, of a list in id order.\<close>

fun first_valid :: "asker \<Rightarrow> checked_change list \<Rightarrow> checked_change option run" where
  "first_valid A [] = State_Monad.return None"
| "first_valid A (r # rs) = do {
     valid \<leftarrow> A (ValidRemove r);
     if valid then State_Monad.return (Some r) else first_valid A rs
   }"

fun removed_rows ::
  "asker \<Rightarrow> changes_by \<Rightarrow> (string \<times> removed_member) list \<Rightarrow> (string \<times> removed_member) list run" where
  "removed_rows A [] removed = State_Monad.return removed"
| "removed_rows A ((member, removes) # rest) removed = do {
     found \<leftarrow> first_valid A removes;
     removed_rows A rest (case found of None \<Rightarrow> removed
       | Some r \<Rightarrow> om_put member \<lparr>rv_identity = member, rv_removal = cc_id r, rv_removed_by = cc_signer r\<rparr> removed)
   }"

definition RemovedRows :: "asker \<Rightarrow> rule_index \<Rightarrow> removed_member list run" where
  "RemovedRows A ix = do {
     removed \<leftarrow> removed_rows A (ix_removes_of ix) (ix_s_removed ix);
     s \<leftarrow> State_Monad.get;
     State_Monad.return (map snd (filter (\<lambda>(identity, _). identity \<notin> set (rs_in s)) removed))
   }"

definition link_uses :: "rule_index \<Rightarrow> rules_state \<Rightarrow> string \<Rightarrow> u64" where
  "link_uses ix s link_id = word_of_nat (length (filter (\<lambda>a. c_link_id (cc_change a) \<noteq> []
     \<and> cc_id a \<in> set (rs_accepted s) \<and> c_link_id (cc_change a) = link_id) (ix_adds ix)))"

definition used_link :: "rule_index \<Rightarrow> rules_state \<Rightarrow> string \<times> invite_link \<Rightarrow> invite_link" where
  "used_link ix s p = (snd p)\<lparr>l_uses := l_uses (snd p) + link_uses ix s (fst p)\<rparr>"

definition link_ended :: "rule_index \<Rightarrow> rules_state \<Rightarrow> string \<times> invite_link \<Rightarrow> link_end option" where
  "link_ended ix s p =
     (if fst p \<in> set (rs_revoked s) then Some Revoked
      else if l_maker (snd p) \<notin> set (rs_in s) then Some MakerOut
      else if l_expires_at (snd p) \<le> ix_now ix then Some LinkExpired
      else None)"

definition LinkRows :: "rule_index \<Rightarrow> rules_state \<Rightarrow> roster_view \<Rightarrow> roster_view" where
  "LinkRows ix s view =
     view\<lparr>w_links := map (used_link ix s) (filter (\<lambda>p. link_ended ix s p = None) (rs_links s)),
       w_ended_links := sort_key (\<lambda>e. l_link_id (e_link e))
         (List.map_filter (\<lambda>p. map_option (\<lambda>why. \<lparr>e_link = used_link ix s p, e_end = why\<rparr>) (link_ended ix s p))
            (rs_links s)
          @ map (\<lambda>(_, link). \<lparr>e_link = link, e_end = MakerOut\<rparr>) (rs_gone_makers_links s))\<rparr>"

definition Build :: "asker \<Rightarrow> rule_index \<Rightarrow> roster_view run" where
  "Build A ix = (let st = ix_statement ix in do {
     s \<leftarrow> State_Monad.get;
     let view = \<lparr>w_group_id = s_group_id st, w_statement_epoch = s_roster_epoch st,
       w_owner = s_owner st, w_preset = s_preset st, w_dissolved = s_dissolved st,
       w_members = [], w_removed = [], w_links = [], w_ended_links = [],
       w_title = (if s_dissolved st then s_title st else rs_title s),
       w_title_version = (if s_dissolved st then s_title_version st else rs_title_version s),
       w_verdicts = map snd (rs_verdicts s)\<rparr>;
     if s_dissolved st then State_Monad.return view
     else do {
       removed \<leftarrow> RemovedRows A ix;
       State_Monad.return (LinkRows ix s
         (view\<lparr>w_members := map (MemberRow ix s) (rs_in s), w_removed := removed\<rparr>))
     }
   })"

definition judge_all :: "asker \<Rightarrow> rule_index \<Rightarrow> unit run" where
  "judge_all A ix = do {
     RunAdds A ix;
     JudgeAdds A ix;
     JudgeRemovesAndLeaves A ix;
     JudgeRenames A ix;
     JudgeLinks A ix
   }"

definition Run :: "statement \<Rightarrow> time_ms \<Rightarrow> checked_change list \<Rightarrow> roster_view" where
  "Run st now changes =
     (let k = Classify st changes; start = rules_start st now k in
      if s_dissolved st then fst (run_state (Build (Ask start) start) (start_state (k_verdicts k)))
      else (let ix = Index start in
        fst (run_state (do { judge_all (Ask ix) ix; Build (Ask ix) ix }) (start_state (k_verdicts k)))))"

definition ComputeRosterChecked :: "statement \<Rightarrow> checked_change list \<Rightarrow> time_ms \<Rightarrow> roster_view" where
  "ComputeRosterChecked latest changes now = Run latest now (Collapse changes)"

definition ComputeRoster ::
  "crypto \<Rightarrow> statement \<Rightarrow> group_change list \<Rightarrow> (string \<Rightarrow> account_card option) \<Rightarrow> time_ms \<Rightarrow> roster_view" where
  "ComputeRoster cr latest changes cards now =
     ComputeRosterChecked latest (CheckChanges cr changes cards now) now"

end
