(* ===== verification/RulesMemo.thy ===== *)
theory RulesMemo
  imports RulesEngine
begin

section \<open>What the memoised facts mean\<close>

text \<open>
  The index that \<open>Classify\<close> and \<open>Index\<close> build, described by the set of held changes; the locale
  \<open>asker\<close>, the contract between the rules and whoever answers their questions; and the proof that
  \<open>ask\<close> meets the contract: its fuel never runs out, and a question it answers with yes is
  justified (\<open>may\<close>).
\<close>

subsection \<open>The index\<close>

definition held :: "rule_index \<Rightarrow> checked_change set" where
  "held ix = snd ` set (ix_held ix)"

definition index_ok :: "rule_index \<Rightarrow> bool" where
  "index_ok ix \<longleftrightarrow>
     inj_on cc_id (held ix) \<and> card (held ix) \<le> length (ix_held ix)
     \<and> om_ok (ix_removes_of ix) \<and> om_ok (ix_leaves_by ix)
     \<and> set (ix_adds ix) = {c \<in> held ix. cc_kind c = KAdd}
     \<and> set (ix_renames ix) = {c \<in> held ix. cc_kind c = KRename}
     \<and> set (ix_link_adds ix) = {c \<in> held ix. cc_kind c = KLinkAdd}
     \<and> set (ix_link_revokes ix) = {c \<in> held ix. cc_kind c = KLinkRevoke}
     \<and> (\<forall>m. set (Of (ix_removes_of ix) m) = {r \<in> held ix. cc_kind r = KRemove \<and> cc_member r = m})
     \<and> (\<forall>a. set (Of (ix_leaves_by ix) a) = {l \<in> held ix. cc_kind l = KLeave \<and> cc_signer l = a})
     \<and> (\<forall>k. set (Of (ix_kept_by_remove ix) k)
          = {r \<in> held ix. cc_kind r = KRemove \<and> k \<in> set (c_keeps (cc_change r))})
     \<and> (\<forall>k. set (Of (ix_kept_by_leave ix) k)
          = {l \<in> held ix. cc_kind l = KLeave \<and> k \<in> set (c_keeps (cc_change l))})"

lemma finite_held [simp]: "finite (held ix)"
  by (simp add: held_def)

lemma Of_push [simp]: "Of (om_push k c m) j = (if j = k then Of m k @ [c] else Of m j)"
  by (auto simp: Of_def split: option.splits)

lemma Of_fold_push:
  "set (Of (fold (\<lambda>k. om_push k c) ks m) j) = set (Of m j) \<union> (if j \<in> set ks then {c} else {})"
  by (induction ks arbitrary: m) auto

text \<open>\<open>Index\<close> appends; as lists the groups are filters of what was held, in its order.\<close>

lemma index_fold_lists:
  "ix_adds (fold index_one cs ix) = ix_adds ix @ filter (\<lambda>c. cc_kind c = KAdd) cs"
  "ix_renames (fold index_one cs ix) = ix_renames ix @ filter (\<lambda>c. cc_kind c = KRename) cs"
  "ix_link_adds (fold index_one cs ix) = ix_link_adds ix @ filter (\<lambda>c. cc_kind c = KLinkAdd) cs"
  "ix_link_revokes (fold index_one cs ix) = ix_link_revokes ix @ filter (\<lambda>c. cc_kind c = KLinkRevoke) cs"
  "Of (ix_removes_of (fold index_one cs ix)) m
     = Of (ix_removes_of ix) m @ filter (\<lambda>c. cc_kind c = KRemove \<and> cc_member c = m) cs"
  "Of (ix_leaves_by (fold index_one cs ix)) a
     = Of (ix_leaves_by ix) a @ filter (\<lambda>c. cc_kind c = KLeave \<and> cc_signer c = a) cs"
  by (induction cs arbitrary: ix) (auto simp: index_one_def split: group_change_kind.splits)

lemma index_fold_om [simp]:
  "om_ok (ix_removes_of ix) \<Longrightarrow> om_ok (ix_removes_of (fold index_one cs ix))"
  "om_ok (ix_leaves_by ix) \<Longrightarrow> om_ok (ix_leaves_by (fold index_one cs ix))"
  by (induction cs arbitrary: ix) (auto simp: index_one_def split: group_change_kind.splits)

lemma index_fold_kept:
  "set (Of (ix_kept_by_remove (fold index_one cs ix)) k) = set (Of (ix_kept_by_remove ix) k)
     \<union> {c \<in> set cs. cc_kind c = KRemove \<and> k \<in> set (c_keeps (cc_change c))}"
  "set (Of (ix_kept_by_leave (fold index_one cs ix)) k) = set (Of (ix_kept_by_leave ix) k)
     \<union> {c \<in> set cs. cc_kind c = KLeave \<and> k \<in> set (c_keeps (cc_change c))}"
  by (induction cs arbitrary: ix)
    (auto simp: index_one_def Of_fold_push split: group_change_kind.splits if_splits)

lemma index_fold_same [simp]:
  "ix_held (fold index_one cs ix) = ix_held ix"
  "ix_statement (fold index_one cs ix) = ix_statement ix"
  "ix_now (fold index_one cs ix) = ix_now ix"
  "ix_s_members (fold index_one cs ix) = ix_s_members ix"
  "ix_s_removed (fold index_one cs ix) = ix_s_removed ix"
  by (induction cs arbitrary: ix) (auto simp: index_one_def split: group_change_kind.splits)

lemma Index_same [simp]:
  "ix_held (Index ix) = ix_held ix" "ix_statement (Index ix) = ix_statement ix"
  "ix_now (Index ix) = ix_now ix" "ix_s_members (Index ix) = ix_s_members ix"
  "ix_s_removed (Index ix) = ix_s_removed ix"
  by (simp_all add: Index_def)

lemma Of_Nil [simp]: "Of [] k = []"
  by (simp add: Of_def)

definition held_by_id :: "(string \<times> checked_change) list \<Rightarrow> bool" where
  "held_by_id h \<longleftrightarrow> om_ok h \<and> (\<forall>(i, c) \<in> set h. cc_id c = i)"

lemma held_by_id_inj: "held_by_id h \<Longrightarrow> inj_on cc_id (snd ` set h)"
proof (rule inj_onI)
  fix c d
  assume h: "held_by_id h" and "c \<in> snd ` set h" "d \<in> snd ` set h" and eq: "cc_id c = cc_id d"
  then have "(cc_id c, c) \<in> set h" "(cc_id c, d) \<in> set h"
    by (auto simp: held_by_id_def)
  with h have "map_of h (cc_id c) = Some c" "map_of h (cc_id c) = Some d"
    by (auto simp: held_by_id_def intro: map_of_SomeI)
  then show "c = d" by simp
qed

lemma index_ok_Index:
  assumes "held_by_id (k_held k)"
  shows "index_ok (Index (rules_start s now k))"
proof -
  have "card (snd ` set (k_held k)) \<le> length (k_held k)"
    using card_image_le [of "set (k_held k)" snd] card_length [of "k_held k"] by simp
  then show ?thesis
    using held_by_id_inj [OF assms]
    by (simp add: index_ok_def held_def Index_def rules_start_def index_fold_lists index_fold_kept)
qed

lemma classify_one_held: "held_by_id (k_held k) \<Longrightarrow> held_by_id (k_held (classify_one s folded c k))"
  using set_om_put [of "cc_id c" c "k_held k"]
  by (auto simp: classify_one_def held_by_id_def)

lemma Classify_held: "held_by_id (k_held (Classify s cs))"
proof -
  have "held_by_id (k_held k) \<Longrightarrow> held_by_id (k_held (fold (classify_one s folded) cs k))" for folded k
    by (induction cs arbitrary: k) (auto simp: classify_one_held)
  from this [of "\<lparr>k_held = [], k_verdicts = [], k_joining = []\<rparr>"]
  show ?thesis by (simp add: Classify_def Let_def) (simp add: held_by_id_def)
qed

text \<open>The index a run of the rules works on.\<close>

definition run_index :: "statement \<Rightarrow> time_ms \<Rightarrow> checked_change list \<Rightarrow> rule_index" where
  "run_index s now cs = Index (rules_start s now (Classify s cs))"

lemma run_index_ok: "index_ok (run_index s now cs)"
  unfolding run_index_def by (rule index_ok_Index) (rule Classify_held)

subsection \<open>Questions, and what a yes to them needs\<close>

fun nested :: "rule_index \<Rightarrow> query \<Rightarrow> bool" where
  "nested ix (RemoveKept c) \<longleftrightarrow> c \<in> held ix"
| "nested ix (LeaveKept c) \<longleftrightarrow> c \<in> held ix"
| "nested ix (ValidRemove c) \<longleftrightarrow> c \<in> held ix \<and> cc_kind c = KRemove"
| "nested ix (ValidLeave c) \<longleftrightarrow> c \<in> held ix \<and> cc_kind c = KLeave"
| "nested ix (RemovedByChange a) \<longleftrightarrow> (\<exists>c \<in> held ix. a = cc_signer c)"

definition asked :: "rule_index \<Rightarrow> query \<Rightarrow> bool" where
  "asked ix q \<longleftrightarrow> nested ix q \<or> (\<exists>a. q = RemovedByChange a)"

text \<open>
  A removal may count: its signer is in the statement and may remove whom it removes there, and its
  device is current or a leave of its signer keeps it; or a removal of its signer that may count
  keeps it. Never of the owner.
\<close>

definition leave_keeps :: "rule_index \<Rightarrow> checked_change \<Rightarrow> bool" where
  "leave_keeps ix c \<longleftrightarrow> (\<exists>l \<in> held ix. cc_kind l = KLeave \<and> cc_signer l = cc_signer c
     \<and> cc_id c \<in> set (c_keeps (cc_change l)))"

inductive may_remove :: "rule_index \<Rightarrow> checked_change \<Rightarrow> bool" for ix :: rule_index where
  by_role: "r \<in> held ix \<Longrightarrow> cc_kind r = KRemove \<Longrightarrow> cc_member r \<noteq> s_owner (ix_statement ix) \<Longrightarrow>
    InStatement ix (cc_signer r) \<Longrightarrow>
    GroupAllows Remove (StatementRole ix (cc_signer r)) (s_preset (ix_statement ix))
      (StatementRole ix (cc_member r)) \<Longrightarrow>
    cc_device_current r \<or> leave_keeps ix r \<Longrightarrow> may_remove ix r"
| vouched: "r \<in> held ix \<Longrightarrow> cc_kind r = KRemove \<Longrightarrow> cc_member r \<noteq> s_owner (ix_statement ix) \<Longrightarrow>
    may_remove ix v \<Longrightarrow> cc_member v = cc_signer r \<Longrightarrow> cc_id r \<in> set (c_keeps (cc_change v)) \<Longrightarrow>
    may_remove ix r"

definition remove_keeps :: "rule_index \<Rightarrow> checked_change \<Rightarrow> bool" where
  "remove_keeps ix c \<longleftrightarrow> (\<exists>v. may_remove ix v \<and> cc_member v = cc_signer c
     \<and> cc_id c \<in> set (c_keeps (cc_change v)))"

definition removable :: "rule_index \<Rightarrow> string \<Rightarrow> bool" where
  "removable ix account \<longleftrightarrow> (\<exists>r. may_remove ix r \<and> cc_member r = account)"

definition may_leave :: "rule_index \<Rightarrow> checked_change \<Rightarrow> bool" where
  "may_leave ix l \<longleftrightarrow>
     GroupAllows Leave (StatementRole ix (cc_signer l)) (s_preset (ix_statement ix)) Member
     \<and> (cc_device_current l \<or> remove_keeps ix l)"

fun may :: "rule_index \<Rightarrow> query \<Rightarrow> bool" where
  "may ix (RemoveKept c) = remove_keeps ix c"
| "may ix (LeaveKept c) = leave_keeps ix c"
| "may ix (ValidRemove r) = may_remove ix r"
| "may ix (ValidLeave l) = may_leave ix l"
| "may ix (RemovedByChange a) = removable ix a"

lemma may_remove_held: "may_remove ix r \<Longrightarrow> r \<in> held ix \<and> cc_kind r = KRemove"
  by (erule may_remove.cases) auto

lemma may_remove_not_owner: "may_remove ix r \<Longrightarrow> cc_member r \<noteq> s_owner (ix_statement ix)"
  by (erule may_remove.cases) auto

text \<open>What a signer's state from the statement can say.\<close>

definition statement_standing :: "rule_index \<Rightarrow> string \<Rightarrow> signer_state \<Rightarrow> bool" where
  "statement_standing ix a st \<longleftrightarrow> (st_in st \<longrightarrow> st_present st) \<and> (st_present st \<longrightarrow> InStatement ix a)
     \<and> (st_in st \<longrightarrow> st_role_now st = StatementRole ix a)
     \<and> (st_present st \<longrightarrow> st_role_before_leave st = StatementRole ix a)
     \<and> st_role_now st \<in> {StatementRole ix a, Member}
     \<and> st_role_before_leave st \<in> {StatementRole ix a, Member}"

definition acting_role :: "signer_state \<Rightarrow> member_role" where
  "acting_role st = (if st_in st then st_role_now st else st_role_before_leave st)"

definition granted ::
  "rule_index \<Rightarrow> checked_change \<Rightarrow> group_action \<Rightarrow> member_role \<Rightarrow> (signer_state \<Rightarrow> bool) \<Rightarrow> member_role \<Rightarrow> bool" where
  "granted ix c action target S role \<longleftrightarrow>
     remove_keeps ix c \<and> role = StatementRole ix (cc_signer c)
     \<or> GroupAllows action (StatementRole ix (cc_signer c)) (s_preset (ix_statement ix)) target
       \<and> (cc_device_current c \<or> leave_keeps ix c)
       \<and> (\<exists>st. S st \<and> (st_in st \<or> leave_keeps ix c \<and> st_present st) \<and> role = acting_role st
            \<and> GroupAllows action role (s_preset (ix_statement ix)) target)"

subsection \<open>The contract of an asker\<close>

locale asker =
  fixes A :: "query \<Rightarrow> bool run" and ix :: rule_index and I :: "rules_state \<Rightarrow> bool"
  assumes index: "index_ok ix"
    and yes: "nested ix q \<Longrightarrow> holds_after I (A q) (\<lambda>b s. I s \<and> (b \<longrightarrow> may ix q))"
begin

lemma and_then:
  "(b \<Longrightarrow> holds_after I m (\<lambda>c s. I s \<and> (c \<longrightarrow> P))) \<Longrightarrow>
    holds_after I (and_then b m) (\<lambda>c s. I s \<and> (c \<longrightarrow> b \<and> P))"
  by (cases b) (auto simp: and_then_def intro: holds_after_return elim: holds_after_weaken)

lemma and_then_inv:
  "holds_after I m (\<lambda>_. I) \<Longrightarrow> holds_after I (and_then b m) (\<lambda>c s. I s \<and> (c \<longrightarrow> b))"
  by (cases b) (auto simp: and_then_def intro: holds_after_return elim: holds_after_weaken)

lemma keeps_I: "holds_after I m (\<lambda>b s. I s \<and> P b s) \<Longrightarrow> holds_after I m (\<lambda>_. I)"
  by (erule holds_after_weaken) auto

lemma not_m: "holds_after I m (\<lambda>_. I) \<Longrightarrow> holds_after I (not_m m) (\<lambda>_. I)"
  unfolding not_m_def by (erule holds_after_bind) (auto intro: holds_after_return)

lemma LeftByChange:
  "holds_after I (LeftByChange A ix account) (\<lambda>b s. I s \<and> (b \<longrightarrow>
     (\<exists>l \<in> held ix. cc_kind l = KLeave \<and> cc_signer l = account \<and> may_leave ix l)))"
proof -
  have set: "set (Of (ix_leaves_by ix) account) = {l \<in> held ix. cc_kind l = KLeave \<and> cc_signer l = account}"
    using index by (simp add: index_ok_def)
  have "holds_after I (LeftByChange A ix account)
    (\<lambda>b s. I s \<and> (b \<longrightarrow> (\<exists>l \<in> set (Of (ix_leaves_by ix) account). may ix (ValidLeave l))))"
    unfolding LeftByChange_def by (rule holds_after_any_m, rule yes) (auto simp: set)
  then show ?thesis by (rule holds_after_weaken) (auto simp: set)
qed

lemma any_valid_remove:
  assumes "set rs \<subseteq> {r \<in> held ix. cc_kind r = KRemove}"
  shows "holds_after I (any_m (\<lambda>r. and_then (P r) (A (ValidRemove r))) rs)
    (\<lambda>b s. I s \<and> (b \<longrightarrow> (\<exists>r \<in> set rs. P r \<and> may_remove ix r)))"
proof (rule holds_after_any_m)
  fix r
  assume "r \<in> set rs"
  then have "nested ix (ValidRemove r)" using assms by auto
  from yes [OF this]
  show "holds_after I (and_then (P r) (A (ValidRemove r))) (\<lambda>b s. I s \<and> (b \<longrightarrow> P r \<and> may_remove ix r))"
    by (intro and_then) simp
qed

lemma removed_by_change:
  "holds_after I (any_m (\<lambda>r. A (ValidRemove r)) (Of (ix_removes_of ix) account))
    (\<lambda>b s. I s \<and> (b \<longrightarrow> removable ix account))"
proof -
  have set: "set (Of (ix_removes_of ix) account) = {r \<in> held ix. cc_kind r = KRemove \<and> cc_member r = account}"
    using index by (simp add: index_ok_def)
  have "holds_after I (any_m (\<lambda>r. A (ValidRemove r)) (Of (ix_removes_of ix) account))
    (\<lambda>b s. I s \<and> (b \<longrightarrow> (\<exists>r \<in> set (Of (ix_removes_of ix) account). may ix (ValidRemove r))))"
    by (rule holds_after_any_m, rule yes) (auto simp: set)
  then show ?thesis by (rule holds_after_weaken) (auto simp: set removable_def)
qed

lemma FromStatement:
  assumes "nested ix (RemovedByChange a)"
  shows "holds_after I (FromStatement A ix a) (\<lambda>st s. I s \<and> statement_standing ix a st)"
proof -
  have 0: "holds_after I (A (RemovedByChange a)) (\<lambda>_. I)" by (rule keeps_I [OF yes [OF assms]])
  have 1: "holds_after I (and_then (InStatement ix a) (not_m (A (RemovedByChange a))))
      (\<lambda>b s. I s \<and> (b \<longrightarrow> InStatement ix a))"
    by (rule and_then_inv) (rule not_m [OF 0])
  have 2: "holds_after I (and_then p (not_m (LeftByChange A ix a))) (\<lambda>b s. I s \<and> (b \<longrightarrow> p))" for p
    by (rule and_then_inv) (rule not_m, rule keeps_I, rule LeftByChange)
  show ?thesis
    unfolding FromStatement_def
    by (rule holds_after_bind_value [OF 1], rule holds_after_bind_value [OF 2])
      (auto intro!: holds_after_return simp: statement_standing_def)
qed

lemma NotInReason:
  assumes "nested ix (RemovedByChange a)"
  shows "holds_after I (NotInReason A ix a) (\<lambda>r s. I s \<and> r \<in> {SignerOut, SignerNotJoined})"
proof -
  have 1: "holds_after I (A (RemovedByChange a)) (\<lambda>_. I)" by (rule keeps_I [OF yes [OF assms]])
  have 2: "holds_after I (LeftByChange A ix a) (\<lambda>_. I)" by (rule keeps_I [OF LeftByChange])
  show ?thesis
    unfolding NotInReason_def
    by (rule holds_after_bind [of _ _ "\<lambda>_. I"])
      (auto intro!: holds_after_if holds_after_return holds_after_bind [OF 1] 2)
qed

text \<open>
  What a granted entitlement rests on: kept by a removal of its signer, or allowed at the role
  that the signer's state gives.
\<close>

lemma Entitlement:
  assumes c: "c \<in> held ix"
    and state: "holds_after I (state (cc_signer c)) (\<lambda>st s. I s \<and> S st s)"
    and stable: "\<And>st s. S st s \<Longrightarrow> I s \<Longrightarrow> T st"
  shows "holds_after I (Entitlement A ix c action target state)
    (\<lambda>(reason, role) s. I s \<and> (reason = RNone \<longrightarrow> granted ix c action target T role))"
proof -
  let ?allowed = "\<lambda>role. GroupAllows action role (s_preset (ix_statement ix)) target"
  have kept: "holds_after I (A (RemoveKept c)) (\<lambda>b s. I s \<and> (b \<longrightarrow> remove_keeps ix c))"
    using yes [of "RemoveKept c"] c by simp
  have leave: "holds_after I (A (LeaveKept c)) (\<lambda>b s. I s \<and> (b \<longrightarrow> leave_keeps ix c))"
    using yes [of "LeaveKept c"] c by simp
  have out: "holds_after I (NotInReason A ix (cc_signer c)) (\<lambda>r s. I s \<and> r \<in> {SignerOut, SignerNotJoined})"
    by (rule NotInReason) (use c in auto)
  have out': "holds_after (\<lambda>s. I s \<and> p) (NotInReason A ix (cc_signer c))
      (\<lambda>r s. I s \<and> r \<in> {SignerOut, SignerNotJoined})" for p
    using out by (rule holds_after_weaken) auto
  have state': "holds_after I (state (cc_signer c)) (\<lambda>st s. I s \<and> T st)"
    using state by (rule holds_after_weaken) (auto intro: stable)
  have judged: "holds_after (\<lambda>s. I s \<and> T st)
      (if st_in st \<or> leave_kept \<and> st_present st
       then (let acting = (if st_in st then st_role_now st else st_role_before_leave st) in
         State_Monad.return (if ?allowed acting then (RNone, acting) else (NotAllowed, Member)))
       else do { reason \<leftarrow> NotInReason A ix (cc_signer c); State_Monad.return (reason, Member) })
      (\<lambda>(reason, role) s. I s \<and> (reason = RNone \<longrightarrow> granted ix c action target T role))"
    if "?allowed (StatementRole ix (cc_signer c))" "leave_kept \<longrightarrow> leave_keeps ix c"
      "cc_device_current c \<or> leave_kept" for st leave_kept
  proof (cases "st_in st \<or> leave_kept \<and> st_present st")
    case True
    show ?thesis
      using that True
      by (auto simp: Let_def granted_def acting_role_def split: if_splits intro!: holds_after_return)
  next
    case False
    then show ?thesis
      by (auto intro!: holds_after_bind_value [OF out'] holds_after_return)
  qed
  have rest: "holds_after I
      (if \<not> cc_device_current c \<and> \<not> k then State_Monad.return (DeviceOffCard, Member)
       else do {
         st \<leftarrow> state (cc_signer c);
         if st_in st \<or> k \<and> st_present st
         then (let acting = (if st_in st then st_role_now st else st_role_before_leave st) in
           State_Monad.return (if ?allowed acting then (RNone, acting) else (NotAllowed, Member)))
         else do { reason \<leftarrow> NotInReason A ix (cc_signer c); State_Monad.return (reason, Member) }
       })
      (\<lambda>(reason, role) s. I s \<and> (reason = RNone \<longrightarrow> granted ix c action target T role))"
    if "k \<longrightarrow> leave_keeps ix c" "?allowed (StatementRole ix (cc_signer c))" for k
    using that judged [where leave_kept = k]
    by (auto intro!: holds_after_bind [OF state'] holds_after_return)
  show ?thesis
    unfolding Entitlement_def
  proof (rule holds_after_bind_value [OF kept], rule holds_after_if, goal_cases)
    case (1 b)
    then show ?case by (auto simp: granted_def intro!: holds_after_return)
  next
    case (2 b)
    show ?case
    proof (rule holds_after_if, goal_cases)
      case 1
      show ?case by (auto intro!: holds_after_return)
    next
      case 2
      then show ?case by (intro holds_after_bind_value [OF leave] rest) simp_all
    qed
  qed
qed

lemma RemoveReason:
  assumes "r \<in> held ix" and "cc_kind r = KRemove"
  shows "holds_after I (RemoveReason A ix r) (\<lambda>reason s. I s \<and> (reason = RNone \<longrightarrow> may_remove ix r))"
proof (cases "cc_member r = s_owner (ix_statement ix)")
  case True
  then show ?thesis by (simp add: RemoveReason_def holds_after_return)
next
  case False
  have "nested ix (RemovedByChange (cc_signer r))" using assms by auto
  then have ent: "holds_after I (Entitlement A ix r Remove (StatementRole ix (cc_member r)) (FromStatement A ix))
      (\<lambda>(reason, role) s. I s \<and> (reason = RNone \<longrightarrow>
         granted ix r Remove (StatementRole ix (cc_member r)) (statement_standing ix (cc_signer r)) role))"
    by (intro Entitlement [where S = "\<lambda>st s. statement_standing ix (cc_signer r) st"] FromStatement assms)
  have "may_remove ix r"
    if "granted ix r Remove (StatementRole ix (cc_member r)) (statement_standing ix (cc_signer r)) role" for role
    using that assms False unfolding granted_def statement_standing_def
    by (auto simp: remove_keeps_def intro: may_remove.intros)
  then show ?thesis
    unfolding RemoveReason_def using False
    by (auto intro!: holds_after_bind [OF ent] holds_after_return)
qed

lemma LeaveReason:
  assumes "l \<in> held ix"
  shows "holds_after I (LeaveReason A ix l) (\<lambda>reason s. I s \<and> (reason = RNone \<longrightarrow> may_leave ix l))"
proof -
  have kept: "holds_after I (A (RemoveKept l)) (\<lambda>b s. I s \<and> (b \<longrightarrow> remove_keeps ix l))"
    using yes [of "RemoveKept l"] assms by simp
  show ?thesis
    unfolding LeaveReason_def
    by (intro holds_after_if holds_after_bind_value [OF kept])
      (auto simp: may_leave_def intro!: holds_after_return)
qed

lemma answer:
  assumes "asked ix q"
  shows "holds_after I (answer A ix q) (\<lambda>b s. I s \<and> (b \<longrightarrow> may ix q))"
proof (cases q)
  case (RemoveKept c)
  have set: "set (Of (ix_kept_by_remove ix) (cc_id c))
      = {r \<in> held ix. cc_kind r = KRemove \<and> cc_id c \<in> set (c_keeps (cc_change r))}"
    using index by (simp add: index_ok_def)
  show ?thesis
    unfolding RemoveKept answer.simps
    by (rule holds_after_weaken [OF any_valid_remove]) (auto simp: set remove_keeps_def)
next
  case (LeaveKept c)
  have set: "set (Of (ix_kept_by_leave ix) (cc_id c))
      = {l \<in> held ix. cc_kind l = KLeave \<and> cc_id c \<in> set (c_keeps (cc_change l))}"
    using index by (simp add: index_ok_def)
  have removed: "holds_after I (A (RemovedByChange (cc_signer c))) (\<lambda>_. I)"
    by (rule keeps_I, rule yes) (use assms LeaveKept in \<open>auto simp: asked_def\<close>)
  have "holds_after I (and_then (cc_signer l = cc_signer c) (A (ValidLeave l)))
      (\<lambda>b s. I s \<and> (b \<longrightarrow> cc_signer l = cc_signer c))" if "l \<in> set (Of (ix_kept_by_leave ix) (cc_id c))" for l
    by (rule and_then_inv, rule keeps_I, rule yes) (use that in \<open>auto simp: set\<close>)
  then have "holds_after I
      (any_m (\<lambda>l. and_then (cc_signer l = cc_signer c) (A (ValidLeave l))) (Of (ix_kept_by_leave ix) (cc_id c)))
      (\<lambda>b s. I s \<and> (b \<longrightarrow> (\<exists>l \<in> set (Of (ix_kept_by_leave ix) (cc_id c)). cc_signer l = cc_signer c)))"
    by (rule holds_after_any_m)
  then have "holds_after I
      (any_m (\<lambda>l. and_then (cc_signer l = cc_signer c) (A (ValidLeave l))) (Of (ix_kept_by_leave ix) (cc_id c)))
      (\<lambda>b s. I s \<and> (b \<longrightarrow> leave_keeps ix c))"
    by (rule holds_after_weaken) (auto simp: set leave_keeps_def)
  then show ?thesis
    unfolding LeaveKept answer.simps may.simps
    by (intro holds_after_if holds_after_bind_inv [OF removed]) (auto intro!: holds_after_return)
next
  case (ValidRemove r)
  with assms have held: "r \<in> held ix" "cc_kind r = KRemove" by (auto simp: asked_def)
  show ?thesis
    unfolding ValidRemove answer.simps may.simps
    by (rule holds_after_bind [OF RemoveReason [OF held]]) (auto intro!: holds_after_return)
next
  case (ValidLeave l)
  with assms have held: "l \<in> held ix" by (auto simp: asked_def)
  show ?thesis
    unfolding ValidLeave answer.simps may.simps
    by (rule holds_after_bind [OF LeaveReason [OF held]]) (auto intro!: holds_after_return)
next
  case (RemovedByChange account)
  show ?thesis unfolding RemovedByChange answer.simps may.simps by (rule removed_by_change)
qed

end

subsection \<open>The asker of the rules meets the contract\<close>

definition nested_keys :: "rule_index \<Rightarrow> fact_key set" where
  "nested_keys ix = key_of ` {q. nested ix q}"

lemma nested_keys_subset:
  "nested_keys ix \<subseteq> RemoveKeptKey ` cc_id ` held ix \<union> LeaveKeptKey ` cc_id ` held ix
     \<union> RemoveKey ` cc_id ` held ix \<union> LeaveKey ` cc_id ` held ix \<union> RemovedKey ` cc_signer ` held ix"
  unfolding nested_keys_def
proof
  fix k
  assume "k \<in> key_of ` {q. nested ix q}"
  then obtain q where "k = key_of q" "nested ix q" by auto
  then show "k \<in> RemoveKeptKey ` cc_id ` held ix \<union> LeaveKeptKey ` cc_id ` held ix
      \<union> RemoveKey ` cc_id ` held ix \<union> LeaveKey ` cc_id ` held ix \<union> RemovedKey ` cc_signer ` held ix"
    by (cases q) auto
qed

lemma finite_nested_keys [simp]: "finite (nested_keys ix)"
  by (rule finite_subset [OF nested_keys_subset]) simp

lemma card_nested_keys: "card (nested_keys ix) \<le> 5 * card (held ix)"
proof -
  let ?H = "held ix"
  have one: "card (f ` g ` ?H) \<le> card ?H" for f :: "string \<Rightarrow> fact_key" and g
    by (rule order.trans [OF card_image_le card_image_le]) simp_all
  have "card (nested_keys ix) \<le> card (RemoveKeptKey ` cc_id ` ?H \<union> LeaveKeptKey ` cc_id ` ?H
     \<union> RemoveKey ` cc_id ` ?H \<union> LeaveKey ` cc_id ` ?H \<union> RemovedKey ` cc_signer ` ?H)"
    by (rule card_mono [OF _ nested_keys_subset]) simp
  also have "\<dots> \<le> card (RemoveKeptKey ` cc_id ` ?H) + card (LeaveKeptKey ` cc_id ` ?H)
     + card (RemoveKey ` cc_id ` ?H) + card (LeaveKey ` cc_id ` ?H) + card (RemovedKey ` cc_signer ` ?H)"
    by (intro order.trans [OF card_Un_le] add_mono) simp_all
  also have "\<dots> \<le> 5 * card ?H"
    using one [of RemoveKeptKey cc_id] one [of LeaveKeptKey cc_id] one [of RemoveKey cc_id]
      one [of LeaveKey cc_id] one [of RemovedKey cc_signer] by linarith
  finally show ?thesis .
qed

lemma may_of_key:
  assumes "index_ok ix" "asked ix q" "asked ix q'" "key_of q = key_of q'"
  shows "q = q'"
proof -
  have "inj_on cc_id (held ix)" using assms(1) by (simp add: index_ok_def)
  then show ?thesis
    using assms(2-4) by (cases q; cases q') (auto simp: asked_def inj_on_def)
qed

text \<open>
  The memo table in order: the keys \<open>V\<close> are being visited, the fuel has not run out, and what is
  remembered as true is justified.
\<close>

definition facts_ok :: "rule_index \<Rightarrow> fact_key set \<Rightarrow> rules_state \<Rightarrow> bool" where
  "facts_ok ix V s \<longleftrightarrow> rf_visiting (rs_facts s) = V \<and> \<not> rf_exhausted (rs_facts s)
     \<and> (\<forall>q. asked ix q \<and> rf_memo (rs_facts s) (key_of q) = Some True \<longrightarrow> may ix q)"

text \<open>A condition that does not look at the memo table.\<close>

definition stable :: "(rules_state \<Rightarrow> bool) \<Rightarrow> bool" where
  "stable R \<longleftrightarrow> (\<forall>s f. R (s\<lparr>rs_facts := f\<rparr>) = R s)"

lemma Memo_sound:
  assumes ix: "index_ok ix" and "stable R" and q: "asked ix q"
    and compute: "key_of q \<notin> V \<Longrightarrow> holds_after (\<lambda>s. facts_ok ix (insert (key_of q) V) s \<and> R s) m
      (\<lambda>b s. (facts_ok ix (insert (key_of q) V) s \<and> R s) \<and> (b \<longrightarrow> may ix q))"
  shows "holds_after (\<lambda>s. facts_ok ix V s \<and> R s) (Memo (key_of q) m)
    (\<lambda>b s. (facts_ok ix V s \<and> R s) \<and> (b \<longrightarrow> may ix q))"
proof (rule holds_afterI)
  fix s b s'
  assume s: "facts_ok ix V s \<and> R s" and run: "run_state (Memo (key_of q) m) s = (b, s')"
  let ?f = "rs_facts s"
  show "(facts_ok ix V s' \<and> R s') \<and> (b \<longrightarrow> may ix q)"
  proof (cases "rf_memo ?f (key_of q) \<noteq> None \<or> key_of q \<in> rf_visiting ?f")
    case True
    then have "s' = s" and "b \<longrightarrow> rf_memo ?f (key_of q) = Some True"
      using run by (auto simp: Memo_def State_Monad.bind_def State_Monad.get_def State_Monad.return_def
          split: option.splits if_splits)
    with s q show ?thesis by (auto simp: facts_ok_def)
  next
    case False
    then have V: "key_of q \<notin> V" using s by (simp add: facts_ok_def)
    let ?s1 = "s\<lparr>rs_facts := ?f\<lparr>rf_visiting := insert (key_of q) (rf_visiting ?f)\<rparr>\<rparr>"
    obtain b1 s2 where m: "run_state m ?s1 = (b1, s2)" by fastforce
    have "facts_ok ix (insert (key_of q) V) ?s1 \<and> R ?s1"
      using s assms(2) by (simp add: facts_ok_def stable_def)
    from holds_afterD [OF compute [OF V] this m]
    have s2: "facts_ok ix (insert (key_of q) V) s2" "R s2" "b1 \<longrightarrow> may ix q" by auto
    have "b = b1" and s': "s' = s2\<lparr>rs_facts := (rs_facts s2)\<lparr>rf_visiting := rf_visiting (rs_facts s2) - {key_of q},
        rf_memo := (rf_memo (rs_facts s2))(key_of q := Some b1)\<rparr>\<rparr>"
      using run m False
      by (auto simp: Memo_def update_facts_def State_Monad.bind_def State_Monad.get_def
          State_Monad.return_def State_Monad.update_def State_Monad.set_def)
    have "may ix q'" if "asked ix q'" "rf_memo (rs_facts s') (key_of q') = Some True" for q'
      using that s2 may_of_key [OF ix q that(1)]
      by (auto simp: s' facts_ok_def split: if_splits)
    with s2 V assms(2) show ?thesis
      by (auto simp: \<open>b = b1\<close> s' facts_ok_def stable_def)
  qed
qed

lemma ask_sound:
  assumes ix: "index_ok ix" and R: "stable R"
  shows "asked ix q \<Longrightarrow> card (nested_keys ix - V) + (if nested ix q \<and> key_of q \<notin> V then 0 else 1) < n \<Longrightarrow>
    holds_after (\<lambda>s. facts_ok ix V s \<and> R s) (ask n ix q)
      (\<lambda>b s. (facts_ok ix V s \<and> R s) \<and> (b \<longrightarrow> may ix q))"
proof (induction n arbitrary: q V)
  case (Suc n)
  show ?case
    unfolding ask.simps
  proof (rule Memo_sound [OF ix R Suc.prems(1)])
    let ?V = "insert (key_of q) V"
    assume new: "key_of q \<notin> V"
    have fuel: "card (nested_keys ix - ?V) < n"
    proof (cases "nested ix q")
      case True
      then have "key_of q \<in> nested_keys ix - V" using new by (auto simp: nested_keys_def)
      then have "card (nested_keys ix - ?V) < card (nested_keys ix - V)"
        by (intro psubset_card_mono) auto
      then show ?thesis using Suc.prems(2) by simp
    next
      case False
      have "card (nested_keys ix - ?V) \<le> card (nested_keys ix - V)"
        by (intro card_mono) auto
      then show ?thesis using Suc.prems(2) False by simp
    qed
    have "asker (ask n ix) ix (\<lambda>s. facts_ok ix ?V s \<and> R s)"
    proof
      fix q'
      assume q': "nested ix q'"
      show "holds_after (\<lambda>s. facts_ok ix ?V s \<and> R s) (ask n ix q')
        (\<lambda>b s. (facts_ok ix ?V s \<and> R s) \<and> (b \<longrightarrow> may ix q'))"
      proof (cases "key_of q' \<in> ?V")
        case False
        with fuel q' show ?thesis by (intro Suc.IH) (auto simp: asked_def)
      next
        case True
        then obtain n' where n: "n = Suc n'" using fuel by (cases n) auto
        show ?thesis
          unfolding n ask.simps
          by (rule Memo_sound [OF ix R]) (use True q' in \<open>auto simp: asked_def\<close>)
      qed
    qed (rule ix)
    from asker.answer [OF this Suc.prems(1)]
    show "holds_after (\<lambda>s. facts_ok ix ?V s \<and> R s) (answer (ask n ix) ix q)
      (\<lambda>b s. (facts_ok ix ?V s \<and> R s) \<and> (b \<longrightarrow> may ix q))" .
  qed
qed simp

text \<open>At the top level, where nothing is being visited, the fuel is enough.\<close>

lemma rules_fuel_enough: "index_ok ix \<Longrightarrow> card (nested_keys ix) + 1 < rules_fuel ix"
  using card_nested_keys [of ix] by (simp add: rules_fuel_def index_ok_def)

lemma Ask_sound:
  assumes "index_ok ix" "stable R" "asked ix q"
  shows "holds_after (\<lambda>s. facts_ok ix {} s \<and> R s) (Ask ix q)
    (\<lambda>b s. (facts_ok ix {} s \<and> R s) \<and> (b \<longrightarrow> may ix q))"
  unfolding Ask_def
  by (rule ask_sound [OF assms(1,2,3)]) (use rules_fuel_enough [OF assms(1)] in auto)

lemma Ask_asker:
  assumes "index_ok ix" "stable R"
  shows "asker (Ask ix) ix (\<lambda>s. facts_ok ix {} s \<and> R s)"
  by unfold_locales (use assms Ask_sound in \<open>auto simp: asked_def\<close>)

interpretation run_asker: asker "Ask (run_index s now cs)" "run_index s now cs"
    "facts_ok (run_index s now cs) {}" for s now cs
  using Ask_asker [OF run_index_ok, of "\<lambda>_. True"] by (simp add: stable_def)

end
