(* ===== verification/RosterProps.thy ===== *)
theory RosterProps
  imports RulesMemo
begin

section \<open>Properties of the computed roster\<close>

text \<open>
  What a run of the rules yields, proved along its stages: the members that stand, the adds to a
  fixed point, the judged renames and links, the view. Each stage keeps an invariant of the run's
  state that does not look at the memo table; the questions in between change only that table
  (\<open>asks\<close>), and their positive answers are justified (\<open>may\<close>, from \<open>RulesMemo\<close>).
\<close>

subsection \<open>Steps that only ask\<close>

definition frame :: "rules_state \<Rightarrow> rules_state \<Rightarrow> bool" where
  "frame s0 s \<longleftrightarrow> (\<exists>f. s = s0\<lparr>rs_facts := f\<rparr>)"

lemma stable_frame [simp]: "stable (frame s0)"
proof -
  have "frame s0 (s\<lparr>rs_facts := f\<rparr>) = frame s0 s" for s f
    by (cases s, cases s0) (auto simp: frame_def)
  then show ?thesis by (simp add: stable_def)
qed

lemma frame_refl [simp]: "frame s s"
  unfolding frame_def by (rule exI [of _ "rs_facts s"]) simp

lemma frame_same:
  "frame s0 s \<Longrightarrow> rs_in s = rs_in s0 \<and> rs_present s = rs_present s0 \<and> rs_accepted s = rs_accepted s0
    \<and> rs_verdicts s = rs_verdicts s0 \<and> rs_static_reasons s = rs_static_reasons s0
    \<and> rs_joined_by s = rs_joined_by s0 \<and> rs_title s = rs_title s0
    \<and> rs_title_version s = rs_title_version s0 \<and> rs_links s = rs_links s0
    \<and> rs_gone_makers_links s = rs_gone_makers_links s0 \<and> rs_revoked s = rs_revoked s0"
  by (auto simp: frame_def)

text \<open>
  \<open>asks ix m Q\<close>: from a state with the memo table in order, \<open>m\<close> changes only the memo table, keeps
  it in order, and its value satisfies \<open>Q\<close> of the state it started in.
\<close>

definition asks :: "rule_index \<Rightarrow> 'a run \<Rightarrow> (rules_state \<Rightarrow> 'a \<Rightarrow> bool) \<Rightarrow> bool" where
  "asks ix m Q \<longleftrightarrow> (\<forall>s0. holds_after (\<lambda>s. facts_ok ix {} s \<and> frame s0 s) m
     (\<lambda>v s. (facts_ok ix {} s \<and> frame s0 s) \<and> Q s0 v))"

abbreviation (input) keeping :: "rule_index \<Rightarrow> (rules_state \<Rightarrow> bool) \<Rightarrow> rules_state \<Rightarrow> bool" where
  "keeping ix R \<equiv> (\<lambda>s. facts_ok ix {} s \<and> R s)"

lemma asks_bind:
  assumes m: "asks ix m Q" and R: "stable R"
    and f: "\<And>v. holds_after (\<lambda>s. facts_ok ix {} s \<and> R s \<and> Q s v) (f v) Z"
    and Q: "\<And>v. stable (\<lambda>s. Q s v)"
  shows "holds_after (keeping ix R) (State_Monad.bind m f) Z"
proof (rule holds_afterI)
  fix s a s'
  assume s: "facts_ok ix {} s \<and> R s" and run: "run_state (State_Monad.bind m f) s = (a, s')"
  obtain v s1 where v: "run_state m s = (v, s1)" by fastforce
  have "facts_ok ix {} s1 \<and> frame s s1 \<and> Q s v"
    using holds_afterD [OF m [unfolded asks_def, THEN spec, of s] _ v] s by simp
  moreover from this obtain h where "s1 = s\<lparr>rs_facts := h\<rparr>" by (auto simp: frame_def)
  ultimately have "facts_ok ix {} s1 \<and> R s1 \<and> Q s1 v"
    using s R Q [of v] by (simp add: stable_def)
  from holds_afterD [OF f this] v run show "Z a s'" by (simp add: State_Monad.bind_def)
qed

lemma asks_bind_inv:
  assumes "asks ix m Q" and "stable R" and "\<And>v. holds_after (keeping ix R) (f v) Z"
  shows "holds_after (keeping ix R) (State_Monad.bind m f) Z"
proof (rule asks_bind [where Q = "\<lambda>_ _. True"])
  show "asks ix m (\<lambda>_ _. True)"
    using assms(1) unfolding asks_def by (auto elim!: holds_after_weaken)
qed (use assms in \<open>simp_all add: stable_def\<close>)

lemma asks_weaken: "asks ix m Q \<Longrightarrow> (\<And>s v. Q s v \<Longrightarrow> Q' s v) \<Longrightarrow> asks ix m Q'"
  unfolding asks_def by (auto elim!: holds_after_weaken)

lemma asks_holds:
  "asks ix m Q \<Longrightarrow> stable R \<Longrightarrow> (\<And>v. stable (\<lambda>s. Q s v)) \<Longrightarrow>
    holds_after (keeping ix R) m (\<lambda>v s. facts_ok ix {} s \<and> R s \<and> Q s v)"
  using asks_bind [of ix m Q R State_Monad.return "\<lambda>v s. facts_ok ix {} s \<and> R s \<and> Q s v"]
  by (simp add: holds_after_return)

lemma stable_const [simp]: "stable (\<lambda>_. P)"
  by (simp add: stable_def)

lemma stable_conj [intro]: "stable P \<Longrightarrow> stable Q \<Longrightarrow> stable (\<lambda>s. P s \<and> Q s)"
  by (simp add: stable_def)

lemma facts_ok_update:
  "rs_facts (g s) = rs_facts s \<Longrightarrow> facts_ok ix V (g s) = facts_ok ix V s"
  by (simp add: facts_ok_def)

lemma and_then_simps [simp]:
  "and_then True m = m" "and_then False m = State_Monad.return False"
  by (simp_all add: and_then_def)

subsection \<open>The questions of the rules\<close>

locale rules_run =
  fixes ix :: rule_index
  assumes index_ok: "index_ok ix"
begin

lemma asker_frame: "asker (Ask ix) ix (\<lambda>s. facts_ok ix {} s \<and> frame s0 s)"
  by (rule Ask_asker [OF index_ok stable_frame])

lemma asks_Ask: "asked ix q \<Longrightarrow> asks ix (Ask ix q) (\<lambda>_ b. b \<longrightarrow> may ix q)"
  unfolding asks_def using Ask_sound [OF index_ok stable_frame] by blast

lemma asks_ValidRemove:
  "r \<in> held ix \<Longrightarrow> cc_kind r = KRemove \<Longrightarrow> asks ix (Ask ix (ValidRemove r)) (\<lambda>_ b. b \<longrightarrow> may_remove ix r)"
  using asks_Ask [of "ValidRemove r"] by (simp add: asked_def)

lemma asks_RemovedByChange: "asks ix (Ask ix (RemovedByChange a)) (\<lambda>_ b. b \<longrightarrow> removable ix a)"
  using asks_Ask [of "RemovedByChange a"] by (simp add: asked_def)

lemma asks_ValidLeave:
  "l \<in> held ix \<Longrightarrow> cc_kind l = KLeave \<Longrightarrow> asks ix (Ask ix (ValidLeave l)) (\<lambda>_ b. b \<longrightarrow> may_leave ix l)"
  using asks_Ask [of "ValidLeave l"] by (simp add: asked_def)

lemma asks_RemoveReason:
  "r \<in> held ix \<Longrightarrow> cc_kind r = KRemove \<Longrightarrow>
    asks ix (RemoveReason (Ask ix) ix r) (\<lambda>_ reason. reason = RNone \<longrightarrow> may_remove ix r)"
  unfolding asks_def by (intro allI asker.RemoveReason [OF asker_frame])

lemma asks_LeaveReason:
  "l \<in> held ix \<Longrightarrow> asks ix (LeaveReason (Ask ix) ix l) (\<lambda>_ reason. reason = RNone \<longrightarrow> may_leave ix l)"
  unfolding asks_def by (intro allI asker.LeaveReason [OF asker_frame])

lemma asks_LeftByChange:
  "asks ix (LeftByChange (Ask ix) ix account)
    (\<lambda>_ b. b \<longrightarrow> (\<exists>l \<in> held ix. cc_kind l = KLeave \<and> cc_signer l = account \<and> may_leave ix l))"
  unfolding asks_def by (intro allI asker.LeftByChange [OF asker_frame])

lemma asks_return: "(\<And>s. Q s v) \<Longrightarrow> asks ix (State_Monad.return v) Q"
  unfolding asks_def by (auto intro: holds_after_return)

lemma asks_then:
  assumes "asks ix m P" and "\<And>v. asks ix (f v) (\<lambda>s w. P s v \<longrightarrow> Q s w)"
  shows "asks ix (State_Monad.bind m f) Q"
  unfolding asks_def
proof
  fix s0
  show "holds_after (\<lambda>s. facts_ok ix {} s \<and> frame s0 s) (State_Monad.bind m f)
      (\<lambda>v s. (facts_ok ix {} s \<and> frame s0 s) \<and> Q s0 v)"
  proof (rule holds_after_bind_value [OF assms(1) [unfolded asks_def, THEN spec, of s0]])
    fix v
    assume "P s0 v"
    then show "holds_after (\<lambda>s. facts_ok ix {} s \<and> frame s0 s) (f v)
        (\<lambda>w s. (facts_ok ix {} s \<and> frame s0 s) \<and> Q s0 w)"
      using assms(2) [of v, unfolded asks_def, THEN spec, of s0] by simp
  qed
qed

lemma asks_if: "(b \<Longrightarrow> asks ix m Q) \<Longrightarrow> (\<not> b \<Longrightarrow> asks ix n Q) \<Longrightarrow> asks ix (if b then m else n) Q"
  by simp

lemma asks_any:
  assumes "\<And>x. x \<in> set xs \<Longrightarrow> asks ix (f x) (\<lambda>_ b. b \<longrightarrow> P x)"
  shows "asks ix (any_m f xs) (\<lambda>_ b. b \<longrightarrow> (\<exists>x \<in> set xs. P x))"
  unfolding asks_def
  by (intro allI holds_after_any_m) (use assms in \<open>simp add: asks_def\<close>)

lemma asks_and_then:
  "asks ix m (\<lambda>_ c. c \<longrightarrow> P) \<Longrightarrow> asks ix (and_then b m) (\<lambda>_ c. c \<longrightarrow> b \<and> P)"
  by (cases b) (auto simp: and_then_def intro: asks_return)

lemma asks_not: "asks ix m Q \<Longrightarrow> asks ix (not_m m) (\<lambda>s b. Q s (\<not> b))"
  unfolding not_m_def by (rule asks_then) (auto intro: asks_return)

text \<open>What a signer's state from the roster under way can say.\<close>

definition roster_standing :: "string \<Rightarrow> rules_state \<Rightarrow> signer_state \<Rightarrow> bool" where
  "roster_standing a s st \<longleftrightarrow> (st_in st \<longleftrightarrow> a \<in> set (rs_in s)) \<and> (st_present st \<longleftrightarrow> a \<in> set (rs_present s))
     \<and> st_role_now st \<in> {StatementRole ix a, Member}
     \<and> st_role_before_leave st \<in> {StatementRole ix a, Member}"

lemma roster_standing_facts [simp]: "roster_standing a (s\<lparr>rs_facts := f\<rparr>) = roster_standing a s"
  by (simp add: roster_standing_def fun_eq_iff)

lemma FromRoster:
  assumes "nested ix (RemovedByChange a)"
  shows "holds_after (\<lambda>s. facts_ok ix {} s \<and> frame s0 s) (FromRoster (Ask ix) ix a)
    (\<lambda>st s. (facts_ok ix {} s \<and> frame s0 s) \<and> roster_standing a s0 st)"
  unfolding FromRoster_def
proof (rule holds_after_bind_value [OF asker.FromStatement [OF asker_frame assms]])
  fix st
  assume st: "statement_standing ix a st"
  show "holds_after (\<lambda>s. facts_ok ix {} s \<and> frame s0 s)
      (do { s \<leftarrow> State_Monad.get;
            State_Monad.return (st\<lparr>st_in := a \<in> set (rs_in s), st_present := a \<in> set (rs_present s)\<rparr>) })
      (\<lambda>st s. (facts_ok ix {} s \<and> frame s0 s) \<and> roster_standing a s0 st)"
    using st by (auto simp: holds_after_def State_Monad.bind_def State_Monad.get_def
        State_Monad.return_def roster_standing_def statement_standing_def dest!: frame_same)
qed

lemma asks_Entitlement:
  assumes c: "c \<in> held ix"
  shows "asks ix (Entitlement (Ask ix) ix c action target (FromRoster (Ask ix) ix))
    (\<lambda>s (reason, role). reason = RNone \<longrightarrow>
       granted ix c action target (roster_standing (cc_signer c) s) role)"
proof -
  have nested: "nested ix (RemovedByChange (cc_signer c))" using c by auto
  show ?thesis
    unfolding asks_def
  proof
    fix s0
    show "holds_after (\<lambda>s. facts_ok ix {} s \<and> frame s0 s)
      (Entitlement (Ask ix) ix c action target (FromRoster (Ask ix) ix))
      (\<lambda>v s. (facts_ok ix {} s \<and> frame s0 s) \<and> (case v of (reason, role) \<Rightarrow>
         reason = RNone \<longrightarrow> granted ix c action target (roster_standing (cc_signer c) s0) role))"
      by (rule holds_after_weaken [OF asker.Entitlement [OF asker_frame [of s0] c,
            where S = "\<lambda>st _. roster_standing (cc_signer c) s0 st"
              and T = "roster_standing (cc_signer c) s0" and state = "FromRoster (Ask ix) ix"]])
        (use FromRoster [OF nested, of s0] in auto)
  qed
qed

lemma asks_AddEntitlement:
  "a \<in> held ix \<Longrightarrow> asks ix (AddEntitlement (Ask ix) ix a)
    (\<lambda>s reason. reason = RNone \<longrightarrow> (\<exists>role. granted ix a
       (if c_readmits (cc_change a) = [] then Invite else Readmit) Member (roster_standing (cc_signer a) s) role))"
  unfolding AddEntitlement_def
  by (rule asks_then [OF asks_Entitlement]) (auto intro!: asks_return)

end

subsection \<open>Adds that may count\<close>

text \<open>
  R2: an add of an account on the statement's removed list names that removal; one that names a
  removal otherwise names a removal of its member that may count.
\<close>

definition readmit_ok :: "rule_index \<Rightarrow> checked_change \<Rightarrow> bool" where
  "readmit_ok ix a \<longleftrightarrow>
     (case map_of (ix_s_removed ix) (cc_member a) of
        Some row \<Rightarrow> c_readmits (cc_change a) \<noteq> [] \<and> c_readmits (cc_change a) = rv_removal row
      | None \<Rightarrow> c_readmits (cc_change a) \<noteq> [] \<longrightarrow>
          (\<exists>r. may_remove ix r \<and> cc_member r = cc_member a \<and> cc_id r = c_readmits (cc_change a)))"

text \<open>
  An add may count: a removal of its signer keeps it; or its signer may bring people in under the
  statement (or re-admit, when it names a removal), its device is current or a leave keeps it, and
  the signer is listed in the statement or came in by an add that may count.
\<close>

inductive may_add :: "rule_index \<Rightarrow> checked_change \<Rightarrow> bool" for ix :: rule_index where
  kept: "a \<in> held ix \<Longrightarrow> cc_kind a = KAdd \<Longrightarrow> readmit_ok ix a \<Longrightarrow> remove_keeps ix a \<Longrightarrow> may_add ix a"
| listed: "a \<in> held ix \<Longrightarrow> cc_kind a = KAdd \<Longrightarrow> readmit_ok ix a \<Longrightarrow>
    GroupAllows (if c_readmits (cc_change a) = [] then Invite else Readmit)
      (StatementRole ix (cc_signer a)) (s_preset (ix_statement ix)) Member \<Longrightarrow>
    cc_device_current a \<or> leave_keeps ix a \<Longrightarrow> InStatement ix (cc_signer a) \<Longrightarrow> may_add ix a"
| brought: "a \<in> held ix \<Longrightarrow> cc_kind a = KAdd \<Longrightarrow> readmit_ok ix a \<Longrightarrow>
    GroupAllows (if c_readmits (cc_change a) = [] then Invite else Readmit)
      (StatementRole ix (cc_signer a)) (s_preset (ix_statement ix)) Member \<Longrightarrow>
    cc_device_current a \<or> leave_keeps ix a \<Longrightarrow> may_add ix b \<Longrightarrow> cc_member b = cc_signer a \<Longrightarrow>
    may_add ix a"

lemma may_add_held: "may_add ix a \<Longrightarrow> a \<in> held ix \<and> cc_kind a = KAdd \<and> readmit_ok ix a"
  by (erule may_add.cases) auto

text \<open>A statement member that no removal and no leave that may count touches.\<close>

definition undisturbed :: "rule_index \<Rightarrow> string \<Rightarrow> bool" where
  "undisturbed ix account \<longleftrightarrow> InStatement ix account \<and> \<not> removable ix account
     \<and> \<not> (\<exists>l \<in> held ix. cc_kind l = KLeave \<and> cc_signer l = account \<and> may_leave ix l)"

text \<open>The sets of accounts while adds are taken in.\<close>

definition known_account :: "rule_index \<Rightarrow> string \<Rightarrow> bool" where
  "known_account ix m \<longleftrightarrow> InStatement ix m \<or> (\<exists>a. may_add ix a \<and> cc_member a = m)"

definition members_inv :: "rule_index \<Rightarrow> rules_state \<Rightarrow> bool" where
  "members_inv ix s \<longleftrightarrow> os_ok (rs_in s)
     \<and> (\<forall>m \<in> set (rs_in s) \<union> set (rs_present s). known_account ix m)
     \<and> (\<forall>i \<in> set (rs_accepted s). \<exists>a. may_add ix a \<and> cc_id a = i)
     \<and> (\<forall>m \<in> set (rs_in s). map_of (rs_joined_by s) m = None \<longrightarrow> InStatement ix m)
     \<and> (\<forall>m a. map_of (rs_joined_by s) m = Some a \<longrightarrow>
          m \<in> set (rs_in s) \<and> may_add ix a \<and> cc_member a = m \<and> cc_id a \<in> set (rs_accepted s)
          \<and> static_reason s a \<noteq> NamedByLeave)
     \<and> length (rs_in s) \<le> max kMaxGroupMembers (length (ix_s_members ix))
     \<and> (\<forall>m. undisturbed ix m \<longrightarrow> m \<in> set (rs_in s) \<and> map_of (rs_joined_by s) m = None)"

text \<open>While the statement's members are put in.\<close>

definition standing_inv :: "rule_index \<Rightarrow> rules_state \<Rightarrow> bool" where
  "standing_inv ix s \<longleftrightarrow> os_ok (rs_in s) \<and> (\<forall>m \<in> set (rs_in s) \<union> set (rs_present s). InStatement ix m)
     \<and> rs_accepted s = [] \<and> rs_joined_by s = []"

lemma static_reason_facts [simp]: "static_reason (s\<lparr>rs_facts := f\<rparr>) a = static_reason s a"
  by (simp add: static_reason_def)

lemma stable_members_inv [simp]: "stable (members_inv ix)"
  by (simp add: stable_def members_inv_def)

lemma stable_standing_inv [simp]: "stable (standing_inv ix)"
  by (simp add: stable_def standing_inv_def)

context rules_run begin

lemma asks_StatementStands:
  "asks ix (StatementStands (Ask ix) ix a)
    (\<lambda>_ b. (b \<longrightarrow> InStatement ix a) \<and> (undisturbed ix a \<longrightarrow> b))"
proof (cases "InStatement ix a")
  case False
  then show ?thesis by (auto simp: StatementStands_def and_then_def undisturbed_def intro: asks_return)
next
  case True
  have stay: "asks ix (and_then there (not_m (LeftByChange (Ask ix) ix a)))
      (\<lambda>_ b. undisturbed ix a \<and> there \<longrightarrow> b)" for there
    by (cases there) (auto simp: and_then_def undisturbed_def
        intro!: asks_return asks_weaken [OF asks_not [OF asks_LeftByChange]])
  show ?thesis
    unfolding StatementStands_def using True
    by (simp add: and_then_def [of True])
      (rule asks_then [OF asks_not [OF asks_RemovedByChange]], rule asks_weaken [OF stay],
        auto simp: undisturbed_def)
qed

lemma stand_member:
  assumes "InStatement ix m"
  shows "holds_after (keeping ix (\<lambda>s. standing_inv ix s \<and> (undisturbed ix y \<and> y \<in> D \<longrightarrow> y \<in> set (rs_in s))))
    (stand_member (Ask ix) ix m)
    (\<lambda>_ s. facts_ok ix {} s \<and> standing_inv ix s \<and> (undisturbed ix y \<and> y \<in> insert m D \<longrightarrow> y \<in> set (rs_in s)))"
proof -
  let ?R = "\<lambda>s. standing_inv ix s \<and> (undisturbed ix y \<and> y \<in> D \<longrightarrow> y \<in> set (rs_in s))"
  have R: "stable ?R" using stable_standing_inv [of ix] by (simp add: stable_def)
  have mark: "holds_after (keeping ix ?R) (if removed then State_Monad.return ()
      else State_Monad.update (\<lambda>s. s\<lparr>rs_present := os_insert m (rs_present s)\<rparr>)) (\<lambda>_. keeping ix ?R)" for removed
    using assms by (auto intro!: holds_after_return holds_after_update simp: standing_inv_def facts_ok_def)
  show ?thesis
    unfolding stand_member_def
  proof (rule asks_bind_inv [OF asks_RemovedByChange R], rule holds_after_bind_inv [OF mark],
      rule asks_bind [OF asks_StatementStands R])
    fix stands
    show "holds_after (\<lambda>s. facts_ok ix {} s \<and> ?R s
          \<and> (stands \<longrightarrow> InStatement ix m) \<and> (undisturbed ix m \<longrightarrow> stands))
        (if stands then State_Monad.update (\<lambda>s. s\<lparr>rs_in := os_insert m (rs_in s)\<rparr>) else State_Monad.return ())
        (\<lambda>_ s. facts_ok ix {} s \<and> standing_inv ix s
           \<and> (undisturbed ix y \<and> y \<in> insert m D \<longrightarrow> y \<in> set (rs_in s)))"
      using assms by (auto intro!: holds_after_return holds_after_update simp: standing_inv_def facts_ok_def)
  qed simp_all
qed

lemma stand_members:
  "\<forall>m \<in> set ms. InStatement ix m \<Longrightarrow>
    holds_after (keeping ix (\<lambda>s. standing_inv ix s \<and> (undisturbed ix y \<and> y \<in> D \<longrightarrow> y \<in> set (rs_in s))))
      (for_m (stand_member (Ask ix) ix) ms)
      (\<lambda>_. keeping ix (\<lambda>s. standing_inv ix s \<and> (undisturbed ix y \<and> y \<in> set ms \<union> D \<longrightarrow> y \<in> set (rs_in s))))"
proof (induction ms arbitrary: D)
  case (Cons m ms)
  have "holds_after (keeping ix (\<lambda>s. standing_inv ix s \<and> (undisturbed ix y \<and> y \<in> D \<longrightarrow> y \<in> set (rs_in s))))
      (do { stand_member (Ask ix) ix m; for_m (stand_member (Ask ix) ix) ms })
      (\<lambda>_. keeping ix (\<lambda>s. standing_inv ix s \<and> (undisturbed ix y \<and> y \<in> set ms \<union> insert m D \<longrightarrow> y \<in> set (rs_in s))))"
    by (rule holds_after_bind [OF stand_member Cons.IH]) (use Cons.prems in auto)
  then show ?case by simp
qed (auto intro: holds_after_return)

lemma standing_members:
  assumes "standing_inv ix s" and "\<And>y. undisturbed ix y \<Longrightarrow> y \<in> set (rs_in s)"
  shows "members_inv ix s"
proof -
  have "set (rs_in s) \<subseteq> fst ` set (ix_s_members ix)"
    using assms(1) by (force simp: standing_inv_def InStatement_def dest: map_of_SomeD)
  moreover have "distinct (rs_in s)" using assms(1) by (simp add: standing_inv_def os_ok_distinct)
  ultimately have "length (rs_in s) \<le> length (ix_s_members ix)"
    by (metis distinct_card card_mono finite_imageI List.finite_set order.trans card_image_le card_length)
  then show ?thesis
    using assms by (auto simp: standing_inv_def members_inv_def known_account_def)
qed

lemma RunAdds_standing:
  "holds_after (keeping ix (standing_inv ix)) (for_m (stand_member (Ask ix) ix) (map fst (ix_s_members ix)))
    (\<lambda>_. keeping ix (\<lambda>s. members_inv ix s \<and> rs_joined_by s = []))"
proof -
  have listed: "\<forall>m \<in> set (map fst (ix_s_members ix)). InStatement ix m"
    by (auto simp: InStatement_def map_of_eq_None_iff)
  have "holds_after (keeping ix (standing_inv ix)) (for_m (stand_member (Ask ix) ix) (map fst (ix_s_members ix)))
    (\<lambda>_ s. facts_ok ix {} s \<and> standing_inv ix s \<and> (undisturbed ix y \<longrightarrow> y \<in> set (rs_in s)))" for y
    by (rule holds_after_weaken [OF stand_members [OF listed, of y "{}"]])
      (auto simp: undisturbed_def InStatement_def map_of_eq_None_iff)
  from holds_after_all [OF this] show ?thesis
    by (rule holds_after_weaken) (auto intro: standing_members simp: standing_inv_def)
qed

lemma asks_StaticAddReason:
  assumes "a \<in> held ix"
  shows "asks ix (StaticAddReason (Ask ix) ix a)
    (\<lambda>_ reason. reason \<in> {RNone, NamedByLeave} \<longrightarrow> readmit_ok ix a)"
proof -
  let ?member = "cc_member a"
  let ?removes = "Of (ix_removes_of ix) ?member"
  have removes: "r \<in> held ix" "cc_kind r = KRemove" "cc_member r = ?member" if "r \<in> set ?removes" for r
    using that index_ok by (auto simp: index_ok_def)
  have leaves: "l \<in> held ix" "cc_kind l = KLeave" if "l \<in> set (Of (ix_leaves_by ix) ?member)" for l
    using that index_ok by (auto simp: index_ok_def)
  have named: "asks ix (any_m (\<lambda>r. do { valid \<leftarrow> Ask ix (ValidRemove r);
      State_Monad.return (valid \<and> Names (c_adds (cc_change r)) (cc_id a)) }) ?removes) (\<lambda>_ b. b \<longrightarrow> (\<exists>r \<in> set ?removes. True))"
    by (intro asks_any asks_then [OF asks_ValidRemove]) (auto dest: removes intro: asks_return)
  have left: "asks ix (any_m (\<lambda>l. do { valid \<leftarrow> Ask ix (ValidLeave l);
      State_Monad.return (valid \<and> Names (c_adds (cc_change l)) (cc_id a)) }) (Of (ix_leaves_by ix) ?member))
      (\<lambda>_ b. b \<longrightarrow> (\<exists>l \<in> set (Of (ix_leaves_by ix) ?member). True))"
    by (intro asks_any asks_then [OF asks_ValidLeave]) (auto dest: leaves intro: asks_return)
  have "asks ix (and_then (cc_id r = c_readmits (cc_change a)) (Ask ix (ValidRemove r)))
      (\<lambda>_ b. b \<longrightarrow> cc_id r = c_readmits (cc_change a) \<and> may_remove ix r)" if "r \<in> set ?removes" for r
    using that by (intro asks_and_then asks_ValidRemove) (auto dest: removes)
  then have names: "asks ix (any_m (\<lambda>r. and_then (cc_id r = c_readmits (cc_change a)) (Ask ix (ValidRemove r))) ?removes)
      (\<lambda>_ b. b \<longrightarrow> (\<exists>r \<in> set ?removes. cc_id r = c_readmits (cc_change a) \<and> may_remove ix r))"
    by (rule asks_any)
  have refused: "asks ix (case map_of (ix_s_removed ix) ?member of
        Some row \<Rightarrow> State_Monad.return (c_readmits (cc_change a) = [] \<or> c_readmits (cc_change a) \<noteq> rv_removal row)
      | None \<Rightarrow> and_then (c_readmits (cc_change a) \<noteq> []) (not_m (any_m
          (\<lambda>r. and_then (cc_id r = c_readmits (cc_change a)) (Ask ix (ValidRemove r))) ?removes)))
      (\<lambda>_ b. \<not> b \<longrightarrow> readmit_ok ix a)"
  proof (cases "map_of (ix_s_removed ix) ?member")
    case (Some row)
    then show ?thesis by (auto simp: readmit_ok_def intro!: asks_return)
  next
    case None
    show ?thesis
    proof (cases "c_readmits (cc_change a) = []")
      case True
      with None show ?thesis by (auto simp: readmit_ok_def intro!: asks_return)
    next
      case False
      with None show ?thesis
        by (simp add: readmit_ok_def)
          (rule asks_weaken [OF asks_not [OF names]], auto dest: removes)
    qed
  qed
  show ?thesis
    unfolding StaticAddReason_def Let_def
  proof (intro asks_then [OF named] asks_if)
    show "asks ix (State_Monad.return NamedByRemove)
        (\<lambda>s w. (v \<longrightarrow> (\<exists>r \<in> set ?removes. True)) \<longrightarrow> w \<in> {RNone, NamedByLeave} \<longrightarrow> readmit_ok ix a)" for v
      by (rule asks_return) simp
  qed (rule asks_then [OF asks_RemovedByChange], rule asks_if, simp_all add: asks_return,
      rule asks_then [OF refused], rule asks_if, simp_all add: asks_return,
      rule asks_then [OF left], simp_all add: asks_return)
qed

lemma open_adds:
  assumes R: "stable R" and upd: "\<And>(a :: checked_change) reason s. R s \<Longrightarrow>
      R (s\<lparr>rs_static_reasons := om_put (cc_id a) reason (rs_static_reasons s)\<rparr>)"
  shows "set as \<subseteq> held ix \<Longrightarrow> holds_after (keeping ix R) (open_adds (Ask ix) ix as)
    (\<lambda>open s. (facts_ok ix {} s \<and> R s) \<and> set open \<subseteq> {a \<in> set as. readmit_ok ix a})"
proof (induction as)
  case (Cons a as)
  have "holds_after (\<lambda>s. facts_ok ix {} s \<and> R s) (State_Monad.update
      (\<lambda>s. s\<lparr>rs_static_reasons := om_put (cc_id a) reason (rs_static_reasons s)\<rparr>)) (\<lambda>_ s. facts_ok ix {} s \<and> R s)" for reason
    by (auto intro!: holds_after_update upd simp: facts_ok_def)
  note put = this
  show ?case
    unfolding open_adds.simps
  proof (rule asks_bind [OF asks_StaticAddReason R])
    fix reason
    show "holds_after (\<lambda>s. facts_ok ix {} s \<and> R s \<and> (reason \<in> {RNone, NamedByLeave} \<longrightarrow> readmit_ok ix a))
        (do { State_Monad.update (\<lambda>s. s\<lparr>rs_static_reasons := om_put (cc_id a) reason (rs_static_reasons s)\<rparr>);
              rest \<leftarrow> open_adds (Ask ix) ix as;
              State_Monad.return (if reason = RNone \<or> reason = NamedByLeave then a # rest else rest) })
        (\<lambda>open s. (facts_ok ix {} s \<and> R s) \<and> set open \<subseteq> {b \<in> set (a # as). readmit_ok ix b})"
    proof (cases "reason \<in> {RNone, NamedByLeave} \<longrightarrow> readmit_ok ix a")
      case True
      then show ?thesis
        using Cons
        by (auto intro!: holds_after_bind_inv [OF put] holds_after_bind_value [OF Cons.IH] holds_after_return
            split: if_splits)
    next
      case False
      then show ?thesis by (intro holds_after_vacuous) auto
    qed
  qed (use Cons.prems in simp_all)
qed (auto intro: holds_after_return)

lemma granted_may_add:
  assumes "a \<in> held ix" "cc_kind a = KAdd" "readmit_ok ix a" "members_inv ix s"
    and "granted ix a (if c_readmits (cc_change a) = [] then Invite else Readmit) Member
      (roster_standing (cc_signer a) s) role"
  shows "may_add ix a"
proof (cases "remove_keeps ix a")
  case True
  with assms(1-3) show ?thesis by (rule may_add.kept)
next
  case False
  with assms(5) obtain st where table: "GroupAllows (if c_readmits (cc_change a) = [] then Invite else Readmit)
        (StatementRole ix (cc_signer a)) (s_preset (ix_statement ix)) Member"
    and device: "cc_device_current a \<or> leave_keeps ix a"
    and st: "roster_standing (cc_signer a) s st" "st_in st \<or> leave_keeps ix a \<and> st_present st"
    unfolding granted_def by blast
  then have "known_account ix (cc_signer a)"
    using assms(4) by (auto simp: roster_standing_def members_inv_def)
  then show ?thesis
    unfolding known_account_def
    using may_add.listed [OF assms(1-3) table device] may_add.brought [OF assms(1-3) table device] by blast
qed

lemma accept_inv:
  "members_inv ix s \<Longrightarrow> may_add ix a \<Longrightarrow> members_inv ix (s\<lparr>rs_accepted := os_insert (cc_id a) (rs_accepted s)\<rparr>)"
  unfolding members_inv_def by (auto simp: static_reason_def)

lemma present_inv:
  "members_inv ix s \<Longrightarrow> known_account ix m \<Longrightarrow> members_inv ix (s\<lparr>rs_present := os_insert m (rs_present s)\<rparr>)"
  unfolding members_inv_def by (auto simp: static_reason_def)

lemma place_inv:
  assumes inv: "members_inv ix s" and a: "may_add ix a" "cc_member a = m" "cc_id a \<in> set (rs_accepted s)"
    and "static_reason s a \<noteq> NamedByLeave" and "m \<notin> set (rs_in s)" and "length (rs_in s) < kMaxGroupMembers"
  shows "members_inv ix (s\<lparr>rs_in := os_insert m (rs_in s), rs_joined_by := om_put m a (rs_joined_by s)\<rparr>)"
proof -
  note inv' = inv [unfolded members_inv_def]
  have known: "known_account ix m" using a(1,2) by (auto simp: known_account_def)
  have ord: "os_ok (rs_in s)" using inv' by blast
  have "length (os_insert m (rs_in s)) \<le> kMaxGroupMembers"
    using assms(6,7) ord by (simp add: length_os_insert)
  moreover have "\<forall>x \<in> set (rs_in s). map_of (rs_joined_by s) x = None \<longrightarrow> InStatement ix x"
    "\<forall>x b. map_of (rs_joined_by s) x = Some b \<longrightarrow> x \<in> set (rs_in s) \<and> may_add ix b \<and> cc_member b = x
      \<and> cc_id b \<in> set (rs_accepted s) \<and> static_reason s b \<noteq> NamedByLeave"
    using inv' by blast+
  moreover have "\<forall>x. undisturbed ix x \<longrightarrow> x \<noteq> m \<and> x \<in> set (rs_in s) \<and> map_of (rs_joined_by s) x = None"
    using inv' assms(6) by blast
  ultimately show ?thesis
    unfolding members_inv_def using inv' known a assms(5) by (simp add: static_reason_def)
qed

lemma take_in_inv:
  assumes inv: "members_inv ix s" and a: "may_add ix a" and take: "take_in a s = (taken, s')"
  shows "members_inv ix s'"
proof -
  let ?m = "cc_member a"
  let ?accepted = "s\<lparr>rs_accepted := os_insert (cc_id a) (rs_accepted s)\<rparr>"
  have known: "known_account ix ?m" using a by (auto simp: known_account_def)
  have acc: "members_inv ix ?accepted" by (rule accept_inv [OF inv a])
  have left: "members_inv ix (s\<lparr>rs_present := os_insert ?m (rs_present s),
      rs_accepted := os_insert (cc_id a) (rs_accepted s)\<rparr>)"
    using accept_inv [OF present_inv [OF inv known] a] by simp
  have placed: "members_inv ix (s\<lparr>rs_in := os_insert ?m (rs_in s), rs_present := os_insert ?m (rs_present s),
      rs_joined_by := om_put ?m a (rs_joined_by s), rs_accepted := os_insert (cc_id a) (rs_accepted s)\<rparr>)"
    if "static_reason s a \<noteq> NamedByLeave" "?m \<notin> set (rs_in s)" "length (rs_in s) < kMaxGroupMembers"
  proof -
    have "members_inv ix (?accepted\<lparr>rs_present := os_insert ?m (rs_present s), rs_in := os_insert ?m (rs_in s),
        rs_joined_by := om_put ?m a (rs_joined_by s)\<rparr>)"
      using place_inv [OF present_inv [OF acc known] a refl] that by (simp add: static_reason_def)
    then show ?thesis by (cases s) simp
  qed
  show ?thesis
    using take acc left placed inv unfolding take_in_def Let_def
    by (simp only: split: if_split_asm) (simp_all add: not_le)
qed

lemma TryAccept:
  assumes "a \<in> held ix" "cc_kind a = KAdd" "readmit_ok ix a"
  shows "holds_after (keeping ix (members_inv ix)) (TryAccept (Ask ix) ix a) (\<lambda>_. keeping ix (members_inv ix))"
  unfolding TryAccept_def
proof (rule asks_bind [OF asks_AddEntitlement [OF assms(1)]])
  fix reason
  show "holds_after (\<lambda>s. facts_ok ix {} s \<and> members_inv ix s \<and> (reason = RNone \<longrightarrow> (\<exists>role. granted ix a
          (if c_readmits (cc_change a) = [] then Invite else Readmit) Member (roster_standing (cc_signer a) s) role)))
      (if reason \<noteq> RNone then State_Monad.return False else State (take_in a)) (\<lambda>_. keeping ix (members_inv ix))"
  proof (cases "reason = RNone")
    case True
    show ?thesis
      unfolding True
    proof (simp only: not_True_eq_False if_False simp_thms, rule holds_afterI)
      fix s taken s'
      assume s: "facts_ok ix {} s \<and> members_inv ix s \<and> (\<exists>role. granted ix a
          (if c_readmits (cc_change a) = [] then Invite else Readmit) Member (roster_standing (cc_signer a) s) role)"
        and "run_state (State (take_in a)) s = (taken, s')"
      then have take: "take_in a s = (taken, s')" by simp
      then have "facts_ok ix {} s'"
        using s by (auto simp: take_in_def Let_def facts_ok_def split: if_splits)
      with take_in_inv [OF _ _ take] s granted_may_add [OF assms]
      show "facts_ok ix {} s' \<and> members_inv ix s'" by blast
    qed
  qed (auto intro: holds_after_return)
qed (simp, simp add: stable_def)

lemma adds_round:
  "set as \<subseteq> {a \<in> held ix. cc_kind a = KAdd \<and> readmit_ok ix a} \<Longrightarrow>
    holds_after (keeping ix (members_inv ix)) (adds_round (Ask ix) ix as) (\<lambda>_. keeping ix (members_inv ix))"
proof (induction as)
  case (Cons a as)
  have "holds_after (keeping ix (members_inv ix)) (and_then b (TryAccept (Ask ix) ix a))
      (\<lambda>_. keeping ix (members_inv ix))" for b
    using Cons.prems by (cases b) (auto intro: holds_after_return TryAccept)
  with Cons show ?case
    by (auto intro!: holds_after_bind_get holds_after_bind_inv [where I = "keeping ix (members_inv ix)"]
        holds_after_return)
qed (auto intro: holds_after_return)

lemma adds_rounds:
  "set as \<subseteq> {a \<in> held ix. cc_kind a = KAdd \<and> readmit_ok ix a} \<Longrightarrow>
    holds_after (keeping ix (members_inv ix)) (adds_rounds n (Ask ix) ix as) (\<lambda>_. keeping ix (members_inv ix))"
  by (induction n) (auto intro!: holds_after_return holds_after_bind_inv [OF adds_round])

lemma RunAdds:
  "holds_after (keeping ix (standing_inv ix)) (RunAdds (Ask ix) ix) (\<lambda>_. keeping ix (members_inv ix))"
proof -
  have adds: "set (ix_adds ix) = {a \<in> held ix. cc_kind a = KAdd}"
    using index_ok by (simp add: index_ok_def)
  let ?R = "\<lambda>s. members_inv ix s \<and> rs_joined_by s = []"
  have "holds_after (keeping ix ?R) (open_adds (Ask ix) ix (ix_adds ix))
      (\<lambda>open s. (facts_ok ix {} s \<and> ?R s) \<and> set open \<subseteq> {a \<in> set (ix_adds ix). readmit_ok ix a})"
  proof (rule open_adds)
    show "stable ?R" using stable_members_inv [of ix] by (simp add: stable_def)
    show "?R (s\<lparr>rs_static_reasons := om_put (cc_id a) reason (rs_static_reasons s)\<rparr>)"
      if "?R s" for a :: checked_change and reason s
      using that by (simp add: members_inv_def)
  qed (use adds in auto)
  then have still_open: "holds_after (keeping ix ?R) (open_adds (Ask ix) ix (ix_adds ix))
      (\<lambda>open s. (facts_ok ix {} s \<and> members_inv ix s) \<and> set open \<subseteq> {a \<in> set (ix_adds ix). readmit_ok ix a})"
    by (rule holds_after_weaken) auto
  show ?thesis
    unfolding RunAdds_def
    by (rule holds_after_bind [OF RunAdds_standing], rule holds_after_bind_value [OF still_open],
        rule adds_rounds) (use adds in auto)
qed

end

interpretation run: rules_run "run_index s now cs" for s now cs
  by unfold_locales (rule run_index_ok)

end
