(* ===== verification/RosterJudge.thy ===== *)
theory RosterJudge
  imports RosterProps
begin

section \<open>The judging stages\<close>

text \<open>
  After the adds, the rules mark every held change. \<open>judges ix cs m K\<close> says that the stage \<open>m\<close>
  keeps the invariants of the members and of the verdicts and marks (at least) the ids \<open>K\<close>; the
  stages of \<open>RosterRules::Run\<close> are put together from its rules.
\<close>

subsection \<open>Sorting the changes in\<close>

text \<open>What becomes of a change before any rule runs: a verdict, or it is held.\<close>

definition fate :: "statement \<Rightarrow> checked_change \<Rightarrow> (change_status \<times> change_reason) option" where
  "fate s c =
     (if c_group_id (cc_change c) \<noteq> s_group_id s then Some (Dropped, OtherGroup)
      else if StatementFolded s (cc_id c) then Some (Dropped, Folded)
      else if c_base_epoch (cc_change c) < s_change_floor s then Some (Dropped, TooOld)
      else if s_dissolved s then Some (Dropped, RDissolved)
      else if cc_proof c = Malformed then Some (Dropped, RMalformed)
      else if cc_proof c = BadSignature then Some (Dropped, RBadSignature)
      else if cc_proof c = NoCard then Some (Void, RNoCard)
      else None)"

definition verdict_on :: "checked_change \<Rightarrow> change_status \<Rightarrow> change_reason \<Rightarrow> change_verdict" where
  "verdict_on c status reason = \<lparr>v_id = cc_id c, v_kind = cc_kind c, v_signer = cc_signer c,
     v_base_epoch = c_base_epoch (cc_change c), v_status = status, v_reason = reason\<rparr>"

lemma Mark_eq: "Mark c status reason vs = om_put (cc_id c) (verdict_on c status reason) vs"
  by (simp add: Mark_def verdict_on_def)

lemma StatementFolded_set: "StatementFolded s i \<longleftrightarrow> i \<in> set (os_of (map fc_id (s_folded s)))"
  by (auto simp: StatementFolded_def)

lemma classify_one_fate:
  "k_verdicts (classify_one s (os_of (map fc_id (s_folded s))) c k) =
     (case fate s c of None \<Rightarrow> k_verdicts k | Some (status, reason) \<Rightarrow> Mark c status reason (k_verdicts k))"
  "k_held (classify_one s (os_of (map fc_id (s_folded s))) c k) =
     (case fate s c of None \<Rightarrow> om_put (cc_id c) c (k_held k) | Some _ \<Rightarrow> k_held k)"
  by (simp_all add: classify_one_def fate_def StatementFolded_set)

text \<open>Of a list of changes with distinct ids.\<close>

definition verdicts_ok :: "statement \<Rightarrow> checked_change list \<Rightarrow> verdicts \<Rightarrow> bool" where
  "verdicts_ok s cs vs \<longleftrightarrow> om_ok vs \<and> (\<forall>i v. map_of vs i = Some v \<longrightarrow>
     (\<exists>c \<in> set cs. cc_id c = i \<and> v = verdict_on c (v_status v) (v_reason v)
        \<and> (case fate s c of Some p \<Rightarrow> p = (v_status v, v_reason v) | None \<Rightarrow> v_status v \<noteq> Dropped)))"

lemma verdicts_ok_Nil [simp]: "verdicts_ok s cs []"
  by (simp add: verdicts_ok_def)

lemma verdicts_ok_Mark [simp]:
  "verdicts_ok s cs vs \<Longrightarrow> c \<in> set cs \<Longrightarrow> fate s c = None \<Longrightarrow> status \<noteq> Dropped \<Longrightarrow>
    verdicts_ok s cs (Mark c status reason vs)"
  by (auto simp: verdicts_ok_def Mark_eq verdict_on_def intro!: bexI [of _ c])

lemma dom_Mark [simp]: "dom (map_of (Mark c status reason vs)) = insert (cc_id c) (dom (map_of vs))"
  by (auto simp: Mark_def)

lemma map_of_Mark [simp]:
  "map_of (Mark c status reason vs) = (map_of vs)(cc_id c \<mapsto> verdict_on c status reason)"
  by (simp add: Mark_eq)

lemma find_append:
  "List.find P (xs @ ys) = (case List.find P xs of None \<Rightarrow> List.find P ys | Some x \<Rightarrow> Some x)"
  by (induction xs) auto

lemma Classify_fold:
  assumes "distinct (map cc_id (done @ cs))"
    and "om_ok (k_verdicts k)" "om_ok (k_held k)"
    and "\<And>i. map_of (k_verdicts k) i =
      (case List.find (\<lambda>c. cc_id c = i) done of None \<Rightarrow> None
       | Some c \<Rightarrow> map_option (\<lambda>(status, reason). verdict_on c status reason) (fate s c))"
    and "\<And>i. map_of (k_held k) i =
      (case List.find (\<lambda>c. cc_id c = i) done of None \<Rightarrow> None
       | Some c \<Rightarrow> if fate s c = None then Some c else None)"
  shows "let k' = fold (classify_one s (os_of (map fc_id (s_folded s)))) cs k in
    om_ok (k_verdicts k') \<and> om_ok (k_held k')
    \<and> map_of (k_verdicts k') i =
      (case List.find (\<lambda>c. cc_id c = i) (done @ cs) of None \<Rightarrow> None
       | Some c \<Rightarrow> map_option (\<lambda>(status, reason). verdict_on c status reason) (fate s c))
    \<and> map_of (k_held k') i =
      (case List.find (\<lambda>c. cc_id c = i) (done @ cs) of None \<Rightarrow> None
       | Some c \<Rightarrow> if fate s c = None then Some c else None)"
  using assms
proof (induction cs arbitrary: "done" k)
  case Nil
  then show ?case by (simp add: Let_def)
next
  case (Cons c cs)
  let ?k = "classify_one s (os_of (map fc_id (s_folded s))) c k"
  have new: "List.find (\<lambda>d. cc_id d = cc_id c) done = None"
    using Cons.prems(1) by (simp add: find_None_iff) (metis image_eqI)
  have find: "List.find (\<lambda>d. cc_id d = j) (done @ [c]) =
      (if cc_id c = j then Some c else List.find (\<lambda>d. cc_id d = j) done)" for j
    using new by (cases "List.find (\<lambda>d. cc_id d = j) done") (auto simp: find_append)
  have "let k' = fold (classify_one s (os_of (map fc_id (s_folded s)))) cs ?k in
    om_ok (k_verdicts k') \<and> om_ok (k_held k')
    \<and> map_of (k_verdicts k') i =
      (case List.find (\<lambda>c. cc_id c = i) ((done @ [c]) @ cs) of None \<Rightarrow> None
       | Some c \<Rightarrow> map_option (\<lambda>(status, reason). verdict_on c status reason) (fate s c))
    \<and> map_of (k_held k') i =
      (case List.find (\<lambda>c. cc_id c = i) ((done @ [c]) @ cs) of None \<Rightarrow> None
       | Some c \<Rightarrow> if fate s c = None then Some c else None)"
  proof (rule Cons.IH)
    show "distinct (map cc_id ((done @ [c]) @ cs))" using Cons.prems(1) by simp
    show "om_ok (k_verdicts ?k)" "om_ok (k_held ?k)"
      using Cons.prems(2,3) by (auto simp: classify_one_fate Mark_eq split: option.splits)
    show "map_of (k_verdicts ?k) j = (case List.find (\<lambda>c. cc_id c = j) (done @ [c]) of None \<Rightarrow> None
       | Some c \<Rightarrow> map_option (\<lambda>(status, reason). verdict_on c status reason) (fate s c))" for j
      using Cons.prems(4) [of j] new unfolding find by (auto simp: classify_one_fate split: option.splits)
    show "map_of (k_held ?k) j = (case List.find (\<lambda>c. cc_id c = j) (done @ [c]) of None \<Rightarrow> None
       | Some c \<Rightarrow> if fate s c = None then Some c else None)" for j
      using Cons.prems(5) [of j] new unfolding find by (auto simp: classify_one_fate split: option.splits)
  qed
  then show ?case by simp
qed

text \<open>The change with an id, in a list with distinct ids.\<close>

lemma find_id: "distinct (map cc_id cs) \<Longrightarrow> List.find (\<lambda>c. cc_id c = i) cs = Some c \<longleftrightarrow> c \<in> set cs \<and> cc_id c = i"
  by (induction cs) auto

lemma Classify_spec:
  assumes "distinct (map cc_id cs)"
  shows "om_ok (k_verdicts (Classify s cs))" "om_ok (k_held (Classify s cs))"
    and "map_of (k_verdicts (Classify s cs)) i = Some v \<longleftrightarrow>
      (\<exists>c \<in> set cs. cc_id c = i \<and> (\<exists>status reason. fate s c = Some (status, reason) \<and> v = verdict_on c status reason))"
    and "map_of (k_held (Classify s cs)) i = Some c \<longleftrightarrow> c \<in> set cs \<and> cc_id c = i \<and> fate s c = None"
proof -
  have all: "let k' = fold (classify_one s (os_of (map fc_id (s_folded s)))) cs
      \<lparr>k_held = [], k_verdicts = [], k_joining = []\<rparr> in
    om_ok (k_verdicts k') \<and> om_ok (k_held k')
    \<and> map_of (k_verdicts k') i =
      (case List.find (\<lambda>c. cc_id c = i) ([] @ cs) of None \<Rightarrow> None
       | Some c \<Rightarrow> map_option (\<lambda>(status, reason). verdict_on c status reason) (fate s c))
    \<and> map_of (k_held k') i =
      (case List.find (\<lambda>c. cc_id c = i) ([] @ cs) of None \<Rightarrow> None
       | Some c \<Rightarrow> if fate s c = None then Some c else None)"
    by (rule Classify_fold) (use assms in simp_all)
  then show "om_ok (k_verdicts (Classify s cs))" "om_ok (k_held (Classify s cs))"
    by (simp_all add: Classify_def Let_def)
  have "map_of (k_verdicts (Classify s cs)) i =
      (case List.find (\<lambda>c. cc_id c = i) cs of None \<Rightarrow> None
       | Some c \<Rightarrow> map_option (\<lambda>(status, reason). verdict_on c status reason) (fate s c))"
    and "map_of (k_held (Classify s cs)) i =
      (case List.find (\<lambda>c. cc_id c = i) cs of None \<Rightarrow> None
       | Some c \<Rightarrow> if fate s c = None then Some c else None)"
    using all by (simp_all add: Classify_def Let_def)
  note found = this
  have unique: "List.find (\<lambda>c. cc_id c = i) cs = Some c" if "c \<in> set cs" "cc_id c = i" for c
    using find_id [OF assms, of i c] that by simp
  have member: "c \<in> set cs \<and> cc_id c = i" if "List.find (\<lambda>c. cc_id c = i) cs = Some c" for c
    using find_id [OF assms, of i c] that by simp
  show "map_of (k_verdicts (Classify s cs)) i = Some v \<longleftrightarrow>
      (\<exists>c \<in> set cs. cc_id c = i \<and> (\<exists>status reason. fate s c = Some (status, reason) \<and> v = verdict_on c status reason))"
    unfolding found by (fastforce dest: member unique split: option.splits)
  show "map_of (k_held (Classify s cs)) i = Some c \<longleftrightarrow> c \<in> set cs \<and> cc_id c = i \<and> fate s c = None"
  proof (cases "List.find (\<lambda>c. cc_id c = i) cs")
    case None
    with unique [of c] show ?thesis unfolding found by auto
  next
    case (Some d)
    with unique [of c] member [OF Some] show ?thesis unfolding found by auto
  qed
qed

lemma held_run_index:
  assumes "distinct (map cc_id cs)"
  shows "held (run_index s now cs) = {c \<in> set cs. fate s c = None}"
proof -
  have "c \<in> snd ` set (k_held (Classify s cs)) \<longleftrightarrow> c \<in> set cs \<and> fate s c = None" for c
    using Classify_spec(4) [OF assms, of s "cc_id c" c] Classify_held [of s cs]
    by (force simp: held_by_id_def map_of_mem_iff)
  then show ?thesis by (auto simp: held_def run_index_def rules_start_def)
qed

subsection \<open>What every stage keeps\<close>

text \<open>
  The invariant of a run from the end of \<open>RunAdds\<close> on, \<open>X\<close> standing for more that a particular
  argument wants kept (and that no mark of a change of the kinds \<open>KS\<close> disturbs).
\<close>

definition run_inv ::
  "rule_index \<Rightarrow> checked_change list \<Rightarrow> (rules_state \<Rightarrow> bool) \<Rightarrow> rules_state \<Rightarrow> bool" where
  "run_inv ix cs X s \<longleftrightarrow> members_inv ix s \<and> verdicts_ok (ix_statement ix) cs (rs_verdicts s) \<and> X s"

definition marked :: "rules_state \<Rightarrow> string set" where
  "marked s = dom (map_of (rs_verdicts s))"

definition judges ::
  "rule_index \<Rightarrow> checked_change list \<Rightarrow> (rules_state \<Rightarrow> bool) \<Rightarrow> 'a run \<Rightarrow> string set \<Rightarrow> bool" where
  "judges ix cs X m K \<longleftrightarrow> (\<forall>M. holds_after
     (\<lambda>s. keeping ix (run_inv ix cs X) s \<and> M \<subseteq> marked s) m
     (\<lambda>_ s. keeping ix (run_inv ix cs X) s \<and> M \<union> K \<subseteq> marked s))"

lemma judges_bind:
  assumes "judges ix cs X m K" and "\<And>v. judges ix cs X (f v) L"
  shows "judges ix cs X (State_Monad.bind m f) (K \<union> L)"
  unfolding judges_def
proof
  fix M
  have 1: "holds_after (\<lambda>s. keeping ix (run_inv ix cs X) s \<and> M \<subseteq> marked s) m
      (\<lambda>_ s. keeping ix (run_inv ix cs X) s \<and> M \<union> K \<subseteq> marked s)"
    using assms(1) unfolding judges_def by blast
  have 2: "holds_after (\<lambda>s. keeping ix (run_inv ix cs X) s \<and> M \<union> K \<subseteq> marked s) (f v)
      (\<lambda>_ s. keeping ix (run_inv ix cs X) s \<and> (M \<union> K) \<union> L \<subseteq> marked s)" for v
    using assms(2) unfolding judges_def by blast
  show "holds_after (\<lambda>s. keeping ix (run_inv ix cs X) s \<and> M \<subseteq> marked s) (State_Monad.bind m f)
     (\<lambda>_ s. keeping ix (run_inv ix cs X) s \<and> M \<union> (K \<union> L) \<subseteq> marked s)"
    using holds_after_bind [OF 1 2] by (simp only: Un_assoc)
qed

lemma judges_mono:
  assumes "judges ix cs X m K" and "L \<subseteq> K"
  shows "judges ix cs X m L"
  unfolding judges_def
proof
  fix M
  show "holds_after (\<lambda>s. keeping ix (run_inv ix cs X) s \<and> M \<subseteq> marked s) m
     (\<lambda>_ s. keeping ix (run_inv ix cs X) s \<and> M \<union> L \<subseteq> marked s)"
    by (rule holds_after_weaken [OF assms(1) [unfolded judges_def, THEN spec, of M]]) (use assms(2) in auto)
qed

lemma judges_return [simp]: "judges ix cs X (State_Monad.return v) {}"
  by (auto simp: judges_def intro: holds_after_return)

lemma judges_get: "(\<And>s. judges ix cs X (f s) K) \<Longrightarrow> judges ix cs X (State_Monad.bind State_Monad.get f) K"
  unfolding judges_def by (auto intro: holds_after_bind_get)

lemma judges_if: "(b \<Longrightarrow> judges ix cs X m K) \<Longrightarrow> (\<not> b \<Longrightarrow> judges ix cs X n K) \<Longrightarrow>
    judges ix cs X (if b then m else n) K"
  by simp

lemma judges_for:
  assumes "\<And>x. x \<in> set xs \<Longrightarrow> judges ix cs X (f x) (k x)"
  shows "judges ix cs X (for_m f xs) (\<Union>x \<in> set xs. k x)"
  unfolding judges_def
  by (intro allI holds_after_for_m_grows) (use assms in \<open>auto simp: judges_def\<close>)

lemma judges_asks:
  assumes "asks ix m Q" and "stable X"
  shows "judges ix cs X m {}"
proof -
  have "stable (\<lambda>s. run_inv ix cs X s \<and> M \<subseteq> marked s)" for M
    using assms(2) stable_members_inv [of ix] by (simp add: stable_def run_inv_def marked_def)
  then have "holds_after (keeping ix (\<lambda>s. run_inv ix cs X s \<and> M \<subseteq> marked s))
      (State_Monad.bind m State_Monad.return) (\<lambda>_. keeping ix (\<lambda>s. run_inv ix cs X s \<and> M \<subseteq> marked s))" for M
    by (rule asks_bind_inv [OF assms(1)]) (rule holds_after_return)
  then show ?thesis by (simp add: judges_def conj_ac)
qed

lemma judges_update:
  assumes "\<And>s. rs_facts (g s) = rs_facts s" "\<And>s. rs_verdicts (g s) = rs_verdicts s"
    and "\<And>s. members_inv ix s \<Longrightarrow> members_inv ix (g s)" and "\<And>s. X s \<Longrightarrow> X (g s)"
  shows "judges ix cs X (State_Monad.update g) {}"
  unfolding judges_def
  by (auto intro!: holds_after_update simp: run_inv_def marked_def assms facts_ok_def)

lemma members_inv_verdicts [simp]: "members_inv ix (s\<lparr>rs_verdicts := vs\<rparr>) = members_inv ix s"
  by (simp add: members_inv_def static_reason_def)

lemma members_inv_links [simp]:
  "members_inv ix (s\<lparr>rs_links := ls\<rparr>) = members_inv ix s"
  "members_inv ix (s\<lparr>rs_gone_makers_links := ls\<rparr>) = members_inv ix s"
  "members_inv ix (s\<lparr>rs_revoked := rv\<rparr>) = members_inv ix s"
  "members_inv ix (s\<lparr>rs_title := t, rs_title_version := n\<rparr>) = members_inv ix s"
  by (simp_all add: members_inv_def static_reason_def)

lemma judges_mark:
  assumes "c \<in> set cs" "fate (ix_statement ix) c = None" "status \<noteq> Dropped" and "\<And>s. X s \<Longrightarrow> members_inv ix s \<Longrightarrow> X (s\<lparr>rs_verdicts := Mark c status reason (rs_verdicts s)\<rparr>)"
  shows "judges ix cs X (mark c status reason) {cc_id c}"
  unfolding judges_def mark_def
  using assms by (auto intro!: holds_after_update simp: run_inv_def marked_def facts_ok_def)

context rules_run begin

text \<open>The groups of an index of changes, together.\<close>

lemma groups_removes:
  assumes "(m, rs) \<in> set (ix_removes_of ix)" "r \<in> set rs"
  shows "r \<in> held ix \<and> cc_kind r = KRemove \<and> cc_member r = m"
proof -
  have "om_ok (ix_removes_of ix)" using index_ok by (simp add: index_ok_def)
  then have "Of (ix_removes_of ix) m = rs" using assms(1) by (simp add: Of_def map_of_SomeI)
  moreover have "set (Of (ix_removes_of ix) m) = {r \<in> held ix. cc_kind r = KRemove \<and> cc_member r = m}"
    using index_ok by (simp add: index_ok_def)
  ultimately show ?thesis using assms(2) by blast
qed

lemma groups_leaves:
  assumes "(a, ls) \<in> set (ix_leaves_by ix)" "l \<in> set ls"
  shows "l \<in> held ix \<and> cc_kind l = KLeave \<and> cc_signer l = a"
proof -
  have "om_ok (ix_leaves_by ix)" using index_ok by (simp add: index_ok_def)
  then have "Of (ix_leaves_by ix) a = ls" using assms(1) by (simp add: Of_def map_of_SomeI)
  moreover have "set (Of (ix_leaves_by ix) a) = {l \<in> held ix. cc_kind l = KLeave \<and> cc_signer l = a}"
    using index_ok by (simp add: index_ok_def)
  ultimately show ?thesis using assms(2) by blast
qed

lemma in_Of: "c \<in> set (Of index k) \<Longrightarrow> \<exists>cs. (k, cs) \<in> set index \<and> c \<in> set cs"
  by (cases "map_of index k") (auto simp: Of_def dest: map_of_SomeD)

lemma all_removes: "r \<in> held ix \<Longrightarrow> cc_kind r = KRemove \<Longrightarrow> \<exists>(m, rs) \<in> set (ix_removes_of ix). r \<in> set rs"
proof -
  assume "r \<in> held ix" "cc_kind r = KRemove"
  then have "r \<in> set (Of (ix_removes_of ix) (cc_member r))" using index_ok by (auto simp: index_ok_def)
  then show ?thesis by (auto dest: in_Of)
qed

lemma all_leaves: "l \<in> held ix \<Longrightarrow> cc_kind l = KLeave \<Longrightarrow> \<exists>(a, ls) \<in> set (ix_leaves_by ix). l \<in> set ls"
proof -
  assume "l \<in> held ix" "cc_kind l = KLeave"
  then have "l \<in> set (Of (ix_leaves_by ix) (cc_signer l))" using index_ok by (auto simp: index_ok_def)
  then show ?thesis by (auto dest: in_Of)
qed

end

subsection \<open>The stages\<close>

locale judging = rules_run +
  fixes cs :: "checked_change list" and X :: "rules_state \<Rightarrow> bool" and KS :: "group_change_kind set"
  assumes held_cs: "held ix \<subseteq> {c \<in> set cs. fate (ix_statement ix) c = None}"
    and stable_X: "stable X"
    and X_mark: "c \<in> held ix \<Longrightarrow> cc_kind c \<in> KS \<Longrightarrow> X s \<Longrightarrow> members_inv ix s \<Longrightarrow>
      X (s\<lparr>rs_verdicts := Mark c status reason (rs_verdicts s)\<rparr>)"
begin

lemma stage_mark:
  assumes "c \<in> held ix" and "cc_kind c \<in> KS" and "status \<noteq> Dropped"
  shows "judges ix cs X (mark c status reason) {cc_id c}"
  by (rule judges_mark) (use assms held_cs X_mark in auto)

lemma stage_asks: "asks ix m Q \<Longrightarrow> (\<And>v. judges ix cs X (f v) K) \<Longrightarrow> judges ix cs X (State_Monad.bind m f) K"
  using judges_bind [OF judges_asks [OF _ stable_X], of ix m Q cs f K] by simp

lemma stage_return: "judges ix cs X (State_Monad.bind m f) K \<Longrightarrow> judges ix cs X (do { v \<leftarrow> m; f v }) K"
  .

lemma stage_then:
  "judges ix cs X m K \<Longrightarrow> (\<And>v. judges ix cs X (f v) {}) \<Longrightarrow> judges ix cs X (State_Monad.bind m f) K"
  using judges_bind [of ix cs X m K f "{}"] by simp

lemma JudgeAdds:
  assumes "KAdd \<in> KS"
  shows "judges ix cs X (JudgeAdds (Ask ix) ix) (cc_id ` {c \<in> held ix. cc_kind c = KAdd})"
proof -
  have adds: "set (ix_adds ix) = {c \<in> held ix. cc_kind c = KAdd}"
    using index_ok by (simp add: index_ok_def)
  have "judges ix cs X (judge_add (Ask ix) ix a) {cc_id a}" if "a \<in> set (ix_adds ix)" for a
    using that assms adds unfolding judge_add_def Let_def
    by (intro judges_get judges_if stage_mark stage_asks [OF asks_AddEntitlement]) auto
  then have "judges ix cs X (JudgeAdds (Ask ix) ix) (\<Union>a \<in> set (ix_adds ix). {cc_id a})"
    unfolding JudgeAdds_def by (rule judges_for)
  then show ?thesis by (rule judges_mono) (auto simp: adds)
qed

lemma judge_remove:
  assumes "r \<in> held ix" "cc_kind r = KRemove" "KRemove \<in> KS"
  shows "judges ix cs X (judge_remove (Ask ix) ix r) {cc_id r}"
proof -
  have reason: "asks ix (if valid then State_Monad.return RNone else RemoveReason (Ask ix) ix r) (\<lambda>_ _. True)" for valid
    by (intro asks_if asks_return asks_weaken [OF asks_RemoveReason]) (use assms in auto)
  show ?thesis
    unfolding judge_remove_def
    by (intro stage_asks [OF asks_ValidRemove] stage_asks [OF reason] stage_mark) (use assms in auto)
qed

lemma judge_leave:
  assumes "l \<in> held ix" "cc_kind l = KLeave" "KLeave \<in> KS"
  shows "judges ix cs X (judge_leave (Ask ix) ix known l) {cc_id l}"
proof -
  have reason: "asks ix (if valid then State_Monad.return RNone else LeaveReason (Ask ix) ix l) (\<lambda>_ _. True)" for valid
    by (intro asks_if asks_return asks_weaken [OF asks_LeaveReason]) (use assms in auto)
  show ?thesis
    unfolding judge_leave_def Let_def
    by (intro stage_asks [OF asks_ValidLeave] stage_asks [OF reason] stage_mark) (use assms in auto)
qed

lemma JudgeRemovesAndLeaves:
  assumes "{KRemove, KLeave} \<subseteq> KS"
  shows "judges ix cs X (JudgeRemovesAndLeaves (Ask ix) ix)
    (cc_id ` {c \<in> held ix. cc_kind c = KRemove} \<union> cc_id ` {c \<in> held ix. cc_kind c = KLeave})"
  unfolding JudgeRemovesAndLeaves_def
proof (rule judges_bind)
  have "judges ix cs X (for_m (\<lambda>(_, removes). for_m (judge_remove (Ask ix) ix) removes) (ix_removes_of ix))
      (\<Union>p \<in> set (ix_removes_of ix). \<Union>r \<in> set (snd p). {cc_id r})"
    by (rule judges_for, simp only: case_prod_beta, rule judges_for, rule judge_remove)
      (use assms groups_removes in \<open>force+\<close>)
  then show "judges ix cs X (for_m (\<lambda>(_, removes). for_m (judge_remove (Ask ix) ix) removes) (ix_removes_of ix))
      (cc_id ` {c \<in> held ix. cc_kind c = KRemove})"
    by (rule judges_mono) (use all_removes in fastforce)
  have "judges ix cs X (for_m (\<lambda>(signer, leaves). for_m (judge_leave (Ask ix) ix
         (InStatement ix signer \<or> map_of (ix_s_removed ix) signer \<noteq> None
           \<or> signer \<in> set (ix_joining ix))) leaves) (ix_leaves_by ix))
      (\<Union>p \<in> set (ix_leaves_by ix). \<Union>r \<in> set (snd p). {cc_id r})"
    by (rule judges_for, simp only: case_prod_beta, rule judges_for, rule judge_leave)
      (use assms groups_leaves in \<open>force+\<close>)
  then show "judges ix cs X (for_m (\<lambda>(signer, leaves). for_m (judge_leave (Ask ix) ix
         (InStatement ix signer \<or> map_of (ix_s_removed ix) signer \<noteq> None
           \<or> signer \<in> set (ix_joining ix))) leaves) (ix_leaves_by ix))
      (cc_id ` {c \<in> held ix. cc_kind c = KLeave})"
    by (rule judges_mono) (use all_leaves in fastforce)
qed

lemma judge_renames:
  assumes "KRename \<in> KS"
  shows "set rs \<subseteq> {c \<in> held ix. cc_kind c = KRename} \<Longrightarrow>
    judges ix cs X (judge_renames (Ask ix) ix best rs) (cc_id ` set rs)"
proof (induction rs arbitrary: best)
  case (Cons c rs)
  have m: "judges ix cs X (mark c status reason) {cc_id c}" if "status \<noteq> Dropped" for status reason
    by (rule stage_mark) (use Cons.prems assms that in auto)
  have rest: "judges ix cs X (judge_renames (Ask ix) ix b rs) (cc_id ` set rs)" for b
    using Cons by simp
  have c: "c \<in> held ix" using Cons.prems by simp
  have image: "cc_id ` set (c # rs) = {cc_id c} \<union> cc_id ` set rs" by auto
  show ?case
    unfolding judge_renames.simps image Let_def
    by (rule stage_asks [OF asks_Entitlement [OF c]], unfold case_prod_beta)
      (intro judges_if judges_bind [OF m] rest; simp)
qed simp

end

subsection \<open>R4: which rename wins\<close>

definition is_verdict :: "rules_state \<Rightarrow> checked_change \<Rightarrow> change_status \<Rightarrow> change_reason \<Rightarrow> bool" where
  "is_verdict s c status reason \<longleftrightarrow>
     (\<exists>v. map_of (rs_verdicts s) (cc_id c) = Some v \<and> v_status v = status \<and> v_reason v = reason)"

definition renames_of :: "rule_index \<Rightarrow> checked_change set" where
  "renames_of ix = {c \<in> held ix. cc_kind c = KRename}"

definition unjudged :: "checked_change set \<Rightarrow> rules_state \<Rightarrow> bool" where
  "unjudged C s \<longleftrightarrow> (\<forall>c \<in> C. cc_id c \<notin> marked s)"

text \<open>A grant, whatever the state of the roster under way.\<close>

definition entitled :: "rule_index \<Rightarrow> group_action \<Rightarrow> checked_change \<Rightarrow> bool" where
  "entitled ix action c \<longleftrightarrow> remove_keeps ix c
     \<or> GroupAllows action (StatementRole ix (cc_signer c)) (s_preset (ix_statement ix)) Member
       \<and> (cc_device_current c \<or> leave_keeps ix c)"

lemma granted_entitled: "granted ix c action Member T role \<Longrightarrow> entitled ix action c"
  by (auto simp: granted_def entitled_def)

context rules_run begin

lemma asks_entitled:
  assumes "c \<in> held ix"
  shows "asks ix (Entitlement (Ask ix) ix c action Member (FromRoster (Ask ix) ix))
    (\<lambda>_ v. fst v = RNone \<longrightarrow> entitled ix action c)"
  by (rule asks_weaken [OF asks_Entitlement [OF assms]]) (auto dest: granted_entitled)

end

text \<open>While the renames are walked: the best so far, of those marked as lost.\<close>

definition renaming ::
  "rule_index \<Rightarrow> (checked_change \<times> (u64 \<times> nat)) option \<Rightarrow> rules_state \<Rightarrow> bool" where
  "renaming ix best s \<longleftrightarrow>
     (\<forall>c rank. best = Some (c, rank) \<longrightarrow> c \<in> renames_of ix \<and> entitled ix Rename c \<and> fst rank = c_title_version (cc_change c)
        \<and> s_title_version (ix_statement ix) < fst rank)
     \<and> (\<forall>c \<in> renames_of ix. \<forall>reason. \<not> is_verdict s c Applied reason)
     \<and> (\<forall>c \<in> renames_of ix. is_verdict s c Superseded LostRename \<longrightarrow>
          (\<exists>b rank. best = Some (b, rank) \<and> c_title_version (cc_change c) \<le> fst rank))"

text \<open>Once they are judged.\<close>

definition title_chosen :: "rule_index \<Rightarrow> checked_change option \<Rightarrow> rules_state \<Rightarrow> bool" where
  "title_chosen ix best s \<longleftrightarrow>
     (case best of
        None \<Rightarrow> rs_title s = s_title (ix_statement ix) \<and> rs_title_version s = s_title_version (ix_statement ix)
      | Some c \<Rightarrow> c \<in> renames_of ix \<and> entitled ix Rename c \<and> is_verdict s c Applied RNone \<and> rs_title s = c_title (cc_change c)
          \<and> rs_title_version s = c_title_version (cc_change c)
          \<and> s_title_version (ix_statement ix) < rs_title_version s)
     \<and> (\<forall>c \<in> renames_of ix. \<forall>reason. is_verdict s c Applied reason \<longrightarrow> best = Some c)
     \<and> (\<forall>c \<in> renames_of ix. is_verdict s c Superseded LostRename \<longrightarrow>
          c_title_version (cc_change c) \<le> rs_title_version s)"

lemma is_verdict_mark:
  "is_verdict (s\<lparr>rs_verdicts := Mark c status reason (rs_verdicts s)\<rparr>) d st r \<longleftrightarrow>
    (if cc_id c = cc_id d then st = status \<and> r = reason else is_verdict s d st r)"
  by (auto simp: is_verdict_def verdict_on_def)

lemma is_verdict_same [simp]:
  "is_verdict (s\<lparr>rs_facts := f\<rparr>) = is_verdict s" "is_verdict (s\<lparr>rs_title := t, rs_title_version := n\<rparr>) = is_verdict s"
  "is_verdict (s\<lparr>rs_links := ls\<rparr>) = is_verdict s" "is_verdict (s\<lparr>rs_gone_makers_links := gs\<rparr>) = is_verdict s"
  "is_verdict (s\<lparr>rs_revoked := rv\<rparr>) = is_verdict s"
  by (auto simp: is_verdict_def fun_eq_iff)

lemma stable_renaming [simp]: "stable (renaming ix best)"
  by (simp add: stable_def renaming_def)

lemma stable_title_chosen [simp]: "stable (title_chosen ix best)"
  by (simp add: stable_def title_chosen_def split: option.splits)

lemma renaming_mark:
  assumes "renaming ix best s" and "inj_on cc_id (held ix)" and "c \<in> renames_of ix"
    and "status = Void \<or> reason = OlderTitle \<and> status = Superseded"
  shows "renaming ix best (s\<lparr>rs_verdicts := Mark c status reason (rs_verdicts s)\<rparr>)"
  using assms unfolding renaming_def is_verdict_mark by auto

lemma renaming_lost:
  assumes r: "renaming ix best s" and "inj_on cc_id (held ix)" and c: "c \<in> renames_of ix" "entitled ix Rename c"
    and newer: "s_title_version (ix_statement ix) < c_title_version (cc_change c)"
    and rank: "rank = (c_title_version (cc_change c), role)"
    and best': "best' = (case best of None \<Rightarrow> Some (c, rank)
      | Some (b, best_rank) \<Rightarrow> if rank > best_rank then Some (c, rank) else best)"
  shows "renaming ix best' (s\<lparr>rs_verdicts := Mark c Superseded LostRename (rs_verdicts s)\<rparr>)"
proof -
  have same: "d = c" if "cc_id c = cc_id d" "d \<in> renames_of ix" for d
    using that assms(2) c(1) by (auto simp: renames_of_def inj_on_def)
  show ?thesis
  proof (cases best)
    case None
    with r newer c show ?thesis
      by (auto simp: renaming_def is_verdict_mark best' rank dest: same)
  next
    case (Some p)
    obtain b v k where p: "p = (b, (v, k))" by (metis prod.exhaust)
    have "v \<le> c_title_version (cc_change c)" if "rank > (v, k)"
      using that rank by (auto simp: less_prod_def)
    moreover have "c_title_version (cc_change c) \<le> v" if "\<not> rank > (v, k)"
      using that rank by (auto simp: less_prod_def)
    ultimately show ?thesis
      using r newer c Some p
      by (auto simp: renaming_def is_verdict_mark best' rank dest: same intro: order.trans)
  qed
qed

context judging begin

lemma stable_inv: "stable Y \<Longrightarrow> stable (\<lambda>s. run_inv ix cs X s \<and> Y s)"
  using stable_X stable_members_inv [of ix] by (simp add: stable_def run_inv_def)

lemma judge_renames_best:
  assumes "KRename \<in> KS"
  shows "set rs \<subseteq> renames_of ix \<Longrightarrow>
    holds_after (keeping ix (\<lambda>s. run_inv ix cs X s \<and> renaming ix best s)) (judge_renames (Ask ix) ix best rs)
      (\<lambda>best. keeping ix (\<lambda>s. run_inv ix cs X s \<and> renaming ix best s))"
proof (induction rs arbitrary: best)
  case Nil
  show ?case by (auto intro: holds_after_return)
next
  case (Cons c rs)
  have inj: "inj_on cc_id (held ix)" using index_ok by (simp add: index_ok_def)
  have c: "c \<in> renames_of ix" "c \<in> held ix" "c \<in> set cs" "fate (ix_statement ix) c = None" "cc_kind c = KRename"
    using Cons.prems held_cs by (auto simp: renames_of_def)
  have mark: "holds_after (keeping ix (\<lambda>s. run_inv ix cs X s \<and> renaming ix best s)) (mark c status reason)
      (\<lambda>_. keeping ix (\<lambda>s. run_inv ix cs X s \<and> renaming ix best' s))"
    if "status \<noteq> Dropped" "\<And>s. renaming ix best s \<Longrightarrow> renaming ix best' (s\<lparr>rs_verdicts := Mark c status reason (rs_verdicts s)\<rparr>)"
    for status reason best'
    unfolding mark_def using that X_mark [of c] c assms
    by (auto intro!: holds_after_update simp: run_inv_def facts_ok_def)
  have rest: "holds_after (keeping ix (\<lambda>s. run_inv ix cs X s \<and> renaming ix b s)) (judge_renames (Ask ix) ix b rs)
      (\<lambda>best. keeping ix (\<lambda>s. run_inv ix cs X s \<and> renaming ix best s))" for b
    using Cons by simp
  show ?case
    unfolding judge_renames.simps Let_def
  proof (rule asks_bind [OF asks_entitled [OF c(2)] stable_inv [OF stable_renaming]], goal_cases)
    case (1 v)
    obtain reason role where v: "v = (reason, role)" by fastforce
    show ?case
    proof (cases "reason = RNone \<longrightarrow> entitled ix Rename c")
      case True
      have "holds_after (keeping ix (\<lambda>s. run_inv ix cs X s \<and> renaming ix best s))
        (case v of (reason, role) \<Rightarrow>
           if reason \<noteq> RNone then do { mark c Void reason; judge_renames (Ask ix) ix best rs }
           else if c_title_version (cc_change c) \<le> s_title_version (ix_statement ix)
           then do { mark c Superseded OlderTitle; judge_renames (Ask ix) ix best rs }
           else do { mark c Superseded LostRename;
             judge_renames (Ask ix) ix (case best of None \<Rightarrow> Some (c, c_title_version (cc_change c), RoleRank role)
               | Some (u, best_rank) \<Rightarrow> if (c_title_version (cc_change c), RoleRank role) > best_rank
                   then Some (c, c_title_version (cc_change c), RoleRank role) else best) rs })
        (\<lambda>best. keeping ix (\<lambda>s. run_inv ix cs X s \<and> renaming ix best s))"
        unfolding v prod.case
      proof (intro holds_after_if, goal_cases)
        case 1
        show ?case by (rule holds_after_bind [OF mark rest], simp) (rule renaming_mark, use inj c in auto)
      next
        case 2
        show ?case by (rule holds_after_bind [OF mark rest], simp) (rule renaming_mark, use inj c in auto)
      next
        case 3
        then show ?case
          using True by (intro holds_after_bind [OF mark rest] renaming_lost [where role = "RoleRank role"])
            (use inj c in \<open>auto simp: not_le split: option.split\<close>)
      qed
      then show ?thesis by (rule holds_after_weaken) (simp_all add: v)
    qed (simp add: v holds_after_vacuous)
  qed simp
qed

lemma JudgeRenames_chosen:
  assumes "KRename \<in> KS" and X_title: "\<And>s t n. X s \<Longrightarrow> X (s\<lparr>rs_title := t, rs_title_version := n\<rparr>)"
  shows "holds_after (keeping ix (\<lambda>s. run_inv ix cs X s \<and> unjudged (renames_of ix) s \<and> M \<subseteq> marked s))
    (JudgeRenames (Ask ix) ix)
    (\<lambda>_. keeping ix (\<lambda>s. run_inv ix cs X s \<and> (\<exists>best. title_chosen ix best s)
       \<and> M \<union> cc_id ` renames_of ix \<subseteq> marked s))"
proof -
  have renames: "set (ix_renames ix) = renames_of ix"
    using index_ok by (simp add: index_ok_def renames_of_def)
  have inj: "inj_on cc_id (held ix)" using index_ok by (simp add: index_ok_def)
  have start: "renaming ix None s" if "unjudged (renames_of ix) s" for s
    using that by (auto simp: renaming_def unjudged_def marked_def is_verdict_def domIff)
  have "holds_after (keeping ix (\<lambda>s. run_inv ix cs X s \<and> renaming ix None s)) (judge_renames (Ask ix) ix None (ix_renames ix))
      (\<lambda>best. keeping ix (\<lambda>s. run_inv ix cs X s \<and> renaming ix best s))"
    using assms(1) by (rule judge_renames_best) (simp add: renames)
  moreover have "holds_after (\<lambda>s. keeping ix (run_inv ix cs X) s \<and> M \<subseteq> marked s) (judge_renames (Ask ix) ix None (ix_renames ix))
      (\<lambda>_ s. keeping ix (run_inv ix cs X) s \<and> M \<union> cc_id ` renames_of ix \<subseteq> marked s)"
    using judge_renames [OF assms(1), of "ix_renames ix" None] renames
    by (simp add: judges_def renames_of_def)
  ultimately
  have walked: "holds_after (keeping ix (\<lambda>s. run_inv ix cs X s \<and> unjudged (renames_of ix) s \<and> M \<subseteq> marked s))
      (judge_renames (Ask ix) ix None (ix_renames ix))
      (\<lambda>best s. facts_ok ix {} s \<and> run_inv ix cs X s \<and> renaming ix best s \<and> M \<union> cc_id ` renames_of ix \<subseteq> marked s)"
    by (rule holds_after_both) (auto intro: start)
  show ?thesis
    unfolding JudgeRenames_def
  proof (rule holds_after_bind [OF walked], goal_cases)
    case (1 best)
    let ?st = "ix_statement ix"
    let ?titled = "\<lambda>s. s\<lparr>rs_title := s_title ?st, rs_title_version := s_title_version ?st\<rparr>"
    have put: "holds_after (\<lambda>s. facts_ok ix {} s \<and> run_inv ix cs X s \<and> renaming ix best s \<and> M \<union> cc_id ` renames_of ix \<subseteq> marked s)
        (State_Monad.update ?titled)
        (\<lambda>_ s. facts_ok ix {} s \<and> run_inv ix cs X s \<and> renaming ix best s \<and> M \<union> cc_id ` renames_of ix \<subseteq> marked s
          \<and> rs_title s = s_title ?st \<and> rs_title_version s = s_title_version ?st)"
    proof (rule holds_after_update)
      fix s
      assume s: "facts_ok ix {} s \<and> run_inv ix cs X s \<and> renaming ix best s \<and> M \<union> cc_id ` renames_of ix \<subseteq> marked s"
      then have "X (?titled s)" by (simp add: run_inv_def X_title)
      with s show "facts_ok ix {} (?titled s) \<and> run_inv ix cs X (?titled s) \<and> renaming ix best (?titled s)
          \<and> M \<union> cc_id ` renames_of ix \<subseteq> marked (?titled s)
          \<and> rs_title (?titled s) = s_title ?st \<and> rs_title_version (?titled s) = s_title_version ?st"
        by (simp add: run_inv_def facts_ok_def marked_def renaming_def)
    qed
    show ?case
    proof (rule holds_after_bind [OF put], goal_cases)
      case 1
      show ?case
      proof (cases best)
        case None
        have "title_chosen ix None s"
          if "renaming ix None s" "rs_title s = s_title ?st" "rs_title_version s = s_title_version ?st" for s
          using that by (auto simp: renaming_def title_chosen_def)
        with None show ?thesis by (auto intro!: holds_after_return)
      next
        case (Some p)
        obtain c v k where p: "p = (c, (v, k))" by (metis prod.exhaust)
        let ?done = "\<lambda>s. s\<lparr>rs_verdicts := Mark c Applied RNone (rs_verdicts s),
            rs_title := c_title (cc_change c), rs_title_version := c_title_version (cc_change c)\<rparr>"
        have finish: "facts_ok ix {} (?done s) \<and> run_inv ix cs X (?done s) \<and> title_chosen ix (Some c) (?done s)
            \<and> marked s \<subseteq> marked (?done s)"
          if s: "facts_ok ix {} s" "run_inv ix cs X s" "renaming ix (Some (c, (v, k))) s" for s
        proof -
          have c: "c \<in> renames_of ix" "entitled ix Rename c" "v = c_title_version (cc_change c)" "s_title_version ?st < v"
            using s(3) by (auto simp: renaming_def)
          then have held: "c \<in> held ix" "cc_kind c \<in> KS" "c \<in> set cs \<and> fate ?st c = None"
            using assms(1) held_cs by (auto simp: renames_of_def)
          have "d = c" if "d \<in> renames_of ix" "cc_id c = cc_id d" for d
            using that held(1) inj by (auto simp: renames_of_def inj_on_def)
          then have "title_chosen ix (Some c) (?done s)"
            using s(3) c by (auto simp: renaming_def title_chosen_def is_verdict_mark)
          moreover have "run_inv ix cs X (?done s)"
            using s(2) X_title [OF X_mark [OF held(1,2)]] held(3) by (simp add: run_inv_def)
          ultimately show ?thesis using s(1) by (auto simp: facts_ok_def marked_def)
        qed
        have "run_state (do { mark c Applied RNone; State_Monad.update (\<lambda>s. s\<lparr>rs_title := c_title (cc_change c),
            rs_title_version := c_title_version (cc_change c)\<rparr>) }) s = ((), ?done s)" for s
          by (simp add: mark_def State_Monad.update_def State_Monad.bind_def State_Monad.get_def State_Monad.set_def)
        with finish show ?thesis
          unfolding Some p holds_after_def by auto blast
      qed
    qed
  qed
qed

end

subsection \<open>What taking in the adds leaves alone\<close>

named_theorems inner_intros "steps that leave the verdicts, the title and the links alone"

definition outer :: "rules_state \<Rightarrow> verdicts \<times> string \<times> u64 \<times> (string \<times> invite_link) list
    \<times> (string \<times> invite_link) list \<times> string list" where
  "outer s = (rs_verdicts s, rs_title s, rs_title_version s, rs_links s, rs_gone_makers_links s, rs_revoked s)"

definition inner_only :: "'a run \<Rightarrow> bool" where
  "inner_only m \<longleftrightarrow> (\<forall>s. outer (snd (run_state m s)) = outer s)"

lemma inner_bind [inner_intros]: "inner_only m \<Longrightarrow> (\<And>v. inner_only (f v)) \<Longrightarrow> inner_only (State_Monad.bind m f)"
  by (simp add: inner_only_def State_Monad.bind_def split: prod.splits) (metis snd_conv)

lemma inner_return [inner_intros]: "inner_only (State_Monad.return v)"
  by (simp add: inner_only_def State_Monad.return_def)

lemma inner_get [inner_intros]: "inner_only State_Monad.get"
  by (simp add: inner_only_def State_Monad.get_def)

lemma inner_if [inner_intros]: "inner_only m \<Longrightarrow> inner_only n \<Longrightarrow> inner_only (if b then m else n)"
  by simp

lemma inner_let [inner_intros]: "(\<And>v. inner_only (f v)) \<Longrightarrow> inner_only (let v = x in f v)"
  by simp

lemma inner_prod [inner_intros]: "(\<And>a b. inner_only (f a b)) \<Longrightarrow> inner_only (case p of (a, b) \<Rightarrow> f a b)"
  by (cases p) simp

lemma inner_option [inner_intros]:
  "inner_only m \<Longrightarrow> (\<And>v. inner_only (f v)) \<Longrightarrow> inner_only (case x of None \<Rightarrow> m | Some v \<Rightarrow> f v)"
  by (cases x) simp_all

lemma inner_update: "(\<And>s. outer (g s) = outer s) \<Longrightarrow> inner_only (State_Monad.update g)"
  by (simp add: inner_only_def State_Monad.update_def State_Monad.bind_def State_Monad.get_def State_Monad.set_def)

lemma inner_facts [inner_intros]: "inner_only (update_facts f)"
  unfolding update_facts_def by (rule inner_update) (simp add: outer_def)

lemma inner_for_m [inner_intros]: "(\<And>x. inner_only (f x)) \<Longrightarrow> inner_only (for_m f xs)"
  by (induction xs) (auto intro: inner_intros)

lemma inner_any_m [inner_intros]: "(\<And>x. inner_only (f x)) \<Longrightarrow> inner_only (any_m f xs)"
  by (induction xs) (auto intro!: inner_intros)

lemma inner_and_then [inner_intros]: "inner_only m \<Longrightarrow> inner_only (and_then b m)"
  by (cases b) (auto intro: inner_intros)

lemma inner_not_m [inner_intros]: "inner_only m \<Longrightarrow> inner_only (not_m m)"
  unfolding not_m_def by (intro inner_intros)

lemma inner_Memo [inner_intros]: "inner_only m \<Longrightarrow> inner_only (Memo key m)"
  unfolding Memo_def by (intro inner_intros)

text \<open>Every operation that asks, over an asker that leaves them alone.\<close>

lemma inner_operations [inner_intros]:
  assumes A [inner_intros]: "\<And>q. inner_only (A q)"
  shows "inner_only (LeftByChange A ix a)" "inner_only (StatementStands A ix a)"
    "inner_only (FromStatement A ix a)" "inner_only (FromRoster A ix a)" "inner_only (NotInReason A ix a)"
  unfolding LeftByChange_def StatementStands_def FromStatement_def FromRoster_def NotInReason_def
  by (intro inner_intros)+

lemma inner_Entitlement [inner_intros]:
  assumes A [inner_intros]: "\<And>q. inner_only (A q)" and state [inner_intros]: "\<And>a. inner_only (state a)"
  shows "inner_only (Entitlement A ix c action target state)"
  unfolding Entitlement_def by (intro inner_intros)

lemma inner_reasons [inner_intros]:
  assumes A [inner_intros]: "\<And>q. inner_only (A q)"
  shows "inner_only (RemoveReason A ix c)" "inner_only (LeaveReason A ix c)" "inner_only (AddEntitlement A ix c)"
    "inner_only (StaticAddReason A ix c)"
  unfolding RemoveReason_def LeaveReason_def AddEntitlement_def StaticAddReason_def
  by (intro inner_intros)+

lemma inner_answer [inner_intros]: "(\<And>q. inner_only (A q)) \<Longrightarrow> inner_only (answer A ix q)"
  by (cases q) (auto intro!: inner_intros)

lemma inner_ask [inner_intros]: "inner_only (ask n ix q)"
  by (induction n arbitrary: q) (auto intro!: inner_intros)

lemma inner_Ask [inner_intros]: "inner_only (Ask ix q)"
  unfolding Ask_def by (rule inner_ask)

lemma inner_take_in [inner_intros]: "inner_only (State (take_in a))"
  by (auto simp: inner_only_def take_in_def Let_def outer_def)

lemma inner_TryAccept [inner_intros]: "inner_only (TryAccept (Ask ix) ix a)"
  unfolding TryAccept_def by (intro inner_intros)

lemma inner_adds_round [inner_intros]: "inner_only (adds_round (Ask ix) ix as)"
  by (induction as) (auto intro!: inner_intros)

lemma inner_adds_rounds [inner_intros]: "inner_only (adds_rounds n (Ask ix) ix as)"
  by (induction n) (auto intro!: inner_intros)

lemma inner_stand_member [inner_intros]: "inner_only (stand_member (Ask ix) ix m)"
  unfolding stand_member_def by (intro inner_intros inner_update) (simp_all add: outer_def)

lemma inner_open_adds [inner_intros]: "inner_only (open_adds (Ask ix) ix as)"
  by (induction as) (auto intro!: inner_intros inner_update simp: outer_def)

lemma RunAdds_outer: "outer (snd (run_state (RunAdds (Ask ix) ix) s)) = outer s"
proof -
  have "inner_only (RunAdds (Ask ix) ix)" unfolding RunAdds_def by (intro inner_intros)
  then show ?thesis by (simp add: inner_only_def)
qed

end

