(* ===== verification/RosterLinks.thy ===== *)
theory RosterLinks
  imports RosterJudge
begin

section \<open>Judging the invite links\<close>

text \<open>
  \<open>JudgeLinkAdds\<close> and \<open>JudgeLinkRevokes\<close>: where each link of the roster comes from, and who may
  have revoked it.
\<close>

lemmas state_defs = State_Monad.update_def State_Monad.bind_def State_Monad.get_def State_Monad.set_def
  State_Monad.return_def mark_def

definition links_inv :: "rule_index \<Rightarrow> rules_state \<Rightarrow> bool" where
  "links_inv ix s \<longleftrightarrow> om_ok (rs_links s) \<and> om_ok (rs_gone_makers_links s)
     \<and> (\<forall>i l. map_of (rs_links s) i = Some l \<longrightarrow> l_link_id l = i \<and> (l \<in> set (s_links (ix_statement ix))
          \<or> (\<exists>c \<in> held ix. cc_kind c = KLinkAdd \<and> entitled ix MakeInviteLink c \<and> l = LinkOf (cc_change c))))
     \<and> (\<forall>i l. map_of (rs_gone_makers_links s) i = Some l \<longrightarrow> l_link_id l = i
          \<and> (\<exists>c \<in> held ix. cc_kind c = KLinkAdd \<and> l = LinkOf (cc_change c)))
     \<and> (\<forall>i \<in> set (rs_revoked s). \<exists>l. map_of (rs_links s) i = Some l \<and> (\<exists>c \<in> held ix. cc_kind c = KLinkRevoke
          \<and> c_link_id (cc_change c) = i
          \<and> entitled ix (if cc_signer c = l_maker l then Send else RevokeInviteLink) c))"

lemma stable_links_inv [simp]: "stable (links_inv ix)"
  by (simp add: stable_def links_inv_def)

lemma links_inv_verdicts [simp]: "links_inv ix (s\<lparr>rs_verdicts := vs\<rparr>) = links_inv ix s"
  by (simp add: links_inv_def)

lemma links_inv_put:
  assumes "links_inv ix s" "c \<in> held ix" "cc_kind c = KLinkAdd" "entitled ix MakeInviteLink c"
    and "map_of (rs_links s) (c_link_id (cc_change c)) = None"
  shows "links_inv ix (s\<lparr>rs_links := om_put (c_link_id (cc_change c)) (LinkOf (cc_change c)) (rs_links s)\<rparr>)"
  using assms unfolding links_inv_def by (auto simp: LinkOf_def)

lemma links_inv_gone:
  assumes "links_inv ix s" "c \<in> held ix" "cc_kind c = KLinkAdd"
  shows "links_inv ix (s\<lparr>rs_gone_makers_links :=
    om_emplace (c_link_id (cc_change c)) (LinkOf (cc_change c)) (rs_gone_makers_links s)\<rparr>)"
  using assms unfolding links_inv_def by (auto simp: LinkOf_def split: option.splits if_splits)

lemma links_inv_revoke:
  assumes "links_inv ix s" "c \<in> held ix" "cc_kind c = KLinkRevoke"
    and "map_of (rs_links s) (c_link_id (cc_change c)) = Some l"
    and "entitled ix (if cc_signer c = l_maker l then Send else RevokeInviteLink) c"
  shows "links_inv ix (s\<lparr>rs_revoked := os_insert (c_link_id (cc_change c)) (rs_revoked s)\<rparr>)"
  using assms unfolding links_inv_def by auto

lemma fold_erase:
  "om_ok m \<Longrightarrow> om_ok (fold om_erase ks m) \<and> map_of (fold om_erase ks m) k = (if k \<in> set ks then None else map_of m k)"
  by (induction ks arbitrary: m) (auto simp: map_of_om_erase)

lemma links_inv_erase:
  "links_inv ix s \<Longrightarrow> links_inv ix (s\<lparr>rs_gone_makers_links := fold om_erase ks (rs_gone_makers_links s)\<rparr>)"
  unfolding links_inv_def by (auto simp: fold_erase split: if_splits)

context judging begin

lemma stage_asks_value:
  assumes "asks ix m (\<lambda>_ v. P v)" and "\<And>v. P v \<Longrightarrow> judges ix cs X (f v) K"
  shows "judges ix cs X (State_Monad.bind m f) K"
  unfolding judges_def
proof
  fix M
  have "stable (\<lambda>s. run_inv ix cs X s \<and> M \<subseteq> marked s)"
    using stable_X stable_members_inv [of ix] by (simp add: stable_def run_inv_def marked_def)
  then have "holds_after (keeping ix (\<lambda>s. run_inv ix cs X s \<and> M \<subseteq> marked s)) (State_Monad.bind m f)
      (\<lambda>_ s. keeping ix (run_inv ix cs X) s \<and> M \<union> K \<subseteq> marked s)"
  proof (rule asks_bind [OF assms(1)])
    fix v
    show "holds_after (\<lambda>s. facts_ok ix {} s \<and> (run_inv ix cs X s \<and> M \<subseteq> marked s) \<and> P v) (f v)
      (\<lambda>_ s. keeping ix (run_inv ix cs X) s \<and> M \<union> K \<subseteq> marked s)"
    proof (cases "P v")
      case True
      then show ?thesis using assms(2) [OF True] by (auto simp: judges_def elim!: holds_after_weaken)
    qed (simp add: holds_after_vacuous)
  qed simp
  then show "holds_after (\<lambda>s. keeping ix (run_inv ix cs X) s \<and> M \<subseteq> marked s) (State_Monad.bind m f)
      (\<lambda>_ s. keeping ix (run_inv ix cs X) s \<and> M \<union> K \<subseteq> marked s)"
    by (rule holds_after_weaken) auto
qed

end

text \<open>A run whose further invariant allows what the link stages do.\<close>

locale judging_links = judging +
  assumes kinds: "KLinkAdd \<in> KS" "KLinkRevoke \<in> KS"
    and X_links: "\<And>s. X s \<Longrightarrow> links_inv ix s"
    and X_put: "\<And>s l. X s \<Longrightarrow> links_inv ix (s\<lparr>rs_links := l\<rparr>) \<Longrightarrow> X (s\<lparr>rs_links := l\<rparr>)"
    and X_gone: "\<And>s l. X s \<Longrightarrow> links_inv ix (s\<lparr>rs_gone_makers_links := l\<rparr>) \<Longrightarrow> X (s\<lparr>rs_gone_makers_links := l\<rparr>)"
    and X_revoke: "\<And>s l. X s \<Longrightarrow> links_inv ix (s\<lparr>rs_revoked := l\<rparr>) \<Longrightarrow> X (s\<lparr>rs_revoked := l\<rparr>)"
begin

lemma update_stage:
  assumes "\<And>s. X s \<Longrightarrow> X (g s)" and "\<And>s. members_inv ix (g s) = members_inv ix s"
    and "\<And>s. rs_facts (g s) = rs_facts s" "\<And>s. rs_verdicts (g s) = rs_verdicts s"
  shows "judges ix cs X (State_Monad.update g) {}"
  by (rule judges_update) (simp_all add: assms)

lemma judge_link_add:
  assumes c: "c \<in> held ix" "cc_kind c = KLinkAdd"
  shows "judges ix cs X (judge_link_add (Ask ix) ix c) {cc_id c}"
proof -
  let ?id = "c_link_id (cc_change c)"
  have mark: "judges ix cs X (mark c status reason) {cc_id c}" if "status \<noteq> Dropped" for status reason
    by (rule stage_mark) (use c kinds that in auto)
  then have mark_void: "judges ix cs X (mark c Void reason) {cc_id c}" for reason by simp
  have gone: "judges ix cs X (State_Monad.update (\<lambda>s. s\<lparr>rs_gone_makers_links :=
      om_emplace ?id (LinkOf (cc_change c)) (rs_gone_makers_links s)\<rparr>)) {}"
    by (rule update_stage) (auto intro: X_gone links_inv_gone [OF X_links c])
  have put: "judges ix cs X (do { s \<leftarrow> State_Monad.get;
      if map_of (rs_links s) ?id \<noteq> None then mark c Void DuplicateLink
      else do { mark c Applied RNone;
        State_Monad.update (\<lambda>s. s\<lparr>rs_links := om_put ?id (LinkOf (cc_change c)) (rs_links s)\<rparr>) } }) {cc_id c}"
    if "entitled ix MakeInviteLink c"
    unfolding judges_def
  proof (intro allI holds_afterI)
    fix M s a s'
    assume s: "keeping ix (run_inv ix cs X) s \<and> M \<subseteq> marked s"
      and run: "run_state (do { s \<leftarrow> State_Monad.get;
      if map_of (rs_links s) ?id \<noteq> None then mark c Void DuplicateLink
      else do { mark c Applied RNone;
        State_Monad.update (\<lambda>s. s\<lparr>rs_links := om_put ?id (LinkOf (cc_change c)) (rs_links s)\<rparr>) } }) s = (a, s')"
    show "keeping ix (run_inv ix cs X) s' \<and> M \<union> {cc_id c} \<subseteq> marked s'"
    proof (cases "map_of (rs_links s) ?id = None")
      case False
      then have "run_state (mark c Void DuplicateLink) s = (a, s')" using run by (simp add: state_defs)
      from holds_afterD [OF mark_void [unfolded judges_def, THEN spec, of M] s this] show ?thesis .
    next
      case True
      let ?s1 = "s\<lparr>rs_verdicts := Mark c Applied RNone (rs_verdicts s)\<rparr>"
      have s': "s' = ?s1\<lparr>rs_links := om_put ?id (LinkOf (cc_change c)) (rs_links ?s1)\<rparr>"
        using run True by (simp add: state_defs)
      have s1: "run_inv ix cs X ?s1" "members_inv ix s"
        using s X_mark [OF c(1)] c kinds held_cs by (auto simp: run_inv_def)
      then have "X ?s1" by (simp add: run_inv_def)
      have "links_inv ix (?s1\<lparr>rs_links := om_put ?id (LinkOf (cc_change c)) (rs_links ?s1)\<rparr>)"
        by (rule links_inv_put [OF X_links [OF \<open>X ?s1\<close>] c that]) (simp add: True)
      from X_put [OF \<open>X ?s1\<close> this] s1 s show ?thesis
        unfolding s' by (auto simp: run_inv_def facts_ok_def marked_def)
    qed
  qed
  show ?thesis
    unfolding judge_link_add_def Let_def
  proof (rule stage_asks_value [OF asks_entitled [OF c(1)]], unfold case_prod_beta, rule judges_if, goal_cases)
    case (1 v)
    show ?case by (rule stage_then [OF mark], simp) (intro judges_if gone, rule judges_return)
  next
    case (2 v)
    then show ?case using put by simp
  qed
qed

lemma judge_link_revoke:
  assumes c: "c \<in> held ix" "cc_kind c = KLinkRevoke"
  shows "judges ix cs X (judge_link_revoke (Ask ix) ix c) {cc_id c}"
  unfolding judges_def
proof
  fix M
  let ?id = "c_link_id (cc_change c)"
  let ?P = "\<lambda>s. keeping ix (run_inv ix cs X) s \<and> M \<subseteq> marked s"
  let ?Q = "\<lambda>s. keeping ix (run_inv ix cs X) s \<and> M \<union> {cc_id c} \<subseteq> marked s"
  have mark: "judges ix cs X (mark c status reason) {cc_id c}" if "status \<noteq> Dropped" for status reason
    by (rule stage_mark) (use c kinds that in auto)
  then have mark_void: "judges ix cs X (mark c Void reason) {cc_id c}" for reason by simp
  let ?action = "\<lambda>l. if cc_signer c = l_maker l then Send else RevokeInviteLink"
  let ?rest = "\<lambda>reason. do {
      mark c (if reason = RNone then Applied else Void) reason;
      if reason = RNone
      then State_Monad.update (\<lambda>s. s\<lparr>rs_revoked := os_insert ?id (rs_revoked s)\<rparr>)
      else State_Monad.return () }"
  have judged: "holds_after (\<lambda>s. facts_ok ix {} s \<and> (run_inv ix cs X s \<and> M \<subseteq> marked s \<and> map_of (rs_links s) ?id = Some l)
        \<and> (reason = RNone \<longrightarrow> entitled ix (?action l) c)) (?rest reason) (\<lambda>_. ?Q)" for reason l
  proof (rule holds_afterI)
    fix s a s'
    assume s: "facts_ok ix {} s \<and> (run_inv ix cs X s \<and> M \<subseteq> marked s \<and> map_of (rs_links s) ?id = Some l)
        \<and> (reason = RNone \<longrightarrow> entitled ix (?action l) c)"
      and run: "run_state (?rest reason) s = (a, s')"
    let ?s1 = "s\<lparr>rs_verdicts := Mark c (if reason = RNone then Applied else Void) reason (rs_verdicts s)\<rparr>"
    have X1: "X ?s1" "run_inv ix cs X ?s1"
      using s X_mark [OF c(1)] c kinds held_cs by (auto simp: run_inv_def)
    show "?Q s'"
    proof (cases "reason = RNone")
      case False
      then have "s' = ?s1" using run by (simp add: state_defs)
      with X1 s show ?thesis by (auto simp: facts_ok_def marked_def)
    next
      case True
      then have s': "s' = ?s1\<lparr>rs_revoked := os_insert ?id (rs_revoked ?s1)\<rparr>" using run by (simp add: state_defs)
      have "links_inv ix s'"
        unfolding s' by (rule links_inv_revoke [OF X_links [OF X1(1)] c]) (use s True in auto)
      then have "X s'" unfolding s' by (rule X_revoke [OF X1(1)])
      with X1 s show ?thesis by (auto simp: s' facts_ok_def marked_def run_inv_def)
    qed
  qed
  show "holds_after ?P (judge_link_revoke (Ask ix) ix c) (\<lambda>_. ?Q)"
  proof (rule holds_afterI)
    fix s a s'
    assume s: "?P s" and run: "run_state (judge_link_revoke (Ask ix) ix c) s = (a, s')"
    show "?Q s'"
    proof (cases "map_of (rs_links s) ?id")
      case None
      then have "run_state (mark c Void NoSuchLink) s = (a, s')"
        using run by (simp add: judge_link_revoke_def State_Monad.bind_def State_Monad.get_def)
      from holds_afterD [OF mark_void [unfolded judges_def, THEN spec, of M] s this] show ?thesis .
    next
      case (Some l)
      let ?step = "Entitlement (Ask ix) ix c (?action l) Member (FromRoster (Ask ix) ix)"
      have run': "run_state (State_Monad.bind ?step (\<lambda>v. ?rest (fst v))) s = (a, s')"
        using run Some by (simp add: judge_link_revoke_def State_Monad.bind_def State_Monad.get_def case_prod_beta)
      have "holds_after (keeping ix (\<lambda>s. run_inv ix cs X s \<and> M \<subseteq> marked s \<and> map_of (rs_links s) ?id = Some l))
          (State_Monad.bind ?step (\<lambda>v. ?rest (fst v))) (\<lambda>_. ?Q)"
      proof (rule asks_bind [OF asks_entitled [OF c(1)]])
        show "stable (\<lambda>s. run_inv ix cs X s \<and> M \<subseteq> marked s \<and> map_of (rs_links s) ?id = Some l)"
          using stable_X stable_members_inv [of ix] by (simp add: stable_def run_inv_def marked_def)
      qed (rule judged, simp)
      from holds_afterD [OF this _ run'] show ?thesis using s Some by simp
    qed
  qed
qed

lemma JudgeLinks:
  assumes start: "holds_after P (State_Monad.update (\<lambda>s. s\<lparr>rs_links :=
      fold (\<lambda>l. om_put (l_link_id l) l) (s_links (ix_statement ix)) (rs_links s)\<rparr>))
    (\<lambda>_ s. keeping ix (run_inv ix cs X) s \<and> M \<subseteq> marked s)"
  shows "holds_after P (JudgeLinks (Ask ix) ix) (\<lambda>_ s. keeping ix (run_inv ix cs X) s
    \<and> M \<union> (cc_id ` {c \<in> held ix. cc_kind c = KLinkAdd} \<union> cc_id ` {c \<in> held ix. cc_kind c = KLinkRevoke}) \<subseteq> marked s)"
proof -
  have groups: "set (ix_link_adds ix) = {c \<in> held ix. cc_kind c = KLinkAdd}"
    "set (ix_link_revokes ix) = {c \<in> held ix. cc_kind c = KLinkRevoke}"
    using index_ok by (simp_all add: index_ok_def)
  have erase: "judges ix cs X (State_Monad.update (\<lambda>s. s\<lparr>rs_gone_makers_links :=
      fold om_erase (map fst (rs_links s)) (rs_gone_makers_links s)\<rparr>)) {}"
    by (rule update_stage) (auto intro: X_gone links_inv_erase X_links)
  have adds: "judges ix cs X (for_m (judge_link_add (Ask ix) ix) (ix_link_adds ix))
      (\<Union>c \<in> set (ix_link_adds ix). {cc_id c})"
    by (rule judges_for, rule judge_link_add) (simp_all add: groups)
  have revokes: "judges ix cs X (for_m (judge_link_revoke (Ask ix) ix) (ix_link_revokes ix))
      (\<Union>c \<in> set (ix_link_revokes ix). {cc_id c})"
    by (rule judges_for, rule judge_link_revoke) (simp_all add: groups)
  have "judges ix cs X (do {
        for_m (judge_link_add (Ask ix) ix) (ix_link_adds ix);
        State_Monad.update (\<lambda>s. s\<lparr>rs_gone_makers_links :=
          fold om_erase (map fst (rs_links s)) (rs_gone_makers_links s)\<rparr>) })
      ((\<Union>c \<in> set (ix_link_adds ix). {cc_id c}) \<union> {})"
    by (intro judges_bind adds erase)
  then have 1: "judges ix cs X (do {
        for_m (judge_link_add (Ask ix) ix) (ix_link_adds ix);
        State_Monad.update (\<lambda>s. s\<lparr>rs_gone_makers_links :=
          fold om_erase (map fst (rs_links s)) (rs_gone_makers_links s)\<rparr>) })
      (cc_id ` {c \<in> held ix. cc_kind c = KLinkAdd})"
    by (rule judges_mono) (auto simp: groups)
  have 2: "judges ix cs X (for_m (judge_link_revoke (Ask ix) ix) (ix_link_revokes ix))
      (cc_id ` {c \<in> held ix. cc_kind c = KLinkRevoke})"
    by (rule judges_mono [OF revokes]) (auto simp: groups)
  show ?thesis
    unfolding JudgeLinks_def JudgeLinkAdds_def Un_assoc [symmetric]
    by (rule holds_after_bind, rule holds_after_bind [OF start], rule 1 [unfolded judges_def, THEN spec],
        rule 2 [unfolded judges_def, THEN spec])
qed

end

end
