(* ===== verification/RosterView.thy ===== *)
theory RosterView
  imports RosterLinks
begin

section \<open>The view a run yields\<close>

text \<open>
  The stages put together: from the state that \<open>Classify\<close> leaves, through \<open>RunAdds\<close> and the judging
  stages, to the view that \<open>Build\<close> reads off. The lemma \<open>Run_view\<close> is what the properties of the
  computed roster rest on.
\<close>

subsection \<open>The removed rows\<close>

definition removed_row :: "rule_index \<Rightarrow> removed_member \<Rightarrow> bool" where
  "removed_row ix row \<longleftrightarrow> map_of (ix_s_removed ix) (rv_identity row) = Some row
     \<or> (\<exists>r. may_remove ix r \<and> rv_identity row = cc_member r \<and> rv_removal row = cc_id r
          \<and> rv_removed_by row = cc_signer r)"

definition removed_map :: "rule_index \<Rightarrow> (string \<times> removed_member) list \<Rightarrow> bool" where
  "removed_map ix m \<longleftrightarrow> om_ok m \<and> (\<forall>i row. map_of m i = Some row \<longrightarrow> rv_identity row = i \<and> removed_row ix row)
     \<and> (\<forall>i. map_of (ix_s_removed ix) i \<noteq> None \<longrightarrow> map_of m i \<noteq> None)"

context rules_run begin

lemma asks_then_value:
  assumes "asks ix m (\<lambda>_ v. P v)" and "\<And>v. P v \<Longrightarrow> asks ix (f v) Q"
  shows "asks ix (State_Monad.bind m f) Q"
  unfolding asks_def
proof
  fix s0
  show "holds_after (\<lambda>s. facts_ok ix {} s \<and> frame s0 s) (State_Monad.bind m f)
      (\<lambda>v s. (facts_ok ix {} s \<and> frame s0 s) \<and> Q s0 v)"
    by (rule holds_after_bind_value [OF assms(1) [unfolded asks_def, THEN spec, of s0]])
      (use assms(2) in \<open>simp add: asks_def\<close>)
qed

lemma asks_first_valid:
  "set rs \<subseteq> {r \<in> held ix. cc_kind r = KRemove} \<Longrightarrow>
    asks ix (first_valid (Ask ix) rs) (\<lambda>_ v. \<forall>r. v = Some r \<longrightarrow> r \<in> set rs \<and> may_remove ix r)"
proof (induction rs)
  case (Cons r rs)
  have rest: "asks ix (first_valid (Ask ix) rs) (\<lambda>_ v. \<forall>r. v = Some r \<longrightarrow> r \<in> set rs \<and> may_remove ix r)"
    using Cons by simp
  have r: "r \<in> held ix" "cc_kind r = KRemove" using Cons.prems by auto
  show ?case
    unfolding first_valid.simps
    by (rule asks_then [OF asks_ValidRemove [OF r]]) (auto intro!: asks_return asks_weaken [OF rest])
qed (auto intro: asks_return)

lemma asks_removed_rows:
  assumes "\<And>m rs r. (m, rs) \<in> set groups \<Longrightarrow> r \<in> set rs \<Longrightarrow> r \<in> held ix \<and> cc_kind r = KRemove \<and> cc_member r = m"
  shows "removed_map ix acc \<Longrightarrow> asks ix (removed_rows (Ask ix) groups acc) (\<lambda>_. removed_map ix)"
  using assms
proof (induction groups arbitrary: acc)
  case (Cons g groups)
  obtain m rs where g: "g = (m, rs)" by (cases g)
  have rs: "set rs \<subseteq> {r \<in> held ix. cc_kind r = KRemove}" "\<And>r. r \<in> set rs \<Longrightarrow> cc_member r = m"
    using Cons.prems(2) g by auto
  have step: "asks ix (removed_rows (Ask ix) groups (case found of None \<Rightarrow> acc
       | Some r \<Rightarrow> om_put m \<lparr>rv_identity = m, rv_removal = cc_id r, rv_removed_by = cc_signer r\<rparr> acc))
      (\<lambda>_. removed_map ix)"
    if "\<forall>r. found = Some r \<longrightarrow> r \<in> set rs \<and> may_remove ix r" for found
  proof (rule Cons.IH)
    show "removed_map ix (case found of None \<Rightarrow> acc
       | Some r \<Rightarrow> om_put m \<lparr>rv_identity = m, rv_removal = cc_id r, rv_removed_by = cc_signer r\<rparr> acc)"
      using that Cons.prems(1) rs(2)
      by (cases found) (auto simp: removed_map_def removed_row_def)
  qed (use Cons.prems(2) in auto)
  show ?case
    unfolding g removed_rows.simps by (rule asks_then_value [OF asks_first_valid [OF rs(1)] step])
qed (auto intro: asks_return)

lemma asks_RemovedRows:
  assumes "removed_map ix (ix_s_removed ix)"
  shows "asks ix (RemovedRows (Ask ix) ix) (\<lambda>s rows. sorted_wrt (<) (map rv_identity rows)
    \<and> (\<forall>row \<in> set rows. removed_row ix row \<and> rv_identity row \<notin> set (rs_in s))
    \<and> (\<forall>i. map_of (ix_s_removed ix) i \<noteq> None \<and> i \<notin> set (rs_in s) \<longrightarrow> i \<in> rv_identity ` set rows))"
proof -
  show ?thesis
    unfolding RemovedRows_def
  proof (rule asks_then_value [OF asks_removed_rows [OF groups_removes assms]], assumption, assumption)
    fix removed
    assume m: "removed_map ix removed"
    let ?rows = "\<lambda>s. map snd (filter (\<lambda>(identity, _). identity \<notin> set (rs_in s)) removed)"
    have ok: "om_ok removed" using m by (simp add: removed_map_def)
    have row: "rv_identity r = i \<and> removed_row ix r" if "(i, r) \<in> set removed" for i r
      using m map_of_SomeI [OF ok that] by (simp add: removed_map_def)
    then have ids: "map rv_identity (?rows s) = filter (\<lambda>i. i \<notin> set (rs_in s)) (map fst removed)" for s
      by (auto simp: filter_map comp_def case_prod_beta intro!: map_cong filter_cong)
    have sorted: "sorted_wrt (<) (map rv_identity (?rows s))" for s
      using ok unfolding ids by (simp add: om_ok_def sorted_wrt_filter)
    have rows: "removed_row ix r \<and> rv_identity r \<notin> set (rs_in s)" if "r \<in> set (?rows s)" for r s
      using that row by auto
    have stay: "i \<in> rv_identity ` set (?rows s)" if "map_of (ix_s_removed ix) i \<noteq> None" "i \<notin> set (rs_in s)" for i s
    proof -
      have "map_of removed i \<noteq> None" using m that(1) unfolding removed_map_def by blast
      then obtain r where "(i, r) \<in> set removed" by (auto dest: map_of_SomeD)
      with row that(2) show ?thesis by force
    qed
    show "asks ix (do { s \<leftarrow> State_Monad.get; State_Monad.return (?rows s) })
        (\<lambda>s rows. sorted_wrt (<) (map rv_identity rows)
          \<and> (\<forall>row \<in> set rows. removed_row ix row \<and> rv_identity row \<notin> set (rs_in s))
          \<and> (\<forall>i. map_of (ix_s_removed ix) i \<noteq> None \<and> i \<notin> set (rs_in s) \<longrightarrow> i \<in> rv_identity ` set rows))"
      unfolding asks_def
    proof (intro allI holds_afterI)
      fix s0 s v s'
      assume s: "facts_ok ix {} s \<and> frame s0 s"
        and "run_state (do { s \<leftarrow> State_Monad.get; State_Monad.return (?rows s) }) s = (v, s')"
      then have v: "v = ?rows s" "s' = s" and "rs_in s = rs_in s0"
        by (auto simp: State_Monad.bind_def State_Monad.get_def State_Monad.return_def dest: frame_same)
      with s sorted [of s] rows [of _ s] stay [of _ s]
      show "(facts_ok ix {} s' \<and> frame s0 s') \<and> sorted_wrt (<) (map rv_identity v)
          \<and> (\<forall>row \<in> set v. removed_row ix row \<and> rv_identity row \<notin> set (rs_in s0))
          \<and> (\<forall>i. map_of (ix_s_removed ix) i \<noteq> None \<and> i \<notin> set (rs_in s0) \<longrightarrow> i \<in> rv_identity ` set v)"
        by (simp only: v) simp
    qed
  qed
qed

end

subsection \<open>Accepted adds are marked as applied\<close>

definition taken :: "rules_state \<Rightarrow> checked_change \<Rightarrow> bool" where
  "taken s a \<longleftrightarrow> cc_id a \<in> set (rs_accepted s) \<and> static_reason s a \<noteq> NamedByLeave"

definition applied_ids :: "rule_index \<Rightarrow> rules_state \<Rightarrow> string set" where
  "applied_ids ix s = {i. \<forall>a \<in> held ix. cc_id a = i \<and> taken s a \<longrightarrow> is_verdict s a Applied RNone}"

definition joined_applied :: "rules_state \<Rightarrow> bool" where
  "joined_applied s \<longleftrightarrow> (\<forall>m a. map_of (rs_joined_by s) m = Some a \<longrightarrow> is_verdict s a Applied RNone)"

lemma applied_ids_mark:
  "inj_on cc_id (held ix) \<Longrightarrow> c \<in> held ix \<Longrightarrow> taken s c \<longrightarrow> status = Applied \<and> reason = RNone \<Longrightarrow>
    insert (cc_id c) (applied_ids ix s)
      \<subseteq> applied_ids ix (s\<lparr>rs_verdicts := Mark c status reason (rs_verdicts s)\<rparr>)"
  by (auto simp: applied_ids_def is_verdict_mark taken_def static_reason_def inj_on_def)

lemma applied_ids_facts [simp]: "applied_ids ix (s\<lparr>rs_facts := f\<rparr>) = applied_ids ix s"
  by (simp add: applied_ids_def taken_def)

lemma stable_joined_applied [simp]: "stable joined_applied"
  by (simp add: stable_def joined_applied_def)

context judging begin

lemma judge_add_applied:
  assumes "KAdd \<in> KS" and a: "a \<in> held ix" "cc_kind a = KAdd"
  shows "holds_after (\<lambda>s. keeping ix (run_inv ix cs X) s \<and> M \<subseteq> applied_ids ix s) (judge_add (Ask ix) ix a)
    (\<lambda>_ s. keeping ix (run_inv ix cs X) s \<and> M \<union> {cc_id a} \<subseteq> applied_ids ix s)"
proof (rule holds_afterI)
  fix s x s'
  assume s: "keeping ix (run_inv ix cs X) s \<and> M \<subseteq> applied_ids ix s"
    and run: "run_state (judge_add (Ask ix) ix a) s = (x, s')"
  have inj: "inj_on cc_id (held ix)" using index_ok by (simp add: index_ok_def)
  have mark: "keeping ix (run_inv ix cs X) s2 \<and> M \<union> {cc_id a} \<subseteq> applied_ids ix s2"
    if "keeping ix (run_inv ix cs X) s1 \<and> M \<subseteq> applied_ids ix s1"
      "s2 = s1\<lparr>rs_verdicts := Mark a status reason (rs_verdicts s1)\<rparr>"
      "taken s1 a \<longrightarrow> status = Applied \<and> reason = RNone" "status \<noteq> Dropped" for s1 s2 status reason
  proof -
    have "insert (cc_id a) (applied_ids ix s1) \<subseteq> applied_ids ix s2"
      using applied_ids_mark [OF inj a(1) that(3)] by (simp add: that(2))
    moreover have "keeping ix (run_inv ix cs X) s2"
      using that X_mark [OF a(1)] a(2) assms(1) held_cs a(1) by (auto simp: run_inv_def facts_ok_def)
    ultimately show ?thesis using that(1) by auto
  qed
  let ?static = "static_reason s a"
  show "keeping ix (run_inv ix cs X) s' \<and> M \<union> {cc_id a} \<subseteq> applied_ids ix s'"
  proof (cases "cc_id a \<in> set (rs_accepted s) \<or> ?static = NamedByRemove \<or> ?static \<noteq> RNone \<and> ?static \<noteq> NamedByLeave")
    case True
    then obtain status reason where "s' = s\<lparr>rs_verdicts := Mark a status reason (rs_verdicts s)\<rparr>"
      and "taken s a \<longrightarrow> status = Applied \<and> reason = RNone" and "status \<noteq> Dropped"
      using run by (auto simp: judge_add_def Let_def taken_def state_defs split: if_splits)
    from mark [OF s this] show ?thesis .
  next
    case False
    let ?rest = "do { reason \<leftarrow> AddEntitlement (Ask ix) ix a; mark a Void (if reason = RNone then GroupFull else reason) }"
    have run': "run_state ?rest s = (x, s')"
      using run False
      by (auto simp: judge_add_def Let_def State_Monad.bind_def State_Monad.get_def split: if_splits)
    have "stable (\<lambda>s. run_inv ix cs X s \<and> M \<subseteq> applied_ids ix s \<and> \<not> taken s a)"
      using stable_X stable_members_inv [of ix] by (simp add: stable_def run_inv_def taken_def)
    then have "holds_after (keeping ix (\<lambda>s. run_inv ix cs X s \<and> M \<subseteq> applied_ids ix s \<and> \<not> taken s a)) ?rest
        (\<lambda>_ s. keeping ix (run_inv ix cs X) s \<and> M \<union> {cc_id a} \<subseteq> applied_ids ix s)"
    proof (rule asks_bind_inv [OF asks_AddEntitlement [OF a(1)]])
      fix v
      show "holds_after (keeping ix (\<lambda>s. run_inv ix cs X s \<and> M \<subseteq> applied_ids ix s \<and> \<not> taken s a))
          (mark a Void (if v = RNone then GroupFull else v))
          (\<lambda>_ s. keeping ix (run_inv ix cs X) s \<and> M \<union> {cc_id a} \<subseteq> applied_ids ix s)"
        unfolding mark_def by (rule holds_after_update, rule mark) auto
    qed
    from holds_afterD [OF this _ run'] s False show ?thesis by (simp add: taken_def)
  qed
qed

lemma JudgeAdds_applied:
  assumes "KAdd \<in> KS"
  shows "holds_after (\<lambda>s. keeping ix (run_inv ix cs X) s \<and> M \<subseteq> marked s) (JudgeAdds (Ask ix) ix)
    (\<lambda>_ s. keeping ix (run_inv ix cs X) s \<and> joined_applied s
      \<and> M \<union> cc_id ` {c \<in> held ix. cc_kind c = KAdd} \<subseteq> marked s)"
proof -
  have adds: "set (ix_adds ix) = {c \<in> held ix. cc_kind c = KAdd}"
    using index_ok by (simp add: index_ok_def)
  have applied: "holds_after (\<lambda>s. keeping ix (run_inv ix cs X) s \<and> {} \<subseteq> applied_ids ix s) (JudgeAdds (Ask ix) ix)
    (\<lambda>_ s. keeping ix (run_inv ix cs X) s \<and> {} \<union> (\<Union>a \<in> set (ix_adds ix). {cc_id a}) \<subseteq> applied_ids ix s)"
    unfolding JudgeAdds_def
    by (rule holds_after_for_m_grows, rule judge_add_applied) (use assms adds in auto)
  have "joined_applied s" if "run_inv ix cs X s" "(\<Union>a \<in> set (ix_adds ix). {cc_id a}) \<subseteq> applied_ids ix s" for s
    unfolding joined_applied_def
  proof (intro allI impI)
    fix m a
    assume "map_of (rs_joined_by s) m = Some a"
    then have a: "may_add ix a" "taken s a"
      using that(1) by (auto simp: run_inv_def members_inv_def taken_def)
    then have "cc_id a \<in> applied_ids ix s" using that(2) adds may_add_held [OF a(1)] by auto
    then show "is_verdict s a Applied RNone" using a may_add_held [OF a(1)] by (auto simp: applied_ids_def)
  qed
  moreover have "holds_after (\<lambda>s. keeping ix (run_inv ix cs X) s \<and> M \<subseteq> marked s) (JudgeAdds (Ask ix) ix)
    (\<lambda>_ s. keeping ix (run_inv ix cs X) s \<and> M \<union> cc_id ` {c \<in> held ix. cc_kind c = KAdd} \<subseteq> marked s)"
    using JudgeAdds [OF assms] unfolding judges_def by blast
  ultimately show ?thesis
    by - (rule holds_after_both [OF applied], assumption, auto)
qed

end

subsection \<open>The run as a whole\<close>

definition no_links :: "rules_state \<Rightarrow> bool" where
  "no_links s \<longleftrightarrow> rs_links s = [] \<and> rs_gone_makers_links s = [] \<and> rs_revoked s = []"

definition final_inv :: "rule_index \<Rightarrow> checked_change list \<Rightarrow> rules_state \<Rightarrow> bool" where
  "final_inv ix cs s \<longleftrightarrow> members_inv ix s \<and> verdicts_ok (ix_statement ix) cs (rs_verdicts s) \<and> joined_applied s
     \<and> (\<exists>best. title_chosen ix best s) \<and> links_inv ix s"

lemma no_links_inv: "no_links s \<Longrightarrow> links_inv ix s"
  by (simp add: no_links_def links_inv_def)

lemma links_inv_start:
  assumes "no_links s"
  shows "links_inv ix (s\<lparr>rs_links := fold (\<lambda>l. om_put (l_link_id l) l) (s_links (ix_statement ix)) (rs_links s)\<rparr>)"
proof -
  let ?s = "s\<lparr>rs_links := fold (\<lambda>l. om_put (l_link_id l) l) (s_links (ix_statement ix)) (rs_links s)\<rparr>"
  have k: "rs_links ?s = keyed l_link_id (s_links (ix_statement ix))"
    and none: "rs_gone_makers_links ?s = []" "rs_revoked ?s = []"
    using assms by (simp_all add: no_links_def keyed_def)
  have "\<forall>i l. map_of (keyed l_link_id (s_links (ix_statement ix))) i = Some l \<longrightarrow>
      l_link_id l = i \<and> l \<in> set (s_links (ix_statement ix))"
    by (intro allI impI keyed_Some)
  then show ?thesis
    unfolding links_inv_def k none by simp
qed

lemma stable_no_links [simp]: "stable no_links"
  by (simp add: stable_def no_links_def)

lemma stable_ex_title [simp]: "stable (\<lambda>s. \<exists>best. title_chosen ix best s)"
  using stable_title_chosen by (simp add: stable_def)

lemma joined_applied_mark:
  assumes "joined_applied s" "members_inv ix s" "inj_on cc_id (held ix)" "c \<in> held ix" "cc_kind c \<noteq> KAdd"
  shows "joined_applied (s\<lparr>rs_verdicts := Mark c status reason (rs_verdicts s)\<rparr>)"
proof -
  have "cc_id c \<noteq> cc_id a" if "map_of (rs_joined_by s) m = Some a" for m a
  proof -
    have "may_add ix a" using that assms(2) by (auto simp: members_inv_def)
    then have "a \<in> held ix" "cc_kind a = KAdd" using may_add_held by auto
    then show ?thesis using assms(3-5) by (auto simp: inj_on_def)
  qed
  then show ?thesis using assms(1) by (auto simp: joined_applied_def is_verdict_mark)
qed

lemma title_chosen_mark:
  assumes "title_chosen ix best s" "inj_on cc_id (held ix)" "c \<in> held ix" "cc_kind c \<noteq> KRename"
  shows "title_chosen ix best (s\<lparr>rs_verdicts := Mark c status reason (rs_verdicts s)\<rparr>)"
proof -
  have "cc_id c \<noteq> cc_id d" if "d \<in> renames_of ix" for d
    using that assms(2-4) by (auto simp: renames_of_def inj_on_def)
  then show ?thesis
    using assms(1) by (auto simp: title_chosen_def is_verdict_mark split: option.splits)
qed

lemma unjudged_mark:
  "unjudged C s \<Longrightarrow> inj_on cc_id (held ix) \<Longrightarrow> C \<subseteq> held ix \<Longrightarrow> c \<in> held ix \<Longrightarrow> c \<notin> C \<Longrightarrow>
    unjudged C (s\<lparr>rs_verdicts := Mark c status reason (rs_verdicts s)\<rparr>)"
  by (auto simp: unjudged_def marked_def inj_on_def dest: subsetD)

lemma other_fields [simp]:
  "joined_applied (s\<lparr>rs_title := t, rs_title_version := n\<rparr>) = joined_applied s"
  "joined_applied (s\<lparr>rs_links := ls\<rparr>) = joined_applied s"
  "joined_applied (s\<lparr>rs_gone_makers_links := ls\<rparr>) = joined_applied s"
  "joined_applied (s\<lparr>rs_revoked := rv\<rparr>) = joined_applied s"
  "title_chosen ix best (s\<lparr>rs_links := ls\<rparr>) = title_chosen ix best s"
  "title_chosen ix best (s\<lparr>rs_gone_makers_links := ls\<rparr>) = title_chosen ix best s"
  "title_chosen ix best (s\<lparr>rs_revoked := rv\<rparr>) = title_chosen ix best s"
  by (simp_all add: joined_applied_def title_chosen_def split: option.splits)

context rules_run begin

lemma judging_adds:
  "held ix \<subseteq> {c \<in> set cs. fate (ix_statement ix) c = None} \<Longrightarrow>
    judging ix cs (\<lambda>s. no_links s \<and> unjudged (renames_of ix) s) {KAdd}"
proof
  show "stable (\<lambda>s. no_links s \<and> unjudged (renames_of ix) s)"
    by (simp add: stable_def no_links_def unjudged_def marked_def)
  fix c s status reason
  assume "c \<in> held ix" "cc_kind c \<in> {KAdd}" "no_links s \<and> unjudged (renames_of ix) s"
  then show "no_links (s\<lparr>rs_verdicts := Mark c status reason (rs_verdicts s)\<rparr>)
      \<and> unjudged (renames_of ix) (s\<lparr>rs_verdicts := Mark c status reason (rs_verdicts s)\<rparr>)"
    using index_ok unjudged_mark [of "renames_of ix" s ix c]
    by (auto simp: no_links_def index_ok_def renames_of_def)
qed

lemma judging_removes:
  "held ix \<subseteq> {c \<in> set cs. fate (ix_statement ix) c = None} \<Longrightarrow>
    judging ix cs (\<lambda>s. (no_links s \<and> unjudged (renames_of ix) s) \<and> joined_applied s) {KRemove, KLeave}"
proof
  show "stable (\<lambda>s. (no_links s \<and> unjudged (renames_of ix) s) \<and> joined_applied s)"
    using stable_joined_applied by (simp add: stable_def no_links_def unjudged_def marked_def)
  fix c s status reason
  assume "c \<in> held ix" "cc_kind c \<in> {KRemove, KLeave}" "members_inv ix s"
    "(no_links s \<and> unjudged (renames_of ix) s) \<and> joined_applied s"
  then show "(no_links (s\<lparr>rs_verdicts := Mark c status reason (rs_verdicts s)\<rparr>)
      \<and> unjudged (renames_of ix) (s\<lparr>rs_verdicts := Mark c status reason (rs_verdicts s)\<rparr>))
      \<and> joined_applied (s\<lparr>rs_verdicts := Mark c status reason (rs_verdicts s)\<rparr>)"
    using index_ok unjudged_mark [of "renames_of ix" s ix c] joined_applied_mark [of s ix c]
    by (auto simp: no_links_def index_ok_def renames_of_def)
qed

lemma judging_renames:
  "held ix \<subseteq> {c \<in> set cs. fate (ix_statement ix) c = None} \<Longrightarrow> judging ix cs (\<lambda>s. no_links s \<and> joined_applied s) {KRename}"
proof
  show "stable (\<lambda>s. no_links s \<and> joined_applied s)"
    using stable_joined_applied by (simp add: stable_def no_links_def)
  fix c s status reason
  assume "c \<in> held ix" "cc_kind c \<in> {KRename}" "members_inv ix s" "no_links s \<and> joined_applied s"
  then show "no_links (s\<lparr>rs_verdicts := Mark c status reason (rs_verdicts s)\<rparr>)
      \<and> joined_applied (s\<lparr>rs_verdicts := Mark c status reason (rs_verdicts s)\<rparr>)"
    using index_ok joined_applied_mark [of s ix c] by (auto simp: no_links_def index_ok_def)
qed

lemma judging_the_links:
  "held ix \<subseteq> {c \<in> set cs. fate (ix_statement ix) c = None} \<Longrightarrow>
    judging_links ix cs (\<lambda>s. links_inv ix s \<and> joined_applied s \<and> (\<exists>best. title_chosen ix best s)) {KLinkAdd, KLinkRevoke}"
proof
  show "stable (\<lambda>s. links_inv ix s \<and> joined_applied s \<and> (\<exists>best. title_chosen ix best s))"
    by (intro stable_conj) simp_all
  fix c s status reason
  assume c: "c \<in> held ix" "cc_kind c \<in> {KLinkAdd, KLinkRevoke}" and m: "members_inv ix s"
    and X: "links_inv ix s \<and> joined_applied s \<and> (\<exists>best. title_chosen ix best s)"
  have inj: "inj_on cc_id (held ix)" using index_ok by (simp add: index_ok_def)
  obtain best where "title_chosen ix best s" using X by blast
  then have "title_chosen ix best (s\<lparr>rs_verdicts := Mark c status reason (rs_verdicts s)\<rparr>)"
    by (rule title_chosen_mark) (use inj c in auto)
  moreover have "joined_applied (s\<lparr>rs_verdicts := Mark c status reason (rs_verdicts s)\<rparr>)"
    by (rule joined_applied_mark) (use X m inj c in auto)
  ultimately show "links_inv ix (s\<lparr>rs_verdicts := Mark c status reason (rs_verdicts s)\<rparr>)
      \<and> joined_applied (s\<lparr>rs_verdicts := Mark c status reason (rs_verdicts s)\<rparr>)
      \<and> (\<exists>best. title_chosen ix best (s\<lparr>rs_verdicts := Mark c status reason (rs_verdicts s)\<rparr>))"
    using X by auto
qed simp_all

end

lemma held_collapsed:
  "held (run_index s now (Collapse cs))
    \<subseteq> {c \<in> set (Collapse cs). fate (ix_statement (run_index s now (Collapse cs))) c = None}"
  using held_run_index [OF Collapse_distinct] by (simp add: run_index_def rules_start_def)

interpretation judging_of_adds: judging "run_index s now (Collapse cs)" "Collapse cs"
    "\<lambda>t. no_links t \<and> unjudged (renames_of (run_index s now (Collapse cs))) t" "{KAdd}" for s now cs
  by (rule run.judging_adds) (rule held_collapsed)

interpretation judging_of_links: judging_links "run_index s now (Collapse cs)" "Collapse cs"
    "\<lambda>t. links_inv (run_index s now (Collapse cs)) t \<and> joined_applied t
       \<and> (\<exists>best. title_chosen (run_index s now (Collapse cs)) best t)" "{KLinkAdd, KLinkRevoke}" for s now cs
  by (rule run.judging_the_links) (rule held_collapsed)

context rules_run begin

text \<open>All stages, from a state where the statement's members are still to be put in.\<close>

lemma judge_all:
  assumes cs: "held ix \<subseteq> {c \<in> set cs. fate (ix_statement ix) c = None}" and vs: "verdicts_ok (ix_statement ix) cs vs" "\<And>c. c \<in> held ix \<Longrightarrow> cc_id c \<notin> dom (map_of vs)"
  shows "holds_after (\<lambda>s. facts_ok ix {} s \<and> standing_inv ix s \<and> rs_verdicts s = vs \<and> no_links s)
    (judge_all (Ask ix) ix)
    (\<lambda>_ s. facts_ok ix {} s \<and> final_inv ix cs s \<and> dom (map_of vs) \<union> cc_id ` held ix \<subseteq> marked s)"
proof -
  let ?ids = "\<lambda>k. cc_id ` {c \<in> held ix. cc_kind c = k}"
  let ?M0 = "dom (map_of vs)"
  let ?X0 = "\<lambda>s. no_links s \<and> unjudged (renames_of ix) s"
  let ?X1 = "\<lambda>s. ?X0 s \<and> joined_applied s"
  let ?X2 = "\<lambda>s. no_links s \<and> joined_applied s"
  let ?X3 = "\<lambda>s. links_inv ix s \<and> joined_applied s \<and> (\<exists>best. title_chosen ix best s)"
  have "holds_after (\<lambda>s. rs_verdicts s = vs \<and> no_links s) (RunAdds (Ask ix) ix) (\<lambda>_ s. rs_verdicts s = vs \<and> no_links s)"
  proof (rule holds_afterI)
    fix s a s'
    assume "rs_verdicts s = vs \<and> no_links s" "run_state (RunAdds (Ask ix) ix) s = (a, s')"
    then show "rs_verdicts s' = vs \<and> no_links s'"
      using RunAdds_outer [of ix s] by (simp add: outer_def no_links_def)
  qed
  with RunAdds have adds: "holds_after (\<lambda>s. facts_ok ix {} s \<and> standing_inv ix s \<and> rs_verdicts s = vs \<and> no_links s)
      (RunAdds (Ask ix) ix) (\<lambda>_ s. keeping ix (run_inv ix cs ?X0) s \<and> ?M0 \<subseteq> marked s)"
    by (rule holds_after_both)
      (use vs in \<open>auto simp: run_inv_def unjudged_def marked_def renames_of_def\<close>)
  have s1: "holds_after (\<lambda>s. keeping ix (run_inv ix cs ?X0) s \<and> ?M0 \<subseteq> marked s) (JudgeAdds (Ask ix) ix)
      (\<lambda>_ s. keeping ix (run_inv ix cs ?X1) s \<and> ?M0 \<union> ?ids KAdd \<subseteq> marked s)"
    by (rule holds_after_weaken [OF judging.JudgeAdds_applied [OF judging_adds [OF cs]]])
      (auto simp: run_inv_def)
  let ?M1 = "?M0 \<union> ?ids KAdd"
  have s2: "holds_after (\<lambda>s. keeping ix (run_inv ix cs ?X1) s \<and> ?M1 \<subseteq> marked s) (JudgeRemovesAndLeaves (Ask ix) ix)
      (\<lambda>_ s. keeping ix (run_inv ix cs ?X1) s \<and> ?M1 \<union> (?ids KRemove \<union> ?ids KLeave) \<subseteq> marked s)"
    using judging.JudgeRemovesAndLeaves [OF judging_removes [OF cs]] unfolding judges_def by blast
  let ?M2 = "?M1 \<union> (?ids KRemove \<union> ?ids KLeave)"
  have "holds_after (keeping ix (\<lambda>s. run_inv ix cs ?X2 s \<and> unjudged (renames_of ix) s \<and> ?M2 \<subseteq> marked s))
      (JudgeRenames (Ask ix) ix)
      (\<lambda>_. keeping ix (\<lambda>s. run_inv ix cs ?X2 s \<and> (\<exists>best. title_chosen ix best s)
         \<and> ?M2 \<union> cc_id ` renames_of ix \<subseteq> marked s))"
    by (rule judging.JudgeRenames_chosen [OF judging_renames [OF cs]]) (simp_all add: no_links_def)
  then have s3: "holds_after (\<lambda>s. keeping ix (run_inv ix cs ?X1) s \<and> ?M2 \<subseteq> marked s) (JudgeRenames (Ask ix) ix)
      (\<lambda>_ s. keeping ix (run_inv ix cs ?X3) s \<and> no_links s \<and> ?M2 \<union> ?ids KRename \<subseteq> marked s)"
    by (rule holds_after_weaken) (simp_all add: run_inv_def renames_of_def no_links_inv)
  let ?M3 = "?M2 \<union> ?ids KRename"
  let ?put = "\<lambda>s. s\<lparr>rs_links := fold (\<lambda>l. om_put (l_link_id l) l) (s_links (ix_statement ix)) (rs_links s)\<rparr>"
  have put: "holds_after (\<lambda>s. keeping ix (run_inv ix cs ?X3) s \<and> no_links s \<and> ?M3 \<subseteq> marked s) (State_Monad.update ?put)
      (\<lambda>_ s. keeping ix (run_inv ix cs ?X3) s \<and> ?M3 \<subseteq> marked s)"
  proof (rule holds_after_update)
    fix s
    assume s: "keeping ix (run_inv ix cs ?X3) s \<and> no_links s \<and> ?M3 \<subseteq> marked s"
    have "links_inv ix (?put s)" using s by (intro links_inv_start) simp
    with s show "keeping ix (run_inv ix cs ?X3) (?put s) \<and> ?M3 \<subseteq> marked (?put s)"
      by (auto simp: run_inv_def facts_ok_def marked_def)
  qed
  have s4: "holds_after (\<lambda>s. keeping ix (run_inv ix cs ?X3) s \<and> no_links s \<and> ?M3 \<subseteq> marked s) (JudgeLinks (Ask ix) ix)
      (\<lambda>_ s. keeping ix (run_inv ix cs ?X3) s \<and> ?M3 \<union> (?ids KLinkAdd \<union> ?ids KLinkRevoke) \<subseteq> marked s)"
    by (rule judging_links.JudgeLinks [where M = ?M3, OF judging_the_links [OF cs] put])
  have all: "cc_id ` held ix \<subseteq> ?M3 \<union> (?ids KLinkAdd \<union> ?ids KLinkRevoke)"
  proof
    fix i
    assume "i \<in> cc_id ` held ix"
    then obtain c where "c \<in> held ix" "cc_id c = i" by auto
    then show "i \<in> ?M3 \<union> (?ids KLinkAdd \<union> ?ids KLinkRevoke)" by (cases "cc_kind c") auto
  qed
  have "holds_after (\<lambda>s. facts_ok ix {} s \<and> standing_inv ix s \<and> rs_verdicts s = vs \<and> no_links s)
      (judge_all (Ask ix) ix)
      (\<lambda>_ s. keeping ix (run_inv ix cs ?X3) s \<and> ?M3 \<union> (?ids KLinkAdd \<union> ?ids KLinkRevoke) \<subseteq> marked s)"
    unfolding judge_all_def
    by (intro holds_after_bind [OF adds] holds_after_bind [OF s1] holds_after_bind [OF s2] holds_after_bind [OF s3] s4)
  then show ?thesis
  proof (rule holds_after_weaken)
    fix s
    assume s: "keeping ix (run_inv ix cs ?X3) s \<and> ?M3 \<union> (?ids KLinkAdd \<union> ?ids KLinkRevoke) \<subseteq> marked s"
    then have sub: "?M3 \<union> (?ids KLinkAdd \<union> ?ids KLinkRevoke) \<subseteq> marked s" by (rule conjunct2)
    then have "dom (map_of vs) \<subseteq> marked s" by (simp only: Un_subset_iff)
    with order.trans [OF all sub] have "dom (map_of vs) \<union> cc_id ` held ix \<subseteq> marked s"
      by (simp only: Un_subset_iff)
    with s show "facts_ok ix {} s \<and> final_inv ix cs s \<and> dom (map_of vs) \<union> cc_id ` held ix \<subseteq> marked s"
      by (simp only: run_inv_def final_inv_def)
  qed
qed

end

subsection \<open>The view\<close>

lemma asks_value:
  assumes "asks ix m Q" "facts_ok ix {} s" and run: "run_state m s = (v, s')"
  shows "Q s v"
proof -
  from assms(1) have "holds_after (\<lambda>t. facts_ok ix {} t \<and> frame s t) m (\<lambda>v t. (facts_ok ix {} t \<and> frame s t) \<and> Q s v)"
    by (simp add: asks_def)
  from holds_afterD [OF this _ run] assms(2) show ?thesis by simp
qed

lemma start_facts: "facts_ok ix {} (start_state vs)"
  by (simp add: facts_ok_def start_state_def)

lemma start_standing: "standing_inv ix (start_state vs)"
  by (simp add: standing_inv_def start_state_def)

lemma run_index_same [simp]:
  "ix_statement (run_index s now cs) = s" "ix_now (run_index s now cs) = now"
  "ix_s_members (run_index s now cs) = keyed sm_identity (s_members s)"
  "ix_s_removed (run_index s now cs) = keyed rv_identity (s_removed s)"
  by (simp_all add: run_index_def rules_start_def)

lemma rules_start_same: "ix_statement (rules_start s now k) = s"
  by (simp add: rules_start_def)

lemma removed_map_start: "removed_map (run_index s now cs) (ix_s_removed (run_index s now cs))"
  unfolding removed_map_def removed_row_def by (auto dest: keyed_Some)

definition rows_ok :: "rule_index \<Rightarrow> rules_state \<Rightarrow> removed_member list \<Rightarrow> bool" where
  "rows_ok ix s rows \<longleftrightarrow> sorted_wrt (<) (map rv_identity rows)
     \<and> (\<forall>row \<in> set rows. removed_row ix row \<and> rv_identity row \<notin> set (rs_in s))
     \<and> (\<forall>i. map_of (ix_s_removed ix) i \<noteq> None \<and> i \<notin> set (rs_in s) \<longrightarrow> i \<in> rv_identity ` set rows)"

definition base_view :: "statement \<Rightarrow> rules_state \<Rightarrow> roster_view" where
  "base_view st f = \<lparr>w_group_id = s_group_id st, w_statement_epoch = s_roster_epoch st,
     w_owner = s_owner st, w_preset = s_preset st, w_dissolved = s_dissolved st,
     w_members = [], w_removed = [], w_links = [], w_ended_links = [],
     w_title = rs_title f, w_title_version = rs_title_version f, w_verdicts = map snd (rs_verdicts f)\<rparr>"

text \<open>All stages of the run that \<open>Run\<close> makes, from its start.\<close>

lemma judged:
  assumes ids: "distinct (map cc_id cs)"
    and f: "run_state (judge_all (Ask (run_index st now cs)) (run_index st now cs))
      (start_state (k_verdicts (Classify st cs))) = (u, f)"
  shows "facts_ok (run_index st now cs) {} f" and "final_inv (run_index st now cs) cs f"
    and "dom (map_of (k_verdicts (Classify st cs))) \<union> cc_id ` held (run_index st now cs) \<subseteq> marked f"
proof -
  let ?ix = "run_index st now cs"
  let ?vs = "k_verdicts (Classify st cs)"
  have held: "held ?ix = {c \<in> set cs. fate st c = None}" by (rule held_run_index [OF ids])
  have vs: "verdicts_ok (ix_statement ?ix) cs ?vs"
    using Classify_spec(1,3) [OF ids, of st] unfolding verdicts_ok_def
    by (auto simp: verdict_on_def)
  have apart: "cc_id c \<notin> dom (map_of ?vs)" if "c \<in> held ?ix" for c
  proof
    assume "cc_id c \<in> dom (map_of ?vs)"
    then obtain v where "map_of ?vs (cc_id c) = Some v" by blast
    then obtain d where "d \<in> set cs" "cc_id d = cc_id c" "fate st d \<noteq> None"
      using Classify_spec(3) [OF ids, of st] by auto
    moreover have "d = c" using \<open>d \<in> set cs\<close> \<open>cc_id d = cc_id c\<close> that held ids
      by (auto simp: distinct_map inj_on_def)
    ultimately show False using that held by simp
  qed
  have "held ?ix \<subseteq> {c \<in> set cs. fate (ix_statement ?ix) c = None}" using held by simp
  from holds_afterD [OF run.judge_all [OF this vs apart] _ f] start_facts start_standing
  show "facts_ok ?ix {} f" "final_inv ?ix cs f" "dom (map_of ?vs) \<union> cc_id ` held ?ix \<subseteq> marked f"
    by (auto simp: start_state_def no_links_def)
qed

lemma Run_view:
  assumes ids: "distinct (map cc_id cs)" and alive: "\<not> s_dissolved st"
  obtains f rows where "final_inv (run_index st now cs) cs f" and "marked f = cc_id ` set cs"
    and "rows_ok (run_index st now cs) f rows"
    and "Run st now cs = LinkRows (run_index st now cs) f
      ((base_view st f)\<lparr>w_members := map (MemberRow (run_index st now cs) f) (rs_in f), w_removed := rows\<rparr>)"
    and "\<not> rf_exhausted (rs_facts f)"
proof -
  let ?ix = "run_index st now cs"
  let ?vs = "k_verdicts (Classify st cs)"
  have held: "held ?ix = {c \<in> set cs. fate st c = None}" by (rule held_run_index [OF ids])
  obtain u f where f: "run_state (judge_all (Ask ?ix) ?ix) (start_state ?vs) = (u, f)"
    by (metis prod.exhaust)
  note ok = judged [OF ids f]
  have "marked f \<subseteq> cc_id ` set cs"
    using ok(2) by (force simp: final_inv_def verdicts_ok_def marked_def)
  moreover have "cc_id ` set cs \<subseteq> dom (map_of ?vs) \<union> cc_id ` held ?ix"
  proof
    fix i
    assume "i \<in> cc_id ` set cs"
    then obtain c where c: "c \<in> set cs" "cc_id c = i" by auto
    show "i \<in> dom (map_of ?vs) \<union> cc_id ` held ?ix"
    proof (cases "fate st c")
      case None
      then show ?thesis using c held by auto
    next
      case (Some p)
      then show ?thesis using c Classify_spec(3) [OF ids, of st i] by (cases p) blast
    qed
  qed
  ultimately have marked: "marked f = cc_id ` set cs" using ok(3) by blast
  obtain rows g where rows: "run_state (RemovedRows (Ask ?ix) ?ix) f = (rows, g)" by fastforce
  have "rows_ok ?ix f rows"
    using asks_value [OF run.asks_RemovedRows [OF removed_map_start] ok(1) rows] unfolding rows_ok_def .
  moreover have "Run st now cs = LinkRows ?ix f
      ((base_view st f)\<lparr>w_members := map (MemberRow ?ix f) (rs_in f), w_removed := rows\<rparr>)"
    using f rows alive
    by (simp add: Run_def Let_def Build_def run_index_def [symmetric] base_view_def rules_start_same
        State_Monad.bind_def State_Monad.get_def State_Monad.return_def)
  moreover have "\<not> rf_exhausted (rs_facts f)" using ok(1) by (simp add: facts_ok_def)
  ultimately show ?thesis using that ok(2) marked by blast
qed

end
