(* ===== verification/RosterClaims.thy ===== *)
theory RosterClaims
  imports RosterView
begin

section \<open>The computed roster: its properties\<close>

text \<open>
  The properties of \<open>ComputeRosterChecked\<close> (\<open>GroupRosterRules.cpp\<close>), each a few steps from
  \<open>Run_view\<close>. They speak of the index of the run, \<open>roster_index\<close>, and of the justifications
  \<open>may_add\<close>, \<open>may_remove\<close> and \<open>may_leave\<close>: chains of changes rooted in the statement.
\<close>

definition roster_index :: "statement \<Rightarrow> checked_change list \<Rightarrow> time_ms \<Rightarrow> rule_index" where
  "roster_index st changes now = run_index st now (Collapse changes)"

lemma roster_index_same [simp]:
  "ix_statement (roster_index st cs now) = st" "ix_now (roster_index st cs now) = now"
  "ix_s_members (roster_index st cs now) = keyed sm_identity (s_members st)"
  "ix_s_removed (roster_index st cs now) = keyed rv_identity (s_removed st)"
  by (simp_all add: roster_index_def)

text \<open>The final state \<open>f\<close> of the run on a group that lives, and the rows of its removed list.\<close>

definition roster_run :: "statement \<Rightarrow> checked_change list \<Rightarrow> time_ms \<Rightarrow> rules_state \<Rightarrow> removed_member list \<Rightarrow> bool" where
  "roster_run st cs now f rows \<longleftrightarrow> final_inv (roster_index st cs now) (Collapse cs) f
     \<and> marked f = cc_id ` set (Collapse cs) \<and> rows_ok (roster_index st cs now) f rows
     \<and> ComputeRosterChecked st cs now = LinkRows (roster_index st cs now) f
      ((base_view st f)\<lparr>w_members := map (MemberRow (roster_index st cs now) f) (rs_in f), w_removed := rows\<rparr>)"

lemma roster_run:
  assumes "\<not> s_dissolved st"
  shows "\<exists>f rows. roster_run st cs now f rows"
  unfolding roster_run_def roster_index_def ComputeRosterChecked_def
  by (rule Run_view [OF Collapse_distinct [of cs] assms, of now]) (intro exI conjI; assumption)

lemma LinkRows_same [simp]:
  "w_members (LinkRows ix s v) = w_members v" "w_removed (LinkRows ix s v) = w_removed v"
  "w_title (LinkRows ix s v) = w_title v" "w_title_version (LinkRows ix s v) = w_title_version v"
  "w_verdicts (LinkRows ix s v) = w_verdicts v" "w_group_id (LinkRows ix s v) = w_group_id v"
  "w_statement_epoch (LinkRows ix s v) = w_statement_epoch v" "w_owner (LinkRows ix s v) = w_owner v"
  "w_preset (LinkRows ix s v) = w_preset v" "w_dissolved (LinkRows ix s v) = w_dissolved v"
  by (simp_all add: LinkRows_def)

lemma base_view_same [simp]:
  "w_title (base_view st f) = rs_title f" "w_title_version (base_view st f) = rs_title_version f"
  "w_verdicts (base_view st f) = map snd (rs_verdicts f)"
  "w_group_id (base_view st f) = s_group_id st" "w_statement_epoch (base_view st f) = s_roster_epoch st"
  "w_owner (base_view st f) = s_owner st" "w_preset (base_view st f) = s_preset st"
  "w_dissolved (base_view st f) = s_dissolved st"
  by (simp_all add: base_view_def)

lemma roster_run_view:
  assumes "roster_run st cs now f rows"
  shows "w_members (ComputeRosterChecked st cs now) = map (MemberRow (roster_index st cs now) f) (rs_in f)"
    and "w_removed (ComputeRosterChecked st cs now) = rows"
    and "w_title (ComputeRosterChecked st cs now) = rs_title f"
    and "w_title_version (ComputeRosterChecked st cs now) = rs_title_version f"
    and "w_verdicts (ComputeRosterChecked st cs now) = map snd (rs_verdicts f)"
  using assms by (simp_all add: roster_run_def)

lemma roster_run_invs:
  assumes "roster_run st cs now f rows"
  shows "final_inv (roster_index st cs now) (Collapse cs) f" and "rows_ok (roster_index st cs now) f rows"
    and "members_inv (roster_index st cs now) f" and "verdicts_ok st (Collapse cs) (rs_verdicts f)"
    and "joined_applied f" and "links_inv (roster_index st cs now) f" and "marked f = cc_id ` set (Collapse cs)"
    and "\<exists>best. title_chosen (roster_index st cs now) best f"
  using assms by (simp_all add: roster_run_def final_inv_def)

lemma verdict_id: "verdicts_ok st cs vs \<Longrightarrow> map_of vs i = Some v \<Longrightarrow> v_id v = i"
  unfolding verdicts_ok_def by (metis change_verdict.select_convs(1) verdict_on_def)

lemma MemberRow_identity [simp]: "vm_identity (MemberRow ix s m) = m"
  by (simp add: MemberRow_def split: option.splits)

lemma dissolved_view:
  assumes "s_dissolved st"
  shows "ComputeRosterChecked st cs now = \<lparr>w_group_id = s_group_id st, w_statement_epoch = s_roster_epoch st,
       w_owner = s_owner st, w_preset = s_preset st, w_dissolved = True,
       w_members = [], w_removed = [], w_links = [], w_ended_links = [], w_title = s_title st,
       w_title_version = s_title_version st,
       w_verdicts = map snd (k_verdicts (Classify st (Collapse cs)))\<rparr>"
  using assms by (simp add: ComputeRosterChecked_def Run_def Let_def Build_def rules_start_same
      start_state_def State_Monad.bind_def State_Monad.get_def State_Monad.return_def)

subsection \<open>Changes to apply the properties to\<close>

definition sample_checked :: "string \<Rightarrow> string \<Rightarrow> group_change_kind \<Rightarrow> string \<Rightarrow> checked_change" where
  "sample_checked i signer kind member =
     \<lparr>cc_change = sample_remove\<lparr>c_signer := signer, c_kind := kind, c_member := member, c_signer_card := None\<rparr>,
       cc_id = i, cc_proof = Proved, cc_device_current = True\<rparr>"

definition sample_add :: checked_change where
  "sample_add = sample_checked ''1'' ''a'' KAdd ''e''"

definition sample_removal :: checked_change where
  "sample_removal = sample_checked ''2'' ''b'' KRemove ''d''"

definition sample_rename :: checked_change where
  "sample_rename = (sample_checked ''3'' ''b'' KRename [])\<lparr>cc_change :=
     (cc_change (sample_checked ''3'' ''b'' KRename []))\<lparr>c_title := ''u'', c_title_version := 7\<rparr>\<rparr>"

definition sample_link :: checked_change where
  "sample_link = (sample_checked ''4'' ''b'' KLinkAdd [])\<lparr>cc_change :=
     (cc_change (sample_checked ''4'' ''b'' KLinkAdd []))\<lparr>c_link_id := ''l'', c_expires_at := 99\<rparr>\<rparr>"

lemma sample_alive: "\<not> s_dissolved sample_statement"
  by (simp add: sample_statement_def empty_statement_def)

subsection \<open>Who is in\<close>

lemma view_member_cases:
  assumes "\<not> s_dissolved st" and "m \<in> set (w_members (ComputeRosterChecked st cs now))"
  shows "(\<exists>sm \<in> set (s_members st). m = \<lparr>vm_identity = sm_identity sm, vm_role = sm_role sm,
       vm_joined_at = sm_joined_at sm, vm_added_by = sm_added_by sm, vm_added_in = []\<rparr>)
    \<or> (\<exists>a v. may_add (roster_index st cs now) a
         \<and> m = \<lparr>vm_identity = cc_member a, vm_role = Member, vm_joined_at = c_at (cc_change a),
              vm_added_by = cc_signer a, vm_added_in = cc_id a\<rparr>
         \<and> v \<in> set (w_verdicts (ComputeRosterChecked st cs now)) \<and> v_id v = cc_id a \<and> v_status v = Applied)"
proof -
  let ?ix = "roster_index st cs now"
  obtain f rows where run: "roster_run st cs now f rows" using roster_run [OF assms(1)] by blast
  note f = roster_run_invs [OF run] and view = roster_run_view [OF run]
  obtain i where i: "i \<in> set (rs_in f)" and m: "m = MemberRow ?ix f i"
    using assms(2) by (auto simp: view)
  show ?thesis
  proof (cases "map_of (rs_joined_by f) i")
    case None
    then have "map_of (keyed sm_identity (s_members st)) i \<noteq> None"
      using f(3) i by (auto simp: members_inv_def InStatement_def)
    then obtain sm where "map_of (keyed sm_identity (s_members st)) i = Some sm" by blast
    with keyed_Some [OF this] None show ?thesis by (auto simp: m MemberRow_def)
  next
    case (Some a)
    then have a: "may_add ?ix a" "cc_member a = i" and "is_verdict f a Applied RNone"
      using f(3,5) by (auto simp: members_inv_def joined_applied_def)
    then obtain v where v: "map_of (rs_verdicts f) (cc_id a) = Some v" "v_status v = Applied"
      by (auto simp: is_verdict_def)
    have "v_id v = cc_id a" by (rule verdict_id [OF f(4) v(1)])
    moreover have "v \<in> set (map snd (rs_verdicts f))" using map_of_SomeD [OF v(1)] by force
    ultimately show ?thesis using a v Some by (auto simp: m MemberRow_def view)
  qed
qed

text \<open>
  C1: nobody gets into the roster by themselves. Every member of the computed roster is listed in
  the owner's statement, with the role, date and inviter it gives; or was brought in, as a plain
  member, by an add that counts: one whose signer may invite (or re-admit) under the statement and
  is itself in by the statement or by such an add, or one that a justified removal of its signer
  keeps.
\<close>

theorem membership_sound:
  assumes "m \<in> set (w_members (ComputeRosterChecked st cs now))"
  shows "(\<exists>sm \<in> set (s_members st). m = \<lparr>vm_identity = sm_identity sm, vm_role = sm_role sm,
       vm_joined_at = sm_joined_at sm, vm_added_by = sm_added_by sm, vm_added_in = []\<rparr>)
    \<or> (\<exists>a v. may_add (roster_index st cs now) a
         \<and> m = \<lparr>vm_identity = cc_member a, vm_role = Member, vm_joined_at = c_at (cc_change a),
              vm_added_by = cc_signer a, vm_added_in = cc_id a\<rparr>
         \<and> v \<in> set (w_verdicts (ComputeRosterChecked st cs now)) \<and> v_id v = cc_id a \<and> v_status v = Applied)"
proof (cases "s_dissolved st")
  case True
  with assms show ?thesis by (simp add: dissolved_view)
next
  case False
  then show ?thesis using assms by (rule view_member_cases)
qed

text \<open>
  The roster is sorted by account without repetition, and it never exceeds fifty members unless
  the owner's statement itself lists more (R5).
\<close>

theorem roster_bounded:
  "sorted_wrt (<) (map vm_identity (w_members (ComputeRosterChecked st cs now)))
    \<and> length (w_members (ComputeRosterChecked st cs now)) \<le> max kMaxGroupMembers (length (s_members st))"
proof (cases "s_dissolved st")
  case True
  then show ?thesis by (simp add: dissolved_view)
next
  case False
  then obtain f rows where run: "roster_run st cs now f rows" using roster_run by blast
  note f = roster_run_invs(3) [OF run] and view = roster_run_view(1) [OF run]
  have "map vm_identity (map (MemberRow (roster_index st cs now) f) (rs_in f)) = rs_in f"
    by (simp add: comp_def)
  moreover have "length (rs_in f) \<le> max kMaxGroupMembers (length (s_members st))"
    using f length_keyed_le [of sm_identity "s_members st"] by (auto simp: members_inv_def)
  ultimately show ?thesis using f by (simp add: view members_inv_def)
qed

lemma stay_row:
  assumes wf: "statement_wf st" and alive: "\<not> s_dissolved st" and sm: "sm \<in> set (s_members st)"
    and who: "sm_role sm = Owner \<or> undisturbed (roster_index st cs now) (sm_identity sm)"
  shows "\<lparr>vm_identity = sm_identity sm, vm_role = sm_role sm, vm_joined_at = sm_joined_at sm,
      vm_added_by = sm_added_by sm, vm_added_in = []\<rparr> \<in> set (w_members (ComputeRosterChecked st cs now))"
proof -
  let ?ix = "roster_index st cs now"
  obtain f rows where run: "roster_run st cs now f rows" using roster_run [OF alive] by blast
  note f = roster_run_invs(3) [OF run] and view = roster_run_view(1) [OF run]
  have row: "map_of (ix_s_members ?ix) (sm_identity sm) = Some sm"
    using wf sm by (simp add: keyed_distinct statement_wf_def AllUnique_def)
  have "undisturbed ?ix (sm_identity sm)" if "sm_role sm = Owner"
  proof -
    have "sm_identity sm = s_owner st" using wf sm that by (auto simp: statement_wf_def)
    moreover have "StatementRole ?ix (sm_identity sm) = Owner" using row that by (simp add: StatementRole_def)
    ultimately show ?thesis
      using row may_remove_not_owner [of ?ix]
      by (auto simp: undisturbed_def InStatement_def removable_def may_leave_def)
  qed
  then have "undisturbed ?ix (sm_identity sm)" using who by blast
  then have "sm_identity sm \<in> set (rs_in f)" "map_of (rs_joined_by f) (sm_identity sm) = None"
    using f by (simp_all add: members_inv_def)
  then show ?thesis using row by (force simp: view MemberRow_def)
qed

text \<open>
  C29: a member of the statement whose removal nothing justifies and who has not left stays in the
  roster, with the row the statement gives; and the owner always is in, as owner, whatever changes
  arrive.
\<close>

theorem statement_members_stay:
  assumes wf: "statement_wf st" and alive: "\<not> s_dissolved st" and sm: "sm \<in> set (s_members st)"
    and who: "sm_role sm = Owner \<or> undisturbed (roster_index st cs now) (sm_identity sm)"
  shows "\<lparr>vm_identity = sm_identity sm, vm_role = sm_role sm, vm_joined_at = sm_joined_at sm,
      vm_added_by = sm_added_by sm, vm_added_in = []\<rparr> \<in> set (w_members (ComputeRosterChecked st cs now))"
  by (rule stay_row [OF assms])

subsection \<open>What is said of each change\<close>

lemma Collapse_id_set: "cc_id ` set (Collapse cs) = cc_id ` set cs"
proof
  show "cc_id ` set (Collapse cs) \<subseteq> cc_id ` set cs" by (rule image_mono [OF Collapse_subset])
  show "cc_id ` set cs \<subseteq> cc_id ` set (Collapse cs)"
  proof
    fix i
    assume "i \<in> cc_id ` set cs"
    then obtain c where "c \<in> set cs" "i = cc_id c" by auto
    then show "i \<in> cc_id ` set (Collapse cs)" using Collapse_covers [of c cs] by (metis image_eqI)
  qed
qed

lemma roster_verdicts:
  "\<exists>vs. w_verdicts (ComputeRosterChecked st cs now) = map snd vs \<and> verdicts_ok st (Collapse cs) vs
     \<and> dom (map_of vs) = cc_id ` set cs"
proof (cases "s_dissolved st")
  case True
  let ?vs = "k_verdicts (Classify st (Collapse cs))"
  have gone: "fate st c \<noteq> None" for c using True by (simp add: fate_def)
  note spec = Classify_spec [OF Collapse_distinct [of cs], of st]
  have "verdicts_ok st (Collapse cs) ?vs"
    using spec(1,3) unfolding verdicts_ok_def by (auto simp: verdict_on_def)
  moreover have "dom (map_of ?vs) = cc_id ` set (Collapse cs)"
  proof (rule set_eqI)
    fix i
    show "i \<in> dom (map_of ?vs) \<longleftrightarrow> i \<in> cc_id ` set (Collapse cs)"
      using spec(3) [of i] gone by (fastforce simp: domIff)
  qed
  ultimately show ?thesis using True by (auto simp: dissolved_view Collapse_id_set)
next
  case False
  then obtain f rows where run: "roster_run st cs now f rows" using roster_run by blast
  show ?thesis
    using roster_run_view(5) [OF run] roster_run_invs(4,7) [OF run] by (auto simp: marked_def Collapse_id_set)
qed

text \<open>
  C37: every change gets exactly one verdict, in id order; the verdict repeats the change's own
  kind, signer and epoch; it is the one the sorting-in gives when the change is not even held (wrong
  group, folded, too old, malformed, badly signed, no card), and a held change is never dropped.
\<close>

theorem verdicts_complete:
  "map v_id (w_verdicts (ComputeRosterChecked st cs now)) = sorted_list_of_set (cc_id ` set cs)
    \<and> (\<forall>v \<in> set (w_verdicts (ComputeRosterChecked st cs now)). \<exists>c \<in> set (Collapse cs).
         v = verdict_on c (v_status v) (v_reason v)
         \<and> (case fate st c of Some p \<Rightarrow> p = (v_status v, v_reason v) | None \<Rightarrow> v_status v \<noteq> Dropped))"
proof -
  obtain vs where view: "w_verdicts (ComputeRosterChecked st cs now) = map snd vs"
    and vs: "verdicts_ok st (Collapse cs) vs" and ids: "dom (map_of vs) = cc_id ` set cs"
    using roster_verdicts by blast
  have ok: "om_ok vs" using vs by (simp add: verdicts_ok_def)
  have key: "v_id v = i" if "(i, v) \<in> set vs" for i v
    using verdict_id [OF vs] that ok by (simp add: map_of_mem_iff)
  have "map (v_id \<circ> snd) vs = map fst vs" by (rule map_cong) (use key in auto)
  moreover have "sorted_wrt (<) (map fst vs)" using ok by (simp add: om_ok_def)
  moreover have "set (map fst vs) = cc_id ` set cs" using ids by (simp add: dom_map_of_conv_image_fst)
  ultimately have "map v_id (map snd vs) = sorted_list_of_set (cc_id ` set cs)"
    by (metis map_map sorted_list_of_set.idem_if_sorted_distinct strict_sorted_iff)
  moreover have "\<exists>c \<in> set (Collapse cs). v = verdict_on c (v_status v) (v_reason v)
      \<and> (case fate st c of Some p \<Rightarrow> p = (v_status v, v_reason v) | None \<Rightarrow> v_status v \<noteq> Dropped)"
    if "v \<in> set (map snd vs)" for v
  proof -
    from that obtain i where "map_of vs i = Some v" using ok by (auto simp: map_of_mem_iff)
    then show ?thesis using vs unfolding verdicts_ok_def by metis
  qed
  ultimately show ?thesis unfolding view by simp
qed

text \<open>
  A dissolved group has no members, no removed rows and no links any more, its title is the
  statement's, and every change about it is dropped.
\<close>

theorem dissolved_empty:
  assumes "s_dissolved st"
  shows "w_members (ComputeRosterChecked st cs now) = [] \<and> w_removed (ComputeRosterChecked st cs now) = []
    \<and> w_links (ComputeRosterChecked st cs now) = [] \<and> w_ended_links (ComputeRosterChecked st cs now) = []
    \<and> w_title (ComputeRosterChecked st cs now) = s_title st
    \<and> HeldIds (ComputeRosterChecked st cs now) = []"
proof -
  have "v_status v = Dropped" if "v \<in> set (w_verdicts (ComputeRosterChecked st cs now))" for v
  proof -
    obtain vs where "w_verdicts (ComputeRosterChecked st cs now) = map snd vs" "verdicts_ok st (Collapse cs) vs"
      using roster_verdicts by blast
    with that obtain i where "(i, v) \<in> set vs" by force
    then have i: "map_of vs i = Some v"
      using \<open>verdicts_ok st (Collapse cs) vs\<close> by (simp add: map_of_mem_iff verdicts_ok_def)
    then obtain c where "case fate st c of Some p \<Rightarrow> p = (v_status v, v_reason v) | None \<Rightarrow> v_status v \<noteq> Dropped"
      using \<open>verdicts_ok st (Collapse cs) vs\<close> unfolding verdicts_ok_def by blast
    moreover have "fate st c = Some p \<Longrightarrow> fst p = Dropped" for p
      using assms by (auto simp: fate_def split: if_splits)
    moreover have "fate st c \<noteq> None" using assms by (simp add: fate_def)
    ultimately show ?thesis by fastforce
  qed
  then have "HeldIds (ComputeRosterChecked st cs now) = []" by (auto simp: HeldIds_def filter_empty_conv)
  then show ?thesis using assms by (simp add: dissolved_view)
qed

subsection \<open>Who is out\<close>

lemma ViewLists_iff: "ViewLists v i \<longleftrightarrow> i \<in> vm_identity ` set (w_members v)"
  by (auto simp: ViewLists_def ViewFind_def find_None_iff)

lemma removed_rows_ok:
  assumes "\<not> s_dissolved st"
  shows "sorted_wrt (<) (map rv_identity (w_removed (ComputeRosterChecked st cs now)))
    \<and> (\<forall>row \<in> set (w_removed (ComputeRosterChecked st cs now)).
         \<not> ViewLists (ComputeRosterChecked st cs now) (rv_identity row)
         \<and> (row \<in> set (s_removed st)
            \<or> (\<exists>r. may_remove (roster_index st cs now) r \<and> rv_identity row = cc_member r
                 \<and> rv_removal row = cc_id r \<and> rv_removed_by row = cc_signer r)))
    \<and> (\<forall>row \<in> set (s_removed st). ViewLists (ComputeRosterChecked st cs now) (rv_identity row)
         \<or> rv_identity row \<in> rv_identity ` set (w_removed (ComputeRosterChecked st cs now)))"
proof -
  obtain f rows where run: "roster_run st cs now f rows" using roster_run [OF assms] by blast
  note ok = roster_run_invs(2) [OF run, unfolded rows_ok_def]
  have lists: "ViewLists (ComputeRosterChecked st cs now) i \<longleftrightarrow> i \<in> set (rs_in f)" for i
    by (auto simp: ViewLists_iff roster_run_view(1) [OF run] image_image)
  have just: "row \<in> set (s_removed st)
            \<or> (\<exists>r. may_remove (roster_index st cs now) r \<and> rv_identity row = cc_member r
                 \<and> rv_removal row = cc_id r \<and> rv_removed_by row = cc_signer r)" if "row \<in> set rows" for row
    using ok that keyed_Some [of rv_identity "s_removed st" "rv_identity row" row]
    unfolding removed_row_def by auto
  have stays: "rv_identity row \<in> set (rs_in f) \<or> rv_identity row \<in> rv_identity ` set rows"
    if "row \<in> set (s_removed st)" for row
    using ok that by (metis image_eqI keyed_None roster_index_same(4))
  show ?thesis
    using ok just stays unfolding lists roster_run_view(2) [OF run] by blast
qed


subsection \<open>The title\<close>

lemma find_verdict:
  "\<forall>p \<in> set vs. v_id (snd p) = fst p \<Longrightarrow> List.find (\<lambda>v. v_id v = i) (map snd vs) = map_of vs i"
  by (induction vs) auto

lemma ViewVerdict_run:
  assumes "roster_run st cs now f rows"
  shows "ViewVerdict (ComputeRosterChecked st cs now) i = map_of (rs_verdicts f) i"
proof -
  note vs = roster_run_invs(4) [OF assms]
  have "\<forall>p \<in> set (rs_verdicts f). v_id (snd p) = fst p"
    using verdict_id [OF vs] vs by (auto simp: map_of_mem_iff verdicts_ok_def)
  then show ?thesis unfolding ViewVerdict_def roster_run_view(5) [OF assms] by (rule find_verdict)
qed

lemma held_roster_index: "held (roster_index st cs now) = {c \<in> set (Collapse cs). fate st c = None}"
  unfolding roster_index_def by (rule held_run_index [OF Collapse_distinct])

text \<open>
  (R4) the title is the statement's, or that of a newer rename by somebody who may rename. Of
  the held renames exactly that one, if any, is applied, and every one that lost has a version that
  is no higher.
\<close>

theorem title_by_best_rename:
  assumes "\<not> s_dissolved st"
  shows "\<exists>best.
    (case best of
       None \<Rightarrow> w_title (ComputeRosterChecked st cs now) = s_title st
         \<and> w_title_version (ComputeRosterChecked st cs now) = s_title_version st
     | Some c \<Rightarrow> c \<in> held (roster_index st cs now) \<and> cc_kind c = KRename
         \<and> entitled (roster_index st cs now) Rename c
         \<and> w_title (ComputeRosterChecked st cs now) = c_title (cc_change c)
         \<and> w_title_version (ComputeRosterChecked st cs now) = c_title_version (cc_change c)
         \<and> s_title_version st < c_title_version (cc_change c))
    \<and> (\<forall>c \<in> held (roster_index st cs now). cc_kind c = KRename \<longrightarrow>
        (case ViewVerdict (ComputeRosterChecked st cs now) (cc_id c) of
           None \<Rightarrow> False
         | Some v \<Rightarrow> (v_status v = Applied \<longleftrightarrow> best = Some c)
             \<and> (v_status v = Superseded \<and> v_reason v = LostRename \<longrightarrow>
                  c_title_version (cc_change c) \<le> w_title_version (ComputeRosterChecked st cs now))))"
proof -
  let ?ix = "roster_index st cs now"
  obtain f rows where run: "roster_run st cs now f rows" using roster_run [OF assms] by blast
  note view = roster_run_view [OF run] ViewVerdict_run [OF run]
  obtain best where t: "title_chosen ?ix best f" using roster_run_invs(8) [OF run] by blast
  have some: "\<exists>v. map_of (rs_verdicts f) (cc_id c) = Some v" if "c \<in> held ?ix" for c
    using roster_run_invs(7) [OF run] that by (auto simp: held_roster_index marked_def)
  show ?thesis
  proof (intro exI [of _ best] conjI ballI impI)
    fix c
    assume c: "c \<in> held ?ix" "cc_kind c = KRename"
    then obtain v where v: "map_of (rs_verdicts f) (cc_id c) = Some v" using some by blast
    have "v_status v = Applied \<longleftrightarrow> best = Some c"
    proof
      assume "v_status v = Applied"
      then have "is_verdict f c Applied (v_reason v)" using v by (simp add: is_verdict_def)
      then show "best = Some c" using t c by (auto simp: title_chosen_def renames_of_def)
    next
      assume "best = Some c"
      then show "v_status v = Applied" using t v by (auto simp: title_chosen_def is_verdict_def)
    qed
    moreover have "c_title_version (cc_change c) \<le> rs_title_version f"
      if "v_status v = Superseded" "v_reason v = LostRename"
      using t c v that by (auto simp: title_chosen_def renames_of_def is_verdict_def)
    ultimately show "case ViewVerdict (ComputeRosterChecked st cs now) (cc_id c) of None \<Rightarrow> False
        | Some v \<Rightarrow> (v_status v = Applied \<longleftrightarrow> best = Some c)
          \<and> (v_status v = Superseded \<and> v_reason v = LostRename \<longrightarrow>
               c_title_version (cc_change c) \<le> w_title_version (ComputeRosterChecked st cs now))"
      by (simp add: view v)
  qed (use t in \<open>auto simp: title_chosen_def renames_of_def view split: option.splits\<close>)
qed

subsection \<open>Invite links\<close>

lemma roster_run_links:
  assumes "roster_run st cs now f rows"
  shows "w_links (ComputeRosterChecked st cs now) = map (used_link (roster_index st cs now) f)
      (filter (\<lambda>p. link_ended (roster_index st cs now) f p = None) (rs_links f))"
    and "e \<in> set (w_ended_links (ComputeRosterChecked st cs now)) \<Longrightarrow>
      (\<exists>p \<in> set (rs_links f). link_ended (roster_index st cs now) f p = Some (e_end e)
         \<and> e_link e = used_link (roster_index st cs now) f p)
      \<or> (\<exists>p \<in> set (rs_gone_makers_links f). e = \<lparr>e_link = snd p, e_end = MakerOut\<rparr>)"
  using assms by (auto simp: roster_run_def LinkRows_def) force

lemma used_link_same [simp]:
  "l_link_id (used_link ix s p) = l_link_id (snd p)" "l_maker (used_link ix s p) = l_maker (snd p)"
  "l_expires_at (used_link ix s p) = l_expires_at (snd p)"
  by (simp_all add: used_link_def)

lemma live_links:
  assumes "\<not> s_dissolved st"
  shows "sorted_wrt (<) (map l_link_id (w_links (ComputeRosterChecked st cs now)))
    \<and> (\<forall>l \<in> set (w_links (ComputeRosterChecked st cs now)).
         ViewLists (ComputeRosterChecked st cs now) (l_maker l) \<and> now < l_expires_at l
         \<and> (\<exists>made. l = made\<lparr>l_uses := l_uses l\<rparr> \<and> (made \<in> set (s_links st)
              \<or> (\<exists>c \<in> held (roster_index st cs now). cc_kind c = KLinkAdd
                   \<and> entitled (roster_index st cs now) MakeInviteLink c \<and> made = LinkOf (cc_change c)))))
    \<and> (\<forall>e \<in> set (w_ended_links (ComputeRosterChecked st cs now)). e_end e = Revoked \<longrightarrow>
         (\<exists>c \<in> held (roster_index st cs now). cc_kind c = KLinkRevoke
            \<and> c_link_id (cc_change c) = l_link_id (e_link e)
            \<and> entitled (roster_index st cs now)
                (if cc_signer c = l_maker (e_link e) then Send else RevokeInviteLink) c))"
proof -
  let ?ix = "roster_index st cs now"
  let ?V = "ComputeRosterChecked st cs now"
  obtain f rows where run: "roster_run st cs now f rows" using roster_run [OF assms] by blast
  note inv = roster_run_invs(6) [OF run, unfolded links_inv_def]
  have ok: "om_ok (rs_links f)" using inv by blast
  have entry: "l_link_id (snd p) = fst p" "snd p \<in> set (s_links st)
      \<or> (\<exists>c \<in> held ?ix. cc_kind c = KLinkAdd \<and> entitled ?ix MakeInviteLink c \<and> snd p = LinkOf (cc_change c))"
    if "p \<in> set (rs_links f)" for p
    using inv map_of_SomeI [OF ok, of "fst p" "snd p"] that by auto
  have lists: "ViewLists ?V i \<longleftrightarrow> i \<in> set (rs_in f)" for i
    by (auto simp: ViewLists_iff roster_run_view(1) [OF run] image_image)
  let ?live = "filter (\<lambda>p. link_ended ?ix f p = None) (rs_links f)"
  have "map l_link_id (w_links ?V) = map fst ?live"
    unfolding roster_run_links(1) [OF run] by (simp add: entry)
  moreover have "sorted_wrt (<) (map fst ?live)"
    using ok sorted_wrt_filter [of "\<lambda>p q. fst p < fst q"] by (simp add: om_ok_def sorted_wrt_map)
  ultimately have sorted: "sorted_wrt (<) (map l_link_id (w_links ?V))" by simp
  have live: "ViewLists ?V (l_maker l) \<and> now < l_expires_at l
         \<and> (\<exists>made. l = made\<lparr>l_uses := l_uses l\<rparr> \<and> (made \<in> set (s_links st)
              \<or> (\<exists>c \<in> held ?ix. cc_kind c = KLinkAdd \<and> entitled ?ix MakeInviteLink c \<and> made = LinkOf (cc_change c))))"
    if "l \<in> set (w_links ?V)" for l
  proof -
    obtain p where p: "p \<in> set (rs_links f)" "link_ended ?ix f p = None" and l: "l = used_link ?ix f p"
      using \<open>l \<in> set (w_links ?V)\<close> unfolding roster_run_links(1) [OF run] by auto
    have "l = (snd p)\<lparr>l_uses := l_uses l\<rparr>" by (simp add: l used_link_def)
    then show ?thesis
      using p entry(2) [OF p(1)] unfolding lists by (auto simp: link_ended_def l split: if_splits)
  qed
  have revoked: "\<exists>c \<in> held ?ix. cc_kind c = KLinkRevoke \<and> c_link_id (cc_change c) = l_link_id (e_link e)
      \<and> entitled ?ix (if cc_signer c = l_maker (e_link e) then Send else RevokeInviteLink) c"
    if e: "e \<in> set (w_ended_links ?V)" "e_end e = Revoked" for e
  proof -
    obtain p where p: "p \<in> set (rs_links f)" "link_ended ?ix f p = Some Revoked" and l: "e_link e = used_link ?ix f p"
      using roster_run_links(2) [OF run e(1)] e(2) by auto
    then have "fst p \<in> set (rs_revoked f)" by (auto simp: link_ended_def split: if_splits)
    then obtain m c where "map_of (rs_links f) (fst p) = Some m" and c: "c \<in> held ?ix" "cc_kind c = KLinkRevoke"
      "c_link_id (cc_change c) = fst p" "entitled ?ix (if cc_signer c = l_maker m then Send else RevokeInviteLink) c"
      using inv by blast
    moreover have "m = snd p" using map_of_SomeI [OF ok, of "fst p" "snd p"] p(1) calculation(1) by simp
    ultimately show ?thesis using entry(1) [OF p(1)] by (auto simp: l)
  qed
  show ?thesis using sorted live revoked by blast
qed


subsection \<open>The order in which changes arrive\<close>

text \<open>
  C31: the roster is a function of the set of held changes. Two devices that hold the same
  changes, in whatever order and multiplicity, compute the same roster, when no two copies of one
  change differ while being equally good.
\<close>

theorem roster_of_set:
  assumes "set cs = set ds" and "tie_free cs"
  shows "ComputeRosterChecked st cs now = ComputeRosterChecked st ds now"
  using Collapse_of_set [OF assms] by (simp add: ComputeRosterChecked_def)

subsection \<open>The properties at work\<close>

theorem membership_sound_witness:
  "\<exists>a. may_add (roster_index sample_statement [sample_add] 10) a \<and> cc_member a = ''e''"
proof -
  have "\<lparr>vm_identity = ''e'', vm_role = Member, vm_joined_at = 9, vm_added_by = ''a'', vm_added_in = ''1''\<rparr>
      \<in> set (w_members (ComputeRosterChecked sample_statement [sample_add] 10))" by code_simp
  from membership_sound [OF this] show ?thesis by (auto simp: sample_statement_def)
qed

theorem statement_members_stay_witness:
  "\<lparr>vm_identity = ''a'', vm_role = Owner, vm_joined_at = 1, vm_added_by = [], vm_added_in = []\<rparr>
     \<in> set (w_members (ComputeRosterChecked sample_statement [sample_removal, sample_add] 10))"
proof -
  let ?m = "\<lparr>sm_identity = ''a'', sm_role = Owner, sm_joined_at = 1, sm_added_by = []\<rparr>"
  have "statement_wf sample_statement"
    using sample_statement_verifies by (simp add: Verify_ok_iff)
  moreover have "?m \<in> set (s_members sample_statement)" by (simp add: sample_statement_def)
  ultimately show ?thesis
    using statement_members_stay [of sample_statement ?m "[sample_removal, sample_add]" 10] sample_alive by simp
qed

theorem verdicts_complete_witness:
  "map v_id (w_verdicts (ComputeRosterChecked sample_statement [sample_removal, sample_add] 10)) = [''1'', ''2'']"
proof -
  have "cc_id ` set [sample_removal, sample_add] = {''1'', ''2''}"
    by (auto simp: sample_removal_def sample_add_def sample_checked_def)
  moreover have "sorted_list_of_set {''1'', ''2''} = [''1'', ''2'']" by simp
  ultimately show ?thesis
    using verdicts_complete [of sample_statement "[sample_removal, sample_add]" 10] by simp
qed

theorem dissolved_empty_witness:
  "w_members (ComputeRosterChecked (sample_statement\<lparr>s_dissolved := True\<rparr>) [sample_add] 10) = []"
  using dissolved_empty [of "sample_statement\<lparr>s_dissolved := True\<rparr>" "[sample_add]" 10] by simp


theorem title_by_best_rename_witness:
  "\<exists>c \<in> held (roster_index sample_statement [sample_rename] 10).
     entitled (roster_index sample_statement [sample_rename] 10) Rename c \<and> c_title (cc_change c) = ''u''"
proof -
  have "w_title (ComputeRosterChecked sample_statement [sample_rename] 10) = ''u''" by code_simp
  moreover have "s_title sample_statement = ''t''" by (simp add: sample_statement_def)
  ultimately show ?thesis
    using title_by_best_rename [OF sample_alive, of "[sample_rename]" 10] by (auto split: option.splits)
qed


theorem roster_of_set_witness:
  "ComputeRosterChecked sample_statement [sample_add, sample_removal] 10
     = ComputeRosterChecked sample_statement [sample_removal, sample_add, sample_removal] 10"
  by (rule roster_of_set) (auto simp: tie_free_def sample_add_def sample_removal_def sample_checked_def)

subsection \<open>A vouched change counts whatever its signer's right was\<close>

text \<open>
  \<open>Entitlement\<close> takes a change that a valid removal of its signer keeps outright, with no look at
  the role its signer had. So a removal that a plain member may not make has no effect on its own,
  and takes effect once the owner removes that member keeping the changes he holds of them (as
  \<open>DraftRemove\<close> does, which lists every held change of the member, void ones too).
\<close>

definition void_removal :: checked_change where
  "void_removal = sample_checked ''1'' ''c'' KRemove ''b''"

definition keeping_removal :: checked_change where
  "keeping_removal = (sample_checked ''2'' ''a'' KRemove ''c'')\<lparr>cc_change :=
     (cc_change (sample_checked ''2'' ''a'' KRemove ''c''))\<lparr>c_keeps := [''1'']\<rparr>\<rparr>"

theorem kept_void_removal_counts:
  "map vm_identity (w_members (ComputeRosterChecked sample_statement [void_removal] 10))
      = [''a'', ''b'', ''c'', ''d'']
    \<and> map vm_identity (w_members (ComputeRosterChecked sample_statement [void_removal, keeping_removal] 10))
      = [''a'', ''d'']"
  by (rule conjI; code_simp)

end
