(* ===== verification/GroupFold.thy ===== *)
theory GroupFold
  imports RosterClaims
begin

section \<open>The owner's fold\<close>

text \<open>
  Models \<open>FoldsIn\<close>, \<open>FoldChanges\<close> and \<open>FoldInto\<close> of \<open>GroupRosterRules.cpp\<close>: the owner's next
  statement over a computed roster. Shown: the next statement is well formed, the roster computed
  over it is the one that was folded, and what becomes of the changes that were folded.
\<close>

subsection \<open>The operations\<close>

definition FoldsIn :: "change_verdict \<Rightarrow> bool" where
  "FoldsIn v =
     (case v_status v of
        Applied \<Rightarrow> True
      | Superseded \<Rightarrow> True
      | Undone \<Rightarrow> True
      | Dropped \<Rightarrow> False
      | Void \<Rightarrow> v_reason v \<in> {DeviceOffCard, SignerOut, NotAllowed, RemovedMember, NotReadmitted,
          GroupFull, DuplicateLink})"

definition folded_map :: "statement \<Rightarrow> roster_view \<Rightarrow> (string \<times> u64) list" where
  "folded_map current view =
     fold (\<lambda>v m. if FoldsIn v then om_emplace (v_id v) (min (v_base_epoch v) (s_roster_epoch current)) m else m)
       (w_verdicts view)
       (fold (\<lambda>f. om_put (fc_id f) (fc_base_epoch f)) (s_folded current) [])"

definition next_floor :: "statement \<Rightarrow> statement \<Rightarrow> u64" where
  "next_floor current nxt =
     max (s_change_floor current)
       (if s_roster_epoch nxt > kChangeFloorLag then s_roster_epoch nxt - kChangeFloorLag else 0)"

definition FoldInto :: "statement \<Rightarrow> roster_view \<Rightarrow> statement \<Rightarrow> statement" where
  "FoldInto current view nxt =
     nxt\<lparr>s_change_floor := next_floor current nxt,
       s_folded := map (\<lambda>(i, base). \<lparr>fc_id = i, fc_base_epoch = base\<rparr>)
         (filter (\<lambda>(i, base). base \<ge> next_floor current nxt) (folded_map current view))\<rparr>"

definition FoldChanges :: "statement \<Rightarrow> roster_view \<Rightarrow> statement" where
  "FoldChanges current view =
     (let nxt = current\<lparr>s_roster_epoch := s_roster_epoch current + 1, s_owner_signature := []\<rparr> in
      if s_dissolved current then nxt
      else FoldInto current view (nxt\<lparr>
        s_members := map (\<lambda>m. \<lparr>sm_identity = vm_identity m, sm_role = vm_role m,
          sm_joined_at = vm_joined_at m, sm_added_by = vm_added_by m\<rparr>) (w_members view),
        s_removed := w_removed view, s_links := w_links view,
        s_title := w_title view, s_title_version := w_title_version view\<rparr>))"

lemma FoldInto_same [simp]:
  "s_group_id (FoldInto c v n) = s_group_id n" "s_roster_epoch (FoldInto c v n) = s_roster_epoch n"
  "s_members (FoldInto c v n) = s_members n" "s_removed (FoldInto c v n) = s_removed n"
  "s_links (FoldInto c v n) = s_links n" "s_owner (FoldInto c v n) = s_owner n"
  "s_title (FoldInto c v n) = s_title n" "s_title_version (FoldInto c v n) = s_title_version n"
  "s_dissolved (FoldInto c v n) = s_dissolved n" "s_preset (FoldInto c v n) = s_preset n"
  "s_change_floor (FoldInto c v n) = next_floor c n"
  by (simp_all add: FoldInto_def)

lemma FoldChanges_same [simp]:
  "s_group_id (FoldChanges c v) = s_group_id c" "s_roster_epoch (FoldChanges c v) = s_roster_epoch c + 1"
  "s_owner (FoldChanges c v) = s_owner c" "s_dissolved (FoldChanges c v) = s_dissolved c"
  "s_preset (FoldChanges c v) = s_preset c"
  by (simp_all add: FoldChanges_def Let_def)

lemma FoldChanges_lists [simp]:
  assumes "\<not> s_dissolved c"
  shows "s_members (FoldChanges c v) = map (\<lambda>m. \<lparr>sm_identity = vm_identity m, sm_role = vm_role m,
      sm_joined_at = vm_joined_at m, sm_added_by = vm_added_by m\<rparr>) (w_members v)"
    and "s_removed (FoldChanges c v) = w_removed v" and "s_links (FoldChanges c v) = w_links v"
    and "s_title (FoldChanges c v) = w_title v" and "s_title_version (FoldChanges c v) = w_title_version v"
  using assms by (simp_all add: FoldChanges_def Let_def)

subsection \<open>The folded ids and the floor\<close>

lemma folded_step_ok:
  "om_ok m \<Longrightarrow> om_ok (fold (\<lambda>v m. if FoldsIn v then om_emplace (v_id v) (b v) m else m) vs m)"
  by (induction vs arbitrary: m) simp_all

lemma folded_step:
  "map_of (fold (\<lambda>v m. if FoldsIn v then om_emplace (v_id v) (b v) m else m) vs m) i =
      (case map_of m i of Some x \<Rightarrow> Some x
       | None \<Rightarrow> map_option b (List.find (\<lambda>v. FoldsIn v \<and> v_id v = i) vs))"
  by (induction vs arbitrary: m) (auto simp: om_emplace_def split: option.splits)

lemma om_ok_folded_start: "om_ok (fold (\<lambda>f. om_put (fc_id f) (fc_base_epoch f)) fs [])"
  by (rule om.ok_fold_put) simp

lemma folded_start:
  assumes "distinct (map fc_id fs)" and "f \<in> set fs"
  shows "map_of (fold (\<lambda>f. om_put (fc_id f) (fc_base_epoch f)) fs []) (fc_id f) = Some (fc_base_epoch f)"
proof -
  have "filter (\<lambda>g. fc_id g = fc_id f) fs = [f]"
    using assms by (induction fs) (auto simp: filter_empty_conv, metis image_eqI)
  then show ?thesis by (simp add: om.find_fold_put)
qed

lemma folded_start_None:
  "map_of (fold (\<lambda>f. om_put (fc_id f) (fc_base_epoch f)) fs []) i = None \<longleftrightarrow> i \<notin> fc_id ` set fs"
  by (auto simp: om.find_fold_put filter_empty_conv split: list.splits) (drule filter_eq_ConsD, force)

lemma om_ok_folded_map [simp]: "om_ok (folded_map c v)"
  unfolding folded_map_def by (rule folded_step_ok [OF om_ok_folded_start])

lemma folded_map_old:
  "distinct (map fc_id (s_folded c)) \<Longrightarrow> f \<in> set (s_folded c) \<Longrightarrow>
    map_of (folded_map c v) (fc_id f) = Some (fc_base_epoch f)"
  unfolding folded_map_def by (simp add: folded_step folded_start)

lemma folded_map_new:
  assumes "i \<notin> fc_id ` set (s_folded c)"
  shows "map_of (folded_map c view) i =
    map_option (\<lambda>v. min (v_base_epoch v) (s_roster_epoch c)) (List.find (\<lambda>v. FoldsIn v \<and> v_id v = i) (w_verdicts view))"
  using assms folded_start_None [of "s_folded c" i]
  unfolding folded_map_def by (simp add: folded_step)

lemma folded_map_keys:
  "map_of (folded_map c view) i \<noteq> None \<Longrightarrow>
    i \<in> fc_id ` set (s_folded c) \<or> i \<in> v_id ` set (w_verdicts view)"
  by (cases "i \<in> fc_id ` set (s_folded c)") (auto simp: folded_map_new find_Some_iff)

lemma epoch_up: "(e :: u64) < - 1 \<Longrightarrow> e < e + 1"
  by (simp add: word_less_nat_alt unat_word_ariths unsigned_minus_1_eq_mask mask_eq_exp_minus_1)

lemma next_floor_le:
  assumes "s_change_floor c \<le> s_roster_epoch n"
  shows "next_floor c n \<le> s_roster_epoch n"
  using assms by (auto simp: next_floor_def kChangeFloorLag_def max_def word_le_nat_alt word_less_nat_alt unat_sub)

lemma set_folded:
  "f \<in> set (s_folded (FoldInto c view n)) \<longleftrightarrow>
    map_of (folded_map c view) (fc_id f) = Some (fc_base_epoch f) \<and> next_floor c n \<le> fc_base_epoch f"
  by (cases f) (force simp: FoldInto_def map_of_mem_iff [OF om_ok_folded_map])

lemma ids_folded: "map fc_id (s_folded (FoldInto c view n)) =
    map fst (filter (\<lambda>(i, base). base \<ge> next_floor c n) (folded_map c view))"
  by (simp add: FoldInto_def comp_def case_prod_beta)

lemma distinct_folded: "distinct (map fc_id (s_folded (FoldInto c view n)))"
  unfolding ids_folded by (rule distinct_map_filter [OF om_ok_distinct [OF om_ok_folded_map]])

subsection \<open>The next statement is well formed\<close>

text \<open>What the checks give: an id, and the shape of every change that is proved.\<close>

definition well_checked :: "checked_change list \<Rightarrow> bool" where
  "well_checked cs \<longleftrightarrow> (\<forall>c \<in> set cs. cc_id c \<noteq> []
     \<and> (cc_proof c = Proved \<longrightarrow> CheckShape (cc_change c) = Inr ()))"

lemma well_checked_CheckChanges:
  assumes "\<forall>c \<in> set changes. ChangeId cr c \<noteq> []"
  shows "well_checked (CheckChanges cr changes cards now)"
  unfolding well_checked_def
  using assms CheckOne_Proved by (auto dest!: CheckChanges_from)

lemma held_shape:
  assumes "well_checked cs" and "c \<in> held (roster_index st cs now)"
  shows "CheckShape (cc_change c) = Inr ()"
proof -
  have "c \<in> set cs" "fate st c = None"
    using assms(2) Collapse_subset by (auto simp: held_roster_index)
  then have "cc_proof c = Proved" by (cases "cc_proof c") (auto simp: fate_def split: if_splits)
  with assms(1) \<open>c \<in> set cs\<close> show ?thesis by (simp add: well_checked_def)
qed

lemma shape_member: "CheckShape c = Inr () \<Longrightarrow> c_kind c \<in> {KAdd, KRemove} \<Longrightarrow> c_member c \<noteq> []"
  by (auto simp: CheckShape_def CheckBody_def split: if_splits)

lemma shape_link: "CheckShape c = Inr () \<Longrightarrow> c_kind c = KLinkAdd \<Longrightarrow> c_link_id c \<noteq> []"
  by (auto simp: CheckShape_def CheckBody_def split: if_splits)

lemma fold_members:
  assumes wf: "statement_wf st" and alive: "\<not> s_dissolved st" and checked: "well_checked cs"
  shows "AllUnique vm_identity (w_members (ComputeRosterChecked st cs now))"
proof -
  obtain f rows where run: "roster_run st cs now f rows" using roster_run [OF alive] by blast
  note inv = roster_run_invs(3) [OF run, unfolded members_inv_def]
  have ids: "map vm_identity (w_members (ComputeRosterChecked st cs now)) = rs_in f"
    by (simp add: roster_run_view(1) [OF run] comp_def)
  have "i \<noteq> []" if "i \<in> set (rs_in f)" for i
  proof -
    have "known_account (roster_index st cs now) i" using inv that by blast
    then consider "InStatement (roster_index st cs now) i"
      | a where "may_add (roster_index st cs now) a" "cc_member a = i"
      by (auto simp: known_account_def)
    then show ?thesis
    proof cases
      case 1
      then show ?thesis using wf by (auto simp: InStatement_def statement_wf_def AllUnique_def)
    next
      case 2
      then show ?thesis using may_add_held [OF 2(1)] shape_member held_shape [OF checked] by blast
    qed
  qed
  moreover have "distinct (rs_in f)" using inv os_ok_distinct by blast
  ultimately show ?thesis unfolding AllUnique_def ids [symmetric] by (metis ids image_eqI list.set_map)
qed

lemma fold_owner:
  assumes wf: "statement_wf st" and alive: "\<not> s_dissolved st"
  shows "\<exists>m \<in> set (w_members (ComputeRosterChecked st cs now)). vm_role m = Owner \<and> vm_identity m = s_owner st"
    and "\<forall>m \<in> set (w_members (ComputeRosterChecked st cs now)). vm_role m = Owner \<longrightarrow> vm_identity m = s_owner st"
proof -
  obtain sm where sm: "sm \<in> set (s_members st)" "sm_role sm = Owner" "sm_identity sm = s_owner st"
    using wf by (auto simp: statement_wf_def)
  with stay_row [OF wf alive sm(1), of cs now]
  show "\<exists>m \<in> set (w_members (ComputeRosterChecked st cs now)). vm_role m = Owner \<and> vm_identity m = s_owner st"
    by force
  show "\<forall>m \<in> set (w_members (ComputeRosterChecked st cs now)). vm_role m = Owner \<longrightarrow> vm_identity m = s_owner st"
    using view_member_cases [OF alive] wf by (fastforce simp: statement_wf_def)
qed

lemma fold_removed:
  assumes wf: "statement_wf st" and alive: "\<not> s_dissolved st" and checked: "well_checked cs"
  shows "AllUnique rv_identity (w_removed (ComputeRosterChecked st cs now))"
    and "row \<in> set (w_removed (ComputeRosterChecked st cs now)) \<Longrightarrow>
      \<not> ViewLists (ComputeRosterChecked st cs now) (rv_identity row)"
proof -
  note rows = removed_rows_ok [OF alive, of cs now]
  have "rv_identity row \<noteq> []" if "row \<in> set (w_removed (ComputeRosterChecked st cs now))" for row
  proof -
    from rows that consider "row \<in> set (s_removed st)"
      | r where "may_remove (roster_index st cs now) r" "rv_identity row = cc_member r" by blast
    then show ?thesis
    proof cases
      case 1
      then show ?thesis using wf by (auto simp: statement_wf_def AllUnique_def)
    next
      case 2
      then show ?thesis using may_remove_held [OF 2(1)] shape_member held_shape [OF checked] by fastforce
    qed
  qed
  moreover have "distinct (map rv_identity (w_removed (ComputeRosterChecked st cs now)))"
    using rows strict_sorted_iff by blast
  ultimately show "AllUnique rv_identity (w_removed (ComputeRosterChecked st cs now))"
    by (simp add: AllUnique_def)
  show "row \<in> set (w_removed (ComputeRosterChecked st cs now)) \<Longrightarrow>
      \<not> ViewLists (ComputeRosterChecked st cs now) (rv_identity row)"
    using rows by blast
qed

lemma fold_links:
  assumes wf: "statement_wf st" and alive: "\<not> s_dissolved st" and checked: "well_checked cs"
  shows "AllUnique l_link_id (w_links (ComputeRosterChecked st cs now))"
proof -
  note links = live_links [OF alive, of cs now]
  have "l_link_id l \<noteq> []" if "l \<in> set (w_links (ComputeRosterChecked st cs now))" for l
  proof -
    from links that obtain made where l: "l = made\<lparr>l_uses := l_uses l\<rparr>"
      and made: "made \<in> set (s_links st) \<or> (\<exists>c \<in> held (roster_index st cs now). cc_kind c = KLinkAdd
        \<and> made = LinkOf (cc_change c))" by blast
    have "l_link_id l = l_link_id made" by (subst l) simp
    moreover have "l_link_id made \<noteq> []"
      using made wf shape_link held_shape [OF checked] by (auto simp: statement_wf_def AllUnique_def LinkOf_def)
    ultimately show ?thesis by simp
  qed
  moreover have "distinct (map l_link_id (w_links (ComputeRosterChecked st cs now)))"
    using links strict_sorted_iff by blast
  ultimately show ?thesis by (simp add: AllUnique_def)
qed

lemma verdict_ids: "v \<in> set (w_verdicts (ComputeRosterChecked st cs now)) \<Longrightarrow> v_id v \<in> cc_id ` set cs"
proof -
  assume v: "v \<in> set (w_verdicts (ComputeRosterChecked st cs now))"
  obtain vs where view: "w_verdicts (ComputeRosterChecked st cs now) = map snd vs"
    and vs: "verdicts_ok st (Collapse cs) vs" and ids: "dom (map_of vs) = cc_id ` set cs"
    using roster_verdicts by blast
  obtain i where "(i, v) \<in> set vs" using v view by force
  then have i: "map_of vs i = Some v" using vs by (simp add: map_of_mem_iff verdicts_ok_def)
  from verdict_id [OF vs this] i ids show ?thesis by blast
qed

lemma fold_folded:
  assumes wf: "statement_wf st" and checked: "well_checked cs"
  shows "AllUnique fc_id (s_folded (FoldInto st (ComputeRosterChecked st cs now) n))"
proof -
  have "fc_id f \<noteq> []" if f: "f \<in> set (s_folded (FoldInto st (ComputeRosterChecked st cs now) n))" for f
  proof -
    have "map_of (folded_map st (ComputeRosterChecked st cs now)) (fc_id f) \<noteq> None"
      using f by (simp add: set_folded)
    from folded_map_keys [OF this] consider "fc_id f \<in> fc_id ` set (s_folded st)"
      | "fc_id f \<in> cc_id ` set cs" by (auto dest: verdict_ids)
    then show ?thesis
      using wf checked by cases (auto simp: statement_wf_def AllUnique_def well_checked_def)
  qed
  then show ?thesis using distinct_folded by (auto simp: AllUnique_def)
qed

lemma fold_wf:
  assumes wf: "statement_wf st" and checked: "well_checked cs" and room: "s_roster_epoch st < - 1"
  shows "statement_wf (FoldChanges st (ComputeRosterChecked st cs now))
    \<and> s_roster_epoch st < s_roster_epoch (FoldChanges st (ComputeRosterChecked st cs now))
    \<and> s_change_floor st \<le> s_change_floor (FoldChanges st (ComputeRosterChecked st cs now))"
proof -
  let ?V = "ComputeRosterChecked st cs now"
  have "s_roster_epoch st < s_roster_epoch st + 1" by (rule epoch_up [OF room])
  then have up: "s_roster_epoch st < s_roster_epoch st + 1" "s_roster_epoch st \<le> s_roster_epoch st + 1"
    by simp_all
  have floor: "s_change_floor st \<le> s_roster_epoch st" using wf by (simp add: statement_wf_def)
  show ?thesis
  proof (cases "s_dissolved st")
    case True
    then show ?thesis
      using wf up order.trans [OF floor up(2)]
      by (simp add: FoldChanges_def Let_def statement_wf_def StatementLists_def)
  next
    case False
    obtain n where n: "FoldChanges st ?V = FoldInto st ?V n" "s_roster_epoch n = s_roster_epoch st + 1"
      using False by (simp add: FoldChanges_def Let_def)
    have "next_floor st n \<le> s_roster_epoch n"
      by (rule next_floor_le) (use order.trans [OF floor up(2)] in \<open>simp add: n(2)\<close>)
    moreover have "\<forall>f \<in> set (s_folded (FoldChanges st ?V)). s_change_floor (FoldChanges st ?V) \<le> fc_base_epoch f"
      by (simp add: n(1) set_folded)
    moreover have "AllUnique fc_id (s_folded (FoldChanges st ?V))"
      unfolding n(1) by (rule fold_folded [OF wf checked])
    moreover have "s_change_floor st \<le> s_change_floor (FoldChanges st ?V)" by (simp add: n(1) next_floor_def)
    moreover have "AllUnique sm_identity (s_members (FoldChanges st ?V))"
      using fold_members [OF wf False checked, of now] False by (simp add: AllUnique_def comp_def)
    moreover have "\<exists>m \<in> set (s_members (FoldChanges st ?V)). sm_role m = Owner \<and> sm_identity m = s_owner st"
      using fold_owner(1) [OF wf False, of cs now] False by simp
    moreover have "\<forall>m \<in> set (s_members (FoldChanges st ?V)). sm_role m = Owner \<longrightarrow> sm_identity m = s_owner st"
      using fold_owner(2) [OF wf False, of cs now] False by simp
    moreover have "AllUnique rv_identity (s_removed (FoldChanges st ?V))"
      using fold_removed(1) [OF wf False checked] False by simp
    moreover have "\<forall>r \<in> set (s_removed (FoldChanges st ?V)). \<not> StatementLists (FoldChanges st ?V) (rv_identity r)"
      using fold_removed(2) [OF wf False checked, of _ now] False
      by (auto simp: StatementLists_def ViewLists_iff) (metis image_eqI)
    moreover have "AllUnique l_link_id (s_links (FoldChanges st ?V))"
      using fold_links [OF wf False checked] False by simp
    moreover have "s_change_floor (FoldChanges st ?V) \<le> s_roster_epoch (FoldChanges st ?V)"
      using \<open>next_floor st n \<le> s_roster_epoch n\<close> by (simp add: n)
    ultimately show ?thesis using up unfolding statement_wf_def by simp
  qed
qed

lemmas next_wf = fold_wf [THEN conjunct1]

text \<open>
  Folding keeps the statement well formed. From a well-formed statement and a roster computed
  over checked changes, the next statement lists each account, removed account, link and folded
  change once, has exactly the owner as owner, removes nobody it lists, and its change floor is at
  most its epoch and at most the base epoch of everything it names as folded; and the epoch and the
  floor only go up.
\<close>

theorem fold_well_formed:
  assumes wf: "statement_wf st" and checked: "well_checked cs" and room: "s_roster_epoch st < - 1"
  shows "statement_wf (FoldChanges st (ComputeRosterChecked st cs now))
    \<and> s_roster_epoch st < s_roster_epoch (FoldChanges st (ComputeRosterChecked st cs now))
    \<and> s_change_floor st \<le> s_change_floor (FoldChanges st (ComputeRosterChecked st cs now))"
  by (rule fold_wf [OF assms])

subsection \<open>The fold changes nothing in the roster\<close>

lemma sorted_key_unique:
  fixes key :: "'a \<Rightarrow> 'k::linorder"
  assumes "sorted_wrt (<) (map key xs)" and "sorted_wrt (<) (map key ys)" and "set xs = set ys"
  shows "xs = ys"
proof (rule map_sorted_distinct_set_unique [of key])
  show "inj_on key (set xs \<union> set ys)"
    using assms by (metis distinct_map strict_sorted_iff sup.idem)
qed (use assms in \<open>simp_all add: strict_sorted_iff\<close>)

text \<open>A run in which no change is held: every member of the statement stays, as the statement has it.\<close>

lemma nothing_held:
  assumes wf: "statement_wf st" and alive: "\<not> s_dissolved st" and none: "\<And>c. c \<in> set cs \<Longrightarrow> fate st c \<noteq> None"
  shows "set (w_members (ComputeRosterChecked st cs now)) =
      (\<lambda>sm. \<lparr>vm_identity = sm_identity sm, vm_role = sm_role sm, vm_joined_at = sm_joined_at sm,
        vm_added_by = sm_added_by sm, vm_added_in = []\<rparr>) ` set (s_members st)" (is ?members)
    and "set (w_removed (ComputeRosterChecked st cs now)) = set (s_removed st)" (is ?removed)
    and "w_title (ComputeRosterChecked st cs now) = s_title st" (is ?title)
    and "w_title_version (ComputeRosterChecked st cs now) = s_title_version st" (is ?version)
proof -
  have held: "held (roster_index st cs now) = {}"
    using none Collapse_subset [of cs] by (fastforce simp: held_roster_index)
  have adds: "\<not> may_add (roster_index st cs now) a" and removes: "\<not> may_remove (roster_index st cs now) a" for a
    using may_add_held may_remove_held held by blast+
  have still: "undisturbed (roster_index st cs now) (sm_identity sm)" if "sm \<in> set (s_members st)" for sm
    using that removes held by (auto simp: undisturbed_def InStatement_def removable_def)
  show ?members
    using stay_row [OF wf alive _ disjI2 [OF still]] view_member_cases [OF alive] adds by blast
  have sub: "row \<in> set (s_removed st)" if "row \<in> set (w_removed (ComputeRosterChecked st cs now))" for row
    using removed_rows_ok [OF alive, of cs now] that removes by blast
  have "row \<in> set (w_removed (ComputeRosterChecked st cs now))" if row: "row \<in> set (s_removed st)" for row
  proof -
    have "\<not> ViewLists (ComputeRosterChecked st cs now) (rv_identity row)"
    proof -
      have "\<forall>m \<in> set (s_members st). sm_identity m \<noteq> rv_identity row"
        using wf row by (simp add: statement_wf_def StatementLists_def)
      then show ?thesis using \<open>?members\<close> by (fastforce simp: ViewLists_iff image_image)
    qed
    then obtain other where "other \<in> set (w_removed (ComputeRosterChecked st cs now))"
      "rv_identity other = rv_identity row"
      using removed_rows_ok [OF alive, of cs now] row by (metis imageE)
    moreover from this(1) have "other \<in> set (s_removed st)" by (rule sub)
    ultimately show ?thesis
      using row wf by (metis AllUnique_def distinct_map inj_onD statement_wf_def)
  qed
  then show ?removed using sub by blast
  obtain f rows where run: "roster_run st cs now f rows" using roster_run [OF alive] by blast
  obtain best where "title_chosen (roster_index st cs now) best f" using roster_run_invs(8) [OF run] by blast
  then show ?title ?version
    using held by (auto simp: title_chosen_def renames_of_def roster_run_view [OF run] split: option.splits)
qed

lemma no_note:
  "m\<lparr>vm_added_in := []\<rparr> = \<lparr>vm_identity = vm_identity m, vm_role = vm_role m, vm_joined_at = vm_joined_at m,
     vm_added_by = vm_added_by m, vm_added_in = []\<rparr>"
  by simp

lemma members_sorted:
  assumes "\<not> s_dissolved st"
  shows "sorted_wrt (<) (map vm_identity (w_members (ComputeRosterChecked st cs now)))"
proof -
  obtain f rows where run: "roster_run st cs now f rows" using roster_run [OF assms] by blast
  show ?thesis
    using roster_run_invs(3) [OF run] by (simp add: roster_run_view(1) [OF run] comp_def members_inv_def)
qed

text \<open>
  C4: a fold says what the roster said. Over the owner's next statement, and whatever changes
  arrive that it has folded or that are too old for it, every device computes the roster that was
  folded (only the note in which change a member came in is gone), the same removed list and the
  same title.
\<close>

theorem fold_transparent:
  assumes wf: "statement_wf st" and checked: "well_checked cs" and room: "s_roster_epoch st < - 1"
    and alive: "\<not> s_dissolved st"
    and none: "\<forall>c \<in> set ds. fate (FoldChanges st (ComputeRosterChecked st cs now)) c \<noteq> None"
  shows "w_members (ComputeRosterChecked (FoldChanges st (ComputeRosterChecked st cs now)) ds later)
      = map (\<lambda>m. m\<lparr>vm_added_in := []\<rparr>) (w_members (ComputeRosterChecked st cs now))
    \<and> w_removed (ComputeRosterChecked (FoldChanges st (ComputeRosterChecked st cs now)) ds later)
      = w_removed (ComputeRosterChecked st cs now)
    \<and> w_title (ComputeRosterChecked (FoldChanges st (ComputeRosterChecked st cs now)) ds later)
      = w_title (ComputeRosterChecked st cs now)"
proof -
  let ?V = "ComputeRosterChecked st cs now"
  let ?next = "FoldChanges st ?V"
  let ?W = "ComputeRosterChecked ?next ds later"
  have wf': "statement_wf ?next" by (rule next_wf [OF wf checked room])
  have alive': "\<not> s_dissolved ?next" using alive by simp
  note same = nothing_held [OF wf' alive', of ds later] 
  have ids: "map vm_identity (map (\<lambda>m. m\<lparr>vm_added_in := []\<rparr>) (w_members ?V)) = map vm_identity (w_members ?V)"
    by simp
  have "w_members ?W = map (\<lambda>m. m\<lparr>vm_added_in := []\<rparr>) (w_members ?V)"
  proof (rule sorted_key_unique [of vm_identity])
    show "set (w_members ?W) = set (map (\<lambda>m. m\<lparr>vm_added_in := []\<rparr>) (w_members ?V))"
      using same(1) none alive by (simp add: image_image no_note)
    show "sorted_wrt (<) (map vm_identity (w_members ?W))" by (rule members_sorted [OF alive'])
    show "sorted_wrt (<) (map vm_identity (map (\<lambda>m. m\<lparr>vm_added_in := []\<rparr>) (w_members ?V)))"
      unfolding ids by (rule members_sorted [OF alive])
  qed
  moreover have "w_removed ?W = w_removed ?V"
    by (rule sorted_key_unique [of rv_identity])
      (use removed_rows_ok [OF alive'] removed_rows_ok [OF alive] same(2) none alive in simp_all)
  ultimately show ?thesis using same(3) none alive by simp
qed

subsection \<open>A folded change does not come back\<close>

text \<open>
  What a statement says of a change for good: it is below the floor, or named as folded with its
  base epoch.
\<close>

definition retired :: "statement \<Rightarrow> checked_change \<Rightarrow> bool" where
  "retired st c \<longleftrightarrow> c_base_epoch (cc_change c) < s_change_floor st
     \<or> (\<exists>f \<in> set (s_folded st). fc_id f = cc_id c \<and> fc_base_epoch f = c_base_epoch (cc_change c))"

lemma retired_fate:
  "retired st c \<Longrightarrow> c_group_id (cc_change c) = s_group_id st \<Longrightarrow>
    fate st c \<in> {Some (Dropped, Folded), Some (Dropped, TooOld)}"
  by (auto simp: retired_def fate_def StatementFolded_def)

lemma FoldChanges_floor:
  "\<not> s_dissolved st \<Longrightarrow> s_change_floor st \<le> s_change_floor (FoldChanges st V)"
  by (simp add: FoldChanges_def Let_def next_floor_def)

lemma retired_entry:
  assumes "\<not> s_dissolved st" and "map_of (folded_map st V) (cc_id c) = Some (c_base_epoch (cc_change c))"
  shows "retired (FoldChanges st V) c"
proof (cases "c_base_epoch (cc_change c) < s_change_floor (FoldChanges st V)")
  case False
  obtain n where n: "FoldChanges st V = FoldInto st V n"
    using assms(1) by (simp add: FoldChanges_def Let_def)
  have "\<lparr>fc_id = cc_id c, fc_base_epoch = c_base_epoch (cc_change c)\<rparr> \<in> set (s_folded (FoldInto st V n))"
    using False assms(2) by (simp add: set_folded n not_less)
  then show ?thesis unfolding retired_def n by force
qed (simp add: retired_def)

lemma retired_next:
  assumes "distinct (map fc_id (s_folded st))" and "retired st c"
  shows "retired (FoldChanges st V) c"
proof (cases "s_dissolved st")
  case True
  then show ?thesis using assms(2) by (simp add: retired_def FoldChanges_def Let_def)
next
  case False
  from assms(2) consider "c_base_epoch (cc_change c) < s_change_floor st"
    | f where "f \<in> set (s_folded st)" "fc_id f = cc_id c" "fc_base_epoch f = c_base_epoch (cc_change c)"
    by (auto simp: retired_def)
  then show ?thesis
  proof cases
    case 1
    then show ?thesis using FoldChanges_floor [OF False, of V] order.strict_trans2 unfolding retired_def by blast
  next
    case 2
    then show ?thesis using folded_map_old [OF assms(1) 2(1), of V] by (intro retired_entry [OF False]) simp
  qed
qed

lemma distinct_next: "distinct (map fc_id (s_folded st)) \<Longrightarrow> distinct (map fc_id (s_folded (FoldChanges st V)))"
  using distinct_folded by (simp add: FoldChanges_def Let_def)

text \<open>The statements that follow one by folds alone.\<close>

inductive folding :: "statement \<Rightarrow> statement \<Rightarrow> bool" for st :: statement where
  same: "folding st st"
| fold: "folding st t \<Longrightarrow> folding st (FoldChanges t (ComputeRosterChecked t cs now))"

lemma folding_retired:
  "folding st t \<Longrightarrow> distinct (map fc_id (s_folded st)) \<Longrightarrow> retired st c \<Longrightarrow>
    retired t c \<and> distinct (map fc_id (s_folded t)) \<and> s_group_id t = s_group_id st"
  by (induction rule: folding.induct) (simp_all add: retired_next distinct_next)

lemma verdict_fate:
  assumes "v \<in> set (w_verdicts (ComputeRosterChecked st cs now))" and "c \<in> set (Collapse cs)" and "cc_id c = v_id v"
  shows "v_base_epoch v = c_base_epoch (cc_change c)"
    and "fate st c = Some p \<Longrightarrow> p = (v_status v, v_reason v)"
    and "List.find (\<lambda>u. v_id u = v_id v) (w_verdicts (ComputeRosterChecked st cs now)) = Some v"
proof -
  obtain vs where view: "w_verdicts (ComputeRosterChecked st cs now) = map snd vs"
    and vs: "verdicts_ok st (Collapse cs) vs"
    using roster_verdicts by blast
  have ok: "om_ok vs" using vs by (simp add: verdicts_ok_def)
  obtain i where "(i, v) \<in> set vs" using assms(1) view by force
  then have i: "map_of vs i = Some v" using ok by (simp add: map_of_mem_iff)
  have id: "v_id v = i" by (rule verdict_id [OF vs i])
  from i vs obtain d where d: "d \<in> set (Collapse cs)" "cc_id d = i" "v = verdict_on d (v_status v) (v_reason v)"
    "case fate st d of Some p \<Rightarrow> p = (v_status v, v_reason v) | None \<Rightarrow> v_status v \<noteq> Dropped"
    unfolding verdicts_ok_def by blast
  have "d = c" using Collapse_unique_id [OF d(1) assms(2)] d(2) assms(3) id by simp
  show "v_base_epoch v = c_base_epoch (cc_change c)"
    by (subst d(3)) (simp add: verdict_on_def \<open>d = c\<close>)
  show "fate st c = Some p \<Longrightarrow> p = (v_status v, v_reason v)" using d(4) \<open>d = c\<close> by simp
  have "\<forall>p \<in> set vs. v_id (snd p) = fst p"
    using verdict_id [OF vs] ok by (auto simp: map_of_mem_iff)
  then show "List.find (\<lambda>u. v_id u = v_id v) (w_verdicts (ComputeRosterChecked st cs now)) = Some v"
    using find_verdict [of vs "v_id v"] i id by (simp add: view)
qed

lemma fate_dropped:
  "s_dissolved st \<or> StatementFolded st (cc_id c) \<or> c_group_id (cc_change c) \<noteq> s_group_id st \<Longrightarrow>
    \<exists>r. fate st c = Some (Dropped, r)"
  by (auto simp: fate_def)

lemma find_weaken: "List.find P xs = Some v \<Longrightarrow> Q v \<Longrightarrow> List.find (\<lambda>u. Q u \<and> P u) xs = Some v"
  by (induction xs) (auto split: if_splits)

text \<open>
  C30: a change that is folded, made against a statement the owner had signed, never counts again:
  over every statement that follows by folds it is dropped as folded or as too old.
\<close>

theorem folded_never_again:
  assumes wf: "statement_wf st" and v: "v \<in> set (w_verdicts (ComputeRosterChecked st cs now))" "FoldsIn v"
    and c: "c \<in> set (Collapse cs)" "cc_id c = v_id v" and base: "c_base_epoch (cc_change c) \<le> s_roster_epoch st"
    and later: "folding (FoldChanges st (ComputeRosterChecked st cs now)) t"
  shows "fate t c \<in> {Some (Dropped, Folded), Some (Dropped, TooOld)}"
proof -
  let ?V = "ComputeRosterChecked st cs now"
  have live: "fate st c \<noteq> Some (Dropped, r)" for r
    using v(2) verdict_fate(2) [OF v(1) c, of "(Dropped, r)"] by (auto simp: FoldsIn_def)
  have "\<not> s_dissolved st" "cc_id c \<notin> fc_id ` set (s_folded st)" "c_group_id (cc_change c) = s_group_id st"
    using live fate_dropped [of st c] StatementFolded_def [of st "cc_id c"] by (blast, force, blast)
  note facts = this
  have "List.find (\<lambda>u. FoldsIn u \<and> v_id u = v_id v) (w_verdicts ?V) = Some v"
    by (rule find_weaken [where Q = FoldsIn, OF verdict_fate(3) [OF v(1) c] v(2)])
  then have "map_of (folded_map st ?V) (cc_id c) = Some (min (v_base_epoch v) (s_roster_epoch st))"
    using folded_map_new [OF facts(2), of ?V] by (simp add: c(2))
  also have "min (v_base_epoch v) (s_roster_epoch st) = c_base_epoch (cc_change c)"
    using base verdict_fate(1) [OF v(1) c] by simp
  finally have "retired (FoldChanges st ?V) c" by (rule retired_entry [OF facts(1)])
  moreover have "distinct (map fc_id (s_folded (FoldChanges st ?V)))"
    using wf by (intro distinct_next) (simp add: statement_wf_def AllUnique_def)
  ultimately have "retired t c \<and> s_group_id t = s_group_id st"
    using folding_retired [OF later] by simp
  then show ?thesis using retired_fate facts(3) by simp
qed

text \<open>
  The base epoch is clamped in what the statement keeps but not in what the floor is compared with:
  a change whose base epoch lies ahead of the statement is folded, and lives again once its entry
  has fallen below the floor.
\<close>

definition future_rename :: checked_change where
  "future_rename = sample_rename\<lparr>cc_change := (cc_change sample_rename)\<lparr>c_base_epoch := 1000\<rparr>\<rparr>"

theorem future_change_returns:
  "s_folded (FoldChanges sample_statement (ComputeRosterChecked sample_statement [future_rename] 10))
      = [\<lparr>fc_id = ''3'', fc_base_epoch = 5\<rparr>]
    \<and> fate (FoldChanges sample_statement (ComputeRosterChecked sample_statement [future_rename] 10)) future_rename
      = Some (Dropped, Folded)
    \<and> fate (FoldChanges (sample_statement\<lparr>s_roster_epoch := 40, s_folded := [\<lparr>fc_id = ''3'', fc_base_epoch = 5\<rparr>]\<rparr>)
        (ComputeRosterChecked (sample_statement\<lparr>s_roster_epoch := 40,
           s_folded := [\<lparr>fc_id = ''3'', fc_base_epoch = 5\<rparr>]\<rparr>) [future_rename] 10)) future_rename = None"
  by (intro conjI; code_simp)

subsection \<open>The properties at work\<close>

lemma sample_wf: "statement_wf sample_statement"
  using sample_statement_verifies by (simp add: Verify_ok_iff)

lemma sample_removal_checked: "well_checked [sample_removal]"
proof -
  have "CheckShape (cc_change sample_removal) = Inr ()" by code_simp
  then show ?thesis by (simp add: well_checked_def sample_removal_def sample_checked_def)
qed

lemma sample_room: "s_roster_epoch sample_statement < - 1"
  by (simp add: sample_statement_def)

theorem fold_well_formed_witness:
  "statement_wf (FoldChanges sample_statement (ComputeRosterChecked sample_statement [sample_removal] 10))"
  using fold_well_formed [OF sample_wf sample_removal_checked sample_room, of 10] by blast

theorem fold_transparent_witness:
  "map rv_identity (w_removed (ComputeRosterChecked
      (FoldChanges sample_statement (ComputeRosterChecked sample_statement [sample_removal] 10)) [] 11)) = [''d'']"
proof -
  have "map rv_identity (w_removed (ComputeRosterChecked sample_statement [sample_removal] 10)) = [''d'']"
    by code_simp
  then show ?thesis
    using fold_transparent [OF sample_wf sample_removal_checked sample_room sample_alive, of "[]" 10 11] by simp
qed

theorem folded_never_again_witness:
  "fate (FoldChanges (FoldChanges sample_statement (ComputeRosterChecked sample_statement [sample_removal] 10))
      (ComputeRosterChecked (FoldChanges sample_statement (ComputeRosterChecked sample_statement [sample_removal] 10)) [] 11))
    sample_removal \<in> {Some (Dropped, Folded), Some (Dropped, TooOld)}"
proof -
  let ?V = "ComputeRosterChecked sample_statement [sample_removal] 10"
  have "map (\<lambda>v. (v_id v, FoldsIn v)) (w_verdicts ?V) = [(''2'', True)]" by code_simp
  then obtain v where v: "v \<in> set (w_verdicts ?V)" "v_id v = ''2''" "FoldsIn v" by (auto simp: map_eq_Cons_conv)
  have "Collapse [sample_removal] = [sample_removal]" by (simp add: Collapse_def collapse_one_def)
  then have c: "sample_removal \<in> set (Collapse [sample_removal])" by simp
  have id: "cc_id sample_removal = v_id v" by (simp add: v(2) sample_removal_def sample_checked_def)
  have base: "c_base_epoch (cc_change sample_removal) \<le> s_roster_epoch sample_statement"
    by (simp add: sample_removal_def sample_checked_def sample_remove_def sample_statement_def)
  show ?thesis
    by (rule folded_never_again [OF sample_wf v(1,3) c id base folding.fold [OF folding.same]])
qed

end
