(* ===== verification/GroupStore.thy ===== *)
theory GroupStore
  imports GroupFold
begin

section \<open>The group roster store\<close>

text \<open>
  Models \<open>src/src/lib/storage/SqliteGroupRosterStore.cpp\<close>: the tables of the profile database
  that hold the groups (\<open>kGroupSchemaSql\<close>) and, per function, what its SQL statements do to them.

  A table is an association list sorted by its primary key. Rows come back in key order; where the
  SQL states no \<open>ORDER BY\<close>, SQLite promises no order and no property depends on one.

  Failures of the database are the environment's: \<open>db_faults\<close> is the script of what happens to the
  calls to come. \<open>OpFails e\<close> is a call that cannot open or prepare and returns the error \<open>e\<close>.
  \<open>StepFails n\<close> is a call whose last \<open>sqlite3_step\<close> fails, reads having yielded \<open>n\<close> rows by then:
  the functions that look at the result of the step return an error, the others report success.
  Columns are read back as they were bound (words of enumerations, see the round trips of
  \<open>GroupTypes\<close> and of \<open>InviteStatusToString\<close> here; the policy's JSON). The numbers are SQLite
  integers: where the code adds to one, the model wraps at 64 bits, which SQLite never gets to.
\<close>

subsection \<open>Rows and tables\<close>

record pending_group_send =
  ps_group_id :: string
  ps_recipient :: string
  ps_control_type :: string
  ps_detail_json :: string
  ps_display :: string

record group_ending =
  ge_owner :: string
  ge_roster_epoch :: u64
  ge_statement_json :: string
  ge_sends :: "pending_group_send list"

record stored_change =
  sc_group_id :: string
  sc_change_id :: string
  sc_change_json :: string
  sc_received_at :: time_ms
  sc_line_shown :: bool

record roster_change =
  rc_group_id :: string
  rc_member_gone :: string
  rc_ended :: bool

record group_target =
  gt_thread_id :: string
  gt_session_epoch :: "32 word"
  gt_next_seq :: u64

record member_seq =
  ms_session_epoch :: "32 word"
  ms_next_seq :: u64

datatype fault = NoFault | OpFails roe_error | StepFails nat

record roster_store =
  db_metadata :: "(string \<times> group_metadata) list"
  db_rosters :: "((string \<times> string) \<times> group_roster_member) list"
  db_changes :: "((string \<times> string) \<times> stored_change) list"
  db_sends :: "((string \<times> string \<times> string) \<times> pending_group_send) list"
  db_invites :: "(string \<times> pending_group_invite) list"
  db_targets :: "(string \<times> group_target) list"
  db_member_seq :: "((string \<times> string) \<times> member_seq) list"
  db_notified :: "roster_change list"
  db_faults :: "fault list"

type_synonym 'a store_op = "(roster_store, 'a roe) state"

text \<open>The words an invite's status is stored as.\<close>

fun InviteStatusToString :: "invite_status \<Rightarrow> string" where
  "InviteStatusToString Pending = ''pending''"
| "InviteStatusToString Accepted = ''accepted''"
| "InviteStatusToString Declined = ''declined''"
| "InviteStatusToString Expired = ''expired''"
| "InviteStatusToString Blocked = ''blocked''"

definition InviteStatusFromString :: "string \<Rightarrow> invite_status" where
  "InviteStatusFromString v =
     (if v = ''accepted'' then Accepted else if v = ''declined'' then Declined
      else if v = ''expired'' then Expired else if v = ''blocked'' then Blocked else Pending)"

lemma InviteStatus_roundtrip [enum_words, simp]: "InviteStatusFromString (InviteStatusToString s) = s"
  by (cases s) (simp_all add: InviteStatusFromString_def)

text \<open>A call that may fail, and its early return.\<close>

definition roe_then :: "('s, 'a roe) state \<Rightarrow> ('a \<Rightarrow> ('s, 'b roe) state) \<Rightarrow> ('s, 'b roe) state" where
  "roe_then m f = State_Monad.bind m (\<lambda>r. case r of Inl e \<Rightarrow> State_Monad.return (Inl e) | Inr x \<Rightarrow> f x)"

definition ret_ok :: "'a \<Rightarrow> ('s, 'a roe) state" where
  "ret_ok x = State_Monad.return (Inr x)"

definition ret_err :: "string \<Rightarrow> ('s, 'a roe) state" where
  "ret_err e = State_Monad.return (Inl (Error e))"

definition next_fault :: "(roster_store, fault) state" where
  "next_fault = do {
     s \<leftarrow> State_Monad.get;
     case db_faults s of
       [] \<Rightarrow> State_Monad.return NoFault
     | f # fs \<Rightarrow> do { State_Monad.set (s\<lparr>db_faults := fs\<rparr>); State_Monad.return f }
   }"

text \<open>A query: the rows, as far as they could be read.\<close>

definition db_rows :: "(roster_store \<Rightarrow> 'a list) \<Rightarrow> 'a list store_op" where
  "db_rows q = do {
     f \<leftarrow> next_fault;
     s \<leftarrow> State_Monad.get;
     State_Monad.return (case f of NoFault \<Rightarrow> Inr (q s) | OpFails e \<Rightarrow> Inl e | StepFails n \<Rightarrow> Inr (take n (q s)))
   }"

text \<open>A write whose result is looked at, and one whose step's result is not.\<close>

definition db_write :: "string \<Rightarrow> (roster_store \<Rightarrow> roster_store) \<Rightarrow> unit store_op" where
  "db_write failure u = do {
     f \<leftarrow> next_fault;
     case f of
       NoFault \<Rightarrow> do { State_Monad.update u; ret_ok () }
     | OpFails e \<Rightarrow> State_Monad.return (Inl e)
     | StepFails _ \<Rightarrow> ret_err failure
   }"

definition db_write_unchecked :: "(roster_store \<Rightarrow> roster_store) \<Rightarrow> bool store_op" where
  "db_write_unchecked u = do {
     f \<leftarrow> next_fault;
     case f of
       NoFault \<Rightarrow> do { State_Monad.update u; ret_ok True }
     | OpFails e \<Rightarrow> State_Monad.return (Inl e)
     | StepFails _ \<Rightarrow> ret_ok False
   }"

definition NotifyChanged :: "roster_change \<Rightarrow> roster_store \<Rightarrow> roster_store" where
  "NotifyChanged c s = s\<lparr>db_notified := db_notified s @ [c]\<rparr>"

text \<open>The rows of one group in a table keyed by group and a second key, and without them.\<close>

definition rows_of :: "string \<Rightarrow> ((string \<times> 'k) \<times> 'r) list \<Rightarrow> 'r list" where
  "rows_of g t = map snd (filter (\<lambda>p. fst (fst p) = g) t)"

definition without :: "string \<Rightarrow> ((string \<times> 'k) \<times> 'r) list \<Rightarrow> ((string \<times> 'k) \<times> 'r) list" where
  "without g t = filter (\<lambda>p. fst (fst p) \<noteq> g) t"

subsection \<open>Metadata\<close>

definition UpsertMetadata :: "group_metadata \<Rightarrow> unit store_op" where
  "UpsertMetadata md = db_write ''Failed to upsert group metadata''
     (\<lambda>s. NotifyChanged \<lparr>rc_group_id = md_group_id md, rc_member_gone = [], rc_ended = False\<rparr>
        (s\<lparr>db_metadata := om_put (md_group_id md) md (db_metadata s)\<rparr>))"

definition GetGroupSessionEpoch :: "string \<Rightarrow> (32 word) store_op" where
  "GetGroupSessionEpoch g =
     roe_then (db_rows (\<lambda>s. case map_of (db_targets s) g of None \<Rightarrow> [] | Some t \<Rightarrow> [t])) (\<lambda>rows.
       case rows of [] \<Rightarrow> ret_err ''No group target'' | t # _ \<Rightarrow> ret_ok (gt_session_epoch t))"

definition LoadMetadata :: "string \<Rightarrow> group_metadata option store_op" where
  "LoadMetadata g =
     roe_then (db_rows (\<lambda>s. case map_of (db_metadata s) g of None \<Rightarrow> [] | Some md \<Rightarrow> [md])) (\<lambda>rows.
       case rows of [] \<Rightarrow> ret_ok None
       | md # _ \<Rightarrow> do {
           epoch \<leftarrow> GetGroupSessionEpoch g;
           ret_ok (Some (md\<lparr>md_group_id := g,
             md_session_epoch := (case epoch of Inl _ \<Rightarrow> 1 | Inr e \<Rightarrow> e)\<rparr>))
         })"

definition ListGroupIds :: "string list store_op" where
  "ListGroupIds = db_rows (\<lambda>s. map fst (db_metadata s))"

subsection \<open>Members\<close>

definition UpsertMember :: "string \<Rightarrow> group_roster_member \<Rightarrow> unit store_op" where
  "UpsertMember g m = db_write ''Failed to upsert roster member''
     (\<lambda>s. NotifyChanged \<lparr>rc_group_id = g, rc_member_gone = [], rc_ended = False\<rparr>
        (s\<lparr>db_rosters := om_put (g, rm_identity m) m (db_rosters s)\<rparr>))"

definition RemoveMember :: "string \<Rightarrow> string \<Rightarrow> unit store_op" where
  "RemoveMember g i = do {
     before \<leftarrow> State_Monad.get;
     roe_then (db_write_unchecked (\<lambda>s. s\<lparr>db_rosters := om_erase (g, i) (db_rosters s)\<rparr>)) (\<lambda>done. do {
       let removed = (done \<and> map_of (db_rosters before) (g, i) \<noteq> None);
       State_Monad.update (NotifyChanged \<lparr>rc_group_id = g, rc_member_gone = (if removed then i else []),
         rc_ended = False\<rparr>);
       ret_ok ()
     })
   }"

definition ListMembers :: "string \<Rightarrow> group_roster_member list store_op" where
  "ListMembers g = db_rows (\<lambda>s. rows_of g (db_rosters s))"

definition FindMember :: "string \<Rightarrow> string \<Rightarrow> group_roster_member option store_op" where
  "FindMember g i = roe_then (ListMembers g) (\<lambda>members. ret_ok (List.find (\<lambda>m. rm_identity m = i) members))"

definition IsMember :: "string \<Rightarrow> string \<Rightarrow> bool store_op" where
  "IsMember g i = roe_then (FindMember g i) (\<lambda>m. ret_ok (m \<noteq> None))"

subsection \<open>Invites\<close>

definition UpsertPendingInvite :: "pending_group_invite \<Rightarrow> unit store_op" where
  "UpsertPendingInvite invite = db_write ''Failed to upsert invite''
     (\<lambda>s. s\<lparr>db_invites := om_emplace (pi_nonce invite) invite (db_invites s)\<rparr>)"

definition LoadPendingInvite :: "string \<Rightarrow> pending_group_invite option store_op" where
  "LoadPendingInvite nonce =
     roe_then (db_rows (\<lambda>s. case map_of (db_invites s) nonce of None \<Rightarrow> [] | Some i \<Rightarrow> [i])) (\<lambda>rows.
       case rows of [] \<Rightarrow> ret_ok None | i # _ \<Rightarrow> ret_ok (Some (i\<lparr>pi_nonce := nonce\<rparr>)))"

definition set_status :: "(pending_group_invite \<Rightarrow> bool) \<Rightarrow> invite_status \<Rightarrow> roster_store \<Rightarrow> roster_store" where
  "set_status which status s =
     s\<lparr>db_invites := map (\<lambda>(nonce, i). (nonce, if which i then i\<lparr>pi_status := status\<rparr> else i)) (db_invites s)\<rparr>"

definition UpdateInviteStatus :: "string \<Rightarrow> invite_status \<Rightarrow> unit store_op" where
  "UpdateInviteStatus nonce status =
     roe_then (db_write_unchecked (\<lambda>s. s\<lparr>db_invites := map (\<lambda>(n, i).
       (n, if n = nonce then i\<lparr>pi_status := status\<rparr> else i)) (db_invites s)\<rparr>)) (\<lambda>_. ret_ok ())"

definition CountPendingInvitesSince :: "time_ms \<Rightarrow> nat store_op" where
  "CountPendingInvitesSince since =
     roe_then (db_rows (\<lambda>s. [length (filter (\<lambda>(_, i). pi_status i = Pending \<and> \<not> pi_outbound i
       \<and> pi_created_at i \<ge> since) (db_invites s))])) (\<lambda>rows.
       case rows of [] \<Rightarrow> ret_ok 0 | n # _ \<Rightarrow> ret_ok n)"

definition ExpireOutboundInvitesTo :: "string \<Rightarrow> string \<Rightarrow> unit store_op" where
  "ExpireOutboundInvitesTo g invitee =
     roe_then (db_write_unchecked (set_status (\<lambda>i. pi_group_id i = g \<and> pi_invitee i = invitee
       \<and> pi_outbound i \<and> pi_status i = Pending) Expired)) (\<lambda>_. ret_ok ())"

text \<open>The first of each invitee, of a list.\<close>

fun first_per_invitee :: "pending_group_invite list \<Rightarrow> pending_group_invite list \<Rightarrow> pending_group_invite list" where
  "first_per_invitee seen [] = seen"
| "first_per_invitee seen (i # is) = first_per_invitee
     (if \<exists>other \<in> set seen. pi_invitee other = pi_invitee i then seen else seen @ [i]) is"

definition ListOutboundPendingInvites :: "string \<Rightarrow> time_ms \<Rightarrow> pending_group_invite list store_op" where
  "ListOutboundPendingInvites g now =
     roe_then (db_rows (\<lambda>s. sort_key (\<lambda>i. - pi_created_at i) (map (\<lambda>(n, i). i\<lparr>pi_nonce := n\<rparr>)
       (filter (\<lambda>(_, i). pi_group_id i = g \<and> pi_outbound i \<and> pi_status i = Pending
          \<and> (case pi_expires_at i of None \<Rightarrow> True | Some t \<Rightarrow> t > now)) (db_invites s))))) (\<lambda>rows.
       ret_ok (first_per_invitee [] (map (\<lambda>i. i\<lparr>pi_group_id := g, pi_status := Pending, pi_outbound := True,
         pi_owner := []\<rparr>) rows)))"

text \<open>The voided invites as \<open>VoidPendingInvites\<close> reports them: the columns it reads, else the defaults.\<close>

definition voided_invites :: "string \<Rightarrow> roster_store \<Rightarrow> pending_group_invite list" where
  "voided_invites g s = map (\<lambda>(n, i). i\<lparr>pi_nonce := n, pi_status := Pending, pi_expires_at := None,
       pi_created_at := 0, pi_owner := []\<rparr>)
     (filter (\<lambda>(_, i). pi_group_id i = g \<and> pi_status i = Pending) (db_invites s))"

definition void_pending :: "string \<Rightarrow> roster_store \<Rightarrow> roster_store" where
  "void_pending g = set_status (\<lambda>i. pi_group_id i = g \<and> pi_status i = Pending) Expired"

text \<open>
  Two statements. The loop over the rows ends with a step that fails as it does with the last row, so the
  list may be cut short; every pending invite of the group is voided all the same.
\<close>

definition VoidPendingInvites :: "string \<Rightarrow> pending_group_invite list store_op" where
  "VoidPendingInvites g =
     roe_then (db_rows (voided_invites g)) (\<lambda>voided.
     roe_then (db_write ''Failed to expire invites'' (void_pending g)) (\<lambda>_. ret_ok voided))"

definition ExpirePendingInvitesOf :: "string \<Rightarrow> pending_group_invite list store_op" where
  "ExpirePendingInvitesOf g = VoidPendingInvites g"

subsection \<open>Ending a group\<close>

text \<open>SQLite's two-argument \<open>MAX\<close> on the columns' signed integers.\<close>

definition signed_max :: "u64 \<Rightarrow> u64 \<Rightarrow> u64" where
  "signed_max a b = (if sint a < sint b then b else a)"

definition ended_metadata_row :: "group_ending \<Rightarrow> group_metadata \<Rightarrow> group_metadata" where
  "ended_metadata_row ending md = md\<lparr>md_roster_epoch := signed_max (md_roster_epoch md) (ge_roster_epoch ending),
     md_owner := ge_owner ending, md_sync_state := Dissolved, md_sync_request_id := [],
     md_sync_requested_at := 0, md_statement_json := ge_statement_json ending\<rparr>"

text \<open>A statement of the transaction: any failure of \<open>RunBound\<close> ends it with the word for the step.\<close>

definition RunBound :: "string \<Rightarrow> (roster_store \<Rightarrow> roster_store) \<Rightarrow> unit store_op" where
  "RunBound what u = do {
     f \<leftarrow> next_fault;
     (if f = NoFault then do { State_Monad.update u; ret_ok () } else ret_err what)
   }"

fun keep_sends :: "string \<Rightarrow> pending_group_send list \<Rightarrow> unit store_op" where
  "keep_sends g [] = ret_ok ()"
| "keep_sends g (send # sends) =
     roe_then (RunBound ''pending send''
       (\<lambda>s. s\<lparr>db_sends := om_put (g, ps_recipient send, ps_control_type send) (send\<lparr>ps_group_id := g\<rparr>) (db_sends s)\<rparr>))
     (\<lambda>_. keep_sends g sends)"

text \<open>Whether there is a group to end. A step that fails reads as a group that is not there.\<close>

definition group_open :: "string \<Rightarrow> bool store_op" where
  "group_open g =
     roe_then (db_rows (\<lambda>s. case map_of (db_metadata s) g of None \<Rightarrow> [] | Some md \<Rightarrow> [md_sync_state md]))
       (\<lambda>rows. ret_ok (case rows of [] \<Rightarrow> False | state # _ \<Rightarrow> state \<noteq> Dissolved))"

text \<open>The statements between \<open>BEGIN\<close> and \<open>COMMIT\<close>, the latter included; each may fail.\<close>

definition end_statements :: "string \<Rightarrow> group_ending \<Rightarrow> pending_group_invite list option store_op" where
  "end_statements g ending =
     roe_then (group_open g) (\<lambda>open.
       if \<not> open then ret_ok None
       else roe_then (VoidPendingInvites g) (\<lambda>voided.
         roe_then (RunBound ''roster'' (\<lambda>s. s\<lparr>db_rosters := without g (db_rosters s)\<rparr>)) (\<lambda>_.
         roe_then (RunBound ''roster'' (\<lambda>s. s\<lparr>db_targets := om_erase g (db_targets s)\<rparr>)) (\<lambda>_.
         roe_then (RunBound ''roster'' (\<lambda>s. s\<lparr>db_changes := without g (db_changes s)\<rparr>)) (\<lambda>_.
         roe_then (RunBound ''metadata'' (\<lambda>s. s\<lparr>db_metadata :=
           map (\<lambda>(i, md). (i, if i = g then ended_metadata_row ending md else md)) (db_metadata s)\<rparr>)) (\<lambda>_.
         roe_then (keep_sends g (ge_sends ending)) (\<lambda>_.
         roe_then (RunBound ''commit'' id) (\<lambda>_. ret_ok (Some voided)))))))))"

text \<open>\<open>ROLLBACK\<close>: the database gives back the tables as they were at \<open>BEGIN\<close>.\<close>

definition rollback :: "roster_store \<Rightarrow> (roster_store, unit) state" where
  "rollback before = State_Monad.update (\<lambda>s. before\<lparr>db_faults := db_faults s\<rparr>)"

definition EndGroup :: "string \<Rightarrow> group_ending \<Rightarrow> pending_group_invite list option store_op" where
  "EndGroup g ending =
     roe_then (db_write ''Failed to begin the group ending'' id) (\<lambda>_. do {
       before \<leftarrow> State_Monad.get;
       ended \<leftarrow> end_statements g ending;
       case ended of
         Inl (Error what) \<Rightarrow> do { rollback before; ret_err (''Failed to end the group: '' @ what) }
       | Inr None \<Rightarrow> do { rollback before; ret_ok None }
       | Inr (Some voided) \<Rightarrow> do {
           State_Monad.update (NotifyChanged \<lparr>rc_group_id = g, rc_member_gone = [], rc_ended = True\<rparr>);
           ret_ok (Some voided)
         }
     })"

definition ListPendingSends :: "string \<Rightarrow> pending_group_send list store_op" where
  "ListPendingSends g = db_rows (\<lambda>s. if g = [] then map snd (db_sends s) else rows_of g (db_sends s))"

definition DeletePendingSend :: "pending_group_send \<Rightarrow> unit store_op" where
  "DeletePendingSend send = db_write ''Failed to delete a pending send''
     (\<lambda>s. s\<lparr>db_sends := om_erase (ps_group_id send, ps_recipient send, ps_control_type send) (db_sends s)\<rparr>)"

subsection \<open>Held changes\<close>

definition UpsertGroupChange :: "stored_change \<Rightarrow> unit store_op" where
  "UpsertGroupChange c = db_write ''Failed to keep a group change''
     (\<lambda>s. s\<lparr>db_changes := om_put (sc_group_id c, sc_change_id c) c (db_changes s)\<rparr>)"

definition ListGroupChanges :: "string \<Rightarrow> stored_change list store_op" where
  "ListGroupChanges g = db_rows (\<lambda>s. rows_of g (db_changes s))"

definition DeleteGroupChanges :: "string \<Rightarrow> string list \<Rightarrow> unit store_op" where
  "DeleteGroupChanges g ids =
     (if ids = [] then ret_ok ()
      else db_write ''Failed to drop group changes''
        (\<lambda>s. s\<lparr>db_changes := fold (\<lambda>i. om_erase (g, i)) ids (db_changes s)\<rparr>))"

definition ListGroupsWithChanges :: "string list store_op" where
  "ListGroupsWithChanges = db_rows (\<lambda>s. os_of (map (\<lambda>p. fst (fst p)) (db_changes s)))"

subsection \<open>Send targets and numbering\<close>

definition UpsertGroupTarget :: "string \<Rightarrow> string \<Rightarrow> 32 word \<Rightarrow> u64 \<Rightarrow> unit store_op" where
  "UpsertGroupTarget g thread epoch next_seq = do {
     s \<leftarrow> State_Monad.get;
     if \<exists>(g', t) \<in> set (db_targets s). g' \<noteq> g \<and> gt_thread_id t = thread
     then roe_then (db_write ''Failed to upsert group target'' id) (\<lambda>_. ret_err ''Failed to upsert group target'')
     else db_write ''Failed to upsert group target'' (\<lambda>s. s\<lparr>db_targets :=
       om_put g \<lparr>gt_thread_id = thread, gt_session_epoch = epoch, gt_next_seq = next_seq\<rparr> (db_targets s)\<rparr>)
   }"

definition ClearGroupTarget :: "string \<Rightarrow> unit store_op" where
  "ClearGroupTarget g = roe_then (db_write_unchecked (\<lambda>s. s\<lparr>db_targets := om_erase g (db_targets s)\<rparr>)) (\<lambda>_. ret_ok ())"

definition ClearGroupTargetByThreadId :: "string \<Rightarrow> unit store_op" where
  "ClearGroupTargetByThreadId thread = roe_then (db_write_unchecked (\<lambda>s. s\<lparr>db_targets :=
     filter (\<lambda>(_, t). gt_thread_id t \<noteq> thread) (db_targets s)\<rparr>)) (\<lambda>_. ret_ok ())"

definition FindThreadIdForGroup :: "string \<Rightarrow> string option store_op" where
  "FindThreadIdForGroup g =
     roe_then (db_rows (\<lambda>s. case map_of (db_targets s) g of None \<Rightarrow> [] | Some t \<Rightarrow> [t])) (\<lambda>rows.
       case rows of [] \<Rightarrow> ret_ok None | t # _ \<Rightarrow> ret_ok (Some (gt_thread_id t)))"

text \<open>
  Read, then bump: \<open>StepFails 0\<close> fails the read, a later step's failure leaves the number where it
  was and hands it out all the same.
\<close>

definition AllocateGroupSenderSeq :: "string \<Rightarrow> u64 store_op" where
  "AllocateGroupSenderSeq g = do {
     f \<leftarrow> next_fault;
     s \<leftarrow> State_Monad.get;
     case (f, map_of (db_targets s) g) of
       (OpFails e, _) \<Rightarrow> State_Monad.return (Inl e)
     | (NoFault, Some t) \<Rightarrow> do {
         State_Monad.set (s\<lparr>db_targets := om_put g (t\<lparr>gt_next_seq := gt_next_seq t + 1\<rparr>) (db_targets s)\<rparr>);
         ret_ok (gt_next_seq t)
       }
     | (StepFails (Suc _), Some t) \<Rightarrow> ret_ok (gt_next_seq t)
     | _ \<Rightarrow> ret_err ''No group target for group_id''
   }"

definition seq_counter :: "string \<Rightarrow> string \<Rightarrow> string" where
  "seq_counter member device = (if device = [] then member else member @ ''/'' @ device)"

definition bumped_seq :: "member_seq option \<Rightarrow> 32 word \<Rightarrow> member_seq" where
  "bumped_seq row epoch =
     (case row of
        None \<Rightarrow> \<lparr>ms_session_epoch = epoch, ms_next_seq = 2\<rparr>
      | Some r \<Rightarrow> \<lparr>ms_session_epoch = max (ms_session_epoch r) epoch,
          ms_next_seq = (if epoch > ms_session_epoch r then 2 else ms_next_seq r + 1)\<rparr>)"

definition AllocateMemberSeq :: "string \<Rightarrow> string \<Rightarrow> 32 word \<Rightarrow> string \<Rightarrow> u64 store_op" where
  "AllocateMemberSeq g member epoch device = do {
     f \<leftarrow> next_fault;
     s \<leftarrow> State_Monad.get;
     let key = (g, seq_counter member device);
     let row = bumped_seq (map_of (db_member_seq s) key) epoch;
     case f of
       OpFails e \<Rightarrow> State_Monad.return (Inl e)
     | StepFails _ \<Rightarrow> ret_err ''Failed to allocate group member seq''
     | NoFault \<Rightarrow> do {
         State_Monad.set (s\<lparr>db_member_seq := om_put key row (db_member_seq s)\<rparr>);
         ret_ok (ms_next_seq row - 1)
       }
   }"

definition BumpGroupSessionEpoch :: "string \<Rightarrow> 32 word \<Rightarrow> unit store_op" where
  "BumpGroupSessionEpoch g epoch =
     roe_then (db_write_unchecked (\<lambda>s. s\<lparr>db_targets := map (\<lambda>(i, t). (i, if i = g
       then t\<lparr>gt_session_epoch := epoch, gt_next_seq := 1\<rparr> else t)) (db_targets s)\<rparr>)) (\<lambda>_. ret_ok ())"

end
