(* ===== verification/StoreLaws.thy ===== *)
theory StoreLaws
  imports GroupStore
begin

section \<open>Laws of the store\<close>

text \<open>
  How properties of store operations are proved. \<open>after m Q s\<close> says that \<open>m\<close>, started in \<open>s\<close>,
  ends with a result and a state that satisfy \<open>Q\<close>, whatever fails on the way: the script of
  failures of \<open>s\<close> is replaced by an arbitrary one, and what is left of it is forgotten. Each
  operation of the store has a rule that reduces \<open>after\<close> to what its writes do.

  The tables' invariant \<open>store_ok\<close>; the locale \<open>store_relation\<close>, for relations between the store
  before and after that every write of the membership events respects; and the claims on the
  numbers of \<open>AllocateMemberSeq\<close>, on \<open>EndGroup\<close> and on invites.
\<close>

subsection \<open>Running an operation under any failures\<close>

abbreviation clean :: "roster_store \<Rightarrow> roster_store" where
  "clean s \<equiv> s\<lparr>db_faults := []\<rparr>"

definition after :: "(roster_store, 'a) state \<Rightarrow> ('a \<Rightarrow> roster_store \<Rightarrow> bool) \<Rightarrow> roster_store \<Rightarrow> bool" where
  "after m Q s \<longleftrightarrow> (\<forall>fs. case run_state m (s\<lparr>db_faults := fs\<rparr>) of (r, s') \<Rightarrow> Q r (clean s'))"

named_theorems after_intros "rules that reduce a store operation to its writes"

lemma afterD: "after m Q s \<Longrightarrow> run_state m s = (r, s') \<Longrightarrow> Q r (clean s')"
  by (drule after_def [THEN iffD1], drule spec [of _ "db_faults s"]) simp

lemma after_weaken: "after m Q s \<Longrightarrow> (\<And>r s'. Q r s' \<Longrightarrow> Q' r s') \<Longrightarrow> after m Q' s"
  by (fastforce simp: after_def split: prod.splits)

lemma after_conj: "after m Q s \<Longrightarrow> after m Q' s \<Longrightarrow> after m (\<lambda>r s'. Q r s' \<and> Q' r s') s"
  by (fastforce simp: after_def split: prod.splits)

lemma after_clean [simp]: "after m Q (s\<lparr>db_faults := fs\<rparr>) = after m Q s"
  by (simp add: after_def)

lemma after_return [after_intros]: "Q r (clean s) \<Longrightarrow> after (State_Monad.return r) Q s"
  by (simp add: after_def State_Monad.return_def)

lemma after_ret_ok [after_intros]: "Q (Inr x) (clean s) \<Longrightarrow> after (ret_ok x) Q s"
  unfolding ret_ok_def by (rule after_return)

lemma after_ret_err [after_intros]: "Q (Inl (Error e)) (clean s) \<Longrightarrow> after (ret_err e) Q s"
  unfolding ret_err_def by (rule after_return)

lemma after_bind: "after m (\<lambda>r. after (f r) Q) s \<Longrightarrow> after (State_Monad.bind m f) Q s"
proof (unfold after_def, intro allI)
  fix fs
  assume all: "\<forall>fs. case run_state m (s\<lparr>db_faults := fs\<rparr>) of (r, s') \<Rightarrow>
      \<forall>fs. case run_state (f r) (clean s'\<lparr>db_faults := fs\<rparr>) of (r, s') \<Rightarrow> Q r (clean s')"
  obtain r s' where run: "run_state m (s\<lparr>db_faults := fs\<rparr>) = (r, s')" by (cases "run_state m (s\<lparr>db_faults := fs\<rparr>)")
  have "\<forall>fs. case run_state (f r) (clean s'\<lparr>db_faults := fs\<rparr>) of (r, s') \<Rightarrow> Q r (clean s')"
    using spec [OF all, of fs] run by simp
  from spec [OF this, of "db_faults s'"]
  have "case run_state (f r) s' of (r, s') \<Rightarrow> Q r (clean s')" by simp
  then show "case run_state (State_Monad.bind m f) (s\<lparr>db_faults := fs\<rparr>) of (r, s') \<Rightarrow> Q r (clean s')"
    using run by (simp add: State_Monad.bind_def split: prod.splits)
qed

lemma after_roe_then [after_intros]:
  "after m (\<lambda>r s'. case r of Inl e \<Rightarrow> Q (Inl e) (clean s') | Inr x \<Rightarrow> after (f x) Q s') s \<Longrightarrow> after (roe_then m f) Q s"
  unfolding roe_then_def
  by (rule after_bind, erule after_weaken) (auto intro: after_return split: sum.splits)

lemma after_get: "(\<And>fs. after (f (s\<lparr>db_faults := fs\<rparr>)) Q s) \<Longrightarrow> after (State_Monad.bind State_Monad.get f) Q s"
  by (fastforce simp: after_def State_Monad.bind_def State_Monad.get_def)

lemma after_update [after_intros]: "(\<And>fs. Q () (clean (u (s\<lparr>db_faults := fs\<rparr>)))) \<Longrightarrow> after (State_Monad.update u) Q s"
  by (simp add: after_def State_Monad.update_def State_Monad.bind_def State_Monad.get_def State_Monad.set_def)

lemma after_next_fault: "(\<And>f. Q f (clean s)) \<Longrightarrow> after next_fault Q s"
  by (auto simp: after_def next_fault_def State_Monad.bind_def State_Monad.get_def State_Monad.set_def
      State_Monad.return_def split: prod.splits list.splits)

lemma after_set: "Q () (clean t) \<Longrightarrow> after (State_Monad.set t) Q s"
  by (simp add: after_def State_Monad.set_def)

text \<open>The three kinds of calls.\<close>

lemma after_db_write [after_intros]:
  assumes "\<And>e. Q (Inl e) (clean s)" and "\<And>fs. Q (Inr ()) (clean (u (s\<lparr>db_faults := fs\<rparr>)))"
  shows "after (db_write failure u) Q s"
  unfolding db_write_def
  by (intro after_bind after_next_fault)
    (auto intro!: after_bind after_update after_ret_ok after_ret_err after_return assms split: fault.split
      simp: assms)

lemma after_db_write_unchecked [after_intros]:
  assumes "\<And>e. Q (Inl e) (clean s)" and "\<And>fs. Q (Inr True) (clean (u (s\<lparr>db_faults := fs\<rparr>)))"
    and "Q (Inr False) (clean s)"
  shows "after (db_write_unchecked u) Q s"
  unfolding db_write_unchecked_def
  by (intro after_bind after_next_fault)
    (auto intro!: after_bind after_update after_ret_ok after_return assms split: fault.split simp: assms)

lemma after_db_rows [after_intros]:
  assumes "\<And>e. Q (Inl e) (clean s)" and "\<And>fs. Q (Inr (q (s\<lparr>db_faults := fs\<rparr>))) (clean s)"
    and "\<And>fs n. Q (Inr (take n (q (s\<lparr>db_faults := fs\<rparr>)))) (clean s)"
  shows "after (db_rows q) Q s"
  unfolding db_rows_def
  by (intro after_bind after_next_fault after_get) (auto intro!: after_return assms split: fault.split)

lemma after_if: "(b \<Longrightarrow> after m Q s) \<Longrightarrow> (\<not> b \<Longrightarrow> after n Q s) \<Longrightarrow> after (if b then m else n) Q s"
  by simp

lemma after_option:
  "(x = None \<Longrightarrow> after m Q s) \<Longrightarrow> (\<And>v. x = Some v \<Longrightarrow> after (f v) Q s) \<Longrightarrow>
    after (case x of None \<Rightarrow> m | Some v \<Rightarrow> f v) Q s"
  by (cases x) simp_all


subsection \<open>The tables' invariant\<close>

definition keyed_by :: "('r \<Rightarrow> 'k::linorder) \<Rightarrow> ('k \<times> 'r) list \<Rightarrow> bool" where
  "keyed_by key t \<longleftrightarrow> om_ok t \<and> (\<forall>(k, r) \<in> set t. key r = k)"

lemma keyed_by_Nil [simp]: "keyed_by key []"
  by (simp add: keyed_by_def)

lemma keyed_by_put [simp]: "keyed_by key t \<Longrightarrow> key r = k \<Longrightarrow> keyed_by key (om_put k r t)"
  using set_om_put [of k r t] by (auto simp: keyed_by_def)

lemma keyed_by_emplace [simp]: "keyed_by key t \<Longrightarrow> key r = k \<Longrightarrow> keyed_by key (om_emplace k r t)"
  by (simp add: om_emplace_def)

lemma keyed_by_erase [simp]: "keyed_by key t \<Longrightarrow> keyed_by key (om_erase k t)"
  using set_om_erase [of k t] by (auto simp: keyed_by_def)

lemma om_ok_filter [simp]: "om_ok t \<Longrightarrow> om_ok (filter P t)"
  unfolding om_ok_def by (simp add: sorted_wrt_filter sorted_wrt_map)

lemma keyed_by_filter [simp]: "keyed_by key t \<Longrightarrow> keyed_by key (filter P t)"
  by (auto simp: keyed_by_def)

lemma keyed_by_without [simp]: "keyed_by key t \<Longrightarrow> keyed_by key (without g t)"
  by (simp add: without_def)

lemma om_ok_map_rows: "om_ok (map (\<lambda>(k, r). (k, f k r)) t) = om_ok t"
  by (simp add: om_ok_def comp_def case_prod_unfold)

lemma map_of_map_rows: "map_of (map (\<lambda>(k, r). (k, f k r)) t) k = map_option (f k) (map_of t k)"
  by (induction t) auto

lemma keyed_by_map [simp]:
  "keyed_by key t \<Longrightarrow> (\<And>k r. key (f k r) = key r) \<Longrightarrow> keyed_by key (map (\<lambda>(k, r). (k, f k r)) t)"
  by (auto simp: keyed_by_def om_ok_map_rows)

lemma keyed_by_fold [simp]:
  "keyed_by key t \<Longrightarrow> (\<And>x. key (row x) = k x) \<Longrightarrow> keyed_by key (fold (\<lambda>x. om_put (k x) (row x)) xs t)"
  by (induction xs arbitrary: t) auto

lemma keyed_by_fold_erase [simp]: "keyed_by key t \<Longrightarrow> keyed_by key (fold (\<lambda>x. om_erase (k x)) xs t)"
  by (induction xs arbitrary: t) auto

lemma keyed_by_lookup: "keyed_by key t \<Longrightarrow> map_of t k = Some r \<Longrightarrow> key r = k"
  by (auto simp: keyed_by_def dest: map_of_SomeD)

text \<open>Each table is sorted by its key, the rows agree with their keys, and a thread has one target.\<close>

definition one_target_per_thread :: "(string \<times> group_target) list \<Rightarrow> bool" where
  "one_target_per_thread t \<longleftrightarrow> distinct (map (\<lambda>p. gt_thread_id (snd p)) t)"

definition targets_ok :: "(string \<times> group_target) list \<Rightarrow> bool" where
  "targets_ok t \<longleftrightarrow> om_ok t \<and> one_target_per_thread t"

definition rosters_ok :: "((string \<times> string) \<times> group_roster_member) list \<Rightarrow> bool" where
  "rosters_ok t \<longleftrightarrow> om_ok t \<and> (\<forall>(k, m) \<in> set t. rm_identity m = snd k)"

abbreviation change_key :: "stored_change \<Rightarrow> string \<times> string" where
  "change_key c \<equiv> (sc_group_id c, sc_change_id c)"

abbreviation send_key :: "pending_group_send \<Rightarrow> string \<times> string \<times> string" where
  "send_key p \<equiv> (ps_group_id p, ps_recipient p, ps_control_type p)"

definition store_ok :: "roster_store \<Rightarrow> bool" where
  "store_ok s \<longleftrightarrow> keyed_by md_group_id (db_metadata s) \<and> rosters_ok (db_rosters s)
     \<and> keyed_by change_key (db_changes s) \<and> keyed_by send_key (db_sends s)
     \<and> keyed_by pi_nonce (db_invites s) \<and> targets_ok (db_targets s) \<and> om_ok (db_member_seq s)"

lemma store_ok_clean [simp]: "store_ok (s\<lparr>db_faults := fs\<rparr>) = store_ok s"
  by (simp add: store_ok_def)

lemma store_ok_NotifyChanged [simp]: "store_ok (NotifyChanged c s) = store_ok s"
  by (simp add: store_ok_def NotifyChanged_def)

lemma store_ok_updates [simp]:
  assumes "store_ok s"
  shows "store_ok (s\<lparr>db_metadata := md\<rparr>) = keyed_by md_group_id md"
    "store_ok (s\<lparr>db_rosters := r\<rparr>) = rosters_ok r"
    "store_ok (s\<lparr>db_changes := c\<rparr>) = keyed_by change_key c"
    "store_ok (s\<lparr>db_sends := p\<rparr>) = keyed_by send_key p"
    "store_ok (s\<lparr>db_invites := i\<rparr>) = keyed_by pi_nonce i"
    "store_ok (s\<lparr>db_targets := t\<rparr>) = targets_ok t"
    "store_ok (s\<lparr>db_member_seq := q\<rparr>) = om_ok q"
  using assms by (simp_all add: store_ok_def)

lemma store_ok_tables [simp]:
  assumes "store_ok s"
  shows "keyed_by md_group_id (db_metadata s)" "rosters_ok (db_rosters s)" "keyed_by change_key (db_changes s)"
    "keyed_by send_key (db_sends s)" "keyed_by pi_nonce (db_invites s)" "targets_ok (db_targets s)"
    "om_ok (db_member_seq s)"
  using assms by (simp_all add: store_ok_def)

lemma rosters_ok_put [simp]: "rosters_ok t \<Longrightarrow> rm_identity m = i \<Longrightarrow> rosters_ok (om_put (g, i) m t)"
  using set_om_put [of "(g, i)" m t] by (auto simp: rosters_ok_def)

lemma rosters_ok_erase [simp]: "rosters_ok t \<Longrightarrow> rosters_ok (om_erase k t)"
  using set_om_erase [of k t] by (auto simp: rosters_ok_def)

lemma rosters_ok_without [simp]: "rosters_ok t \<Longrightarrow> rosters_ok (without g t)"
  by (auto simp: rosters_ok_def without_def)

lemma one_target_filter: "one_target_per_thread t \<Longrightarrow> one_target_per_thread (filter P t)"
  unfolding one_target_per_thread_def by (rule distinct_map_filter)

lemma one_target_erase: "om_ok t \<Longrightarrow> one_target_per_thread t \<Longrightarrow> one_target_per_thread (om_erase k t)"
proof -
  assume "om_ok t" "one_target_per_thread t"
  then have "om_erase k t = filter (\<lambda>p. fst p \<noteq> k) t"
  proof (induction k t rule: om_erase.induct)
    case (2 k a b m)
    have "filter (\<lambda>p. fst p \<noteq> a) m = m" using 2(2) by (auto intro!: filter_True)
    with 2 show ?case by (auto simp: one_target_per_thread_def)
  qed simp
  with \<open>one_target_per_thread t\<close> show ?thesis by (simp add: one_target_filter)
qed

lemma one_target_map:
  "one_target_per_thread t \<Longrightarrow> (\<And>k r. gt_thread_id (f k r) = gt_thread_id r) \<Longrightarrow>
    one_target_per_thread (map (\<lambda>(k, r). (k, f k r)) t)"
  by (simp add: one_target_per_thread_def comp_def case_prod_unfold)

lemma one_target_put:
  "one_target_per_thread t \<Longrightarrow> (\<forall>(k', r') \<in> set t. k' \<noteq> k \<longrightarrow> gt_thread_id r' \<noteq> gt_thread_id r) \<Longrightarrow>
    om_ok t \<Longrightarrow> one_target_per_thread (om_put k r t)"
proof (induction k r t rule: om_put.induct)
  case (2 k v a b m)
  have away: "gt_thread_id (snd p) \<noteq> gt_thread_id v" if "p \<in> set m" "fst p \<noteq> k" for p
    using 2(3) that by (cases p) auto
  have above: "k < fst p" if "k \<le> a" "p \<in> set m" for p
    using 2(4) that by (cases p) auto
  show ?case
  proof (cases "k \<le> a")
    case True
    then have "gt_thread_id v \<notin> (\<lambda>p. gt_thread_id (snd p)) ` set m" using away above by fastforce
    with True 2(2,3) show ?thesis by (auto simp: one_target_per_thread_def)
  next
    case False
    have "gt_thread_id b \<noteq> gt_thread_id v" using 2(3) False by auto
    moreover have "set (om_put k v m) \<subseteq> insert (k, v) (set m)" by (rule set_om_put)
    ultimately have "gt_thread_id b \<notin> (\<lambda>p. gt_thread_id (snd p)) ` set (om_put k v m)"
      using 2(2) by (force simp: one_target_per_thread_def)
    with False 2 show ?thesis by (auto simp: one_target_per_thread_def)
  qed
qed (simp add: one_target_per_thread_def)


lemma targets_ok_filter [simp]: "targets_ok t \<Longrightarrow> targets_ok (filter P t)"
  by (simp add: targets_ok_def one_target_filter)

lemma targets_ok_erase [simp]: "targets_ok t \<Longrightarrow> targets_ok (om_erase k t)"
  by (simp add: targets_ok_def one_target_erase)

lemma targets_ok_map [simp]:
  "targets_ok t \<Longrightarrow> (\<And>k r. gt_thread_id (f k r) = gt_thread_id r) \<Longrightarrow> targets_ok (map (\<lambda>(k, r). (k, f k r)) t)"
  by (simp add: targets_ok_def om_ok_map_rows one_target_map)

lemma targets_ok_put:
  "targets_ok t \<Longrightarrow> \<forall>(k', r') \<in> set t. k' \<noteq> k \<longrightarrow> gt_thread_id r' \<noteq> gt_thread_id r \<Longrightarrow> targets_ok (om_put k r t)"
  by (simp add: targets_ok_def one_target_put)

text \<open>A target that keeps its thread.\<close>

lemma targets_ok_same_thread [simp]:
  assumes "targets_ok t" "map_of t g = Some r" "gt_thread_id r' = gt_thread_id r"
  shows "targets_ok (om_put g r' t)"
proof (rule targets_ok_put [OF assms(1)], clarify)
  fix g' x assume x: "(g', x) \<in> set t" "g' \<noteq> g" "gt_thread_id x = gt_thread_id r'"
  have "(g, r) \<in> set t" using assms(2) by (rule map_of_SomeD)
  moreover have inj: "inj_on (\<lambda>p. gt_thread_id (snd p)) (set t)"
    using assms(1) by (simp add: targets_ok_def one_target_per_thread_def distinct_map)
  ultimately have "(g', x) = (g, r)" using inj_onD [OF inj, of "(g', x)" "(g, r)"] x(1,3) assms(3) by simp
  with x(2) show False by simp
qed

subsection \<open>Every write keeps the invariant\<close>

text \<open>The calls that write, and a run of them.\<close>

datatype store_call =
    PutMetadata group_metadata
  | PutMember string group_roster_member
  | DropMember string string
  | PutInvite pending_group_invite
  | SetInvite string invite_status
  | ExpireInvitesTo string string
  | ExpireInvitesOf string
  | End string group_ending
  | DropSend pending_group_send
  | PutChange stored_change
  | DropChanges string "string list"
  | PutTarget string string "32 word" u64
  | DropTarget string
  | DropTargetOfThread string
  | NextSeq string
  | NextMemberSeq string string "32 word" string
  | BumpEpoch string "32 word"

fun perform :: "store_call \<Rightarrow> unit store_op" where
  "perform (PutMetadata md) = UpsertMetadata md"
| "perform (PutMember g m) = UpsertMember g m"
| "perform (DropMember g i) = RemoveMember g i"
| "perform (PutInvite i) = UpsertPendingInvite i"
| "perform (SetInvite nonce status) = UpdateInviteStatus nonce status"
| "perform (ExpireInvitesTo g i) = ExpireOutboundInvitesTo g i"
| "perform (ExpireInvitesOf g) = roe_then (ExpirePendingInvitesOf g) (\<lambda>_. ret_ok ())"
| "perform (End g ending) = roe_then (EndGroup g ending) (\<lambda>_. ret_ok ())"
| "perform (DropSend p) = DeletePendingSend p"
| "perform (PutChange c) = UpsertGroupChange c"
| "perform (DropChanges g ids) = DeleteGroupChanges g ids"
| "perform (PutTarget g thread epoch seq) = UpsertGroupTarget g thread epoch seq"
| "perform (DropTarget g) = ClearGroupTarget g"
| "perform (DropTargetOfThread thread) = ClearGroupTargetByThreadId thread"
| "perform (NextSeq g) = roe_then (AllocateGroupSenderSeq g) (\<lambda>_. ret_ok ())"
| "perform (NextMemberSeq g m epoch device) = roe_then (AllocateMemberSeq g m epoch device) (\<lambda>_. ret_ok ())"
| "perform (BumpEpoch g epoch) = BumpGroupSessionEpoch g epoch"

fun store_run :: "store_call list \<Rightarrow> roster_store \<Rightarrow> roster_store" where
  "store_run [] s = s"
| "store_run (c # cs) s = store_run cs (snd (run_state (perform c) s))"

definition empty_store :: "fault list \<Rightarrow> roster_store" where
  "empty_store faults = \<lparr>db_metadata = [], db_rosters = [], db_changes = [], db_sends = [], db_invites = [],
     db_targets = [], db_member_seq = [], db_notified = [], db_faults = faults\<rparr>"

lemma store_ok_set_status [simp]: "store_ok s \<Longrightarrow> store_ok (set_status P status s)"
  by (simp add: set_status_def)

text \<open>What an ending comes to, in one step.\<close>

definition ended_store :: "string \<Rightarrow> group_ending \<Rightarrow> roster_store \<Rightarrow> roster_store" where
  "ended_store g ending s = (void_pending g s)\<lparr>
     db_rosters := without g (db_rosters s),
     db_targets := om_erase g (db_targets s),
     db_changes := without g (db_changes s),
     db_metadata := map (\<lambda>(i, md). (i, if i = g then ended_metadata_row ending md else md)) (db_metadata s),
     db_sends := fold (\<lambda>send. om_put (g, ps_recipient send, ps_control_type send) (send\<lparr>ps_group_id := g\<rparr>))
       (ge_sends ending) (db_sends s)\<rparr>"

lemma ended_metadata_row_simps [simp]:
  "md_roster_epoch (ended_metadata_row ending md) = signed_max (md_roster_epoch md) (ge_roster_epoch ending)"
  "md_owner (ended_metadata_row ending md) = ge_owner ending" "md_sync_state (ended_metadata_row ending md) = Dissolved"
  "md_sync_request_id (ended_metadata_row ending md) = []" "md_group_id (ended_metadata_row ending md) = md_group_id md"
  "md_statement_json (ended_metadata_row ending md) = ge_statement_json ending"
  by (simp_all add: ended_metadata_row_def)

lemma store_ok_ended [simp]: "store_ok s \<Longrightarrow> store_ok (ended_store g ending s)"
  by (simp add: ended_store_def void_pending_def)

lemma after_AllocateGroupSenderSeq:
  assumes "\<And>e. Q (Inl e) (clean s)"
    and "\<And>t. map_of (db_targets s) g = Some t \<Longrightarrow> Q (Inr (gt_next_seq t)) (clean s)"
    and "\<And>t. map_of (db_targets s) g = Some t \<Longrightarrow> Q (Inr (gt_next_seq t))
      (clean (s\<lparr>db_targets := om_put g (t\<lparr>gt_next_seq := gt_next_seq t + 1\<rparr>) (db_targets s)\<rparr>))"
  shows "after (AllocateGroupSenderSeq g) Q s"
  unfolding AllocateGroupSenderSeq_def
  by (rule after_bind, rule after_next_fault, rule after_get)
    (auto intro!: after_bind after_set after_return after_ret_ok after_ret_err assms
      split: fault.split option.split nat.split simp: assms)

lemma after_AllocateMemberSeq:
  assumes "\<And>e. Q (Inl e) (clean s)"
    and "Q (Inr (ms_next_seq (bumped_seq (map_of (db_member_seq s) (g, seq_counter m d)) epoch) - 1))
      (clean (s\<lparr>db_member_seq := om_put (g, seq_counter m d)
        (bumped_seq (map_of (db_member_seq s) (g, seq_counter m d)) epoch) (db_member_seq s)\<rparr>))"
  shows "after (AllocateMemberSeq g m epoch d) Q s"
  unfolding AllocateMemberSeq_def Let_def
  by (rule after_bind, rule after_next_fault, rule after_get)
    (auto intro!: after_bind after_set after_return after_ret_ok after_ret_err assms
      split: fault.split simp: assms)

text \<open>
  \<open>EndGroup\<close>: an error, or nothing to end, leaves everything, whichever statement failed; otherwise all of
  it happens, and the list of voided invites is the whole one or its beginning.
\<close>

lemma after_RunBound:
  assumes "Q (Inl (Error what)) (clean s)" and "\<And>fs. Q (Inr ()) (clean (u (s\<lparr>db_faults := fs\<rparr>)))"
  shows "after (RunBound what u) Q s"
  unfolding RunBound_def
  by (intro after_bind after_next_fault) (auto intro!: after_bind after_update after_ret_ok after_ret_err assms simp: assms)

lemma after_keep_sends:
  assumes "\<And>what t. Q (Inl (Error what)) t"
    and "Q (Inr ()) (clean s\<lparr>db_sends := fold (\<lambda>send. om_put (g, ps_recipient send, ps_control_type send)
      (send\<lparr>ps_group_id := g\<rparr>)) sends (db_sends s)\<rparr>)"
  shows "after (keep_sends g sends) Q s"
  using assms(2)
proof (induction sends arbitrary: s)
  case (Cons send sends)
  show ?case
    unfolding keep_sends.simps
    by (rule after_roe_then, rule after_RunBound) (use assms(1) Cons in \<open>auto intro!: Cons.IH\<close>)
qed (auto intro: after_ret_ok)

lemma after_VoidPendingInvites:
  assumes "\<And>e. Q (Inl e) (clean s)" and "\<And>n. Q (Inr (take n (voided_invites g s))) (clean (void_pending g s))"
  shows "after (VoidPendingInvites g) Q s"
proof -
  have all: "Q (Inr (voided_invites g s)) (clean (void_pending g s))"
    using assms(2) [of "length (voided_invites g s)"] by simp
  have same: "voided_invites g (s\<lparr>db_faults := fs\<rparr>) = voided_invites g s"
    "clean (void_pending g (s\<lparr>db_faults := fs\<rparr>)) = clean (void_pending g s)" for fs
    by (simp_all add: voided_invites_def void_pending_def set_status_def)
  show ?thesis
    unfolding VoidPendingInvites_def
    by (rule after_roe_then, rule after_db_rows)
      (auto simp: assms all same intro!: after_roe_then after_db_write after_ret_ok)
qed

lemma after_group_open:
  assumes "\<And>e. Q (Inl e) (clean s)" and "Q (Inr False) (clean s)"
    and "\<And>md. map_of (db_metadata s) g = Some md \<Longrightarrow> md_sync_state md \<noteq> Dissolved \<Longrightarrow> Q (Inr True) (clean s)"
  shows "after (group_open g) Q s"
proof -
  have "Q (Inr (case take n (case map_of (db_metadata s) g of None \<Rightarrow> [] | Some md \<Rightarrow> [md_sync_state md]) of
      [] \<Rightarrow> False | st # _ \<Rightarrow> st \<noteq> Dissolved)) (clean s)" for n
    using assms(2,3) by (cases "map_of (db_metadata s) g"; cases n; cases "\<exists>md. map_of (db_metadata s) g = Some md \<and> md_sync_state md = Dissolved") auto
  from this this [of 1] show ?thesis
    unfolding group_open_def
    by (intro after_roe_then after_db_rows) (auto intro!: after_ret_ok assms split: option.split)
qed

lemma after_end_statements:
  assumes "\<And>e t. Q (Inl e) t" and "\<And>t. Q (Inr None) t"
    and "\<And>md n. map_of (db_metadata s) g = Some md \<Longrightarrow> md_sync_state md \<noteq> Dissolved \<Longrightarrow>
      Q (Inr (Some (take n (voided_invites g s)))) (clean (ended_store g ending s))"
  shows "after (end_statements g ending) Q s"
proof -
  let ?s = "void_pending g s"
  have statements: "clean (?s\<lparr>db_rosters := without g (db_rosters ?s), db_targets := om_erase g (db_targets ?s),
      db_changes := without g (db_changes ?s),
      db_metadata := map (\<lambda>(i, md). (i, if i = g then ended_metadata_row ending md else md)) (db_metadata ?s),
      db_sends := fold (\<lambda>send. om_put (g, ps_recipient send, ps_control_type send) (send\<lparr>ps_group_id := g\<rparr>))
        (ge_sends ending) (db_sends ?s)\<rparr>) = clean (ended_store g ending s)"
    by (simp add: ended_store_def void_pending_def set_status_def)
  have writes: "after (roe_then (RunBound ''roster'' (\<lambda>s. s\<lparr>db_rosters := without g (db_rosters s)\<rparr>)) (\<lambda>_.
      roe_then (RunBound ''roster'' (\<lambda>s. s\<lparr>db_targets := om_erase g (db_targets s)\<rparr>)) (\<lambda>_.
      roe_then (RunBound ''roster'' (\<lambda>s. s\<lparr>db_changes := without g (db_changes s)\<rparr>)) (\<lambda>_.
      roe_then (RunBound ''metadata'' (\<lambda>s. s\<lparr>db_metadata :=
        map (\<lambda>(i, md). (i, if i = g then ended_metadata_row ending md else md)) (db_metadata s)\<rparr>)) (\<lambda>_.
      roe_then (keep_sends g (ge_sends ending)) (\<lambda>_.
      roe_then (RunBound ''commit'' id) (\<lambda>_. ret_ok (Some voided)))))))) Q ?s"
    if "Q (Inr (Some voided)) (clean (ended_store g ending s))" for voided
    by ((rule after_roe_then, rule after_RunBound, use assms(1) in simp, unfold sum.case)+,
        rule after_roe_then, rule after_keep_sends)
      (use assms(1) that in \<open>auto simp: statements intro!: after_roe_then after_RunBound after_ret_ok\<close>)
  show ?thesis
    unfolding end_statements_def
  proof (rule after_roe_then, rule after_group_open, goal_cases)
    case (3 md)
    then show ?case using assms(1) assms(3) [OF 3]
      by (auto intro!: after_roe_then after_VoidPendingInvites writes)
  qed (use assms in \<open>auto intro: after_ret_ok\<close>)
qed

lemma after_EndGroup:
  assumes "\<And>e. Q (Inl e) (clean s)" and "Q (Inr None) (clean s)"
    and "\<And>md n. map_of (db_metadata s) g = Some md \<Longrightarrow> md_sync_state md \<noteq> Dissolved \<Longrightarrow>
      Q (Inr (Some (take n (voided_invites g s))))
        (clean (NotifyChanged \<lparr>rc_group_id = g, rc_member_gone = [], rc_ended = True\<rparr> (ended_store g ending s)))"
  shows "after (EndGroup g ending) Q s"
proof -
  let ?c = "\<lparr>rc_group_id = g, rc_member_gone = [], rc_ended = True\<rparr>"
  have inner: "after (end_statements g ending) (\<lambda>ended t. case ended of
      Inl _ \<Rightarrow> True | Inr None \<Rightarrow> True
    | Inr (Some voided) \<Rightarrow> t = clean (ended_store g ending s)
        \<and> (\<exists>md n. map_of (db_metadata s) g = Some md \<and> md_sync_state md \<noteq> Dissolved \<and> voided = take n (voided_invites g s))) s"
    by (rule after_end_statements) auto
  show ?thesis
    unfolding EndGroup_def rollback_def
  proof (rule after_roe_then, rule after_db_write, goal_cases)
    case (2 fs)
    show ?case
      unfolding sum.case id_apply after_clean
    proof (rule after_get, rule after_bind, rule after_weaken [OF inner], goal_cases)
      case (1 fs r t)
      show ?case
      proof (cases r)
        case (Inl x)
        then show ?thesis
          by (cases x) (auto intro!: after_bind after_update after_ret_err assms)
      next
        case (Inr x)
        show ?thesis
        proof (cases x)
          case None
          with Inr show ?thesis by (auto intro!: after_bind after_update after_ret_ok assms)
        next
          case (Some voided)
          with 1 Inr obtain md n where t: "t = clean (ended_store g ending s)" "map_of (db_metadata s) g = Some md"
            "md_sync_state md \<noteq> Dissolved" "voided = take n (voided_invites g s)" by auto
          have "after (do { State_Monad.update (NotifyChanged ?c); ret_ok (Some voided) }) Q t"
            unfolding t(1,4) after_clean
            by (intro after_bind after_update after_ret_ok) (use assms(3) [OF t(2,3)] in \<open>simp add: NotifyChanged_def\<close>)
          then show ?thesis by (simp add: Inr Some)
        qed
      qed
    qed
  qed (simp add: assms)
qed

lemma keeps_perform:
  assumes ok: "store_ok s" shows "after (perform c) (\<lambda>_. store_ok) s"
proof (cases c)
  case (DropMember g i)
  show ?thesis
    unfolding DropMember perform.simps RemoveMember_def
    by (rule after_get, rule after_roe_then) (auto simp: ok intro!: after_bind after_intros)
next
  case (PutTarget g thread epoch seq)
  show ?thesis
    unfolding PutTarget perform.simps UpsertGroupTarget_def
    by (rule after_get) (force simp: ok intro!: after_intros targets_ok_put)
next
  case (ExpireInvitesOf g)
  show ?thesis
    unfolding ExpireInvitesOf perform.simps ExpirePendingInvitesOf_def
    by (rule after_roe_then, rule after_VoidPendingInvites)
      (auto simp: ok void_pending_def intro!: after_ret_ok)
qed (auto intro!: after_intros after_AllocateGroupSenderSeq after_AllocateMemberSeq after_EndGroup
    simp: ok UpsertMetadata_def UpsertMember_def UpsertPendingInvite_def UpdateInviteStatus_def
      ExpireOutboundInvitesTo_def DeletePendingSend_def
      UpsertGroupChange_def DeleteGroupChanges_def ClearGroupTarget_def ClearGroupTargetByThreadId_def
      BumpGroupSessionEpoch_def)

lemma store_ok_run: "store_ok s \<Longrightarrow> store_ok (store_run cs s)"
proof (induction cs arbitrary: s)
  case (Cons c cs)
  obtain r s' where run: "run_state (perform c) s = (r, s')" by (cases "run_state (perform c) s")
  have "store_ok s'" using afterD [OF keeps_perform [OF Cons.prems] run] by simp
  from Cons.IH [OF this] show ?case by (simp add: run)
qed simp

lemma store_ok_empty [simp]: "store_ok (empty_store fs)"
  by (simp add: store_ok_def empty_store_def rosters_ok_def targets_ok_def one_target_per_thread_def)

text \<open>
  The store keeps its shape. Whatever calls are made on it (any sequence of the writing
  operations, from the empty database) and whatever fails during them, every table stays sorted
  with distinct keys, every row agrees with the key it stands under (a roster row with its member,
  an invite with its nonce, a held change and a pending send with their keys, metadata with its
  group), and no two groups share a chat thread.
\<close>

theorem store_keeps_its_shape: "store_ok (store_run cs (empty_store faults))"
  by (rule store_ok_run) simp

end
