(* ===== verification/StoreClaims.thy ===== *)
theory StoreClaims
  imports StoreLaws
begin

section \<open>What the store promises\<close>

text \<open>
  The claims on the store's operations: the numbers of a member's copies, the end of a group, and
  invites that are written once.
\<close>

subsection \<open>Numbers\<close>

text \<open>The numbers that a run of calls hands out: the counter, the pair epoch asked for and the number.\<close>

fun number_log :: "store_call list \<Rightarrow> roster_store \<Rightarrow> ((string \<times> string) \<times> 32 word \<times> u64) list" where
  "number_log [] s = []"
| "number_log (NextMemberSeq g m e d # cs) s =
     (case run_state (AllocateMemberSeq g m e d) s of
        (Inl _, s') \<Rightarrow> number_log cs s'
      | (Inr n, s') \<Rightarrow> ((g, seq_counter m d), e, n) # number_log cs s')"
| "number_log (c # cs) s = number_log cs (snd (run_state (perform c) s))"

definition numbers_of :: "string \<times> string \<Rightarrow> ((string \<times> string) \<times> 32 word \<times> u64) list \<Rightarrow> (32 word \<times> u64) list" where
  "numbers_of k log = map snd (filter (\<lambda>p. fst p = k) log)"

text \<open>The reference: the copies of one epoch are numbered 1, 2, 3 and so on.\<close>

fun numbered :: "32 word list \<Rightarrow> 32 word list \<Rightarrow> (32 word \<times> u64) list" where
  "numbered before [] = []"
| "numbered before (e # es) = (e, of_nat (count_list before e + 1)) # numbered (before @ [e]) es"

definition row_after :: "32 word list \<Rightarrow> member_seq option" where
  "row_after before = (if before = [] then None
     else Some \<lparr>ms_session_epoch = last before, ms_next_seq = of_nat (count_list before (last before) + 1)\<rparr>)"

lemma bumped_row_after:
  assumes "sorted (before @ [e])"
  shows "bumped_seq (row_after before) e = \<lparr>ms_session_epoch = e, ms_next_seq = of_nat (count_list before e + 2)\<rparr>"
proof (cases "before = []")
  case False
  then have "last before \<le> e" using assms by (simp add: sorted_append)
  moreover have "count_list before e = 0" if "last before < e"
  proof -
    have "x \<le> last before" if "x \<in> set before" for x
      using assms that False by (metis append_butlast_last_id in_set_conv_decomp list.set_intros(1)
          order_refl set_ConsD sorted_append sorted_wrt_append Un_iff append_Nil empty_iff empty_set set_append)
    with \<open>last before < e\<close> have "e \<notin> set before" by fastforce
    then show ?thesis by simp
  qed
  ultimately show ?thesis using False by (auto simp: bumped_seq_def row_after_def max_def)
qed (simp add: bumped_seq_def row_after_def)

lemma row_after_snoc: "row_after (before @ [e]) = Some \<lparr>ms_session_epoch = e, ms_next_seq = of_nat (count_list before e + 2)\<rparr>"
  by (simp add: row_after_def)

text \<open>Only \<open>AllocateMemberSeq\<close> touches the numbers, and only those of its counter.\<close>

lemma member_seq_others:
  assumes "\<And>g m e d. c \<noteq> NextMemberSeq g m e d"
  shows "after (perform c) (\<lambda>_ s'. db_member_seq s' = db_member_seq s) s"
proof (cases c)
  case (DropMember g i)
  show ?thesis
    unfolding DropMember perform.simps RemoveMember_def
    by (rule after_get, rule after_roe_then) (auto simp: NotifyChanged_def intro!: after_bind after_intros)
next
  case (PutTarget g thread epoch seq)
  show ?thesis
    unfolding PutTarget perform.simps UpsertGroupTarget_def
    by (rule after_get) (auto intro!: after_intros)
next
  case (ExpireInvitesOf g)
  show ?thesis
    unfolding ExpireInvitesOf perform.simps ExpirePendingInvitesOf_def
    by (rule after_roe_then, rule after_VoidPendingInvites)
      (auto simp: void_pending_def set_status_def intro!: after_ret_ok)
qed (use assms in \<open>auto intro!: after_intros after_AllocateGroupSenderSeq after_EndGroup
    simp: UpsertMetadata_def UpsertMember_def UpsertPendingInvite_def UpdateInviteStatus_def
      ExpireOutboundInvitesTo_def DeletePendingSend_def set_status_def NotifyChanged_def
      ended_store_def void_pending_def
      UpsertGroupChange_def DeleteGroupChanges_def ClearGroupTarget_def ClearGroupTargetByThreadId_def
      BumpGroupSessionEpoch_def\<close>)

lemma number_log_others:
  "(\<And>g m e d. c \<noteq> NextMemberSeq g m e d) \<Longrightarrow> number_log (c # cs) s = number_log cs (snd (run_state (perform c) s))"
proof (cases c)
  case (NextMemberSeq g m e d)
  moreover assume "\<And>g m e d. c \<noteq> NextMemberSeq g m e d"
  ultimately show ?thesis by blast
qed simp_all

lemma numbers_of_run:
  assumes "map_of (db_member_seq s) k = row_after before"
    and "sorted (before @ map fst (numbers_of k (number_log cs s)))"
  shows "numbers_of k (number_log cs s) = numbered before (map fst (numbers_of k (number_log cs s)))"
  using assms
proof (induction cs arbitrary: s before)
  case (Cons c cs)
  show ?case
  proof (cases "\<exists>g m e d. c = NextMemberSeq g m e d")
    case True
    then obtain g m e d where c: "c = NextMemberSeq g m e d" by blast
    let ?k = "(g, seq_counter m d)"
    let ?row = "bumped_seq (map_of (db_member_seq s) ?k) e"
    obtain r s' where run: "run_state (AllocateMemberSeq g m e d) s = (r, s')"
      by (cases "run_state (AllocateMemberSeq g m e d) s")
    have "after (AllocateMemberSeq g m e d) (\<lambda>r s'. case r of
        Inl _ \<Rightarrow> db_member_seq s' = db_member_seq s
      | Inr n \<Rightarrow> n = ms_next_seq ?row - 1 \<and> db_member_seq s' = om_put ?k ?row (db_member_seq s)) s"
      by (rule after_AllocateMemberSeq) simp_all
    from afterD [OF this run] have res: "case r of Inl _ \<Rightarrow> db_member_seq s' = db_member_seq s
      | Inr n \<Rightarrow> n = ms_next_seq ?row - 1 \<and> db_member_seq s' = om_put ?k ?row (db_member_seq s)" by (cases r) auto
    show ?thesis
    proof (cases r)
      case (Inl err)
      then have log: "number_log (c # cs) s = number_log cs s'" by (simp add: c run)
      have "map_of (db_member_seq s') k = row_after before" using res Inl Cons.prems(1) by simp
      from Cons.IH [OF this] Cons.prems(2) show ?thesis by (simp only: log)
    next
      case (Inr n)
      then have log: "number_log (c # cs) s = (?k, e, n) # number_log cs s'" by (simp add: c run)
      show ?thesis
      proof (cases "?k = k")
        case False
        then have same: "numbers_of k (number_log (c # cs) s) = numbers_of k (number_log cs s')"
          by (simp add: log numbers_of_def)
        have "map_of (db_member_seq s') k = row_after before" using res Inr Cons.prems(1) False by simp
        from Cons.IH [OF this] Cons.prems(2) show ?thesis by (simp only: same)
      next
        case True
        then have entry: "numbers_of k (number_log (c # cs) s) = (e, n) # numbers_of k (number_log cs s')"
          by (simp add: log numbers_of_def)
        have up: "sorted ((before @ [e]) @ map fst (numbers_of k (number_log cs s')))"
          using Cons.prems(2) by (simp add: entry)
        then have "?row = \<lparr>ms_session_epoch = e, ms_next_seq = of_nat (count_list before e + 2)\<rparr>"
          using bumped_row_after [of before e] Cons.prems(1) True by (simp add: sorted_append)
        then have "n = of_nat (count_list before e + 1)"
          and "map_of (db_member_seq s') k = row_after (before @ [e])"
          using res Inr True by (simp_all add: row_after_snoc)
        with Cons.IH [OF _ up] show ?thesis by (simp add: entry)
      qed
    qed
  next
    case False
    obtain r s' where run: "run_state (perform c) s = (r, s')" by (cases "run_state (perform c) s")
    have log: "number_log (c # cs) s = number_log cs s'" using number_log_others [of c cs s] False run by simp
    have "db_member_seq s' = db_member_seq s"
      using afterD [OF member_seq_others run] False by simp
    then have "map_of (db_member_seq s') k = row_after before" using Cons.prems(1) by simp
    from Cons.IH [OF this] Cons.prems(2) show ?thesis by (simp only: log)
  qed
qed (simp add: numbers_of_def)

text \<open>Pairs of an epoch and a number that only rise.\<close>

definition earlier :: "32 word \<times> u64 \<Rightarrow> 32 word \<times> u64 \<Rightarrow> bool" where
  "earlier p q \<longleftrightarrow> fst p < fst q \<or> fst p = fst q \<and> snd p < snd q"

lemma numbered_above:
  "(e, n) \<in> set (numbered before es) \<Longrightarrow>
    e \<in> set es \<and> (\<exists>c. count_list before e < c \<and> c \<le> length before + length es \<and> n = of_nat c)"
proof (induction before es rule: numbered.induct)
  case (2 before x es)
  show ?case
  proof (cases "(e, n) \<in> set (numbered (before @ [x]) es)")
    case True
    from 2(1) [OF this] obtain c where "e \<in> set es" "count_list (before @ [x]) e < c"
      "c \<le> length before + 1 + length es" "n = of_nat c" by auto
    then show ?thesis by (auto split: if_splits intro!: exI [of _ c])
  next
    case False
    then have "e = x" "n = of_nat (count_list before x + 1)" using 2(2) by auto
    then show ?thesis using count_le_length [of before x] by (auto intro!: exI [of _ "count_list before x + 1"])
  qed
qed simp

lemma numbered_rises:
  "sorted es \<Longrightarrow> length before + length es < 2 ^ 64 \<Longrightarrow> sorted_wrt earlier (numbered before es)"
proof (induction before es rule: numbered.induct)
  case (2 before e es)
  have "earlier (e, of_nat (count_list before e + 1)) (e', n)" if mem: "(e', n) \<in> set (numbered (before @ [e]) es)" for e' n
  proof -
    obtain c where c: "e' \<in> set es" "count_list (before @ [e]) e' < c" "c \<le> length before + 1 + length es" "n = of_nat c"
      using numbered_above [OF mem] by auto
    have "e \<le> e'" using 2(2) c(1) by auto
    moreover have "(of_nat (count_list before e + 1) :: u64) < of_nat c" if "e = e'"
      unfolding word_less_nat_alt unat_of_nat using c(2,3) 2(3) that by simp
    ultimately show ?thesis using c(4) by (auto simp: earlier_def)
  qed
  moreover have "sorted_wrt earlier (numbered (before @ [e]) es)" by (rule 2(1)) (use 2(2,3) in auto)
  ultimately show ?case by auto
qed simp

lemma length_number_log: "length (number_log cs s) \<le> length cs"
proof (induction cs arbitrary: s)
  case (Cons c cs)
  show ?case
  proof (cases "\<exists>g m e d. c = NextMemberSeq g m e d")
    case True
    then show ?thesis using Cons.IH le_SucI [OF Cons.IH] by (auto split: prod.split sum.split)
  next
    case False
    then show ?thesis using number_log_others [of c cs s] Cons.IH [of "snd (run_state (perform c) s)"] by simp
  qed
qed simp

lemma run_AllocateMemberSeq:
  "run_state (AllocateMemberSeq g m e d) s =
     (let k = (g, seq_counter m d); row = bumped_seq (map_of (db_member_seq s) k) e; s' = s\<lparr>db_faults := tl (db_faults s)\<rparr> in
      case (case db_faults s of [] \<Rightarrow> NoFault | f # _ \<Rightarrow> f) of
        NoFault \<Rightarrow> (Inr (ms_next_seq row - 1), s'\<lparr>db_member_seq := om_put k row (db_member_seq s)\<rparr>)
      | OpFails err \<Rightarrow> (Inl err, s')
      | StepFails _ \<Rightarrow> (Inl (Error ''Failed to allocate group member seq''), s'))"
  by (auto simp: AllocateMemberSeq_def next_fault_def State_Monad.bind_def State_Monad.get_def State_Monad.set_def
      State_Monad.return_def ret_ok_def ret_err_def Let_def split: list.splits fault.splits)

text \<open>
  No copy's number is used twice. Over any run of store calls from the empty database, with any
  failures and any other calls in between: if the pair epochs asked of one counter (a member of a
  group, or a device of theirs) never fall, its copies are numbered 1, 2, 3, ... in each epoch, one
  number per copy and in the order asked, so (epoch, number) only rises. The bound on the length of
  the run is where the 64-bit numbers would wrap.
\<close>

theorem numbers_only_rise:
  assumes "sorted (map fst (numbers_of k (number_log cs (empty_store faults))))" and "length cs < 2 ^ 64"
  shows "numbers_of k (number_log cs (empty_store faults))
      = numbered [] (map fst (numbers_of k (number_log cs (empty_store faults))))
    \<and> sorted_wrt earlier (numbers_of k (number_log cs (empty_store faults)))"
proof -
  let ?l = "numbers_of k (number_log cs (empty_store faults))"
  have nums: "?l = numbered [] (map fst ?l)"
    by (rule numbers_of_run) (use assms(1) in \<open>simp_all add: row_after_def empty_store_def\<close>)
  have "length ?l \<le> length (number_log cs (empty_store faults))" by (simp add: numbers_of_def)
  also have "\<dots> \<le> length cs" by (rule length_number_log)
  finally have "length ?l \<le> length cs" .
  then have "sorted_wrt earlier (numbered [] (map fst ?l))"
    by (intro numbered_rises) (use assms in simp_all)
  then have "sorted_wrt earlier ?l" by (subst nums)
  with nums show ?thesis by (rule conjI)
qed

definition sample_calls :: "store_call list" where
  "sample_calls = [NextMemberSeq ''g'' ''bob'' 1 [], NextMemberSeq ''g'' ''eve'' 4 [], NextMemberSeq ''g'' ''bob'' 1 [],
     NextMemberSeq ''g'' ''bob'' 1 [], NextMemberSeq ''g'' ''bob'' 3 []]"

lemma sample_numbers:
  "numbers_of (''g'', ''bob'') (number_log sample_calls (empty_store [NoFault, NoFault, StepFails 0]))
    = [(1, 1), (1, 2), (3, 1)]"
  by (simp add: sample_calls_def run_AllocateMemberSeq empty_store_def seq_counter_def bumped_seq_def numbers_of_def)

theorem numbers_only_rise_witness:
  "sorted_wrt earlier (numbers_of (''g'', ''bob'') (number_log sample_calls (empty_store [NoFault, NoFault, StepFails 0])))"
  by (rule numbers_only_rise [THEN conjunct2]) (simp_all add: sample_numbers, simp add: sample_calls_def)

text \<open>
  An epoch below the one held does continue the count, but under the epoch the caller asked for:
  the pair (1, 2) is handed out twice.
\<close>

theorem falling_epoch_repeats:
  "numbers_of (''g'', ''bob'') (number_log
      [NextMemberSeq ''g'' ''bob'' 1 [], NextMemberSeq ''g'' ''bob'' 1 [], NextMemberSeq ''g'' ''bob'' 2 [],
       NextMemberSeq ''g'' ''bob'' 1 []] (empty_store []))
    = [(1, 1), (1, 2), (2, 1), (1, 2)]"
  by (simp add: run_AllocateMemberSeq empty_store_def seq_counter_def bumped_seq_def numbers_of_def)


subsection \<open>The end of a group\<close>

lemma rows_of_without [simp]: "rows_of g (without g t) = []" "g' \<noteq> g \<Longrightarrow> rows_of g' (without g t) = rows_of g' t"
  by (induction t) (auto simp: rows_of_def without_def)

lemma map_of_set_status:
  "map_of (db_invites (set_status P st s)) n =
    map_option (\<lambda>i. if P i then i\<lparr>pi_status := st\<rparr> else i) (map_of (db_invites s) n)"
  by (simp add: set_status_def map_of_map_rows)

text \<open>What is as it was for the other groups.\<close>

definition same_elsewhere :: "string \<Rightarrow> roster_store \<Rightarrow> roster_store \<Rightarrow> bool" where
  "same_elsewhere g s s' \<longleftrightarrow> (\<forall>g'. g' \<noteq> g \<longrightarrow>
     map_of (db_metadata s') g' = map_of (db_metadata s) g'
     \<and> rows_of g' (db_rosters s') = rows_of g' (db_rosters s)
     \<and> rows_of g' (db_changes s') = rows_of g' (db_changes s)
     \<and> map_of (db_targets s') g' = map_of (db_targets s) g')
   \<and> (\<forall>n i. map_of (db_invites s) n = Some i \<longrightarrow> pi_group_id i \<noteq> g \<longrightarrow> map_of (db_invites s') n = Some i)
   \<and> (\<forall>k. fst k \<noteq> g \<longrightarrow> map_of (db_sends s') k = map_of (db_sends s) k)
   \<and> db_member_seq s' = db_member_seq s"

text \<open>The group as its ending leaves it.\<close>

definition is_ended :: "string \<Rightarrow> group_ending \<Rightarrow> roster_store \<Rightarrow> bool" where
  "is_ended g ending s \<longleftrightarrow>
     (case map_of (db_metadata s) g of None \<Rightarrow> False
      | Some md \<Rightarrow> md_sync_state md = Dissolved \<and> md_owner md = ge_owner ending
          \<and> md_statement_json md = ge_statement_json ending \<and> md_sync_request_id md = [])
   \<and> rows_of g (db_rosters s) = [] \<and> rows_of g (db_changes s) = [] \<and> map_of (db_targets s) g = None
   \<and> (\<forall>i \<in> snd ` set (db_invites s). pi_group_id i = g \<longrightarrow> pi_status i \<noteq> Pending)
   \<and> (\<forall>send \<in> set (ge_sends ending). map_of (db_sends s) (g, ps_recipient send, ps_control_type send) \<noteq> None)"

lemma fold_put_known:
  "map_of m k \<noteq> None \<or> k \<in> key ` set xs \<Longrightarrow> map_of (fold (\<lambda>x. om_put (key x) (val x)) xs m) k \<noteq> None"
  by (induction xs arbitrary: m) auto

lemma fold_put_unknown:
  "k \<notin> key ` set xs \<Longrightarrow> map_of (fold (\<lambda>x. om_put (key x) (val x)) xs m) k = map_of m k"
  by (induction xs arbitrary: m) auto

lemma om_ok_targets: "store_ok s \<Longrightarrow> om_ok (db_targets s)"
  using store_ok_tables(6) [of s] by (simp add: targets_ok_def)

lemma ended_store_ended:
  assumes "store_ok s" "map_of (db_metadata s) g = Some md"
  shows "is_ended g ending (ended_store g ending s)"
proof -
  have "map_of (db_targets (ended_store g ending s)) g = None"
    using map_of_om_erase [OF om_ok_targets [OF assms(1)], of g] by (simp add: ended_store_def)
  moreover have "\<exists>v. map_of (db_sends (ended_store g ending s)) (g, ps_recipient send, ps_control_type send) = Some v"
    if "send \<in> set (ge_sends ending)" for send
    using fold_put_known [of "db_sends s" "(g, ps_recipient send, ps_control_type send)"
        "\<lambda>p. (g, ps_recipient p, ps_control_type p)" "ge_sends ending" "\<lambda>p. p\<lparr>ps_group_id := g\<rparr>"] that
    by (auto simp: ended_store_def)
  ultimately show ?thesis
    by (auto simp: is_ended_def assms(2) ended_store_def map_of_map_rows void_pending_def set_status_def
        split: if_splits)
qed

lemma map_of_om_erase_other: "k' \<noteq> k \<Longrightarrow> map_of (om_erase k m) k' = map_of m k'"
  by (induction k m rule: om_erase.induct) auto

lemma ended_store_elsewhere: "same_elsewhere g s (ended_store g ending s)"
proof -
  have "map_of (db_targets (ended_store g ending s)) g' = map_of (db_targets s) g'" if "g' \<noteq> g" for g'
    using that by (simp add: ended_store_def map_of_om_erase_other)
  moreover have "map_of (db_sends (ended_store g ending s)) k = map_of (db_sends s) k" if "fst k \<noteq> g" for k
  proof -
    have "k \<notin> (\<lambda>p. (g, ps_recipient p, ps_control_type p)) ` set (ge_sends ending)" using that by auto
    then show ?thesis by (simp add: ended_store_def fold_put_unknown)
  qed
  moreover have "map_of (db_invites (ended_store g ending s)) n = Some i"
    if "map_of (db_invites s) n = Some i" "pi_group_id i \<noteq> g" for n i
    using that by (simp add: ended_store_def void_pending_def map_of_set_status)
  moreover have "db_member_seq (ended_store g ending s) = db_member_seq s"
    by (simp add: ended_store_def void_pending_def set_status_def)
  ultimately show ?thesis
    by (auto simp: same_elsewhere_def ended_store_def map_of_map_rows option.map_ident)
qed

lemma same_elsewhere_NotifyChanged [simp]: "same_elsewhere g s (clean (NotifyChanged c s')) = same_elsewhere g s s'"
  by (simp add: same_elsewhere_def NotifyChanged_def)

lemma is_ended_NotifyChanged [simp]: "is_ended g ending (clean (NotifyChanged c s)) = is_ended g ending s"
  by (simp add: is_ended_def NotifyChanged_def)

text \<open>With no failure to come, all statements run.\<close>

lemma run_keep_sends:
  "db_faults s = [] \<Longrightarrow> run_state (keep_sends g sends) s =
    (Inr (), s\<lparr>db_sends := fold (\<lambda>send. om_put (g, ps_recipient send, ps_control_type send) (send\<lparr>ps_group_id := g\<rparr>))
      sends (db_sends s)\<rparr>)"
  by (induction sends arbitrary: s) (simp_all add: ret_ok_def roe_then_def RunBound_def next_fault_def State_Monad.bind_def
      State_Monad.get_def State_Monad.set_def State_Monad.update_def State_Monad.return_def)

lemma run_EndGroup_ok:
  "db_faults s = [] \<Longrightarrow> map_of (db_metadata s) g = Some md \<Longrightarrow> md_sync_state md \<noteq> Dissolved \<Longrightarrow>
    run_state (EndGroup g ending) s = (Inr (Some (voided_invites g s)),
      NotifyChanged \<lparr>rc_group_id = g, rc_member_gone = [], rc_ended = True\<rparr> (ended_store g ending s))"
  by (simp add: EndGroup_def end_statements_def group_open_def VoidPendingInvites_def RunBound_def db_rows_def db_write_def
      next_fault_def ret_ok_def roe_then_def State_Monad.bind_def State_Monad.get_def State_Monad.set_def
      State_Monad.update_def State_Monad.return_def run_keep_sends void_pending_def set_status_def ended_store_def)

text \<open>
  C32: ending a group is all or nothing, and happens once. \<open>EndGroup\<close> on a well-shaped store, whichever of
  its statements fail: when it reports an error, or that there was nothing to end, the store is as it was.
  When it reports success, the group was held and not yet over, and all of it is done: the roster, the held
  changes and the chat target of the group are gone, no invite of it is pending, its metadata names
  the owner and the statement of the ending, and every message to send is kept; other groups, their
  invites and sends, and the numbers of members' copies are untouched. The invites it names are those it
  voided, or the first of them when reading them failed half-way; all of them when nothing fails. A second
  ending, whatever it says and whatever fails, then changes nothing and never reports success.
\<close>

theorem end_group_all_or_nothing:
  assumes ok: "store_ok s" and run: "run_state (EndGroup g ending) s = (r, s')"
  shows "case r of
      Inr (Some voided) \<Rightarrow>
        (\<exists>md. map_of (db_metadata s) g = Some md \<and> md_sync_state md \<noteq> Dissolved)
        \<and> (\<exists>n. voided = take n (voided_invites g s)) \<and> (db_faults s = [] \<longrightarrow> voided = voided_invites g s)
        \<and> is_ended g ending s' \<and> same_elsewhere g s s'
        \<and> (\<forall>ending' r' s''. run_state (EndGroup g ending') s' = (r', s'')
            \<longrightarrow> clean s'' = clean s' \<and> (r' = Inr None \<or> \<not> is_ok r'))
    | _ \<Rightarrow> clean s' = clean s"
proof -
  have second: "clean s'' = clean t \<and> (r' = Inr None \<or> \<not> is_ok r')"
    if ended: "is_ended g ending t" and run: "run_state (EndGroup g ending') t = (r', s'')" for t ending' r' s''
  proof -
    have "after (EndGroup g ending') (\<lambda>r s. s = clean t \<and> (r = Inr None \<or> \<not> is_ok r)) t"
      by (rule after_EndGroup) (use ended in \<open>auto simp: is_ended_def\<close>)
    from afterD [OF this run] show ?thesis .
  qed
  have clean_ended: "is_ended g ending s' = is_ended g ending (clean s')" for s'
    by (simp add: is_ended_def)
  have clean_elsewhere: "same_elsewhere g s s' = same_elsewhere g s (clean s')" for s'
    by (simp add: same_elsewhere_def)
  have "after (EndGroup g ending) (\<lambda>r s'. case r of
      Inr (Some voided) \<Rightarrow> (\<exists>md. map_of (db_metadata s) g = Some md \<and> md_sync_state md \<noteq> Dissolved)
        \<and> (\<exists>n. voided = take n (voided_invites g s)) \<and> is_ended g ending s' \<and> same_elsewhere g s s'
    | _ \<Rightarrow> s' = clean s) s"
    by (rule after_EndGroup) (use ok in \<open>auto simp: ended_store_ended ended_store_elsewhere\<close>)
  note whole = afterD [OF this run]
  have all: "voided = voided_invites g s" if "db_faults s = []" "r = Inr (Some voided)" for voided
    using whole that run run_EndGroup_ok [OF that(1)] by auto
  from whole show ?thesis
    by (auto simp: clean_ended [of s'] clean_elsewhere [of s'] all split: sum.splits option.splits dest: second [rotated])
qed

definition sample_metadata :: group_metadata where
  "sample_metadata = \<lparr>md_group_id = ''g'', md_owner = ''ann'', md_title = ''walks'', md_roster_epoch = 3, md_preset = Open,
     md_session_epoch = 1, md_title_version = 0, md_statement_json = [], md_sync_state = Active,
     md_sync_request_id = [], md_sync_requested_at = 0\<rparr>"

definition sample_member :: "string \<Rightarrow> member_role \<Rightarrow> group_roster_member" where
  "sample_member i r = \<lparr>rm_identity = i, rm_contact_id = [], rm_role = r, rm_joined_at = 0, rm_added_by = []\<rparr>"

definition sample_invite :: pending_group_invite where
  "sample_invite = \<lparr>pi_nonce = ''n1'', pi_group_id = ''g'', pi_group_title = ''walks'', pi_inviter = ''ann'',
     pi_invitee = ''cat'', pi_roster_epoch = 3, pi_status = Pending, pi_expires_at = Some 5000, pi_created_at = 10,
     pi_outbound = True, pi_owner = []\<rparr>"

definition sample_store :: "fault list \<Rightarrow> roster_store" where
  "sample_store faults = (empty_store faults)\<lparr>db_metadata := [(''g'', sample_metadata)],
     db_rosters := [((''g'', ''ann''), sample_member ''ann'' Owner), ((''g'', ''bob''), sample_member ''bob'' Member)],
     db_invites := [(''n1'', sample_invite)],
     db_targets := [(''g'', \<lparr>gt_thread_id = ''t1'', gt_session_epoch = 1, gt_next_seq = 7\<rparr>)]\<rparr>"

lemma sample_store_ok [simp]: "store_ok (sample_store faults)"
  by (simp add: store_ok_def sample_store_def empty_store_def keyed_by_def rosters_ok_def targets_ok_def
      one_target_per_thread_def sample_metadata_def sample_member_def sample_invite_def)

definition sample_ending :: group_ending where
  "sample_ending = \<lparr>ge_owner = ''ann'', ge_roster_epoch = 4, ge_statement_json = ''{}'',
     ge_sends = [\<lparr>ps_group_id = [], ps_recipient = ''bob'', ps_control_type = ''group_dissolved'',
       ps_detail_json = [], ps_display = []\<rparr>]\<rparr>"

theorem end_group_all_or_nothing_witness:
  "is_ended ''g'' sample_ending (snd (run_state (EndGroup ''g'' sample_ending) (sample_store [])))"
proof -
  have "run_state (EndGroup ''g'' sample_ending) (sample_store []) = (Inr (Some (voided_invites ''g'' (sample_store []))),
      NotifyChanged \<lparr>rc_group_id = ''g'', rc_member_gone = [], rc_ended = True\<rparr>
        (ended_store ''g'' sample_ending (sample_store [])))"
    by (rule run_EndGroup_ok [of _ _ sample_metadata])
      (simp_all add: sample_store_def empty_store_def sample_metadata_def)
  from end_group_all_or_nothing [OF sample_store_ok this] show ?thesis
    by (simp add: \<open>run_state _ _ = _\<close>)
qed

text \<open>
  The list cut short: the first \<open>SELECT\<close> of the voiding fails at its first step. The sample group ends with
  its invite voided, and the caller, who marks the invites' cards by the list, is told of none.
\<close>

lemma voided_list_cut:
  "fst (run_state (EndGroup ''g'' sample_ending) (sample_store [NoFault, NoFault, StepFails 0])) = Inr (Some [])
    \<and> is_ended ''g'' sample_ending (snd (run_state (EndGroup ''g'' sample_ending) (sample_store [NoFault, NoFault, StepFails 0])))
    \<and> map pi_nonce (voided_invites ''g'' (sample_store [])) = [''n1'']"
proof -
  let ?s = "sample_store [NoFault, NoFault, StepFails 0]"
  have first: "fst (run_state (EndGroup ''g'' sample_ending) ?s) = Inr (Some [])"
    by (simp add: EndGroup_def end_statements_def group_open_def VoidPendingInvites_def RunBound_def db_rows_def db_write_def
        next_fault_def ret_ok_def roe_then_def State_Monad.bind_def State_Monad.get_def State_Monad.set_def
        State_Monad.update_def State_Monad.return_def run_keep_sends void_pending_def set_status_def sample_store_def
        empty_store_def sample_metadata_def sample_ending_def)
  obtain r t where run: "run_state (EndGroup ''g'' sample_ending) ?s = (r, t)" by fastforce
  have "after (EndGroup ''g'' sample_ending) (\<lambda>r t. r = Inr (Some []) \<longrightarrow> is_ended ''g'' sample_ending t) ?s"
    by (rule after_EndGroup) (auto simp: ended_store_ended)
  from afterD [OF this run] have "is_ended ''g'' sample_ending t" using first run by (simp add: is_ended_def)
  moreover have "map pi_nonce (voided_invites ''g'' (sample_store [])) = [''n1'']"
    by (simp add: voided_invites_def sample_store_def sample_invite_def)
  ultimately show ?thesis using first by (simp add: run)
qed

subsection \<open>Invites\<close>

definition same_but_status :: "roster_store \<Rightarrow> roster_store \<Rightarrow> bool" where
  "same_but_status s s' \<longleftrightarrow> (\<forall>n i. map_of (db_invites s) n = Some i \<longrightarrow>
     (\<exists>status. map_of (db_invites s') n = Some (i\<lparr>pi_status := status\<rparr>)))"

lemma with_status [simp]: "\<exists>status. i = i\<lparr>pi_status := status\<rparr>"
  by (rule exI [of _ "pi_status i"]) simp

lemma with_status_if [simp]: "\<exists>status. (if b then i\<lparr>pi_status := st\<rparr> else i) = i\<lparr>pi_status := status\<rparr>"
  by auto

lemma same_but_status_refl [simp]: "db_invites s' = db_invites s \<Longrightarrow> same_but_status s s'"
  by (simp add: same_but_status_def)

lemma same_but_status_map [simp]:
  "same_but_status s (t\<lparr>db_invites := map (\<lambda>(n, i). (n, if P n i then i\<lparr>pi_status := st\<rparr> else i)) (db_invites s)\<rparr>)"
  by (auto simp: same_but_status_def map_of_map_rows)

lemma same_but_status_other_tables [simp]:
  "same_but_status s (t\<lparr>db_rosters := r\<rparr>) = same_but_status s t"
  "same_but_status s (t\<lparr>db_targets := tg\<rparr>) = same_but_status s t"
  "same_but_status s (t\<lparr>db_changes := c\<rparr>) = same_but_status s t"
  "same_but_status s (t\<lparr>db_metadata := md\<rparr>) = same_but_status s t"
  "same_but_status s (t\<lparr>db_sends := ps\<rparr>) = same_but_status s t"
  "same_but_status s (t\<lparr>db_notified := nt\<rparr>) = same_but_status s t"
  by (simp_all add: same_but_status_def)

lemma same_but_status_put [simp]: "same_but_status s (t\<lparr>db_invites := om_emplace n i (db_invites s)\<rparr>)"
  by (auto simp: same_but_status_def split: option.split)

lemma same_but_status_clean [simp]: "same_but_status s (t\<lparr>db_faults := fs\<rparr>) = same_but_status s t"
  by (simp add: same_but_status_def)

lemma same_but_status_trans:
  "same_but_status s t \<Longrightarrow> same_but_status t u \<Longrightarrow> same_but_status s u"
  unfolding same_but_status_def by fastforce

lemma invites_perform: "after (perform c) (\<lambda>_. same_but_status s) s"
proof (cases c)
  case (DropMember g i)
  show ?thesis
    unfolding DropMember perform.simps RemoveMember_def
    by (rule after_get, rule after_roe_then) (auto simp: NotifyChanged_def intro!: after_bind after_intros)
next
  case (PutTarget g thread epoch seq)
  show ?thesis
    unfolding PutTarget perform.simps UpsertGroupTarget_def
    by (rule after_get) (auto intro!: after_intros)
next
  case (ExpireInvitesOf g)
  show ?thesis
    unfolding ExpireInvitesOf perform.simps ExpirePendingInvitesOf_def
    by (rule after_roe_then, rule after_VoidPendingInvites)
      (auto simp: void_pending_def set_status_def intro!: after_ret_ok)
qed (auto intro!: after_intros after_AllocateGroupSenderSeq after_AllocateMemberSeq after_EndGroup
    simp: UpsertMetadata_def UpsertMember_def UpsertPendingInvite_def UpdateInviteStatus_def
      ExpireOutboundInvitesTo_def DeletePendingSend_def set_status_def NotifyChanged_def
      ended_store_def void_pending_def
      UpsertGroupChange_def DeleteGroupChanges_def ClearGroupTarget_def ClearGroupTargetByThreadId_def
      BumpGroupSessionEpoch_def)

lemma same_but_status_run: "same_but_status s (store_run cs s)"
proof (induction cs arbitrary: s)
  case (Cons c cs)
  obtain r s' where run: "run_state (perform c) s = (r, s')" by (cases "run_state (perform c) s")
  have "same_but_status s s'" using afterD [OF invites_perform run] by simp
  then show ?case using same_but_status_trans [OF _ Cons.IH [of s']] by (simp add: run)
qed simp

text \<open>
  An invite is written once. An invite the store holds is there after any calls on the store and
  any failures, and but for its status it is the one first stored under its nonce: no later invite
  with the same nonce replaces its group, its parties or its dates.
\<close>

theorem invite_written_once:
  assumes "map_of (db_invites s) n = Some i"
  shows "\<exists>status. map_of (db_invites (store_run cs s)) n = Some (i\<lparr>pi_status := status\<rparr>)"
  using same_but_status_run [of s cs] assms unfolding same_but_status_def by blast

theorem invite_written_once_witness:
  "\<exists>status. map_of (db_invites (store_run [PutInvite (sample_invite\<lparr>pi_invitee := ''eve''\<rparr>), SetInvite ''n1'' Declined]
      (sample_store []))) ''n1'' = Some (sample_invite\<lparr>pi_status := status\<rparr>)"
  by (rule invite_written_once) (simp add: sample_store_def)

end
