(* ===== verification/GroupMembership.thy ===== *)
theory GroupMembership
  imports GroupStore
begin

section \<open>Applying membership events to the roster\<close>

text \<open>
  Models \<open>GroupMembershipApply.cpp\<close>: an accepted or declined invite, and the owner's events
  (member joined, removed, ownership transferred, group renamed, group dissolved), applied to the
  store of \<open>GroupStore\<close>; and \<open>Held\<close> of \<open>GroupRosterSync.cpp\<close>. \<open>EnsureDissolvedLine\<close>, which writes to
  the chat's thread store, is in \<open>GroupChangeLines\<close>.

  The JSON texts of statements and changes are read and written by the parameter \<open>roster_json\<close>
  (\<open>ToJson\<close>, \<open>FromJson\<close> with the JSON library's dump and parse). The lock taken across each of these
  operations makes them atomic, so each is one computation. \<open>now\<close> is the clock.
\<close>

record roster_json =
  js_statement :: "statement \<Rightarrow> string"
  js_read_statement :: "string \<Rightarrow> statement option"
  js_change :: "group_change \<Rightarrow> string"
  js_read_change :: "string \<Rightarrow> group_change option"

definition Held :: "roster_json \<Rightarrow> group_metadata \<Rightarrow> statement option" where
  "Held js md = (if md_statement_json md = [] then None else js_read_statement js (md_statement_json md))"

definition kGroupFullError :: string where
  "kGroupFullError = ''This group is full (50 members)''"

definition kGroupDissolvedError :: string where
  "kGroupDissolvedError = ''chat.group.dissolved''"

definition kGroupInviteNotAllowedError :: string where
  "kGroupInviteNotAllowedError = ''chat.group.err.invite_not_allowed''"

subsection \<open>Invites that are answered\<close>

datatype invite_accepted = Already | Added | SignAdd

definition CheckAcceptedInvite ::
  "pending_group_invite \<Rightarrow> string \<Rightarrow> string \<Rightarrow> time_ms \<Rightarrow> invite_accepted option store_op" where
  "CheckAcceptedInvite invite member g now =
     (if \<not> pi_outbound invite then ret_err ''Invite accept for an invite this device did not issue''
      else if pi_invitee invite \<noteq> member then ret_err ''Invite accept sender does not match invitee''
      else if pi_group_id invite \<noteq> g then ret_err ''Invite accept names another group''
      else if pi_status invite = Accepted then ret_ok (Some Already)
      else if pi_status invite \<noteq> Pending then ret_err ''Invite is not pending''
      else if (case pi_expires_at invite of None \<Rightarrow> False | Some t \<Rightarrow> now > t + kGroupInviteAcceptGraceMs)
      then do {
        UpdateInviteStatus (pi_nonce invite) Expired;
        ret_err ''Invite expired''
      }
      else do {
        members \<leftarrow> ListMembers (pi_group_id invite);
        if (case members of Inr ms \<Rightarrow> length ms \<ge> kMaxGroupMembers | Inl _ \<Rightarrow> False)
        then do {
          UpdateInviteStatus (pi_nonce invite) Expired;
          ret_err kGroupFullError
        }
        else ret_ok None
      })"

definition AddAsOwner ::
  "pending_group_invite \<Rightarrow> group_metadata \<Rightarrow> string \<Rightarrow> string \<Rightarrow> time_ms \<Rightarrow> invite_accepted store_op" where
  "AddAsOwner invite md member local now =
     roe_then (UpsertMember (pi_group_id invite) \<lparr>rm_identity = member, rm_contact_id = [], rm_role = Member,
         rm_joined_at = now, rm_added_by = local\<rparr>) (\<lambda>_.
       roe_then (UpsertMetadata (md\<lparr>md_roster_epoch := md_roster_epoch md + 1\<rparr>)) (\<lambda>_.
         roe_then (UpdateInviteStatus (pi_nonce invite) Accepted) (\<lambda>_. do {
           ExpireOutboundInvitesTo (pi_group_id invite) member;
           ret_ok Added
         })))"

definition ApplyInviteAcceptToRoster ::
  "string \<Rightarrow> string \<Rightarrow> string \<Rightarrow> string \<Rightarrow> time_ms \<Rightarrow> invite_accepted store_op" where
  "ApplyInviteAcceptToRoster nonce member g local now =
     roe_then (LoadPendingInvite nonce) (\<lambda>pending.
       case pending of
         None \<Rightarrow> ret_err ''Invite not found''
       | Some invite \<Rightarrow> roe_then (LoadMetadata (pi_group_id invite)) (\<lambda>metadata.
           case metadata of
             None \<Rightarrow> ret_err ''Invite accept for a group this device does not hold''
           | Some md \<Rightarrow>
               if local = [] then ret_err ''Invite accept for a group this device does not hold''
               else if md_sync_state md = Dissolved then ret_err kGroupDissolvedError
               else roe_then (CheckAcceptedInvite invite member g now) (\<lambda>checked.
                 case checked of
                   Some accepted \<Rightarrow> ret_ok accepted
                 | None \<Rightarrow>
                     if md_owner md = local then AddAsOwner invite md member local now
                     else roe_then (FindMember (pi_group_id invite) local) (\<lambda>self.
                       case self of
                         None \<Rightarrow> ret_err kGroupInviteNotAllowedError
                       | Some me \<Rightarrow>
                           if md_sync_state md \<noteq> Active \<or> \<not> GroupAllows Invite (rm_role me) (md_preset md) Member
                           then ret_err kGroupInviteNotAllowedError
                           else ret_ok SignAdd))))"

definition ApplyInviteDeclineToRoster :: "string \<Rightarrow> string \<Rightarrow> string \<Rightarrow> unit store_op" where
  "ApplyInviteDeclineToRoster nonce member g =
     roe_then (LoadPendingInvite nonce) (\<lambda>pending.
       case pending of
         None \<Rightarrow> ret_err ''Invite not found''
       | Some invite \<Rightarrow>
           if \<not> pi_outbound invite \<or> pi_invitee invite \<noteq> member \<or> pi_group_id invite \<noteq> g
           then ret_err ''Invite decline does not match an invite this device issued''
           else if pi_status invite \<noteq> Pending then ret_err ''Invite is not pending''
           else UpdateInviteStatus nonce Declined)"

subsection \<open>The owner's events\<close>

record member_joined_entry =
  je_identity :: string
  je_role :: member_role

record member_joined_payload =
  jp_group_id :: string
  jp_identity :: string
  jp_role :: member_role
  jp_roster_epoch :: u64
  jp_members :: "member_joined_entry list"

record owner_transferred_payload =
  ot_group_id :: string
  ot_new_owner :: string
  ot_roster_epoch :: u64
  ot_leave_previous :: bool

record member_removed_payload =
  mr_group_id :: string
  mr_identity :: string
  mr_roster_epoch :: u64

record group_renamed_payload =
  gr_group_id :: string
  gr_title :: string
  gr_roster_epoch :: u64
  gr_title_version :: u64

definition LoadMetadataRequired :: "string \<Rightarrow> group_metadata store_op" where
  "LoadMetadataRequired g = roe_then (LoadMetadata g) (\<lambda>md.
     case md of None \<Rightarrow> ret_err ''Group metadata not found'' | Some m \<Rightarrow> ret_ok m)"

definition RequireNewerEpoch :: "group_metadata \<Rightarrow> u64 \<Rightarrow> unit roe" where
  "RequireNewerEpoch md inbound =
     (if inbound \<le> md_roster_epoch md then Inl (Error ''Stale roster_epoch'') else Inr ())"

definition upsert_one :: "string \<Rightarrow> time_ms \<Rightarrow> string \<Rightarrow> member_role \<Rightarrow> unit store_op" where
  "upsert_one g now identity role =
     (if identity = [] then ret_ok ()
      else UpsertMember g \<lparr>rm_identity = identity, rm_contact_id = [], rm_role = role, rm_joined_at = now,
        rm_added_by = []\<rparr>)"

text \<open>The loop over the roster snapshot that rides a join; it skips the member who joined.\<close>

fun upsert_entries :: "string \<Rightarrow> time_ms \<Rightarrow> string \<Rightarrow> member_joined_entry list \<Rightarrow> unit store_op" where
  "upsert_entries g now joined [] = ret_ok ()"
| "upsert_entries g now joined (entry # entries) =
     (if je_identity entry = joined then upsert_entries g now joined entries
      else roe_then (upsert_one g now (je_identity entry) (je_role entry))
        (\<lambda>_. upsert_entries g now joined entries))"

definition ApplyMemberJoinedToRoster :: "member_joined_payload \<Rightarrow> string \<Rightarrow> time_ms \<Rightarrow> unit store_op" where
  "ApplyMemberJoinedToRoster p actor now =
     roe_then (LoadMetadataRequired (jp_group_id p)) (\<lambda>md.
       if md_owner md \<noteq> actor then ret_err ''member_joined rejected: actor is not the group owner''
       else roe_then (State_Monad.return (RequireNewerEpoch md (jp_roster_epoch p))) (\<lambda>_.
         if jp_identity p = [] then ret_err ''member_joined missing member_identity''
         else roe_then (upsert_one (jp_group_id p) now (jp_identity p) (jp_role p)) (\<lambda>_.
           roe_then (upsert_entries (jp_group_id p) now (jp_identity p) (jp_members p)) (\<lambda>_.
             UpsertMetadata (md\<lparr>md_roster_epoch := jp_roster_epoch p\<rparr>)))))"

definition ApplyOwnerTransferredToRoster ::
  "owner_transferred_payload \<Rightarrow> string \<Rightarrow> time_ms \<Rightarrow> unit store_op" where
  "ApplyOwnerTransferredToRoster p actor now =
     roe_then (LoadMetadataRequired (ot_group_id p)) (\<lambda>md.
       if md_owner md \<noteq> actor then ret_err ''Transfer rejected: actor is not the group owner''
       else roe_then (State_Monad.return (RequireNewerEpoch md (ot_roster_epoch p))) (\<lambda>_.
         if ot_new_owner p = [] \<or> ot_new_owner p = actor then ret_err ''Invalid new owner''
         else roe_then (IsMember (ot_group_id p) (ot_new_owner p)) (\<lambda>is_member.
           if \<not> is_member then ret_err ''New owner is not a roster member''
           else roe_then (UpsertMetadata (md\<lparr>md_owner := ot_new_owner p, md_roster_epoch := ot_roster_epoch p\<rparr>)) (\<lambda>_.
             roe_then (UpsertMember (ot_group_id p) \<lparr>rm_identity = ot_new_owner p, rm_contact_id = [],
                 rm_role = Owner, rm_joined_at = now, rm_added_by = []\<rparr>) (\<lambda>_.
               if ot_leave_previous p then RemoveMember (ot_group_id p) actor
               else do {
                 UpsertMember (ot_group_id p) \<lparr>rm_identity = actor, rm_contact_id = [], rm_role = Member,
                   rm_joined_at = now, rm_added_by = []\<rparr>;
                 ret_ok ()
               })))))"

definition ApplyMemberRemovedToRoster :: "member_removed_payload \<Rightarrow> string \<Rightarrow> unit store_op" where
  "ApplyMemberRemovedToRoster p actor =
     roe_then (LoadMetadataRequired (mr_group_id p)) (\<lambda>md.
       if md_owner md \<noteq> actor then ret_err ''Remove rejected: actor is not the group owner''
       else if mr_identity p = actor then ret_err ''Owner cannot remove self''
       else roe_then (State_Monad.return (RequireNewerEpoch md (mr_roster_epoch p))) (\<lambda>_.
         roe_then (RemoveMember (mr_group_id p) (mr_identity p)) (\<lambda>_.
           UpsertMetadata (md\<lparr>md_roster_epoch := mr_roster_epoch p\<rparr>))))"

definition ApplyGroupRenamedToRoster :: "group_renamed_payload \<Rightarrow> string \<Rightarrow> bool store_op" where
  "ApplyGroupRenamedToRoster p actor =
     roe_then (LoadMetadataRequired (gr_group_id p)) (\<lambda>md.
       if actor = [] \<or> md_owner md \<noteq> actor then ret_err ''Rename rejected: actor is not the group owner''
       else if gr_title_version p \<le> md_title_version md then ret_ok False
       else roe_then (UpsertMetadata (md\<lparr>md_title := gr_title p, md_title_version := gr_title_version p,
           md_roster_epoch := (if gr_roster_epoch p > md_roster_epoch md then gr_roster_epoch p
             else md_roster_epoch md)\<rparr>)) (\<lambda>_. ret_ok True))"

subsection \<open>The end of a group\<close>

record group_dissolved_applied =
  da_applied :: bool
  da_voided :: "pending_group_invite list"

definition EndGroupInRoster ::
  "string \<Rightarrow> string \<Rightarrow> u64 \<Rightarrow> string \<Rightarrow> pending_group_send list \<Rightarrow> group_dissolved_applied store_op" where
  "EndGroupInRoster g owner epoch statement_json sends =
     roe_then (EndGroup g \<lparr>ge_owner = owner, ge_roster_epoch = epoch, ge_statement_json = statement_json,
         ge_sends = sends\<rparr>) (\<lambda>ended.
       ret_ok (case ended of None \<Rightarrow> \<lparr>da_applied = False, da_voided = []\<rparr>
         | Some voided \<Rightarrow> \<lparr>da_applied = True, da_voided = voided\<rparr>))"

definition ApplyDissolved ::
  "crypto \<Rightarrow> roster_json \<Rightarrow> statement \<Rightarrow> string \<Rightarrow> string option \<Rightarrow> group_dissolved_applied store_op" where
  "ApplyDissolved cr js st local actor =
     roe_then (LoadMetadata (s_group_id st)) (\<lambda>metadata.
       case metadata of
         None \<Rightarrow> ret_ok \<lparr>da_applied = False, da_voided = []\<rparr>
       | Some md \<Rightarrow>
           if md_sync_state md = Dissolved then ret_ok \<lparr>da_applied = False, da_voided = []\<rparr>
           else roe_then (if local = [] then ret_ok False else IsMember (s_group_id st) local) (\<lambda>member.
             if \<not> member then ret_ok \<lparr>da_applied = False, da_voided = []\<rparr>
             else if \<not> s_dissolved st
             then ret_err ''Dissolve rejected: the statement does not say the group ended''
             else if (case actor of None \<Rightarrow> False | Some a \<Rightarrow> a = [] \<or> s_owner st \<noteq> a)
             then ret_err ''Dissolve rejected: actor is not the owner who signed it''
             else case Verify cr st (md_owner md) of
               Inl (Error e) \<Rightarrow> ret_err (''Dissolve rejected: '' @ e)
             | Inr _ \<Rightarrow>
                 if s_roster_epoch st < md_roster_epoch md
                 then ret_err ''Dissolve rejected: older than the roster we hold''
                 else if OwnerHandedOn (s_owner_chain st @
                     (case Held js md of None \<Rightarrow> [] | Some h \<Rightarrow> s_owner_chain h)) st
                 then ret_err ''Dissolve rejected: its owner had already handed the group on''
                 else EndGroupInRoster (s_group_id st) (s_owner st) (s_roster_epoch st) (js_statement js st) []))"

definition ApplyDissolvedStatement ::
  "crypto \<Rightarrow> roster_json \<Rightarrow> statement \<Rightarrow> string \<Rightarrow> group_dissolved_applied store_op" where
  "ApplyDissolvedStatement cr js st local = ApplyDissolved cr js st local None"

definition ApplyGroupDissolvedToRoster ::
  "crypto \<Rightarrow> roster_json \<Rightarrow> statement \<Rightarrow> string \<Rightarrow> string \<Rightarrow> group_dissolved_applied store_op" where
  "ApplyGroupDissolvedToRoster cr js st actor local = ApplyDissolved cr js st local (Some actor)"

end
