(* ===== verification/MembershipClaims.thy ===== *)
theory MembershipClaims
  imports StoreClaims GroupMembership
begin

section \<open>Who changes a roster\<close>

text \<open>
  The membership events as one type, handled by the operations of \<open>GroupMembership\<close>; the rules by
  which an event is entitled to change the group it names; and the claims: only entitled events
  change anything, and only in their own group; epochs do not fall and a dissolved group stays so;
  an accepted invite adds its member once; a dissolve is applied as a whole.
\<close>

subsection \<open>Events\<close>

datatype membership_event =
    AcceptCame string string string string time_ms
  | DeclineCame string string string
  | JoinedCame member_joined_payload string time_ms
  | TransferCame owner_transferred_payload string time_ms
  | RemovalCame member_removed_payload string
  | RenameCame group_renamed_payload string
  | DissolveCame statement string string
  | DissolvedFound statement string

fun handle :: "crypto \<Rightarrow> roster_json \<Rightarrow> membership_event \<Rightarrow> unit store_op" where
  "handle cr js (AcceptCame nonce member g local now) =
     roe_then (ApplyInviteAcceptToRoster nonce member g local now) (\<lambda>_. ret_ok ())"
| "handle cr js (DeclineCame nonce member g) = ApplyInviteDeclineToRoster nonce member g"
| "handle cr js (JoinedCame p actor now) = ApplyMemberJoinedToRoster p actor now"
| "handle cr js (TransferCame p actor now) = ApplyOwnerTransferredToRoster p actor now"
| "handle cr js (RemovalCame p actor) = ApplyMemberRemovedToRoster p actor"
| "handle cr js (RenameCame p actor) = roe_then (ApplyGroupRenamedToRoster p actor) (\<lambda>_. ret_ok ())"
| "handle cr js (DissolveCame st actor local) =
     roe_then (ApplyGroupDissolvedToRoster cr js st actor local) (\<lambda>_. ret_ok ())"
| "handle cr js (DissolvedFound st local) = roe_then (ApplyDissolvedStatement cr js st local) (\<lambda>_. ret_ok ())"

fun event_group :: "membership_event \<Rightarrow> string" where
  "event_group (AcceptCame nonce member g local now) = g"
| "event_group (DeclineCame nonce member g) = g"
| "event_group (JoinedCame p actor now) = jp_group_id p"
| "event_group (TransferCame p actor now) = ot_group_id p"
| "event_group (RemovalCame p actor) = mr_group_id p"
| "event_group (RenameCame p actor) = gr_group_id p"
| "event_group (DissolveCame st actor local) = s_group_id st"
| "event_group (DissolvedFound st local) = s_group_id st"

subsection \<open>Reading\<close>

lemma after_GetGroupSessionEpoch [after_intros]:
  "(\<And>e. Q (Inl e) (clean s)) \<Longrightarrow> (\<And>x. Q (Inr x) (clean s)) \<Longrightarrow> after (GetGroupSessionEpoch g) Q s"
  unfolding GetGroupSessionEpoch_def by (auto intro!: after_intros split: list.splits)

lemma after_LoadMetadata [after_intros]:
  assumes "\<And>e. Q (Inl e) (clean s)" and "Q (Inr None) (clean s)"
    and "\<And>md epoch. map_of (db_metadata s) g = Some md \<Longrightarrow>
      Q (Inr (Some (md\<lparr>md_group_id := g, md_session_epoch := epoch\<rparr>))) (clean s)"
  shows "after (LoadMetadata g) Q s"
  unfolding LoadMetadata_def
  by (rule after_roe_then, rule after_db_rows)
    (auto intro!: after_intros after_bind assms split: list.splits option.splits simp: take_Cons split: nat.splits)

lemma after_LoadMetadataRequired [after_intros]:
  assumes "\<And>e. Q (Inl e) (clean s)"
    and "\<And>md epoch. map_of (db_metadata s) g = Some md \<Longrightarrow>
      Q (Inr (md\<lparr>md_group_id := g, md_session_epoch := epoch\<rparr>)) (clean s)"
  shows "after (LoadMetadataRequired g) Q s"
  unfolding LoadMetadataRequired_def by (auto intro!: after_intros assms)

lemma after_ListMembers [after_intros]:
  assumes "\<And>e. Q (Inl e) (clean s)" and "\<And>n. Q (Inr (take n (rows_of g (db_rosters s)))) (clean s)"
  shows "after (ListMembers g) Q s"
proof -
  have "Q (Inr (rows_of g (db_rosters s))) (clean s)"
    using assms(2) [of "length (rows_of g (db_rosters s))"] by simp
  then show ?thesis unfolding ListMembers_def by (auto intro!: after_intros assms)
qed

lemma after_FindMember [after_intros]:
  assumes "\<And>e. Q (Inl e) (clean s)" and "Q (Inr None) (clean s)"
    and "\<And>m. m \<in> set (rows_of g (db_rosters s)) \<Longrightarrow> rm_identity m = i \<Longrightarrow> Q (Inr (Some m)) (clean s)"
  shows "after (FindMember g i) Q s"
proof -
  have "Q (Inr (List.find (\<lambda>m. rm_identity m = i) (take n (rows_of g (db_rosters s))))) (clean s)" for n
  proof (cases "List.find (\<lambda>m. rm_identity m = i) (take n (rows_of g (db_rosters s)))")
    case (Some m)
    then have "m \<in> set (rows_of g (db_rosters s))" "rm_identity m = i"
      by (auto simp: find_Some_iff dest: nth_mem in_set_takeD)
    then show ?thesis unfolding Some by (rule assms(3))
  qed (use assms(2) in simp)
  then show ?thesis unfolding FindMember_def by (auto intro!: after_intros assms)
qed

lemma after_IsMember [after_intros]:
  assumes "\<And>e. Q (Inl e) (clean s)" and "Q (Inr False) (clean s)"
    and "\<exists>m. m \<in> set (rows_of g (db_rosters s)) \<and> rm_identity m = i \<Longrightarrow> Q (Inr True) (clean s)"
  shows "after (IsMember g i) Q s"
  unfolding IsMember_def by (auto intro!: after_intros assms)

lemma after_LoadPendingInvite [after_intros]:
  assumes "\<And>e. Q (Inl e) (clean s)" and "Q (Inr None) (clean s)"
    and "\<And>i. map_of (db_invites s) n = Some i \<Longrightarrow> Q (Inr (Some (i\<lparr>pi_nonce := n\<rparr>))) (clean s)"
  shows "after (LoadPendingInvite n) Q s"
  unfolding LoadPendingInvite_def
  by (rule after_roe_then, rule after_db_rows)
    (auto intro!: after_intros assms split: list.splits option.splits nat.splits simp: take_Cons)

text \<open>Writes of members and metadata leave the invites, and writes of invites the rest.\<close>

lemma invites_UpsertMember: "after (UpsertMember g m) (\<lambda>_ t. db_invites t = db_invites s) s"
  unfolding UpsertMember_def NotifyChanged_def by (rule after_db_write) simp_all

lemma invites_UpsertMetadata: "after (UpsertMetadata md) (\<lambda>_ t. db_invites t = db_invites s) s"
  unfolding UpsertMetadata_def NotifyChanged_def by (rule after_db_write) simp_all

subsection \<open>Relations every event respects\<close>

text \<open>
  What a relation between the store before and after needs so that every event of the group \<open>g\<close>
  respects it: it follows from the single writes.
\<close>

locale group_writes =
  fixes R :: "roster_store \<Rightarrow> roster_store \<Rightarrow> bool" and g :: string
  assumes R_refl: "R s s"
    and R_trans: "R s t \<Longrightarrow> R t u \<Longrightarrow> R s u"
    and R_faults: "R s (s\<lparr>db_faults := fs\<rparr>)"
    and R_notice: "R s (NotifyChanged c s)"
    and R_member: "R s (s\<lparr>db_rosters := om_put (g, rm_identity m) m (db_rosters s)\<rparr>)"
    and R_gone: "R s (s\<lparr>db_rosters := om_erase (g, i) (db_rosters s)\<rparr>)"
    and R_metadata: "md_group_id md = g \<Longrightarrow> R s (s\<lparr>db_metadata := om_put g md (db_metadata s)\<rparr>)"
    and R_status: "st \<noteq> Pending \<Longrightarrow> (\<And>n i. map_of (db_invites s) n = Some i \<Longrightarrow> P n i \<Longrightarrow> pi_group_id i = g) \<Longrightarrow>
      R s (s\<lparr>db_invites := map (\<lambda>(n, i). (n, if P n i then i\<lparr>pi_status := st\<rparr> else i)) (db_invites s)\<rparr>)"
    and R_ended: "R s (ended_store g ending s)"
begin

lemma R_clean [simp]: "R s t \<Longrightarrow> R s (t\<lparr>db_faults := fs\<rparr>)"
  using R_trans R_faults by blast

lemma R_notified [simp]: "R s t \<Longrightarrow> R s (NotifyChanged c t)"
  using R_trans R_notice by blast

text \<open>The writes, after an arbitrary script of failures was put in place.\<close>

lemma R_writes [simp]:
  assumes "R s0 s"
  shows "R s0 (s\<lparr>db_rosters := om_put (g, rm_identity m) m (db_rosters s)\<rparr>)"
    and "R s0 (s\<lparr>db_rosters := om_erase (g, i) (db_rosters s)\<rparr>)"
    and "md_group_id md = g \<Longrightarrow> R s0 (s\<lparr>db_metadata := om_put g md (db_metadata s)\<rparr>)"
    and "R s0 (ended_store g ending s)"
  using R_trans [OF assms R_member] R_trans [OF assms R_gone] R_trans [OF assms R_metadata]
    R_trans [OF assms R_ended] by simp_all

lemma R_writes_faults [simp]:
  assumes "R s0 s"
  shows "R s0 (s\<lparr>db_faults := fs, db_rosters := om_put (g, rm_identity m) m (db_rosters s)\<rparr>)"
    and "R s0 (s\<lparr>db_faults := fs, db_rosters := om_erase (g, i) (db_rosters s)\<rparr>)"
    and "md_group_id md = g \<Longrightarrow> R s0 (s\<lparr>db_faults := fs, db_metadata := om_put g md (db_metadata s)\<rparr>)"
  using R_writes [OF R_clean [OF assms, of fs]] by simp_all

lemmas R_simps = R_clean R_notified R_writes R_writes_faults

lemma R_status_write:
  assumes "R s0 s" and "st \<noteq> Pending" and "\<And>n i. map_of (db_invites s) n = Some i \<Longrightarrow> P n i \<Longrightarrow> pi_group_id i = g"
  shows "R s0 (s\<lparr>db_invites := map (\<lambda>(n, i). (n, if P n i then i\<lparr>pi_status := st\<rparr> else i)) (db_invites s)\<rparr>)"
  using R_trans [OF assms(1) R_status [OF assms(2)], of P] assms(3) by simp

lemma keeps_UpsertMember:
  assumes "R s0 s" shows "after (UpsertMember g m) (\<lambda>_. R s0) s"
  unfolding UpsertMember_def by (rule after_db_write) (use assms in \<open>simp_all\<close>)

lemma keeps_UpsertMetadata:
  assumes "R s0 s" "md_group_id md = g" shows "after (UpsertMetadata md) (\<lambda>_. R s0) s"
  unfolding UpsertMetadata_def by (rule after_db_write) (use assms in \<open>simp_all\<close>)

lemma keeps_RemoveMember:
  assumes "R s0 s" shows "after (RemoveMember g i) (\<lambda>_. R s0) s"
  unfolding RemoveMember_def
  by (rule after_get, rule after_roe_then, rule after_db_write_unchecked)
    (auto simp: assms intro!: after_intros after_bind)

lemma keeps_UpdateInviteStatus:
  assumes "R s0 s" and "st \<noteq> Pending" and "\<And>i. map_of (db_invites s) n = Some i \<Longrightarrow> pi_group_id i = g"
  shows "after (UpdateInviteStatus n st) (\<lambda>_. R s0) s"
  unfolding UpdateInviteStatus_def
  by (rule after_roe_then, rule after_db_write_unchecked)
    (use assms in \<open>auto intro!: after_ret_ok R_clean R_status_write [where P = "\<lambda>n' _. n' = n"]\<close>)

lemma keeps_ExpireOutboundInvitesTo:
  assumes "R s0 s" shows "after (ExpireOutboundInvitesTo g i) (\<lambda>_. R s0) s"
  unfolding ExpireOutboundInvitesTo_def set_status_def
  by (rule after_roe_then, rule after_db_write_unchecked)
    (use assms in \<open>auto intro!: after_ret_ok R_clean R_status_write [where P = "\<lambda>_ i'. pi_group_id i' = g
      \<and> pi_invitee i' = i \<and> pi_outbound i' \<and> pi_status i' = Pending"]\<close>)

lemma keeps_EndGroup:
  assumes "R s0 s" shows "after (EndGroup g ending) (\<lambda>_. R s0) s"
  by (rule after_EndGroup) (use assms in \<open>simp_all\<close>)

lemma keeps_upsert_one: "R s0 s \<Longrightarrow> after (upsert_one g now i r) (\<lambda>_. R s0) s"
  unfolding upsert_one_def by (auto intro: after_ret_ok keeps_UpsertMember)

lemma keeps_upsert_entries: "R s0 s \<Longrightarrow> after (upsert_entries g now j es) (\<lambda>_. R s0) s"
proof (induction es arbitrary: s)
  case (Cons e es)
  have "after (upsert_one g now (je_identity e) (je_role e)) (\<lambda>_. R s0) s" by (rule keeps_upsert_one) (rule Cons.prems)
  then show ?case
    using Cons by (auto intro!: after_roe_then elim!: after_weaken split: sum.split)
qed (simp add: after_ret_ok)

text \<open>A step of an operation, under the relation.\<close>

lemma keeps_then:
  assumes "after m (\<lambda>_. R s0) s" and "\<And>x t. R s0 t \<Longrightarrow> after (f x) (\<lambda>_. R s0) t"
  shows "after (roe_then m f) (\<lambda>_. R s0) s"
  using assms by (auto intro!: after_roe_then elim!: after_weaken split: sum.split)

lemmas keeps = keeps_UpsertMember keeps_UpsertMetadata keeps_RemoveMember keeps_EndGroup keeps_upsert_one
  keeps_upsert_entries keeps_ExpireOutboundInvitesTo

lemma keeps_decline:
  assumes "R s0 s" shows "after (ApplyInviteDeclineToRoster n m g) (\<lambda>_. R s0) s"
  unfolding ApplyInviteDeclineToRoster_def
  by (auto intro!: after_intros after_if keeps_UpdateInviteStatus simp: assms)

lemma keeps_joined:
  assumes "R s0 s" "jp_group_id p = g" shows "after (ApplyMemberJoinedToRoster p actor now) (\<lambda>_. R s0) s"
  unfolding ApplyMemberJoinedToRoster_def assms(2)
  by (rule after_roe_then, rule after_LoadMetadataRequired)
    (auto simp: assms(1) intro!: after_if keeps_then keeps after_return after_ret_err after_ret_ok)

lemma keeps_transferred:
  assumes "R s0 s" "ot_group_id p = g" shows "after (ApplyOwnerTransferredToRoster p actor now) (\<lambda>_. R s0) s"
  unfolding ApplyOwnerTransferredToRoster_def assms(2)
  by (rule after_roe_then, rule after_LoadMetadataRequired)
    (auto simp: assms(1) intro!: after_if keeps_then keeps after_return after_ret_err after_ret_ok
      after_IsMember after_bind elim!: after_weaken intro: after_weaken [OF keeps_UpsertMember])

lemma keeps_removed:
  assumes "R s0 s" "mr_group_id p = g" shows "after (ApplyMemberRemovedToRoster p actor) (\<lambda>_. R s0) s"
  unfolding ApplyMemberRemovedToRoster_def assms(2)
  by (rule after_roe_then, rule after_LoadMetadataRequired)
    (auto simp: assms(1) intro!: after_if keeps_then keeps after_return after_ret_err)

lemma keeps_renamed:
  assumes "R s0 s" "gr_group_id p = g" shows "after (ApplyGroupRenamedToRoster p actor) (\<lambda>_. R s0) s"
  unfolding ApplyGroupRenamedToRoster_def assms(2)
  by (rule after_roe_then, rule after_LoadMetadataRequired)
    (auto simp: assms(1) intro!: after_if keeps_then keeps after_ret_ok after_ret_err)

lemma keeps_AddAsOwner:
  assumes "R s0 s" "pi_group_id iv = g" "md_group_id md = g"
    and mine: "\<And>i. map_of (db_invites s) (pi_nonce iv) = Some i \<Longrightarrow> pi_group_id i = g"
  shows "after (AddAsOwner iv md m l now) (\<lambda>_. R s0) s"
proof -
  have expire: "after (State_Monad.bind (ExpireOutboundInvitesTo g m) (\<lambda>_. ret_ok Added)) (\<lambda>_. R s0) t" if "R s0 t" for t
    by (rule after_bind, rule after_weaken [OF keeps_ExpireOutboundInvitesTo [OF that]]) (simp add: after_ret_ok)
  have accept: "after (roe_then (UpdateInviteStatus (pi_nonce iv) Accepted)
      (\<lambda>_. State_Monad.bind (ExpireOutboundInvitesTo g m) (\<lambda>_. ret_ok Added))) (\<lambda>_. R s0) t"
    if "R s0 t \<and> db_invites t = db_invites s" for t
    by (rule keeps_then [OF keeps_UpdateInviteStatus [OF _ _ mine] expire]) (use that in auto)
  have metadata: "after (roe_then (UpsertMetadata (md\<lparr>md_roster_epoch := md_roster_epoch md + 1\<rparr>))
      (\<lambda>_. roe_then (UpdateInviteStatus (pi_nonce iv) Accepted)
        (\<lambda>_. State_Monad.bind (ExpireOutboundInvitesTo g m) (\<lambda>_. ret_ok Added)))) (\<lambda>_. R s0) t"
    if t: "R s0 t \<and> db_invites t = db_invites s" for t
  proof (rule after_roe_then, rule after_weaken, rule after_conj)
    show "after (UpsertMetadata (md\<lparr>md_roster_epoch := md_roster_epoch md + 1\<rparr>)) (\<lambda>_. R s0) t"
      by (rule keeps_UpsertMetadata) (use t assms(3) in simp_all)
    show "after (UpsertMetadata (md\<lparr>md_roster_epoch := md_roster_epoch md + 1\<rparr>)) (\<lambda>_ u. db_invites u = db_invites t) t"
      by (rule invites_UpsertMetadata)
  qed (use t accept in \<open>auto split: sum.split\<close>)
  show ?thesis
    unfolding AddAsOwner_def assms(2)
  proof (rule after_roe_then, rule after_weaken, rule after_conj)
    show "after (UpsertMember g m') (\<lambda>_. R s0) s" for m' by (rule keeps_UpsertMember) (rule assms(1))
    show "after (UpsertMember g m') (\<lambda>_ u. db_invites u = db_invites s) s" for m' by (rule invites_UpsertMember)
  qed (use metadata in \<open>auto split: sum.split\<close>)
qed

lemma keeps_CheckAcceptedInvite:
  assumes "R s0 s" and mine: "\<And>i. map_of (db_invites s) (pi_nonce iv) = Some i \<Longrightarrow> pi_group_id i = g"
  shows "after (CheckAcceptedInvite iv m g' now)
    (\<lambda>r t. R s0 t \<and> (case r of Inr None \<Rightarrow> db_invites t = db_invites s \<and> pi_group_id iv = g' | _ \<Rightarrow> True)) s"
proof -
  have status: "after (State_Monad.bind (UpdateInviteStatus (pi_nonce iv) Expired) (\<lambda>_. ret_err e)) Q s"
    if "\<And>t. R s0 t \<Longrightarrow> Q (Inl (Error e)) t" for e and Q :: "invite_accepted option roe \<Rightarrow> roster_store \<Rightarrow> bool"
    by (rule after_bind, rule after_weaken [OF keeps_UpdateInviteStatus [OF assms(1) _ mine]], simp, assumption)
      (rule after_ret_err, rule that, rule R_clean)
  show ?thesis
    unfolding CheckAcceptedInvite_def
    by (intro after_if after_ret_err after_ret_ok status) (auto simp: assms(1) intro!: after_bind [OF after_ListMembers] after_if
        status after_ret_ok)
qed

lemma keeps_accept:
  assumes "R s0 s" shows "after (ApplyInviteAcceptToRoster n m g l now) (\<lambda>_. R s0) s"
proof -
  have checked: "after (roe_then (CheckAcceptedInvite iv m g now) (\<lambda>checked.
      case checked of
        Some accepted \<Rightarrow> ret_ok accepted
      | None \<Rightarrow>
          if md_owner md = l then AddAsOwner iv md m l now
          else roe_then (FindMember (pi_group_id iv) l) (\<lambda>self.
            case self of
              None \<Rightarrow> ret_err kGroupInviteNotAllowedError
            | Some me \<Rightarrow>
                if md_sync_state md \<noteq> Active \<or> \<not> GroupAllows Invite (rm_role me) (md_preset md) Member
                then ret_err kGroupInviteNotAllowedError
                else ret_ok SignAdd))) (\<lambda>_. R s0) s"
    if iv: "\<And>i. map_of (db_invites s) (pi_nonce iv) = Some i \<Longrightarrow> pi_group_id i = pi_group_id iv"
      and md: "md_group_id md = pi_group_id iv" for iv md
  proof (cases "pi_group_id iv = g")
    case True
    have mine: "map_of (db_invites s) (pi_nonce iv) = Some i \<Longrightarrow> pi_group_id i = g" for i using iv True by simp
    have owner: "after (AddAsOwner iv md m l now) (\<lambda>_. R s0) t" if "R s0 t" "db_invites t = db_invites s" for t
      by (rule keeps_AddAsOwner) (use that mine md True in simp_all)
    have other: "after (roe_then (FindMember (pi_group_id iv) l) (\<lambda>self.
            case self of
              None \<Rightarrow> ret_err kGroupInviteNotAllowedError
            | Some me \<Rightarrow>
                if md_sync_state md \<noteq> Active \<or> \<not> GroupAllows Invite (rm_role me) (md_preset md) Member
                then ret_err kGroupInviteNotAllowedError
                else ret_ok SignAdd)) (\<lambda>_. R s0) t" if "R s0 t" for t
      using that by (intro after_roe_then after_FindMember) (auto intro!: after_ret_err after_ret_ok)
    show ?thesis
      by (rule after_roe_then, rule after_weaken [OF keeps_CheckAcceptedInvite [OF assms mine]])
        (use owner other in \<open>auto intro: after_ret_ok split: sum.split option.split\<close>)
  next
    case False
    have "after (CheckAcceptedInvite iv m g now) (\<lambda>r t. R s0 t \<and> \<not> is_ok r) s"
      unfolding CheckAcceptedInvite_def using False assms by (auto intro!: after_ret_err)
    then show ?thesis by (rule after_roe_then [OF after_weaken]) (auto split: sum.split)
  qed
  have stored: "after (roe_then (LoadMetadata (pi_group_id iv)) (\<lambda>metadata.
           case metadata of
             None \<Rightarrow> ret_err ''Invite accept for a group this device does not hold''
           | Some md \<Rightarrow>
               if l = [] then ret_err ''Invite accept for a group this device does not hold''
               else if md_sync_state md = Dissolved then ret_err kGroupDissolvedError
               else roe_then (CheckAcceptedInvite iv m g now) (\<lambda>checked.
                 case checked of
                   Some accepted \<Rightarrow> ret_ok accepted
                 | None \<Rightarrow>
                     if md_owner md = l then AddAsOwner iv md m l now
                     else roe_then (FindMember (pi_group_id iv) l) (\<lambda>self.
                       case self of
                         None \<Rightarrow> ret_err kGroupInviteNotAllowedError
                       | Some me \<Rightarrow>
                           if md_sync_state md \<noteq> Active \<or> \<not> GroupAllows Invite (rm_role me) (md_preset md) Member
                           then ret_err kGroupInviteNotAllowedError
                           else ret_ok SignAdd)))) (\<lambda>_. R s0) s"
    if "\<And>i. map_of (db_invites s) (pi_nonce iv) = Some i \<Longrightarrow> pi_group_id i = pi_group_id iv" for iv
  proof (rule after_roe_then, rule after_LoadMetadata, goal_cases)
    case (3 md epoch)
    show ?case
      unfolding sum.case option.case after_clean
      by (intro after_if after_ret_err checked that) (simp_all add: assms)
  qed (simp_all add: assms after_ret_err)
  show ?thesis
    unfolding ApplyInviteAcceptToRoster_def
  proof (rule after_roe_then, rule after_LoadPendingInvite, goal_cases)
    case (3 i)
    show ?case unfolding sum.case option.case after_clean by (rule stored) (use 3 in simp)
  qed (simp_all add: assms after_ret_err)
qed

lemma keeps_dissolve:
  assumes "R s0 s" "s_group_id st = g" shows "after (ApplyDissolved cr js st local actor) (\<lambda>_. R s0) s"
  unfolding ApplyDissolved_def assms(2) EndGroupInRoster_def
  by (rule after_roe_then, rule after_LoadMetadata)
    (auto simp: assms(1) intro!: after_if keeps_then keeps after_ret_err after_ret_ok after_IsMember
      split: sum.split roe_error.split)

lemma keeps_handle:
  assumes "R s0 s" "event_group e = g" shows "after (handle cr js e) (\<lambda>_. R s0) s"
  using assms
  by (cases e)
    (auto simp: ApplyGroupDissolvedToRoster_def ApplyDissolvedStatement_def intro!: keeps_then after_ret_ok
      keeps_accept keeps_decline keeps_joined keeps_transferred keeps_removed keeps_renamed keeps_dissolve)

text \<open>Not as simplification rules of the instances.\<close>

declare R_simps [simp del]

end

text \<open>The invariant of the tables, and the other groups.\<close>

interpretation shape: group_writes "\<lambda>s t. store_ok s \<longrightarrow> store_ok t" g
  by unfold_locales auto

lemma rows_of_put [simp]: "g' \<noteq> g \<Longrightarrow> rows_of g' (om_put (g, i) m t) = rows_of g' t"
  by (induction "(g, i)" m t rule: om_put.induct) (auto simp: rows_of_def)

lemma rows_of_erase [simp]: "g' \<noteq> g \<Longrightarrow> rows_of g' (om_erase (g, i) t) = rows_of g' t"
  by (induction "(g, i)" t rule: om_erase.induct) (auto simp: rows_of_def)

lemma same_elsewhere_trans: "same_elsewhere g s t \<Longrightarrow> same_elsewhere g t u \<Longrightarrow> same_elsewhere g s u"
  unfolding same_elsewhere_def by (intro conjI allI impI) metis+

interpretation elsewhere: group_writes "same_elsewhere g" g
proof unfold_locales
  show "same_elsewhere g s (ended_store g ending s)" for s ending by (rule ended_store_elsewhere)
qed (auto simp: same_elsewhere_def NotifyChanged_def map_of_map_rows)

subsection \<open>Which events are entitled\<close>

definition in_time :: "pending_group_invite \<Rightarrow> time_ms \<Rightarrow> bool" where
  "in_time i now \<longleftrightarrow> (case pi_expires_at i of None \<Rightarrow> True | Some t \<Rightarrow> now \<le> t + kGroupInviteAcceptGraceMs)"

text \<open>An event of the owner we know, against the metadata we hold.\<close>

definition owner_event :: "roster_store \<Rightarrow> string \<Rightarrow> string \<Rightarrow> (group_metadata \<Rightarrow> bool) \<Rightarrow> bool" where
  "owner_event s g actor fresh \<longleftrightarrow>
     (case map_of (db_metadata s) g of None \<Rightarrow> False | Some md \<Rightarrow> md_owner md = actor \<and> fresh md)"

definition is_member :: "roster_store \<Rightarrow> string \<Rightarrow> string \<Rightarrow> bool" where
  "is_member s g i \<longleftrightarrow> i \<in> rm_identity ` set (rows_of g (db_rosters s))"

text \<open>A dissolve that counts: a statement, signed by the owner we know or one the group was handed to.\<close>

definition dissolve_entitled :: "crypto \<Rightarrow> roster_json \<Rightarrow> roster_store \<Rightarrow> statement \<Rightarrow> string \<Rightarrow> bool" where
  "dissolve_entitled cr js s st local \<longleftrightarrow>
     (case map_of (db_metadata s) (s_group_id st) of None \<Rightarrow> False
      | Some md \<Rightarrow> md_sync_state md \<noteq> Dissolved \<and> local \<noteq> [] \<and> is_member s (s_group_id st) local
          \<and> s_dissolved st \<and> Verify cr st (md_owner md) = Inr () \<and> md_roster_epoch md \<le> s_roster_epoch st
          \<and> \<not> OwnerHandedOn (s_owner_chain st @ (case Held js md of None \<Rightarrow> [] | Some h \<Rightarrow> s_owner_chain h)) st)"

fun event_entitled :: "crypto \<Rightarrow> roster_json \<Rightarrow> roster_store \<Rightarrow> membership_event \<Rightarrow> bool" where
  "event_entitled cr js s (AcceptCame nonce member g local now) =
     (owner_event s g local (\<lambda>md. md_sync_state md \<noteq> Dissolved) \<and> local \<noteq> []
      \<and> (case map_of (db_invites s) nonce of None \<Rightarrow> False
         | Some i \<Rightarrow> pi_outbound i \<and> pi_invitee i = member \<and> pi_group_id i = g \<and> pi_status i = Pending \<and> in_time i now))"
| "event_entitled cr js s (DeclineCame nonce member g) = False"
| "event_entitled cr js s (JoinedCame p actor now) =
     (jp_identity p \<noteq> [] \<and> owner_event s (jp_group_id p) actor (\<lambda>md. md_roster_epoch md < jp_roster_epoch p))"
| "event_entitled cr js s (TransferCame p actor now) =
     (ot_new_owner p \<noteq> [] \<and> ot_new_owner p \<noteq> actor \<and> is_member s (ot_group_id p) (ot_new_owner p)
      \<and> owner_event s (ot_group_id p) actor (\<lambda>md. md_roster_epoch md < ot_roster_epoch p))"
| "event_entitled cr js s (RemovalCame p actor) =
     (mr_identity p \<noteq> actor \<and> owner_event s (mr_group_id p) actor (\<lambda>md. md_roster_epoch md < mr_roster_epoch p))"
| "event_entitled cr js s (RenameCame p actor) =
     (actor \<noteq> [] \<and> owner_event s (gr_group_id p) actor (\<lambda>md. md_title_version md < gr_title_version p))"
| "event_entitled cr js s (DissolveCame st actor local) =
     (dissolve_entitled cr js s st local \<and> s_owner st = actor \<and> actor \<noteq> [])"
| "event_entitled cr js s (DissolvedFound st local) = dissolve_entitled cr js s st local"

definition same_roster :: "roster_store \<Rightarrow> roster_store \<Rightarrow> bool" where
  "same_roster s t \<longleftrightarrow> db_rosters t = db_rosters s \<and> db_metadata t = db_metadata s"

lemma same_roster_simps [simp]:
  "same_roster s s" "same_roster s (t\<lparr>db_faults := fs\<rparr>) = same_roster s t"
  "same_roster s (t\<lparr>db_invites := i\<rparr>) = same_roster s t"
  by (simp_all add: same_roster_def)

lemma after_True: "(\<And>r t. Q r t) \<Longrightarrow> after m Q s"
  by (simp add: after_def split: prod.split)

lemma same_roster_UpdateInviteStatus: "after (UpdateInviteStatus n st) (\<lambda>_. same_roster s) s"
  unfolding UpdateInviteStatus_def by (rule after_roe_then, rule after_db_write_unchecked) (auto intro: after_ret_ok)

lemma after_IsMember_row:
  assumes "\<And>e. Q (Inl e) (clean s)" "Q (Inr False) (clean s)" "is_member s g i \<Longrightarrow> Q (Inr True) (clean s)"
  shows "after (IsMember g i) Q s"
  by (rule after_IsMember) (use assms in \<open>auto simp: is_member_def image_iff\<close>)

lemma not_entitled_CheckAcceptedInvite:
  "after (CheckAcceptedInvite i m g now) (\<lambda>r t. same_roster s t \<and> (r = Inr None \<longrightarrow> pi_outbound i \<and> pi_invitee i = m
      \<and> pi_group_id i = g \<and> pi_status i = Pending \<and> in_time i now)) s"
proof -
  have status: "after (State_Monad.bind (UpdateInviteStatus n st) (\<lambda>_. ret_err e)) Q s"
    if "\<And>t. same_roster s t \<Longrightarrow> Q (Inl (Error e)) t" for n st e and Q :: "invite_accepted option roe \<Rightarrow> roster_store \<Rightarrow> bool"
    by (rule after_bind, rule after_weaken [OF same_roster_UpdateInviteStatus]) (rule after_ret_err, rule that, simp)
  have time: "in_time i now = (\<not> (case pi_expires_at i of None \<Rightarrow> False | Some t \<Rightarrow> now > t + kGroupInviteAcceptGraceMs))"
    by (auto simp: in_time_def split: option.split)
  show ?thesis
    unfolding CheckAcceptedInvite_def time
    by (intro after_if after_ret_err after_ret_ok status)
      (auto intro!: after_bind [OF after_ListMembers] after_if status after_ret_ok)
qed

lemma entitled_accept:
  "after (ApplyInviteAcceptToRoster nonce member g l now)
     (\<lambda>_ t. same_roster s t \<or> event_entitled cr js s (AcceptCame nonce member g l now)) s"
  (is "after _ ?Q s")
proof -
  let ?E = "event_entitled cr js s (AcceptCame nonce member g l now)"
  have checked: "after (CheckAcceptedInvite (i\<lparr>pi_nonce := nonce\<rparr>) member g now) (\<lambda>r t. same_roster s t
      \<and> (r = Inr None \<longrightarrow> (md_owner md = l \<longrightarrow> ?E))) s"
    if "map_of (db_invites s) nonce = Some i" "map_of (db_metadata s) (pi_group_id i) = Some md" "l \<noteq> []"
      "md_sync_state md \<noteq> Dissolved" for i md
    by (rule after_weaken [OF not_entitled_CheckAcceptedInvite])
      (use that in \<open>auto simp: owner_event_def in_time_def\<close>)
  have other: "after (roe_then (FindMember g' l) (\<lambda>self.
            case self of
              None \<Rightarrow> ret_err kGroupInviteNotAllowedError
            | Some me \<Rightarrow>
                if P me then ret_err kGroupInviteNotAllowedError else ret_ok SignAdd)) ?Q t" if "same_roster s t" for g' t P
    using that by (intro after_roe_then after_FindMember) (auto intro!: after_ret_err after_ret_ok)
  show ?thesis
    unfolding ApplyInviteAcceptToRoster_def
  proof (rule after_roe_then, rule after_LoadPendingInvite, goal_cases)
    case (3 i)
    note i = this
    show ?case
      unfolding sum.case option.case after_clean
    proof (rule after_roe_then, rule after_LoadMetadata, goal_cases)
      case (3 md epoch)
      then have md: "map_of (db_metadata s) (pi_group_id i) = Some md" by simp
      show ?case
        unfolding sum.case option.case after_clean
      proof (intro after_if after_ret_err)
        assume "l \<noteq> []" "md_sync_state (md\<lparr>md_group_id := pi_group_id (i\<lparr>pi_nonce := nonce\<rparr>), md_session_epoch := epoch\<rparr>) \<noteq> Dissolved"
        then have "l \<noteq> []" "md_sync_state md \<noteq> Dissolved" by simp_all
        note check = checked [OF i md this]
        show "after (roe_then (CheckAcceptedInvite (i\<lparr>pi_nonce := nonce\<rparr>) member g now) (\<lambda>checked.
            case checked of Some accepted \<Rightarrow> ret_ok accepted
            | None \<Rightarrow> if md_owner (md\<lparr>md_group_id := pi_group_id (i\<lparr>pi_nonce := nonce\<rparr>), md_session_epoch := epoch\<rparr>) = l
                then AddAsOwner (i\<lparr>pi_nonce := nonce\<rparr>)
                  (md\<lparr>md_group_id := pi_group_id (i\<lparr>pi_nonce := nonce\<rparr>), md_session_epoch := epoch\<rparr>) member l now
                else roe_then (FindMember (pi_group_id (i\<lparr>pi_nonce := nonce\<rparr>)) l) (\<lambda>self.
                  case self of None \<Rightarrow> ret_err kGroupInviteNotAllowedError
                  | Some me \<Rightarrow> if md_sync_state (md\<lparr>md_group_id := pi_group_id (i\<lparr>pi_nonce := nonce\<rparr>),
                        md_session_epoch := epoch\<rparr>) \<noteq> Active
                        \<or> \<not> GroupAllows Invite (rm_role me) (md_preset (md\<lparr>md_group_id := pi_group_id (i\<lparr>pi_nonce := nonce\<rparr>),
                        md_session_epoch := epoch\<rparr>)) Member
                      then ret_err kGroupInviteNotAllowedError else ret_ok SignAdd))) ?Q s"
        proof (rule after_roe_then, rule after_weaken [OF check], goal_cases)
          case (1 r t)
          show ?case
          proof (cases r)
            case (Inr x)
            show ?thesis
            proof (cases x)
              case None
              show ?thesis
                unfolding Inr None sum.case option.case
              proof (rule after_if)
                assume "md_owner (md\<lparr>md_group_id := pi_group_id (i\<lparr>pi_nonce := nonce\<rparr>), md_session_epoch := epoch\<rparr>) = l"
                then have ?E using 1 Inr None by simp
                then show "after (AddAsOwner (i\<lparr>pi_nonce := nonce\<rparr>) (md\<lparr>md_group_id := pi_group_id (i\<lparr>pi_nonce := nonce\<rparr>),
                    md_session_epoch := epoch\<rparr>) member l now) ?Q t" by (intro after_True disjI2)
              qed (rule other, use 1 in simp)
            qed (use 1 Inr in \<open>simp add: after_ret_ok\<close>)
          qed (use 1 in simp)
        qed
      qed simp_all
    qed (simp_all add: after_ret_err)
  qed (simp_all add: after_ret_err)
qed

lemma Held_loaded [simp]: "Held js (md\<lparr>md_group_id := g, md_session_epoch := epoch\<rparr>) = Held js md"
  by (simp add: Held_def)

lemma same_roster_same_decline: "after (ApplyInviteDeclineToRoster n m g) (\<lambda>_. same_roster s) s"
  unfolding ApplyInviteDeclineToRoster_def
  by (rule after_roe_then, rule after_LoadPendingInvite)
    (auto intro!: after_ret_err same_roster_UpdateInviteStatus)

text \<open>An event that is not entitled stops before it writes.\<close>

lemma not_entitled_dissolve:
  assumes "\<not> (dissolve_entitled cr js s st local \<and> (case actor of None \<Rightarrow> True | Some a \<Rightarrow> s_owner st = a \<and> a \<noteq> []))"
  shows "after (ApplyDissolved cr js st local actor)
    (\<lambda>r t. same_roster s t \<and> (\<forall>res. r = Inr res \<longrightarrow> \<not> da_applied res)) s"
proof -
  have member: "after (if local = [] then ret_ok False else IsMember (s_group_id st) local) Q s"
    if "\<And>e. Q (Inl e) (clean s)" "Q (Inr False) (clean s)"
      "local \<noteq> [] \<Longrightarrow> is_member s (s_group_id st) local \<Longrightarrow> Q (Inr True) (clean s)" for Q
    by (rule after_if) (use that in \<open>auto intro!: after_ret_ok after_IsMember_row\<close>)
  show ?thesis
    unfolding ApplyDissolved_def
  proof (rule after_roe_then, rule after_LoadMetadata, goal_cases)
    case (3 md epoch)
    then have md: "map_of (db_metadata s) (s_group_id st) = Some md" by simp
    show ?case
      unfolding sum.case option.case after_clean
    proof (rule after_if, simp add: after_ret_ok, rule after_roe_then, rule member, goal_cases)
      case 3
      then have facts: "local \<noteq> []" "is_member s (s_group_id st) local" "md_sync_state md \<noteq> Dissolved" by simp_all
      show ?case
        unfolding sum.case after_clean
      proof (intro after_if after_ret_ok after_ret_err, goal_cases)
        case 4
        show ?case
        proof (cases "Verify cr st (md_owner (md\<lparr>md_group_id := s_group_id st, md_session_epoch := epoch\<rparr>))")
          case (Inr u)
          then have "Verify cr st (md_owner md) = Inr ()" by simp
          with assms md facts 4 show ?thesis
            unfolding Inr sum.case
            by (intro after_if after_ret_err) (auto simp: dissolve_entitled_def split: option.splits)
        qed (auto intro: after_ret_err split: roe_error.split)
      qed simp_all
    qed (simp_all add: after_ret_ok)
  qed (simp_all add: after_ret_ok)
qed

lemma not_entitled_same:
  assumes "\<not> event_entitled cr js s e" shows "after (handle cr js e) (\<lambda>_. same_roster s) s"
proof (cases e)
  case (AcceptCame n m g l now)
  have "after (ApplyInviteAcceptToRoster n m g l now) (\<lambda>_. same_roster s) s"
    by (rule after_weaken [OF entitled_accept [of n m g l now s cr js]])
      (use assms AcceptCame in \<open>auto simp del: event_entitled.simps\<close>)
  then show ?thesis
    unfolding AcceptCame handle.simps
    by (rule after_roe_then [OF after_weaken]) (auto intro: after_ret_ok split: sum.split)
next
  case (DeclineCame n m g)
  then show ?thesis by (simp add: same_roster_same_decline)
next
  case (JoinedCame p actor now)
  show ?thesis
    unfolding JoinedCame handle.simps ApplyMemberJoinedToRoster_def
    by (rule after_roe_then, rule after_LoadMetadataRequired)
      (use assms in \<open>auto simp: JoinedCame owner_event_def RequireNewerEpoch_def
        intro!: after_ret_err after_roe_then after_return\<close>)
next
  case (TransferCame p actor now)
  show ?thesis
    unfolding TransferCame handle.simps ApplyOwnerTransferredToRoster_def
    by (rule after_roe_then, rule after_LoadMetadataRequired)
      (use assms in \<open>auto simp: TransferCame owner_event_def RequireNewerEpoch_def
        intro!: after_ret_err after_roe_then after_return after_IsMember_row\<close>)
next
  case (RemovalCame p actor)
  show ?thesis
    unfolding RemovalCame handle.simps ApplyMemberRemovedToRoster_def
    by (rule after_roe_then, rule after_LoadMetadataRequired)
      (use assms in \<open>auto simp: RemovalCame owner_event_def RequireNewerEpoch_def
        intro!: after_ret_err after_roe_then after_return\<close>)
next
  case (RenameCame p actor)
  have "after (ApplyGroupRenamedToRoster p actor) (\<lambda>_. same_roster s) s"
    unfolding ApplyGroupRenamedToRoster_def
    by (rule after_roe_then, rule after_LoadMetadataRequired)
      (use assms in \<open>auto simp: RenameCame owner_event_def intro!: after_ret_err after_ret_ok\<close>)
  then show ?thesis
    unfolding RenameCame handle.simps
    by (rule after_roe_then [OF after_weaken]) (auto intro: after_ret_ok split: sum.split)
next
  case (DissolveCame st actor l)
  have "after (ApplyDissolved cr js st l (Some actor)) (\<lambda>_. same_roster s) s"
    by (rule after_weaken [OF not_entitled_dissolve]) (use assms in \<open>auto simp: DissolveCame\<close>)
  then show ?thesis
    unfolding DissolveCame handle.simps ApplyGroupDissolvedToRoster_def
    by (rule after_roe_then [OF after_weaken]) (auto intro: after_ret_ok split: sum.split)
next
  case (DissolvedFound st l)
  have "after (ApplyDissolved cr js st l None) (\<lambda>_. same_roster s) s"
    by (rule after_weaken [OF not_entitled_dissolve]) (use assms in \<open>auto simp: DissolvedFound\<close>)
  then show ?thesis
    unfolding DissolvedFound handle.simps ApplyDissolvedStatement_def
    by (rule after_roe_then [OF after_weaken]) (auto intro: after_ret_ok split: sum.split)
qed

text \<open>
  C6: only who may changes a roster, and only in the group concerned. Whatever event arrives, in any
  well-shaped store and whatever fails: if it changes any roster row or any metadata, then it was
  entitled to. An accept: it answers our own invite to that member for that group, still pending and
  in time, and we are the owner of a group that is not over. A join, removal, transfer or rename: it
  comes from the owner we know and is newer than what we hold (a transfer names another member, a
  removal somebody else). A dissolve: we are a member, the statement says so, verifies from the owner
  we know, is not older than our roster and its owner had not handed the group on. And no event
  touches another group's metadata, roster, held changes, target or invites, or breaks the shape of
  the tables.
\<close>

theorem roster_changes_only_by_right:
  assumes "store_ok s" and run: "run_state (handle cr js e) s = (r, t)"
  shows "(db_rosters t = db_rosters s \<and> db_metadata t = db_metadata s \<or> event_entitled cr js s e)
    \<and> same_elsewhere (event_group e) s t \<and> store_ok t"
proof -
  have "same_roster s t \<or> event_entitled cr js s e"
    using afterD [OF not_entitled_same run] by auto
  moreover have "same_elsewhere (event_group e) s t"
    using afterD [OF elsewhere.keeps_handle [OF elsewhere.R_refl refl] run] by (simp add: same_elsewhere_def)
  moreover have "store_ok t"
    using afterD [OF shape.keeps_handle [of s s] run] assms(1) by simp
  ultimately show ?thesis by (simp add: same_roster_def)
qed

subsection \<open>What never goes back\<close>

definition grown :: "group_metadata \<Rightarrow> group_metadata \<Rightarrow> bool" where
  "grown md md' \<longleftrightarrow> md_roster_epoch md \<le> md_roster_epoch md' \<and> md_title_version md \<le> md_title_version md'
     \<and> (md_sync_state md = Dissolved \<longrightarrow> md_sync_state md' = Dissolved)"

definition grows :: "string \<Rightarrow> group_metadata \<Rightarrow> roster_store \<Rightarrow> bool" where
  "grows g md t \<longleftrightarrow> (\<exists>md'. map_of (db_metadata t) g = Some md' \<and> grown md md')"

lemma grown_refl [simp]: "grown md md"
  by (simp add: grown_def)

lemma grows_refl: "map_of (db_metadata s) g = Some md \<Longrightarrow> grows g md s"
  by (auto simp: grows_def)

lemma grows_simps [simp]:
  "grows g md (t\<lparr>db_faults := fs\<rparr>) = grows g md t" "grows g md (NotifyChanged c t) = grows g md t"
  "grows g md (t\<lparr>db_rosters := r\<rparr>) = grows g md t" "grows g md (t\<lparr>db_invites := i\<rparr>) = grows g md t"
  by (simp_all add: grows_def NotifyChanged_def)

lemma grows_UpsertMember: "grows g md t \<Longrightarrow> after (UpsertMember g' m) (\<lambda>_. grows g md) t"
  unfolding UpsertMember_def by (rule after_db_write) simp_all

lemma grows_UpsertMetadata:
  "grows g md t \<Longrightarrow> md_group_id md1 = g \<Longrightarrow> grown md md1 \<Longrightarrow> after (UpsertMetadata md1) (\<lambda>_. grows g md) t"
  unfolding UpsertMetadata_def by (rule after_db_write) (auto simp: grows_def NotifyChanged_def)

lemma grows_RemoveMember: "grows g md t \<Longrightarrow> after (RemoveMember g' i) (\<lambda>_. grows g md) t"
  unfolding RemoveMember_def
  by (rule after_get, rule after_roe_then, rule after_db_write_unchecked) (auto intro!: after_intros after_bind)

lemma grows_UpdateInviteStatus: "grows g md t \<Longrightarrow> after (UpdateInviteStatus n st) (\<lambda>_. grows g md) t"
  unfolding UpdateInviteStatus_def
  by (rule after_roe_then, rule after_db_write_unchecked) (auto intro!: after_ret_ok)

lemma grows_ExpireOutboundInvitesTo: "grows g md t \<Longrightarrow> after (ExpireOutboundInvitesTo g' i) (\<lambda>_. grows g md) t"
  unfolding ExpireOutboundInvitesTo_def set_status_def
  by (rule after_roe_then, rule after_db_write_unchecked) (auto intro!: after_ret_ok)

lemma grows_then:
  assumes "after m (\<lambda>_. grows g md) s" and "\<And>x t. grows g md t \<Longrightarrow> after (f x) (\<lambda>_. grows g md) t"
  shows "after (roe_then m f) (\<lambda>_. grows g md) s"
  using assms by (auto intro!: after_roe_then elim!: after_weaken split: sum.split)

lemma grows_bind:
  assumes "after m (\<lambda>_. grows g md) s" and "\<And>x t. grows g md t \<Longrightarrow> after (f x) (\<lambda>_. grows g md) t"
  shows "after (State_Monad.bind m f) (\<lambda>_. grows g md) s"
  using assms by (auto intro!: after_bind elim!: after_weaken)

lemma grows_return:
  "grows g md t \<Longrightarrow> after (State_Monad.return x) (\<lambda>_. grows g md) t"
  "grows g md t \<Longrightarrow> after (ret_ok y) (\<lambda>_. grows g md) t"
  "grows g md t \<Longrightarrow> after (ret_err e) (\<lambda>_. grows g md) t"
  by (simp_all add: after_return after_ret_ok after_ret_err)

lemma grows_upsert_one: "grows g md t \<Longrightarrow> after (upsert_one g' now i r) (\<lambda>_. grows g md) t"
  unfolding upsert_one_def by (auto intro: grows_return grows_UpsertMember)

lemma grows_upsert_entries: "grows g md t \<Longrightarrow> after (upsert_entries g' now j es) (\<lambda>_. grows g md) t"
  by (induction es arbitrary: t) (auto intro!: grows_return grows_then grows_upsert_one)

lemma grows_EndGroup:
  assumes "map_of (db_metadata s) g = Some md" "md_roster_epoch md \<le> ge_roster_epoch ending"
  shows "after (EndGroup g ending) (\<lambda>_. grows g md) s"
  by (rule after_EndGroup)
    (use assms in \<open>auto simp: grows_def grown_def NotifyChanged_def ended_store_def ended_metadata_row_def map_of_map_rows signed_max_def\<close>)

lemmas grows_intros = grows_return grows_UpsertMember grows_RemoveMember grows_UpdateInviteStatus
  grows_ExpireOutboundInvitesTo grows_upsert_one grows_upsert_entries

lemma grown_loaded [simp]:
  "grown md (md\<lparr>md_group_id := g, md_session_epoch := epoch, md_roster_epoch := e\<rparr>) \<longleftrightarrow> md_roster_epoch md \<le> e"
  "grown md (md\<lparr>md_group_id := g, md_session_epoch := epoch, md_owner := ow, md_roster_epoch := e\<rparr>) \<longleftrightarrow> md_roster_epoch md \<le> e"
  "grown md (md\<lparr>md_group_id := g, md_session_epoch := epoch, md_title := ti, md_title_version := v, md_roster_epoch := e\<rparr>)
    \<longleftrightarrow> md_roster_epoch md \<le> e \<and> md_title_version md \<le> v"
  by (auto simp: grown_def)

lemma grows_RequireNewerEpoch:
  assumes "grows g md t" and "\<And>u. md_roster_epoch md1 < e \<Longrightarrow> grows g md u \<Longrightarrow> after (f ()) (\<lambda>_. grows g md) u"
  shows "after (roe_then (State_Monad.return (RequireNewerEpoch md1 e)) f) (\<lambda>_. grows g md) t"
  by (rule after_roe_then, rule after_return) (use assms in \<open>auto simp: RequireNewerEpoch_def\<close>)

lemma grows_IsMember: "grows g md t \<Longrightarrow> after (IsMember g' i) (\<lambda>_. grows g md) t"
  by (rule after_IsMember) simp_all

lemma grows_joined:
  assumes "map_of (db_metadata s) g = Some md" "jp_group_id p = g"
  shows "after (ApplyMemberJoinedToRoster p actor now) (\<lambda>_. grows g md) s"
  unfolding ApplyMemberJoinedToRoster_def
  by (rule after_roe_then, rule after_LoadMetadataRequired)
    (use assms grows_refl [OF assms(1)] in \<open>auto intro!: grows_RequireNewerEpoch grows_return\<close>,
      (intro after_if grows_then grows_bind grows_intros grows_UpsertMetadata grows_IsMember; simp?)+)

lemma grows_transferred:
  assumes "map_of (db_metadata s) g = Some md" "ot_group_id p = g"
  shows "after (ApplyOwnerTransferredToRoster p actor now) (\<lambda>_. grows g md) s"
  unfolding ApplyOwnerTransferredToRoster_def
  by (rule after_roe_then, rule after_LoadMetadataRequired)
    (use assms grows_refl [OF assms(1)] in \<open>auto intro!: grows_RequireNewerEpoch grows_return\<close>,
      (intro after_if grows_then grows_bind grows_intros grows_UpsertMetadata grows_IsMember; simp?)+)

lemma grows_removed:
  assumes "map_of (db_metadata s) g = Some md" "mr_group_id p = g"
  shows "after (ApplyMemberRemovedToRoster p actor) (\<lambda>_. grows g md) s"
  unfolding ApplyMemberRemovedToRoster_def
  by (rule after_roe_then, rule after_LoadMetadataRequired)
    (use assms grows_refl [OF assms(1)] in \<open>auto intro!: grows_RequireNewerEpoch grows_return\<close>,
      (intro after_if grows_then grows_bind grows_intros grows_UpsertMetadata grows_IsMember; simp?)+)

lemma grows_renamed:
  assumes "map_of (db_metadata s) g = Some md" "gr_group_id p = g"
  shows "after (ApplyGroupRenamedToRoster p actor) (\<lambda>_. grows g md) s"
  unfolding ApplyGroupRenamedToRoster_def
  by (rule after_roe_then, rule after_LoadMetadataRequired)
    (use assms grows_refl [OF assms(1)] in \<open>auto intro!: grows_return\<close>,
      (intro grows_then grows_intros grows_UpsertMetadata; auto simp: grown_def)+)

lemma grows_dissolve:
  assumes "map_of (db_metadata s) g = Some md" "s_group_id st = g"
  shows "after (ApplyDissolved cr js st local actor) (\<lambda>_. grows g md) s"
  unfolding ApplyDissolved_def EndGroupInRoster_def
  by (rule after_roe_then, rule after_LoadMetadata)
    (use assms grows_refl [OF assms(1)] in \<open>auto intro!: grows_return grows_EndGroup after_if
      after_roe_then [OF after_IsMember] after_roe_then [OF after_ret_ok] after_roe_then [OF after_weaken [OF grows_EndGroup]]
      split: sum.split roe_error.split\<close>)

lemma grows_CheckAcceptedInvite: "grows g md t \<Longrightarrow> after (CheckAcceptedInvite i m g' now) (\<lambda>_. grows g md) t"
  unfolding CheckAcceptedInvite_def
  by (intro after_if grows_intros grows_bind) (auto intro!: after_ListMembers grows_intros intro: grows_bind)

lemma grows_AddAsOwner:
  assumes "grows g md t" "pi_group_id i = g" "md_group_id md1 = g" "grown md (md1\<lparr>md_roster_epoch := md_roster_epoch md1 + 1\<rparr>)"
  shows "after (AddAsOwner i md1 m l now) (\<lambda>_. grows g md) t"
  unfolding AddAsOwner_def
  by (intro grows_then grows_bind grows_intros grows_UpsertMetadata) (use assms in auto)

lemma grows_accept:
  assumes md: "map_of (db_metadata s) g = Some md" and small: "md_roster_epoch md \<noteq> - 1"
  shows "after (ApplyInviteAcceptToRoster n m g l now) (\<lambda>_. grows g md) s"
proof -
  have "md_roster_epoch md < - 1" using small word_order.not_eq_extremum by blast
  then have up: "md_roster_epoch md \<le> md_roster_epoch md + 1" using epoch_up by (simp add: less_imp_le)
  have owner: "after (AddAsOwner i md1 m l now) (\<lambda>_. grows g md) t"
    if "grows g md t" "pi_group_id i = g" "md1 = md\<lparr>md_group_id := g, md_session_epoch := e\<rparr>" for i md1 e t
    by (rule grows_AddAsOwner) (use that up in \<open>auto simp: grown_def\<close>)
  have other: "after (roe_then (FindMember g' l) (\<lambda>self.
            case self of
              None \<Rightarrow> ret_err kGroupInviteNotAllowedError
            | Some me \<Rightarrow>
                if P me then ret_err kGroupInviteNotAllowedError else ret_ok SignAdd)) (\<lambda>_. grows g md) t"
    if "grows g md t" for g' t P
    using that by (intro after_roe_then after_FindMember) (auto intro!: grows_return)
  have start: "grows g md s" using md by (rule grows_refl)
  show ?thesis
    unfolding ApplyInviteAcceptToRoster_def
  proof (rule after_roe_then, rule after_LoadPendingInvite, goal_cases)
    case (3 i)
    show ?case
      unfolding sum.case option.case after_clean
    proof (rule after_roe_then, rule after_LoadMetadata, goal_cases)
      case (3 md1 epoch)
      show ?case
        unfolding sum.case option.case after_clean
      proof (intro after_if after_ret_err)
        show "after (roe_then (CheckAcceptedInvite (i\<lparr>pi_nonce := n\<rparr>) m g now) (\<lambda>checked.
            case checked of Some accepted \<Rightarrow> ret_ok accepted
            | None \<Rightarrow> if md_owner (md1\<lparr>md_group_id := pi_group_id (i\<lparr>pi_nonce := n\<rparr>), md_session_epoch := epoch\<rparr>) = l
                then AddAsOwner (i\<lparr>pi_nonce := n\<rparr>)
                  (md1\<lparr>md_group_id := pi_group_id (i\<lparr>pi_nonce := n\<rparr>), md_session_epoch := epoch\<rparr>) m l now
                else roe_then (FindMember (pi_group_id (i\<lparr>pi_nonce := n\<rparr>)) l) (\<lambda>self.
                  case self of None \<Rightarrow> ret_err kGroupInviteNotAllowedError
                  | Some me \<Rightarrow> if md_sync_state (md1\<lparr>md_group_id := pi_group_id (i\<lparr>pi_nonce := n\<rparr>),
                        md_session_epoch := epoch\<rparr>) \<noteq> Active
                        \<or> \<not> GroupAllows Invite (rm_role me) (md_preset (md1\<lparr>md_group_id := pi_group_id (i\<lparr>pi_nonce := n\<rparr>),
                        md_session_epoch := epoch\<rparr>)) Member
                      then ret_err kGroupInviteNotAllowedError else ret_ok SignAdd))) (\<lambda>_. grows g md) s"
        proof (rule after_roe_then, rule after_weaken [OF after_conj [OF not_entitled_CheckAcceptedInvite
              grows_CheckAcceptedInvite [OF start]]], goal_cases)
          case (1 r t)
          show ?case
          proof (cases "r = Inr None")
            case True
            then have "pi_group_id i = g" using 1 by simp
            moreover have "md1 = md" using 3 md calculation by simp
            ultimately show ?thesis
              unfolding True sum.case option.case
              by (intro after_if other, intro owner [of _ _ _ epoch]) (use 1 in simp_all)
          qed (use 1 in \<open>auto intro: grows_return split: sum.split option.split\<close>)
        qed
      qed (use start in simp_all)
    qed (use start in \<open>simp_all add: grows_return\<close>)
  qed (use start in \<open>simp_all add: grows_return\<close>)
qed

lemma grows_handle:
  assumes "map_of (db_metadata s) (event_group e) = Some md" "md_roster_epoch md \<noteq> - 1"
  shows "after (handle cr js e) (\<lambda>_. grows (event_group e) md) s"
proof (cases e)
  case (DeclineCame n m g)
  show ?thesis
    unfolding DeclineCame handle.simps
    by (rule after_weaken [OF same_roster_same_decline])
      (use assms(1) in \<open>auto simp: DeclineCame same_roster_def grows_def\<close>)
qed (use assms in \<open>auto simp: ApplyGroupDissolvedToRoster_def ApplyDissolvedStatement_def intro!: grows_return
    grows_joined grows_transferred grows_removed grows_then [OF grows_accept] grows_then [OF grows_renamed]
    grows_then [OF grows_dissolve]\<close>)

text \<open>
  C34: what a group has reached, no event takes back. Whatever event arrives and whatever fails, a
  group the store knows stays known; its roster epoch and the version of its title do not fall, and
  once dissolved it stays dissolved. (The roster epoch is a 64-bit counter; the claim stops short of
  its last value, from which our own add would wrap around.)
\<close>

theorem epochs_never_fall:
  assumes "map_of (db_metadata s) g = Some md" and "md_roster_epoch md \<noteq> - 1"
    and run: "run_state (handle cr js e) s = (r, t)"
  shows "\<exists>md'. map_of (db_metadata t) g = Some md' \<and> md_roster_epoch md \<le> md_roster_epoch md'
    \<and> md_title_version md \<le> md_title_version md'
    \<and> (md_sync_state md = Dissolved \<longrightarrow> md_sync_state md' = Dissolved)"
proof (cases "event_group e = g")
  case True
  then show ?thesis
    using afterD [OF grows_handle run, of md] assms(1,2) by (auto simp: grows_def grown_def)
next
  case False
  have "same_elsewhere (event_group e) s t"
    using afterD [OF elsewhere.keeps_handle [OF elsewhere.R_refl refl] run] by (simp add: same_elsewhere_def)
  then show ?thesis using False assms(1) by (auto simp: same_elsewhere_def)
qed

subsection \<open>An accepted invite\<close>

text \<open>Running an operation: one rule for each kind of call.\<close>

definition first_fault :: "roster_store \<Rightarrow> fault" where
  "first_fault s = (case db_faults s of [] \<Rightarrow> NoFault | f # _ \<Rightarrow> f)"

abbreviation used :: "roster_store \<Rightarrow> roster_store" where
  "used s \<equiv> s\<lparr>db_faults := tl (db_faults s)\<rparr>"

lemma run_next_fault [simp]: "run_state next_fault s = (first_fault s, used s)"
  by (auto simp: next_fault_def first_fault_def State_Monad.bind_def State_Monad.get_def State_Monad.set_def
      State_Monad.return_def split: list.split)

lemma run_db_rows: "run_state (db_rows q) s =
   (case first_fault s of NoFault \<Rightarrow> Inr (q (used s)) | OpFails e \<Rightarrow> Inl e | StepFails n \<Rightarrow> Inr (take n (q (used s))), used s)"
  by (simp add: db_rows_def State_Monad.bind_def State_Monad.get_def State_Monad.return_def)

lemma run_db_write: "run_state (db_write failure u) s =
   (case first_fault s of NoFault \<Rightarrow> (Inr (), u (used s)) | OpFails e \<Rightarrow> (Inl e, used s)
    | StepFails n \<Rightarrow> (Inl (Error failure), used s))"
  by (auto simp: db_write_def State_Monad.bind_def State_Monad.get_def State_Monad.return_def State_Monad.update_def
      State_Monad.set_def ret_ok_def ret_err_def split: fault.split)

lemma run_db_write_unchecked: "run_state (db_write_unchecked u) s =
   (case first_fault s of NoFault \<Rightarrow> (Inr True, u (used s)) | OpFails e \<Rightarrow> (Inl e, used s)
    | StepFails n \<Rightarrow> (Inr False, used s))"
  by (auto simp: db_write_unchecked_def State_Monad.bind_def State_Monad.get_def State_Monad.return_def
      State_Monad.update_def State_Monad.set_def ret_ok_def ret_err_def split: fault.split)

lemma run_roe_then: "run_state (roe_then m f) s =
   (case run_state m s of (Inl e, t) \<Rightarrow> (Inl e, t) | (Inr x, t) \<Rightarrow> run_state (f x) t)"
  by (simp add: roe_then_def State_Monad.bind_def State_Monad.return_def split: prod.split sum.split)

lemma run_bind: "run_state (State_Monad.bind m f) s = (case run_state m s of (x, t) \<Rightarrow> run_state (f x) t)"
  by (simp add: State_Monad.bind_def)

lemma run_get: "run_state State_Monad.get s = (s, s)"
  by (simp add: State_Monad.get_def)

lemma run_update: "run_state (State_Monad.update u) s = ((), u s)"
  by (simp add: State_Monad.update_def State_Monad.bind_def State_Monad.get_def State_Monad.set_def)

lemma run_returns: "run_state (ret_ok x) s = (Inr x, s)" "run_state (ret_err e) s = (Inl (Error e), s)"
  "run_state (State_Monad.return r) s = (r, s)"
  by (simp_all add: ret_ok_def ret_err_def State_Monad.return_def)

lemmas run_rules = run_db_rows run_db_write run_db_write_unchecked run_roe_then run_bind run_get run_update run_returns

lemma no_first_fault [simp]: "db_faults s = [] \<Longrightarrow> first_fault s = NoFault"
  by (simp add: first_fault_def)

lemmas store_calls = LoadPendingInvite_def LoadMetadata_def GetGroupSessionEpoch_def ListMembers_def FindMember_def
  IsMember_def UpsertMember_def UpsertMetadata_def UpdateInviteStatus_def ExpireOutboundInvitesTo_def RemoveMember_def

text \<open>The store that \<open>AddAsOwner\<close> leaves, notices apart.\<close>

definition added_store ::
  "string \<Rightarrow> string \<Rightarrow> string \<Rightarrow> string \<Rightarrow> time_ms \<Rightarrow> group_metadata \<Rightarrow> roster_store \<Rightarrow> roster_store" where
  "added_store nonce m g l now md s = s\<lparr>
     db_rosters := om_put (g, m) \<lparr>rm_identity = m, rm_contact_id = [], rm_role = Member, rm_joined_at = now,
       rm_added_by = l\<rparr> (db_rosters s),
     db_metadata := om_put g md (db_metadata s),
     db_invites := map (\<lambda>(n, i). (n, if pi_group_id i = g \<and> pi_invitee i = m \<and> pi_outbound i \<and> pi_status i = Pending
         then i\<lparr>pi_status := Expired\<rparr> else i))
       (map (\<lambda>(n, i). (n, if n = nonce then i\<lparr>pi_status := Accepted\<rparr> else i)) (db_invites s))\<rparr>"

lemma run_accept:
  assumes "db_faults s = []" "map_of (db_invites s) n = Some i" "pi_outbound i" "pi_invitee i = m" "pi_group_id i = g"
    "pi_status i = Pending" "in_time i now" "map_of (db_metadata s) g = Some md" "md_owner md = l" "l \<noteq> []"
    "md_sync_state md \<noteq> Dissolved" "length (rows_of g (db_rosters s)) < kMaxGroupMembers"
  shows "\<exists>notes epoch. run_state (ApplyInviteAcceptToRoster n m g l now) s =
    (Inr Added, (added_store n m g l now (md\<lparr>md_group_id := g, md_session_epoch := epoch,
      md_roster_epoch := md_roster_epoch md + 1\<rparr>) s)\<lparr>db_notified := notes\<rparr>)"
proof -
  have time: "\<not> (case pi_expires_at i of None \<Rightarrow> False | Some t \<Rightarrow> now > t + kGroupInviteAcceptGraceMs)"
    using assms(7) by (auto simp: in_time_def split: option.splits)
  let ?note = "\<lparr>rc_group_id = g, rc_member_gone = [], rc_ended = False\<rparr>"
  have "run_state (ApplyInviteAcceptToRoster n m g l now) s =
    (Inr Added, (added_store n m g l now (md\<lparr>md_group_id := g, md_session_epoch :=
        (case map_of (db_targets s) g of None \<Rightarrow> 1 | Some t \<Rightarrow> gt_session_epoch t),
      md_roster_epoch := md_roster_epoch md + 1\<rparr>) s)\<lparr>db_notified := db_notified s @ [?note, ?note]\<rparr>)"
    using assms time
    by (cases "map_of (db_targets s) g")
      (simp_all add: ApplyInviteAcceptToRoster_def CheckAcceptedInvite_def AddAsOwner_def store_calls run_rules
        NotifyChanged_def set_status_def added_store_def)
  then show ?thesis by blast
qed

lemma length_rows_of_put: "length (rows_of g (om_put (g, i) m t)) \<le> Suc (length (rows_of g t))"
  by (induction "(g, i)" m t rule: om_put.induct) (auto simp: rows_of_def)

lemma row_of_put: "m \<in> set (rows_of g (om_put (g, i) m t))"
proof -
  have "((g, i), m) \<in> set (om_put (g, i) m t)" by (rule map_of_SomeD) simp
  then have "((g, i), m) \<in> set (filter (\<lambda>p. fst (fst p) = g) (om_put (g, i) m t))" by simp
  then show ?thesis unfolding rows_of_def set_map by (rule rev_image_eqI) simp
qed

lemma answered_once:
  assumes "map_of (db_invites s) n = Some i" "pi_status i \<noteq> Pending"
    and run: "run_state (ApplyInviteAcceptToRoster n m g l now) s = (r, t)"
  shows "db_rosters t = db_rosters s \<and> db_metadata t = db_metadata s"
proof -
  have "\<not> event_entitled cr js s (AcceptCame n m g l now)" for cr js using assms(1,2) by simp
  then have "after (ApplyInviteAcceptToRoster n m g l now) (\<lambda>_. same_roster s) s"
    by (intro after_weaken [OF entitled_accept [of n m g l now s undefined undefined]]) blast
  from afterD [OF this run] show ?thesis by (simp add: same_roster_def)
qed

text \<open>An invite that was answered stays so: no event makes it pending again.\<close>

definition stays_answered :: "string \<Rightarrow> roster_store \<Rightarrow> roster_store \<Rightarrow> bool" where
  "stays_answered n s t \<longleftrightarrow> (\<forall>i. map_of (db_invites s) n = Some i \<longrightarrow> pi_status i \<noteq> Pending \<longrightarrow>
     (\<exists>i'. map_of (db_invites t) n = Some i' \<and> pi_status i' \<noteq> Pending))"

interpretation answered: group_writes "stays_answered n" g
proof unfold_locales
  show "stays_answered n s (ended_store g ending s)" for s ending
    by (auto simp: stays_answered_def ended_store_def void_pending_def map_of_set_status)
  show "stays_answered n s t \<Longrightarrow> stays_answered n t u \<Longrightarrow> stays_answered n s u" for s t u
    unfolding stays_answered_def by blast
qed (auto simp: stays_answered_def NotifyChanged_def map_of_map_rows)

fun events_run :: "crypto \<Rightarrow> roster_json \<Rightarrow> membership_event list \<Rightarrow> roster_store \<Rightarrow> roster_store" where
  "events_run cr js [] s = s"
| "events_run cr js (e # es) s = events_run cr js es (snd (run_state (handle cr js e) s))"

lemma events_stay_answered: "stays_answered n s (events_run cr js es s)"
proof (induction es arbitrary: s)
  case (Cons e es)
  obtain r t where run: "run_state (handle cr js e) s = (r, t)" by fastforce
  have "stays_answered n s t"
    using afterD [OF answered.keeps_handle [OF answered.R_refl refl] run] by (simp add: stays_answered_def)
  from answered.R_trans [OF this Cons.IH] show ?case by (simp add: run)
qed (simp add: answered.R_refl)

text \<open>
  C33: an accepted invite adds its member, once. When nothing fails, an accept that is entitled (our
  own pending invite to that member, in time, in a group we own that is not over and has room)
  succeeds: the member has a row, as a plain member we added; the roster has at most fifty rows; the
  roster epoch is the next one; the invite is marked accepted, and no other invite of ours to them
  for that group is pending. From then on the same accept, delivered again in whatever state the
  store has got to, changes no roster while the invite's row is as it was; and no membership events,
  however many and whatever fails while they are applied, bring it to where it does: it does not bring
  back a member who left or was removed.
\<close>

theorem accepted_invite_adds_once:
  assumes nofault: "db_faults s = []" and invite: "map_of (db_invites s) n = Some i"
    and "pi_outbound i" "pi_invitee i = m" "pi_group_id i = g" "pi_status i = Pending" "in_time i now"
    and group: "map_of (db_metadata s) g = Some md" "md_owner md = l" "l \<noteq> []" "md_sync_state md \<noteq> Dissolved"
    and room: "length (rows_of g (db_rosters s)) < kMaxGroupMembers"
  shows "case run_state (ApplyInviteAcceptToRoster n m g l now) s of (r, t) \<Rightarrow>
      r = Inr Added
      \<and> \<lparr>rm_identity = m, rm_contact_id = [], rm_role = Member, rm_joined_at = now, rm_added_by = l\<rparr>
          \<in> set (rows_of g (db_rosters t))
      \<and> length (rows_of g (db_rosters t)) \<le> kMaxGroupMembers
      \<and> map_option md_roster_epoch (map_of (db_metadata t) g) = Some (md_roster_epoch md + 1)
      \<and> map_option pi_status (map_of (db_invites t) n) = Some Accepted
      \<and> (\<forall>i' \<in> snd ` set (db_invites t). pi_group_id i' = g \<and> pi_invitee i' = m \<and> pi_outbound i'
           \<longrightarrow> pi_status i' \<noteq> Pending)
      \<and> (\<forall>t' now' r' t''. map_of (db_invites t') n = map_of (db_invites t) n
           \<longrightarrow> run_state (ApplyInviteAcceptToRoster n m g l now') t' = (r', t'')
           \<longrightarrow> db_rosters t'' = db_rosters t' \<and> db_metadata t'' = db_metadata t')
      \<and> (\<forall>cr js es fs now' r' t''. let t' = events_run cr js es (t\<lparr>db_faults := fs\<rparr>) in
           run_state (ApplyInviteAcceptToRoster n m g l now') t' = (r', t'')
           \<longrightarrow> db_rosters t'' = db_rosters t' \<and> db_metadata t'' = db_metadata t')"
proof -
  obtain nts epoch where run: "run_state (ApplyInviteAcceptToRoster n m g l now) s =
    (Inr Added, (added_store n m g l now (md\<lparr>md_group_id := g, md_session_epoch := epoch,
      md_roster_epoch := md_roster_epoch md + 1\<rparr>) s)\<lparr>db_notified := nts\<rparr>)" (is "_ = (_, ?t)")
    using run_accept [OF assms] by blast
  have accepted: "map_of (db_invites ?t) n = Some (i\<lparr>pi_status := Accepted\<rparr>)"
    using invite by (simp add: added_store_def map_of_map_rows del: map_map)
  show ?thesis
    unfolding run prod.case
  proof (intro conjI allI impI)
    show "length (rows_of g (db_rosters ?t)) \<le> kMaxGroupMembers"
      using room by (simp add: added_store_def le_trans [OF length_rows_of_put] Suc_leI)
    show "\<lparr>rm_identity = m, rm_contact_id = [], rm_role = Member, rm_joined_at = now, rm_added_by = l\<rparr>
        \<in> set (rows_of g (db_rosters ?t))"
      by (simp add: added_store_def row_of_put)
    show "\<forall>i' \<in> snd ` set (db_invites ?t). pi_group_id i' = g \<and> pi_invitee i' = m \<and> pi_outbound i'
        \<longrightarrow> pi_status i' \<noteq> Pending"
      by (auto simp: added_store_def split: if_splits)
    show "map_option pi_status (map_of (db_invites ?t) n) = Some Accepted" unfolding accepted by simp
  next
    fix t' t'' :: roster_store and now' r'
    assume "map_of (db_invites t') n = map_of (db_invites ?t) n"
    then have "map_of (db_invites t') n = Some (i\<lparr>pi_status := Accepted\<rparr>)" using accepted by (rule trans)
    moreover assume "run_state (ApplyInviteAcceptToRoster n m g l now') t' = (r', t'')"
    ultimately show "db_rosters t'' = db_rosters t'" "db_metadata t'' = db_metadata t'"
      using answered_once by fastforce+
  next
    fix cr js es fs now' r' t''
    let ?t' = "events_run cr js es (?t\<lparr>db_faults := fs\<rparr>)"
    have "\<exists>i'. map_of (db_invites ?t') n = Some i' \<and> pi_status i' \<noteq> Pending"
      using events_stay_answered [of n "?t\<lparr>db_faults := fs\<rparr>" cr js es] accepted by (simp add: stays_answered_def)
    then show "let t' = ?t' in run_state (ApplyInviteAcceptToRoster n m g l now') t' = (r', t'')
        \<longrightarrow> db_rosters t'' = db_rosters t' \<and> db_metadata t'' = db_metadata t'"
      unfolding Let_def using answered_once by blast
  qed (simp_all add: added_store_def)
qed

definition sample_json :: roster_json where
  "sample_json = \<lparr>js_statement = (\<lambda>st. s_group_id st), js_read_statement = (\<lambda>_. None),
     js_change = (\<lambda>c. c_group_id c), js_read_change = (\<lambda>_. None)\<rparr>"

lemma sample_store_fields [simp]:
  "db_faults (sample_store fs) = fs" "map_of (db_metadata (sample_store fs)) ''g'' = Some sample_metadata"
  "map_of (db_invites (sample_store fs)) ''n1'' = Some sample_invite"
  by (simp_all add: sample_store_def empty_store_def)

text \<open>Cat is added, then removed by the owner; the accept, delivered again, changes no roster.\<close>

theorem accepted_invite_adds_once_witness:
  "let t = snd (run_state (ApplyInviteAcceptToRoster ''n1'' ''cat'' ''g'' ''ann'' 100) (sample_store []));
     u = events_run sample_crypto sample_json
       [RemovalCame \<lparr>mr_group_id = ''g'', mr_identity = ''cat'', mr_roster_epoch = 5\<rparr> ''ann''] (t\<lparr>db_faults := []\<rparr>)
   in fst (run_state (ApplyInviteAcceptToRoster ''n1'' ''cat'' ''g'' ''ann'' 100) (sample_store [])) = Inr Added
     \<and> db_rosters (snd (run_state (ApplyInviteAcceptToRoster ''n1'' ''cat'' ''g'' ''ann'' 200) u)) = db_rosters u"
proof (cases "run_state (ApplyInviteAcceptToRoster ''n1'' ''cat'' ''g'' ''ann'' 100) (sample_store [])")
  case (Pair r t)
  let ?u = "events_run sample_crypto sample_json
    [RemovalCame \<lparr>mr_group_id = ''g'', mr_identity = ''cat'', mr_roster_epoch = 5\<rparr> ''ann''] (t\<lparr>db_faults := []\<rparr>)"
  have room: "length (rows_of ''g'' (db_rosters (sample_store []))) < kMaxGroupMembers"
    by (simp add: sample_store_def rows_of_def kMaxGroupMembers_def)
  have fine: "pi_outbound sample_invite" "pi_invitee sample_invite = ''cat''" "pi_group_id sample_invite = ''g''"
    "pi_status sample_invite = Pending" "in_time sample_invite 100" "md_owner sample_metadata = ''ann''" "''ann'' \<noteq> []"
    "md_sync_state sample_metadata \<noteq> Dissolved"
    by (simp_all add: sample_invite_def sample_metadata_def in_time_def kGroupInviteAcceptGraceMs_def)
  note claim = accepted_invite_adds_once [OF sample_store_fields(1,3) fine(1-5) sample_store_fields(2) fine(6-8) room,
      unfolded Pair prod.case]
  obtain r' t'' where again: "run_state (ApplyInviteAcceptToRoster ''n1'' ''cat'' ''g'' ''ann'' 200) ?u = (r', t'')" by fastforce
  have "db_rosters t'' = db_rosters ?u" using claim again unfolding Let_def by blast
  then show ?thesis using claim by (simp only: Pair fst_conv snd_conv Let_def again)
qed

theorem roster_changes_only_by_right_witness:
  "event_entitled sample_crypto sample_json (sample_store []) (RemovalCame \<lparr>mr_group_id = ''g'', mr_identity = ''bob'', mr_roster_epoch = 4\<rparr> ''ann'')"
proof -
  let ?e = "RemovalCame \<lparr>mr_group_id = ''g'', mr_identity = ''bob'', mr_roster_epoch = 4\<rparr> ''ann''"
  obtain r t where run: "run_state (handle sample_crypto sample_json ?e) (sample_store []) = (r, t)"
    by (cases "run_state (handle sample_crypto sample_json ?e) (sample_store [])")
  have "db_metadata t \<noteq> db_metadata (sample_store [])"
    using run by (auto simp: ApplyMemberRemovedToRoster_def LoadMetadataRequired_def RequireNewerEpoch_def store_calls
        run_rules NotifyChanged_def sample_metadata_def sample_store_def empty_store_def)
  with roster_changes_only_by_right [OF sample_store_ok run] show ?thesis by blast
qed

theorem epochs_never_fall_witness:
  "\<exists>md'. map_of (db_metadata (snd (run_state (handle sample_crypto sample_json (RenameCame \<lparr>gr_group_id = ''g'', gr_title = ''runs'',
      gr_roster_epoch = 3, gr_title_version = 1\<rparr> ''ann'')) (sample_store [])))) ''g'' = Some md' \<and> 3 \<le> md_roster_epoch md'"
proof -
  let ?e = "RenameCame \<lparr>gr_group_id = ''g'', gr_title = ''runs'', gr_roster_epoch = 3, gr_title_version = 1\<rparr> ''ann''"
  have "run_state (handle sample_crypto sample_json ?e) (sample_store [])
      = (fst (run_state (handle sample_crypto sample_json ?e) (sample_store [])), snd (run_state (handle sample_crypto sample_json ?e) (sample_store [])))"
    by simp
  from epochs_never_fall [OF sample_store_fields(2) _ this] show ?thesis
    by (auto simp: sample_metadata_def)
qed

subsection \<open>A dissolved group\<close>

lemma is_ended_clean [simp]: "is_ended g ending (t\<lparr>db_faults := fs\<rparr>) = is_ended g ending t"
  by (simp add: is_ended_def)

lemma is_ended_notice [simp]: "is_ended g ending (NotifyChanged c t) = is_ended g ending t"
  by (simp add: is_ended_def NotifyChanged_def)

lemma ended_EndGroupInRoster:
  assumes "store_ok s"
  shows "after (EndGroupInRoster g owner epoch js sends) (\<lambda>r t. \<forall>res. r = Inr res \<longrightarrow> da_applied res \<longrightarrow>
    is_ended g \<lparr>ge_owner = owner, ge_roster_epoch = epoch, ge_statement_json = js, ge_sends = sends\<rparr> t) s"
  unfolding EndGroupInRoster_def
  by (rule after_roe_then, rule after_EndGroup) (auto intro!: after_ret_ok ended_store_ended simp: assms)

lemma ended_dissolve:
  assumes "store_ok s"
  shows "after (ApplyDissolved cr js st local actor) (\<lambda>r t. \<forall>res. r = Inr res \<longrightarrow> da_applied res \<longrightarrow>
    is_ended (s_group_id st) \<lparr>ge_owner = s_owner st, ge_roster_epoch = s_roster_epoch st,
      ge_statement_json = js_statement js st, ge_sends = []\<rparr> t) s"
  unfolding ApplyDissolved_def
proof (rule after_roe_then, rule after_LoadMetadata, goal_cases)
  case (3 md epoch)
  have member: "after (if local = [] then ret_ok False else IsMember (s_group_id st) local) Q s"
    if "\<And>e. Q (Inl e) (clean s)" "\<And>b. Q (Inr b) (clean s)" for Q
    by (rule after_if) (use that in \<open>auto intro!: after_ret_ok after_IsMember\<close>)
  show ?case
    unfolding sum.case option.case after_clean
  proof (rule after_if, simp add: after_ret_ok, rule after_roe_then, rule member, goal_cases)
    case (2 b)
    show ?case
      unfolding sum.case after_clean
      by (intro after_if) (auto intro!: after_ret_ok after_ret_err after_if ended_EndGroupInRoster assms
          split: sum.split roe_error.split)
  qed simp
qed (simp_all add: after_ret_ok)

text \<open>
  C7: a group ends for us only by its owner's word, and then wholly. If applying a dissolve reports
  that it took effect (whatever fails, in a well-shaped store), then the group was open and we were a
  member of it, the statement says dissolved and verifies from the owner we knew (through signed
  transfers, if need be), it is not older than our roster, its owner had not handed the group on, and,
  when it came as a message, its sender is that owner. The group is then ended: no roster, no held
  change, no target, no pending invite, and the owner and the statement kept.
\<close>

theorem dissolve_by_owner_only:
  assumes "store_ok s" and run: "run_state (ApplyDissolved cr js st local actor) s = (Inr res, t)" and "da_applied res"
  shows "dissolve_entitled cr js s st local
    \<and> (case actor of None \<Rightarrow> True | Some a \<Rightarrow> s_owner st = a \<and> a \<noteq> [])
    \<and> is_ended (s_group_id st) \<lparr>ge_owner = s_owner st, ge_roster_epoch = s_roster_epoch st,
        ge_statement_json = js_statement js st, ge_sends = []\<rparr> t"
proof -
  have "dissolve_entitled cr js s st local \<and> (case actor of None \<Rightarrow> True | Some a \<Rightarrow> s_owner st = a \<and> a \<noteq> [])"
    using afterD [OF not_entitled_dissolve run] assms(3) by blast
  then show ?thesis using afterD [OF ended_dissolve [OF assms(1)] run] assms(3) by simp
qed

definition sample_over :: statement where
  "sample_over = sample_statement\<lparr>s_dissolved := True\<rparr>"

lemma sample_over_verifies: "Verify sample_crypto sample_over ''z'' = Inr ()"
  by (simp add: Verify_ok_iff sample_over_def sample_statement_def sample_transfer_def empty_statement_def
      sample_crypto_def statement_wf_def AllUnique_def StatementLists_def CheckSignature_def verify_chain_Cons)

definition sample_open :: roster_store where
  "sample_open = (sample_store [])\<lparr>db_metadata := [(''g'', sample_metadata\<lparr>md_owner := ''z''\<rparr>)]\<rparr>"

lemma sample_open_ok: "store_ok sample_open"
  by (simp add: sample_open_def keyed_by_def sample_metadata_def)

lemma sample_over_fields: "s_group_id sample_over = ''g''" "s_owner sample_over = ''a''" "s_dissolved sample_over"
  "s_roster_epoch sample_over = 5" "\<not> OwnerHandedOn (s_owner_chain sample_over) sample_over"
  by (simp_all add: sample_over_def sample_statement_def empty_statement_def OwnerHandedOn_def sample_transfer_def)

theorem dissolve_by_owner_only_witness:
  "dissolve_entitled sample_crypto sample_json sample_open sample_over ''bob''"
proof -
  have "run_state (ApplyDissolved sample_crypto sample_json sample_over ''bob'' (Some ''a'')) sample_open
    = (Inr \<lparr>da_applied = True, da_voided = voided_invites ''g'' sample_open\<rparr>,
       snd (run_state (ApplyDissolved sample_crypto sample_json sample_over ''bob'' (Some ''a'')) sample_open))"
    by (simp add: ApplyDissolved_def sample_over_fields store_calls run_rules sample_open_def sample_store_def
        empty_store_def sample_metadata_def rows_of_def sample_member_def sample_over_verifies Held_def
        EndGroupInRoster_def run_EndGroup_ok)
  from dissolve_by_owner_only [OF sample_open_ok this] show ?thesis by simp
qed

subsection \<open>Half a step\<close>

text \<open>
  A transfer writes the metadata first. When the next write fails, the operation reports an error and
  the event, delivered again, is refused because its sender no longer is the owner: the roster keeps
  the old owner's role for good.
\<close>

definition sample_transfer_event :: owner_transferred_payload where
  "sample_transfer_event = \<lparr>ot_group_id = ''g'', ot_new_owner = ''bob'', ot_roster_epoch = 4, ot_leave_previous = False\<rparr>"

definition half_transferred :: roster_store where
  "half_transferred = snd (run_state (ApplyOwnerTransferredToRoster sample_transfer_event ''ann'' 50)
     (sample_store [NoFault, NoFault, NoFault, NoFault, StepFails 0]))"

theorem failed_transfer_sticks:
  "map_option md_owner (map_of (db_metadata half_transferred) ''g'') = Some ''bob''
    \<and> map_option rm_role (map_of (db_rosters half_transferred) (''g'', ''bob'')) = Some Member
    \<and> map_option rm_role (map_of (db_rosters half_transferred) (''g'', ''ann'')) = Some Owner
    \<and> run_state (ApplyOwnerTransferredToRoster sample_transfer_event ''ann'' 60) half_transferred
        = (Inl (Error ''Transfer rejected: actor is not the group owner''), half_transferred)"
  by (simp add: half_transferred_def sample_transfer_event_def ApplyOwnerTransferredToRoster_def LoadMetadataRequired_def
      RequireNewerEpoch_def store_calls run_rules NotifyChanged_def sample_metadata_def sample_member_def
      sample_store_def empty_store_def rows_of_def first_fault_def)

text \<open>
  Marking an invite does not look at the result of its write. When that write fails, the accept still
  reports success, the invite stays pending, and the same accept brings the member back after the
  owner removed them.
\<close>

definition unmarked :: roster_store where
  "unmarked = snd (run_state (ApplyMemberRemovedToRoster \<lparr>mr_group_id = ''g'', mr_identity = ''cat'', mr_roster_epoch = 5\<rparr> ''ann'')
     (snd (run_state (ApplyInviteAcceptToRoster ''n1'' ''cat'' ''g'' ''ann'' 100)
       (sample_store [NoFault, NoFault, NoFault, NoFault, NoFault, NoFault, StepFails 0, StepFails 0]))))"

theorem unmarked_invite_returns:
  "fst (run_state (ApplyInviteAcceptToRoster ''n1'' ''cat'' ''g'' ''ann'' 100)
       (sample_store [NoFault, NoFault, NoFault, NoFault, NoFault, NoFault, StepFails 0, StepFails 0])) = Inr Added
    \<and> map_of (db_rosters unmarked) (''g'', ''cat'') = None
    \<and> fst (run_state (ApplyInviteAcceptToRoster ''n1'' ''cat'' ''g'' ''ann'' 200) unmarked) = Inr Added"
  by (simp add: unmarked_def ApplyInviteAcceptToRoster_def CheckAcceptedInvite_def AddAsOwner_def
      ApplyMemberRemovedToRoster_def LoadMetadataRequired_def sample_invite_def kGroupInviteAcceptGraceMs_def
      kMaxGroupMembers_def
      RequireNewerEpoch_def store_calls run_rules NotifyChanged_def sample_metadata_def sample_member_def
      sample_store_def empty_store_def rows_of_def first_fault_def set_status_def)

end
