(* ===== verification/GroupSync.thy ===== *)
theory GroupSync
  imports GroupMembership
begin

section \<open>Keeping a roster in step with its members\<close>

text \<open>
  Models \<open>GroupRosterSync.cpp\<close> of \<open>capabilities/messaging/src/lib/messaging\<close>, over the store of
  \<open>GroupStore\<close>: the roster recomputed from the owner's statement and the changes held
  (\<open>ApplyView\<close>), changes taken in (\<open>HoldChange\<close> and what rests on it), the changes this device
  drafts, the owner's next statement (\<open>OwnerDraft\<close>), and the member check: requests, answers, and
  what a reply does.

  Each operation holds the store's lock from its first call to its last, so each is one computation.
  The texts of statements and changes are those of \<open>roster_json\<close>; a change's size in a reply is the
  length of its text. The request ids of \<open>GenerateUuid\<close> are arguments (\<open>uuid\<close>), the clock is \<open>now\<close>.
  What an operation writes through a pointer argument is part of its result; it is not reported
  where the operation returns an error, since no caller looks at it then.
\<close>

subsection \<open>Limits and errors\<close>

definition kMaxHeldChanges :: nat where
  "kMaxHeldChanges = 512"

definition kMaxReplyChanges :: nat where
  "kMaxReplyChanges = 64"

definition kReplyChangesBudgetBytes :: nat where
  "kReplyChangesBudgetBytes = 96 * 1024"

definition kCatchUpGapMs :: time_ms where
  "kCatchUpGapMs = 30000"

definition kGroupCheckingError :: string where
  "kGroupCheckingError = ''chat.group.checking_members''"

definition kGroupRemovedError :: string where
  "kGroupRemovedError = ''chat.group.removed''"

definition kGroupInviteRemovedError :: string where
  "kGroupInviteRemovedError = ''chat.group.err.invite_removed''"

definition kGroupAlreadyMemberError :: string where
  "kGroupAlreadyMemberError = ''chat.group.err.already_member''"

definition kGroupRenameNotAllowedError :: string where
  "kGroupRenameNotAllowedError = ''chat.group.err.rename_not_allowed''"

definition kGroupLinkNotAllowedError :: string where
  "kGroupLinkNotAllowedError = ''chat.group.err.link_not_allowed''"

definition kGroupLinkRevokeNotAllowedError :: string where
  "kGroupLinkRevokeNotAllowedError = ''chat.group.err.link_revoke_not_allowed''"

definition kGroupLinkGoneError :: string where
  "kGroupLinkGoneError = ''chat.group.err.link_gone''"

type_synonym 'a store_read = "(roster_store, 'a) state"

type_synonym card_lookup = "string \<Rightarrow> account_card option"

subsection \<open>What a group holds\<close>

definition MetadataOf :: "string \<Rightarrow> group_metadata store_op" where
  "MetadataOf g = roe_then (LoadMetadata g) (\<lambda>metadata.
     case metadata of None \<Rightarrow> ret_err (''Group metadata not found: '' @ g) | Some md \<Rightarrow> ret_ok md)"

definition CandidateWins :: "statement option \<Rightarrow> statement \<Rightarrow> bool" where
  "CandidateWins latest candidate =
     (case latest of
        None \<Rightarrow> True
      | Some h \<Rightarrow>
          (case Pick [h, candidate] of
             None \<Rightarrow> False
           | Some picked \<Rightarrow> s_owner_signature picked = s_owner_signature candidate
               \<and> s_roster_epoch picked = s_roster_epoch candidate))"

definition ParseChange :: "roster_json \<Rightarrow> stored_change \<Rightarrow> group_change option" where
  "ParseChange js stored =
     (case js_read_change js (sc_change_json stored) of
        None \<Rightarrow> None
      | Some change \<Rightarrow> if c_group_id change \<noteq> sc_group_id stored then None else Some change)"

definition HeldChanges :: "roster_json \<Rightarrow> string \<Rightarrow> group_change list store_read" where
  "HeldChanges js g = do {
     stored \<leftarrow> ListGroupChanges g;
     State_Monad.return (case stored of Inl _ \<Rightarrow> [] | Inr rows \<Rightarrow> List.map_filter (ParseChange js) rows)
   }"

subsection \<open>The one apply path\<close>

record group_view_applied =
  va_view :: "roster_view option"
  va_newly_applied :: "group_change list"
  va_gone :: "string list"
  va_joined :: "string list"
  va_new_title :: "string option"

definition nothing_applied :: group_view_applied where
  "nothing_applied = \<lparr>va_view = None, va_newly_applied = [], va_gone = [], va_joined = [], va_new_title = None\<rparr>"

text \<open>The two loops of \<open>WriteRows\<close>: rows the view no longer lists go, the view's rows are written.\<close>

fun drop_rows :: "string \<Rightarrow> roster_view \<Rightarrow> group_roster_member list \<Rightarrow> string list \<Rightarrow> string list store_op" where
  "drop_rows g view [] gone = ret_ok gone"
| "drop_rows g view (m # ms) gone =
     (if \<not> ViewLists view (rm_identity m)
      then roe_then (RemoveMember g (rm_identity m)) (\<lambda>_. drop_rows g view ms (gone @ [rm_identity m]))
      else drop_rows g view ms gone)"

definition view_row :: "group_roster_member option \<Rightarrow> view_member \<Rightarrow> group_roster_member" where
  "view_row had m = \<lparr>rm_identity = vm_identity m, rm_contact_id = (case had of None \<Rightarrow> [] | Some r \<Rightarrow> rm_contact_id r),
     rm_role = vm_role m, rm_joined_at = vm_joined_at m, rm_added_by = vm_added_by m\<rparr>"

definition unchanged_row :: "group_roster_member \<Rightarrow> group_roster_member \<Rightarrow> bool" where
  "unchanged_row had row \<longleftrightarrow> rm_role had = rm_role row \<and> rm_joined_at had = rm_joined_at row
     \<and> rm_added_by had = rm_added_by row"

fun put_rows ::
  "string \<Rightarrow> group_roster_member list \<Rightarrow> view_member list \<Rightarrow> string list \<Rightarrow> string list store_op" where
  "put_rows g current [] joined = ret_ok joined"
| "put_rows g current (m # ms) joined =
     (let had = List.find (\<lambda>r. rm_identity r = vm_identity m) current; row = view_row had m in
      case had of
        None \<Rightarrow> roe_then (UpsertMember g row) (\<lambda>_. put_rows g current ms (joined @ [vm_identity m]))
      | Some r \<Rightarrow>
          if unchanged_row r row then put_rows g current ms joined
          else roe_then (UpsertMember g row) (\<lambda>_. put_rows g current ms joined))"

definition WriteRows :: "string \<Rightarrow> roster_view \<Rightarrow> group_view_applied \<Rightarrow> group_view_applied store_op" where
  "WriteRows g view applied =
     roe_then (ListMembers g) (\<lambda>current.
       roe_then (drop_rows g view current (va_gone applied)) (\<lambda>gone.
         roe_then (put_rows g current (w_members view) (va_joined applied)) (\<lambda>joined.
           ret_ok (applied\<lparr>va_gone := gone, va_joined := joined\<rparr>))))"

text \<open>The loop of \<open>SettleHeld\<close> over the changes that count now and have no line in the chat yet.\<close>

fun mark_lines ::
  "roster_json \<Rightarrow> roster_view \<Rightarrow> stored_change list \<Rightarrow> group_change list \<Rightarrow> group_change list store_op" where
  "mark_lines js view [] newly = ret_ok newly"
| "mark_lines js view (row # rows) newly =
     (if sc_line_shown row
         \<or> (case ViewVerdict view (sc_change_id row) of None \<Rightarrow> True | Some v \<Rightarrow> v_status v \<noteq> Applied)
      then mark_lines js view rows newly
      else case ParseChange js row of
        None \<Rightarrow> mark_lines js view rows newly
      | Some change \<Rightarrow>
          roe_then (UpsertGroupChange (row\<lparr>sc_line_shown := True\<rparr>)) (\<lambda>_.
            mark_lines js view rows (newly @ [change])))"

definition SettleHeld ::
  "roster_json \<Rightarrow> string \<Rightarrow> stored_change list \<Rightarrow> string list \<Rightarrow> roster_view \<Rightarrow> group_view_applied
    \<Rightarrow> group_view_applied store_op" where
  "SettleHeld js g stored unreadable view applied =
     roe_then (DeleteGroupChanges g
         (unreadable @ map v_id (filter (\<lambda>v. v_status v = Dropped) (w_verdicts view)))) (\<lambda>_.
       roe_then (mark_lines js view stored (va_newly_applied applied)) (\<lambda>newly.
         ret_ok (applied\<lparr>va_newly_applied := newly\<rparr>)))"

text \<open>The metadata after a view: the statement's owner, epoch and preset, and a newer title.\<close>

definition newer_title :: "roster_view \<Rightarrow> group_metadata \<Rightarrow> bool" where
  "newer_title view md \<longleftrightarrow> w_title view \<noteq> [] \<and> w_title_version view > md_title_version md"

definition view_metadata :: "statement \<Rightarrow> roster_view \<Rightarrow> group_metadata \<Rightarrow> group_metadata" where
  "view_metadata latest view md =
     (let updated = md\<lparr>md_owner := s_owner latest, md_roster_epoch := s_roster_epoch latest, md_preset := s_preset latest\<rparr> in
      if newer_title view md
      then updated\<lparr>md_title := w_title view, md_title_version := w_title_version view\<rparr>
      else updated)"

definition same_metadata :: "group_metadata \<Rightarrow> group_metadata \<Rightarrow> bool" where
  "same_metadata a b \<longleftrightarrow> md_owner a = md_owner b \<and> md_roster_epoch a = md_roster_epoch b
     \<and> md_preset a = md_preset b \<and> md_title a = md_title b \<and> md_title_version a = md_title_version b"

definition WriteMetadata ::
  "string \<Rightarrow> statement \<Rightarrow> roster_view \<Rightarrow> group_view_applied \<Rightarrow> group_view_applied store_op" where
  "WriteMetadata g latest view applied =
     roe_then (MetadataOf g) (\<lambda>now_md.
       let updated = view_metadata latest view now_md in
       roe_then (if same_metadata updated now_md then ret_ok () else UpsertMetadata updated) (\<lambda>_.
         ret_ok (applied\<lparr>va_view := Some view,
           va_new_title := (if newer_title view now_md \<and> md_title updated \<noteq> md_title now_md
             then Some (md_title updated) else va_new_title applied)\<rparr>)))"

text \<open>The roster the rules give: the statement plus the changes.\<close>

definition roster_by_rules ::
  "crypto \<Rightarrow> statement \<Rightarrow> group_change list \<Rightarrow> card_lookup \<Rightarrow> time_ms \<Rightarrow> roster_view" where
  "roster_by_rules cr st changes cards now = ComputeRosterChecked st (CheckChanges cr changes cards now) now"

definition ApplyView ::
  "crypto \<Rightarrow> roster_json \<Rightarrow> string \<Rightarrow> card_lookup \<Rightarrow> time_ms \<Rightarrow> group_view_applied store_op" where
  "ApplyView cr js g cards now =
     roe_then (MetadataOf g) (\<lambda>metadata.
       roe_then (ListGroupChanges g) (\<lambda>stored.
         if md_sync_state metadata = Dissolved
         then roe_then (DeleteGroupChanges g (map sc_change_id stored)) (\<lambda>_. ret_ok nothing_applied)
         else case Held js metadata of
           None \<Rightarrow> ret_ok nothing_applied
         | Some latest \<Rightarrow>
             if s_roster_epoch latest < md_roster_epoch metadata then ret_ok nothing_applied
             else
               let changes = List.map_filter (ParseChange js) stored;
                   unreadable = map sc_change_id (filter (\<lambda>row. ParseChange js row = None) stored);
                   view = roster_by_rules cr latest changes cards now
               in roe_then (SettleHeld js g stored unreadable view nothing_applied) (\<lambda>applied.
                    roe_then (WriteRows g view applied) (\<lambda>applied.
                      WriteMetadata g latest view applied))))"

subsection \<open>Taking a change in\<close>

datatype change_held = HeldProved | HeldNoCard | Refused

definition UpsertOrNotKept :: "stored_change \<Rightarrow> change_held \<Rightarrow> change_held store_op" where
  "UpsertOrNotKept row outcome = do {
     kept \<leftarrow> UpsertGroupChange row;
     State_Monad.return (case kept of Inr _ \<Rightarrow> Inr outcome | Inl _ \<Rightarrow> Inl (Error ''change not kept''))
   }"

text \<open>The copy already held proves more than the one that came.\<close>

definition proves_more :: "roster_json \<Rightarrow> stored_change \<Rightarrow> group_change \<Rightarrow> bool" where
  "proves_more js had change =
     (case ParseChange js had of
        None \<Rightarrow> False
      | Some existing \<Rightarrow> c_signer_card existing \<noteq> None \<and> c_signer_card change = None)"

definition KeepCopy ::
  "roster_json \<Rightarrow> group_change \<Rightarrow> string \<Rightarrow> stored_change option \<Rightarrow> time_ms \<Rightarrow> bool \<Rightarrow> change_held
    \<Rightarrow> change_held store_op" where
  "KeepCopy js change i had now line_shown outcome =
     (let write = (\<lambda>shown. roe_then (UpsertGroupChange \<lparr>sc_group_id = c_group_id change, sc_change_id = i,
          sc_change_json = js_change js change, sc_received_at = now, sc_line_shown = shown\<rparr>) (\<lambda>_. ret_ok outcome))
      in case had of
           None \<Rightarrow> write line_shown
         | Some row \<Rightarrow>
             if proves_more js row change
             then if line_shown \<and> \<not> sc_line_shown row
                  then UpsertOrNotKept (row\<lparr>sc_line_shown := True\<rparr>) outcome
                  else ret_ok outcome
             else write (line_shown \<or> sc_line_shown row))"

definition HoldChange ::
  "crypto \<Rightarrow> roster_json \<Rightarrow> group_change \<Rightarrow> card_lookup \<Rightarrow> time_ms \<Rightarrow> bool \<Rightarrow> change_held store_op" where
  "HoldChange cr js change cards now line_shown =
     roe_then (LoadMetadata (c_group_id change)) (\<lambda>metadata.
       if (case metadata of None \<Rightarrow> True | Some md \<Rightarrow> md_sync_state md = Dissolved) then ret_ok Refused
       else case CheckChanges cr [change] cards now of
         [] \<Rightarrow> ret_ok Refused
       | checked # _ \<Rightarrow>
           if cc_proof checked \<noteq> Proved \<and> cc_proof checked \<noteq> NoCard then ret_ok Refused
           else roe_then (ListGroupChanges (c_group_id change)) (\<lambda>stored.
             let had = List.find (\<lambda>row. sc_change_id row = cc_id checked) stored in
             if had = None \<and> length stored \<ge> kMaxHeldChanges then ret_ok Refused
             else KeepCopy js change (cc_id checked) had now line_shown
               (if cc_proof checked = Proved then HeldProved else HeldNoCard)))"

text \<open>Each signer's card, carried by one of the changes, stands for all of that signer's.\<close>

definition carried_cards :: "group_change list \<Rightarrow> (string \<times> account_card) list" where
  "carried_cards changes =
     fold (\<lambda>c m. case c_signer_card c of None \<Rightarrow> m | Some ac \<Rightarrow> om_emplace (c_signer c) ac m) changes []"

definition with_card :: "(string \<times> account_card) list \<Rightarrow> group_change \<Rightarrow> group_change" where
  "with_card carried c =
     (case (c_signer_card c, map_of carried (c_signer c)) of
        (None, Some ac) \<Rightarrow> c\<lparr>c_signer_card := Some ac\<rparr>
      | _ \<Rightarrow> c)"

fun hold_all ::
  "crypto \<Rightarrow> roster_json \<Rightarrow> group_change list \<Rightarrow> card_lookup \<Rightarrow> time_ms \<Rightarrow> bool \<Rightarrow> unit store_op" where
  "hold_all cr js [] cards now line_shown = ret_ok ()"
| "hold_all cr js (c # cs) cards now line_shown =
     roe_then (HoldChange cr js c cards now line_shown) (\<lambda>_. hold_all cr js cs cards now line_shown)"

definition HoldCarried ::
  "crypto \<Rightarrow> roster_json \<Rightarrow> group_change list \<Rightarrow> card_lookup \<Rightarrow> time_ms \<Rightarrow> bool \<Rightarrow> unit store_op" where
  "HoldCarried cr js changes cards now line_shown =
     hold_all cr js (map (with_card (carried_cards changes)) changes) cards now line_shown"

definition CheckJoin ::
  "crypto \<Rightarrow> roster_json \<Rightarrow> statement \<Rightarrow> group_change list \<Rightarrow> card_lookup \<Rightarrow> time_ms \<Rightarrow> string \<Rightarrow> unit store_op" where
  "CheckJoin cr js st changes cards now identity =
     roe_then (MetadataOf (s_group_id st)) (\<lambda>metadata.
       if s_dissolved st then ret_err ''the group was dissolved''
       else roe_then (State_Monad.return (Verify cr st (md_owner metadata))) (\<lambda>_. do {
         ours \<leftarrow> HeldChanges js (s_group_id st);
         let view = roster_by_rules cr st (ours @ map (with_card (carried_cards changes)) changes) cards now;
         if \<not> ViewLists view identity then ret_err ''the roster it proves does not have us'' else ret_ok ()
       }))"

record change_received =
  rcv_held :: change_held
  rcv_applied :: group_view_applied

definition ReceiveChange ::
  "crypto \<Rightarrow> roster_json \<Rightarrow> group_change \<Rightarrow> card_lookup \<Rightarrow> time_ms \<Rightarrow> change_received store_op" where
  "ReceiveChange cr js change cards now =
     roe_then (HoldChange cr js change cards now False) (\<lambda>outcome.
       if outcome = Refused then ret_ok \<lparr>rcv_held = outcome, rcv_applied = nothing_applied\<rparr>
       else roe_then (ApplyView cr js (c_group_id change) cards now) (\<lambda>applied.
         ret_ok \<lparr>rcv_held = outcome, rcv_applied = applied\<rparr>))"

end
