(* ===== verification/RosterDrafts.thy ===== *)
theory RosterDrafts
  imports GroupSync
begin

section \<open>Changes and statements this device drafts\<close>

text \<open>
  Models the drafting half of \<open>GroupRosterSync.cpp\<close>: the changes a member makes (leave, remove, add
  by invite or by link, links made and revoked, rename), each refused when the roster this device
  holds does not let it; the questions the drafts ask of the current roster; and the owner's next
  statement, folded over the changes held (\<open>OwnerDraft\<close>).
\<close>

subsection \<open>The common part\<close>

definition AddsOf :: "crypto \<Rightarrow> group_change list \<Rightarrow> string \<Rightarrow> string list" where
  "AddsOf cr changes member =
     map (ChangeId cr) (filter (\<lambda>c. c_kind c = KAdd \<and> c_member c = member) changes)"

definition SignedBy :: "crypto \<Rightarrow> group_change list \<Rightarrow> string \<Rightarrow> string list" where
  "SignedBy cr changes signer = map (ChangeId cr) (filter (\<lambda>c. c_signer c = signer) changes)"

definition Bound :: "string list \<Rightarrow> string list" where
  "Bound ids = take kMaxNamedChanges (remdups_adj (sort ids))"

definition blank_change :: "group_change_kind \<Rightarrow> group_change" where
  "blank_change kind = \<lparr>c_group_id = [], c_base_epoch = 0, c_signer = [], c_signer_device = [], c_at = 0,
     c_kind = kind, c_member = [], c_invite_nonce = [], c_link_id = [], c_readmits = [], c_adds = [], c_keeps = [],
     c_title = [], c_title_version = 0, c_secret_hash = [], c_expires_at = 0, c_max_uses = 0,
     c_signer_card = None, c_signature = []\<rparr>"

definition DraftOn ::
  "roster_json \<Rightarrow> string \<Rightarrow> string \<Rightarrow> string \<Rightarrow> group_change_kind \<Rightarrow> time_ms \<Rightarrow> group_change store_op" where
  "DraftOn js g local device kind now =
     roe_then (MetadataOf g) (\<lambda>metadata.
       if md_sync_state metadata \<noteq> Active
       then ret_err (if md_sync_state metadata = Dissolved then kGroupDissolvedError
         else if md_sync_state metadata = Removed then kGroupRemovedError else kGroupCheckingError)
       else ret_ok ((blank_change kind)\<lparr>c_group_id := g,
         c_base_epoch := (case Held js metadata of None \<Rightarrow> md_roster_epoch metadata | Some st \<Rightarrow> s_roster_epoch st),
         c_signer := local, c_signer_device := device, c_at := now\<rparr>))"

subsection \<open>Questions to the current roster\<close>

definition CurrentView ::
  "crypto \<Rightarrow> roster_json \<Rightarrow> string \<Rightarrow> card_lookup \<Rightarrow> time_ms \<Rightarrow> roster_view option store_read" where
  "CurrentView cr js g cards now = do {
     metadata \<leftarrow> LoadMetadata g;
     case metadata of
       Inr (Some md) \<Rightarrow>
         (case Held js md of
            None \<Rightarrow> State_Monad.return None
          | Some st \<Rightarrow> do {
              changes \<leftarrow> HeldChanges js g;
              State_Monad.return (Some (roster_by_rules cr st changes cards now))
            })
     | _ \<Rightarrow> State_Monad.return None
   }"

definition RemovedEntry ::
  "crypto \<Rightarrow> roster_json \<Rightarrow> string \<Rightarrow> string \<Rightarrow> card_lookup \<Rightarrow> time_ms \<Rightarrow> removed_member option store_read" where
  "RemovedEntry cr js g member cards now = do {
     metadata \<leftarrow> LoadMetadata g;
     case metadata of
       Inr (Some md) \<Rightarrow>
         (case (case Held js md of None \<Rightarrow> None | Some st \<Rightarrow> List.find (\<lambda>r. rv_identity r = member) (s_removed st)) of
            Some r \<Rightarrow> State_Monad.return (Some r)
          | None \<Rightarrow> do {
              view \<leftarrow> CurrentView cr js g cards now;
              State_Monad.return (case view of
                None \<Rightarrow> None
              | Some w \<Rightarrow> if ViewLists w member then None else List.find (\<lambda>r. rv_identity r = member) (w_removed w))
            })
     | _ \<Rightarrow> State_Monad.return None
   }"

definition OwnRole :: "group_metadata \<Rightarrow> string \<Rightarrow> member_role option store_read" where
  "OwnRole metadata local =
     (if md_owner metadata = local then State_Monad.return (Some Owner)
      else do {
        self \<leftarrow> FindMember (md_group_id metadata) local;
        State_Monad.return (case self of Inr (Some me) \<Rightarrow> Some (rm_role me) | _ \<Rightarrow> None)
      })"

definition KnownLink :: "roster_view \<Rightarrow> string \<Rightarrow> invite_link option" where
  "KnownLink view link_id =
     (case LiveLink view link_id of
        Some live \<Rightarrow> Some live
      | None \<Rightarrow> map_option e_link (EndedLink view link_id))"

text \<open>A role that is there and may do the action.\<close>

definition role_allows :: "group_action \<Rightarrow> member_role option \<Rightarrow> group_preset \<Rightarrow> bool" where
  "role_allows act role preset = (case role of None \<Rightarrow> False | Some r \<Rightarrow> GroupAllows act r preset Member)"

subsection \<open>Leaving and removing\<close>

definition DraftLeave ::
  "crypto \<Rightarrow> roster_json \<Rightarrow> string \<Rightarrow> string \<Rightarrow> string \<Rightarrow> time_ms \<Rightarrow> group_change store_op" where
  "DraftLeave cr js g local device now =
     roe_then (DraftOn js g local device KLeave now) (\<lambda>change.
       roe_then (MetadataOf g) (\<lambda>metadata.
         if md_owner metadata = local then ret_err ''Owner must transfer ownership before leaving''
         else do {
           ours \<leftarrow> HeldChanges js g;
           ret_ok (change\<lparr>c_adds := Bound (AddsOf cr ours local), c_keeps := Bound (SignedBy cr ours local)\<rparr>)
         }))"

definition DraftRemove ::
  "crypto \<Rightarrow> roster_json \<Rightarrow> string \<Rightarrow> string \<Rightarrow> string \<Rightarrow> string \<Rightarrow> time_ms \<Rightarrow> group_change store_op" where
  "DraftRemove cr js g local device member now =
     roe_then (DraftOn js g local device KRemove now) (\<lambda>change.
       if member = [] \<or> member = local then ret_err ''Choose someone else to remove''
       else roe_then (MetadataOf g) (\<lambda>metadata. do {
         self \<leftarrow> FindMember g local;
         target \<leftarrow> FindMember g member;
         case (self, target) of
           (Inl e, _) \<Rightarrow> State_Monad.return (Inl e)
         | (_, Inl e) \<Rightarrow> State_Monad.return (Inl e)
         | (Inr (Some me), Inr (Some them)) \<Rightarrow>
             if \<not> GroupAllows Remove (rm_role me) (md_preset metadata) (rm_role them)
             then ret_err ''Only the owner removes admins; admins remove members''
             else do {
               ours \<leftarrow> HeldChanges js g;
               ret_ok (change\<lparr>c_member := member, c_adds := Bound (AddsOf cr ours member),
                 c_keeps := Bound (SignedBy cr ours member)\<rparr>)
             }
         | _ \<Rightarrow> ret_err ''Not a member of this group''
       }))"

subsection \<open>Adding\<close>

definition DraftAddOf ::
  "crypto \<Rightarrow> roster_json \<Rightarrow> string \<Rightarrow> string \<Rightarrow> string \<Rightarrow> string \<Rightarrow> string \<Rightarrow> string \<Rightarrow> card_lookup \<Rightarrow> time_ms
    \<Rightarrow> group_change store_op" where
  "DraftAddOf cr js g local device member nonce link_id cards now =
     roe_then (DraftOn js g local device KAdd now) (\<lambda>change.
       if member = [] \<or> member = local \<or> (nonce = []) = (link_id = [])
       then ret_err ''An add names someone else and the invite or link it answers''
       else roe_then (MetadataOf g) (\<lambda>metadata. do {
         role \<leftarrow> OwnRole metadata local;
         if \<not> role_allows Invite role (md_preset metadata) then ret_err kGroupInviteNotAllowedError
         else do {
           inside \<leftarrow> IsMember g member;
           if inside = Inr True then ret_err kGroupAlreadyMemberError
           else do {
             removed \<leftarrow> RemovedEntry cr js g member cards now;
             if removed \<noteq> None \<and> (link_id \<noteq> [] \<or> \<not> role_allows Readmit role (md_preset metadata))
             then ret_err kGroupInviteRemovedError
             else ret_ok (change\<lparr>c_readmits := (case removed of None \<Rightarrow> [] | Some r \<Rightarrow> rv_removal r),
               c_member := member, c_invite_nonce := nonce, c_link_id := link_id\<rparr>)
           }
         }
       }))"

definition DraftAdd ::
  "crypto \<Rightarrow> roster_json \<Rightarrow> string \<Rightarrow> string \<Rightarrow> string \<Rightarrow> string \<Rightarrow> string \<Rightarrow> card_lookup \<Rightarrow> time_ms
    \<Rightarrow> group_change store_op" where
  "DraftAdd cr js g local device member nonce cards now =
     (if nonce = [] then ret_err ''An add names the invite it answers''
      else DraftAddOf cr js g local device member nonce [] cards now)"

definition DraftLinkJoin ::
  "crypto \<Rightarrow> roster_json \<Rightarrow> string \<Rightarrow> string \<Rightarrow> string \<Rightarrow> string \<Rightarrow> string \<Rightarrow> card_lookup \<Rightarrow> time_ms
    \<Rightarrow> group_change store_op" where
  "DraftLinkJoin cr js g local device member link_id cards now =
     (if link_id = [] then ret_err ''A join by link names its link''
      else DraftAddOf cr js g local device member [] link_id cards now)"

subsection \<open>Links and titles\<close>

definition DraftLinkAdd ::
  "crypto \<Rightarrow> roster_json \<Rightarrow> string \<Rightarrow> string \<Rightarrow> string \<Rightarrow> string \<Rightarrow> string \<Rightarrow> time_ms \<Rightarrow> u64 \<Rightarrow> card_lookup \<Rightarrow> time_ms
    \<Rightarrow> group_change store_op" where
  "DraftLinkAdd cr js g local device link_id secret_hash expires_at max_uses cards now =
     roe_then (DraftOn js g local device KLinkAdd now) (\<lambda>change.
       if link_id = [] \<or> secret_hash = [] \<or> expires_at \<le> now
       then ret_err ''A link has its id, its secret's hash and an expiry to come''
       else roe_then (MetadataOf g) (\<lambda>metadata. do {
         role \<leftarrow> OwnRole metadata local;
         if \<not> role_allows MakeInviteLink role (md_preset metadata) then ret_err kGroupLinkNotAllowedError
         else do {
           view \<leftarrow> CurrentView cr js g cards now;
           if (case view of None \<Rightarrow> False | Some w \<Rightarrow> KnownLink w link_id \<noteq> None)
           then ret_err ''That link id is taken''
           else ret_ok (change\<lparr>c_link_id := link_id, c_secret_hash := secret_hash, c_expires_at := expires_at,
             c_max_uses := max_uses\<rparr>)
         }
       }))"

definition DraftLinkRevoke ::
  "crypto \<Rightarrow> roster_json \<Rightarrow> string \<Rightarrow> string \<Rightarrow> string \<Rightarrow> string \<Rightarrow> card_lookup \<Rightarrow> time_ms \<Rightarrow> group_change store_op" where
  "DraftLinkRevoke cr js g local device link_id cards now =
     roe_then (DraftOn js g local device KLinkRevoke now) (\<lambda>change.
       roe_then (MetadataOf g) (\<lambda>metadata. do {
         view \<leftarrow> CurrentView cr js g cards now;
         case (case view of None \<Rightarrow> None | Some w \<Rightarrow> LiveLink w link_id) of
           None \<Rightarrow> ret_err kGroupLinkGoneError
         | Some link \<Rightarrow> do {
             role \<leftarrow> OwnRole metadata local;
             if role = None
                 \<or> (l_maker link \<noteq> local \<and> \<not> role_allows RevokeInviteLink role (md_preset metadata))
             then ret_err kGroupLinkRevokeNotAllowedError
             else ret_ok (change\<lparr>c_link_id := link_id\<rparr>)
           }
       }))"

definition DraftRename ::
  "crypto \<Rightarrow> roster_json \<Rightarrow> string \<Rightarrow> string \<Rightarrow> string \<Rightarrow> string \<Rightarrow> card_lookup \<Rightarrow> time_ms \<Rightarrow> group_change store_op" where
  "DraftRename cr js g local device title cards now =
     roe_then (DraftOn js g local device KRename now) (\<lambda>change.
       if title = [] \<or> length title > kMaxTitleBytes then ret_err ''Group title required''
       else roe_then (MetadataOf g) (\<lambda>metadata. do {
         role \<leftarrow> OwnRole metadata local;
         if \<not> role_allows Rename role (md_preset metadata) then ret_err kGroupRenameNotAllowedError
         else do {
           view \<leftarrow> CurrentView cr js g cards now;
           ret_ok (change\<lparr>c_title := title, c_title_version := (case view of
               None \<Rightarrow> md_title_version metadata
             | Some w \<Rightarrow> max (md_title_version metadata) (w_title_version w)) + 1\<rparr>)
         }
       }))"

subsection \<open>Who one added, who one removed\<close>

definition RemovableAddedBy :: "string \<Rightarrow> string \<Rightarrow> string \<Rightarrow> string list store_read" where
  "RemovableAddedBy g local account = do {
     metadata \<leftarrow> LoadMetadata g;
     members \<leftarrow> ListMembers g;
     case (metadata, members) of
       (Inr (Some md), Inr ms) \<Rightarrow>
         if account = [] then State_Monad.return []
         else do {
           role \<leftarrow> OwnRole md local;
           State_Monad.return (case role of
             None \<Rightarrow> []
           | Some r \<Rightarrow> sort (map rm_identity (filter (\<lambda>m. rm_added_by m = account \<and> rm_identity m \<noteq> account
               \<and> rm_identity m \<noteq> local
               \<and> GroupAllows Remove r (md_preset md) (if rm_identity m = md_owner md then Owner else rm_role m)) ms)))
         }
     | _ \<Rightarrow> State_Monad.return []
   }"

definition RemovedBy ::
  "crypto \<Rightarrow> roster_json \<Rightarrow> string \<Rightarrow> string \<Rightarrow> card_lookup \<Rightarrow> time_ms \<Rightarrow> string list store_read" where
  "RemovedBy cr js g account cards now = do {
     view \<leftarrow> CurrentView cr js g cards now;
     State_Monad.return (case view of
       None \<Rightarrow> []
     | Some w \<Rightarrow> if account = [] then []
         else map rv_identity (filter (\<lambda>r. rv_removed_by r = account \<and> \<not> ViewLists w (rv_identity r)) (w_removed w)))
   }"

subsection \<open>The owner's next statement\<close>

definition FoldBase ::
  "crypto \<Rightarrow> roster_json \<Rightarrow> group_metadata \<Rightarrow> statement_member list \<Rightarrow> card_lookup \<Rightarrow> time_ms
    \<Rightarrow> (statement \<times> roster_view) store_read" where
  "FoldBase cr js metadata rows cards now = do {
     let base = (case Held js metadata of
         Some st \<Rightarrow> st
       | None \<Rightarrow> empty_statement\<lparr>s_group_id := md_group_id metadata, s_members := rows,
           s_preset := md_preset metadata, s_owner := md_owner metadata\<rparr>);
     changes \<leftarrow> HeldChanges js (md_group_id metadata);
     State_Monad.return (base, roster_by_rules cr base changes cards now)
   }"

definition owner_draft ::
  "statement \<Rightarrow> roster_view \<Rightarrow> group_metadata \<Rightarrow> statement_member list \<Rightarrow> owner_transfer list \<Rightarrow> string \<Rightarrow> string
    \<Rightarrow> statement" where
  "owner_draft base view metadata rows chain owner owner_key =
     (let draft = empty_statement\<lparr>s_group_id := md_group_id metadata,
            s_roster_epoch := max (md_roster_epoch metadata) (s_roster_epoch base), s_members := rows,
            s_owner_chain := chain, s_preset := md_preset metadata, s_title := md_title metadata,
            s_title_version := md_title_version metadata\<rparr>;
          draft = draft\<lparr>s_removed := filter (\<lambda>r. \<not> StatementLists draft (rv_identity r)) (w_removed view),
            s_links := filter (\<lambda>l. StatementLists draft (l_maker l)) (w_links view),
            s_owner := owner, s_owner_key := owner_key\<rparr>;
          draft = FoldInto base view draft
      in if s_owner_signature base \<noteq> [] \<and> s_roster_epoch draft = s_roster_epoch base
            \<and> StatementSignBytes draft \<noteq> StatementSignBytes base
         then FoldInto base view (draft\<lparr>s_roster_epoch := s_roster_epoch draft + 1\<rparr>)
         else draft)"

definition OwnerDraft ::
  "crypto \<Rightarrow> roster_json \<Rightarrow> group_metadata \<Rightarrow> statement_member list \<Rightarrow> owner_transfer list \<Rightarrow> string \<Rightarrow> string
    \<Rightarrow> card_lookup \<Rightarrow> time_ms \<Rightarrow> statement store_read" where
  "OwnerDraft cr js metadata rows chain owner owner_key cards now = do {
     (base, view) \<leftarrow> FoldBase cr js metadata rows cards now;
     State_Monad.return (owner_draft base view metadata rows chain owner owner_key)
   }"

definition roster_rows :: "group_roster_member list \<Rightarrow> statement_member list" where
  "roster_rows = map (\<lambda>m. \<lparr>sm_identity = rm_identity m, sm_role = rm_role m, sm_joined_at = rm_joined_at m,
     sm_added_by = rm_added_by m\<rparr>)"

definition HoldsFoldable :: "crypto \<Rightarrow> roster_json \<Rightarrow> string \<Rightarrow> card_lookup \<Rightarrow> time_ms \<Rightarrow> bool store_read" where
  "HoldsFoldable cr js g cards now = do {
     metadata \<leftarrow> LoadMetadata g;
     case metadata of
       Inr (Some md) \<Rightarrow>
         if md_sync_state md \<noteq> Active then State_Monad.return False
         else do {
           members \<leftarrow> ListMembers g;
           (base, view) \<leftarrow> FoldBase cr js md (case members of Inr ms \<Rightarrow> roster_rows ms | Inl _ \<Rightarrow> []) cards now;
           State_Monad.return (list_ex FoldsIn (w_verdicts view))
         }
     | _ \<Rightarrow> State_Monad.return False
   }"

text \<open>\<open>GroupsWithChangesBy\<close> loads the changes of one group after another.\<close>

fun groups_signed_by :: "roster_json \<Rightarrow> string \<Rightarrow> string list \<Rightarrow> string list store_read" where
  "groups_signed_by js signer [] = State_Monad.return []"
| "groups_signed_by js signer (g # gs) = do {
     ours \<leftarrow> HeldChanges js g;
     rest \<leftarrow> groups_signed_by js signer gs;
     State_Monad.return (if list_ex (\<lambda>c. c_signer c = signer) ours then g # rest else rest)
   }"

definition GroupsWithChangesBy :: "roster_json \<Rightarrow> string \<Rightarrow> string list store_read" where
  "GroupsWithChangesBy js signer = do {
     ids \<leftarrow> ListGroupsWithChanges;
     case ids of Inl _ \<Rightarrow> State_Monad.return [] | Inr gs \<Rightarrow> groups_signed_by js signer gs
   }"

end
