(* ===== verification/MemberCheck.thy ===== *)
theory MemberCheck
  imports RosterDrafts
begin

section \<open>The member check and catching up\<close>

text \<open>
  Models the rest of \<open>GroupRosterSync.cpp\<close>: what a group copy says of its sender's roster
  (\<open>CopyState\<close>, \<open>NeedsCatchUp\<close>), how often one asks (\<open>CatchUpLimiter\<close>), the requests
  (\<open>BeginCatchUp\<close>, \<open>BeginCheck\<close>), the answers with the changes the asker lacks (\<open>AddChangesTo\<close>,
  \<open>Answer\<close>, \<open>ChangesForNewcomer\<close>), and what a statement or a reply does to the group
  (\<open>KeepStatement\<close>, \<open>KeepAndCatchUp\<close>, \<open>ApplyReply\<close>). The messages' records are those of
  \<open>GroupRosterSyncCodec.h\<close>.
\<close>

subsection \<open>Copies and their state\<close>

record group_copy_state =
  cs_statement_epoch :: u64
  cs_changes_hash :: string

record roster_request =
  rq_group_id :: string
  rq_request_id :: string
  rq_roster_epoch :: u64
  rq_statement_epoch :: u64
  rq_changes_hash :: string
  rq_after :: string

record roster_reply =
  rp_group_id :: string
  rp_request_id :: string
  rp_statement :: "statement option"
  rp_removed :: bool
  rp_changes :: "group_change list"
  rp_more :: bool

record carried_changes =
  cd_changes :: "group_change list"
  cd_more :: bool

definition CopyState :: "crypto \<Rightarrow> roster_json \<Rightarrow> string \<Rightarrow> group_copy_state store_read" where
  "CopyState cr js g = do {
     metadata \<leftarrow> LoadMetadata g;
     stored \<leftarrow> ListGroupChanges g;
     State_Monad.return \<lparr>cs_statement_epoch = (case metadata of
         Inr (Some md) \<Rightarrow> (case Held js md of None \<Rightarrow> 0 | Some st \<Rightarrow> s_roster_epoch st)
       | _ \<Rightarrow> 0),
       cs_changes_hash = ChangesHash cr (case stored of Inl _ \<Rightarrow> [] | Inr rows \<Rightarrow> map sc_change_id rows)\<rparr>
   }"

definition NeedsCatchUp :: "group_copy_state \<Rightarrow> group_copy_state \<Rightarrow> bool" where
  "NeedsCatchUp ours theirs \<longleftrightarrow>
     (if cs_statement_epoch theirs \<noteq> cs_statement_epoch ours
      then cs_statement_epoch theirs > cs_statement_epoch ours
      else cs_changes_hash theirs \<noteq> [] \<and> cs_changes_hash theirs \<noteq> cs_changes_hash ours)"

text \<open>\<open>CatchUpLimiter\<close>: its map \<open>last_\<close>, and the answer with the map after it.\<close>

definition Allow :: "string \<Rightarrow> time_ms \<Rightarrow> (string \<times> time_ms) list \<Rightarrow> bool \<times> (string \<times> time_ms) list" where
  "Allow g now last_asked =
     (case map_of last_asked g of
        None \<Rightarrow> (True, om_put g now last_asked)
      | Some slot \<Rightarrow>
          if now - slot < kCatchUpGapMs then (False, last_asked) else (True, om_put g now last_asked))"

definition BeginCatchUp ::
  "crypto \<Rightarrow> roster_json \<Rightarrow> string \<Rightarrow> string \<Rightarrow> time_ms \<Rightarrow> string \<Rightarrow> roster_request option store_op" where
  "BeginCatchUp cr js uuid g now after_id =
     roe_then (MetadataOf g) (\<lambda>metadata.
       if md_sync_state metadata \<noteq> Active then ret_ok None
       else do {
         state \<leftarrow> CopyState cr js g;
         roe_then (UpsertMetadata (metadata\<lparr>md_sync_request_id := uuid, md_sync_requested_at := now\<rparr>)) (\<lambda>_.
           ret_ok (Some \<lparr>rq_group_id = g, rq_request_id = uuid, rq_roster_epoch = md_roster_epoch metadata,
             rq_statement_epoch = cs_statement_epoch state, rq_changes_hash = cs_changes_hash state,
             rq_after = after_id\<rparr>))
       })"

subsection \<open>The changes a message carries\<close>

text \<open>
  The loop of \<open>AddChangesTo\<close> and \<open>ChangesForNewcomer\<close> over the sorted rows: rows up to \<open>after\<close> and
  unreadable ones are skipped, a signer's card rides once, and the first change that does not fit
  ends the message with \<open>more\<close>. \<open>carded\<close>, \<open>bytes\<close> and \<open>packed\<close> are the loop's variables.
\<close>

definition ride_once :: "string list \<Rightarrow> group_change \<Rightarrow> group_change \<times> string list" where
  "ride_once carded c =
     (if c_signer_card c = None then (c, carded)
      else if c_signer c \<in> set carded then (c\<lparr>c_signer_card := None\<rparr>, carded)
      else (c, os_insert (c_signer c) carded))"

definition over_budget :: "nat \<Rightarrow> group_change list \<Rightarrow> nat \<Rightarrow> bool" where
  "over_budget n packed bytes \<longleftrightarrow> length packed \<ge> kMaxReplyChanges
     \<or> (packed \<noteq> [] \<and> bytes + n > kReplyChangesBudgetBytes)"

fun pack_changes ::
  "roster_json \<Rightarrow> string \<Rightarrow> stored_change list \<Rightarrow> string list \<Rightarrow> nat \<Rightarrow> group_change list
    \<Rightarrow> group_change list \<times> bool" where
  "pack_changes js after_id [] carded bytes packed = (packed, False)"
| "pack_changes js after_id (row # rows) carded bytes packed =
     (if after_id \<noteq> [] \<and> sc_change_id row \<le> after_id then pack_changes js after_id rows carded bytes packed
      else case ParseChange js row of
        None \<Rightarrow> pack_changes js after_id rows carded bytes packed
      | Some c \<Rightarrow>
          let (change, carded) = ride_once carded c; n = length (js_change js change)
          in if over_budget n packed bytes then (packed, True)
             else pack_changes js after_id rows carded (bytes + n) (packed @ [change]))"

definition AddChangesTo :: "crypto \<Rightarrow> roster_json \<Rightarrow> roster_request \<Rightarrow> roster_reply \<Rightarrow> roster_reply store_read" where
  "AddChangesTo cr js request reply = do {
     state \<leftarrow> CopyState cr js (rq_group_id request);
     if cs_changes_hash state = rq_changes_hash request then State_Monad.return reply
     else do {
       stored \<leftarrow> ListGroupChanges (rq_group_id request);
       State_Monad.return (case stored of
         Inl _ \<Rightarrow> reply
       | Inr rows \<Rightarrow>
           (case pack_changes js (rq_after request) (sort_key sc_change_id rows) [] 0 (rp_changes reply) of
              (changes, full) \<Rightarrow> reply\<lparr>rp_changes := changes, rp_more := full \<or> rp_more reply\<rparr>))
     }
   }"

definition ChangesForNewcomer :: "roster_json \<Rightarrow> string \<Rightarrow> string \<Rightarrow> carried_changes store_read" where
  "ChangesForNewcomer js g first = do {
     stored \<leftarrow> ListGroupChanges g;
     State_Monad.return (case stored of
       Inl _ \<Rightarrow> \<lparr>cd_changes = [], cd_more = False\<rparr>
     | Inr rows \<Rightarrow>
         (case pack_changes js [] (sort_key (\<lambda>r. (sc_change_id r \<noteq> first, sc_change_id r)) rows) [] 0 [] of
            (changes, full) \<Rightarrow> \<lparr>cd_changes = changes, cd_more = full\<rparr>))
   }"

subsection \<open>Statements\<close>

definition KeepStatement :: "crypto \<Rightarrow> roster_json \<Rightarrow> statement \<Rightarrow> bool store_op" where
  "KeepStatement cr js st =
     (if s_dissolved st then ret_err ''roster statement: a dissolve is not a roster''
      else roe_then (MetadataOf (s_group_id st)) (\<lambda>metadata.
        if md_sync_state metadata = Dissolved then ret_ok False
        else roe_then (State_Monad.return (Verify cr st (md_owner metadata))) (\<lambda>_.
          if \<not> CandidateWins (Held js metadata) st then ret_ok False
          else roe_then (UpsertMetadata (metadata\<lparr>md_statement_json := js_statement js st,
              md_preset := s_preset st\<rparr>)) (\<lambda>_. ret_ok True))))"

text \<open>The result with what the recompute did, when there was one.\<close>

definition KeepAndCatchUp ::
  "crypto \<Rightarrow> roster_json \<Rightarrow> statement \<Rightarrow> card_lookup \<Rightarrow> time_ms \<Rightarrow> (bool \<times> group_view_applied option) store_op" where
  "KeepAndCatchUp cr js st cards now =
     roe_then (KeepStatement cr js st) (\<lambda>kept.
       if \<not> kept then ret_ok (False, None)
       else roe_then (ApplyView cr js (s_group_id st) cards now) (\<lambda>view. ret_ok (True, Some view)))"

subsection \<open>Asking and answering\<close>

record roster_check =
  ck_request :: roster_request
  ck_ask :: "string list"

definition BeginCheck :: "crypto \<Rightarrow> roster_json \<Rightarrow> string \<Rightarrow> string \<Rightarrow> string \<Rightarrow> time_ms \<Rightarrow> roster_check store_op" where
  "BeginCheck cr js uuid g local now =
     roe_then (MetadataOf g) (\<lambda>metadata.
       roe_then (ListMembers g) (\<lambda>members. do {
         state \<leftarrow> CopyState cr js g;
         let request = \<lparr>rq_group_id = g, rq_request_id = uuid, rq_roster_epoch = md_roster_epoch metadata,
               rq_statement_epoch = cs_statement_epoch state, rq_changes_hash = cs_changes_hash state, rq_after = []\<rparr>;
         let to_ask = os_erase local (os_of ((if md_owner metadata = [] then [] else [md_owner metadata])
               @ map rm_identity members));
         let checking = (if md_sync_state metadata \<noteq> Removed then metadata\<lparr>md_sync_state := Checking\<rparr> else metadata);
         if md_sync_state metadata = Dissolved then ret_ok \<lparr>ck_request = request, ck_ask = []\<rparr>
         else roe_then (UpsertMetadata (checking\<lparr>md_sync_request_id := uuid, md_sync_requested_at := now\<rparr>)) (\<lambda>_.
           ret_ok \<lparr>ck_request = request, ck_ask = to_ask\<rparr>)
       }))"

definition Answer :: "crypto \<Rightarrow> roster_json \<Rightarrow> roster_request \<Rightarrow> string \<Rightarrow> roster_reply option store_op" where
  "Answer cr js request who_asks =
     roe_then (LoadMetadata (rq_group_id request)) (\<lambda>metadata.
       case metadata of
         None \<Rightarrow> ret_ok None
       | Some md \<Rightarrow>
           let reply = \<lparr>rp_group_id = rq_group_id request, rp_request_id = rq_request_id request,
             rp_statement = Held js md, rp_removed = False, rp_changes = [], rp_more = False\<rparr>
           in if md_sync_state md \<noteq> Active then ret_ok (Some reply)
              else roe_then (IsMember (rq_group_id request) who_asks) (\<lambda>member. do {
                full \<leftarrow> AddChangesTo cr js request (reply\<lparr>rp_removed := \<not> member\<rparr>);
                ret_ok (Some full)
              }))"

subsection \<open>Replies\<close>

definition TakeReply ::
  "crypto \<Rightarrow> roster_json \<Rightarrow> roster_reply \<Rightarrow> statement \<Rightarrow> string \<Rightarrow> card_lookup \<Rightarrow> time_ms
    \<Rightarrow> (bool \<times> group_view_applied) store_op" where
  "TakeReply cr js reply st local cards now =
     roe_then (KeepStatement cr js st) (\<lambda>_.
       roe_then (HoldCarried cr js (rp_changes reply) cards now False) (\<lambda>_.
         roe_then (ApplyView cr js (rp_group_id reply) cards now) (\<lambda>applied.
           case va_view applied of
             Some view \<Rightarrow> ret_ok (ViewLists view local, applied)
           | None \<Rightarrow> do {
               metadata \<leftarrow> MetadataOf (rp_group_id reply);
               ret_ok (case metadata of
                   Inr md \<Rightarrow> (case Held js md of None \<Rightarrow> True | Some h \<Rightarrow> StatementLists h local)
                 | Inl _ \<Rightarrow> True, applied)
             })))"

datatype reply_outcome = Ignored | OutActive | OutRemoved | OutDissolved

text \<open>What \<open>ApplyReply\<close> returns: its outcome, what a dissolve ended, what the recompute did.\<close>

record reply_applied =
  ra_outcome :: reply_outcome
  ra_dissolved :: "group_dissolved_applied option"
  ra_applied :: "group_view_applied option"

definition outcome_only :: "reply_outcome \<Rightarrow> reply_applied" where
  "outcome_only outcome = \<lparr>ra_outcome = outcome, ra_dissolved = None, ra_applied = None\<rparr>"

definition settle_state :: "string \<Rightarrow> group_sync_state \<Rightarrow> reply_outcome store_op" where
  "settle_state g state =
     roe_then (MetadataOf g) (\<lambda>now_md.
       roe_then (UpsertMetadata (now_md\<lparr>md_sync_state := state\<rparr>)) (\<lambda>_.
         ret_ok (if state = Removed then OutRemoved else OutActive)))"

definition ApplyReply ::
  "crypto \<Rightarrow> roster_json \<Rightarrow> roster_reply \<Rightarrow> string \<Rightarrow> string \<Rightarrow> card_lookup \<Rightarrow> time_ms \<Rightarrow> reply_applied store_op" where
  "ApplyReply cr js reply local replier cards now =
     roe_then (MetadataOf (rp_group_id reply)) (\<lambda>metadata.
       if md_sync_state metadata = Dissolved \<or> md_sync_request_id metadata = []
           \<or> rp_request_id reply \<noteq> md_sync_request_id metadata
       then ret_ok (outcome_only Ignored)
       else case rp_statement reply of
         None \<Rightarrow>
           if rp_removed reply \<and> replier = md_owner metadata
           then roe_then (settle_state (rp_group_id reply) Removed) (\<lambda>out. ret_ok (outcome_only out))
           else ret_ok (outcome_only Ignored)
       | Some st \<Rightarrow>
           if s_dissolved st then do {
             ended \<leftarrow> ApplyDissolvedStatement cr js st local;
             ret_ok (case ended of
               Inl _ \<Rightarrow> outcome_only Ignored
             | Inr d \<Rightarrow> if \<not> da_applied d then outcome_only Ignored
                 else (outcome_only OutDissolved)\<lparr>ra_dissolved := Some d\<rparr>)
           }
           else case Verify cr st (md_owner metadata) of
             Inl _ \<Rightarrow> ret_ok (outcome_only Ignored)
           | Inr _ \<Rightarrow>
               roe_then (TakeReply cr js reply st local cards now) (\<lambda>(listed, applied).
                 roe_then (settle_state (rp_group_id reply) (if listed then Active else Removed)) (\<lambda>out.
                   ret_ok ((outcome_only out)\<lparr>ra_applied := Some applied\<rparr>))))"

definition StillAwaiting :: "group_metadata \<Rightarrow> string \<Rightarrow> bool" where
  "StillAwaiting metadata request_id \<longleftrightarrow> md_sync_state metadata = Checking \<and> request_id \<noteq> []
     \<and> md_sync_request_id metadata = request_id"

definition MaySend :: "group_metadata \<Rightarrow> bool" where
  "MaySend metadata \<longleftrightarrow> md_sync_state metadata = Active"

end
