(* ===== verification/SyncLaws.thy ===== *)
theory SyncLaws
  imports MembershipClaims MemberCheck
begin

section \<open>Laws for the roster sync\<close>

text \<open>
  Two ways to run the operations of the sync. Under any failures, the rules of \<open>after\<close> for its reads
  and writes extend those of \<open>StoreLaws\<close>. With no failure to come (\<open>db_faults s = []\<close>) every call has
  one result, given by the equations \<open>calm_runs\<close>, which compute the state an operation leaves.
  Besides: what loops over the store's tables leave, as a lookup.
\<close>

named_theorems calm_runs "what a store operation does when nothing fails"

subsection \<open>Calls that do not fail\<close>

lemma clean_calm [simp]: "db_faults s = [] \<Longrightarrow> clean s = s"
  by (cases s) simp

lemma calm_writes [calm_runs]:
  assumes "db_faults s = []"
  shows "run_state (UpsertGroupChange c) s = (Inr (), s\<lparr>db_changes := om_put (change_key c) c (db_changes s)\<rparr>)"
    and "run_state (DeleteGroupChanges g ids) s =
      (Inr (), s\<lparr>db_changes := fold (\<lambda>i. om_erase (g, i)) ids (db_changes s)\<rparr>)"
    and "run_state (UpsertMember g m) s = (Inr (), NotifyChanged \<lparr>rc_group_id = g, rc_member_gone = [], rc_ended = False\<rparr>
      (s\<lparr>db_rosters := om_put (g, rm_identity m) m (db_rosters s)\<rparr>))"
    and "run_state (UpsertMetadata md) s =
      (Inr (), NotifyChanged \<lparr>rc_group_id = md_group_id md, rc_member_gone = [], rc_ended = False\<rparr>
        (s\<lparr>db_metadata := om_put (md_group_id md) md (db_metadata s)\<rparr>))"
    and "run_state (RemoveMember g i) s = (Inr (), NotifyChanged \<lparr>rc_group_id = g,
        rc_member_gone = (if map_of (db_rosters s) (g, i) \<noteq> None then i else []), rc_ended = False\<rparr>
      (s\<lparr>db_rosters := om_erase (g, i) (db_rosters s)\<rparr>))"
  using assms
  by (simp_all add: UpsertGroupChange_def DeleteGroupChanges_def store_calls run_rules Let_def)

text \<open>The metadata as it is loaded: with its group and the session's epoch.\<close>

definition loaded :: "roster_store \<Rightarrow> string \<Rightarrow> group_metadata \<Rightarrow> group_metadata" where
  "loaded s g md = md\<lparr>md_group_id := g,
     md_session_epoch := (case map_of (db_targets s) g of None \<Rightarrow> 1 | Some t \<Rightarrow> gt_session_epoch t)\<rparr>"

lemma loaded_same [simp]:
  "md_group_id (loaded s g md) = g" "md_owner (loaded s g md) = md_owner md" "md_title (loaded s g md) = md_title md"
  "md_roster_epoch (loaded s g md) = md_roster_epoch md" "md_preset (loaded s g md) = md_preset md"
  "md_title_version (loaded s g md) = md_title_version md" "md_statement_json (loaded s g md) = md_statement_json md"
  "md_sync_state (loaded s g md) = md_sync_state md" "md_sync_request_id (loaded s g md) = md_sync_request_id md"
  "Held js (loaded s g md) = Held js md"
  by (simp_all add: loaded_def Held_def)

lemma calm_LoadMetadata [calm_runs]:
  "db_faults s = [] \<Longrightarrow> run_state (LoadMetadata g) s = (Inr (map_option (loaded s g) (map_of (db_metadata s) g)), s)"
  by (auto simp: LoadMetadata_def GetGroupSessionEpoch_def run_rules loaded_def split: option.splits list.splits)

lemma calm_reads [calm_runs]:
  assumes "db_faults s = []"
  shows "run_state (ListGroupChanges g) s = (Inr (rows_of g (db_changes s)), s)"
    and "run_state (ListMembers g) s = (Inr (rows_of g (db_rosters s)), s)"
    and "run_state (FindMember g i) s = (Inr (List.find (\<lambda>m. rm_identity m = i) (rows_of g (db_rosters s))), s)"
    and "run_state (MetadataOf g) s = (case map_of (db_metadata s) g of
        None \<Rightarrow> Inl (Error (''Group metadata not found: '' @ g)) | Some md \<Rightarrow> Inr (loaded s g md), s)"
  using assms
  by (auto simp: ListGroupChanges_def ListMembers_def FindMember_def MetadataOf_def run_rules calm_LoadMetadata
      split: option.splits)

lemma calm_HeldChanges [calm_runs]:
  "db_faults s = [] \<Longrightarrow>
    run_state (HeldChanges js g) s = (List.map_filter (ParseChange js) (rows_of g (db_changes s)), s)"
  by (simp add: HeldChanges_def run_rules calm_reads)

subsection \<open>What reads can return\<close>

lemma after_MetadataOf [after_intros]:
  assumes "\<And>e. Q (Inl e) (clean s)"
    and "\<And>md epoch. map_of (db_metadata s) g = Some md \<Longrightarrow>
      Q (Inr (md\<lparr>md_group_id := g, md_session_epoch := epoch\<rparr>)) (clean s)"
  shows "after (MetadataOf g) Q s"
  unfolding MetadataOf_def by (auto intro!: after_intros assms)

lemma after_ListGroupChanges [after_intros]:
  assumes "\<And>e. Q (Inl e) (clean s)" and "\<And>n. Q (Inr (take n (rows_of g (db_changes s)))) (clean s)"
  shows "after (ListGroupChanges g) Q s"
proof -
  have "Q (Inr (rows_of g (db_changes s))) (clean s)"
    using assms(2) [of "length (rows_of g (db_changes s))"] by simp
  then show ?thesis unfolding ListGroupChanges_def by (auto intro!: after_intros assms)
qed

lemma after_HeldChanges:
  "(\<And>rows. set rows \<subseteq> set (rows_of g (db_changes s)) \<Longrightarrow> Q (List.map_filter (ParseChange js) rows) (clean s)) \<Longrightarrow>
    after (HeldChanges js g) Q s"
  unfolding HeldChanges_def
proof (rule after_bind, rule after_ListGroupChanges, goal_cases)
  case (1 e)
  then show ?case using 1(1) [of "[]"] by (auto intro!: after_return simp: List.map_filter_simps)
next
  case (2 n)
  then show ?case by (auto intro!: after_return dest: in_set_takeD)
qed

text \<open>Case analysis inside an operation.\<close>

lemma after_list:
  "(xs = [] \<Longrightarrow> after m Q s) \<Longrightarrow> (\<And>y ys. xs = y # ys \<Longrightarrow> after (f y ys) Q s) \<Longrightarrow>
    after (case xs of [] \<Rightarrow> m | y # ys \<Rightarrow> f y ys) Q s"
  by (cases xs) simp_all

lemma after_sum:
  "(\<And>e. r = Inl e \<Longrightarrow> after (m e) Q s) \<Longrightarrow> (\<And>x. r = Inr x \<Longrightarrow> after (f x) Q s) \<Longrightarrow>
    after (case r of Inl e \<Rightarrow> m e | Inr x \<Rightarrow> f x) Q s"
  by (cases r) simp_all

lemma after_pair: "(\<And>x y. p = (x, y) \<Longrightarrow> after (f x y) Q s) \<Longrightarrow> after (case p of (x, y) \<Rightarrow> f x y) Q s"
  by (cases p) simp

subsection \<open>Loops over a table\<close>

lemma map_of_fold_put:
  assumes "om_ok t"
  shows "map_of (fold (\<lambda>x. om_put (k x) (v x)) xs t) key =
    (case filter (\<lambda>x. k x = key) xs of [] \<Rightarrow> map_of t key | ys \<Rightarrow> Some (v (last ys)))"
  using om.find_fold_put [OF assms, of k v xs key] by simp

lemma map_of_fold_erase:
  "om_ok t \<Longrightarrow> map_of (fold (\<lambda>x. om_erase (k x)) xs t) key = (if key \<in> k ` set xs then None else map_of t key)"
  by (induction xs arbitrary: t) (auto simp: map_of_om_erase)

lemma om_ok_fold_put [simp]: "om_ok t \<Longrightarrow> om_ok (fold (\<lambda>x. om_put (k x) (v x)) xs t)"
  by (induction xs arbitrary: t) auto

lemma om_ok_fold_erase [simp]: "om_ok t \<Longrightarrow> om_ok (fold (\<lambda>x. om_erase (k x)) xs t)"
  by (induction xs arbitrary: t) auto

text \<open>One row per key, when the keys of the rows are distinct.\<close>

lemma filter_one:
  "distinct (map k xs) \<Longrightarrow> x \<in> set xs \<Longrightarrow> filter (\<lambda>y. k y = k x) xs = [x]"
proof (induction xs)
  case (Cons y ys)
  have none: "filter (\<lambda>z. k z = k y) ys = []" using Cons.prems(1) by (auto simp: filter_empty_conv image_iff)
  show ?case
  proof (cases "x = y")
    case True
    with none show ?thesis by simp
  next
    case False
    with Cons.prems have "k y \<noteq> k x" "x \<in> set ys" by auto
    with Cons show ?thesis by simp
  qed
qed simp

lemma map_of_fold_put_distinct:
  assumes "om_ok t" "distinct (map k xs)"
  shows "map_of (fold (\<lambda>x. om_put (k x) (v x)) xs t) key =
    (case List.find (\<lambda>x. k x = key) xs of None \<Rightarrow> map_of t key | Some x \<Rightarrow> Some (v x))"
proof (cases "List.find (\<lambda>x. k x = key) xs")
  case None
  then have "filter (\<lambda>x. k x = key) xs = []" by (auto simp: find_None_iff filter_empty_conv)
  with None show ?thesis by (simp add: map_of_fold_put assms)
next
  case (Some x)
  then have "x \<in> set xs" "k x = key" by (auto simp: find_Some_iff)
  then have "filter (\<lambda>y. k y = key) xs = [x]" using filter_one [OF assms(2)] by blast
  with Some show ?thesis by (simp add: map_of_fold_put assms)
qed

text \<open>The rows of a group are what the table holds under it.\<close>

lemma in_rows_of: "om_ok t \<Longrightarrow> r \<in> set (rows_of g t) \<longleftrightarrow> (\<exists>k. map_of t (g, k) = Some r)"
proof
  assume ok: "om_ok t" and "r \<in> set (rows_of g t)"
  then obtain k where "((g, k), r) \<in> set t" by (auto simp: rows_of_def)
  then show "\<exists>k. map_of t (g, k) = Some r" using map_of_SomeI [OF ok] by blast
next
  assume "\<exists>k. map_of t (g, k) = Some r"
  then obtain k where "((g, k), r) \<in> set t" by (auto dest: map_of_SomeD)
  then show "r \<in> set (rows_of g t)" unfolding rows_of_def by force
qed

lemma keyed_row: "keyed_by change_key t \<Longrightarrow> map_of t (g, i) = Some r \<Longrightarrow> sc_group_id r = g \<and> sc_change_id r = i"
  by (drule (1) keyed_by_lookup) simp

lemma rosters_row: "rosters_ok t \<Longrightarrow> map_of t (g, i) = Some m \<Longrightarrow> rm_identity m = i"
  by (fastforce simp: rosters_ok_def dest: map_of_SomeD)

lemma distinct_rows_of:
  assumes "om_ok t" and "\<And>g k r. ((g, k), r) \<in> set t \<Longrightarrow> f r = k"
  shows "distinct (map f (rows_of g t))"
proof -
  have "map f (rows_of g t) = map (snd \<circ> fst) (filter (\<lambda>p. fst (fst p) = g) t)"
    unfolding rows_of_def map_map by (rule map_cong) (use assms(2) in auto)
  moreover have "distinct (map fst (filter (\<lambda>p. fst (fst p) = g) t))"
    using om_ok_distinct [OF assms(1)] by (rule distinct_map_filter)
  moreover have "inj_on snd (fst ` set (filter (\<lambda>p. fst (fst p) = g) t))" by (auto simp: inj_on_def)
  ultimately show ?thesis by (metis (no_types, lifting) distinct_map list.map_comp list.set_map)
qed

lemma distinct_members: "rosters_ok t \<Longrightarrow> distinct (map rm_identity (rows_of g t))"
  by (rule distinct_rows_of) (auto simp: rosters_ok_def)

lemma distinct_changes: "keyed_by change_key t \<Longrightarrow> distinct (map sc_change_id (rows_of g t))"
  by (rule distinct_rows_of) (auto simp: keyed_by_def)

text \<open>The row of a member, found by its identity.\<close>

lemma find_distinct:
  "distinct (map f xs) \<Longrightarrow> List.find (\<lambda>x. f x = k) xs = Some x \<longleftrightarrow> x \<in> set xs \<and> f x = k"
  by (induction xs) auto

lemma find_in: "List.find P xs = Some x \<Longrightarrow> x \<in> set xs \<and> P x"
  by (auto simp: find_Some_iff)

text \<open>The same among the elements that satisfy \<open>P\<close>.\<close>

lemma find_filter_distinct:
  "distinct (map f xs) \<Longrightarrow> List.find (\<lambda>x. f x = k) (filter P xs) =
    (case List.find (\<lambda>x. f x = k) xs of None \<Rightarrow> None | Some x \<Rightarrow> if P x then Some x else None)"
proof (induction xs)
  case (Cons x xs)
  have "f x = k \<Longrightarrow> List.find (\<lambda>x. f x = k) xs = None"
    using Cons.prems by (auto simp: find_None_iff image_iff)
  with Cons show ?case by auto
qed simp

lemma option_eqI: "(\<And>x. a = Some x \<longleftrightarrow> b = Some x) \<Longrightarrow> a = b"
  by (metis not_None_eq)

lemma find_row:
  assumes "rosters_ok t"
  shows "List.find (\<lambda>m. rm_identity m = i) (rows_of g t) = map_of t (g, i)"
proof (rule option_eqI)
  fix m
  have ok: "om_ok t" using assms by (simp add: rosters_ok_def)
  show "List.find (\<lambda>m. rm_identity m = i) (rows_of g t) = Some m \<longleftrightarrow> map_of t (g, i) = Some m"
    using rosters_row [OF assms] unfolding find_distinct [OF distinct_members [OF assms]] in_rows_of [OF ok] by blast
qed

lemma find_change_row:
  assumes "keyed_by change_key t"
  shows "List.find (\<lambda>r. sc_change_id r = i) (rows_of g t) = map_of t (g, i)"
proof (rule option_eqI)
  fix m
  have ok: "om_ok t" using assms by (simp add: keyed_by_def)
  show "List.find (\<lambda>r. sc_change_id r = i) (rows_of g t) = Some m \<longleftrightarrow> map_of t (g, i) = Some m"
    using keyed_row [OF assms] unfolding find_distinct [OF distinct_changes [OF assms]] in_rows_of [OF ok] by blast
qed

text \<open>Writes under other groups leave a group's rows.\<close>

lemma rows_of_fold_put:
  "(\<And>x. x \<in> set xs \<Longrightarrow> fst (k x) \<noteq> g) \<Longrightarrow> rows_of g (fold (\<lambda>x. om_put (k x) (v x)) xs t) = rows_of g t"
proof (induction xs arbitrary: t)
  case (Cons x xs)
  then have "fst (k x) \<noteq> g" by simp
  then have "rows_of g (om_put (k x) (v x) t) = rows_of g t" by (cases "k x") simp
  with Cons show ?case by simp
qed simp

lemma rows_of_fold_erase:
  "(\<And>x. x \<in> set xs \<Longrightarrow> fst (k x) \<noteq> g) \<Longrightarrow> rows_of g (fold (\<lambda>x. om_erase (k x)) xs t) = rows_of g t"
proof (induction xs arbitrary: t)
  case (Cons x xs)
  then have "fst (k x) \<noteq> g" by simp
  then have "rows_of g (om_erase (k x) t) = rows_of g t" by (cases "k x") simp
  with Cons show ?case by simp
qed simp

text \<open>The rules give every change one verdict and list every member once.\<close>

lemma verdict_ids_distinct: "distinct (map v_id (w_verdicts (ComputeRosterChecked st cs now)))"
proof -
  obtain vs where view: "w_verdicts (ComputeRosterChecked st cs now) = map snd vs"
    and vs: "verdicts_ok st (Collapse cs) vs"
    using roster_verdicts by blast
  have ok: "om_ok vs" using vs by (simp add: verdicts_ok_def)
  have "map (v_id \<circ> snd) vs = map fst vs"
    by (rule map_cong) (use verdict_id [OF vs] ok in \<open>auto simp: map_of_mem_iff\<close>)
  then show ?thesis using om_ok_distinct [OF ok] unfolding view map_map by metis
qed

lemma members_distinct: "distinct (map vm_identity (w_members (ComputeRosterChecked st cs now)))"
proof (cases "s_dissolved st")
  case True
  then have "w_members (ComputeRosterChecked st cs now) = []" by (simp add: dissolved_view)
  then show ?thesis by simp
next
  case False
  from members_sorted [OF this, of cs now] show ?thesis using strict_sorted_iff by blast
qed

end
