(* ===== verification/ViewClaims.thy ===== *)
theory ViewClaims
  imports SyncLaws
begin

section \<open>The stored roster is the roster of the rules\<close>

text \<open>
  \<open>ApplyView\<close>, the one path by which the stored rows follow the statement and the changes: what its
  loops leave, and the claim that the store then holds exactly the view the rules compute.
\<close>

subsection \<open>The loops\<close>

lemma calm_drop_rows:
  "db_faults s = [] \<Longrightarrow> \<exists>log. run_state (drop_rows g view ms gone) s =
    (Inr (gone @ map rm_identity (filter (\<lambda>m. \<not> ViewLists view (rm_identity m)) ms)),
     s\<lparr>db_rosters := fold (\<lambda>m. om_erase (g, rm_identity m)) (filter (\<lambda>m. \<not> ViewLists view (rm_identity m)) ms)
         (db_rosters s), db_notified := log\<rparr>)"
proof (induction ms arbitrary: gone s)
  case Nil
  show ?case by (rule exI [of _ "db_notified s"]) (simp add: run_rules)
next
  case (Cons m ms)
  show ?case
  proof (cases "ViewLists view (rm_identity m)")
    case False
    let ?t = "NotifyChanged \<lparr>rc_group_id = g, rc_member_gone = (if map_of (db_rosters s) (g, rm_identity m) \<noteq> None
      then rm_identity m else []), rc_ended = False\<rparr> (s\<lparr>db_rosters := om_erase (g, rm_identity m) (db_rosters s)\<rparr>)"
    have "db_faults ?t = []" using Cons.prems by (simp add: NotifyChanged_def)
    from Cons.IH [OF this, of "gone @ [rm_identity m]"] obtain log where
      "run_state (drop_rows g view ms (gone @ [rm_identity m])) ?t =
        (Inr (gone @ [rm_identity m] @ map rm_identity (filter (\<lambda>m. \<not> ViewLists view (rm_identity m)) ms)),
         ?t\<lparr>db_rosters := fold (\<lambda>m. om_erase (g, rm_identity m)) (filter (\<lambda>m. \<not> ViewLists view (rm_identity m)) ms)
           (db_rosters ?t), db_notified := log\<rparr>)" by auto
    with False show ?thesis
      by (intro exI [of _ log]) (simp add: run_roe_then calm_runs Cons.prems NotifyChanged_def)
  qed (use Cons in simp)
qed

text \<open>The rows \<open>put_rows\<close> writes.\<close>

definition had_row :: "group_roster_member list \<Rightarrow> view_member \<Rightarrow> group_roster_member option" where
  "had_row current m = List.find (\<lambda>r. rm_identity r = vm_identity m) current"

definition to_write :: "group_roster_member list \<Rightarrow> view_member \<Rightarrow> bool" where
  "to_write current m \<longleftrightarrow> (case had_row current m of None \<Rightarrow> True | Some r \<Rightarrow> \<not> unchanged_row r (view_row (Some r) m))"

lemma calm_put_rows:
  "db_faults s = [] \<Longrightarrow> \<exists>log. run_state (put_rows g current ms joined) s =
    (Inr (joined @ map vm_identity (filter (\<lambda>m. had_row current m = None) ms)),
     s\<lparr>db_rosters := fold (\<lambda>m. om_put (g, vm_identity m) (view_row (had_row current m) m)) (filter (to_write current) ms)
         (db_rosters s), db_notified := log\<rparr>)"
proof (induction ms arbitrary: joined s)
  case Nil
  show ?case by (rule exI [of _ "db_notified s"]) (simp add: run_rules)
next
  case (Cons m ms)
  let ?had = "had_row current m"
  let ?joined = "if ?had = None then joined @ [vm_identity m] else joined"
  show ?case
  proof (cases "to_write current m")
    case True
    let ?t = "NotifyChanged \<lparr>rc_group_id = g, rc_member_gone = [], rc_ended = False\<rparr>
      (s\<lparr>db_rosters := om_put (g, vm_identity m) (view_row ?had m) (db_rosters s)\<rparr>)"
    have "db_faults ?t = []" using Cons.prems by (simp add: NotifyChanged_def)
    from Cons.IH [OF this, of ?joined] obtain log where
      "run_state (put_rows g current ms ?joined) ?t =
        (Inr (?joined @ map vm_identity (filter (\<lambda>m. had_row current m = None) ms)),
         ?t\<lparr>db_rosters := fold (\<lambda>m. om_put (g, vm_identity m) (view_row (had_row current m) m)) (filter (to_write current) ms)
           (db_rosters ?t), db_notified := log\<rparr>)" by auto
    moreover have "run_state (put_rows g current (m # ms) joined) s = run_state (put_rows g current ms ?joined) ?t"
      using True
      by (auto simp: run_roe_then calm_runs Cons.prems had_row_def [symmetric] Let_def to_write_def view_row_def
          split: option.splits)
    ultimately show ?thesis using True by (intro exI [of _ log]) (simp add: NotifyChanged_def)
  next
    case False
    then obtain r where "?had = Some r" "unchanged_row r (view_row (Some r) m)"
      by (auto simp: to_write_def split: option.splits)
    then show ?thesis using Cons.IH [OF Cons.prems, of joined] False by (simp add: had_row_def [symmetric] Let_def)
  qed
qed

text \<open>The changes \<open>mark_lines\<close> marks.\<close>

definition verdict_is :: "roster_view \<Rightarrow> change_status \<Rightarrow> string \<Rightarrow> bool" where
  "verdict_is view status i \<longleftrightarrow> (case ViewVerdict view i of None \<Rightarrow> False | Some v \<Rightarrow> v_status v = status)"

definition to_mark :: "roster_json \<Rightarrow> roster_view \<Rightarrow> stored_change \<Rightarrow> bool" where
  "to_mark js view row \<longleftrightarrow> \<not> sc_line_shown row \<and> verdict_is view Applied (sc_change_id row)
     \<and> ParseChange js row \<noteq> None"

lemma calm_mark_lines:
  "db_faults s = [] \<Longrightarrow> run_state (mark_lines js view rows newly) s =
    (Inr (newly @ List.map_filter (ParseChange js) (filter (to_mark js view) rows)),
     s\<lparr>db_changes := fold (\<lambda>row. om_put (change_key row) (row\<lparr>sc_line_shown := True\<rparr>)) (filter (to_mark js view) rows)
         (db_changes s)\<rparr>)"
proof (induction rows arbitrary: newly s)
  case Nil
  show ?case by (simp add: run_rules List.map_filter_simps)
next
  case (Cons row rows)
  show ?case
  proof (cases "to_mark js view row")
    case True
    then obtain c v where "ParseChange js row = Some c" "\<not> sc_line_shown row" "ViewVerdict view (sc_change_id row) = Some v"
      "v_status v = Applied" by (auto simp: to_mark_def verdict_is_def split: option.splits)
    with True show ?thesis
      by (simp add: run_roe_then calm_runs Cons.prems Cons.IH List.map_filter_simps)
  next
    case False
    then have "run_state (mark_lines js view (row # rows) newly) s = run_state (mark_lines js view rows newly) s"
      by (auto simp: to_mark_def verdict_is_def split: option.splits)
    with False show ?thesis by (simp add: Cons.IH [OF Cons.prems])
  qed
qed

subsection \<open>What \<open>ApplyView\<close> leaves\<close>

text \<open>The view of a group, and the tables after it was applied.\<close>

definition held_now :: "roster_json \<Rightarrow> roster_store \<Rightarrow> string \<Rightarrow> group_change list" where
  "held_now js s g = List.map_filter (ParseChange js) (rows_of g (db_changes s))"

definition unreadable :: "roster_json \<Rightarrow> roster_store \<Rightarrow> string \<Rightarrow> string list" where
  "unreadable js s g = map sc_change_id (filter (\<lambda>row. ParseChange js row = None) (rows_of g (db_changes s)))"

definition settled_changes ::
  "roster_json \<Rightarrow> roster_store \<Rightarrow> string \<Rightarrow> roster_view \<Rightarrow> ((string \<times> string) \<times> stored_change) list" where
  "settled_changes js s g view =
     fold (\<lambda>row. om_put (change_key row) (row\<lparr>sc_line_shown := True\<rparr>)) (filter (to_mark js view) (rows_of g (db_changes s)))
       (fold (\<lambda>i. om_erase (g, i))
         (unreadable js s g @ map v_id (filter (\<lambda>v. v_status v = Dropped) (w_verdicts view))) (db_changes s))"

definition written_rows ::
  "roster_store \<Rightarrow> string \<Rightarrow> roster_view \<Rightarrow> ((string \<times> string) \<times> group_roster_member) list" where
  "written_rows s g view =
     (let current = rows_of g (db_rosters s) in
      fold (\<lambda>m. om_put (g, vm_identity m) (view_row (had_row current m) m)) (filter (to_write current) (w_members view))
        (fold (\<lambda>m. om_erase (g, rm_identity m)) (filter (\<lambda>m. \<not> ViewLists view (rm_identity m)) current)
          (db_rosters s)))"

lemma calm_SettleHeld:
  "db_faults s = [] \<Longrightarrow> run_state (SettleHeld js g (rows_of g (db_changes s)) (unreadable js s g) view applied) s =
    (Inr (applied\<lparr>va_newly_applied := va_newly_applied applied
        @ List.map_filter (ParseChange js) (filter (to_mark js view) (rows_of g (db_changes s)))\<rparr>),
     s\<lparr>db_changes := settled_changes js s g view\<rparr>)"
  by (simp add: SettleHeld_def run_rules calm_runs calm_mark_lines settled_changes_def)

lemma calm_WriteRows:
  assumes "db_faults s = []"
  shows "\<exists>log. run_state (WriteRows g view applied) s =
    (Inr (applied\<lparr>va_gone := va_gone applied
          @ map rm_identity (filter (\<lambda>m. \<not> ViewLists view (rm_identity m)) (rows_of g (db_rosters s))),
        va_joined := va_joined applied
          @ map vm_identity (filter (\<lambda>m. had_row (rows_of g (db_rosters s)) m = None) (w_members view))\<rparr>),
     s\<lparr>db_rosters := written_rows s g view, db_notified := log\<rparr>)"
proof -
  let ?current = "rows_of g (db_rosters s)"
  obtain log where drop: "run_state (drop_rows g view ?current (va_gone applied)) s =
      (Inr (va_gone applied @ map rm_identity (filter (\<lambda>m. \<not> ViewLists view (rm_identity m)) ?current)),
       s\<lparr>db_rosters := fold (\<lambda>m. om_erase (g, rm_identity m)) (filter (\<lambda>m. \<not> ViewLists view (rm_identity m)) ?current)
         (db_rosters s), db_notified := log\<rparr>)" (is "_ = (_, ?t)")
    using calm_drop_rows [OF assms] by blast
  have "db_faults ?t = []" using assms by simp
  from calm_put_rows [OF this, of g ?current "w_members view" "va_joined applied"] obtain log' where
    "run_state (put_rows g ?current (w_members view) (va_joined applied)) ?t =
      (Inr (va_joined applied @ map vm_identity (filter (\<lambda>m. had_row ?current m = None) (w_members view))),
       s\<lparr>db_rosters := written_rows s g view, db_notified := log'\<rparr>)"
    by (auto simp: written_rows_def Let_def)
  then show ?thesis
    by (intro exI [of _ log']) (simp add: WriteRows_def run_rules calm_runs assms drop)
qed

lemma calm_WriteMetadata:
  assumes "db_faults s = []" "map_of (db_metadata s) g = Some md"
  shows "\<exists>log title. run_state (WriteMetadata g st view applied) s =
    (Inr (applied\<lparr>va_view := Some view, va_new_title := title\<rparr>),
     s\<lparr>db_metadata := (if same_metadata (view_metadata st view (loaded s g md)) (loaded s g md) then db_metadata s
         else om_put g (view_metadata st view (loaded s g md)) (db_metadata s)), db_notified := log\<rparr>)"
proof -
  let ?old = "loaded s g md" and ?new = "view_metadata st view (loaded s g md)"
  let ?title = "if newer_title view ?old \<and> md_title ?new \<noteq> md_title ?old then Some (md_title ?new) else va_new_title applied"
  let ?log = "if same_metadata ?new ?old then db_notified s
    else db_notified s @ [\<lparr>rc_group_id = g, rc_member_gone = [], rc_ended = False\<rparr>]"
  have group: "md_group_id ?new = g" by (simp add: view_metadata_def Let_def)
  show ?thesis
  proof (intro exI [of _ ?log] exI [of _ ?title], cases "same_metadata ?new ?old")
    case True
    have "s = s\<lparr>db_metadata := db_metadata s, db_notified := db_notified s\<rparr>" by simp
    with True show "run_state (WriteMetadata g st view applied) s = (Inr (applied\<lparr>va_view := Some view, va_new_title := ?title\<rparr>),
      s\<lparr>db_metadata := if same_metadata ?new ?old then db_metadata s else om_put g ?new (db_metadata s), db_notified := ?log\<rparr>)"
      unfolding WriteMetadata_def using assms by (simp add: Let_def run_rules calm_runs)
  next
    case False
    then show "run_state (WriteMetadata g st view applied) s = (Inr (applied\<lparr>va_view := Some view, va_new_title := ?title\<rparr>),
      s\<lparr>db_metadata := if same_metadata ?new ?old then db_metadata s else om_put g ?new (db_metadata s), db_notified := ?log\<rparr>)"
      unfolding WriteMetadata_def using assms group by (simp add: Let_def run_rules calm_runs NotifyChanged_def)
  qed
qed

text \<open>
  The state \<open>ApplyView\<close> leaves: the three tables, and a log of notices.
\<close>

lemma calm_ApplyView:
  assumes calm: "db_faults s = []" and md: "map_of (db_metadata s) g = Some md" "md_sync_state md \<noteq> Dissolved"
    and st: "Held js md = Some st" "md_roster_epoch md \<le> s_roster_epoch st"
    and view: "view = roster_by_rules cr st (held_now js s g) cards now"
  shows "\<exists>log title. run_state (ApplyView cr js g cards now) s =
    (Inr \<lparr>va_view = Some view,
        va_newly_applied = List.map_filter (ParseChange js) (filter (to_mark js view) (rows_of g (db_changes s))),
        va_gone = map rm_identity (filter (\<lambda>m. \<not> ViewLists view (rm_identity m)) (rows_of g (db_rosters s))),
        va_joined = map vm_identity (filter (\<lambda>m. had_row (rows_of g (db_rosters s)) m = None) (w_members view)),
        va_new_title = title\<rparr>,
     s\<lparr>db_changes := settled_changes js s g view, db_rosters := written_rows s g view,
       db_metadata := (if same_metadata (view_metadata st view (loaded s g md)) (loaded s g md) then db_metadata s
         else om_put g (view_metadata st view (loaded s g md)) (db_metadata s)), db_notified := log\<rparr>)"
proof -
  let ?s1 = "s\<lparr>db_changes := settled_changes js s g view\<rparr>"
  let ?a1 = "nothing_applied\<lparr>va_newly_applied :=
    List.map_filter (ParseChange js) (filter (to_mark js view) (rows_of g (db_changes s)))\<rparr>"
  have settle: "run_state (SettleHeld js g (rows_of g (db_changes s)) (unreadable js s g) view nothing_applied) s = (Inr ?a1, ?s1)"
    using calm_SettleHeld [OF calm, of js g view nothing_applied] by (simp add: nothing_applied_def)
  have "db_faults ?s1 = []" using calm by simp
  from calm_WriteRows [OF this, of g view ?a1] obtain log a2 where
    rows: "run_state (WriteRows g view ?a1) ?s1 = (Inr a2, ?s1\<lparr>db_rosters := written_rows s g view, db_notified := log\<rparr>)"
    and a2: "a2 = ?a1\<lparr>va_gone := map rm_identity (filter (\<lambda>m. \<not> ViewLists view (rm_identity m)) (rows_of g (db_rosters s))),
        va_joined := map vm_identity (filter (\<lambda>m. had_row (rows_of g (db_rosters s)) m = None) (w_members view))\<rparr>"
    by (auto simp: written_rows_def nothing_applied_def)
  let ?s2 = "?s1\<lparr>db_rosters := written_rows s g view, db_notified := log\<rparr>"
  have "db_faults ?s2 = []" "map_of (db_metadata ?s2) g = Some md" using calm md(1) by simp_all
  from calm_WriteMetadata [OF this, of st view a2] obtain log' title where
    meta: "run_state (WriteMetadata g st view a2) ?s2 = (Inr (a2\<lparr>va_view := Some view, va_new_title := title\<rparr>),
      ?s2\<lparr>db_metadata := (if same_metadata (view_metadata st view (loaded ?s2 g md)) (loaded ?s2 g md) then db_metadata ?s2
         else om_put g (view_metadata st view (loaded ?s2 g md)) (db_metadata ?s2)), db_notified := log'\<rparr>)"
    by blast
  have "loaded ?s2 g md = loaded s g md" "\<not> s_roster_epoch st < md_roster_epoch md"
    using st(2) by (simp_all add: loaded_def not_less)
  with meta have "run_state (ApplyView cr js g cards now) s = (Inr (a2\<lparr>va_view := Some view, va_new_title := title\<rparr>),
      ?s2\<lparr>db_metadata := (if same_metadata (view_metadata st view (loaded s g md)) (loaded s g md) then db_metadata s
         else om_put g (view_metadata st view (loaded s g md)) (db_metadata s)), db_notified := log'\<rparr>)"
    unfolding ApplyView_def
    by (simp add: run_roe_then calm_runs calm md st Let_def held_now_def [symmetric] unreadable_def [symmetric]
        view [symmetric] settle rows)
  then show ?thesis
    by (intro exI [of _ log'] exI [of _ title]) (simp add: a2 nothing_applied_def)
qed

subsection \<open>The tables as lookups\<close>

lemma find_marked:
  assumes "keyed_by change_key t"
  shows "List.find (\<lambda>row. sc_group_id row = g \<and> sc_change_id row = i) (filter P (rows_of g t)) =
    (case map_of t (g, i) of None \<Rightarrow> None | Some row \<Rightarrow> if P row then Some row else None)"
proof -
  have ok: "om_ok t" using assms by (simp add: keyed_by_def)
  have "sc_group_id r = g" if "r \<in> set (rows_of g t)" for r
    using that in_rows_of [OF ok] keyed_row [OF assms] by blast
  then have "List.find (\<lambda>row. sc_group_id row = g \<and> sc_change_id row = i) (filter P (rows_of g t)) =
      List.find (\<lambda>row. sc_change_id row = i) (filter P (rows_of g t))"
    by (intro find_cong) auto
  then show ?thesis by (simp add: find_filter_distinct [OF distinct_changes [OF assms]] find_change_row [OF assms])
qed

lemma verdict_is_iff:
  assumes "distinct (map v_id (w_verdicts view))"
  shows "verdict_is view status i \<longleftrightarrow> (\<exists>v \<in> set (w_verdicts view). v_id v = i \<and> v_status v = status)"
proof (cases "ViewVerdict view i")
  case None
  then have "\<forall>v \<in> set (w_verdicts view). v_id v \<noteq> i" by (auto simp: ViewVerdict_def find_None_iff)
  with None show ?thesis by (auto simp: verdict_is_def)
next
  case (Some v)
  then have v: "v \<in> set (w_verdicts view)" "v_id v = i" using find_distinct [OF assms] by (auto simp: ViewVerdict_def)
  have "u = v" if "u \<in> set (w_verdicts view)" "v_id u = i" for u
    using assms v that by (auto simp: distinct_map dest: inj_onD)
  with v show ?thesis unfolding verdict_is_def Some option.case by blast
qed

text \<open>What is left of a held change.\<close>

definition settled_row :: "roster_json \<Rightarrow> roster_view \<Rightarrow> stored_change \<Rightarrow> stored_change option" where
  "settled_row js view row =
     (if ParseChange js row = None \<or> verdict_is view Dropped (sc_change_id row) then None
      else Some (row\<lparr>sc_line_shown := sc_line_shown row \<or> verdict_is view Applied (sc_change_id row)\<rparr>))"

lemma settled_lookup:
  assumes keyed: "keyed_by change_key (db_changes s)" and ids: "distinct (map v_id (w_verdicts view))"
  shows "map_of (settled_changes js s g view) (g, i) =
    (case map_of (db_changes s) (g, i) of None \<Rightarrow> None | Some row \<Rightarrow> settled_row js view row)"
proof -
  let ?t = "db_changes s" and ?drop = "unreadable js s g @ map v_id (filter (\<lambda>v. v_status v = Dropped) (w_verdicts view))"
  have ok: "om_ok ?t" using keyed by (simp add: keyed_by_def)
  have "distinct (map change_key (filter (to_mark js view) (rows_of g ?t)))"
    by (rule distinct_map_filter) (use distinct_changes [OF keyed, of g] in \<open>auto simp: distinct_map inj_on_def\<close>)
  then have lookup: "map_of (settled_changes js s g view) (g, i) =
      (case map_of ?t (g, i) of None \<Rightarrow> None | Some row \<Rightarrow>
         if to_mark js view row then Some (row\<lparr>sc_line_shown := True\<rparr>)
         else if i \<in> set ?drop then None else Some row)"
    by (simp add: settled_changes_def map_of_fold_put_distinct map_of_fold_erase ok find_marked [OF keyed] image_iff
        split: option.splits)
  show ?thesis
  proof (cases "map_of ?t (g, i)")
    case (Some row)
    then have key: "sc_change_id row = i" using keyed_row [OF keyed] by blast
    have "r \<in> set (rows_of g ?t) \<and> sc_change_id r = i \<longleftrightarrow> r = row" for r
      using keyed_row [OF keyed] Some key in_rows_of [OF ok] by (metis option.inject)
    moreover have "i \<in> set (unreadable js s g) \<longleftrightarrow>
        (\<exists>r. (r \<in> set (rows_of g ?t) \<and> sc_change_id r = i) \<and> ParseChange js r = None)"
      by (auto simp: unreadable_def)
    ultimately have bad: "i \<in> set (unreadable js s g) \<longleftrightarrow> ParseChange js row = None" by simp
    have dropped: "i \<in> v_id ` {v \<in> set (w_verdicts view). v_status v = Dropped} \<longleftrightarrow> verdict_is view Dropped i"
      by (auto simp: verdict_is_iff [OF ids])
    have one: "verdict_is view Applied i \<Longrightarrow> \<not> verdict_is view Dropped i"
      by (auto simp: verdict_is_def split: option.splits)
    have "row\<lparr>sc_line_shown := sc_line_shown row\<rparr> = row" by simp
    then show ?thesis
      using bad dropped one key by (auto simp: lookup Some settled_row_def to_mark_def)
  qed (simp add: lookup)
qed

lemma had_row_lookup: "rosters_ok (db_rosters s) \<Longrightarrow> had_row (rows_of g (db_rosters s)) m = map_of (db_rosters s) (g, vm_identity m)"
  by (simp add: had_row_def find_row)

lemma unchanged_row_iff:
  "rm_identity r = vm_identity m \<Longrightarrow> unchanged_row r (view_row (Some r) m) \<longleftrightarrow> view_row (Some r) m = r"
  by (cases r) (auto simp: unchanged_row_def view_row_def)

lemma written_lookup:
  assumes ok: "rosters_ok (db_rosters s)" and ids: "distinct (map vm_identity (w_members view))"
  shows "map_of (written_rows s g view) (g, i) =
    map_option (view_row (map_of (db_rosters s) (g, i))) (ViewFind view i)"
proof -
  let ?t = "db_rosters s" and ?current = "rows_of g (db_rosters s)"
  have om: "om_ok ?t" using ok by (simp add: rosters_ok_def)
  have inj: "distinct (map (\<lambda>m. (g, vm_identity m)) (filter (to_write ?current) (w_members view)))"
    using distinct_map_filter [OF ids, of "to_write ?current"] by (auto simp: distinct_map inj_on_def)
  have erased: "(g, i) \<in> (\<lambda>m. (g, rm_identity m)) ` set (filter (\<lambda>m. \<not> ViewLists view (rm_identity m)) ?current)
      \<longleftrightarrow> map_of ?t (g, i) \<noteq> None \<and> \<not> ViewLists view i"
    using rosters_row [OF ok] by (auto simp: in_rows_of [OF om] image_iff)
  have find: "List.find (\<lambda>m. vm_identity m = i) (filter (to_write ?current) (w_members view)) =
      (case ViewFind view i of None \<Rightarrow> None | Some m \<Rightarrow> if to_write ?current m then Some m else None)"
    unfolding ViewFind_def by (rule find_filter_distinct [OF ids])
  have "map_of (written_rows s g view) (g, i) =
      (case ViewFind view i of None \<Rightarrow> None | Some m \<Rightarrow>
         if to_write ?current m then Some (view_row (had_row ?current m) m) else map_of ?t (g, i))"
    using erased find
    by (auto simp: written_rows_def Let_def map_of_fold_put_distinct [OF _ inj] map_of_fold_erase om ViewLists_def
        split: option.splits)
  moreover have "vm_identity m = i" if "ViewFind view i = Some m" for m
    using that by (simp add: ViewFind_def find_distinct [OF ids])
  moreover have "map_of ?t (g, i) = Some (view_row (map_of ?t (g, i)) m)"
    if m: "ViewFind view i = Some m" and kept: "\<not> to_write ?current m" for m
  proof -
    have i: "vm_identity m = i" using m by (simp add: ViewFind_def find_distinct [OF ids])
    then obtain r where r: "map_of ?t (g, i) = Some r" "unchanged_row r (view_row (Some r) m)"
      using kept by (auto simp: to_write_def had_row_lookup [OF ok] split: option.splits)
    then show ?thesis using rosters_row [OF ok r(1)] i by (simp add: unchanged_row_iff)
  qed
  ultimately show ?thesis by (auto simp: had_row_lookup [OF ok] split: option.splits)
qed

subsection \<open>The claim\<close>

text \<open>The metadata follow the statement; its title is the newer of the two.\<close>

definition follows :: "statement \<Rightarrow> roster_view \<Rightarrow> group_metadata \<Rightarrow> group_metadata \<Rightarrow> bool" where
  "follows st view md md' \<longleftrightarrow> md_owner md' = s_owner st \<and> md_roster_epoch md' = s_roster_epoch st
     \<and> md_preset md' = s_preset st \<and> md_sync_state md' = md_sync_state md
     \<and> md_statement_json md' = md_statement_json md
     \<and> (md_title md', md_title_version md') =
         (if newer_title view md then (w_title view, w_title_version view) else (md_title md, md_title_version md))"

lemma follows_view_metadata: "follows st view md (view_metadata st view (loaded s g md))"
  by (auto simp: follows_def view_metadata_def Let_def newer_title_def)

lemma follows_same:
  "same_metadata (view_metadata st view (loaded s g md)) (loaded s g md) \<Longrightarrow> follows st view md md"
  using follows_view_metadata [of st view md s g] unfolding follows_def same_metadata_def loaded_same by metis

lemma settled_elsewhere:
  assumes "keyed_by change_key (db_changes s)" "g' \<noteq> g"
  shows "rows_of g' (settled_changes js s g view) = rows_of g' (db_changes s)"
proof -
  have "sc_group_id row = g" if "row \<in> set (rows_of g (db_changes s))" for row
    using that in_rows_of [of "db_changes s"] keyed_row [OF assms(1)] assms(1) unfolding keyed_by_def by blast
  then have "rows_of g' (settled_changes js s g view) = rows_of g' (fold (\<lambda>i. om_erase (g, i))
      (unreadable js s g @ map v_id (filter (\<lambda>v. v_status v = Dropped) (w_verdicts view))) (db_changes s))"
    unfolding settled_changes_def by (intro rows_of_fold_put) (use assms(2) in auto)
  also have "\<dots> = rows_of g' (db_changes s)"
    using assms(2) by (intro rows_of_fold_erase) simp
  finally show ?thesis .
qed

lemma written_elsewhere: "g' \<noteq> g \<Longrightarrow> rows_of g' (written_rows s g view) = rows_of g' (db_rosters s)"
  by (simp add: written_rows_def Let_def rows_of_fold_put rows_of_fold_erase)

text \<open>
  C3: \<open>ApplyView\<close> implements the rules. When nothing fails and the group holds a statement no older
  than its roster, the stored roster becomes exactly the view the rules compute from the statement and
  the changes held: a member has a row if and only if the view lists them, with the view's role, time
  and adder and the contact id the row had; the reported losses and gains are the difference; the
  metadata follow the statement; of the held changes those that do not parse or that the view drops
  are gone, the others stay and are marked when they count. Nothing of another group changes.
\<close>

theorem apply_view_implements_rules:
  assumes "store_ok s" and "db_faults s = []"
    and "map_of (db_metadata s) g = Some md" and "md_sync_state md \<noteq> Dissolved"
    and "Held js md = Some st" and "md_roster_epoch md \<le> s_roster_epoch st"
  shows "\<exists>view applied t md'. view = roster_by_rules cr st (held_now js s g) cards now
    \<and> run_state (ApplyView cr js g cards now) s = (Inr applied, t) \<and> va_view applied = Some view
    \<and> (\<forall>i. map_of (db_rosters t) (g, i) = map_option (view_row (map_of (db_rosters s) (g, i))) (ViewFind view i))
    \<and> set (va_gone applied) = {i. map_of (db_rosters s) (g, i) \<noteq> None \<and> map_of (db_rosters t) (g, i) = None}
    \<and> set (va_joined applied) = {i. map_of (db_rosters s) (g, i) = None \<and> map_of (db_rosters t) (g, i) \<noteq> None}
    \<and> map_of (db_metadata t) g = Some md' \<and> follows st view md md'
    \<and> (\<forall>i. map_of (db_changes t) (g, i) =
        (case map_of (db_changes s) (g, i) of None \<Rightarrow> None | Some row \<Rightarrow> settled_row js view row))
    \<and> same_elsewhere g s t"
proof -
  define view where "view = roster_by_rules cr st (held_now js s g) cards now"
  define new where "new = view_metadata st view (loaded s g md)"
  define t0 where "t0 = s\<lparr>db_changes := settled_changes js s g view, db_rosters := written_rows s g view,
       db_metadata := (if same_metadata new (loaded s g md) then db_metadata s else om_put g new (db_metadata s))\<rparr>"
  obtain log title where run: "run_state (ApplyView cr js g cards now) s =
    (Inr \<lparr>va_view = Some view,
        va_newly_applied = List.map_filter (ParseChange js) (filter (to_mark js view) (rows_of g (db_changes s))),
        va_gone = map rm_identity (filter (\<lambda>m. \<not> ViewLists view (rm_identity m)) (rows_of g (db_rosters s))),
        va_joined = map vm_identity (filter (\<lambda>m. had_row (rows_of g (db_rosters s)) m = None) (w_members view)),
        va_new_title = title\<rparr>, t0\<lparr>db_notified := log\<rparr>)" (is "_ = (Inr ?applied, ?t)")
    using calm_ApplyView [OF assms(2-6) view_def] unfolding t0_def new_def by auto
  have ok: "rosters_ok (db_rosters s)" "om_ok (db_rosters s)" "keyed_by change_key (db_changes s)"
    using store_ok_tables(2,3) [OF assms(1)] unfolding rosters_ok_def by blast+
  have members: "distinct (map vm_identity (w_members view))" and verdicts: "distinct (map v_id (w_verdicts view))"
    by (simp_all add: view_def roster_by_rules_def members_distinct verdict_ids_distinct)
  have rows: "map_of (db_rosters ?t) (g, i) = map_option (view_row (map_of (db_rosters s) (g, i))) (ViewFind view i)" for i
    using written_lookup [OF ok(1) members] by (simp add: t0_def)
  have gone: "set (va_gone ?applied) = {i. map_of (db_rosters s) (g, i) \<noteq> None \<and> map_of (db_rosters ?t) (g, i) = None}"
    using rosters_row [OF ok(1)] unfolding rows by (auto simp: in_rows_of [OF ok(2)] ViewLists_def image_iff)
  have listed: "ViewFind view i \<noteq> None \<longleftrightarrow> i \<in> vm_identity ` set (w_members view)" for i
    using ViewLists_iff by (simp add: ViewLists_def)
  have joined: "set (va_joined ?applied) = {i. map_of (db_rosters s) (g, i) = None \<and> map_of (db_rosters ?t) (g, i) \<noteq> None}"
    unfolding rows using listed by (auto simp: had_row_lookup [OF ok(1)] image_iff)
  have changes: "map_of (db_changes ?t) (g, i) =
      (case map_of (db_changes s) (g, i) of None \<Rightarrow> None | Some row \<Rightarrow> settled_row js view row)" for i
    using settled_lookup [OF ok(3) verdicts] by (simp add: t0_def)
  have meta: "\<exists>md'. map_of (db_metadata ?t) g = Some md' \<and> follows st view md md'"
    using assms(3) follows_same [of st view s g md] follows_view_metadata [of st view md s g]
    by (auto simp: t0_def new_def)
  have elsewhere: "same_elsewhere g s ?t"
    unfolding same_elsewhere_def by (auto simp: t0_def settled_elsewhere [OF ok(3)] written_elsewhere)
  show ?thesis
  proof -
    obtain md' where md': "map_of (db_metadata ?t) g = Some md'" "follows st view md md'" using meta by blast
    show ?thesis
      by (rule exI [of _ view], rule exI [of _ ?applied], rule exI [of _ ?t], rule exI [of _ md'], intro conjI allI)
        (rule view_def, rule run, simp, rule rows, rule gone, rule joined, rule md'(1), rule md'(2), rule changes,
          rule elsewhere)
  qed
qed

text \<open>A store that holds \<open>sample_statement\<close>, and a reader of its text.\<close>

definition sample_reading :: roster_json where
  "sample_reading = sample_json\<lparr>js_read_statement := (\<lambda>_. Some sample_statement)\<rparr>"

definition sample_following :: roster_store where
  "sample_following = (sample_store [])\<lparr>db_metadata :=
     [(''g'', sample_metadata\<lparr>md_owner := ''z'', md_statement_json := ''s'', md_sync_request_id := ''q''\<rparr>)]\<rparr>"

lemma sample_following_ok: "store_ok sample_following"
  by (simp add: sample_following_def sample_store_def empty_store_def sample_metadata_def sample_member_def
      sample_invite_def store_ok_def keyed_by_def rosters_ok_def targets_ok_def one_target_per_thread_def)

lemma sample_following_fields:
  "db_faults sample_following = []"
  "map_of (db_metadata sample_following) ''g'' =
    Some (sample_metadata\<lparr>md_owner := ''z'', md_statement_json := ''s'', md_sync_request_id := ''q''\<rparr>)"
  "rows_of ''g'' (db_changes sample_following) = []" "held_now js sample_following ''g'' = []"
  "map_of (db_rosters sample_following) (''g'', ''ann'') = Some (sample_member ''ann'' Owner)"
  by (simp_all add: sample_following_def sample_store_def empty_store_def rows_of_def held_now_def
      List.map_filter_simps)

lemma sample_roster: "map vm_identity (w_members (ComputeRosterChecked sample_statement [] 10)) = [''a'', ''b'', ''c'', ''d'']"
  by code_simp

lemma sample_view_members:
  "map vm_identity (w_members (roster_by_rules sample_crypto sample_statement [] (\<lambda>_. None) 10)) = [''a'', ''b'', ''c'', ''d'']"
proof -
  have "CheckChanges sample_crypto [] (\<lambda>_. None) 10 = []" by (simp add: CheckChanges_def Collapse_def)
  then show ?thesis by (simp only: roster_by_rules_def sample_roster)
qed

theorem apply_view_implements_rules_witness:
  "\<exists>t. snd (run_state (ApplyView sample_crypto sample_reading ''g'' (\<lambda>_. None) 10) sample_following) = t
     \<and> map_of (db_rosters t) (''g'', ''ann'') = None \<and> map_of (db_rosters t) (''g'', ''b'') \<noteq> None"
proof -
  let ?md = "sample_metadata\<lparr>md_owner := ''z'', md_statement_json := ''s'', md_sync_request_id := ''q''\<rparr>"
  let ?view = "roster_by_rules sample_crypto sample_statement [] (\<lambda>_. None) 10"
  have held: "Held sample_reading ?md = Some sample_statement" by (simp add: Held_def sample_reading_def)
  have "md_sync_state ?md \<noteq> Dissolved" "md_roster_epoch ?md \<le> s_roster_epoch sample_statement"
    by (simp_all add: sample_metadata_def sample_statement_def)
  from apply_view_implements_rules [OF sample_following_ok sample_following_fields(1,2) this(1) held this(2),
      of sample_crypto "\<lambda>_. None" 10]
  obtain applied t where run: "run_state (ApplyView sample_crypto sample_reading ''g'' (\<lambda>_. None) 10) sample_following = (Inr applied, t)"
    and rows: "\<And>i. map_of (db_rosters t) (''g'', i) =
      map_option (view_row (map_of (db_rosters sample_following) (''g'', i))) (ViewFind ?view i)"
    unfolding sample_following_fields(4) by blast
  have ids: "vm_identity ` set (w_members ?view) = {''a'', ''b'', ''c'', ''d''}"
    using arg_cong [OF sample_view_members, of set] by (simp only: set_map list.set)
  have "\<not> ViewLists ?view ''ann''" "ViewLists ?view ''b''" unfolding ViewLists_iff ids by simp_all
  then have "map_of (db_rosters t) (''g'', ''ann'') = None" "map_of (db_rosters t) (''g'', ''b'') \<noteq> None"
    unfolding rows ViewLists_def by simp_all
  then show ?thesis unfolding run snd_conv by blast
qed

end
