(* ===== verification/SyncKeeps.thy ===== *)
theory SyncKeeps
  imports ViewClaims
begin

section \<open>The sync stays in its group\<close>

text \<open>
  The writing operations of the sync as one type, and the interface \<open>group_syncs\<close>, which extends the
  relations of \<open>group_writes\<close> by what the sync needs of them: that writes of held changes respect
  them, and that they carry the invariant of the tables.
\<close>

subsection \<open>Relations the sync respects\<close>

locale group_syncs = group_writes +
  assumes R_shape: "R s t \<Longrightarrow> store_ok s \<Longrightarrow> store_ok t"
    and R_change: "sc_group_id c = g \<Longrightarrow> R s (s\<lparr>db_changes := om_put (change_key c) c (db_changes s)\<rparr>)"
    and R_dropped: "R s (s\<lparr>db_changes := fold (\<lambda>i. om_erase (g, i)) ids (db_changes s)\<rparr>)"
begin

lemma keeps_bind:
  assumes "after m (\<lambda>_. R s0) s" and "\<And>x t. R s0 t \<Longrightarrow> after (f x) (\<lambda>_. R s0) t"
  shows "after (State_Monad.bind m f) (\<lambda>_. R s0) s"
  using assms by (auto intro!: after_bind elim!: after_weaken)

lemma keeps_returns:
  "R s0 s \<Longrightarrow> after (ret_ok x) (\<lambda>_. R s0) s" "R s0 s \<Longrightarrow> after (ret_err e) (\<lambda>_. R s0) s"
  "R s0 s \<Longrightarrow> after (State_Monad.return r) (\<lambda>_. R s0) s"
  by (auto intro: after_ret_ok after_ret_err after_return R_clean)

lemma keeps_UpsertGroupChange:
  assumes "R s0 s" "sc_group_id c = g" shows "after (UpsertGroupChange c) (\<lambda>_. R s0) s"
  unfolding UpsertGroupChange_def
  by (rule after_db_write) (use R_trans [OF assms(1) R_change [OF assms(2)]] assms(1) in \<open>auto intro: R_clean\<close>)

lemma keeps_DeleteGroupChanges:
  assumes "R s0 s" shows "after (DeleteGroupChanges g ids) (\<lambda>_. R s0) s"
  unfolding DeleteGroupChanges_def
  by (intro after_if keeps_returns assms, rule after_db_write)
    (use R_trans [OF assms R_dropped] assms in \<open>auto intro: R_clean\<close>)

lemma keeps_reads:
  assumes "R s0 s"
  shows "after (MetadataOf g') (\<lambda>_. R s0) s" "after (LoadMetadata g') (\<lambda>_. R s0) s" "after (ListGroupChanges g') (\<lambda>_. R s0) s"
    "after (ListMembers g') (\<lambda>_. R s0) s" "after (HeldChanges js g') (\<lambda>_. R s0) s" "after (CopyState cr js g') (\<lambda>_. R s0) s"
    "after (FindMember g' i) (\<lambda>_. R s0) s" "after (IsMember g' i) (\<lambda>_. R s0) s"
  using assms
  by (auto simp: CopyState_def intro!: after_MetadataOf after_LoadMetadata after_ListGroupChanges after_ListMembers
      after_HeldChanges after_FindMember after_IsMember after_bind after_return intro: R_clean)

text \<open>A row the store lists for the group is the group's.\<close>

lemma listed_change:
  assumes "R s0 s" "store_ok s0" "row \<in> set (rows_of g (db_changes s))"
  shows "sc_group_id row = g"
proof -
  have keyed: "keyed_by change_key (db_changes s)" by (rule store_ok_tables(3) [OF R_shape [OF assms(1,2)]])
  then have ok: "om_ok (db_changes s)" by (simp add: keyed_by_def)
  obtain k where "map_of (db_changes s) (g, k) = Some row" using in_rows_of [OF ok, of row g] assms(3) by blast
  from keyed_row [OF keyed this] show ?thesis by simp
qed

lemma keeps_drop_rows: "R s0 s \<Longrightarrow> after (drop_rows g view ms gone) (\<lambda>_. R s0) s"
  by (induction ms arbitrary: gone s) (auto intro!: after_if keeps_then keeps_RemoveMember keeps_returns)

lemma keeps_put_rows: "R s0 s \<Longrightarrow> after (put_rows g current ms joined) (\<lambda>_. R s0) s"
  by (induction ms arbitrary: joined s)
    (auto simp: Let_def intro!: after_if after_option keeps_then keeps_UpsertMember keeps_returns)

lemma keeps_mark_lines:
  "R s0 s \<Longrightarrow> \<forall>row \<in> set rows. sc_group_id row = g \<Longrightarrow> after (mark_lines js view rows newly) (\<lambda>_. R s0) s"
  by (induction rows arbitrary: newly s)
    (auto intro!: after_option keeps_then keeps_UpsertGroupChange keeps_returns)

lemma keeps_WriteMetadata: "R s0 s \<Longrightarrow> after (WriteMetadata g st view applied) (\<lambda>_. R s0) s"
  unfolding WriteMetadata_def Let_def
  by (rule after_roe_then, rule after_MetadataOf)
    (auto intro!: after_if keeps_then keeps_UpsertMetadata keeps_returns R_clean simp: view_metadata_def Let_def)

lemma keeps_ApplyView:
  assumes "R s0 s" "store_ok s0" shows "after (ApplyView cr js g cards now) (\<lambda>_. R s0) s"
  unfolding ApplyView_def SettleHeld_def WriteRows_def Let_def
proof (rule keeps_then [OF keeps_reads(1) [OF assms(1)]], rule after_roe_then, rule after_ListGroupChanges, goal_cases)
  case (1 md t e)
  then show ?case by (simp add: R_clean)
next
  case (2 md t n)
  have "\<forall>row \<in> set (take n (rows_of g (db_changes t))). sc_group_id row = g"
    using listed_change [OF 2 assms(2)] by (meson in_set_takeD)
  then show ?case
    using 2 unfolding sum.case after_clean
    by (intro after_if after_option keeps_returns keeps_then keeps_DeleteGroupChanges keeps_mark_lines keeps_reads
        keeps_drop_rows keeps_put_rows keeps_WriteMetadata) auto
qed

lemma keeps_KeepCopy:
  assumes "R s0 s" "c_group_id c = g" "\<forall>row \<in> set_option had. sc_group_id row = g"
  shows "after (KeepCopy js c i had now shown outcome) (\<lambda>_. R s0) s"
  unfolding KeepCopy_def Let_def UpsertOrNotKept_def
  using assms by (auto intro!: after_option after_if keeps_then keeps_bind keeps_UpsertGroupChange keeps_returns)

lemma keeps_HoldChange:
  assumes "R s0 s" "store_ok s0" "c_group_id c = g"
  shows "after (HoldChange cr js c cards now shown) (\<lambda>_. R s0) s"
proof -
  have kept: "after (roe_then (ListGroupChanges (c_group_id c)) (\<lambda>stored.
      let had = List.find (\<lambda>row. sc_change_id row = cc_id checked) stored in
      if had = None \<and> length stored \<ge> kMaxHeldChanges then ret_ok Refused
      else KeepCopy js c (cc_id checked) had now shown (if cc_proof checked = Proved then HeldProved else HeldNoCard)))
      (\<lambda>_. R s0) t" if "R s0 t" for t checked
    unfolding assms(3) Let_def
  proof (rule after_roe_then, rule after_ListGroupChanges, goal_cases)
    case (2 n)
    have "\<forall>row \<in> set (take n (rows_of g (db_changes t))). sc_group_id row = g"
      using listed_change [OF that assms(2)] by (meson in_set_takeD)
    then have "\<forall>row \<in> set_option (List.find (\<lambda>row. sc_change_id row = cc_id checked)
        (take n (rows_of g (db_changes t)))). sc_group_id row = g"
      using find_in by fastforce
    then show ?case
      unfolding sum.case after_clean by (intro after_if keeps_returns keeps_KeepCopy that assms(3))
  qed (simp add: that R_clean)
  show ?thesis
    unfolding HoldChange_def
    by (intro kept keeps_then [OF keeps_reads(2) [OF assms(1)]] after_if after_list keeps_returns)
qed

lemma keeps_hold_all:
  "R s0 s \<Longrightarrow> store_ok s0 \<Longrightarrow> \<forall>c \<in> set cs. c_group_id c = g \<Longrightarrow> after (hold_all cr js cs cards now shown) (\<lambda>_. R s0) s"
  by (induction cs arbitrary: s) (auto intro!: keeps_then keeps_HoldChange keeps_returns)

lemma with_card_group [simp]: "c_group_id (with_card m c) = c_group_id c"
  by (auto simp: with_card_def split: option.split)

lemma keeps_HoldCarried:
  "R s0 s \<Longrightarrow> store_ok s0 \<Longrightarrow> \<forall>c \<in> set cs. c_group_id c = g \<Longrightarrow> after (HoldCarried cr js cs cards now shown) (\<lambda>_. R s0) s"
  unfolding HoldCarried_def by (rule keeps_hold_all) auto

lemma keeps_ReceiveChange:
  assumes "R s0 s" "store_ok s0" "c_group_id c = g"
  shows "after (ReceiveChange cr js c cards now) (\<lambda>_. R s0) s"
  unfolding ReceiveChange_def assms(3)
  by (intro keeps_then keeps_HoldChange after_if keeps_returns keeps_ApplyView assms)

lemma keeps_KeepStatement:
  assumes "R s0 s" "s_group_id st = g" shows "after (KeepStatement cr js st) (\<lambda>_. R s0) s"
  unfolding KeepStatement_def assms(2)
  by (intro after_if keeps_returns assms(1), rule after_roe_then, rule after_MetadataOf)
    (auto intro!: after_if keeps_then keeps_UpsertMetadata keeps_returns R_clean assms(1))

lemma keeps_KeepAndCatchUp:
  assumes "R s0 s" "store_ok s0" "s_group_id st = g"
  shows "after (KeepAndCatchUp cr js st cards now) (\<lambda>_. R s0) s"
  unfolding KeepAndCatchUp_def assms(3)
  by (intro keeps_then keeps_KeepStatement after_if keeps_returns keeps_ApplyView assms)

lemma keeps_BeginCatchUp: "R s0 s \<Longrightarrow> after (BeginCatchUp cr js uuid g now i) (\<lambda>_. R s0) s"
  unfolding BeginCatchUp_def
  by (rule after_roe_then, rule after_MetadataOf)
    (auto intro!: after_if keeps_bind keeps_reads keeps_then keeps_UpsertMetadata keeps_returns R_clean)

lemma keeps_BeginCheck: "R s0 s \<Longrightarrow> after (BeginCheck cr js uuid g local now) (\<lambda>_. R s0) s"
  unfolding BeginCheck_def Let_def
  by (rule after_roe_then, rule after_MetadataOf)
    (auto intro!: after_if keeps_bind keeps_reads keeps_then keeps_UpsertMetadata keeps_returns R_clean)

lemma keeps_TakeReply:
  assumes "R s0 s" "store_ok s0" "rp_group_id reply = g" "s_group_id st = g" "\<forall>c \<in> set (rp_changes reply). c_group_id c = g"
  shows "after (TakeReply cr js reply st local cards now) (\<lambda>_. R s0) s"
  unfolding TakeReply_def assms(3)
  by (intro keeps_then [OF keeps_KeepStatement] keeps_then [OF keeps_HoldCarried] keeps_then [OF keeps_ApplyView] after_option
      keeps_returns keeps_bind [OF keeps_reads(1)] assms)

lemma keeps_settle_state: "R s0 s \<Longrightarrow> after (settle_state g state) (\<lambda>_. R s0) s"
  unfolding settle_state_def
  by (rule after_roe_then, rule after_MetadataOf) (auto intro!: keeps_then keeps_UpsertMetadata keeps_returns R_clean)

lemma keeps_ApplyReply:
  assumes "R s0 s" "store_ok s0" "rp_group_id reply = g" "\<forall>st \<in> set_option (rp_statement reply). s_group_id st = g"
    "\<forall>c \<in> set (rp_changes reply). c_group_id c = g"
  shows "after (ApplyReply cr js reply local replier cards now) (\<lambda>_. R s0) s"
  unfolding ApplyReply_def assms(3) ApplyDissolvedStatement_def
  by (intro keeps_then [OF keeps_reads(1) [OF assms(1)]] after_if after_option after_sum after_pair keeps_returns
      keeps_bind [OF keeps_dissolve] keeps_then [OF keeps_TakeReply] keeps_then [OF keeps_settle_state])
    (use assms(2-5) in auto)

end

subsection \<open>The calls of the sync\<close>

datatype sync_call =
    ViewCall string
  | HoldCall group_change bool
  | CarriedCall string "group_change list" bool
  | ReceiveCall group_change
  | KeepCall statement
  | KeepCatchUpCall statement
  | CatchUpCall string string string
  | CheckCall string string string
  | ReplyCall roster_reply string string

fun sync_perform :: "crypto \<Rightarrow> roster_json \<Rightarrow> card_lookup \<Rightarrow> time_ms \<Rightarrow> sync_call \<Rightarrow> unit store_op" where
  "sync_perform cr js cards now (ViewCall g) = roe_then (ApplyView cr js g cards now) (\<lambda>_. ret_ok ())"
| "sync_perform cr js cards now (HoldCall c shown) = roe_then (HoldChange cr js c cards now shown) (\<lambda>_. ret_ok ())"
| "sync_perform cr js cards now (CarriedCall g cs shown) = HoldCarried cr js cs cards now shown"
| "sync_perform cr js cards now (ReceiveCall c) = roe_then (ReceiveChange cr js c cards now) (\<lambda>_. ret_ok ())"
| "sync_perform cr js cards now (KeepCall st) = roe_then (KeepStatement cr js st) (\<lambda>_. ret_ok ())"
| "sync_perform cr js cards now (KeepCatchUpCall st) = roe_then (KeepAndCatchUp cr js st cards now) (\<lambda>_. ret_ok ())"
| "sync_perform cr js cards now (CatchUpCall uuid g i) = roe_then (BeginCatchUp cr js uuid g now i) (\<lambda>_. ret_ok ())"
| "sync_perform cr js cards now (CheckCall uuid g local) = roe_then (BeginCheck cr js uuid g local now) (\<lambda>_. ret_ok ())"
| "sync_perform cr js cards now (ReplyCall reply local replier) =
     roe_then (ApplyReply cr js reply local replier cards now) (\<lambda>_. ret_ok ())"

text \<open>
  The group a call is about. What carries several records carries them for one group: the decoders
  of a reply and of a bundle refuse or skip what names another (\<open>DecodeReply\<close>, \<open>ChangesIn\<close>).
\<close>

fun call_group :: "sync_call \<Rightarrow> string" where
  "call_group (ViewCall g) = g"
| "call_group (HoldCall c shown) = c_group_id c"
| "call_group (CarriedCall g cs shown) = g"
| "call_group (ReceiveCall c) = c_group_id c"
| "call_group (KeepCall st) = s_group_id st"
| "call_group (KeepCatchUpCall st) = s_group_id st"
| "call_group (CatchUpCall uuid g i) = g"
| "call_group (CheckCall uuid g local) = g"
| "call_group (ReplyCall reply local replier) = rp_group_id reply"

fun one_group :: "sync_call \<Rightarrow> bool" where
  "one_group (CarriedCall g cs shown) = (\<forall>c \<in> set cs. c_group_id c = g)"
| "one_group (ReplyCall reply local replier) =
     ((\<forall>st \<in> set_option (rp_statement reply). s_group_id st = rp_group_id reply)
      \<and> (\<forall>c \<in> set (rp_changes reply). c_group_id c = rp_group_id reply))"
| "one_group _ = True"

context group_syncs
begin

lemma keeps_sync:
  assumes "R s0 s" "store_ok s0" "call_group call = g" "one_group call"
  shows "after (sync_perform cr js cards now call) (\<lambda>_. R s0) s"
  using assms
  by (cases call)
    (auto intro!: keeps_then keeps_ApplyView keeps_HoldChange keeps_HoldCarried keeps_ReceiveChange keeps_KeepStatement
      keeps_KeepAndCatchUp keeps_BeginCatchUp keeps_BeginCheck keeps_ApplyReply keeps_returns)

end

text \<open>The tables keep their shape and the other groups are left alone.\<close>

definition within :: "string \<Rightarrow> roster_store \<Rightarrow> roster_store \<Rightarrow> bool" where
  "within g s t \<longleftrightarrow> (store_ok s \<longrightarrow> store_ok t) \<and> same_elsewhere g s t"

lemma within_writes:
  "within g s s" "within g s (s\<lparr>db_faults := fs\<rparr>)" "within g s (NotifyChanged c s)"
  "within g s (s\<lparr>db_rosters := om_put (g, rm_identity m) m (db_rosters s)\<rparr>)"
  "within g s (s\<lparr>db_rosters := om_erase (g, i) (db_rosters s)\<rparr>)"
  "md_group_id md = g \<Longrightarrow> within g s (s\<lparr>db_metadata := om_put g md (db_metadata s)\<rparr>)"
  "within g s (ended_store g ending s)"
  by (simp_all add: within_def shape.R_refl elsewhere.R_refl elsewhere.R_faults elsewhere.R_notice elsewhere.R_member
      elsewhere.R_gone elsewhere.R_metadata elsewhere.R_ended)

interpretation in_group: group_syncs "within g" g
proof unfold_locales
  show "within g s u" if "within g s t" "within g t u" for s t u
    using that elsewhere.R_trans unfolding within_def by blast
  show "within g s (s\<lparr>db_invites := map (\<lambda>(n, i). (n, if P n i then i\<lparr>pi_status := st\<rparr> else i)) (db_invites s)\<rparr>)"
    if "st \<noteq> Pending" "\<And>n i. map_of (db_invites s) n = Some i \<Longrightarrow> P n i \<Longrightarrow> pi_group_id i = g" for s P st
    using elsewhere.R_status [OF that(1), of s P g] that(2) by (auto simp: within_def)
  show "within g s (s\<lparr>db_changes := om_put (change_key c) c (db_changes s)\<rparr>)" if "sc_group_id c = g" for s c
    using that by (simp add: within_def same_elsewhere_def)
  show "within g s (s\<lparr>db_changes := fold (\<lambda>i. om_erase (g, i)) ids (db_changes s)\<rparr>)" for s ids
    by (simp add: within_def same_elsewhere_def rows_of_fold_erase)
qed (auto simp: within_writes, simp add: within_def)

text \<open>
  C18: the sync stays in its group. Whatever call of it runs (a change held or received, a bundle, a
  statement kept, a check or catch-up begun, a reply applied) and whatever fails on the way, the
  store's tables keep their shape, and no row of another group changes: not its metadata, members,
  held changes or conversation, no invite of another group, and no numbering.
\<close>

theorem sync_stays_in_its_group:
  assumes "store_ok s" and "one_group call"
    and "run_state (sync_perform cr js cards now call) s = (r, t)"
  shows "store_ok t \<and> same_elsewhere (call_group call) s t"
proof -
  have "after (sync_perform cr js cards now call) (\<lambda>_. within (call_group call) s) s"
    using assms(1,2) by (intro in_group.keeps_sync in_group.R_refl) simp_all
  from afterD [OF this assms(3)] have "within (call_group call) s (clean t)" .
  then show ?thesis using assms(1) by (simp add: within_def same_elsewhere_def)
qed

theorem sync_stays_in_its_group_witness:
  "store_ok (snd (run_state (sync_perform sample_crypto sample_reading (\<lambda>_. None) 10
     (CheckCall ''u'' ''g'' ''ann'')) sample_following))"
proof -
  have "one_group (CheckCall ''u'' ''g'' ''ann'')" by simp
  from sync_stays_in_its_group [OF sample_following_ok this surjective_pairing] show ?thesis by blast
qed

end
