(* ===== verification/SyncClaims.thy ===== *)
theory SyncClaims
  imports SyncKeeps
begin

section \<open>What a statement and a reply may do\<close>

text \<open>
  The claims on authority and bounds: a statement is kept only when it verifies for the owner we know
  and wins; a member check is settled only by a reply to it whose word is the owner's; the changes a
  group holds stay within their bound.
\<close>

subsection \<open>Statements kept\<close>

text \<open>Against the statement held, a candidate that wins.\<close>

lemma CandidateWins_cases:
  "CandidateWins (Some h) st \<Longrightarrow>
    (s_owner_signature st = s_owner_signature h \<and> s_roster_epoch st = s_roster_epoch h)
    \<or> (\<not> OwnerHandedOn (s_owner_chain h @ s_owner_chain st) st
        \<and> (s_roster_epoch h < s_roster_epoch st \<or> OwnerHandedOn (s_owner_chain h @ s_owner_chain st) h))"
  by (auto simp: CandidateWins_def Pick_def split: if_splits)

definition supersedes :: "statement option \<Rightarrow> statement \<Rightarrow> bool" where
  "supersedes latest st \<longleftrightarrow>
     (case latest of None \<Rightarrow> True
      | Some h \<Rightarrow> (s_owner_signature st = s_owner_signature h \<and> s_roster_epoch st = s_roster_epoch h)
          \<or> (\<not> OwnerHandedOn (s_owner_chain h @ s_owner_chain st) st
              \<and> (s_roster_epoch h < s_roster_epoch st \<or> OwnerHandedOn (s_owner_chain h @ s_owner_chain st) h)))"

lemma CandidateWins_supersedes: "CandidateWins latest st \<Longrightarrow> supersedes latest st"
  by (cases latest) (simp_all add: supersedes_def CandidateWins_cases)

definition statement_entitled :: "crypto \<Rightarrow> roster_json \<Rightarrow> group_metadata \<Rightarrow> statement \<Rightarrow> bool" where
  "statement_entitled cr js md st \<longleftrightarrow> \<not> s_dissolved st \<and> md_sync_state md \<noteq> Dissolved
     \<and> Verify cr st (md_owner md) = Inr () \<and> supersedes (Held js md) st"

definition statement_stored :: "roster_json \<Rightarrow> group_metadata \<Rightarrow> statement \<Rightarrow> group_metadata \<Rightarrow> bool" where
  "statement_stored js md st md' \<longleftrightarrow> md_statement_json md' = js_statement js st \<and> md_preset md' = s_preset st
     \<and> md_owner md' = md_owner md \<and> md_roster_epoch md' = md_roster_epoch md \<and> md_title md' = md_title md
     \<and> md_title_version md' = md_title_version md \<and> md_sync_state md' = md_sync_state md"

lemma after_KeepStatement:
  "after (KeepStatement cr js st) (\<lambda>r t.
     if r = Inr True
     then \<exists>md md'. map_of (db_metadata s) (s_group_id st) = Some md \<and> statement_entitled cr js md st
       \<and> map_of (db_metadata t) (s_group_id st) = Some md' \<and> statement_stored js md st md'
       \<and> db_rosters t = db_rosters s \<and> db_changes t = db_changes s
     else t = clean s) s"
  unfolding KeepStatement_def
proof (intro after_if after_ret_err, goal_cases)
  case 2
  show ?case
  proof (rule after_roe_then, rule after_MetadataOf, goal_cases)
    case (2 md epoch)
    show ?case
      unfolding sum.case after_clean
    proof (intro after_if after_ret_ok, goal_cases)
      case 2
      show ?case
      proof (rule after_roe_then, rule after_return, cases "Verify cr st (md_owner md)", goal_cases)
        case (2 u)
        with \<open>\<not> s_dissolved st\<close> \<open>map_of _ _ = Some md\<close> \<open>md_sync_state _ \<noteq> Dissolved\<close> show ?case
          by (auto simp: UpsertMetadata_def NotifyChanged_def statement_entitled_def statement_stored_def
              intro!: after_if after_ret_ok after_roe_then after_db_write dest: CandidateWins_supersedes)
      qed simp
    qed simp
  qed simp
qed simp

text \<open>
  C8: only the owner's word becomes the roster. \<open>KeepStatement\<close> changes the group only by keeping a
  statement that verifies for the owner this device knows (signed by that owner, or by one its signed
  transfers lead to), does not end the group, and supersedes the one held: its owner has not handed
  the group on, and it is later, or the one held is by an owner who has. What it writes is the
  statement's text and preset; an error or a refusal leaves the store untouched.
\<close>

theorem kept_statement_is_owners:
  assumes "run_state (KeepStatement cr js st) s = (r, t)"
  shows "if r = Inr True
    then \<exists>md md'. map_of (db_metadata s) (s_group_id st) = Some md \<and> statement_entitled cr js md st
      \<and> map_of (db_metadata t) (s_group_id st) = Some md' \<and> statement_stored js md st md'
      \<and> db_rosters t = db_rosters s \<and> db_changes t = db_changes s
    else clean t = clean s"
  using afterD [OF after_KeepStatement assms] by (auto split: if_splits)

theorem kept_statement_is_owners_witness:
  "\<exists>md. map_of (db_metadata sample_following) ''g'' = Some md \<and> statement_entitled sample_crypto sample_json md sample_statement"
proof -
  let ?t = "snd (run_state (KeepStatement sample_crypto sample_json sample_statement) sample_following)"
  have "s_group_id sample_statement = ''g''" "\<not> s_dissolved sample_statement"
    by (simp_all add: sample_statement_def empty_statement_def)
  note st = this
  have "run_state (KeepStatement sample_crypto sample_json sample_statement) sample_following = (Inr True, ?t)"
    by (simp add: KeepStatement_def st run_rules calm_runs sample_following_fields sample_metadata_def
        sample_statement_verifies CandidateWins_def Held_def sample_json_def NotifyChanged_def)
  from kept_statement_is_owners [OF this] show ?thesis unfolding st(1) by auto
qed

subsection \<open>Replies\<close>

lemma unapplied_dissolve:
  "after (ApplyDissolved cr js st local actor) (\<lambda>r t. (case r of Inl _ \<Rightarrow> False | Inr res \<Rightarrow> da_applied res) \<or> t = clean s) s"
  unfolding ApplyDissolved_def
proof (rule after_roe_then, rule after_LoadMetadata, goal_cases)
  case (3 md epoch)
  have member: "after (if local = [] then ret_ok False else IsMember (s_group_id st) local) Q s"
    if "\<And>e. Q (Inl e) (clean s)" "\<And>b. Q (Inr b) (clean s)" for Q
    by (rule after_if) (use that in \<open>auto intro!: after_ret_ok after_IsMember\<close>)
  show ?case
    unfolding sum.case option.case after_clean EndGroupInRoster_def
  proof (intro after_if after_ret_ok, goal_cases)
    case 2
    show ?case
    proof (rule after_roe_then, rule member, goal_cases)
      case (2 b)
      show ?case
        unfolding sum.case after_clean
        by (auto split: sum.split roe_error.split intro!: after_if after_ret_ok after_ret_err after_roe_then after_EndGroup)
    qed simp
  qed simp
qed (auto intro: after_ret_ok)

lemma dissolve_outcome:
  assumes "store_ok s"
  shows "after (ApplyDissolvedStatement cr js st local)
    (\<lambda>r t. case r of
      Inl _ \<Rightarrow> t = clean s
    | Inr res \<Rightarrow> if da_applied res
        then dissolve_entitled cr js s st local \<and> (\<exists>md'. map_of (db_metadata t) (s_group_id st) = Some md' \<and> md_sync_state md' = Dissolved)
        else t = clean s) s"
proof -
  have entitled: "after (ApplyDissolved cr js st local None) (\<lambda>r t. (\<exists>res. r = Inr res \<and> da_applied res) \<longrightarrow> dissolve_entitled cr js s st local) s"
  proof (cases "dissolve_entitled cr js s st local")
    case False
    then show ?thesis
      by (intro after_weaken [OF not_entitled_dissolve]) auto
  qed (simp add: after_True)
  show ?thesis
    unfolding ApplyDissolvedStatement_def
    by (rule after_weaken [OF after_conj [OF after_conj [OF unapplied_dissolve entitled] ended_dissolve [OF assms]]])
      (auto simp: is_ended_def split: sum.splits option.splits)
qed

text \<open>
  When a reply may settle the group's check: it answers the open request, and its word is the owner's.
\<close>

definition awaited :: "group_metadata \<Rightarrow> roster_reply \<Rightarrow> bool" where
  "awaited md reply \<longleftrightarrow> md_sync_state md \<noteq> Dissolved \<and> md_sync_request_id md \<noteq> []
     \<and> rp_request_id reply = md_sync_request_id md"

definition owners_word :: "crypto \<Rightarrow> group_metadata \<Rightarrow> roster_reply \<Rightarrow> string \<Rightarrow> bool" where
  "owners_word cr md reply replier \<longleftrightarrow>
     (case rp_statement reply of
        None \<Rightarrow> rp_removed reply \<and> replier = md_owner md
      | Some st \<Rightarrow> \<not> s_dissolved st \<and> Verify cr st (md_owner md) = Inr ())"

text \<open>The state the group is in.\<close>

definition state_in :: "roster_store \<Rightarrow> string \<Rightarrow> group_sync_state \<Rightarrow> bool" where
  "state_in s g state \<longleftrightarrow> (case map_of (db_metadata s) g of None \<Rightarrow> False | Some md \<Rightarrow> md_sync_state md = state)"

lemma state_in_clean [simp]: "state_in (s\<lparr>db_faults := fs\<rparr>) g state = state_in s g state"
  by (simp add: state_in_def)

fun settled_as :: "reply_outcome \<Rightarrow> group_sync_state" where
  "settled_as OutActive = Active"
| "settled_as OutRemoved = Removed"
| "settled_as OutDissolved = Dissolved"
| "settled_as Ignored = Checking"

text \<open>What a reply that was applied had to show, by its outcome.\<close>

definition reply_entitled ::
  "crypto \<Rightarrow> roster_json \<Rightarrow> roster_store \<Rightarrow> roster_reply \<Rightarrow> string \<Rightarrow> string \<Rightarrow> reply_applied \<Rightarrow> bool" where
  "reply_entitled cr js s reply local replier ra \<longleftrightarrow>
     (\<exists>md. map_of (db_metadata s) (rp_group_id reply) = Some md \<and> awaited md reply
       \<and> (case ra_outcome ra of
            Ignored \<Rightarrow> False
          | OutActive \<Rightarrow> rp_statement reply \<noteq> None \<and> owners_word cr md reply replier
          | OutRemoved \<Rightarrow> owners_word cr md reply replier
          | OutDissolved \<Rightarrow> (\<exists>st. rp_statement reply = Some st \<and> dissolve_entitled cr js s st local)))"

definition reply_authorised :: "crypto \<Rightarrow> roster_store \<Rightarrow> roster_reply \<Rightarrow> string \<Rightarrow> bool" where
  "reply_authorised cr s reply replier \<longleftrightarrow>
     (\<exists>md. map_of (db_metadata s) (rp_group_id reply) = Some md \<and> awaited md reply \<and> owners_word cr md reply replier)"

text \<open>With a view computed, the check says what the view says of us.\<close>

definition says_the_view :: "string \<Rightarrow> reply_applied \<Rightarrow> bool" where
  "says_the_view local ra \<longleftrightarrow>
     (case ra_applied ra of None \<Rightarrow> True | Some applied \<Rightarrow>
        (case va_view applied of None \<Rightarrow> True | Some view \<Rightarrow> ViewLists view local \<longleftrightarrow> ra_outcome ra = OutActive))"

lemma after_settle_state:
  assumes "\<And>e t. Q (Inl e) t"
    and "\<And>t. state_in t g state \<Longrightarrow> Q (Inr (if state = Removed then OutRemoved else OutActive)) t"
  shows "after (settle_state g state) Q s"
  unfolding settle_state_def UpsertMetadata_def NotifyChanged_def
proof (rule after_roe_then, rule after_MetadataOf, goal_cases)
  case (2 md epoch)
  show ?case
    unfolding sum.case after_clean
    by (rule after_roe_then, rule after_db_write)
      (simp add: assms(1), unfold sum.case, rule after_ret_ok, rule assms(2), simp add: state_in_def)
qed (simp add: assms(1))

lemma after_TakeReply:
  assumes "\<And>e t. Q (Inl e) t"
    and "\<And>listed applied t. (case va_view applied of None \<Rightarrow> True | Some view \<Rightarrow> listed = ViewLists view local) \<Longrightarrow>
      Q (Inr (listed, applied)) t"
  shows "after (TakeReply cr js reply st local cards now) Q s"
  unfolding TakeReply_def
proof (rule after_roe_then, rule after_True, goal_cases)
  case (1 r t)
  have "after (ApplyView cr js (rp_group_id reply) cards now) (\<lambda>r' t'. case r' of Inl e \<Rightarrow> Q (Inl e) (clean t') | Inr applied \<Rightarrow>
      after (case va_view applied of
             Some view \<Rightarrow> ret_ok (ViewLists view local, applied)
           | None \<Rightarrow> do {
               metadata \<leftarrow> MetadataOf (rp_group_id reply);
               ret_ok (case metadata of
                   Inr md \<Rightarrow> (case Held js md of None \<Rightarrow> True | Some h \<Rightarrow> StatementLists h local)
                 | Inl _ \<Rightarrow> True, applied)
             }) Q t') u" for u
    by (rule after_True) (auto split: sum.split intro!: assms after_option after_ret_ok after_bind after_MetadataOf)
  note view = after_roe_then [OF this]
  show ?case
  proof (cases r)
    case (Inr b)
    show ?thesis
      unfolding Inr sum.case
    proof (rule after_roe_then, rule after_True, goal_cases)
      case (1 r' t')
      show ?case by (cases r') (simp_all add: assms(1) view)
    qed
  qed (simp add: assms(1))
qed

lemma after_ApplyReply:
  assumes "store_ok s" "\<forall>st \<in> set_option (rp_statement reply). s_group_id st = rp_group_id reply"
  shows "after (ApplyReply cr js reply local replier cards now) (\<lambda>r t. case r of
     Inl _ \<Rightarrow> t = clean s \<or> reply_authorised cr s reply replier
   | Inr ra \<Rightarrow> if ra_outcome ra = Ignored then t = clean s
     else reply_entitled cr js s reply local replier ra \<and> state_in t (rp_group_id reply) (settled_as (ra_outcome ra))
       \<and> says_the_view local ra) s"
  unfolding ApplyReply_def
proof (rule after_roe_then, rule after_MetadataOf, goal_cases)
  case (2 md epoch)
  note md = this
  show ?case
    unfolding sum.case after_clean
  proof (intro after_if after_ret_ok, goal_cases)
    case 2
    then have here: "awaited md reply" by (simp add: awaited_def)
    show ?case
    proof (rule after_option, goal_cases)
      case 1
      then show ?case using md here
        by (auto intro!: after_if after_ret_ok after_roe_then after_settle_state
            simp: outcome_only_def reply_entitled_def reply_authorised_def owners_word_def says_the_view_def)
    next
      case (2 st)
      then have group: "s_group_id st = rp_group_id reply" using assms(2) by simp
      show ?case
      proof (rule after_if, goal_cases)
        case 1
        show ?case
          by (rule after_bind, rule after_weaken [OF dissolve_outcome [OF assms(1)]])
            (use md here 2 group in \<open>auto intro!: after_ret_ok simp: outcome_only_def reply_entitled_def says_the_view_def state_in_def
              split: sum.splits if_splits\<close>)
      next
        case 2
        then have live: "\<not> s_dissolved st" by simp
        show ?case
        proof (rule after_sum, goal_cases)
          case (2 u)
          then show ?case using md here live \<open>rp_statement reply = Some st\<close>
            by (intro after_roe_then after_TakeReply)
              (auto intro!: after_roe_then after_settle_state after_ret_ok split: option.splits
                simp: outcome_only_def reply_entitled_def reply_authorised_def owners_word_def says_the_view_def)
        qed (simp add: after_ret_ok outcome_only_def)
      qed
    qed
  qed (simp add: outcome_only_def)
qed simp

text \<open>
  C9: a member check is settled by the owner's word only. A reply that is ignored leaves the store as
  it was. One that is not ignored answered the request that is open, and: it made us active or removed
  by a statement verified for the owner we know (then the roster computed from it lists us, or does
  not), or removed by the owner's own reply without a statement; or it ended the group by a dissolve
  its owner signed. The group is then in the state the outcome names. And when a call of the database
  fails half-way and an error is returned, the store is as it was too, unless the reply answered the
  open request and carried the owner's word (a statement verified for the owner we know, or the owner's
  own reply that we are out).
\<close>

theorem reply_settles_by_owners_word:
  assumes "store_ok s" and "\<forall>st \<in> set_option (rp_statement reply). s_group_id st = rp_group_id reply"
    and "run_state (ApplyReply cr js reply local replier cards now) s = (r, t)"
  shows "case r of
      Inl _ \<Rightarrow> clean t = clean s \<or> reply_authorised cr s reply replier
    | Inr ra \<Rightarrow> if ra_outcome ra = Ignored then clean t = clean s
        else reply_entitled cr js s reply local replier ra
          \<and> state_in t (rp_group_id reply) (settled_as (ra_outcome ra)) \<and> says_the_view local ra"
  using afterD [OF after_ApplyReply [OF assms(1,2)] assms(3)] by (auto split: sum.splits if_splits)

definition sample_told :: roster_reply where
  "sample_told = \<lparr>rp_group_id = ''g'', rp_request_id = ''q'', rp_statement = None, rp_removed = True, rp_changes = [],
     rp_more = False\<rparr>"

theorem reply_settles_by_owners_word_witness:
  "state_in (snd (run_state (ApplyReply sample_crypto sample_json sample_told ''ann'' ''z'' (\<lambda>_. None) 10) sample_following)) ''g'' Removed"
proof -
  let ?t = "snd (run_state (ApplyReply sample_crypto sample_json sample_told ''ann'' ''z'' (\<lambda>_. None) 10) sample_following)"
  have "\<forall>st \<in> set_option (rp_statement sample_told). s_group_id st = rp_group_id sample_told" by (simp add: sample_told_def)
  moreover have "run_state (ApplyReply sample_crypto sample_json sample_told ''ann'' ''z'' (\<lambda>_. None) 10) sample_following
      = (Inr (outcome_only OutRemoved), ?t)"
    by (simp add: ApplyReply_def settle_state_def sample_told_def run_rules calm_runs sample_following_fields sample_metadata_def
        NotifyChanged_def)
  ultimately have "state_in ?t (rp_group_id sample_told) (settled_as OutRemoved)"
    using reply_settles_by_owners_word [OF sample_following_ok] by (fastforce simp: outcome_only_def)
  then show ?thesis by (simp add: sample_told_def)
qed

end
