(* ===== verification/CalmStore.thy ===== *)
theory CalmStore
  imports SyncClaims
begin

section \<open>Runs in which no store call fails\<close>

text \<open>
  With no failure of the database to come (\<open>db_faults s = []\<close>) none comes: \<open>stays_calm\<close> says so of an
  operation. Every call only ever takes entries off the script of failures.
\<close>

definition stays_calm :: "(roster_store, 'a) state \<Rightarrow> bool" where
  "stays_calm m \<longleftrightarrow> (\<forall>s. db_faults s = [] \<longrightarrow> db_faults (snd (run_state m s)) = [])"

named_theorems calm_intros "rules for operations that bring no failure"

lemma calm_bind [calm_intros]: "stays_calm m \<Longrightarrow> (\<And>x. stays_calm (f x)) \<Longrightarrow> stays_calm (State_Monad.bind m f)"
  by (simp add: stays_calm_def State_Monad.bind_def case_prod_unfold)

lemma calm_return [calm_intros]: "stays_calm (State_Monad.return x)"
  by (simp add: stays_calm_def State_Monad.return_def)

lemma calm_ret [calm_intros]: "stays_calm (ret_ok x)" "stays_calm (ret_err m)"
  by (simp_all add: ret_ok_def ret_err_def calm_return)

lemma calm_roe_then [calm_intros]: "stays_calm m \<Longrightarrow> (\<And>x. stays_calm (f x)) \<Longrightarrow> stays_calm (roe_then m f)"
  unfolding roe_then_def by (rule calm_bind) (auto intro: calm_return split: sum.split)

lemma calm_get [calm_intros]: "stays_calm State_Monad.get"
  by (simp add: stays_calm_def State_Monad.get_def)

lemma calm_update: "(\<And>s. db_faults (u s) = db_faults s) \<Longrightarrow> stays_calm (State_Monad.update u)"
  by (simp add: stays_calm_def State_Monad.update_def State_Monad.bind_def State_Monad.get_def State_Monad.set_def)

lemma calm_if [calm_intros]: "stays_calm m \<Longrightarrow> stays_calm n \<Longrightarrow> stays_calm (if b then m else n)"
  by simp

lemma calm_option [calm_intros]:
  "stays_calm m \<Longrightarrow> (\<And>v. stays_calm (f v)) \<Longrightarrow> stays_calm (case x of None \<Rightarrow> m | Some v \<Rightarrow> f v)"
  by (cases x) simp_all

lemma calm_list [calm_intros]:
  "stays_calm m \<Longrightarrow> (\<And>y ys. stays_calm (f y ys)) \<Longrightarrow> stays_calm (case xs of [] \<Rightarrow> m | y # ys \<Rightarrow> f y ys)"
  by (cases xs) simp_all

lemma calm_next_fault: "stays_calm next_fault"
  by (simp add: stays_calm_def next_fault_def State_Monad.bind_def State_Monad.get_def State_Monad.return_def)

lemma calm_rows [calm_intros]: "stays_calm (db_rows q)"
  unfolding db_rows_def by (intro calm_intros calm_next_fault)

lemma calm_fault: "(\<And>f. stays_calm (m f)) \<Longrightarrow> stays_calm (State_Monad.bind next_fault m)"
  by (rule calm_bind [OF calm_next_fault])

lemma calm_write: "(\<And>s. db_faults (u s) = db_faults s) \<Longrightarrow> stays_calm (db_write failure u)"
  unfolding db_write_def by (rule calm_fault, split fault.split) (auto intro!: calm_intros calm_update)

lemma calm_write_unchecked: "(\<And>s. db_faults (u s) = db_faults s) \<Longrightarrow> stays_calm (db_write_unchecked u)"
  unfolding db_write_unchecked_def by (rule calm_fault, split fault.split) (auto intro!: calm_intros calm_update)

subsection \<open>The operations of the store and of the sync\<close>

lemma calm_store [calm_intros]:
  "stays_calm (LoadMetadata g)" "stays_calm (ListMembers g)" "stays_calm (FindMember g i)" "stays_calm (IsMember g i)"
  "stays_calm (ListGroupChanges g)" "stays_calm (MetadataOf g)" "stays_calm (LoadMetadataRequired g)"
  "stays_calm (UpsertMetadata md)" "stays_calm (UpsertMember g m)" "stays_calm (RemoveMember g i)"
  "stays_calm (UpsertGroupChange c)" "stays_calm (DeleteGroupChanges g ids)" "stays_calm (ClearGroupTarget g)"
  "stays_calm (HeldChanges js g)" "stays_calm (DeletePendingSend send)" "stays_calm (ListPendingSends g)"
  "stays_calm (ListOutboundPendingInvites g now)"
  unfolding LoadMetadata_def GetGroupSessionEpoch_def ListMembers_def FindMember_def IsMember_def ListGroupChanges_def
    MetadataOf_def LoadMetadataRequired_def UpsertMetadata_def UpsertMember_def RemoveMember_def UpsertGroupChange_def
    DeleteGroupChanges_def ClearGroupTarget_def HeldChanges_def DeletePendingSend_def ListPendingSends_def
    ListOutboundPendingInvites_def Let_def
  by (intro calm_intros calm_write calm_write_unchecked calm_update; simp add: NotifyChanged_def)+

lemma stays_drop_rows [calm_intros]: "stays_calm (drop_rows g view ms gone)"
  by (induction ms arbitrary: gone) (auto intro!: calm_intros)

lemma stays_put_rows [calm_intros]: "stays_calm (put_rows g current ms joined)"
  by (induction ms arbitrary: joined) (auto simp: Let_def intro!: calm_intros)

lemma stays_mark_lines [calm_intros]: "stays_calm (mark_lines js view rows newly)"
  by (induction rows arbitrary: newly) (auto intro!: calm_intros)

lemma stays_ApplyView [calm_intros]: "stays_calm (ApplyView cr js g cards now)"
  unfolding ApplyView_def SettleHeld_def WriteRows_def WriteMetadata_def Let_def by (intro calm_intros)

lemma calm_HoldChange [calm_intros]: "stays_calm (HoldChange cr js c cards now shown)"
  unfolding HoldChange_def KeepCopy_def UpsertOrNotKept_def Let_def by (intro calm_intros)

lemma calm_DraftLeave [calm_intros]: "stays_calm (DraftLeave cr js g local device now)"
  unfolding DraftLeave_def DraftOn_def by (intro calm_intros)

lemma calm_hold_all [calm_intros]: "stays_calm (hold_all cr js cs cards now shown)"
  by (induction cs) (auto intro!: calm_intros)

lemma calm_sum [calm_intros]:
  "(\<And>x. stays_calm (m x)) \<Longrightarrow> (\<And>x. stays_calm (f x)) \<Longrightarrow> stays_calm (case r of Inl x \<Rightarrow> m x | Inr x \<Rightarrow> f x)"
  by (cases r) simp_all

lemma calm_pair [calm_intros]: "(\<And>x y. stays_calm (f x y)) \<Longrightarrow> stays_calm (case p of (x, y) \<Rightarrow> f x y)"
  by (cases p) simp

lemma calm_error [calm_intros]: "(\<And>w. stays_calm (f w)) \<Longrightarrow> stays_calm (case x of Error w \<Rightarrow> f w)"
  by (cases x) simp

subsection \<open>The end of a group\<close>

lemma calm_RunBound: "(\<And>s. db_faults (u s) = db_faults s) \<Longrightarrow> stays_calm (RunBound what u)"
  unfolding RunBound_def by (rule calm_fault) (auto intro!: calm_intros calm_update)

lemma calm_keep_sends [calm_intros]: "stays_calm (keep_sends g sends)"
  by (induction sends) (auto intro!: calm_intros calm_RunBound)

lemma calm_end_statements [calm_intros]: "stays_calm (end_statements g ending)"
  unfolding end_statements_def group_open_def VoidPendingInvites_def
  by (intro calm_intros calm_RunBound calm_write) (simp_all add: void_pending_def set_status_def)

lemma calm_EndGroup [calm_intros]: "stays_calm (EndGroup g ending)"
  unfolding EndGroup_def rollback_def
  by (intro calm_intros calm_write calm_update) (auto simp: NotifyChanged_def intro!: calm_intros calm_update split: option.split)

subsection \<open>The calls of the sync\<close>

lemma calm_sync [calm_intros]:
  "stays_calm (HoldCarried cr js cs cards now shown)" "stays_calm (ReceiveChange cr js c cards now)"
  "stays_calm (KeepStatement cr js st)" "stays_calm (KeepAndCatchUp cr js st cards now)" "stays_calm (CopyState cr js g)"
  "stays_calm (BeginCatchUp cr js uuid g now i)" "stays_calm (BeginCheck cr js uuid g local now)"
  "stays_calm (TakeReply cr js reply st local cards now)" "stays_calm (settle_state g state)"
  "stays_calm (ApplyDissolvedStatement cr js st local)"
  unfolding HoldCarried_def ReceiveChange_def KeepAndCatchUp_def BeginCatchUp_def BeginCheck_def TakeReply_def
    settle_state_def KeepStatement_def CopyState_def ApplyDissolvedStatement_def ApplyDissolved_def EndGroupInRoster_def Let_def
  by (intro calm_intros)+

lemma calm_ApplyReply [calm_intros]: "stays_calm (ApplyReply cr js reply local replier cards now)"
  unfolding ApplyReply_def by (intro calm_intros)

lemma calm_sync_perform: "stays_calm (sync_perform cr js cards now call)"
  by (cases call; simp only: sync_perform.simps; intro calm_intros)

text \<open>The question whether somebody is a member.\<close>

lemma calm_IsMember: "db_faults s = [] \<Longrightarrow> run_state (IsMember g i) s = (Inr (is_member s g i), s)"
proof -
  assume calm: "db_faults s = []"
  have "List.find (\<lambda>m. rm_identity m = i) rows \<noteq> None \<longleftrightarrow> i \<in> rm_identity ` set rows" for rows
    by (induction rows) auto
  then show ?thesis by (simp add: IsMember_def run_rules calm_reads calm is_member_def)
qed

end
