(* ===== verification/HeldBound.thy ===== *)
theory HeldBound
  imports CalmStore
begin

section \<open>How many changes a group holds\<close>

text \<open>
  The bound \<open>kMaxHeldChanges\<close> on the changes a group holds, as an invariant of every call of the
  sync while the store's calls do not fail. (A failing read yields fewer rows than the group holds,
  and the check of \<open>HoldChange\<close> then counts those.)
\<close>

subsection \<open>Counting rows\<close>

definition held_count :: "roster_store \<Rightarrow> string \<Rightarrow> nat" where
  "held_count s g = length (rows_of g (db_changes s))"

lemma held_count_keys:
  assumes "keyed_by change_key (db_changes s)"
  shows "held_count s g = card {i. map_of (db_changes s) (g, i) \<noteq> None}"
proof -
  have "i \<in> sc_change_id ` set (rows_of g (db_changes s)) \<longleftrightarrow> map_of (db_changes s) (g, i) \<noteq> None" for i
    unfolding find_change_row [OF assms, symmetric] find_None_iff by auto
  then have "sc_change_id ` set (rows_of g (db_changes s)) = {i. map_of (db_changes s) (g, i) \<noteq> None}" by blast
  then show ?thesis
    using distinct_card [OF distinct_changes [OF assms, of g]] by (simp add: held_count_def)
qed

lemma finite_keys: "finite {i. map_of t (g, i) \<noteq> None}"
proof -
  have "{i. map_of t (g, i) \<noteq> None} \<subseteq> snd ` fst ` set t" by (force dest: map_of_SomeD)
  then show ?thesis by (rule finite_subset) simp
qed

lemma held_count_mono:
  assumes "keyed_by change_key (db_changes s)" "keyed_by change_key (db_changes t)"
    and "\<And>i. map_of (db_changes s) (g, i) = None \<Longrightarrow> map_of (db_changes t) (g, i) = None"
  shows "held_count t g \<le> held_count s g"
  unfolding held_count_keys [OF assms(1)] held_count_keys [OF assms(2)]
  by (rule card_mono [OF finite_keys], rule Collect_mono, rule impI, erule contrapos_nn, rule assms(3))

text \<open>The bound, with the tables' shape; and with no failure to come.\<close>

definition bounded :: "roster_store \<Rightarrow> bool" where
  "bounded s \<longleftrightarrow> store_ok s \<and> (\<forall>g. held_count s g \<le> kMaxHeldChanges)"

definition calm_bounded :: "roster_store \<Rightarrow> bool" where
  "calm_bounded s \<longleftrightarrow> bounded s \<and> db_faults s = []"

lemma bounded_same_changes: "db_changes t = db_changes s \<Longrightarrow> store_ok t \<Longrightarrow> bounded s \<Longrightarrow> bounded t"
  by (simp add: bounded_def held_count_def)

lemma bounded_notified [simp]: "bounded (NotifyChanged c s) = bounded s"
  by (simp add: bounded_def held_count_def) (simp add: NotifyChanged_def)

lemma bounded_fewer:
  assumes "bounded s" "store_ok t"
    and "\<And>g i. map_of (db_changes s) (g, i) = None \<Longrightarrow> map_of (db_changes t) (g, i) = None"
  shows "bounded t"
proof -
  have ok: "store_ok s" using assms(1) by (simp add: bounded_def)
  have "held_count t g \<le> held_count s g" for g
    by (rule held_count_mono [OF store_ok_tables(3) [OF ok] store_ok_tables(3) [OF assms(2)]]) (rule assms(3))
  with assms(1,2) show ?thesis unfolding bounded_def by (meson le_trans)
qed

lemma bounded_put:
  assumes "bounded s" "map_of (db_changes s) (change_key c) \<noteq> None \<or> held_count s (sc_group_id c) < kMaxHeldChanges"
  shows "bounded (s\<lparr>db_changes := om_put (change_key c) c (db_changes s)\<rparr>)"
proof -
  let ?t = "s\<lparr>db_changes := om_put (change_key c) c (db_changes s)\<rparr>"
  have ok: "store_ok s" "store_ok ?t" using assms(1) by (auto simp: bounded_def)
  note keyed = store_ok_tables(3) [OF ok(1)] store_ok_tables(3) [OF ok(2)]
  have "held_count ?t g \<le> kMaxHeldChanges" for g
  proof (cases "g = sc_group_id c \<and> map_of (db_changes s) (change_key c) = None")
    case True
    have "{i. map_of (db_changes ?t) (g, i) \<noteq> None} = insert (sc_change_id c) {i. map_of (db_changes s) (g, i) \<noteq> None}"
      using True by auto
    then have "held_count ?t g \<le> Suc (held_count s g)"
      unfolding held_count_keys [OF keyed(1)] held_count_keys [OF keyed(2)]
      using finite_keys [of "db_changes s" g] by (simp only: card_insert_if) simp
    then show ?thesis using assms(2) True by simp
  next
    case False
    have "held_count ?t g \<le> held_count s g"
      by (rule held_count_mono [OF keyed]) (use False in \<open>auto split: if_splits\<close>)
    then show ?thesis using assms(1) by (meson bounded_def le_trans)
  qed
  with ok show ?thesis by (simp add: bounded_def)
qed

subsection \<open>Operations that keep it\<close>

text \<open>Steps of an operation, while nothing fails.\<close>

lemma calm_then:
  assumes "holds_after calm_bounded m (\<lambda>_. calm_bounded)" and "\<And>x. holds_after calm_bounded (f x) (\<lambda>_. I)"
    and "\<And>s. calm_bounded s \<Longrightarrow> I s"
  shows "holds_after calm_bounded (roe_then m f) (\<lambda>_. I)"
  unfolding roe_then_def
  by (rule holds_after_bind [OF assms(1)]) (auto split: sum.split intro: holds_after_return assms)

lemma calm_returns:
  "(\<And>s. calm_bounded s \<Longrightarrow> I s) \<Longrightarrow> holds_after calm_bounded (ret_ok x) (\<lambda>_. I)"
  "(\<And>s. calm_bounded s \<Longrightarrow> I s) \<Longrightarrow> holds_after calm_bounded (ret_err e) (\<lambda>_. I)"
  "(\<And>s. calm_bounded s \<Longrightarrow> I s) \<Longrightarrow> holds_after calm_bounded (State_Monad.return r) (\<lambda>_. I)"
  by (auto simp: ret_ok_def ret_err_def intro: holds_after_return)

lemma calm_reads_bounded:
  "holds_after calm_bounded (MetadataOf g) (\<lambda>_. calm_bounded)" "holds_after calm_bounded (LoadMetadata g) (\<lambda>_. calm_bounded)"
  "holds_after calm_bounded (ListGroupChanges g) (\<lambda>_. calm_bounded)" "holds_after calm_bounded (ListMembers g) (\<lambda>_. calm_bounded)"
  "holds_after calm_bounded (CopyState cr js g) (\<lambda>_. calm_bounded)"
  by (auto simp: holds_after_def calm_bounded_def calm_runs CopyState_def run_rules)

lemma calm_UpsertMetadata_bounded: "holds_after calm_bounded (UpsertMetadata md) (\<lambda>_. calm_bounded)"
proof (rule holds_afterI)
  fix s r t
  assume s: "calm_bounded s" and run: "run_state (UpsertMetadata md) s = (r, t)"
  let ?u = "s\<lparr>db_metadata := om_put (md_group_id md) md (db_metadata s)\<rparr>"
  obtain c where t: "t = NotifyChanged c ?u" using s run by (auto simp: calm_bounded_def calm_runs)
  have "store_ok ?u" using s by (simp add: calm_bounded_def bounded_def)
  then have "store_ok t" by (simp add: t)
  then have "bounded t" using s by (intro bounded_same_changes [of t s]) (auto simp: t NotifyChanged_def calm_bounded_def)
  then show "calm_bounded t" using s by (simp add: calm_bounded_def t NotifyChanged_def)
qed

lemma calm_DeleteGroupChanges_bounded: "holds_after calm_bounded (DeleteGroupChanges g ids) (\<lambda>_. calm_bounded)"
proof (rule holds_afterI)
  fix s r t
  assume s: "calm_bounded s" and run: "run_state (DeleteGroupChanges g ids) s = (r, t)"
  have t: "t = s\<lparr>db_changes := fold (\<lambda>i. om_erase (g, i)) ids (db_changes s)\<rparr>"
    using s run by (simp add: calm_bounded_def calm_runs)
  have ok: "store_ok s" "om_ok (db_changes s)"
    using s store_ok_tables(3) [of s] by (auto simp: calm_bounded_def bounded_def keyed_by_def)
  have "bounded t"
    by (rule bounded_fewer [of s]) (use s ok in \<open>auto simp: t calm_bounded_def map_of_fold_erase\<close>)
  then show "calm_bounded t" using s by (simp add: calm_bounded_def t)
qed

lemma calm_ApplyView_bounded: "holds_after calm_bounded (ApplyView cr js g cards now) (\<lambda>_. calm_bounded)"
proof (rule holds_afterI)
  fix s r t
  assume s: "calm_bounded s" and run: "run_state (ApplyView cr js g cards now) s = (r, t)"
  have calm: "db_faults s = []" and ok: "store_ok s" using s by (auto simp: calm_bounded_def bounded_def)
  show "calm_bounded t"
  proof (cases "\<exists>md st. map_of (db_metadata s) g = Some md \<and> md_sync_state md \<noteq> Dissolved \<and> Held js md = Some st
      \<and> md_roster_epoch md \<le> s_roster_epoch st")
    case True
    then obtain md st where md: "map_of (db_metadata s) g = Some md" "md_sync_state md \<noteq> Dissolved" "Held js md = Some st"
      "md_roster_epoch md \<le> s_roster_epoch st" by blast
    define view where "view = roster_by_rules cr st (held_now js s g) cards now"
    have "db_faults t = [] \<and> db_changes t = settled_changes js s g view"
      using calm_ApplyView [OF calm md view_def] run calm by (elim exE) clarsimp
    then have faults: "db_faults t = []" and changes: "db_changes t = settled_changes js s g view" by simp_all
    have shape: "store_ok t"
      using afterD [OF in_group.keeps_ApplyView [OF in_group.R_refl ok] run] ok by (simp add: within_def)
    have fewer: "map_of (settled_changes js s g view) (g', i) = None"
      if "map_of (db_changes s) (g', i) = None" for g' i
    proof (cases "g' = g")
      case True
      have "distinct (map v_id (w_verdicts view))" by (simp add: view_def roster_by_rules_def verdict_ids_distinct)
      with True that show ?thesis using settled_lookup [OF store_ok_tables(3) [OF ok]] by simp
    next
      case False
      have rows: "rows_of g' (db_changes t) = rows_of g' (db_changes s)"
        unfolding changes by (rule settled_elsewhere [OF store_ok_tables(3) [OF ok] False])
      have "map_of (db_changes t) (g', i) = map_of (db_changes s) (g', i)"
        by (simp only: rows find_change_row [OF store_ok_tables(3) [OF ok], symmetric]
            find_change_row [OF store_ok_tables(3) [OF \<open>store_ok t\<close>], symmetric])
      with that show ?thesis unfolding changes by simp
    qed
    have "bounded s" using s by (simp add: calm_bounded_def)
    from bounded_fewer [OF this shape] have "bounded t" unfolding changes using fewer by blast
    with faults show ?thesis by (simp add: calm_bounded_def)
  next
    case False
    show ?thesis
    proof (cases "\<exists>md. map_of (db_metadata s) g = Some md \<and> md_sync_state md = Dissolved")
      case True
      then have "run_state (ApplyView cr js g cards now) s =
          run_state (roe_then (DeleteGroupChanges g (map sc_change_id (rows_of g (db_changes s)))) (\<lambda>_. ret_ok nothing_applied)) s"
        using calm by (auto simp: ApplyView_def run_roe_then calm_runs)
      moreover have "holds_after calm_bounded (roe_then (DeleteGroupChanges g ids) (\<lambda>_. ret_ok nothing_applied))
          (\<lambda>_. calm_bounded)" for ids
        by (intro calm_then [OF calm_DeleteGroupChanges_bounded] calm_returns)
      ultimately show ?thesis using s run holds_afterD by metis
    next
      case other: False
      have "t = s" using run False other calm
        by (auto simp: ApplyView_def run_roe_then calm_runs run_returns not_less split: option.splits if_splits)
      with s show ?thesis by simp
    qed
  qed
qed

lemma calm_HoldChange_bounded: "holds_after calm_bounded (HoldChange cr js c cards now shown) (\<lambda>_. calm_bounded)"
proof -
  let ?g = "c_group_id c"
  have keep: "holds_after (\<lambda>s. calm_bounded s \<and> had = map_of (db_changes s) (?g, i)
      \<and> (had = None \<longrightarrow> held_count s ?g < kMaxHeldChanges))
      (KeepCopy js c i had now shown outcome) (\<lambda>_. calm_bounded)" for i had outcome
  proof (rule holds_afterI, elim conjE)
    fix s r t
    assume s: "calm_bounded s" and had: "had = map_of (db_changes s) (?g, i)" "had = None \<longrightarrow> held_count s ?g < kMaxHeldChanges"
      and run: "run_state (KeepCopy js c i had now shown outcome) s = (r, t)"
    have keyed: "keyed_by change_key (db_changes s)" using s by (simp add: calm_bounded_def bounded_def)
    have put: "calm_bounded (s\<lparr>db_changes := om_put (change_key row) row (db_changes s)\<rparr>)" if "change_key row = (?g, i)" for row
      using s that had bounded_put [of s row] by (auto simp: calm_bounded_def)
    have key: "change_key row = (?g, i)" if "had = Some row" for row
      using keyed_row [OF keyed] that had(1) by simp
    have calm: "db_faults s = []" using s by (simp add: calm_bounded_def)
    show "calm_bounded t"
    proof (cases had)
      case None
      then show ?thesis using run put by (auto simp: KeepCopy_def Let_def run_rules calm_runs calm)
    next
      case (Some row)
      then show ?thesis
        using run s put [of "row\<lparr>sc_line_shown := True\<rparr>"] key [OF Some] put
        by (auto simp: KeepCopy_def Let_def UpsertOrNotKept_def run_rules calm_runs calm split: if_splits)
    qed
  qed
  have listed: "holds_after calm_bounded (roe_then (ListGroupChanges ?g) (\<lambda>stored.
      let had = List.find (\<lambda>row. sc_change_id row = i) stored in
      if had = None \<and> length stored \<ge> kMaxHeldChanges then ret_ok Refused
      else KeepCopy js c i had now shown outcome)) (\<lambda>_. calm_bounded)" for i outcome
  proof (rule holds_afterI)
    fix s r t
    assume s: "calm_bounded s" and run: "run_state (roe_then (ListGroupChanges ?g) (\<lambda>stored.
      let had = List.find (\<lambda>row. sc_change_id row = i) stored in
      if had = None \<and> length stored \<ge> kMaxHeldChanges then ret_ok Refused
      else KeepCopy js c i had now shown outcome)) s = (r, t)"
    have keyed: "keyed_by change_key (db_changes s)" using s by (simp add: calm_bounded_def bounded_def)
    let ?had = "map_of (db_changes s) (?g, i)"
    show "calm_bounded t"
    proof (cases "?had = None \<and> held_count s ?g \<ge> kMaxHeldChanges")
      case True
      then show ?thesis using run s
        by (simp add: run_roe_then calm_runs calm_bounded_def find_change_row [OF keyed] held_count_def [symmetric] run_returns)
    next
      case False
      then have "run_state (KeepCopy js c i ?had now shown outcome) s = (r, t)" using run s
        by (simp add: run_roe_then calm_runs calm_bounded_def find_change_row [OF keyed] held_count_def [symmetric]
            Let_def split: if_splits)
      then show ?thesis by (rule holds_afterD [OF keep, rotated]) (use s False in auto)
    qed
  qed
  show ?thesis
    unfolding HoldChange_def
    by (intro calm_then [OF calm_reads_bounded(2)] holds_after_if)
      (auto intro!: listed calm_returns holds_after_if split: list.split)
qed

lemma calm_hold_all_bounded: "holds_after calm_bounded (hold_all cr js cs cards now shown) (\<lambda>_. calm_bounded)"
  by (induction cs) (auto intro!: calm_then calm_HoldChange_bounded calm_returns)

lemma calm_KeepStatement_bounded: "holds_after calm_bounded (KeepStatement cr js st) (\<lambda>_. calm_bounded)"
  unfolding KeepStatement_def
  by (intro holds_after_if calm_then [OF calm_reads_bounded(1)] calm_then [OF calm_returns(3)]
      calm_then [OF calm_UpsertMetadata_bounded] calm_returns) auto

lemma calm_TakeReply_bounded: "holds_after calm_bounded (TakeReply cr js reply st local cards now) (\<lambda>_. calm_bounded)"
proof -
  have last: "holds_after calm_bounded (State_Monad.bind (MetadataOf g) (\<lambda>r. ret_ok (f r))) (\<lambda>_. calm_bounded)" for g f
    by (rule holds_after_bind [OF calm_reads_bounded(1)]) (rule calm_returns(1), assumption)
  show ?thesis
    unfolding TakeReply_def HoldCarried_def
    by (intro calm_then [OF calm_KeepStatement_bounded] calm_then [OF calm_hold_all_bounded] calm_then [OF calm_ApplyView_bounded])
      (auto split: option.split intro!: last calm_returns)
qed

lemma calm_settle_state_bounded: "holds_after calm_bounded (settle_state g state) (\<lambda>_. calm_bounded)"
  unfolding settle_state_def
  by (intro calm_then [OF calm_reads_bounded(1)] calm_then [OF calm_UpsertMetadata_bounded] calm_returns)

text \<open>The end of a group only drops changes.\<close>

interpretation bound: group_writes "\<lambda>s t. bounded s \<longrightarrow> bounded t" g
proof unfold_locales
  fix s ending
  show "bounded s \<longrightarrow> bounded (ended_store g ending s)"
  proof
    assume s: "bounded s"
    then have ok: "store_ok (ended_store g ending s)" by (simp add: bounded_def)
    show "bounded (ended_store g ending s)"
      by (rule bounded_fewer [OF s ok])
        (auto simp: ended_store_def without_def map_of_eq_None_iff)
  qed
qed (simp_all, auto simp: bounded_def held_count_def)

lemma calm_bounded_dissolve:
  "holds_after calm_bounded (ApplyDissolvedStatement cr js st local) (\<lambda>_. bounded)"
proof (rule holds_afterI)
  fix s r t
  assume s: "calm_bounded s" and run: "run_state (ApplyDissolvedStatement cr js st local) s = (r, t)"
  have "after (ApplyDissolvedStatement cr js st local) (\<lambda>_ t. bounded s \<longrightarrow> bounded t) s"
    unfolding ApplyDissolvedStatement_def by (rule bound.keeps_dissolve) simp_all
  from afterD [OF this run] s show "bounded t"
    by (simp add: calm_bounded_def bounded_def held_count_def)
qed

lemma calm_ApplyReply_bounded: "holds_after calm_bounded (ApplyReply cr js reply local replier cards now) (\<lambda>_. bounded)"
proof -
  have weak: "holds_after calm_bounded (ret_ok x) (\<lambda>_. bounded)" for x
    by (rule calm_returns) (simp add: calm_bounded_def)
  have ended: "holds_after calm_bounded (State_Monad.bind (ApplyDissolvedStatement cr js st local) (\<lambda>r. ret_ok (f r))) (\<lambda>_. bounded)"
    for st f
    by (rule holds_after_bind [OF calm_bounded_dissolve]) (simp add: ret_ok_def holds_after_return)
  have down: "calm_bounded s \<Longrightarrow> bounded s" for s by (simp add: calm_bounded_def)
  show ?thesis
    unfolding ApplyReply_def
    by (intro calm_then [OF calm_reads_bounded(1)] holds_after_if weak down)
      (auto split: option.split sum.split intro!: holds_after_if weak ended down calm_then [OF calm_settle_state_bounded]
        calm_then [OF calm_TakeReply_bounded])
qed

subsection \<open>The claim\<close>

lemma sync_perform_bounded: "holds_after calm_bounded (sync_perform cr js cards now call) (\<lambda>_. bounded)"
proof -
  have down: "calm_bounded s \<Longrightarrow> bounded s" for s by (simp add: calm_bounded_def)
  have weak: "holds_after calm_bounded (ret_ok x) (\<lambda>_. bounded)" for x by (rule calm_returns) (rule down)
  have catch_up: "holds_after calm_bounded (BeginCatchUp cr js u g now i) (\<lambda>_. calm_bounded)" for u g i
    unfolding BeginCatchUp_def
    by (intro calm_then [OF calm_reads_bounded(1)] holds_after_if calm_returns
        holds_after_bind [OF calm_reads_bounded(5)] calm_then [OF calm_UpsertMetadata_bounded])
  have check: "holds_after calm_bounded (BeginCheck cr js u g l now) (\<lambda>_. calm_bounded)" for u g l
    unfolding BeginCheck_def Let_def
    by (intro calm_then [OF calm_reads_bounded(1)] calm_then [OF calm_reads_bounded(4)] holds_after_if calm_returns
        holds_after_bind [OF calm_reads_bounded(5)] calm_then [OF calm_UpsertMetadata_bounded])
  have receive: "holds_after calm_bounded (ReceiveChange cr js c cards now) (\<lambda>_. calm_bounded)" for c
    unfolding ReceiveChange_def
    by (intro calm_then [OF calm_HoldChange_bounded] holds_after_if calm_returns calm_then [OF calm_ApplyView_bounded])
  have keep: "holds_after calm_bounded (KeepAndCatchUp cr js st cards now) (\<lambda>_. calm_bounded)" for st
    unfolding KeepAndCatchUp_def
    by (intro calm_then [OF calm_KeepStatement_bounded] holds_after_if calm_returns calm_then [OF calm_ApplyView_bounded])
  have reply: "holds_after calm_bounded (roe_then (ApplyReply cr js rp l rl cards now) (\<lambda>_. ret_ok ())) (\<lambda>_. bounded)" for rp l rl
    unfolding roe_then_def ret_ok_def
    by (rule holds_after_bind [OF calm_ApplyReply_bounded]) (auto split: sum.split intro: holds_after_return)
  have carried: "holds_after calm_bounded (HoldCarried cr js cs cards now shown) (\<lambda>_. bounded)" for cs shown
    unfolding HoldCarried_def by (rule holds_after_weaken [OF calm_hold_all_bounded]) (simp_all add: down)
  show ?thesis
    by (cases call)
      (auto intro!: calm_then [OF calm_ApplyView_bounded] calm_then [OF calm_HoldChange_bounded] calm_then [OF receive]
        calm_then [OF calm_KeepStatement_bounded] calm_then [OF keep] calm_then [OF catch_up] calm_then [OF check]
        carried reply weak down)
qed


text \<open>A run of the sync's calls, each with the cards then known and the time.\<close>

fun sync_runs :: "crypto \<Rightarrow> roster_json \<Rightarrow> (card_lookup \<times> time_ms \<times> sync_call) list \<Rightarrow> roster_store \<Rightarrow> roster_store" where
  "sync_runs cr js [] s = s"
| "sync_runs cr js ((cards, now, call) # calls) s = sync_runs cr js calls (snd (run_state (sync_perform cr js cards now call) s))"

lemma sync_runs_bounded: "calm_bounded s \<Longrightarrow> calm_bounded (sync_runs cr js calls s)"
proof (induction calls arbitrary: s)
  case (Cons c calls)
  obtain cards now call where c: "c = (cards, now, call)" by (cases c)
  obtain r t where run: "run_state (sync_perform cr js cards now call) s = (r, t)" by fastforce
  have "bounded t" by (rule holds_afterD [OF sync_perform_bounded Cons.prems run])
  moreover have "db_faults t = []"
    using calm_sync_perform [of cr js cards now call] Cons.prems run by (force simp: stays_calm_def calm_bounded_def)
  ultimately show ?case using Cons.IH [of t] by (simp add: c run calm_bounded_def)
qed simp

text \<open>
  C19: a group never holds more than \<open>kMaxHeldChanges\<close> (512) changes. From a store in shape in which no
  group does, and while the store's calls do not fail, no run of calls of the sync brings a group past the
  bound: however many changes arrive one by one, in bundles or in replies, in whatever order.
\<close>

theorem held_changes_bounded:
  assumes "bounded s" and "db_faults s = []"
  shows "held_count (sync_runs cr js calls s) g \<le> kMaxHeldChanges"
  using sync_runs_bounded [of s cr js calls] assms by (simp add: calm_bounded_def bounded_def)

text \<open>A store whose group holds as many as it may; two more arrive.\<close>

definition full_rows :: "nat \<Rightarrow> ((string \<times> string) \<times> stored_change) list" where
  "full_rows n = map (\<lambda>k. ((''g'', replicate k CHR ''a''), \<lparr>sc_group_id = ''g'', sc_change_id = replicate k CHR ''a'',
     sc_change_json = [], sc_received_at = 0, sc_line_shown = True\<rparr>)) [0..<n]"

definition full_store :: roster_store where
  "full_store = sample_following\<lparr>db_changes := full_rows 512\<rparr>"

lemma replicate_less: "i < j \<Longrightarrow> replicate i (c :: char) < replicate j c"
  by (induction i arbitrary: j) (auto simp: gr0_conv_Suc Suc_less_eq2)

lemma full_rows_ok: "keyed_by change_key (full_rows n)"
proof -
  have "sorted_wrt (<) (map (\<lambda>k. (''g'', replicate k CHR ''a'')) [0..<n])"
    by (induction n) (auto simp: sorted_wrt_append intro: replicate_less)
  then show ?thesis by (auto simp: keyed_by_def om_ok_def full_rows_def comp_def)
qed

lemma full_store_bounded: "bounded full_store" "held_count full_store ''g'' = 512"
proof -
  have count: "held_count full_store h = (if h = ''g'' then 512 else 0)" for h
    by (simp add: held_count_def full_store_def full_rows_def rows_of_def filter_map comp_def)
  have "store_ok full_store"
    using sample_following_ok full_rows_ok [of 512] by (simp add: full_store_def)
  then show "bounded full_store" by (simp add: bounded_def count kMaxHeldChanges_def)
  show "held_count full_store ''g'' = 512" by (simp add: count)
qed

theorem held_changes_bounded_witness:
  "held_count full_store ''g'' = 512 \<and>
    held_count (sync_runs sample_crypto sample_reading [(\<lambda>_. None, 10, HoldCall sample_change True),
      (\<lambda>_. None, 11, ReceiveCall sample_change)] full_store) ''g'' \<le> 512"
proof -
  have "db_faults full_store = []" by (simp add: full_store_def sample_following_fields)
  from held_changes_bounded [OF full_store_bounded(1) this] show ?thesis
    using full_store_bounded(2) unfolding kMaxHeldChanges_def by blast
qed

end
