(* ===== verification/DraftClaims.thy ===== *)
theory DraftClaims
  imports HeldBound
begin

section \<open>What a device drafts\<close>

text \<open>
  The claims on drafts: a change a device drafts is one its role lets it make, has the shape every
  device checks, and drafting writes nothing; the owner's next statement is never a second, different
  statement at one epoch.
\<close>

subsection \<open>Reads of the drafts\<close>

lemma after_OwnRole:
  assumes "Q None (clean s)" and "md_owner md = local \<Longrightarrow> Q (Some Owner) (clean s)"
    and "\<And>m. m \<in> set (rows_of (md_group_id md) (db_rosters s)) \<Longrightarrow> rm_identity m = local \<Longrightarrow> Q (Some (rm_role m)) (clean s)"
  shows "after (OwnRole md local) Q s"
  unfolding OwnRole_def
  by (intro after_if after_return assms(2) after_bind after_FindMember) (simp_all add: assms)

lemma after_CurrentView:
  assumes "Q None (clean s)"
    and "\<And>md st rows. map_of (db_metadata s) g = Some md \<Longrightarrow> Held js md = Some st \<Longrightarrow>
      set rows \<subseteq> set (rows_of g (db_changes s)) \<Longrightarrow>
      Q (Some (roster_by_rules cr st (List.map_filter (ParseChange js) rows) cards now)) (clean s)"
  shows "after (CurrentView cr js g cards now) Q s"
  unfolding CurrentView_def
proof (rule after_bind, rule after_LoadMetadata, goal_cases)
  case (3 md epoch)
  show ?case
    unfolding sum.case option.case after_clean
  proof (intro after_option after_return assms(1) after_bind after_HeldChanges, goal_cases)
    case (1 st rows)
    then show ?case using assms(2) [OF 3, of st rows] by simp
  qed
qed (simp_all add: after_return assms)

lemma after_RemovedEntry: "(\<And>v. Q v (clean s)) \<Longrightarrow> after (RemovedEntry cr js g m cards now) Q s"
  unfolding RemovedEntry_def
  by (intro after_bind after_LoadMetadata)
    (auto intro!: after_return after_bind after_CurrentView split: option.split)

lemma after_DraftOn:
  assumes "\<And>e. Q (Inl e) (clean s)"
    and "\<And>md. map_of (db_metadata s) g = Some md \<Longrightarrow> md_sync_state md = Active \<Longrightarrow>
      Q (Inr ((blank_change kind)\<lparr>c_group_id := g, c_base_epoch := (case Held js md of None \<Rightarrow> md_roster_epoch md
          | Some st \<Rightarrow> s_roster_epoch st), c_signer := local, c_signer_device := device, c_at := now\<rparr>)) (clean s)"
  shows "after (DraftOn js g local device kind now) Q s"
  unfolding DraftOn_def by (rule after_roe_then, rule after_MetadataOf) (auto intro!: after_if after_ret_err after_ret_ok assms cong: option.case_cong)

lemma after_MetadataOf_known:
  assumes "map_of (db_metadata s) g = Some md" "\<And>e. Q (Inl e) (clean s)"
    "\<And>epoch. Q (Inr (md\<lparr>md_group_id := g, md_session_epoch := epoch\<rparr>)) (clean s)"
  shows "after (MetadataOf g) Q s"
  by (rule after_MetadataOf) (use assms in auto)

subsection \<open>Drafts as one type\<close>

datatype draft_wish =
    WishLeave
  | WishRemove string
  | WishAdd string string
  | WishLinkJoin string string
  | WishLinkAdd string string time_ms u64
  | WishLinkRevoke string
  | WishRename string

fun draft ::
  "crypto \<Rightarrow> roster_json \<Rightarrow> string \<Rightarrow> string \<Rightarrow> string \<Rightarrow> card_lookup \<Rightarrow> time_ms \<Rightarrow> draft_wish \<Rightarrow> group_change store_op" where
  "draft cr js g local device cards now WishLeave = DraftLeave cr js g local device now"
| "draft cr js g local device cards now (WishRemove m) = DraftRemove cr js g local device m now"
| "draft cr js g local device cards now (WishAdd m nonce) = DraftAdd cr js g local device m nonce cards now"
| "draft cr js g local device cards now (WishLinkJoin m link) = DraftLinkJoin cr js g local device m link cards now"
| "draft cr js g local device cards now (WishLinkAdd link h e u) = DraftLinkAdd cr js g local device link h e u cards now"
| "draft cr js g local device cards now (WishLinkRevoke link) = DraftLinkRevoke cr js g local device link cards now"
| "draft cr js g local device cards now (WishRename title) = DraftRename cr js g local device title cards now"

text \<open>A role of an account in the group, as this device has it: the owner it knows, or a row's.\<close>

definition role_of :: "roster_store \<Rightarrow> group_metadata \<Rightarrow> string \<Rightarrow> string \<Rightarrow> member_role \<Rightarrow> bool" where
  "role_of s md g i role \<longleftrightarrow> md_owner md = i \<and> role = Owner
     \<or> (\<exists>m \<in> set (rows_of g (db_rosters s)). rm_identity m = i \<and> rm_role m = role)"

text \<open>A link of the roster the device could compute that is live and made by \<open>maker\<close>.\<close>

definition live_link_of :: "crypto \<Rightarrow> roster_json \<Rightarrow> roster_store \<Rightarrow> string \<Rightarrow> card_lookup \<Rightarrow> time_ms \<Rightarrow> string \<Rightarrow> string \<Rightarrow> bool" where
  "live_link_of cr js s g cards now link_id maker \<longleftrightarrow>
     (\<exists>md st rows link. map_of (db_metadata s) g = Some md \<and> Held js md = Some st \<and> set rows \<subseteq> set (rows_of g (db_changes s))
        \<and> LiveLink (roster_by_rules cr st (List.map_filter (ParseChange js) rows) cards now) link_id = Some link
        \<and> l_maker link = maker)"

definition draft_right ::
  "crypto \<Rightarrow> roster_json \<Rightarrow> roster_store \<Rightarrow> string \<Rightarrow> string \<Rightarrow> card_lookup \<Rightarrow> time_ms \<Rightarrow> group_change \<Rightarrow> bool" where
  "draft_right cr js s g local cards now c \<longleftrightarrow>
     (\<exists>md. map_of (db_metadata s) g = Some md \<and> md_sync_state md = Active \<and>
       (case c_kind c of
          KLeave \<Rightarrow> md_owner md \<noteq> local
        | KRemove \<Rightarrow> \<exists>mine theirs. role_of s md g local mine \<and> role_of s md g (c_member c) theirs
            \<and> GroupAllows Remove mine (md_preset md) theirs
        | KAdd \<Rightarrow> \<exists>mine. role_of s md g local mine \<and> GroupAllows Invite mine (md_preset md) Member
            \<and> (c_readmits c \<noteq> [] \<longrightarrow> c_link_id c = [] \<and> GroupAllows Readmit mine (md_preset md) Member)
        | KRename \<Rightarrow> \<exists>mine. role_of s md g local mine \<and> GroupAllows Rename mine (md_preset md) Member
        | KLinkAdd \<Rightarrow> \<exists>mine. role_of s md g local mine \<and> GroupAllows MakeInviteLink mine (md_preset md) Member
        | KLinkRevoke \<Rightarrow> \<exists>mine maker. role_of s md g local mine \<and> live_link_of cr js s g cards now (c_link_id c) maker
            \<and> (maker = local \<or> GroupAllows RevokeInviteLink mine (md_preset md) Member)))"

text \<open>The ids of changes are hex texts of a hash, so never empty.\<close>

definition ids_not_empty :: "crypto \<Rightarrow> bool" where
  "ids_not_empty cr \<longleftrightarrow> (\<forall>c. ChangeId cr c \<noteq> [])"

lemma sorted_remdups_distinct: "distinct (remdups_adj (sort xs))"
  using sorted_remdups_adj_strict [of "sort xs"] strict_sorted_iff sorted_sort by blast

lemma DistinctBounded_Bound: "(\<forall>i \<in> set ids. i \<noteq> []) \<Longrightarrow> DistinctBounded (Bound ids)"
  unfolding DistinctBounded_def Bound_def
  by (auto simp: distinct_take [OF sorted_remdups_distinct] dest!: in_set_takeD)

lemma named_not_empty:
  assumes "ids_not_empty cr"
  shows "DistinctBounded (Bound (AddsOf cr cs m))" "DistinctBounded (Bound (SignedBy cr cs m))"
  by (rule DistinctBounded_Bound; use assms in \<open>auto simp: AddsOf_def SignedBy_def ids_not_empty_def\<close>)+

text \<open>What each draft guarantees of its change.\<close>

definition good_draft ::
  "crypto \<Rightarrow> roster_json \<Rightarrow> roster_store \<Rightarrow> string \<Rightarrow> string \<Rightarrow> string \<Rightarrow> card_lookup \<Rightarrow> time_ms \<Rightarrow> group_change \<Rightarrow> bool" where
  "good_draft cr js s g local device cards now c \<longleftrightarrow>
     c_group_id c = g \<and> c_signer c = local \<and> c_signer_device c = device \<and> c_at c = now
     \<and> draft_right cr js s g local cards now c \<and> NoForeignFields c
     \<and> (ids_not_empty cr \<and> 0 \<le> now \<and> (c_kind c = KRename \<longrightarrow> c_title_version c \<noteq> 0)
         \<and> (c_kind c = KLinkRevoke \<longrightarrow> c_link_id c \<noteq> []) \<longrightarrow> CheckBody c = Inr ())"

abbreviation drafted ::
  "crypto \<Rightarrow> roster_json \<Rightarrow> roster_store \<Rightarrow> string \<Rightarrow> string \<Rightarrow> string \<Rightarrow> card_lookup \<Rightarrow> time_ms \<Rightarrow> group_change roe \<Rightarrow> roster_store \<Rightarrow> bool" where
  "drafted cr js s g local device cards now r t \<equiv>
     t = clean s \<and> (case r of Inl _ \<Rightarrow> True | Inr c \<Rightarrow> good_draft cr js s g local device cards now c)"

lemmas draft_simps = good_draft_def draft_right_def blank_change_def NoForeignFields_def no_fields_def CheckBody_def check_named_def
  named_not_empty

lemma drafted_leave: "after (DraftLeave cr js g local device now) (drafted cr js s g local device cards now) s"
  unfolding DraftLeave_def
proof (rule after_roe_then, rule after_DraftOn, goal_cases)
  case (2 md)
  show ?case
    unfolding sum.case after_clean
    by (rule after_roe_then, rule after_MetadataOf_known [OF 2(1)])
      (use 2 in \<open>auto intro!: after_if after_ret_err after_bind after_HeldChanges after_ret_ok simp: draft_simps\<close>)
qed simp

lemma drafted_remove: "after (DraftRemove cr js g local device m now) (drafted cr js s g local device cards now) s"
  unfolding DraftRemove_def
proof (rule after_roe_then, rule after_DraftOn, goal_cases)
  case (2 md)
  have rights: "\<exists>mine theirs. role_of s md g local mine \<and> role_of s md g m theirs \<and> GroupAllows Remove mine (md_preset md) theirs"
    if "me \<in> set (rows_of g (db_rosters s))" "rm_identity me = local" "them \<in> set (rows_of g (db_rosters s))" "rm_identity them = m"
      "GroupAllows Remove (rm_role me) (md_preset md) (rm_role them)" for me them
    using that unfolding role_of_def by blast
  show ?case
    unfolding sum.case after_clean
    by (intro after_if after_ret_err after_roe_then after_MetadataOf_known [OF 2(1)])
      (use 2 rights in \<open>auto intro!: after_if after_ret_err after_return after_bind after_FindMember after_HeldChanges after_ret_ok
        split: option.split simp: draft_simps simp del: GroupAllows.simps\<close>)
qed simp

text \<open>The metadata, then our role by it.\<close>

lemma after_role:
  assumes "map_of (db_metadata s) g = Some md" and "\<And>e. Q (Inl e) (clean s)"
    and "\<And>md' role. md_preset md' = md_preset md \<Longrightarrow> md_title_version md' = md_title_version md \<Longrightarrow>
      (\<And>r. role = Some r \<Longrightarrow> role_of s md g local r) \<Longrightarrow> after (f md' role) Q s"
  shows "after (roe_then (MetadataOf g) (\<lambda>md'. State_Monad.bind (OwnRole md' local) (f md'))) Q s"
proof (rule after_roe_then, rule after_MetadataOf_known [OF assms(1)], goal_cases)
  case (2 epoch)
  show ?case
    unfolding sum.case after_clean
    by (rule after_bind, rule after_OwnRole; unfold after_clean, rule assms(3)) (auto simp: role_of_def)
qed (simp add: assms(2))

lemma role_allows_role:
  "role_allows act role preset \<Longrightarrow> \<exists>r. role = Some r \<and> GroupAllows act r preset Member"
  by (auto simp: role_allows_def split: option.splits)

lemma drafted_add: "after (DraftAddOf cr js g local device m nonce link cards now) (drafted cr js s g local device cards now) s"
  unfolding DraftAddOf_def
proof (rule after_roe_then, rule after_DraftOn, goal_cases)
  case (2 md)
  show ?case
    unfolding sum.case after_clean
  proof (rule after_if, goal_cases)
    case guard: 2
    show ?case
    proof (rule after_role [OF 2(1)], goal_cases)
      case (2 md' role)
      with guard \<open>map_of _ _ = Some md\<close> \<open>md_sync_state md = Active\<close> show ?case
        by (auto intro!: after_if after_ret_err after_bind after_IsMember after_RemovedEntry after_CurrentView after_ret_ok
            simp: draft_simps simp del: GroupAllows.simps dest!: role_allows_role split: option.splits)
    qed simp
  qed (simp add: after_ret_err)
qed simp

lemma drafted_link_add:
  "after (DraftLinkAdd cr js g local device link h e u cards now) (drafted cr js s g local device cards now) s"
  unfolding DraftLinkAdd_def
proof (rule after_roe_then, rule after_DraftOn, goal_cases)
  case (2 md)
  show ?case
    unfolding sum.case after_clean
  proof (rule after_if, goal_cases)
    case guard: 2
    show ?case
    proof (rule after_role [OF 2(1)], goal_cases)
      case (2 md' role)
      with guard \<open>map_of _ _ = Some md\<close> \<open>md_sync_state md = Active\<close> show ?case
        by (auto intro!: after_if after_ret_err after_bind after_IsMember after_RemovedEntry after_CurrentView after_ret_ok
            simp: draft_simps simp del: GroupAllows.simps dest!: role_allows_role split: option.splits)
    qed simp
  qed (simp add: after_ret_err)
qed simp

lemma drafted_rename:
  "after (DraftRename cr js g local device title cards now) (drafted cr js s g local device cards now) s"
  unfolding DraftRename_def
proof (rule after_roe_then, rule after_DraftOn, goal_cases)
  case (2 md)
  show ?case
    unfolding sum.case after_clean
  proof (rule after_if, goal_cases)
    case guard: 2
    show ?case
    proof (rule after_role [OF 2(1)], goal_cases)
      case (2 md' role)
      with guard \<open>map_of _ _ = Some md\<close> \<open>md_sync_state md = Active\<close> show ?case
        by (auto intro!: after_if after_ret_err after_bind after_IsMember after_RemovedEntry after_CurrentView after_ret_ok
            simp: draft_simps simp del: GroupAllows.simps dest!: role_allows_role split: option.splits)
    qed simp
  qed (simp add: after_ret_err)
qed simp

lemma drafted_link_revoke:
  "after (DraftLinkRevoke cr js g local device link cards now) (drafted cr js s g local device cards now) s"
  unfolding DraftLinkRevoke_def
proof (rule after_roe_then, rule after_DraftOn, goal_cases)
  case (2 md)
  have rest: "after (State_Monad.bind (OwnRole md' local) (\<lambda>role.
      if role = None \<or> (l_maker l \<noteq> local \<and> \<not> role_allows RevokeInviteLink role (md_preset md'))
      then ret_err kGroupLinkRevokeNotAllowedError
      else ret_ok ((blank_change KLinkRevoke)\<lparr>c_group_id := g, c_base_epoch := e, c_signer := local, c_signer_device := device,
        c_at := now, c_link_id := link\<rparr>))) (drafted cr js s g local device cards now) s"
    if live: "live_link_of cr js s g cards now link (l_maker l)" and md': "md' = md\<lparr>md_group_id := g, md_session_epoch := ep\<rparr>"
    for md' l e ep
  proof -
    have right: "\<exists>mine maker. role_of s md g local mine \<and> live_link_of cr js s g cards now link maker
        \<and> (maker = local \<or> GroupAllows RevokeInviteLink mine (md_preset md) Member)"
      if "role_of s md g local r" "l_maker l = local \<or> GroupAllows RevokeInviteLink r (md_preset md) Member" for r
      using that live by blast
    have role: "\<exists>r. role = Some r \<and> (l_maker l = local \<or> GroupAllows RevokeInviteLink r (md_preset md) Member)"
      if "\<not> (role = None \<or> (l_maker l \<noteq> local \<and> \<not> role_allows RevokeInviteLink role (md_preset md')))" for role
      using that by (auto simp: role_allows_def md')
    have step: "after (if role = None \<or> (l_maker l \<noteq> local \<and> \<not> role_allows RevokeInviteLink role (md_preset md'))
      then ret_err kGroupLinkRevokeNotAllowedError
      else ret_ok ((blank_change KLinkRevoke)\<lparr>c_group_id := g, c_base_epoch := e, c_signer := local, c_signer_device := device,
        c_at := now, c_link_id := link\<rparr>)) (drafted cr js s g local device cards now) s"
      if mine: "\<And>r. role = Some r \<Longrightarrow> role_of s md g local r" for role
    proof (intro after_if after_ret_err after_ret_ok, goal_cases)
      case 2
      from role [OF this] mine right 2 \<open>map_of (db_metadata s) g = Some md\<close> \<open>md_sync_state md = Active\<close> show ?case
        by (auto simp: draft_simps simp del: GroupAllows.simps)
    qed simp
    show ?thesis
      by (rule after_bind, rule after_OwnRole; unfold after_clean, rule step) (auto simp: role_of_def md')
  qed
  show ?case
    unfolding sum.case after_clean
  proof (rule after_roe_then, rule after_MetadataOf_known [OF 2(1)], goal_cases)
    case (2 epoch)
    show ?case
      unfolding sum.case after_clean
    proof (rule after_bind, rule after_CurrentView, goal_cases)
      case (2 md2 st rows)
      then have "live_link_of cr js s g cards now link (l_maker l)"
        if "LiveLink (roster_by_rules cr st (List.map_filter (ParseChange js) rows) cards now) link = Some l" for l
        using that unfolding live_link_of_def by blast
      then show ?case
        unfolding after_clean by (auto intro!: after_option after_ret_err rest)
    qed (simp add: after_ret_err)
  qed simp
qed simp

lemma after_draft: "after (draft cr js g local device cards now wish) (drafted cr js s g local device cards now) s"
  by (cases wish)
    (auto intro!: drafted_leave drafted_remove drafted_add drafted_link_add drafted_link_revoke drafted_rename after_if after_ret_err
      simp: DraftAdd_def DraftLinkJoin_def)

text \<open>
  C15: a device drafts only what it may. Whatever the member wishes for (to leave, to remove or add
  someone, by invite or link, to make or revoke a link, to rename) and whatever reads fail: nothing is
  written, and a change that is drafted is for that group, by this account and device, at this time;
  the group is active, and the role this device has for the account lets it make the change (the
  owner does not leave, a removal goes down in rank, a re-admit is the owner's or an admin's and never
  by link, a revoke is of a live link, by its maker or an admin). It carries no field its kind does
  not have and passes the shape check every other device makes (a rename when its version did not
  wrap around, a revoke when the link has an id).
\<close>

theorem drafts_within_rights:
  assumes "run_state (draft cr js g local device cards now wish) s = (r, t)"
  shows "clean t = clean s \<and> (\<forall>c. r = Inr c \<longrightarrow> good_draft cr js s g local device cards now c)"
  using afterD [OF after_draft assms] by auto

theorem drafts_within_rights_witness:
  "\<exists>c. fst (run_state (draft sample_crypto sample_json ''g'' ''z'' ''z1'' (\<lambda>_. None) 10 (WishRename ''w'')) sample_following) = Inr c
     \<and> draft_right sample_crypto sample_json sample_following ''g'' ''z'' (\<lambda>_. None) 10 c"
proof -
  let ?run = "run_state (draft sample_crypto sample_json ''g'' ''z'' ''z1'' (\<lambda>_. None) 10 (WishRename ''w'')) sample_following"
  have "\<exists>c. fst ?run = Inr c"
    by (simp add: DraftRename_def DraftOn_def CurrentView_def OwnRole_def run_rules calm_runs sample_following_fields
        sample_metadata_def role_allows_def kMaxTitleBytes_def Held_def sample_json_def)
  then show ?thesis using drafts_within_rights [OF surjective_pairing] unfolding good_draft_def by blast
qed

subsection \<open>The owner's next statement\<close>

lemma after_OwnerDraft:
  assumes "Held js md = Some base"
  shows "after (OwnerDraft cr js md rows chain owner key cards now)
    (\<lambda>d t. t = clean s \<and> (\<exists>view. d = owner_draft base view md rows chain owner key)) s"
  unfolding OwnerDraft_def FoldBase_def Let_def assms option.case
  by (intro after_bind after_HeldChanges) (auto intro!: after_return)

text \<open>The parts of a draft, before and after the epoch is raised.\<close>

lemma owner_draft_parts:
  "s_members (owner_draft base view md rows chain owner key) = rows"
  "s_owner_chain (owner_draft base view md rows chain owner key) = chain"
  "s_owner (owner_draft base view md rows chain owner key) = owner"
  "\<not> s_dissolved (owner_draft base view md rows chain owner key)"
  "s_removed (owner_draft base view md rows chain owner key) =
     filter (\<lambda>r. \<not> (\<exists>m \<in> set rows. sm_identity m = rv_identity r)) (w_removed view)"
  "s_links (owner_draft base view md rows chain owner key) =
     filter (\<lambda>l. \<exists>m \<in> set rows. sm_identity m = l_maker l) (w_links view)"
  by (simp_all add: owner_draft_def Let_def StatementLists_def empty_statement_def FoldInto_def)

lemma owner_draft_epoch:
  "s_roster_epoch (owner_draft base view md rows chain owner key) =
     max (md_roster_epoch md) (s_roster_epoch base) \<and>
   (s_owner_signature base \<noteq> [] \<and> max (md_roster_epoch md) (s_roster_epoch base) = s_roster_epoch base \<longrightarrow>
     StatementSignBytes (owner_draft base view md rows chain owner key) = StatementSignBytes base)
   \<or> s_roster_epoch (owner_draft base view md rows chain owner key) = s_roster_epoch base + 1
     \<and> max (md_roster_epoch md) (s_roster_epoch base) = s_roster_epoch base"
  by (auto simp: owner_draft_def Let_def)

text \<open>
  C17: the owner never signs two different statements at one epoch. Over a signed statement the owner's
  device holds, its next draft either says byte for byte what that statement says (at the same epoch)
  or has another epoch, a later one as long as the 64-bit epoch has room. The draft lists exactly the
  rows it was given; nobody is both listed and removed, and every link's maker is listed. Drafting
  writes nothing.
\<close>

theorem owner_draft_one_per_epoch:
  assumes "Held js md = Some base" and "s_owner_signature base \<noteq> []"
    and "run_state (OwnerDraft cr js md rows chain owner key cards now) s = (d, t)"
  shows "clean t = clean s
    \<and> (s_roster_epoch d = s_roster_epoch base \<longrightarrow> StatementSignBytes d = StatementSignBytes base)
    \<and> (s_roster_epoch base < - 1 \<longrightarrow> md_roster_epoch md \<le> s_roster_epoch d \<and> s_roster_epoch base \<le> s_roster_epoch d)
    \<and> s_members d = rows
    \<and> (\<forall>r \<in> set (s_removed d). \<not> StatementLists d (rv_identity r))
    \<and> (\<forall>l \<in> set (s_links d). StatementLists d (l_maker l))"
proof -
  obtain view where d: "d = owner_draft base view md rows chain owner key" and clean: "clean t = clean s"
    using afterD [OF after_OwnerDraft [OF assms(1)] assms(3)] by auto
  have parts: "s_members d = rows" "\<forall>r \<in> set (s_removed d). \<not> StatementLists d (rv_identity r)"
    "\<forall>l \<in> set (s_links d). StatementLists d (l_maker l)"
    unfolding d owner_draft_parts by (auto simp: StatementLists_def owner_draft_parts)
  have "s_roster_epoch base + 1 \<noteq> s_roster_epoch base" by simp
  then have "s_roster_epoch d = s_roster_epoch base \<longrightarrow> StatementSignBytes d = StatementSignBytes base"
    using owner_draft_epoch [of base view md rows chain owner key] assms(2) unfolding d by metis
  moreover have "md_roster_epoch md \<le> s_roster_epoch d \<and> s_roster_epoch base \<le> s_roster_epoch d" if "s_roster_epoch base < - 1"
  proof -
    have up: "s_roster_epoch base \<le> s_roster_epoch base + 1" using epoch_up [OF that] by simp
    show ?thesis
      using owner_draft_epoch [of base view md rows chain owner key] unfolding d
    proof (elim disjE conjE)
      assume "s_roster_epoch (owner_draft base view md rows chain owner key) = s_roster_epoch base + 1"
        and "max (md_roster_epoch md) (s_roster_epoch base) = s_roster_epoch base"
      then show "md_roster_epoch md \<le> s_roster_epoch (owner_draft base view md rows chain owner key) \<and>
          s_roster_epoch base \<le> s_roster_epoch (owner_draft base view md rows chain owner key)"
        using up max.cobounded1 [of "md_roster_epoch md" "s_roster_epoch base"] by (simp only:) (blast intro: order.trans)
    qed simp
  qed
  ultimately show ?thesis using clean parts by blast
qed

theorem owner_draft_one_per_epoch_witness:
  "s_members (fst (run_state (OwnerDraft sample_crypto sample_reading
     (sample_metadata\<lparr>md_statement_json := ''s''\<rparr>) [] [] ''a'' ''a'' (\<lambda>_. None) 10) sample_following)) = []"
proof -
  have "Held sample_reading (sample_metadata\<lparr>md_statement_json := ''s''\<rparr>) = Some sample_statement"
    by (simp add: Held_def sample_reading_def)
  moreover have "s_owner_signature sample_statement \<noteq> []" by (simp add: sample_statement_def)
  ultimately show ?thesis using owner_draft_one_per_epoch [OF _ _ surjective_pairing] by blast
qed

end
