(* ===== verification/JsonLib.thy ===== *)
theory JsonLib
  imports Prelude
begin

section \<open>JSON objects\<close>

text \<open>
  The JSON library (\<open>common/ValueJson.h\<close>, \<open>common/Value.h\<close>) is not part of the repository. A record
  of functions stands for it: objects \<open>'o\<close> with \<open>set\<close> and a lookup by key, values \<open>'v\<close> made of strings,
  flags, numbers, objects and arrays, the readers that give back what a value was made of
  (\<open>asString\<close>, \<open>asObject\<close>, \<open>getIf\<close>, \<open>getNonNegInt\<close>, \<open>getArray\<close>), and the text of an object
  (\<open>DumpJson\<close>, \<open>TryParseObject\<close>). \<open>json_laws\<close> says what the code relies on when it reads back what it
  wrote; nothing is assumed of numbers from 2^63 on.
\<close>

record ('o, 'v) json_lib =
  jl_empty :: 'o
  jl_set :: "string \<Rightarrow> 'v \<Rightarrow> 'o \<Rightarrow> 'o"
  jl_get :: "'o \<Rightarrow> string \<Rightarrow> 'v option"
  jl_of_string :: "string \<Rightarrow> 'v"
  jl_of_bool :: "bool \<Rightarrow> 'v"
  jl_of_int :: "int \<Rightarrow> 'v"
  jl_of_uint :: "u64 \<Rightarrow> 'v"
  jl_of_object :: "'o \<Rightarrow> 'v"
  jl_of_array :: "'v list \<Rightarrow> 'v"
  jl_as_string :: "'v \<Rightarrow> string option"
  jl_as_bool :: "'v \<Rightarrow> bool option"
  jl_as_int :: "'v \<Rightarrow> int option"
  jl_as_nonneg :: "'v \<Rightarrow> u64 option"
  jl_as_object :: "'v \<Rightarrow> 'o option"
  jl_as_array :: "'v \<Rightarrow> 'v list option"
  jl_dump :: "'o \<Rightarrow> string"
  jl_parse :: "string \<Rightarrow> 'o option"

text \<open>Numbers the library keeps: those of an \<open>int64_t\<close> that are not negative.\<close>

definition json_num :: "u64 \<Rightarrow> bool" where
  "json_num n \<longleftrightarrow> n < 2 ^ 63"

definition json_laws :: "('o, 'v) json_lib \<Rightarrow> bool" where
  "json_laws L \<longleftrightarrow>
     (\<forall>k. jl_get L (jl_empty L) k = None)
     \<and> (\<forall>j v ob k. jl_get L (jl_set L j v ob) k = (if k = j then Some v else jl_get L ob k))
     \<and> (\<forall>s. jl_as_string L (jl_of_string L s) = Some s) \<and> (\<forall>b. jl_as_bool L (jl_of_bool L b) = Some b)
     \<and> (\<forall>i. - (2 ^ 63) \<le> i \<and> i < 2 ^ 63 \<longrightarrow> jl_as_int L (jl_of_int L i) = Some i)
     \<and> (\<forall>n. json_num n \<longrightarrow> jl_as_nonneg L (jl_of_uint L n) = Some n)
     \<and> (\<forall>ob. jl_as_object L (jl_of_object L ob) = Some ob) \<and> (\<forall>vs. jl_as_array L (jl_of_array L vs) = Some vs)
     \<and> (\<forall>ob. jl_dump L ob \<noteq> [] \<and> jl_parse L (jl_dump L ob) = Some ob)"

subsection \<open>Fields\<close>

definition set_text :: "('o, 'v) json_lib \<Rightarrow> string \<Rightarrow> string \<Rightarrow> 'o \<Rightarrow> 'o" where
  "set_text L k s = jl_set L k (jl_of_string L s)"

definition set_uint :: "('o, 'v) json_lib \<Rightarrow> string \<Rightarrow> u64 \<Rightarrow> 'o \<Rightarrow> 'o" where
  "set_uint L k n = jl_set L k (jl_of_uint L n)"

definition set_object :: "('o, 'v) json_lib \<Rightarrow> string \<Rightarrow> 'o \<Rightarrow> 'o \<Rightarrow> 'o" where
  "set_object L k ob = jl_set L k (jl_of_object L ob)"

definition set_objects :: "('o, 'v) json_lib \<Rightarrow> string \<Rightarrow> 'o list \<Rightarrow> 'o \<Rightarrow> 'o" where
  "set_objects L k obs = jl_set L k (jl_of_array L (map (jl_of_object L) obs))"

definition set_when :: "bool \<Rightarrow> ('o \<Rightarrow> 'o) \<Rightarrow> 'o \<Rightarrow> 'o" where
  "set_when b f ob = (if b then f ob else ob)"

definition get_text :: "('o, 'v) json_lib \<Rightarrow> 'o \<Rightarrow> string \<Rightarrow> string option" where
  "get_text L ob k = Option.bind (jl_get L ob k) (jl_as_string L)"

definition get_uint :: "('o, 'v) json_lib \<Rightarrow> 'o \<Rightarrow> string \<Rightarrow> u64 option" where
  "get_uint L ob k = Option.bind (jl_get L ob k) (jl_as_nonneg L)"

definition get_int :: "('o, 'v) json_lib \<Rightarrow> 'o \<Rightarrow> string \<Rightarrow> int option" where
  "get_int L ob k = Option.bind (jl_get L ob k) (jl_as_int L)"

definition get_bool :: "('o, 'v) json_lib \<Rightarrow> 'o \<Rightarrow> string \<Rightarrow> bool option" where
  "get_bool L ob k = Option.bind (jl_get L ob k) (jl_as_bool L)"

definition get_object :: "('o, 'v) json_lib \<Rightarrow> 'o \<Rightarrow> string \<Rightarrow> 'o option" where
  "get_object L ob k = Option.bind (jl_get L ob k) (jl_as_object L)"

definition get_array :: "('o, 'v) json_lib \<Rightarrow> 'o \<Rightarrow> string \<Rightarrow> 'v list option" where
  "get_array L ob k = Option.bind (jl_get L ob k) (jl_as_array L)"

definition value_or :: "'a option \<Rightarrow> 'a \<Rightarrow> 'a" where
  "value_or x d = (case x of None \<Rightarrow> d | Some y \<Rightarrow> y)"

text \<open>A time is written as a \<open>uint64_t\<close>, nothing below zero, and read back by a cast.\<close>

definition uint_of_time :: "time_ms \<Rightarrow> u64" where
  "uint_of_time t = word_of_int (max t 0)"

definition time_of_uint :: "u64 \<Rightarrow> time_ms" where
  "time_of_uint n = sint n"

text \<open>The loops over an array: the first item that does not read ends them, or is skipped.\<close>

fun read_items :: "('v \<Rightarrow> 'x roe) \<Rightarrow> 'v list \<Rightarrow> 'x list roe" where
  "read_items f [] = Inr []"
| "read_items f (v # vs) = roe_bind (f v) (\<lambda>x. roe_bind (read_items f vs) (\<lambda>xs. Inr (x # xs)))"

definition keep_items :: "('v \<Rightarrow> 'x option) \<Rightarrow> 'v list option \<Rightarrow> 'x list" where
  "keep_items f vs = List.map_filter f (value_or vs [])"

definition read_array :: "('o, 'v) json_lib \<Rightarrow> 'o \<Rightarrow> string \<Rightarrow> ('v \<Rightarrow> 'x roe) \<Rightarrow> 'x list roe" where
  "read_array L ob k f = (case get_array L ob k of None \<Rightarrow> Inr [] | Some vs \<Rightarrow> read_items f vs)"

text \<open>An item that must be an object.\<close>

definition as_row :: "('o, 'v) json_lib \<Rightarrow> string \<Rightarrow> ('o \<Rightarrow> 'x roe) \<Rightarrow> 'v \<Rightarrow> 'x roe" where
  "as_row L e f v = (case jl_as_object L v of None \<Rightarrow> Inl (Error e) | Some ob \<Rightarrow> f ob)"

subsection \<open>What is read back\<close>

lemma value_or_simps [simp]: "value_or None d = d" "value_or (Some x) d = x"
  by (simp_all add: value_or_def)

lemma time_roundtrip: "0 \<le> t \<Longrightarrow> t < 2 ^ 63 \<Longrightarrow> time_of_uint (uint_of_time t) = t"
  by (simp add: time_of_uint_def uint_of_time_def signed_of_int signed_take_bit_int_eq_self)

lemma json_num_time: "0 \<le> t \<Longrightarrow> t < 2 ^ 63 \<Longrightarrow> json_num (uint_of_time t)"
  by (simp add: json_num_def uint_of_time_def word_less_def uint_word_of_int)

lemma json_num_0 [simp]: "json_num 0"
  by (simp add: json_num_def)

named_theorems json_set "the setters in terms of the library's set"

lemma setters [json_set]:
  "set_text L k s ob = jl_set L k (jl_of_string L s) ob" "set_uint L k n ob = jl_set L k (jl_of_uint L n) ob"
  "set_object L k c ob = jl_set L k (jl_of_object L c) ob"
  "set_objects L k cs ob = jl_set L k (jl_of_array L (map (jl_of_object L) cs)) ob"
  by (simp_all add: set_text_def set_uint_def set_object_def set_objects_def)

lemma json_get:
  assumes "json_laws L"
  shows "jl_get L (jl_empty L) k = None"
    and "jl_get L (jl_set L j v ob) k = (if k = j then Some v else jl_get L ob k)"
    and "jl_get L (set_when b (jl_set L j v) ob) k = (if b \<and> k = j then Some v else jl_get L ob k)"
    and "jl_get L (set_text L j s ob) k = (if k = j then Some (jl_of_string L s) else jl_get L ob k)"
    and "jl_get L (set_uint L j n ob) k = (if k = j then Some (jl_of_uint L n) else jl_get L ob k)"
    and "jl_get L (set_object L j c ob) k = (if k = j then Some (jl_of_object L c) else jl_get L ob k)"
    and "jl_get L (set_objects L j cs ob) k =
      (if k = j then Some (jl_of_array L (map (jl_of_object L) cs)) else jl_get L ob k)"
  using assms by (auto simp: json_laws_def set_when_def setters)

lemma json_when: "set_when b f ob = (if b then f ob else ob)"
  by (simp add: set_when_def)

lemma json_values:
  assumes "json_laws L"
  shows "jl_as_string L (jl_of_string L s) = Some s" and "jl_as_bool L (jl_of_bool L b) = Some b"
    and "- (2 ^ 63) \<le> i \<Longrightarrow> i < 2 ^ 63 \<Longrightarrow> jl_as_int L (jl_of_int L i) = Some i"
    and "json_num n \<Longrightarrow> jl_as_nonneg L (jl_of_uint L n) = Some n"
    and "jl_as_object L (jl_of_object L ob) = Some ob" and "jl_as_array L (jl_of_array L vs) = Some vs"
    and "jl_parse L (jl_dump L ob) = Some ob" and "jl_dump L ob \<noteq> []"
  using assms by (auto simp: json_laws_def)

lemmas json_readers = get_text_def get_uint_def get_int_def get_bool_def get_object_def get_array_def

end
