(* ===== verification/RosterJson.thy ===== *)
theory RosterJson
  imports JsonLib GroupRosterStatement
begin

section \<open>The JSON of cards, changes and statements\<close>

text \<open>
  Models the JSON parts of \<open>KeyCard.cpp\<close>, \<open>AccountCard.cpp\<close>, \<open>GroupChange.cpp\<close> and
  \<open>GroupRosterStatement.cpp\<close>: each \<open>ToJson\<close> as the sets it makes, in order, each \<open>FromJson\<close> with its
  defaults and errors. The laws of reading back stand at the end, through the interface of a codec.
\<close>

subsection \<open>Cards\<close>

definition KeyCardToJson :: "('o, 'v) json_lib \<Rightarrow> key_card \<Rightarrow> 'o" where
  "KeyCardToJson L keys =
     set_text L ''kem_binding_signature_b64'' (k_binding_signature keys)
     (set_text L ''kem_public_key_b64'' (k_kem_key keys)
     (set_text L ''signing_public_key_b64'' (k_signing_key keys)
     (set_text L ''account_id'' (k_account_id keys) (jl_empty L))))"

definition key_card_field :: "('o, 'v) json_lib \<Rightarrow> 'o \<Rightarrow> string \<Rightarrow> string roe" where
  "key_card_field L json key =
     (case get_text L json key of
        Some s \<Rightarrow> if s = [] then Inl (Error (''key card: missing '' @ key)) else Inr s
      | None \<Rightarrow> Inl (Error (''key card: missing '' @ key)))"

definition KeyCardFromJson :: "('o, 'v) json_lib \<Rightarrow> 'o \<Rightarrow> key_card roe" where
  "KeyCardFromJson L json =
     roe_bind (key_card_field L json ''account_id'') (\<lambda>account.
       roe_bind (key_card_field L json ''signing_public_key_b64'') (\<lambda>signing.
         roe_bind (key_card_field L json ''kem_public_key_b64'') (\<lambda>kem.
           roe_bind (key_card_field L json ''kem_binding_signature_b64'') (\<lambda>binding.
             Inr \<lparr>k_account_id = account, k_signing_key = signing, k_kem_key = kem, k_binding_signature = binding\<rparr>))))"

definition kAccountCardVersion :: int where
  "kAccountCardVersion = 2"

definition RequiredString :: "('o, 'v) json_lib \<Rightarrow> 'o \<Rightarrow> string \<Rightarrow> string roe" where
  "RequiredString L json key =
     (case get_text L json key of
        Some s \<Rightarrow> if s = [] then Inl (Error (''account card: missing '' @ key)) else Inr s
      | None \<Rightarrow> Inl (Error (''account card: missing '' @ key)))"

definition device_to_json :: "('o, 'v) json_lib \<Rightarrow> account_card_device \<Rightarrow> 'o" where
  "device_to_json L device =
     set_text L ''kem_public_key_b64'' (d_kem_key device)
     (set_text L ''signing_public_key_b64'' (d_signing_key device)
     (set_text L ''peer_id'' (d_peer_id device) (jl_empty L)))"

definition device_from_json :: "('o, 'v) json_lib \<Rightarrow> 'o \<Rightarrow> account_card_device roe" where
  "device_from_json L row =
     (let device = \<lparr>d_peer_id = value_or (get_text L row ''peer_id'') [],
            d_signing_key = value_or (get_text L row ''signing_public_key_b64'') [],
            d_kem_key = value_or (get_text L row ''kem_public_key_b64'') []\<rparr>
      in if d_peer_id device = [] \<or> d_signing_key device = [] \<or> d_kem_key device = []
         then Inl (Error ''account card: bad device'') else Inr device)"

definition AccountCardToJson :: "('o, 'v) json_lib \<Rightarrow> account_card \<Rightarrow> 'o" where
  "AccountCardToJson L ac =
     set_text L ''card_signature_b64'' (a_signature ac)
     (jl_set L ''issued_at'' (jl_of_int L (a_issued_at ac))
     (set_objects L ''devices'' (map (device_to_json L) (a_devices ac))
     (set_when (a_nickname ac \<noteq> []) (set_text L ''nickname'' (a_nickname ac))
     (jl_set L ''card_version'' (jl_of_int L kAccountCardVersion)
     (KeyCardToJson L (a_keys ac))))))"

definition AccountCardFromJson :: "('o, 'v) json_lib \<Rightarrow> 'o \<Rightarrow> account_card roe" where
  "AccountCardFromJson L json =
     (if value_or (get_int L json ''card_version'') 0 \<noteq> kAccountCardVersion
      then Inl (Error ''account card: unsupported card_version'')
      else roe_bind (KeyCardFromJson L json) (\<lambda>keys.
        roe_bind (read_array L json ''devices'' (as_row L ''account card: bad device'' (device_from_json L))) (\<lambda>devices.
          roe_bind (RequiredString L json ''card_signature_b64'') (\<lambda>signature.
            Inr \<lparr>a_keys = keys, a_nickname = value_or (get_text L json ''nickname'') [], a_devices = devices,
              a_issued_at = value_or (get_int L json ''issued_at'') 0, a_signature = signature\<rparr>))))"

subsection \<open>Changes\<close>

definition BodyToJson :: "('o, 'v) json_lib \<Rightarrow> group_change \<Rightarrow> 'o" where
  "BodyToJson L c =
     (let f = FieldsOf (c_kind c); set_if = (\<lambda>key value. set_when (value \<noteq> []) (set_text L key value));
          ids = (\<lambda>key is. jl_set L key (jl_of_array L (map (jl_of_string L) is)));
          body = set_if ''member'' (c_member c) (jl_empty L);
          body = set_if ''invite_nonce'' (c_invite_nonce c) body;
          body = set_if ''link_id'' (c_link_id c) body;
          body = set_if ''readmits'' (c_readmits c) body;
          body = set_if ''title'' (c_title c) body;
          body = set_if ''secret_hash'' (c_secret_hash c) body;
          body = set_when (f_named f) (\<lambda>b. ids ''keeps'' (c_keeps c) (ids ''adds'' (c_adds c) b)) body;
          body = set_when (f_rename f) (set_uint L ''title_version'' (c_title_version c)) body
      in set_when (f_link f) (\<lambda>b. set_when (c_max_uses c > 0) (set_uint L ''max_uses'' (c_max_uses c))
           (set_uint L ''expires_at'' (uint_of_time (c_expires_at c)) b)) body)"

definition IdsFromJson :: "('o, 'v) json_lib \<Rightarrow> 'o \<Rightarrow> string \<Rightarrow> string list roe" where
  "IdsFromJson L body key =
     read_array L body key (\<lambda>v. case jl_as_string L v of
         None \<Rightarrow> Inl (Error (''roster change: '' @ key @ '' holds a non-string'')) | Some i \<Rightarrow> Inr i)"

definition BodyFromJson :: "('o, 'v) json_lib \<Rightarrow> 'o \<Rightarrow> group_change \<Rightarrow> group_change roe" where
  "BodyFromJson L body c =
     roe_bind (IdsFromJson L body ''adds'') (\<lambda>adds.
       roe_bind (IdsFromJson L body ''keeps'') (\<lambda>keeps.
         Inr (c\<lparr>c_member := value_or (get_text L body ''member'') [],
           c_invite_nonce := value_or (get_text L body ''invite_nonce'') [],
           c_link_id := value_or (get_text L body ''link_id'') [],
           c_readmits := value_or (get_text L body ''readmits'') [],
           c_title := value_or (get_text L body ''title'') [],
           c_title_version := value_or (get_uint L body ''title_version'') 0,
           c_secret_hash := value_or (get_text L body ''secret_hash'') [],
           c_expires_at := time_of_uint (value_or (get_uint L body ''expires_at'') 0),
           c_max_uses := value_or (get_uint L body ''max_uses'') 0,
           c_adds := adds, c_keeps := keeps\<rparr>)))"

definition ChangeToJson :: "('o, 'v) json_lib \<Rightarrow> group_change \<Rightarrow> 'o" where
  "ChangeToJson L c =
     (let json = set_text L ''group_id'' (c_group_id c) (jl_empty L);
          json = set_uint L ''base_epoch'' (c_base_epoch c) json;
          json = set_text L ''signer'' (c_signer c) json;
          json = set_text L ''signer_device'' (c_signer_device c) json;
          json = (case c_signer_card c of None \<Rightarrow> json
            | Some ac \<Rightarrow> set_object L ''signer_card'' (AccountCardToJson L ac) json);
          json = set_uint L ''at'' (uint_of_time (c_at c)) json;
          json = set_text L ''change'' (KindToString (c_kind c)) json;
          json = set_object L ''body'' (BodyToJson L c) json
      in set_text L ''signature'' (c_signature c) json)"

definition ChangeFromJson :: "('o, 'v) json_lib \<Rightarrow> 'o \<Rightarrow> group_change roe" where
  "ChangeFromJson L json =
     (let signature = value_or (get_text L json ''signature'') []
      in case (KindFromString (value_or (get_text L json ''change'') []), get_object L json ''body'') of
           (Some kind, Some body) \<Rightarrow>
             if signature = [] then Inl (Error ''roster change: missing kind, body or signature'')
             else roe_bind (BodyFromJson L body
                 \<lparr>c_group_id = value_or (get_text L json ''group_id'') [],
                  c_base_epoch = value_or (get_uint L json ''base_epoch'') 0,
                  c_signer = value_or (get_text L json ''signer'') [],
                  c_signer_device = value_or (get_text L json ''signer_device'') [],
                  c_at = time_of_uint (value_or (get_uint L json ''at'') 0), c_kind = kind,
                  c_member = [], c_invite_nonce = [], c_link_id = [], c_readmits = [], c_adds = [], c_keeps = [],
                  c_title = [], c_title_version = 0, c_secret_hash = [], c_expires_at = 0, c_max_uses = 0,
                  c_signer_card = None, c_signature = signature\<rparr>) (\<lambda>c.
               roe_bind (case get_object L json ''signer_card'' of None \<Rightarrow> Inr c
                 | Some ac \<Rightarrow> roe_bind (AccountCardFromJson L ac) (\<lambda>parsed. Inr (c\<lparr>c_signer_card := Some parsed\<rparr>))) (\<lambda>c.
                 roe_bind (CheckShape c) (\<lambda>_. Inr c)))
         | _ \<Rightarrow> Inl (Error ''roster change: missing kind, body or signature''))"

subsection \<open>Statements\<close>

definition RemovedToJson :: "('o, 'v) json_lib \<Rightarrow> removed_member \<Rightarrow> 'o" where
  "RemovedToJson L r =
     set_text L ''by'' (rv_removed_by r)
     (set_text L ''removal'' (rv_removal r) (set_text L ''identity'' (rv_identity r) (jl_empty L)))"

definition LinkToJson :: "('o, 'v) json_lib \<Rightarrow> invite_link \<Rightarrow> 'o" where
  "LinkToJson L l =
     set_when (l_uses l > 0) (set_uint L ''uses'' (l_uses l))
     (set_when (l_max_uses l > 0) (set_uint L ''max_uses'' (l_max_uses l))
     (set_uint L ''expires_at'' (uint_of_time (l_expires_at l))
     (set_text L ''maker'' (l_maker l)
     (set_text L ''secret_hash'' (l_secret_hash l)
     (set_text L ''link_id'' (l_link_id l) (jl_empty L))))))"

definition folded_to_json :: "('o, 'v) json_lib \<Rightarrow> folded_change \<Rightarrow> 'o" where
  "folded_to_json L f = set_uint L ''base_epoch'' (fc_base_epoch f) (set_text L ''id'' (fc_id f) (jl_empty L))"

definition PutOpenGroupJson :: "('o, 'v) json_lib \<Rightarrow> statement \<Rightarrow> 'o \<Rightarrow> 'o" where
  "PutOpenGroupJson L st json =
     (let json = set_when (s_title st \<noteq> [] \<or> s_title_version st > 0)
            (\<lambda>j. set_uint L ''title_version'' (s_title_version st) (set_text L ''title'' (s_title st) j)) json;
          json = set_when (s_removed st \<noteq> []) (set_objects L ''removed'' (map (RemovedToJson L) (s_removed st))) json;
          json = set_when (s_links st \<noteq> []) (set_objects L ''links'' (map (LinkToJson L) (s_links st))) json;
          json = set_when (s_folded st \<noteq> []) (set_objects L ''folded'' (map (folded_to_json L) (s_folded st))) json
      in set_when (s_change_floor st > 0) (set_uint L ''change_floor_epoch'' (s_change_floor st)) json)"

text \<open>\<open>ObjectRows\<close>: every item of the array as an object.\<close>

definition ObjectRows :: "('o, 'v) json_lib \<Rightarrow> 'o \<Rightarrow> string \<Rightarrow> string \<Rightarrow> 'o list roe" where
  "ObjectRows L json key what =
     read_array L json key (as_row L (''roster statement: '' @ what @ '' is not an object'') Inr)"

definition removed_from_json :: "('o, 'v) json_lib \<Rightarrow> 'o \<Rightarrow> removed_member" where
  "removed_from_json L row = \<lparr>rv_identity = value_or (get_text L row ''identity'') [],
     rv_removal = value_or (get_text L row ''removal'') [], rv_removed_by = value_or (get_text L row ''by'') []\<rparr>"

definition link_from_json :: "('o, 'v) json_lib \<Rightarrow> 'o \<Rightarrow> invite_link" where
  "link_from_json L row = \<lparr>l_link_id = value_or (get_text L row ''link_id'') [],
     l_secret_hash = value_or (get_text L row ''secret_hash'') [], l_maker = value_or (get_text L row ''maker'') [],
     l_expires_at = time_of_uint (value_or (get_uint L row ''expires_at'') 0),
     l_max_uses = value_or (get_uint L row ''max_uses'') 0, l_uses = value_or (get_uint L row ''uses'') 0\<rparr>"

definition folded_from_json :: "('o, 'v) json_lib \<Rightarrow> 'o \<Rightarrow> folded_change" where
  "folded_from_json L row = \<lparr>fc_id = value_or (get_text L row ''id'') [],
     fc_base_epoch = value_or (get_uint L row ''base_epoch'') 0\<rparr>"

definition ReadOpenGroupJson :: "('o, 'v) json_lib \<Rightarrow> 'o \<Rightarrow> statement \<Rightarrow> statement roe" where
  "ReadOpenGroupJson L json st =
     roe_bind (ObjectRows L json ''removed'' ''removed entry'') (\<lambda>removed.
       roe_bind (ObjectRows L json ''links'' ''link'') (\<lambda>links.
         roe_bind (ObjectRows L json ''folded'' ''folded change'') (\<lambda>folded_rows.
           Inr (st\<lparr>s_title := value_or (get_text L json ''title'') [],
             s_title_version := value_or (get_uint L json ''title_version'') 0,
             s_removed := map (removed_from_json L) removed, s_links := map (link_from_json L) links,
             s_folded := map (folded_from_json L) folded_rows,
             s_change_floor := value_or (get_uint L json ''change_floor_epoch'') 0\<rparr>))))"

definition TransferToJson :: "('o, 'v) json_lib \<Rightarrow> owner_transfer \<Rightarrow> 'o" where
  "TransferToJson L t =
     set_text L ''signature'' (t_signature t)
     (set_uint L ''roster_epoch'' (t_roster_epoch t)
     (set_text L ''to'' (t_to t)
     (set_text L ''from_public_key'' (t_from_key t)
     (set_text L ''from'' (t_from t) (jl_empty L)))))"

definition TransferFromJson :: "('o, 'v) json_lib \<Rightarrow> 'o \<Rightarrow> owner_transfer roe" where
  "TransferFromJson L json =
     (let t = \<lparr>t_from = value_or (get_text L json ''from'') [],
            t_from_key = value_or (get_text L json ''from_public_key'') [], t_to = value_or (get_text L json ''to'') [],
            t_roster_epoch = value_or (get_uint L json ''roster_epoch'') 0,
            t_signature = value_or (get_text L json ''signature'') []\<rparr>
      in if t_from t = [] \<or> t_to t = [] \<or> t_signature t = []
         then Inl (Error ''owner transfer: missing field'') else Inr t)"

definition member_to_json :: "('o, 'v) json_lib \<Rightarrow> statement_member \<Rightarrow> 'o" where
  "member_to_json L m =
     set_when (sm_added_by m \<noteq> []) (set_text L ''added_by'' (sm_added_by m))
     (set_uint L ''joined_at'' (uint_of_time (sm_joined_at m))
     (set_text L ''role'' (MemberRoleToString (sm_role m))
     (set_text L ''identity'' (sm_identity m) (jl_empty L))))"

definition member_from_json :: "('o, 'v) json_lib \<Rightarrow> 'o \<Rightarrow> statement_member" where
  "member_from_json L row = \<lparr>sm_identity = value_or (get_text L row ''identity'') [],
     sm_role = MemberRoleFromString (value_or (get_text L row ''role'') ''member''),
     sm_joined_at = time_of_uint (value_or (get_uint L row ''joined_at'') 0),
     sm_added_by = value_or (get_text L row ''added_by'') []\<rparr>"

definition StatementToJson :: "('o, 'v) json_lib \<Rightarrow> statement \<Rightarrow> 'o" where
  "StatementToJson L st =
     (let json = set_text L ''group_id'' (s_group_id st) (jl_empty L);
          json = set_uint L ''roster_epoch'' (s_roster_epoch st) json;
          json = set_objects L ''members'' (map (member_to_json L) (s_members st)) json;
          json = set_text L ''preset'' (GroupPresetToString (s_preset st)) json;
          json = PutOpenGroupJson L st json;
          json = set_text L ''owner'' (s_owner st) json;
          json = set_text L ''owner_public_key'' (s_owner_key st) json;
          json = set_when (s_owner_chain st \<noteq> [])
            (set_objects L ''owner_chain'' (map (TransferToJson L) (s_owner_chain st))) json;
          json = set_text L ''owner_signature'' (s_owner_signature st) json
      in set_when (s_dissolved st) (jl_set L ''dissolved'' (jl_of_bool L True)) json)"

definition StatementFromJson :: "('o, 'v) json_lib \<Rightarrow> 'o \<Rightarrow> statement roe" where
  "StatementFromJson L json =
     (let st = empty_statement\<lparr>s_group_id := value_or (get_text L json ''group_id'') [],
            s_roster_epoch := value_or (get_uint L json ''roster_epoch'') 0,
            s_owner := value_or (get_text L json ''owner'') [],
            s_owner_key := value_or (get_text L json ''owner_public_key'') [],
            s_owner_signature := value_or (get_text L json ''owner_signature'') [],
            s_dissolved := value_or (get_bool L json ''dissolved'') False,
            s_preset := GroupPresetFromString (value_or (get_text L json ''preset'') ''open'')\<rparr>
      in case get_array L json ''members'' of
           None \<Rightarrow> Inl (Error ''roster statement: missing field'')
         | Some items \<Rightarrow>
             if s_group_id st = [] \<or> s_owner st = [] then Inl (Error ''roster statement: missing field'')
             else roe_bind (read_items (as_row L ''roster statement: member is not an object''
                 (\<lambda>row. Inr (member_from_json L row))) items) (\<lambda>members.
               roe_bind (ReadOpenGroupJson L json (st\<lparr>s_members := members\<rparr>)) (\<lambda>st.
                 roe_bind (read_array L json ''owner_chain''
                     (as_row L ''roster statement: owner transfer is not an object'' (TransferFromJson L))) (\<lambda>chain.
                   Inr (st\<lparr>s_owner_chain := chain\<rparr>)))))"

subsection \<open>The interface of a codec\<close>

text \<open>
  What the JSON of a message, a row or a card promises: what is written is read back. Inside, what
  that gives for the arrays of such things.
\<close>

locale json_codec =
  fixes L :: "('o, 'v) json_lib"
    and to_json :: "'x \<Rightarrow> 'o"
    and from_json :: "'o \<Rightarrow> 'x roe"
    and fine :: "'x \<Rightarrow> bool"
  assumes roundtrip: "json_laws L \<Longrightarrow> fine x \<Longrightarrow> from_json (to_json x) = Inr x"
begin

lemma row: "json_laws L \<Longrightarrow> fine x \<Longrightarrow> as_row L e from_json (jl_of_object L (to_json x)) = Inr x"
  by (simp add: as_row_def json_values roundtrip)

lemma rows:
  "json_laws L \<Longrightarrow> \<forall>x\<in>set xs. fine x \<Longrightarrow>
    read_items (as_row L e from_json) (map (jl_of_object L) (map to_json xs)) = Inr xs"
  by (induction xs) (simp_all add: row)

lemma kept_rows:
  "json_laws L \<Longrightarrow> \<forall>x\<in>set xs. fine x \<Longrightarrow>
    List.map_filter (\<lambda>v. case jl_as_object L v of None \<Rightarrow> None
        | Some ob \<Rightarrow> (case from_json ob of Inl _ \<Rightarrow> None | Inr x \<Rightarrow> Some x))
      (map (jl_of_object L) (map to_json xs)) = xs"
  by (induction xs) (simp_all add: json_values roundtrip List.map_filter_simps)

end

end
