(* ===== verification/JsonClaims.thy ===== *)
theory JsonClaims
  imports RosterJson
begin

section \<open>Reading back what was written\<close>

text \<open>
  The codecs of \<open>RosterJson\<close> meet the interface \<open>json_codec\<close>: each interpretation says for which values
  what is written is read back. The values that are not are those with an empty required field, with
  a time below zero or a number from 2^63 on, which the code does not make.
\<close>

definition json_time :: "time_ms \<Rightarrow> bool" where
  "json_time t \<longleftrightarrow> 0 \<le> t \<and> t < 2 ^ 63"

lemma json_time_simps: "json_time t \<Longrightarrow> time_of_uint (uint_of_time t) = t" "json_time t \<Longrightarrow> json_num (uint_of_time t)"
  by (simp_all add: json_time_def time_roundtrip json_num_time)

lemma time_of_0 [simp]: "time_of_uint 0 = 0"
  by (simp add: time_of_uint_def)

lemmas json_laws_back = json_get json_values

lemmas json_back = json_readers json_time_simps json_when read_array_def

subsection \<open>Cards\<close>

definition device_fine :: "account_card_device \<Rightarrow> bool" where
  "device_fine d \<longleftrightarrow> d_peer_id d \<noteq> [] \<and> d_signing_key d \<noteq> [] \<and> d_kem_key d \<noteq> []"

definition card_fine :: "account_card \<Rightarrow> bool" where
  "card_fine ac \<longleftrightarrow> k_account_id (a_keys ac) \<noteq> [] \<and> k_signing_key (a_keys ac) \<noteq> [] \<and> k_kem_key (a_keys ac) \<noteq> []
     \<and> k_binding_signature (a_keys ac) \<noteq> [] \<and> (\<forall>d\<in>set (a_devices ac). device_fine d) \<and> a_signature ac \<noteq> []
     \<and> - (2 ^ 63) \<le> a_issued_at ac \<and> a_issued_at ac < 2 ^ 63"

interpretation device_codec: json_codec L "device_to_json L" "device_from_json L" device_fine for L :: "('o, 'v) json_lib"
  by unfold_locales (simp add: device_to_json_def device_from_json_def device_fine_def json_laws_back json_back)

interpretation card_codec: json_codec L "AccountCardToJson L" "AccountCardFromJson L" card_fine for L :: "('o, 'v) json_lib"
proof
  fix ac
  assume L: "json_laws L" and fine: "card_fine ac"
  have "\<forall>d\<in>set (a_devices ac). device_fine d" using fine by (simp add: card_fine_def)
  note devices = device_codec.rows [OF L this]
  show "AccountCardFromJson L (AccountCardToJson L ac) = Inr ac"
    using fine unfolding AccountCardFromJson_def KeyCardFromJson_def key_card_field_def RequiredString_def
    by (simp add: AccountCardToJson_def KeyCardToJson_def kAccountCardVersion_def json_laws_back [OF L] json_back card_fine_def
        devices del: map_map)
qed

subsection \<open>Changes\<close>

definition change_fine :: "group_change \<Rightarrow> bool" where
  "change_fine c \<longleftrightarrow> CheckShape c = Inr () \<and> c_signature c \<noteq> [] \<and> json_num (c_base_epoch c) \<and> json_time (c_at c)
     \<and> json_num (c_title_version c) \<and> json_time (c_expires_at c) \<and> json_num (c_max_uses c)
     \<and> (case c_signer_card c of None \<Rightarrow> True | Some ac \<Rightarrow> card_fine ac)"

lemma read_strings:
  "json_laws L \<Longrightarrow> read_items (\<lambda>v. case jl_as_string L v of None \<Rightarrow> Inl e | Some i \<Rightarrow> Inr i) (map (jl_of_string L) ss) = Inr ss"
  by (induction ss) (simp_all add: json_values)

lemma body_roundtrip:
  assumes "json_laws L" "change_fine c"
  shows "BodyFromJson L (BodyToJson L c) d = Inr (d\<lparr>c_member := c_member c, c_invite_nonce := c_invite_nonce c,
    c_link_id := c_link_id c, c_readmits := c_readmits c, c_title := c_title c, c_title_version := c_title_version c,
    c_secret_hash := c_secret_hash c, c_expires_at := c_expires_at c, c_max_uses := c_max_uses c, c_adds := c_adds c,
    c_keeps := c_keeps c\<rparr>)"
proof -
  have "NoForeignFields c" using assms(2) by (simp add: change_fine_def CheckShape_NoForeign)
  then show ?thesis
    using assms(2) unfolding BodyFromJson_def IdsFromJson_def BodyToJson_def Let_def
    by (cases "c_kind c")
      (simp_all add: json_laws_back [OF assms(1)] json_back read_strings [OF assms(1)] NoForeignFields_def no_fields_def
        change_fine_def word_gt_0)
qed

interpretation change_codec: json_codec L "ChangeToJson L" "ChangeFromJson L" change_fine for L :: "('o, 'v) json_lib"
proof
  fix c
  assume L: "json_laws L" and fine: "change_fine c"
  note card_back = card_codec.roundtrip [OF L]
  show "ChangeFromJson L (ChangeToJson L c) = Inr c"
    using fine body_roundtrip [OF L fine]
    unfolding ChangeFromJson_def ChangeToJson_def Let_def
    by (cases c) (simp add: json_laws_back [OF L] json_back change_fine_def card_back KindFromString_roundtrip split: option.splits)
qed

subsection \<open>Statements\<close>

definition link_fine :: "invite_link \<Rightarrow> bool" where
  "link_fine l \<longleftrightarrow> json_time (l_expires_at l) \<and> json_num (l_max_uses l) \<and> json_num (l_uses l)"

definition transfer_fine :: "owner_transfer \<Rightarrow> bool" where
  "transfer_fine t \<longleftrightarrow> t_from t \<noteq> [] \<and> t_to t \<noteq> [] \<and> t_signature t \<noteq> [] \<and> json_num (t_roster_epoch t)"

definition statement_fine :: "statement \<Rightarrow> bool" where
  "statement_fine st \<longleftrightarrow> s_group_id st \<noteq> [] \<and> s_owner st \<noteq> [] \<and> json_num (s_roster_epoch st)
     \<and> json_num (s_title_version st) \<and> json_num (s_change_floor st)
     \<and> (\<forall>m\<in>set (s_members st). json_time (sm_joined_at m)) \<and> (\<forall>l\<in>set (s_links st). link_fine l)
     \<and> (\<forall>f\<in>set (s_folded st). json_num (fc_base_epoch f)) \<and> (\<forall>t\<in>set (s_owner_chain st). transfer_fine t)"

interpretation member_codec: json_codec L "member_to_json L" "\<lambda>row. Inr (member_from_json L row)" "\<lambda>m. json_time (sm_joined_at m)"
  for L :: "('o, 'v) json_lib"
  by unfold_locales (simp add: member_to_json_def member_from_json_def json_laws_back json_back MemberRole_roundtrip)

interpretation removed_codec: json_codec L "RemovedToJson L" "\<lambda>row. Inr (removed_from_json L row)" "\<lambda>r. True"
  for L :: "('o, 'v) json_lib"
  by unfold_locales (simp add: RemovedToJson_def removed_from_json_def json_laws_back json_back)

interpretation link_codec: json_codec L "LinkToJson L" "\<lambda>row. Inr (link_from_json L row)" link_fine for L :: "('o, 'v) json_lib"
  by unfold_locales (auto simp: LinkToJson_def link_from_json_def json_laws_back json_back link_fine_def word_gt_0)

interpretation folded_codec: json_codec L "folded_to_json L" "\<lambda>row. Inr (folded_from_json L row)" "\<lambda>f. json_num (fc_base_epoch f)"
  for L :: "('o, 'v) json_lib"
  by unfold_locales (simp add: folded_to_json_def folded_from_json_def json_laws_back json_back)

interpretation transfer_codec: json_codec L "TransferToJson L" "TransferFromJson L" transfer_fine for L :: "('o, 'v) json_lib"
  by unfold_locales (simp add: TransferToJson_def TransferFromJson_def json_laws_back json_back transfer_fine_def)

text \<open>The rows of the open-group lists are taken as objects first and read afterwards.\<close>

lemma object_rows: "json_laws L \<Longrightarrow> read_items (as_row L e Inr) (map (jl_of_object L) obs) = Inr obs"
  by (induction obs) (simp_all add: as_row_def json_values)

lemma read_back:
  assumes "json_laws L"
  shows "map (removed_from_json L) (map (RemovedToJson L) rs) = rs"
    and "\<forall>l\<in>set ls. link_fine l \<Longrightarrow> map (link_from_json L) (map (LinkToJson L) ls) = ls"
    and "\<forall>f\<in>set fs. json_num (fc_base_epoch f) \<Longrightarrow> map (folded_from_json L) (map (folded_to_json L) fs) = fs"
  using removed_codec.roundtrip [OF assms] link_codec.roundtrip [OF assms] folded_codec.roundtrip [OF assms]
  by (auto intro!: map_idI)

text \<open>What the object of a statement holds under each key.\<close>

lemma set_when_two: "set_when b (\<lambda>j. f (g j)) ob = set_when b f (set_when b g ob)"
  by (simp add: set_when_def)

lemma statement_gets:
  fixes L :: "('o, 'v) json_lib" and st :: statement
  assumes "json_laws L"
  defines "J \<equiv> StatementToJson L st"
  shows "jl_get L J ''group_id'' = Some (jl_of_string L (s_group_id st))"
    and "jl_get L J ''roster_epoch'' = Some (jl_of_uint L (s_roster_epoch st))"
    and "jl_get L J ''owner'' = Some (jl_of_string L (s_owner st))"
    and "jl_get L J ''owner_public_key'' = Some (jl_of_string L (s_owner_key st))"
    and "jl_get L J ''owner_signature'' = Some (jl_of_string L (s_owner_signature st))"
    and "jl_get L J ''preset'' = Some (jl_of_string L (GroupPresetToString (s_preset st)))"
    and "jl_get L J ''members'' = Some (jl_of_array L (map (jl_of_object L) (map (member_to_json L) (s_members st))))"
    and "jl_get L J ''dissolved'' = (if s_dissolved st then Some (jl_of_bool L True) else None)"
    and "jl_get L J ''title'' = (if s_title st \<noteq> [] \<or> s_title_version st > 0 then Some (jl_of_string L (s_title st)) else None)"
    and "jl_get L J ''title_version'' =
      (if s_title st \<noteq> [] \<or> s_title_version st > 0 then Some (jl_of_uint L (s_title_version st)) else None)"
    and "jl_get L J ''change_floor_epoch'' = (if s_change_floor st > 0 then Some (jl_of_uint L (s_change_floor st)) else None)"
    and "jl_get L J ''removed'' = (if s_removed st \<noteq> []
      then Some (jl_of_array L (map (jl_of_object L) (map (RemovedToJson L) (s_removed st)))) else None)"
    and "jl_get L J ''links'' = (if s_links st \<noteq> []
      then Some (jl_of_array L (map (jl_of_object L) (map (LinkToJson L) (s_links st)))) else None)"
    and "jl_get L J ''folded'' = (if s_folded st \<noteq> []
      then Some (jl_of_array L (map (jl_of_object L) (map (folded_to_json L) (s_folded st)))) else None)"
    and "jl_get L J ''owner_chain'' = (if s_owner_chain st \<noteq> []
      then Some (jl_of_array L (map (jl_of_object L) (map (TransferToJson L) (s_owner_chain st)))) else None)"
  unfolding J_def StatementToJson_def PutOpenGroupJson_def Let_def set_when_two
    set_text_def set_uint_def set_objects_def
  by (simp_all add: json_get [OF assms(1)] del: map_map)

text \<open>A list that is left out when it is empty is read back as empty.\<close>

lemma read_omitted:
  assumes "json_laws L" "jl_get L J k = (if b then Some (jl_of_array L vs) else None)"
    and "read_items g vs = Inr ys" "\<not> b \<Longrightarrow> ys = []"
  shows "read_array L J k g = Inr ys"
  using assms(2-4) by (cases b) (simp_all add: read_array_def get_array_def json_values [OF assms(1)])

lemma statement_reads:
  fixes L :: "('o, 'v) json_lib" and st :: statement
  assumes L: "json_laws L" and fine: "statement_fine st"
  defines "J \<equiv> StatementToJson L st"
  shows "value_or (get_text L J ''group_id'') [] = s_group_id st" "value_or (get_uint L J ''roster_epoch'') 0 = s_roster_epoch st"
    and "value_or (get_text L J ''owner'') [] = s_owner st" "value_or (get_text L J ''owner_public_key'') [] = s_owner_key st"
    and "value_or (get_text L J ''owner_signature'') [] = s_owner_signature st"
    and "value_or (get_bool L J ''dissolved'') False = s_dissolved st"
    and "GroupPresetFromString (value_or (get_text L J ''preset'') ''open'') = s_preset st"
    and "get_array L J ''members'' = Some (map (jl_of_object L) (map (member_to_json L) (s_members st)))"
    and "value_or (get_text L J ''title'') [] = s_title st" "value_or (get_uint L J ''title_version'') 0 = s_title_version st"
    and "value_or (get_uint L J ''change_floor_epoch'') 0 = s_change_floor st"
    and "ObjectRows L J ''removed'' w = Inr (map (RemovedToJson L) (s_removed st))"
    and "ObjectRows L J ''links'' w = Inr (map (LinkToJson L) (s_links st))"
    and "ObjectRows L J ''folded'' w = Inr (map (folded_to_json L) (s_folded st))"
    and "read_array L J ''owner_chain'' (as_row L e (TransferFromJson L)) = Inr (s_owner_chain st)"
proof -
  note gets = statement_gets [OF L, of st, folded J_def]
  show "value_or (get_text L J ''group_id'') [] = s_group_id st" "value_or (get_uint L J ''roster_epoch'') 0 = s_roster_epoch st"
    "value_or (get_text L J ''owner'') [] = s_owner st" "value_or (get_text L J ''owner_public_key'') [] = s_owner_key st"
    "value_or (get_text L J ''owner_signature'') [] = s_owner_signature st"
    "value_or (get_bool L J ''dissolved'') False = s_dissolved st"
    "GroupPresetFromString (value_or (get_text L J ''preset'') ''open'') = s_preset st"
    "get_array L J ''members'' = Some (map (jl_of_object L) (map (member_to_json L) (s_members st)))"
    "value_or (get_text L J ''title'') [] = s_title st" "value_or (get_uint L J ''title_version'') 0 = s_title_version st"
    "value_or (get_uint L J ''change_floor_epoch'') 0 = s_change_floor st"
    using fine by (simp_all add: json_readers gets json_values [OF L] GroupPreset_roundtrip statement_fine_def word_gt_0 del: map_map)
  show "ObjectRows L J ''removed'' w = Inr (map (RemovedToJson L) (s_removed st))"
    unfolding ObjectRows_def by (rule read_omitted [OF L gets(12)]) (simp_all add: object_rows [OF L] del: map_map)
  show "ObjectRows L J ''links'' w = Inr (map (LinkToJson L) (s_links st))"
    unfolding ObjectRows_def by (rule read_omitted [OF L gets(13)]) (simp_all add: object_rows [OF L] del: map_map)
  show "ObjectRows L J ''folded'' w = Inr (map (folded_to_json L) (s_folded st))"
    unfolding ObjectRows_def by (rule read_omitted [OF L gets(14)]) (simp_all add: object_rows [OF L] del: map_map)
  show "read_array L J ''owner_chain'' (as_row L e (TransferFromJson L)) = Inr (s_owner_chain st)"
    using fine transfer_codec.rows [OF L] by (intro read_omitted [OF L gets(15)]) (simp_all add: statement_fine_def del: map_map)
qed

interpretation statement_codec: json_codec L "StatementToJson L" "StatementFromJson L" statement_fine for L :: "('o, 'v) json_lib"
proof
  fix st
  assume L: "json_laws L" and fine: "statement_fine st"
  have members: "read_items (as_row L e (\<lambda>row. Inr (member_from_json L row)))
      (map (jl_of_object L) (map (member_to_json L) (s_members st))) = Inr (s_members st)" for e
    using member_codec.rows [OF L] fine by (simp add: statement_fine_def del: map_map)
  have named: "s_group_id st \<noteq> []" "s_owner st \<noteq> []" using fine by (simp_all add: statement_fine_def)
  have reread: "map (removed_from_json L) (map (RemovedToJson L) (s_removed st)) = s_removed st"
    "map (link_from_json L) (map (LinkToJson L) (s_links st)) = s_links st"
    "map (folded_from_json L) (map (folded_to_json L) (s_folded st)) = s_folded st"
    using fine by (auto intro!: read_back [OF L] simp: statement_fine_def simp del: map_map)
  show "StatementFromJson L (StatementToJson L st) = Inr st"
    unfolding StatementFromJson_def ReadOpenGroupJson_def Let_def
    using named by (simp add: statement_reads [OF L fine] members reread empty_statement_def del: map_map)
qed

end
