(* ===== verification/SyncCodec.thy ===== *)
theory SyncCodec
  imports JsonClaims MemberCheck
begin

section \<open>The messages of the member check\<close>

text \<open>
  Models \<open>GroupRosterSyncCodec.cpp\<close>: the details of the messages that carry statements, changes,
  requests and replies, written and read through the JSON library of \<open>JsonLib\<close>. Of a thread message
  the record has the fields the codecs read or write; \<open>tm_system\<close> is \<open>content_type == System\<close>. Besides,
  the texts in which the store keeps statements and changes (\<open>roster_json_of\<close>), which the rest of the
  development takes as a parameter.
\<close>

definition ParseDetail :: "('o, 'v) json_lib \<Rightarrow> string \<Rightarrow> 'o roe" where
  "ParseDetail L text = (case jl_parse L text of
     None \<Rightarrow> Inl (Error ''roster sync: detail is not a JSON object'') | Some detail \<Rightarrow> Inr detail)"

subsection \<open>Statements\<close>

definition EncodeStatement :: "('o, 'v) json_lib \<Rightarrow> statement \<Rightarrow> string" where
  "EncodeStatement L st = jl_dump L
     (set_object L ''roster_statement'' (StatementToJson L st) (set_text L ''group_id'' (s_group_id st) (jl_empty L)))"

definition DecodeStatement :: "('o, 'v) json_lib \<Rightarrow> string \<Rightarrow> statement roe" where
  "DecodeStatement L text =
     roe_bind (ParseDetail L text) (\<lambda>detail.
       case get_object L detail ''roster_statement'' of
         None \<Rightarrow> Inl (Error ''roster sync: no roster_statement'')
       | Some json \<Rightarrow> roe_bind (StatementFromJson L json) (\<lambda>st.
           if s_group_id st \<noteq> value_or (get_text L detail ''group_id'') []
           then Inl (Error ''roster sync: statement is for another group'') else Inr st))"

definition WithStatement :: "('o, 'v) json_lib \<Rightarrow> string \<Rightarrow> statement \<Rightarrow> string roe" where
  "WithStatement L text st = roe_bind (ParseDetail L text) (\<lambda>detail.
     Inr (jl_dump L (set_object L ''roster_statement'' (StatementToJson L st) detail)))"

definition StatementIn :: "('o, 'v) json_lib \<Rightarrow> string \<Rightarrow> statement option" where
  "StatementIn L text =
     (case Option.bind (jl_parse L text) (\<lambda>detail. get_object L detail ''roster_statement'') of
        None \<Rightarrow> None
      | Some json \<Rightarrow> (case StatementFromJson L json of Inl _ \<Rightarrow> None | Inr st \<Rightarrow> Some st))"

definition WithTransfer :: "('o, 'v) json_lib \<Rightarrow> string \<Rightarrow> owner_transfer \<Rightarrow> string roe" where
  "WithTransfer L text t = roe_bind (ParseDetail L text) (\<lambda>detail.
     Inr (jl_dump L (set_object L ''owner_transfer'' (TransferToJson L t) detail)))"

definition TransferIn :: "('o, 'v) json_lib \<Rightarrow> string \<Rightarrow> owner_transfer option" where
  "TransferIn L text =
     (case Option.bind (jl_parse L text) (\<lambda>detail. get_object L detail ''owner_transfer'') of
        None \<Rightarrow> None
      | Some json \<Rightarrow> (case TransferFromJson L json of Inl _ \<Rightarrow> None | Inr t \<Rightarrow> Some t))"

subsection \<open>Changes\<close>

record 'o change_newcomer =
  cn_identity :: string
  cn_card :: "'o option"
  cn_relay_user :: string

definition EncodeChange :: "('o, 'v) json_lib \<Rightarrow> group_change \<Rightarrow> 'o change_newcomer option \<Rightarrow> string" where
  "EncodeChange L c newcomer =
     (let detail = set_object L ''change'' (ChangeToJson L c) (set_text L ''group_id'' (c_group_id c) (jl_empty L));
          detail = (case newcomer of
              None \<Rightarrow> detail
            | Some n \<Rightarrow> if cn_identity n = [] then detail
                else let row = set_text L ''member_identity'' (cn_identity n) (jl_empty L);
                         row = (case cn_card n of None \<Rightarrow> row | Some ac \<Rightarrow> set_object L ''card'' ac row);
                         row = set_when (cn_relay_user n \<noteq> []) (set_text L ''relay_user_id'' (cn_relay_user n)) row
                     in set_object L ''newcomer'' row detail)
      in jl_dump L detail)"

definition NewcomerIn :: "('o, 'v) json_lib \<Rightarrow> string \<Rightarrow> 'o change_newcomer option" where
  "NewcomerIn L text =
     (case Option.bind (jl_parse L text) (\<lambda>detail. get_object L detail ''newcomer'') of
        None \<Rightarrow> None
      | Some row \<Rightarrow>
          let identity = value_or (get_text L row ''member_identity'') []
          in if identity = [] then None
             else Some \<lparr>cn_identity = identity, cn_card = get_object L row ''card'',
               cn_relay_user = value_or (get_text L row ''relay_user_id'') []\<rparr>)"

definition DecodeChange :: "('o, 'v) json_lib \<Rightarrow> string \<Rightarrow> group_change roe" where
  "DecodeChange L text =
     roe_bind (ParseDetail L text) (\<lambda>detail.
       case get_object L detail ''change'' of
         None \<Rightarrow> Inl (Error ''group_change: no change'')
       | Some json \<Rightarrow> roe_bind (ChangeFromJson L json) (\<lambda>c.
           if c_group_id c \<noteq> value_or (get_text L detail ''group_id'') []
           then Inl (Error ''group_change: the change is for another group'') else Inr c))"

text \<open>A change among others that does not parse, or is another group's, is skipped.\<close>

definition change_in :: "('o, 'v) json_lib \<Rightarrow> 'v \<Rightarrow> group_change option" where
  "change_in L v = (case jl_as_object L v of None \<Rightarrow> None
     | Some json \<Rightarrow> (case ChangeFromJson L json of Inl _ \<Rightarrow> None | Inr c \<Rightarrow> Some c))"

definition ChangesFrom :: "('o, 'v) json_lib \<Rightarrow> 'o \<Rightarrow> string \<Rightarrow> group_change list" where
  "ChangesFrom L detail g = filter (\<lambda>c. c_group_id c = g) (keep_items (change_in L) (get_array L detail ''changes''))"

definition WithChanges :: "('o, 'v) json_lib \<Rightarrow> string \<Rightarrow> carried_changes \<Rightarrow> string roe" where
  "WithChanges L text carried = roe_bind (ParseDetail L text) (\<lambda>detail.
     Inr (jl_dump L (set_when (cd_more carried) (jl_set L ''more'' (jl_of_bool L True))
       (set_when (cd_changes carried \<noteq> []) (set_objects L ''changes'' (map (ChangeToJson L) (cd_changes carried))) detail))))"

definition ChangesIn :: "('o, 'v) json_lib \<Rightarrow> string \<Rightarrow> string \<Rightarrow> carried_changes" where
  "ChangesIn L text g =
     (case jl_parse L text of
        None \<Rightarrow> \<lparr>cd_changes = [], cd_more = False\<rparr>
      | Some detail \<Rightarrow> \<lparr>cd_changes = ChangesFrom L detail g, cd_more = value_or (get_bool L detail ''more'') False\<rparr>)"

subsection \<open>Requests and replies\<close>

definition EncodeRequest :: "('o, 'v) json_lib \<Rightarrow> roster_request \<Rightarrow> string" where
  "EncodeRequest L rq =
     (let detail = set_text L ''group_id'' (rq_group_id rq) (jl_empty L);
          detail = set_text L ''request_id'' (rq_request_id rq) detail;
          detail = set_uint L ''roster_epoch'' (rq_roster_epoch rq) detail;
          detail = set_uint L ''statement_epoch'' (rq_statement_epoch rq) detail;
          detail = set_when (rq_changes_hash rq \<noteq> []) (set_text L ''changes_hash'' (rq_changes_hash rq)) detail
      in jl_dump L (set_when (rq_after rq \<noteq> []) (set_text L ''after'' (rq_after rq)) detail))"

definition DecodeRequest :: "('o, 'v) json_lib \<Rightarrow> string \<Rightarrow> roster_request roe" where
  "DecodeRequest L text =
     roe_bind (ParseDetail L text) (\<lambda>detail.
       let rq = \<lparr>rq_group_id = value_or (get_text L detail ''group_id'') [],
             rq_request_id = value_or (get_text L detail ''request_id'') [],
             rq_roster_epoch = value_or (get_uint L detail ''roster_epoch'') 0,
             rq_statement_epoch = value_or (get_uint L detail ''statement_epoch'') 0,
             rq_changes_hash = value_or (get_text L detail ''changes_hash'') [],
             rq_after = value_or (get_text L detail ''after'') []\<rparr>
       in if rq_group_id rq = [] \<or> rq_request_id rq = []
          then Inl (Error ''roster request: missing group_id or request_id'') else Inr rq)"

definition EncodeReply :: "('o, 'v) json_lib \<Rightarrow> roster_reply \<Rightarrow> string" where
  "EncodeReply L reply =
     (let detail = set_text L ''group_id'' (rp_group_id reply) (jl_empty L);
          detail = set_text L ''request_id'' (rp_request_id reply) detail;
          detail = (case rp_statement reply of None \<Rightarrow> detail
            | Some st \<Rightarrow> set_object L ''roster_statement'' (StatementToJson L st) detail);
          detail = jl_set L ''removed'' (jl_of_bool L (rp_removed reply)) detail;
          detail = set_when (rp_changes reply \<noteq> []) (set_objects L ''changes'' (map (ChangeToJson L) (rp_changes reply))) detail
      in jl_dump L (set_when (rp_more reply) (jl_set L ''more'' (jl_of_bool L True)) detail))"

definition DecodeReply :: "('o, 'v) json_lib \<Rightarrow> string \<Rightarrow> roster_reply roe" where
  "DecodeReply L text =
     roe_bind (ParseDetail L text) (\<lambda>detail.
       let g = value_or (get_text L detail ''group_id'') []; request_id = value_or (get_text L detail ''request_id'') []
       in if g = [] \<or> request_id = [] then Inl (Error ''roster reply: missing group_id or request_id'')
          else roe_bind (case get_object L detail ''roster_statement'' of
              None \<Rightarrow> Inr None
            | Some json \<Rightarrow> roe_bind (StatementFromJson L json) (\<lambda>st.
                if s_group_id st \<noteq> g then Inl (Error ''roster reply: statement is for another group'')
                else Inr (Some st))) (\<lambda>st.
            Inr \<lparr>rp_group_id = g, rp_request_id = request_id, rp_statement = st,
              rp_removed = value_or (get_bool L detail ''removed'') False, rp_changes = ChangesFrom L detail g,
              rp_more = value_or (get_bool L detail ''more'') False\<rparr>))"

subsection \<open>Messages and stored texts\<close>

record transcript_chat_action =
  ta_label :: string
  ta_message :: string
  ta_payload :: "string option"

datatype message_delivery = DeliveryLocal | DeliveryPending | DeliveryRelayed | DeliveryFailed

record thread_message =
  tm_id :: string
  tm_thread_id :: string
  tm_sender :: string
  tm_system :: bool
  tm_text :: string
  tm_payload_json :: string
  tm_content_rml :: "string option"
  tm_chat_actions :: "transcript_chat_action list"
  tm_timestamp :: time_ms
  tm_delivery :: message_delivery
  tm_relay_visible :: bool

definition DetailOf :: "('o, 'v) json_lib \<Rightarrow> thread_message \<Rightarrow> string option" where
  "DetailOf L m = Option.bind (jl_parse L (tm_payload_json m)) (\<lambda>payload. get_text L payload ''detail'')"

definition read_text :: "('o, 'v) json_lib \<Rightarrow> ('o \<Rightarrow> 'x roe) \<Rightarrow> string \<Rightarrow> 'x option" where
  "read_text L f text = (case jl_parse L text of None \<Rightarrow> None
     | Some json \<Rightarrow> (case f json of Inl _ \<Rightarrow> None | Inr x \<Rightarrow> Some x))"

definition roster_json_of :: "('o, 'v) json_lib \<Rightarrow> roster_json" where
  "roster_json_of L = \<lparr>js_statement = (\<lambda>st. jl_dump L (StatementToJson L st)),
     js_read_statement = read_text L (StatementFromJson L),
     js_change = (\<lambda>c. jl_dump L (ChangeToJson L c)), js_read_change = read_text L (ChangeFromJson L)\<rparr>"

end
