(* ===== verification/MembershipCodec.thy ===== *)
theory MembershipCodec
  imports SyncCodec
begin

section \<open>The messages of group membership\<close>

text \<open>
  Models \<open>GroupMembershipCodec.cpp\<close>: the details of invites and membership events, the system messages
  that carry them, and what is marked on a message once it is answered. A member's card rides as a
  JSON object. Where the roster handlers (\<open>GroupMembership\<close>) read fewer fields than the message has,
  \<open>joined_event\<close> and the record extension of \<open>removed_message\<close> say which. Message ids are arguments.
\<close>

subsection \<open>System messages\<close>

definition ControlTypeFromMessage :: "('o, 'v) json_lib \<Rightarrow> thread_message \<Rightarrow> control_type option" where
  "ControlTypeFromMessage L m =
     (if \<not> tm_system m \<or> tm_payload_json m = [] then None
      else case jl_parse L (tm_payload_json m) of
        None \<Rightarrow> None
      | Some payload \<Rightarrow> Option.bind (get_text L payload ''control_type'') GroupMembershipControlTypeFromWire)"

definition DetailFromMessage ::
  "('o, 'v) json_lib \<Rightarrow> thread_message \<Rightarrow> control_type \<Rightarrow> string \<Rightarrow> string \<Rightarrow> string roe" where
  "DetailFromMessage L m expected not_type_error missing =
     (if ControlTypeFromMessage L m \<noteq> Some expected then Inl (Error not_type_error)
      else case DetailOf L m of None \<Rightarrow> Inl (Error missing) | Some detail \<Rightarrow> Inr detail)"

definition BuildSystemMessage ::
  "('o, 'v) json_lib \<Rightarrow> string \<Rightarrow> time_ms \<Rightarrow> string \<Rightarrow> control_type \<Rightarrow> string \<Rightarrow> string \<Rightarrow> string \<Rightarrow> thread_message" where
  "BuildSystemMessage L uuid now thread_id type display_text detail sender =
     \<lparr>tm_id = uuid, tm_thread_id = thread_id, tm_sender = sender, tm_system = True, tm_text = display_text,
      tm_payload_json = jl_dump L (set_text L ''detail'' detail
        (set_text L ''control_type'' (GroupMembershipControlTypeToWire type) (jl_empty L))),
      tm_content_rml = None, tm_chat_actions = [], tm_timestamp = now, tm_delivery = DeliveryLocal, tm_relay_visible = False\<rparr>"

definition IsHiddenInDirectThread :: "('o, 'v) json_lib \<Rightarrow> thread_message \<Rightarrow> bool" where
  "IsHiddenInDirectThread L m \<longleftrightarrow> (case ControlTypeFromMessage L m of None \<Rightarrow> False | Some t \<Rightarrow> t \<noteq> GroupInvite)"

text \<open>\<open>ReadRosterEpoch\<close>, and a detail that must be a JSON object.\<close>

definition ReadRosterEpoch :: "('o, 'v) json_lib \<Rightarrow> 'o \<Rightarrow> u64" where
  "ReadRosterEpoch L json = value_or (get_uint L json ''roster_epoch'') 0"

definition parse_or :: "('o, 'v) json_lib \<Rightarrow> string \<Rightarrow> string \<Rightarrow> ('o \<Rightarrow> 'x roe) \<Rightarrow> 'x roe" where
  "parse_or L text e f = (case jl_parse L text of None \<Rightarrow> Inl (Error e) | Some json \<Rightarrow> f json)"

subsection \<open>Invites\<close>

definition EncodeInvite :: "('o, 'v) json_lib \<Rightarrow> group_invite_payload \<Rightarrow> string" where
  "EncodeInvite L p =
     (let json = set_text L ''group_id'' (ip_group_id p) (jl_empty L);
          json = set_text L ''group_title'' (ip_group_title p) json;
          json = set_text L ''inviter_identity'' (ip_inviter p) json;
          json = set_text L ''invitee_identity'' (ip_invitee p) json;
          json = set_text L ''invite_nonce'' (ip_nonce p) json;
          json = set_uint L ''roster_epoch'' (ip_roster_epoch p) json;
          json = set_text L ''actor_role'' (MemberRoleToString (ip_actor_role p)) json;
          json = (case ip_expires_at p of None \<Rightarrow> json | Some t \<Rightarrow> jl_set L ''expires_at'' (jl_of_int L t) json);
          json = set_when (ip_owner p \<noteq> [] \<and> ip_owner p \<noteq> ip_inviter p) (set_text L ''owner_identity'' (ip_owner p)) json;
          json = set_when (ip_member_count p > 0) (set_uint L ''member_count'' (ip_member_count p)) json;
          json = set_when (ip_context p \<noteq> []) (set_text L ''context'' (ip_context p)) json;
          json = set_when (ip_call_id p \<noteq> []) (set_text L ''call_id'' (ip_call_id p)) json
      in jl_dump L json)"

definition DecodeInvite :: "('o, 'v) json_lib \<Rightarrow> string \<Rightarrow> group_invite_payload roe" where
  "DecodeInvite L text = parse_or L text ''Invalid group invite JSON'' (\<lambda>json.
     case get_text L json ''group_id'' of
       None \<Rightarrow> Inl (Error ''Missing group_id'')
     | Some g \<Rightarrow> (case get_text L json ''inviter_identity'' of
         None \<Rightarrow> Inl (Error ''Missing inviter_identity'')
       | Some inviter \<Rightarrow> (case get_text L json ''invitee_identity'' of
           None \<Rightarrow> Inl (Error ''Missing invitee_identity'')
         | Some invitee \<Rightarrow> (case get_text L json ''invite_nonce'' of
             None \<Rightarrow> Inl (Error ''Missing invite_nonce'')
           | Some nonce \<Rightarrow> Inr \<lparr>ip_group_id = g, ip_group_title = value_or (get_text L json ''group_title'') [],
               ip_inviter = inviter, ip_invitee = invitee, ip_nonce = nonce,
               ip_roster_epoch = value_or (get_uint L json ''roster_epoch'') 0,
               ip_expires_at = get_int L json ''expires_at'',
               ip_actor_role = value_or (map_option MemberRoleFromString (get_text L json ''actor_role'')) Owner,
               ip_owner = value_or (get_text L json ''owner_identity'') [],
               ip_member_count = value_or (get_uint L json ''member_count'') 0,
               ip_context = value_or (get_text L json ''context'') [],
               ip_call_id = value_or (get_text L json ''call_id'') []\<rparr>))))"

text \<open>\<open>GroupInvitePayload::Owner\<close>: the inviter, where the invite names no other.\<close>

definition PayloadOwner :: "group_invite_payload \<Rightarrow> string" where
  "PayloadOwner p = (if ip_owner p = [] then ip_inviter p else ip_owner p)"

definition DecodeInviteFromMessage :: "('o, 'v) json_lib \<Rightarrow> thread_message \<Rightarrow> group_invite_payload roe" where
  "DecodeInviteFromMessage L m =
     roe_bind (DetailFromMessage L m GroupInvite ''Message is not a group invite'' ''Missing invite detail'') (DecodeInvite L)"

definition MakeStringObject :: "('o, 'v) json_lib \<Rightarrow> (string \<times> string) list \<Rightarrow> 'o" where
  "MakeStringObject L entries = fold (\<lambda>(k, v). set_text L k v) entries (jl_empty L)"

definition EncodeInviteResponse :: "('o, 'v) json_lib \<Rightarrow> string \<Rightarrow> string \<Rightarrow> string" where
  "EncodeInviteResponse L nonce g = jl_dump L (MakeStringObject L [(''invite_nonce'', nonce), (''group_id'', g)])"

definition EncodeInviteRefused :: "('o, 'v) json_lib \<Rightarrow> string \<Rightarrow> string \<Rightarrow> string \<Rightarrow> string" where
  "EncodeInviteRefused L nonce g reason =
     jl_dump L (MakeStringObject L [(''invite_nonce'', nonce), (''group_id'', g), (''reason'', reason)])"

definition DecodeInviteResponse :: "('o, 'v) json_lib \<Rightarrow> string \<Rightarrow> (string \<times> string) roe" where
  "DecodeInviteResponse L text = parse_or L text ''Invalid invite response JSON'' (\<lambda>json.
     case (get_text L json ''invite_nonce'', get_text L json ''group_id'') of
       (Some nonce, Some g) \<Rightarrow> Inr (nonce, g)
     | _ \<Rightarrow> Inl (Error ''Invalid invite response JSON''))"

record invite_response_payload =
  ir_nonce :: string
  ir_group_id :: string
  ir_control_type :: control_type
  ir_reason :: string

definition DecodeInviteResponseFromMessage :: "('o, 'v) json_lib \<Rightarrow> thread_message \<Rightarrow> invite_response_payload roe" where
  "DecodeInviteResponseFromMessage L m =
     (case ControlTypeFromMessage L m of
        None \<Rightarrow> Inl (Error ''Message is not a group invite response'')
      | Some type \<Rightarrow>
          if type \<notin> {GroupInviteAccept, GroupInviteDecline, GroupInviteRefused}
          then Inl (Error ''Message is not a group invite response'')
          else case DetailOf L m of
            None \<Rightarrow> Inl (Error ''Missing invite response detail'')
          | Some detail \<Rightarrow> roe_bind (DecodeInviteResponse L detail) (\<lambda>(nonce, g).
              Inr \<lparr>ir_nonce = nonce, ir_group_id = g, ir_control_type = type,
                ir_reason = (case jl_parse L detail of None \<Rightarrow> []
                  | Some json \<Rightarrow> value_or (get_text L json ''reason'') [])\<rparr>))"

subsection \<open>Joining and leaving\<close>

record 'o joined_entry =
  jn_identity :: string
  jn_role :: member_role
  jn_card :: "'o option"
  jn_relay_user :: string

record 'o joined_message =
  jm_group_id :: string
  jm_identity :: string
  jm_role :: member_role
  jm_roster_epoch :: u64
  jm_members :: "'o joined_entry list"
  jm_added_by :: string
  jm_by_link :: bool
  jm_invite_nonce :: string
  jm_context :: string

text \<open>What the roster handler reads of it.\<close>

definition joined_event :: "'o joined_message \<Rightarrow> member_joined_payload" where
  "joined_event m = \<lparr>jp_group_id = jm_group_id m, jp_identity = jm_identity m, jp_role = jm_role m,
     jp_roster_epoch = jm_roster_epoch m,
     jp_members = map (\<lambda>e. \<lparr>je_identity = jn_identity e, je_role = jn_role e\<rparr>) (jm_members m)\<rparr>"

definition joined_entry_to_json :: "('o, 'v) json_lib \<Rightarrow> 'o joined_entry \<Rightarrow> 'o" where
  "joined_entry_to_json L e =
     (let row = set_text L ''member_identity'' (jn_identity e) (jl_empty L);
          row = set_text L ''role'' (MemberRoleToString (jn_role e)) row;
          row = (case jn_card e of None \<Rightarrow> row | Some ac \<Rightarrow> set_object L ''card'' ac row)
      in set_when (jn_relay_user e \<noteq> []) (set_text L ''relay_user_id'' (jn_relay_user e)) row)"

definition EncodeMemberJoined :: "('o, 'v) json_lib \<Rightarrow> 'o joined_message \<Rightarrow> string" where
  "EncodeMemberJoined L m =
     (let json = set_text L ''group_id'' (jm_group_id m) (jl_empty L);
          json = set_text L ''member_identity'' (jm_identity m) json;
          json = set_text L ''role'' (MemberRoleToString (jm_role m)) json;
          json = set_uint L ''roster_epoch'' (jm_roster_epoch m) json;
          json = set_when (jm_members m \<noteq> []) (set_objects L ''members'' (map (joined_entry_to_json L) (jm_members m))) json;
          json = set_when (jm_context m \<noteq> []) (set_text L ''context'' (jm_context m)) json;
          json = set_when (jm_added_by m \<noteq> []) (set_text L ''added_by'' (jm_added_by m)) json;
          json = set_when (jm_by_link m) (jl_set L ''by_link'' (jl_of_bool L True)) json;
          json = set_when (jm_invite_nonce m \<noteq> []) (set_text L ''invite_nonce'' (jm_invite_nonce m)) json
      in jl_dump L json)"

definition joined_alone :: "string \<Rightarrow> string \<Rightarrow> member_role \<Rightarrow> u64 \<Rightarrow> 'o joined_message" where
  "joined_alone g identity role epoch = \<lparr>jm_group_id = g, jm_identity = identity, jm_role = role, jm_roster_epoch = epoch,
     jm_members = [], jm_added_by = [], jm_by_link = False, jm_invite_nonce = [], jm_context = []\<rparr>"

definition WithoutCards :: "('o, 'v) json_lib \<Rightarrow> 'o joined_message \<Rightarrow> string" where
  "WithoutCards L m = EncodeMemberJoined L (m\<lparr>jm_members := map (\<lambda>e. e\<lparr>jn_card := None\<rparr>) (jm_members m)\<rparr>)"

text \<open>A row that is no object, or names nobody, is skipped.\<close>

definition joined_entry_from_json :: "('o, 'v) json_lib \<Rightarrow> 'v \<Rightarrow> 'o joined_entry option" where
  "joined_entry_from_json L v =
     (case jl_as_object L v of
        None \<Rightarrow> None
      | Some row \<Rightarrow> (case get_text L row ''member_identity'' of
          None \<Rightarrow> None
        | Some identity \<Rightarrow> Some \<lparr>jn_identity = identity,
            jn_role = value_or (map_option MemberRoleFromString (get_text L row ''role'')) Member,
            jn_card = get_object L row ''card'', jn_relay_user = value_or (get_text L row ''relay_user_id'') []\<rparr>))"

definition DecodeMemberJoined :: "('o, 'v) json_lib \<Rightarrow> string \<Rightarrow> 'o joined_message roe" where
  "DecodeMemberJoined L text = parse_or L text ''Invalid member_joined detail'' (\<lambda>json.
     let m = \<lparr>jm_group_id = value_or (get_text L json ''group_id'') [],
           jm_identity = value_or (get_text L json ''member_identity'') [],
           jm_role = value_or (map_option MemberRoleFromString (get_text L json ''role'')) Member,
           jm_roster_epoch = ReadRosterEpoch L json,
           jm_members = keep_items (joined_entry_from_json L) (get_array L json ''members''),
           jm_added_by = value_or (get_text L json ''added_by'') [],
           jm_by_link = value_or (get_bool L json ''by_link'') False,
           jm_invite_nonce = value_or (get_text L json ''invite_nonce'') [],
           jm_context = value_or (get_text L json ''context'') []\<rparr>
     in if jm_group_id m = [] \<or> jm_identity m = []
        then Inl (Error ''member_joined missing group_id or member_identity'') else Inr m)"

definition DecodeMemberJoinedFromMessage :: "('o, 'v) json_lib \<Rightarrow> thread_message \<Rightarrow> 'o joined_message roe" where
  "DecodeMemberJoinedFromMessage L m = roe_bind
     (DetailFromMessage L m MemberJoined ''Message is not a member_joined'' ''Missing membership detail'') (DecodeMemberJoined L)"

record member_left_payload =
  ml_group_id :: string
  ml_identity :: string
  ml_roster_epoch :: u64

definition EncodeMemberLeft :: "('o, 'v) json_lib \<Rightarrow> member_left_payload \<Rightarrow> string" where
  "EncodeMemberLeft L p = jl_dump L (set_uint L ''roster_epoch'' (ml_roster_epoch p)
     (set_text L ''member_identity'' (ml_identity p) (set_text L ''group_id'' (ml_group_id p) (jl_empty L))))"

definition DecodeMemberLeft :: "('o, 'v) json_lib \<Rightarrow> string \<Rightarrow> member_left_payload roe" where
  "DecodeMemberLeft L text = parse_or L text ''Invalid member_left detail'' (\<lambda>json.
     let p = \<lparr>ml_group_id = value_or (get_text L json ''group_id'') [],
           ml_identity = value_or (get_text L json ''member_identity'') [], ml_roster_epoch = ReadRosterEpoch L json\<rparr>
     in if ml_group_id p = [] \<or> ml_identity p = []
        then Inl (Error ''member_left missing group_id or member_identity'') else Inr p)"

definition DecodeMemberLeftFromMessage :: "('o, 'v) json_lib \<Rightarrow> thread_message \<Rightarrow> member_left_payload roe" where
  "DecodeMemberLeftFromMessage L m = roe_bind
     (DetailFromMessage L m MemberLeft ''Message is not a member_left'' ''Missing membership detail'') (DecodeMemberLeft L)"

record removed_message = member_removed_payload +
  mr_removed_by :: string

definition EncodeMemberRemoved :: "('o, 'v) json_lib \<Rightarrow> removed_message \<Rightarrow> string" where
  "EncodeMemberRemoved L p = jl_dump L (set_when (mr_removed_by p \<noteq> []) (set_text L ''by'' (mr_removed_by p))
     (set_uint L ''roster_epoch'' (mr_roster_epoch p)
     (set_text L ''member_identity'' (mr_identity p) (set_text L ''group_id'' (mr_group_id p) (jl_empty L)))))"

definition DecodeMemberRemoved :: "('o, 'v) json_lib \<Rightarrow> string \<Rightarrow> removed_message roe" where
  "DecodeMemberRemoved L text = parse_or L text ''Invalid member_removed detail'' (\<lambda>json.
     let p = \<lparr>mr_group_id = value_or (get_text L json ''group_id'') [],
           mr_identity = value_or (get_text L json ''member_identity'') [], mr_roster_epoch = ReadRosterEpoch L json,
           mr_removed_by = value_or (get_text L json ''by'') []\<rparr>
     in if mr_group_id p = [] \<or> mr_identity p = []
        then Inl (Error ''member_removed missing group_id or member_identity'') else Inr p)"

definition DecodeMemberRemovedFromMessage :: "('o, 'v) json_lib \<Rightarrow> thread_message \<Rightarrow> removed_message roe" where
  "DecodeMemberRemovedFromMessage L m = roe_bind
     (DetailFromMessage L m MemberRemoved ''Message is not a member_removed'' ''Missing membership detail'') (DecodeMemberRemoved L)"

subsection \<open>Roles, presets, ownership and titles\<close>

record role_changed_payload =
  rl_group_id :: string
  rl_identity :: string
  rl_role :: member_role
  rl_roster_epoch :: u64

definition EncodeMemberRoleChanged :: "('o, 'v) json_lib \<Rightarrow> role_changed_payload \<Rightarrow> string roe" where
  "EncodeMemberRoleChanged L p =
     (if rl_role p = Owner then Inl (Error ''member_role_changed: ownership moves by transfer only'')
      else Inr (jl_dump L (set_uint L ''roster_epoch'' (rl_roster_epoch p)
        (set_text L ''role'' (MemberRoleToString (rl_role p))
        (set_text L ''member_identity'' (rl_identity p) (set_text L ''group_id'' (rl_group_id p) (jl_empty L)))))))"

definition DecodeMemberRoleChanged :: "('o, 'v) json_lib \<Rightarrow> string \<Rightarrow> role_changed_payload roe" where
  "DecodeMemberRoleChanged L text = parse_or L text ''Invalid member_role_changed detail'' (\<lambda>json.
     let role = value_or (get_text L json ''role'') []
     in if role \<noteq> ''admin'' \<and> role \<noteq> ''member'' then Inl (Error ''member_role_changed: role must be admin or member'')
        else let p = \<lparr>rl_group_id = value_or (get_text L json ''group_id'') [],
                   rl_identity = value_or (get_text L json ''member_identity'') [],
                   rl_role = MemberRoleFromString role, rl_roster_epoch = ReadRosterEpoch L json\<rparr>
             in if rl_group_id p = [] \<or> rl_identity p = []
                then Inl (Error ''member_role_changed missing group_id or member_identity'') else Inr p)"

definition DecodeMemberRoleChangedFromMessage :: "('o, 'v) json_lib \<Rightarrow> thread_message \<Rightarrow> role_changed_payload roe" where
  "DecodeMemberRoleChangedFromMessage L m = roe_bind
     (DetailFromMessage L m MemberRoleChanged ''Message is not a member_role_changed'' ''Missing membership detail'')
     (DecodeMemberRoleChanged L)"

record preset_changed_payload =
  pc_group_id :: string
  pc_preset :: group_preset
  pc_roster_epoch :: u64

definition EncodeGroupPresetChanged :: "('o, 'v) json_lib \<Rightarrow> preset_changed_payload \<Rightarrow> string" where
  "EncodeGroupPresetChanged L p = jl_dump L (set_uint L ''roster_epoch'' (pc_roster_epoch p)
     (set_text L ''preset'' (GroupPresetToString (pc_preset p)) (set_text L ''group_id'' (pc_group_id p) (jl_empty L))))"

definition DecodeGroupPresetChanged :: "('o, 'v) json_lib \<Rightarrow> string \<Rightarrow> preset_changed_payload roe" where
  "DecodeGroupPresetChanged L text = parse_or L text ''Invalid group_preset_changed detail'' (\<lambda>json.
     let preset = value_or (get_text L json ''preset'') []
     in if preset \<noteq> ''open'' \<and> preset \<noteq> ''managed'' then Inl (Error ''group_preset_changed: preset must be open or managed'')
        else let p = \<lparr>pc_group_id = value_or (get_text L json ''group_id'') [], pc_preset = GroupPresetFromString preset,
                   pc_roster_epoch = ReadRosterEpoch L json\<rparr>
             in if pc_group_id p = [] then Inl (Error ''group_preset_changed missing group_id'') else Inr p)"

definition DecodeGroupPresetChangedFromMessage :: "('o, 'v) json_lib \<Rightarrow> thread_message \<Rightarrow> preset_changed_payload roe" where
  "DecodeGroupPresetChangedFromMessage L m = roe_bind
     (DetailFromMessage L m GroupPresetChanged ''Message is not a group_preset_changed'' ''Missing membership detail'')
     (DecodeGroupPresetChanged L)"

definition EncodeOwnerTransferred :: "('o, 'v) json_lib \<Rightarrow> owner_transferred_payload \<Rightarrow> string" where
  "EncodeOwnerTransferred L p = jl_dump L (jl_set L ''leave_previous'' (jl_of_bool L (ot_leave_previous p))
     (set_uint L ''roster_epoch'' (ot_roster_epoch p)
     (set_text L ''new_owner_identity'' (ot_new_owner p) (set_text L ''group_id'' (ot_group_id p) (jl_empty L)))))"

definition DecodeOwnerTransferred :: "('o, 'v) json_lib \<Rightarrow> string \<Rightarrow> owner_transferred_payload roe" where
  "DecodeOwnerTransferred L text = parse_or L text ''Invalid owner_transferred detail'' (\<lambda>json.
     let p = \<lparr>ot_group_id = value_or (get_text L json ''group_id'') [],
           ot_new_owner = value_or (get_text L json ''new_owner_identity'') [], ot_roster_epoch = ReadRosterEpoch L json,
           ot_leave_previous = value_or (get_bool L json ''leave_previous'') False\<rparr>
     in if ot_group_id p = [] \<or> ot_new_owner p = []
        then Inl (Error ''owner_transferred missing group_id or new_owner_identity'') else Inr p)"

definition DecodeOwnerTransferredFromMessage :: "('o, 'v) json_lib \<Rightarrow> thread_message \<Rightarrow> owner_transferred_payload roe" where
  "DecodeOwnerTransferredFromMessage L m = roe_bind
     (DetailFromMessage L m OwnerTransferred ''Message is not an owner_transferred'' ''Missing membership detail'')
     (DecodeOwnerTransferred L)"

definition EncodeGroupRenamed :: "('o, 'v) json_lib \<Rightarrow> group_renamed_payload \<Rightarrow> string" where
  "EncodeGroupRenamed L p = jl_dump L (set_uint L ''title_version'' (gr_title_version p)
     (set_uint L ''roster_epoch'' (gr_roster_epoch p)
     (set_text L ''title'' (gr_title p) (set_text L ''group_id'' (gr_group_id p) (jl_empty L)))))"

definition DecodeGroupRenamed :: "('o, 'v) json_lib \<Rightarrow> string \<Rightarrow> group_renamed_payload roe" where
  "DecodeGroupRenamed L text = parse_or L text ''Invalid group_renamed detail'' (\<lambda>json.
     let p = \<lparr>gr_group_id = value_or (get_text L json ''group_id'') [], gr_title = value_or (get_text L json ''title'') [],
           gr_roster_epoch = ReadRosterEpoch L json, gr_title_version = value_or (get_uint L json ''title_version'') 0\<rparr>
     in if gr_group_id p = [] \<or> gr_title p = [] then Inl (Error ''group_renamed missing group_id or title'') else Inr p)"

definition DecodeGroupRenamedFromMessage :: "('o, 'v) json_lib \<Rightarrow> thread_message \<Rightarrow> group_renamed_payload roe" where
  "DecodeGroupRenamedFromMessage L m = roe_bind
     (DetailFromMessage L m GroupRenamed ''Message is not a group rename'' ''Missing group_renamed detail'') (DecodeGroupRenamed L)"

subsection \<open>Forks, dissolves and the policy\<close>

datatype group_history_mode = Fresh | CopyToForkPoint | UserSelected

fun HistoryModeToString :: "group_history_mode \<Rightarrow> string" where
  "HistoryModeToString Fresh = ''fresh''"
| "HistoryModeToString CopyToForkPoint = ''copy_to_fork_point''"
| "HistoryModeToString UserSelected = ''user_selected''"

record group_fork_payload =
  gf_source_group_id :: string
  gf_new_group_id :: string
  gf_new_group_title :: string
  gf_selected :: "string list"
  gf_history_mode :: group_history_mode
  gf_fork_message_id :: "string option"
  gf_actor :: string
  gf_roster_epoch :: u64

definition EncodeGroupForked :: "('o, 'v) json_lib \<Rightarrow> group_fork_payload \<Rightarrow> string" where
  "EncodeGroupForked L p =
     (let json = set_text L ''source_group_id'' (gf_source_group_id p) (jl_empty L);
          json = set_text L ''new_group_id'' (gf_new_group_id p) json;
          json = set_text L ''new_group_title'' (gf_new_group_title p) json;
          json = jl_set L ''selected_identities'' (jl_of_array L (map (jl_of_string L) (gf_selected p))) json;
          json = set_text L ''history_mode'' (HistoryModeToString (gf_history_mode p)) json;
          json = set_text L ''actor_identity'' (gf_actor p) json;
          json = set_uint L ''roster_epoch'' (gf_roster_epoch p) json
      in jl_dump L (case gf_fork_message_id p of None \<Rightarrow> json | Some i \<Rightarrow> set_text L ''fork_message_id'' i json))"

definition EncodeGroupDissolved :: "('o, 'v) json_lib \<Rightarrow> string \<Rightarrow> string \<Rightarrow> string roe" where
  "EncodeGroupDissolved L g owner =
     (if g = [] then Inl (Error ''group_dissolved: group_id required'')
      else Inr (jl_dump L (MakeStringObject L [(''group_id'', g), (''owner'', owner)])))"

text \<open>The policy record has the preset alone.\<close>

definition DecodeGroupPolicy :: "('o, 'v) json_lib \<Rightarrow> string \<Rightarrow> group_preset roe" where
  "DecodeGroupPolicy L text = parse_or L text ''Invalid group policy JSON'' (\<lambda>json.
     Inr (value_or (map_option GroupPresetFromString (get_text L json ''preset'')) Open))"

definition EncodeGroupPolicy :: "('o, 'v) json_lib \<Rightarrow> group_preset \<Rightarrow> string" where
  "EncodeGroupPolicy L preset = jl_dump L (set_text L ''preset'' (GroupPresetToString preset) (jl_empty L))"

subsection \<open>Cards in the chat\<close>

definition chat_action :: "('o, 'v) json_lib \<Rightarrow> string \<Rightarrow> string \<Rightarrow> (string \<times> string) list \<Rightarrow> transcript_chat_action" where
  "chat_action L label message entries =
     \<lparr>ta_label = label, ta_message = message, ta_payload = Some (jl_dump L (MakeStringObject L entries))\<rparr>"

definition BuildInviteChatActions :: "('o, 'v) json_lib \<Rightarrow> group_invite_payload \<Rightarrow> transcript_chat_action list" where
  "BuildInviteChatActions L invite =
     [chat_action L ''Accept'' ''Accept group invitation''
        [(''type'', ''accept_group_invite''), (''invite_nonce'', ip_nonce invite)],
      chat_action L ''Decline'' ''Decline group invitation''
        [(''type'', ''decline_group_invite''), (''invite_nonce'', ip_nonce invite)],
      chat_action L ''Block'' ''Block inviter''
        [(''type'', ''block_group_inviter''), (''inviter_identity'', ip_inviter invite), (''invite_nonce'', ip_nonce invite)]]"

definition BuildOwnerUnreachableChatActions :: "('o, 'v) json_lib \<Rightarrow> string \<Rightarrow> string \<Rightarrow> transcript_chat_action list" where
  "BuildOwnerUnreachableChatActions L g owner =
     [chat_action L ''Start a new group'' ''Fork this group'' [(''type'', ''fork_group''), (''group_id'', g)],
      chat_action L ''Message owner'' ''Open a chat with the owner''
        [(''type'', ''message_group_owner''), (''owner_identity'', owner)],
      chat_action L ''Got it'' ''Dismiss this note'' [(''type'', ''dismiss_owner_advisory''), (''group_id'', g)]]"

definition IsOwnerUnreachableAdvisory :: "('o, 'v) json_lib \<Rightarrow> thread_message \<Rightarrow> bool" where
  "IsOwnerUnreachableAdvisory L m \<longleftrightarrow> ControlTypeFromMessage L m = Some GroupOwnerUnreachable"

text \<open>A resolution is written into the payload the message has, or into an empty one.\<close>

definition payload_or_empty :: "('o, 'v) json_lib \<Rightarrow> thread_message \<Rightarrow> 'o" where
  "payload_or_empty L m = value_or (jl_parse L (tm_payload_json m)) (jl_empty L)"

definition ApplyOwnerUnreachableResolution :: "('o, 'v) json_lib \<Rightarrow> thread_message \<Rightarrow> thread_message" where
  "ApplyOwnerUnreachableResolution L m =
     m\<lparr>tm_payload_json := jl_dump L (set_text L ''resolution'' ''dismissed''
         (set_text L ''control_type'' (GroupMembershipControlTypeToWire GroupOwnerUnreachable) (payload_or_empty L m))),
       tm_chat_actions := [], tm_content_rml := None\<rparr>"

definition IsOwnerUnreachableResolved :: "('o, 'v) json_lib \<Rightarrow> thread_message \<Rightarrow> bool" where
  "IsOwnerUnreachableResolved L m \<longleftrightarrow> tm_payload_json m \<noteq> []
     \<and> (case jl_parse L (tm_payload_json m) of None \<Rightarrow> False
        | Some payload \<Rightarrow> get_text L payload ''resolution'' = Some ''dismissed'')"

fun resolution_word :: "invite_status \<Rightarrow> string" where
  "resolution_word Accepted = ''accepted''"
| "resolution_word Declined = ''declined''"
| "resolution_word Blocked = ''blocked''"
| "resolution_word _ = ''resolved''"

definition ApplyInviteResolution ::
  "('o, 'v) json_lib \<Rightarrow> thread_message \<Rightarrow> invite_status \<Rightarrow> string \<Rightarrow> thread_message" where
  "ApplyInviteResolution L m status status_text =
     m\<lparr>tm_payload_json := jl_dump L (set_text L ''resolution'' (resolution_word status)
         (set_text L ''control_type'' (GroupMembershipControlTypeToWire GroupInvite) (payload_or_empty L m))),
       tm_text := status_text, tm_chat_actions := [], tm_content_rml := None\<rparr>"

definition InviteResolutionFromMessage :: "('o, 'v) json_lib \<Rightarrow> thread_message \<Rightarrow> invite_status option" where
  "InviteResolutionFromMessage L m =
     (if tm_payload_json m = [] then None
      else case Option.bind (jl_parse L (tm_payload_json m)) (\<lambda>payload. get_text L payload ''resolution'') of
        None \<Rightarrow> None
      | Some v \<Rightarrow> Some (if v = ''accepted'' then Accepted else if v = ''declined'' then Declined
          else if v = ''blocked'' then Blocked else Expired))"

end
