(* ===== verification/GroupSyncFamily.thy ===== *)
theory GroupSyncFamily
  imports MembershipCodec
begin

section \<open>The control family of the member check\<close>

text \<open>
  Models \<open>GroupRosterSyncFamily.cpp\<close>: what the receiver of a roster request, a roster reply or the
  dissolve of an own device does with it. The callbacks it hands work to are returned as a list of
  calls; \<open>family_hooks\<close> says which of them are set. What is logged is left out.
\<close>

record group_dissolved_end =
  de_group_id :: string
  de_owner :: string
  de_voided :: "pending_group_invite list"

datatype family_call =
    CallAnswer roster_request string
  | CallDissolved group_dissolved_end
  | CallApplied string "group_change list"
  | CallAskMore string string string

record family_hooks =
  fh_answer :: bool
  fh_dissolved :: bool
  fh_applied :: bool
  fh_ask_more :: bool

definition LaneTypeOf :: "('o, 'v) json_lib \<Rightarrow> thread_message \<Rightarrow> control_type option" where
  "LaneTypeOf L m =
     (if \<not> tm_system m then None
      else case ControlTypeFromMessage L m of
        None \<Rightarrow> None
      | Some kind \<Rightarrow>
          if kind \<noteq> GroupRosterRequest \<and> kind \<noteq> GroupRosterReply \<and> kind \<noteq> GroupDissolvedSibling then None
          else Some kind)"

definition ApplyRequest ::
  "('o, 'v) json_lib \<Rightarrow> family_hooks \<Rightarrow> string \<Rightarrow> string \<Rightarrow> string \<Rightarrow> family_call list store_op" where
  "ApplyRequest L hooks local detail who_asks =
     (case DecodeRequest L detail of
        Inl e \<Rightarrow> State_Monad.return (Inl e)
      | Inr request \<Rightarrow> roe_then (IsMember (rq_group_id request) local) (\<lambda>member.
          ret_ok (if member \<and> who_asks \<noteq> local \<and> fh_answer hooks then [CallAnswer request who_asks] else [])))"

text \<open>After a reply that was cut short, the asker asks again for the changes after its last one.\<close>

definition AskMore :: "crypto \<Rightarrow> roster_reply \<Rightarrow> string option" where
  "AskMore cr reply =
     (if rp_more reply \<and> rp_changes reply \<noteq> [] then Some (ChangeId cr (last (rp_changes reply))) else None)"

text \<open>The calls after a reply was applied.\<close>

definition reply_calls :: "crypto \<Rightarrow> family_hooks \<Rightarrow> roster_reply \<Rightarrow> string \<Rightarrow> reply_applied \<Rightarrow> family_call list" where
  "reply_calls cr hooks reply replier result =
     (case rp_statement reply of
        Some st \<Rightarrow>
          if ra_outcome result = OutDissolved \<and> fh_dissolved hooks
          then [CallDissolved \<lparr>de_group_id = rp_group_id reply, de_owner = s_owner st,
            de_voided = (case ra_dissolved result of None \<Rightarrow> [] | Some d \<Rightarrow> da_voided d)\<rparr>]
          else []
      | None \<Rightarrow> [])
     @ (if ra_outcome result = Ignored then []
        else (let newly = (case ra_applied result of None \<Rightarrow> [] | Some a \<Rightarrow> va_newly_applied a)
              in if newly \<noteq> [] \<and> fh_applied hooks then [CallApplied (rp_group_id reply) newly] else [])
          @ (case AskMore cr reply of
               Some after_id \<Rightarrow> if fh_ask_more hooks then [CallAskMore (rp_group_id reply) replier after_id] else []
             | None \<Rightarrow> []))"

definition ApplyReplyMessage ::
  "crypto \<Rightarrow> ('o, 'v) json_lib \<Rightarrow> family_hooks \<Rightarrow> string \<Rightarrow> string \<Rightarrow> string \<Rightarrow> card_lookup \<Rightarrow> time_ms
    \<Rightarrow> family_call list store_op" where
  "ApplyReplyMessage cr L hooks local detail replier cards now =
     (case DecodeReply L detail of
        Inl e \<Rightarrow> State_Monad.return (Inl e)
      | Inr reply \<Rightarrow> roe_then (ApplyReply cr (roster_json_of L) reply local replier cards now) (\<lambda>result.
          ret_ok (reply_calls cr hooks reply replier result)))"

definition ApplySiblingDissolved ::
  "crypto \<Rightarrow> ('o, 'v) json_lib \<Rightarrow> family_hooks \<Rightarrow> string \<Rightarrow> string \<Rightarrow> string \<Rightarrow> family_call list store_op" where
  "ApplySiblingDissolved cr L hooks local detail sender =
     (if sender \<noteq> local then ret_ok []
      else case DecodeStatement L detail of
        Inl e \<Rightarrow> State_Monad.return (Inl e)
      | Inr st \<Rightarrow> roe_then (ApplyDissolvedStatement cr (roster_json_of L) st local) (\<lambda>ended.
          ret_ok (if da_applied ended \<and> fh_dissolved hooks
            then [CallDissolved \<lparr>de_group_id = s_group_id st, de_owner = s_owner st, de_voided = da_voided ended\<rparr>]
            else [])))"

text \<open>The family's \<open>apply\<close>; \<open>sender\<close> is the identity the message came from.\<close>

definition FamilyApply ::
  "crypto \<Rightarrow> ('o, 'v) json_lib \<Rightarrow> family_hooks \<Rightarrow> thread_message \<Rightarrow> string option \<Rightarrow> string \<Rightarrow> card_lookup \<Rightarrow> time_ms
    \<Rightarrow> family_call list store_op" where
  "FamilyApply cr L hooks m local_account sender cards now =
     (case (LaneTypeOf L m, local_account) of
        (Some kind, Some local) \<Rightarrow>
          if sender = [] then ret_ok []
          else (case DetailOf L m of
            None \<Rightarrow> ret_err ''roster sync: no detail''
          | Some detail \<Rightarrow>
              if kind = GroupRosterRequest then ApplyRequest L hooks local detail sender
              else if kind = GroupDissolvedSibling then ApplySiblingDissolved cr L hooks local detail sender
              else ApplyReplyMessage cr L hooks local detail sender cards now)
      | _ \<Rightarrow> ret_ok [])"

end
