(* ===== verification/CatchUpClaims.thy ===== *)
theory CatchUpClaims
  imports DraftClaims GroupSyncFamily
begin

section \<open>Catching up\<close>

text \<open>
  The claims on the messages by which members catch up: how much a reply carries, that asking again
  after the last change of each reply brings every change, and that one does not ask too often.
\<close>

subsection \<open>What a reply carries\<close>

definition uncarded :: "group_change \<Rightarrow> group_change" where
  "uncarded c = c\<lparr>c_signer_card := None\<rparr>"

text \<open>The changes after an id, with their ids as the store has them.\<close>

fun listed_changes :: "roster_json \<Rightarrow> string \<Rightarrow> stored_change list \<Rightarrow> (string \<times> group_change) list" where
  "listed_changes js after_id [] = []"
| "listed_changes js after_id (row # rows) =
     (if after_id \<noteq> [] \<and> sc_change_id row \<le> after_id then listed_changes js after_id rows
      else case ParseChange js row of
        None \<Rightarrow> listed_changes js after_id rows
      | Some c \<Rightarrow> (sc_change_id row, c) # listed_changes js after_id rows)"

lemma ride_once_same: "ride_once carded c = (d, carded') \<Longrightarrow> uncarded d = uncarded c \<and> c_signer d = c_signer c"
  by (auto simp: ride_once_def uncarded_def split: if_splits)

text \<open>A reply is a prefix of the changes it could carry, up to the cards; cut short only by its budget.\<close>

lemma pack_prefix:
  "pack_changes js a rows carded bytes packed = (out, full) \<Longrightarrow>
    \<exists>cs. out = packed @ cs \<and> map uncarded cs = map (uncarded \<circ> snd) (take (length cs) (listed_changes js a rows))
      \<and> length cs \<le> length (listed_changes js a rows) \<and> (full \<longleftrightarrow> length cs < length (listed_changes js a rows))
      \<and> (packed = [] \<and> listed_changes js a rows \<noteq> [] \<longrightarrow> cs \<noteq> [])"
proof (induction rows arbitrary: carded bytes packed)
  case Nil
  then show ?case by simp
next
  case (Cons row rows)
  show ?case
  proof (cases "(a \<noteq> [] \<and> sc_change_id row \<le> a) \<or> ParseChange js row = None")
    case True
    then have "pack_changes js a rows carded bytes packed = (out, full)" and "listed_changes js a (row # rows) = listed_changes js a rows"
      using Cons.prems by (auto split: if_splits)
    with Cons.IH show ?thesis by simp
  next
    case False
    then obtain c where c: "\<not> (a \<noteq> [] \<and> sc_change_id row \<le> a)" "ParseChange js row = Some c" by auto
    obtain d carded' where d: "ride_once carded c = (d, carded')" by (cases "ride_once carded c")
    let ?n = "length (js_change js d)"
    have listed: "listed_changes js a (row # rows) = (sc_change_id row, c) # listed_changes js a rows" using c by auto
    show ?thesis
    proof (cases "over_budget ?n packed bytes")
      case True
      then have "out = packed" "full" "packed \<noteq> []"
        using Cons.prems c d by (auto simp: Let_def over_budget_def kMaxReplyChanges_def)
      then show ?thesis using listed by (intro exI [of _ "[]"]) simp
    next
      case False
      then have "pack_changes js a rows carded' (bytes + ?n) (packed @ [d]) = (out, full)"
        using Cons.prems c d by (auto simp: Let_def split: if_splits)
      from Cons.IH [OF this] obtain cs where cs: "out = (packed @ [d]) @ cs"
        "map uncarded cs = map (uncarded \<circ> snd) (take (length cs) (listed_changes js a rows))"
        "length cs \<le> length (listed_changes js a rows)" "full \<longleftrightarrow> length cs < length (listed_changes js a rows)" by blast
      then show ?thesis using ride_once_same [OF d] listed by (intro exI [of _ "d # cs"]) simp
    qed
  qed
qed

text \<open>Its bounds: the number, the bytes, and each signer's card once.\<close>

definition reply_size :: "roster_json \<Rightarrow> group_change list \<Rightarrow> nat" where
  "reply_size js cs = sum_list (map (\<lambda>c. length (js_change js c)) cs)"

definition carding :: "group_change list \<Rightarrow> string list" where
  "carding cs = map c_signer (filter (\<lambda>c. c_signer_card c \<noteq> None) cs)"

lemma set_os_insert_eq: "set (os_insert x xs) = insert x (set xs)"
  by (induction x xs rule: os_insert.induct) auto

lemma pack_bounds:
  "pack_changes js a rows carded bytes packed = (out, full) \<Longrightarrow>
    length packed \<le> kMaxReplyChanges \<Longrightarrow> bytes = reply_size js packed \<Longrightarrow>
    bytes \<le> kReplyChangesBudgetBytes \<or> length packed \<le> 1 \<Longrightarrow>
    set (carding packed) = set carded \<Longrightarrow> distinct (carding packed) \<Longrightarrow>
    length out \<le> kMaxReplyChanges \<and> (reply_size js out \<le> kReplyChangesBudgetBytes \<or> length out \<le> 1) \<and> distinct (carding out)"
proof (induction rows arbitrary: carded bytes packed)
  case Nil
  then show ?case by simp
next
  case (Cons row rows)
  show ?case
  proof (cases "(a \<noteq> [] \<and> sc_change_id row \<le> a) \<or> ParseChange js row = None")
    case True
    then have "pack_changes js a rows carded bytes packed = (out, full)" using Cons.prems by (auto split: if_splits)
    from Cons.IH [OF this Cons.prems(2-6)] show ?thesis .
  next
    case False
    then obtain c where c: "\<not> (a \<noteq> [] \<and> sc_change_id row \<le> a)" "ParseChange js row = Some c" by auto
    obtain d carded' where d: "ride_once carded c = (d, carded')" by (cases "ride_once carded c")
    let ?n = "length (js_change js d)"
    show ?thesis
    proof (cases "over_budget ?n packed bytes")
      case True
      then have "out = packed" using Cons.prems(1) c d by (auto simp: Let_def)
      then show ?thesis using Cons.prems by auto
    next
      case False
      then have run: "pack_changes js a rows carded' (bytes + ?n) (packed @ [d]) = (out, full)"
        using Cons.prems(1) c d by (auto simp: Let_def split: if_splits)
      have cards: "set (carding (packed @ [d])) = set carded' \<and> distinct (carding (packed @ [d]))"
        using d Cons.prems(5,6) by (auto simp: ride_once_def carding_def set_os_insert_eq split: if_splits)
      show ?thesis
        by (rule Cons.IH [OF run])
          (use False Cons.prems cards in \<open>auto simp: over_budget_def reply_size_def\<close>)
    qed
  qed
qed

lemma after_CopyState: "(\<And>v. Q v (clean s)) \<Longrightarrow> after (CopyState cr js g) Q s"
  unfolding CopyState_def
  by (intro after_bind after_LoadMetadata after_ListGroupChanges)
    (auto intro!: after_bind after_ListGroupChanges after_return)

definition reply_within :: "roster_json \<Rightarrow> roster_reply \<Rightarrow> bool" where
  "reply_within js reply \<longleftrightarrow> length (rp_changes reply) \<le> kMaxReplyChanges
     \<and> (reply_size js (rp_changes reply) \<le> kReplyChangesBudgetBytes \<or> length (rp_changes reply) \<le> 1)
     \<and> distinct (carding (rp_changes reply))"

lemma reply_within_empty: "rp_changes reply = [] \<Longrightarrow> reply_within js reply"
  by (simp add: reply_within_def reply_size_def carding_def)

lemma after_AddChangesTo:
  assumes "rp_changes reply = []"
  shows "after (AddChangesTo cr js request reply) (\<lambda>full t. t = clean s \<and> reply_within js full
    \<and> rp_statement full = rp_statement reply \<and> rp_removed full = rp_removed reply
    \<and> rp_request_id full = rp_request_id reply \<and> rp_group_id full = rp_group_id reply) s"
proof -
  have packed: "reply_within js (reply\<lparr>rp_changes := cs, rp_more := b\<rparr>)"
    if "pack_changes js i rows [] 0 [] = (cs, full)" for cs full i rows b
    using pack_bounds [OF that] by (simp add: reply_within_def reply_size_def carding_def)
  show ?thesis
    unfolding AddChangesTo_def
    by (intro after_bind after_CopyState after_if after_return after_ListGroupChanges)
      (auto intro!: after_return after_bind after_ListGroupChanges after_if reply_within_empty packed
        simp: assms split: prod.split)
qed

lemma after_Answer:
  "after (Answer cr js request who) (\<lambda>r t. t = clean s \<and> (case r of
      Inr (Some reply) \<Rightarrow> reply_within js reply
        \<and> rp_group_id reply = rq_group_id request \<and> rp_request_id reply = rq_request_id request
        \<and> (\<exists>md. map_of (db_metadata s) (rq_group_id request) = Some md \<and> rp_statement reply = Held js md
          \<and> (rp_removed reply \<longrightarrow> md_sync_state md = Active))
    | _ \<Rightarrow> True)) s"
  unfolding Answer_def
proof (rule after_roe_then, rule after_LoadMetadata, goal_cases)
  case (3 md epoch)
  show ?case
    unfolding sum.case option.case after_clean Let_def
  proof (intro after_if after_ret_ok, goal_cases)
    case 2
    show ?case
      by (rule after_roe_then, rule after_IsMember; unfold sum.case after_clean)
        (use 2 3 in \<open>auto intro!: after_bind after_weaken [OF after_AddChangesTo] after_ret_ok\<close>)
  qed (use 3 in \<open>auto simp: reply_within_empty\<close>)
qed (auto intro: after_ret_ok)

text \<open>With no failure, what is said of the asker is what the roster says.\<close>

lemma told_of_asker:
  assumes "db_faults s = []" "map_of (db_metadata s) (rq_group_id request) = Some md"
    and "run_state (Answer cr js request who) s = (r, t)"
  shows "\<exists>reply. r = Inr (Some reply)
    \<and> rp_removed reply = (md_sync_state md = Active \<and> \<not> is_member s (rq_group_id request) who)"
proof (cases "md_sync_state md = Active")
  case True
  let ?g = "rq_group_id request"
  let ?empty = "\<lparr>rp_group_id = ?g, rp_request_id = rq_request_id request, rp_statement = Held js (loaded s ?g md),
    rp_removed = \<not> is_member s ?g who, rp_changes = [], rp_more = False\<rparr>"
  obtain full u where added: "run_state (AddChangesTo cr js request ?empty) s = (full, u)" by fastforce
  have "rp_removed full = rp_removed ?empty" using afterD [OF after_AddChangesTo added] by simp
  moreover have "r = Inr (Some full)"
    using assms(3) added True
    by (simp add: Answer_def run_rules calm_LoadMetadata [OF assms(1)] assms(2) calm_IsMember [OF assms(1)] Let_def)
  ultimately show ?thesis using True by simp
next
  case False
  then show ?thesis
    using assms(3) by (auto simp: Answer_def run_rules calm_LoadMetadata [OF assms(1)] assms(2) Let_def)
qed

text \<open>
  C20: an answer is bounded and truthful. Answering a member check writes nothing, whatever fails and
  whatever comes of it. A reply names the request, carries the statement this device holds for the group,
  and carries at most 64 changes, of at most 96 KiB unless it is a single one, each signer's card at most
  once; it says the asker is out only when this device is in step with the group. When no store call
  fails, a group this device knows is answered for, and the reply says the asker is out exactly when
  this device is in step and its roster lists no such member.
\<close>

theorem answers_bounded:
  assumes "run_state (Answer cr js request who) s = (r, t)"
  shows "clean t = clean s
    \<and> (case r of
        Inr (Some reply) \<Rightarrow> reply_within js reply
          \<and> rp_group_id reply = rq_group_id request \<and> rp_request_id reply = rq_request_id request
          \<and> (\<exists>md. map_of (db_metadata s) (rq_group_id request) = Some md \<and> rp_statement reply = Held js md
            \<and> (rp_removed reply \<longrightarrow> md_sync_state md = Active))
      | _ \<Rightarrow> True)
    \<and> (db_faults s = [] \<longrightarrow> (\<forall>md. map_of (db_metadata s) (rq_group_id request) = Some md \<longrightarrow>
        (\<exists>reply. r = Inr (Some reply)
          \<and> rp_removed reply = (md_sync_state md = Active \<and> \<not> is_member s (rq_group_id request) who))))"
  using afterD [OF after_Answer assms] told_of_asker [OF _ _ assms] by (auto split: sum.splits option.splits)

text \<open>Cat is not in the sample group, and is told so; Bob is, and is not.\<close>

theorem answers_bounded_witness:
  "\<exists>cats bobs. fst (run_state (Answer sample_crypto sample_reading \<lparr>rq_group_id = ''g'', rq_request_id = ''q'', rq_roster_epoch = 0,
     rq_statement_epoch = 0, rq_changes_hash = [], rq_after = []\<rparr> ''cat'') sample_following) = Inr (Some cats)
     \<and> rp_removed cats
     \<and> fst (run_state (Answer sample_crypto sample_reading \<lparr>rq_group_id = ''g'', rq_request_id = ''q'', rq_roster_epoch = 0,
     rq_statement_epoch = 0, rq_changes_hash = [], rq_after = []\<rparr> ''bob'') sample_following) = Inr (Some bobs)
     \<and> \<not> rp_removed bobs"
proof -
  let ?rq = "\<lparr>rq_group_id = ''g'', rq_request_id = ''q'', rq_roster_epoch = 0, rq_statement_epoch = 0, rq_changes_hash = [],
    rq_after = []\<rparr>"
  let ?run = "\<lambda>who. run_state (Answer sample_crypto sample_reading ?rq who) sample_following"
  have rows: "is_member sample_following ''g'' ''bob''" "\<not> is_member sample_following ''g'' ''cat''"
    by (simp_all add: is_member_def sample_following_def sample_store_def rows_of_def sample_member_def)
  have "\<exists>reply. fst (?run who) = Inr (Some reply) \<and> rp_removed reply = (\<not> is_member sample_following ''g'' who)" for who
    using answers_bounded [of _ _ ?rq who sample_following, OF surjective_pairing] sample_following_fields(1,2)
    by (simp add: sample_metadata_def)
  from this [of "''cat''"] this [of "''bob''"] rows show ?thesis by auto
qed

text \<open>
  Reading the roster does not look at how its loop ended. When it stops half-way, a member is told that it
  is out; told so by the owner, its device marks the group as one it was removed from.
\<close>

lemma failed_read_says_out:
  "\<exists>reply. fst (run_state (Answer sample_crypto sample_reading \<lparr>rq_group_id = ''g'', rq_request_id = ''q'', rq_roster_epoch = 0,
     rq_statement_epoch = 0, rq_changes_hash = [], rq_after = []\<rparr> ''bob'')
     (sample_following\<lparr>db_faults := [NoFault, NoFault, StepFails 0]\<rparr>)) = Inr (Some reply)
     \<and> rp_removed reply \<and> is_member sample_following ''g'' ''bob''"
proof -
  have "is_member sample_following ''g'' ''bob''"
    by (simp add: is_member_def sample_following_def sample_store_def rows_of_def sample_member_def)
  then show ?thesis
    by (simp add: Answer_def AddChangesTo_def CopyState_def IsMember_def FindMember_def ListMembers_def LoadMetadata_def
        GetGroupSessionEpoch_def ListGroupChanges_def Let_def run_rules first_fault_def sample_following_def sample_store_def
        empty_store_def sample_metadata_def rows_of_def split: prod.split)
qed

subsection \<open>Asking until all is there\<close>

text \<open>
  The exchange between an asker and a member whose store \<open>s\<close> stays as it is: each request goes out
  after the last change of the reply before, until \<open>AskMore\<close> is content. \<open>h\<close> is the hash the asker
  states, a function of the changes it got so far. \<open>None\<close>: an answer failed, or the rounds ran out.
\<close>

fun fetch ::
  "crypto \<Rightarrow> roster_json \<Rightarrow> roster_store \<Rightarrow> string \<Rightarrow> (group_change list \<Rightarrow> string) \<Rightarrow> nat \<Rightarrow> roster_request
    \<Rightarrow> group_change list \<Rightarrow> group_change list option" where
  "fetch cr js s who h 0 request got = None"
| "fetch cr js s who h (Suc rounds) request got =
     (case fst (run_state (Answer cr js (request\<lparr>rq_changes_hash := h got\<rparr>) who) s) of
        Inr (Some reply) \<Rightarrow>
          (case AskMore cr reply of
             None \<Rightarrow> Some (got @ rp_changes reply)
           | Some after_id \<Rightarrow> fetch cr js s who h rounds (request\<lparr>rq_after := after_id\<rparr>) (got @ rp_changes reply))
      | _ \<Rightarrow> None)"

text \<open>The rows bear the ids of the changes they hold.\<close>

definition rows_named :: "crypto \<Rightarrow> roster_json \<Rightarrow> stored_change list \<Rightarrow> bool" where
  "rows_named cr js rows \<longleftrightarrow> (\<forall>row\<in>set rows. sc_change_id row \<noteq> []
     \<and> (\<forall>c. ParseChange js row = Some c \<longrightarrow> ChangeId cr c = sc_change_id row))"

lemma ChangeId_uncarded: "ChangeId cr (uncarded c) = ChangeId cr c"
  by (simp add: ChangeId_def ChangeSignBytes_def PutBody_def uncarded_def split: group_change_kind.split)

lemma ids_of_same: "uncarded c = uncarded d \<Longrightarrow> ChangeId cr c = ChangeId cr d"
  using ChangeId_uncarded by metis

lemma listed_after:
  "listed_changes js a rows = filter (\<lambda>p. a = [] \<or> a < fst p) (listed_changes js [] rows)"
  by (induction rows) (auto split: option.splits)

lemma listed_named:
  "rows_named cr js rows \<Longrightarrow> (i, c) \<in> set (listed_changes js a rows) \<Longrightarrow> ChangeId cr c = i \<and> i \<noteq> []"
  by (induction rows) (auto simp: rows_named_def split: if_splits option.splits)

lemma listed_ids_sorted:
  "sorted_wrt (<) (map sc_change_id rows) \<Longrightarrow> sorted_wrt (<) (map fst (listed_changes js a rows))"
proof (induction rows)
  case (Cons row rows)
  have "fst ` set (listed_changes js a rows) \<subseteq> sc_change_id ` set rows"
    by (induction rows) (auto split: option.splits)
  with Cons show ?case by (auto split: option.splits)
qed simp

lemma filter_beyond:
  fixes xs :: "('i::linorder \<times> 'c) list"
  assumes "sorted_wrt (<) (map fst xs)" "k < length xs"
  shows "filter (\<lambda>p. fst (xs ! k) < fst p) xs = drop (Suc k) xs"
proof -
  have split: "xs = take (Suc k) xs @ drop (Suc k) xs" by simp
  have less: "fst (xs ! i) < fst (xs ! j)" if "i < j" "j < length xs" for i j
    using assms(1) that by (auto simp: sorted_wrt_iff_nth_less)
  have "\<not> fst (xs ! k) < fst p" if "p \<in> set (take (Suc k) xs)" for p
  proof -
    from that obtain i where "i \<le> k" "p = xs ! i" using assms(2) by (auto simp: in_set_conv_nth less_Suc_eq_le)
    then show ?thesis using less [of i k] assms(2) by (cases "i = k") auto
  qed
  then have "filter (\<lambda>p. fst (xs ! k) < fst p) (take (Suc k) xs) = []" by (simp add: filter_empty_conv)
  moreover have "fst (xs ! k) < fst p" if "p \<in> set (drop (Suc k) xs)" for p
  proof -
    from that obtain i where "i < length (drop (Suc k) xs)" "p = drop (Suc k) xs ! i" by (metis in_set_conv_nth)
    then show ?thesis using less [of k "Suc k + i"] by auto
  qed
  then have "filter (\<lambda>p. fst (xs ! k) < fst p) (drop (Suc k) xs) = drop (Suc k) xs" by simp
  ultimately show ?thesis by (subst split) (simp only: filter_append append_Nil)
qed

text \<open>What an answer carries, when nothing fails and the asker's hash differs.\<close>

lemma calm_Answer:
  assumes "db_faults s = []" "map_of (db_metadata s) (rq_group_id rq) = Some md" "md_sync_state md = Active"
    and "rq_changes_hash rq \<noteq> ChangesHash cr (map sc_change_id (rows_of (rq_group_id rq) (db_changes s)))"
    and "pack_changes js (rq_after rq) (sort_key sc_change_id (rows_of (rq_group_id rq) (db_changes s))) [] 0 [] = (cs, full)"
  obtains reply where "fst (run_state (Answer cr js rq who) s) = Inr (Some reply)" "rp_changes reply = cs" "rp_more reply = full"
proof -
  have "\<exists>reply. fst (run_state (Answer cr js rq who) s) = Inr (Some reply) \<and> rp_changes reply = cs \<and> rp_more reply = full"
    using assms by (simp add: Answer_def AddChangesTo_def CopyState_def IsMember_def Let_def run_rules calm_runs)
  with that show ?thesis by blast
qed

lemma calm_Answer_same:
  assumes "db_faults s = []" "map_of (db_metadata s) (rq_group_id rq) = Some md" "md_sync_state md = Active"
    and "rq_changes_hash rq = ChangesHash cr (map sc_change_id (rows_of (rq_group_id rq) (db_changes s)))"
  obtains reply where "fst (run_state (Answer cr js rq who) s) = Inr (Some reply)" "rp_changes reply = []" "\<not> rp_more reply"
proof -
  have "\<exists>reply. fst (run_state (Answer cr js rq who) s) = Inr (Some reply) \<and> rp_changes reply = [] \<and> \<not> rp_more reply"
    using assms by (simp add: Answer_def AddChangesTo_def CopyState_def IsMember_def Let_def run_rules calm_runs)
  with that show ?thesis by blast
qed

text \<open>The next page is what the last one left out.\<close>

lemma next_page:
  fixes js a rows
  defines "L \<equiv> listed_changes js a rows"
  assumes "sorted_wrt (<) (map sc_change_id rows)" "rows_named cr js rows"
    and "cs \<noteq> []" "length cs \<le> length L" "map uncarded cs = map (uncarded \<circ> snd) (take (length cs) L)"
  shows "listed_changes js (ChangeId cr (last cs)) rows = drop (length cs) L"
proof -
  let ?k = "length cs - 1"
  obtain i c where at: "L ! ?k = (i, c)" by fastforce
  have k: "?k < length L" "?k < length cs" "Suc ?k = length cs" using assms(4,5) by (cases cs; simp)+
  have "uncarded (last cs) = map uncarded cs ! ?k" using assms(4) k by (simp add: last_conv_nth)
  also have "\<dots> = uncarded c" using k at by (simp add: assms(6))
  finally have same: "ChangeId cr (last cs) = ChangeId cr c" by (rule ids_of_same)
  have mem: "(i, c) \<in> set L" using at k(1) nth_mem by metis
  have id: "ChangeId cr c = i" "i \<noteq> []" using listed_named [OF assms(3)] mem unfolding L_def by blast+
  have after: "a = [] \<or> a < i" using mem unfolding L_def by (subst (asm) listed_after) auto
  have "listed_changes js i rows = filter (\<lambda>p. i < fst p) (listed_changes js [] rows)"
    using id(2) by (subst listed_after) simp
  also have "\<dots> = filter (\<lambda>p. i < fst p) L"
    unfolding L_def using after by (subst (2) listed_after) (auto intro: filter_cong)
  also have "\<dots> = drop (length cs) L"
    using filter_beyond [of L ?k] listed_ids_sorted [OF assms(2)] k at unfolding L_def by simp
  finally show ?thesis using same id by simp
qed

text \<open>What the rows carry, up to the cards.\<close>

definition carries :: "roster_json \<Rightarrow> stored_change list \<Rightarrow> group_change list" where
  "carries js rows = map (uncarded \<circ> snd) (listed_changes js [] rows)"

lemma fetch_gathers:
  fixes s g
  defines "rows \<equiv> sort_key sc_change_id (rows_of g (db_changes s))"
  assumes "db_faults s = []" "map_of (db_metadata s) g = Some md" "md_sync_state md = Active"
    and "sorted_wrt (<) (map sc_change_id rows)" "rows_named cr js rows"
    and hash: "\<And>got. h got = ChangesHash cr (map sc_change_id (rows_of g (db_changes s))) \<Longrightarrow>
      map uncarded got = carries js rows"
  shows "length (listed_changes js (rq_after rq) rows) < n \<Longrightarrow> rq_group_id rq = g \<Longrightarrow>
    map uncarded got @ map (uncarded \<circ> snd) (listed_changes js (rq_after rq) rows)
      = carries js rows \<Longrightarrow>
    \<exists>all. fetch cr js s who h n rq got = Some all \<and> map uncarded all = carries js rows"
proof (induction n arbitrary: rq got)
  case 0
  then show ?case by simp
next
  case (Suc n)
  let ?rq = "rq\<lparr>rq_changes_hash := h got\<rparr>" and ?L = "listed_changes js (rq_after rq) rows"
  have md: "map_of (db_metadata s) (rq_group_id ?rq) = Some md" using assms(3) Suc.prems(2) by simp
  show ?case
  proof (cases "h got = ChangesHash cr (map sc_change_id (rows_of g (db_changes s)))")
    case True
    then obtain reply where "fst (run_state (Answer cr js ?rq who) s) = Inr (Some reply)" "rp_changes reply = []" "\<not> rp_more reply"
      using calm_Answer_same [OF assms(2) md assms(4), of cr js who] Suc.prems(2) by auto
    with hash [OF True] show ?thesis by (simp add: AskMore_def)
  next
    case False
    obtain cs full where pack: "pack_changes js (rq_after rq) rows [] 0 [] = (cs, full)" by fastforce
    then obtain reply where reply: "fst (run_state (Answer cr js ?rq who) s) = Inr (Some reply)" "rp_changes reply = cs" "rp_more reply = full"
      using calm_Answer [OF assms(2) md assms(4), of cr js cs full who] False Suc.prems(2) unfolding rows_def by auto
    from pack_prefix [OF pack] have cs: "map uncarded cs = map (uncarded \<circ> snd) (take (length cs) ?L)" "length cs \<le> length ?L"
      "full \<longleftrightarrow> length cs < length ?L" "?L \<noteq> [] \<longrightarrow> cs \<noteq> []" by auto
    show ?thesis
    proof (cases full)
      case False
      with cs(2,3) have "length cs = length ?L" by simp
      with cs(1) Suc.prems(3) reply False show ?thesis by (simp add: AskMore_def o_def)
    next
      case True
      with cs(3,4) have "cs \<noteq> []" by auto
      from next_page [OF assms(5,6) this cs(2,1)]
      have rest: "listed_changes js (ChangeId cr (last cs)) rows = drop (length cs) ?L" .
      let ?rq' = "rq\<lparr>rq_after := ChangeId cr (last cs)\<rparr>"
      have "0 < length cs" using \<open>cs \<noteq> []\<close> by simp
      with Suc.prems(1) cs(2) have "length ?L - length cs < n" by linarith
      then have shorter: "length (listed_changes js (rq_after ?rq') rows) < n" by (simp add: rest)
      have "map uncarded cs @ map (uncarded \<circ> snd) (drop (length cs) ?L) = map (uncarded \<circ> snd) ?L"
        using cs(1) by (metis append_take_drop_id map_append)
      then have page: "map uncarded (got @ cs) @ map (uncarded \<circ> snd) (listed_changes js (rq_after ?rq') rows)
          = carries js rows"
        using Suc.prems(3) by (simp add: rest o_def)
      have "rq_group_id ?rq' = g" using Suc.prems(2) by simp
      from Suc.IH [OF shorter this page]
      have "\<exists>all. fetch cr js s who h n ?rq' (got @ cs) = Some all
          \<and> map uncarded all = carries js rows" .
      with reply True \<open>cs \<noteq> []\<close> show ?thesis by (simp add: AskMore_def)
    qed
  qed
qed

lemma listed_all: "map snd (listed_changes js [] rows) = List.map_filter (ParseChange js) rows"
  by (induction rows) (auto simp: List.map_filter_simps split: option.splits)

lemma listed_length: "length (listed_changes js a rows) \<le> length rows"
  by (induction rows) (auto split: option.splits)

text \<open>
  C16: catching up ends, and brings everything. When nothing fails and the answering member is in step,
  an asker that asks again after the last change of each reply that was cut short gets, in at most one
  round more than the member holds changes, every change the member holds, in id order, up to the
  cards that ride with them. Assumed: rows bear the ids of their changes, and the asker states the
  member's hash only when it has the same changes.
\<close>

theorem fetch_brings_everything:
  assumes "db_faults s = []" "store_ok s" "map_of (db_metadata s) g = Some md" "md_sync_state md = Active"
    and "rows_named cr js (rows_of g (db_changes s))"
    and "\<And>got. h got = ChangesHash cr (map sc_change_id (rows_of g (db_changes s))) \<Longrightarrow>
      map uncarded got = map uncarded (List.map_filter (ParseChange js) (sort_key sc_change_id (rows_of g (db_changes s))))"
    and "rq_group_id rq = g" "rq_after rq = []" "length (rows_of g (db_changes s)) < rounds"
  shows "\<exists>all. fetch cr js s who h rounds rq [] = Some all
    \<and> map uncarded all = map uncarded (List.map_filter (ParseChange js) (sort_key sc_change_id (rows_of g (db_changes s))))"
proof -
  let ?rows = "sort_key sc_change_id (rows_of g (db_changes s))"
  have all: "carries js ?rows = map uncarded (List.map_filter (ParseChange js) ?rows)"
    unfolding carries_def listed_all [symmetric] by simp
  have "keyed_by change_key (db_changes s)" using assms(2) unfolding store_ok_def by blast
  from distinct_changes [OF this] have "distinct (map sc_change_id ?rows)"
    by (simp only: distinct_map distinct_sort set_sort)
  then have sorted: "sorted_wrt (<) (map sc_change_id ?rows)" by (simp add: strict_sorted_iff)
  have named: "rows_named cr js ?rows" using assms(5) by (simp add: rows_named_def)
  have short: "length (listed_changes js (rq_after rq) ?rows) < rounds"
    using listed_length [of js "rq_after rq" ?rows] assms(9) by simp
  show ?thesis
    unfolding all [symmetric]
    by (rule fetch_gathers [OF assms(1,3,4) sorted named _ short assms(7)])
      (use assms(6) in \<open>simp_all add: all assms(8) carries_def [symmetric]\<close>)
qed

definition sample_paging :: roster_json where
  "sample_paging = sample_json\<lparr>js_read_change := (\<lambda>_. Some sample_change)\<rparr>"

definition sample_hex :: crypto where
  "sample_hex = sample_crypto\<lparr>cr_bytes_to_hex := (\<lambda>_. ''x'')\<rparr>"

definition sample_holding :: roster_store where
  "sample_holding = (sample_store [])\<lparr>db_changes := [((''g'', ''x''),
     \<lparr>sc_group_id = ''g'', sc_change_id = ''x'', sc_change_json = ''c'', sc_received_at = 1, sc_line_shown = False\<rparr>)]\<rparr>"

theorem fetch_brings_everything_witness:
  "\<exists>all. fetch sample_hex sample_paging sample_holding ''cat'' (\<lambda>got. if map uncarded got = [uncarded sample_change] then ''x'' else []) 2
      \<lparr>rq_group_id = ''g'', rq_request_id = ''q'', rq_roster_epoch = 0, rq_statement_epoch = 0, rq_changes_hash = [], rq_after = []\<rparr> []
      = Some all \<and> map uncarded all = [uncarded sample_change]"
proof -
  let ?h = "\<lambda>got. if map uncarded got = [uncarded sample_change] then ''x'' else []"
    and ?rq = "\<lparr>rq_group_id = ''g'', rq_request_id = ''q'', rq_roster_epoch = 0, rq_statement_epoch = 0, rq_changes_hash = [], rq_after = []\<rparr>"
  let ?row = "\<lparr>sc_group_id = ''g'', sc_change_id = ''x'', sc_change_json = ''c'', sc_received_at = 1, sc_line_shown = False\<rparr>"
  have rows: "rows_of ''g'' (db_changes sample_holding) = [?row]" by (simp add: sample_holding_def rows_of_def)
  have parsed: "ParseChange sample_paging ?row = Some sample_change"
    by (simp add: ParseChange_def sample_paging_def sample_change_def)
  have ok: "store_ok sample_holding"
    by (simp add: sample_holding_def sample_store_def empty_store_def sample_metadata_def sample_member_def sample_invite_def
        store_ok_def keyed_by_def rosters_ok_def targets_ok_def one_target_per_thread_def)
  have "db_faults sample_holding = []" "map_of (db_metadata sample_holding) ''g'' = Some sample_metadata"
    by (simp_all add: sample_holding_def)
  moreover have "md_sync_state sample_metadata = Active" by (simp add: sample_metadata_def)
  moreover have "rows_named sample_hex sample_paging (rows_of ''g'' (db_changes sample_holding))"
    by (simp add: rows rows_named_def parsed ChangeId_def sample_hex_def)
  moreover have held: "List.map_filter (ParseChange sample_paging) (sort_key sc_change_id (rows_of ''g'' (db_changes sample_holding)))
      = [sample_change]"
    by (simp add: rows parsed List.map_filter_simps)
  ultimately have "\<exists>all. fetch sample_hex sample_paging sample_holding ''cat'' ?h 2 ?rq [] = Some all \<and> map uncarded all
      = map uncarded (List.map_filter (ParseChange sample_paging) (sort_key sc_change_id (rows_of ''g'' (db_changes sample_holding))))"
    by (intro fetch_brings_everything [OF _ ok]) (simp_all add: held rows ChangesHash_def sample_hex_def split: if_splits)
  then show ?thesis unfolding held list.map .
qed

subsection \<open>How often one asks\<close>

text \<open>The times at which the limiter let a group through, over a run of calls.\<close>

fun asked_at :: "(string \<times> time_ms) list \<Rightarrow> (string \<times> time_ms) list \<Rightarrow> string \<Rightarrow> time_ms list" where
  "asked_at last_asked [] g = []"
| "asked_at last_asked ((g', now) # calls) g =
     (case Allow g' now last_asked of
        (allowed, last_asked') \<Rightarrow> (if allowed \<and> g' = g then [now] else []) @ asked_at last_asked' calls g)"

lemma Allow_other: "Allow g' now m = (allowed, m') \<Longrightarrow> g \<noteq> g' \<Longrightarrow> map_of m' g = map_of m g"
  by (auto simp: Allow_def split: option.splits if_splits)

lemma Allow_same:
  "Allow g now m = (allowed, m') \<Longrightarrow>
    (allowed \<longrightarrow> map_of m' g = Some now \<and> (\<forall>t. map_of m g = Some t \<longrightarrow> kCatchUpGapMs \<le> now - t)) \<and> (\<not> allowed \<longrightarrow> m' = m)"
  by (auto simp: Allow_def split: option.splits if_splits)

text \<open>Whatever the clock says, the requests for a group that are let through are half a minute apart.\<close>

lemma asked_apart:
  "sorted_wrt (\<lambda>t u. t + kCatchUpGapMs \<le> u) ((case map_of m g of None \<Rightarrow> [] | Some t \<Rightarrow> [t]) @ asked_at m calls g)"
proof (induction calls arbitrary: m)
  case Nil
  then show ?case by (simp split: option.split)
next
  case (Cons call calls)
  obtain g' now where call: "call = (g', now)" by fastforce
  obtain allowed m' where run: "Allow g' now m = (allowed, m')" by fastforce
  show ?case
  proof (cases "g' = g \<and> allowed")
    case False
    then have "map_of m' g = map_of m g" using Allow_other [OF run, of g] Allow_same [of g now m allowed m'] run by auto
    then show ?thesis using Cons.IH [of m'] False call run by auto
  next
    case True
    then have m': "map_of m' g = Some now" "\<And>t. map_of m g = Some t \<Longrightarrow> kCatchUpGapMs \<le> now - t"
      using Allow_same run by blast+
    from Cons.IH [of m'] m'(1) have rest: "sorted_wrt (\<lambda>t u. t + kCatchUpGapMs \<le> u) (now # asked_at m' calls g)" by simp
    show ?thesis
    proof (cases "map_of m g")
      case None
      then show ?thesis using rest True call run by simp
    next
      case (Some t)
      have "t + kCatchUpGapMs \<le> u" if "u \<in> set (asked_at m' calls g)" for u
      proof -
        have "now + kCatchUpGapMs \<le> u" using rest that by simp
        with m'(2) [OF Some] show ?thesis unfolding kCatchUpGapMs_def by linarith
      qed
      then show ?thesis using rest m'(2) [OF Some] Some True call run by auto
    qed
  qed
qed

lemma asks_are_apart: "sorted_wrt (\<lambda>t u. t + kCatchUpGapMs \<le> u) (asked_at [] calls g)"
  using asked_apart [of "[]" g calls] by simp

end
