(* ===== verification/ChatWorld.thy ===== *)
theory ChatWorld
  imports GroupSyncFamily
begin

section \<open>The roster store among its neighbours\<close>

text \<open>
  The handlers of membership messages and the workflows of this device work on the roster store and call
  its neighbours: the chat store (\<open>IThreadStore\<close>), the delivery of messages, callbacks and timers. A
  \<open>world\<close> is the roster store with the calls made so far, in order; what a neighbour answers, what the
  clock says and which ids are generated is given by the environment per call: \<open>ww_tick\<close> counts the
  questions asked, and the functions of \<open>world_env\<close> answer the n-th of them, so a statement about
  every environment covers every neighbour, the chat store included, and every failure of theirs.
  Locks, the log and the counter that tells the screens of a change (\<open>GroupRosterVersion\<close>) are left out.
\<close>

subsection \<open>Worlds\<close>

record chat_thread =
  th_id :: string
  th_group_id :: "string option"
  th_title :: string
  th_preview :: string
  th_updated_at :: time_ms

text \<open>What a send is given beside its text; all of them are system messages.\<close>

record send_options =
  so_update_preview :: bool
  so_payload_json :: string
  so_stored_payload_json :: "string option"
  so_sender :: string

datatype 'o chat_call =
    FindGroupThread string
  | FindDirectThread string bool
  | FindOrCreateDirectThread string string string
  | FindOrCreateGroupThread string string "string list"
  | GetThread string
  | GetMessagesPage string nat
  | AppendMessage thread_message
  | UpdateMessage thread_message
  | UpsertThread chat_thread
  | SendUserMessage string string send_options
  | SendControl string thread_message bool
  | SendControlToMany "(string \<times> thread_message) list"
  | NotifyOwnDevices thread_message
  | SurfaceGroupDissolved string
  | OnRosterMember "'o joined_entry"
  | OnUnknownSenderDevice string string time_ms
  | OnSenderCard account_card
  | FoldTimer string
  | ReaskTimer string string nat
  | ResumeTimer nat
  | NoAnswerTimer string

record 'o world =
  ww_store :: roster_store
  ww_calls :: "'o chat_call list"
  ww_tick :: nat

record ('o, 'v) world_env =
  we_lib :: "('o, 'v) json_lib"
  we_crypto :: crypto
  we_cards :: card_lookup
  we_clock :: "nat \<Rightarrow> time_ms"
  we_uuid :: "nat \<Rightarrow> string"
  we_thread :: "nat \<Rightarrow> chat_thread roe"
  we_found :: "nat \<Rightarrow> chat_thread option roe"
  we_page :: "nat \<Rightarrow> thread_message list roe"
  we_result :: "nat \<Rightarrow> unit roe"

abbreviation we_json :: "('o, 'v, 'e) world_env_scheme \<Rightarrow> roster_json" where
  "we_json e \<equiv> roster_json_of (we_lib e)"

subsection \<open>Its operations\<close>

definition on_store :: "(roster_store, 'a) state \<Rightarrow> (('o, 'w) world_scheme, 'a) state" where
  "on_store m = State (\<lambda>w. case run_state m (ww_store w) of (r, s) \<Rightarrow> (r, w\<lparr>ww_store := s\<rparr>))"

definition next_tick :: "(('o, 'w) world_scheme, nat) state" where
  "next_tick = State (\<lambda>w. (ww_tick w, w\<lparr>ww_tick := Suc (ww_tick w)\<rparr>))"

definition clock :: "('o, 'v, 'e) world_env_scheme \<Rightarrow> (('o, 'w) world_scheme, time_ms) state" where
  "clock e = do { n \<leftarrow> next_tick; State_Monad.return (we_clock e n) }"

definition fresh_id :: "('o, 'v, 'e) world_env_scheme \<Rightarrow> (('o, 'w) world_scheme, string) state" where
  "fresh_id e = do { n \<leftarrow> next_tick; State_Monad.return (we_uuid e n) }"

definition make_call :: "(nat \<Rightarrow> 'a) \<Rightarrow> 'o chat_call \<Rightarrow> (('o, 'w) world_scheme, 'a) state" where
  "make_call answers c = do {
     State_Monad.update (\<lambda>w. w\<lparr>ww_calls := ww_calls w @ [c]\<rparr>);
     n \<leftarrow> next_tick;
     State_Monad.return (answers n)
   }"

text \<open>A result that is not looked at.\<close>

definition ignore :: "('s, 'a) state \<Rightarrow> ('s, unit) state" where
  "ignore m = State_Monad.bind m (\<lambda>_. State_Monad.return ())"

definition just :: "(('s, 'a) state) \<Rightarrow> ('s, 'a roe) state" where
  "just m = State_Monad.bind m (\<lambda>x. ret_ok x)"

definition nothing :: "('s, unit) state" where
  "nothing = State_Monad.return ()"

text \<open>A result at hand, of which an error is returned.\<close>

definition given :: "'x roe \<Rightarrow> ('x \<Rightarrow> ('s, 'a roe) state) \<Rightarrow> ('s, 'a roe) state" where
  "given r f = roe_then (State_Monad.return r) f"

subsection \<open>Reasons of a refusal\<close>

definition kInviteRefusedGroupFull :: string where "kInviteRefusedGroupFull = ''group_full''"
definition kInviteRefusedGroupDissolved :: string where "kInviteRefusedGroupDissolved = ''group_dissolved''"
definition kInviteRefusedNotAllowed :: string where "kInviteRefusedNotAllowed = ''not_allowed''"

end
