(* ===== verification/GroupChangeLines.thy ===== *)
theory GroupChangeLines
  imports ChatWorld
begin

section \<open>The lines of the group's chat\<close>

text \<open>
  Models \<open>GroupChangeLines.cpp\<close> (the line a change that counts gets in the group's chat, and the chat's
  title) and \<open>EnsureDissolvedLine\<close> of \<open>GroupMembershipApply.cpp\<close>.
\<close>

definition SystemLine ::
  "('o, 'v, 'e) world_env_scheme \<Rightarrow> string \<Rightarrow> control_type \<Rightarrow> string \<Rightarrow> string \<Rightarrow> string
    \<Rightarrow> (('o, 'w) world_scheme, thread_message) state" where
  "SystemLine e thread type display detail sender = do {
     i \<leftarrow> fresh_id e;
     now \<leftarrow> clock e;
     State_Monad.return (BuildSystemMessage (we_lib e) i now thread type display detail sender)
   }"

text \<open>The event a change reads as: its type, text and detail.\<close>

definition line_parts :: "('o, 'v) json_lib \<Rightarrow> group_change \<Rightarrow> u64 \<Rightarrow> (control_type \<times> string \<times> string) option" where
  "line_parts L change epoch =
     (case c_kind change of
        KLeave \<Rightarrow> Some (MemberLeft, ''Member left'', EncodeMemberLeft L
          \<lparr>ml_group_id = c_group_id change, ml_identity = c_signer change, ml_roster_epoch = epoch\<rparr>)
      | KRemove \<Rightarrow> Some (MemberRemoved, ''Member removed'', EncodeMemberRemoved L
          \<lparr>mr_group_id = c_group_id change, mr_identity = c_member change, mr_roster_epoch = epoch,
            mr_removed_by = c_signer change\<rparr>)
      | KAdd \<Rightarrow> Some (MemberJoined, ''Member joined the group'', EncodeMemberJoined L
          ((joined_alone (c_group_id change) (c_member change) Member epoch)\<lparr>jm_added_by := c_signer change,
            jm_by_link := c_link_id change \<noteq> []\<rparr>))
      | KRename \<Rightarrow> Some (GroupRenamed, ''Group renamed to '' @ c_title change, EncodeGroupRenamed L
          \<lparr>gr_group_id = c_group_id change, gr_title = c_title change, gr_roster_epoch = epoch,
            gr_title_version = c_title_version change\<rparr>)
      | _ \<Rightarrow> None)"

definition LineFor ::
  "('o, 'v, 'e) world_env_scheme \<Rightarrow> string \<Rightarrow> group_change \<Rightarrow> u64
    \<Rightarrow> (('o, 'w) world_scheme, thread_message option) state" where
  "LineFor e thread change epoch =
     (case line_parts (we_lib e) change epoch of
        None \<Rightarrow> State_Monad.return None
      | Some (type, display, detail) \<Rightarrow> do {
          line \<leftarrow> SystemLine e thread type display detail (c_signer change);
          State_Monad.return (Some line)
        })"

text \<open>The loop of \<open>Append\<close>; \<open>about_us\<close> is its variable.\<close>

fun append_lines ::
  "('o, 'v, 'e) world_env_scheme \<Rightarrow> string \<Rightarrow> group_change list \<Rightarrow> u64 \<Rightarrow> string \<Rightarrow> string option
    \<Rightarrow> (('o, 'w) world_scheme, string option roe) state" where
  "append_lines e thread [] epoch local about_us = ret_ok about_us"
| "append_lines e thread (change # changes) epoch local about_us = do {
     line \<leftarrow> LineFor e thread change epoch;
     case line of
       None \<Rightarrow> append_lines e thread changes epoch local about_us
     | Some l \<Rightarrow> roe_then (make_call (we_result e) (AppendMessage l)) (\<lambda>_.
         append_lines e thread changes epoch local
           (if c_kind change = KRemove \<and> local \<noteq> [] \<and> c_member change = local then Some thread else about_us))
   }"

definition AppendChangeLines ::
  "('o, 'v, 'e) world_env_scheme \<Rightarrow> string \<Rightarrow> group_change list \<Rightarrow> u64 \<Rightarrow> string
    \<Rightarrow> (('o, 'w) world_scheme, string option roe) state" where
  "AppendChangeLines e g changes epoch local =
     (if changes = [] then ret_ok None
      else roe_then (make_call (we_found e) (FindGroupThread g)) (\<lambda>thread.
        case thread of
          None \<Rightarrow> ret_ok None
        | Some t \<Rightarrow> append_lines e (th_id t) changes epoch local None))"

definition FollowTitle ::
  "('o, 'v, 'e) world_env_scheme \<Rightarrow> string \<Rightarrow> string \<Rightarrow> (('o, 'w) world_scheme, unit roe) state" where
  "FollowTitle e g title =
     roe_then (make_call (we_found e) (FindGroupThread g)) (\<lambda>thread.
       case thread of
         None \<Rightarrow> ret_ok ()
       | Some t \<Rightarrow>
           if title = [] \<or> th_title t = title then ret_ok ()
           else do {
             now \<leftarrow> clock e;
             make_call (we_result e) (UpsertThread (t\<lparr>th_title := title, th_updated_at := now\<rparr>))
           })"

text \<open>The thread that got the line; none when the chat was deleted or already has it.\<close>

definition EnsureDissolvedLine ::
  "('o, 'v, 'e) world_env_scheme \<Rightarrow> string \<Rightarrow> string \<Rightarrow> string
    \<Rightarrow> (('o, 'w) world_scheme, string option roe) state" where
  "EnsureDissolvedLine e g owner sender =
     roe_then (make_call (we_found e) (FindGroupThread g)) (\<lambda>thread.
       case thread of
         None \<Rightarrow> ret_ok None
       | Some t \<Rightarrow> roe_then (make_call (we_page e) (GetMessagesPage (th_id t) 500)) (\<lambda>page.
           if \<exists>m \<in> set page. ControlTypeFromMessage (we_lib e) m = Some GroupDissolved then ret_ok None
           else case EncodeGroupDissolved (we_lib e) g owner of
             Inl x \<Rightarrow> State_Monad.return (Inl x)
           | Inr detail \<Rightarrow> do {
               line \<leftarrow> SystemLine e (th_id t) GroupDissolved ''Group dissolved'' detail sender;
               roe_then (make_call (we_result e) (AppendMessage line)) (\<lambda>_. ret_ok (Some (th_id t)))
             }))"

text \<open>
  A line the code appends to the group's chat when the chat is there, its result ignored: the thread it
  went to.
\<close>

definition group_line ::
  "('o, 'v, 'e) world_env_scheme \<Rightarrow> string \<Rightarrow> control_type \<Rightarrow> string \<Rightarrow> string \<Rightarrow> string
    \<Rightarrow> (('o, 'w) world_scheme, string option) state" where
  "group_line e g type display detail sender = do {
     thread \<leftarrow> make_call (we_found e) (FindGroupThread g);
     case thread of
       Inr (Some t) \<Rightarrow> do {
         line \<leftarrow> SystemLine e (th_id t) type display detail sender;
         ignore (make_call (we_result e) (AppendMessage line));
         State_Monad.return (Some (th_id t))
       }
     | _ \<Rightarrow> State_Monad.return None
   }"

end
