(* ===== verification/GroupInviteGate.thy ===== *)
theory GroupInviteGate
  imports GroupStore
begin

section \<open>The gate of inbound invites\<close>

text \<open>
  Models \<open>GroupInviteGate.cpp\<close>: which inbound invites may be kept, and the invites that came in a call
  this device is in. How this device stands with an inviter and who is in which live call are asked of
  other parts of the program (\<open>StandingFn\<close>, \<open>InLiveCallFn\<close>): the fields \<open>ig_standing\<close> and
  \<open>ig_in_live_call\<close>, \<open>None\<close> where the function is not set. \<open>InvitesInCall\<close> is given the time; the two
  times the clock is read by \<open>AllowsInboundInvite\<close> are its arguments.
\<close>

definition kMaxPendingInvitesPerDay :: nat where
  "kMaxPendingInvitesPerDay = 20"

datatype inviter_standing = StandingUnknown | StandingContact | StandingBlocked

record invite_in_call =
  ic_nonce :: string
  ic_group_id :: string
  ic_group_title :: string
  ic_inviter :: string
  ic_call_id :: string
  ic_expires_at :: "time_ms option"

record invite_gate =
  ig_policy :: group_invite_policy
  ig_standing :: "(string \<Rightarrow> inviter_standing) option"
  ig_in_live_call :: "(string \<Rightarrow> string \<Rightarrow> bool) option"
  ig_in_call :: "(string \<times> invite_in_call) list"
  ig_in_call_order :: "string list"

text \<open>Someone met in the call the invite was made in is no stranger.\<close>

definition met_in_call :: "invite_gate \<Rightarrow> group_invite_payload \<Rightarrow> bool" where
  "met_in_call gate invite \<longleftrightarrow> MadeInCall invite
     \<and> (case ig_in_live_call gate of None \<Rightarrow> False | Some f \<Rightarrow> f (ip_call_id invite) (ip_inviter invite))"

definition AllowsInboundInvite ::
  "invite_gate \<Rightarrow> group_invite_payload \<Rightarrow> time_ms \<Rightarrow> time_ms \<Rightarrow> bool store_op" where
  "AllowsInboundInvite gate invite now now' =
     (if ig_policy gate = Nobody then ret_ok False
      else let standing = (case ig_standing gate of None \<Rightarrow> StandingUnknown | Some f \<Rightarrow> f (ip_inviter invite))
      in if standing = StandingBlocked then ret_ok False
      else if standing = StandingUnknown \<and> ig_policy gate = ContactsOnly \<and> \<not> met_in_call gate invite then ret_ok False
      else if (case ip_expires_at invite of None \<Rightarrow> False | Some t \<Rightarrow> t < now) then ret_ok False
      else roe_then (CountPendingInvitesSince (now' - 24 * 60 * 60 * 1000)) (\<lambda>pending_count.
        ret_ok (pending_count < kMaxPendingInvitesPerDay)))"

definition RefusesUnknownInviter :: "invite_gate \<Rightarrow> string \<Rightarrow> bool" where
  "RefusesUnknownInviter gate inviter \<longleftrightarrow> ig_policy gate = ContactsOnly
     \<and> (case ig_standing gate of None \<Rightarrow> False | Some f \<Rightarrow> f inviter = StandingUnknown)"

definition RecordPendingInvite :: "pending_group_invite \<Rightarrow> unit store_op" where
  "RecordPendingInvite invite = UpsertPendingInvite invite"

definition NoteInviteInCall :: "group_invite_payload \<Rightarrow> invite_gate \<Rightarrow> invite_gate" where
  "NoteInviteInCall invite gate =
     (if \<not> MadeInCall invite \<or> ip_nonce invite = [] then gate
      else gate\<lparr>ig_in_call_order := (if map_of (ig_in_call gate) (ip_nonce invite) = None
                then ig_in_call_order gate @ [ip_nonce invite] else ig_in_call_order gate),
          ig_in_call := om_put (ip_nonce invite) \<lparr>ic_nonce = ip_nonce invite, ic_group_id = ip_group_id invite,
            ic_group_title = ip_group_title invite, ic_inviter = ip_inviter invite, ic_call_id = ip_call_id invite,
            ic_expires_at = ip_expires_at invite\<rparr> (ig_in_call gate)\<rparr>)"

definition ForgetInviteInCall :: "string \<Rightarrow> invite_gate \<Rightarrow> invite_gate" where
  "ForgetInviteInCall nonce gate =
     (if map_of (ig_in_call gate) nonce = None then gate
      else gate\<lparr>ig_in_call := om_erase nonce (ig_in_call gate),
        ig_in_call_order := removeAll nonce (ig_in_call_order gate)\<rparr>)"

definition InvitesInCall :: "invite_gate \<Rightarrow> string \<Rightarrow> time_ms \<Rightarrow> invite_in_call list" where
  "InvitesInCall gate call_id now =
     (if call_id = [] then []
      else List.map_filter (\<lambda>nonce.
        case map_of (ig_in_call gate) nonce of
          None \<Rightarrow> None
        | Some i \<Rightarrow> if ic_call_id i \<noteq> call_id \<or> (case ic_expires_at i of None \<Rightarrow> False | Some t \<Rightarrow> t < now)
            then None else Some i) (ig_in_call_order gate))"

definition CallOfInvite :: "invite_gate \<Rightarrow> string \<Rightarrow> string" where
  "CallOfInvite gate nonce = (case map_of (ig_in_call gate) nonce of None \<Rightarrow> [] | Some i \<Rightarrow> ic_call_id i)"

end
