(* ===== verification/InboundMembership.thy ===== *)
theory InboundMembership
  imports GroupChangeLines GroupInviteGate
begin

section \<open>Membership messages that arrive\<close>

text \<open>
  Models the membership half of \<open>RelayReceivePipeline.cpp\<close>: \<open>ApplyInboundMembershipMessage\<close>, which a
  verified message of a known sender is handed to, and the functions it calls. The outcome they fill is
  the record \<open>receive_outcome\<close>, limited to the fields they set; the message they may rewrite before it
  is stored and the invite gate are part of the world. An outcome is always passed, save where
  \<open>ApplyGroupSettingChanged\<close> passes none to \<open>FinishView\<close>: \<open>out\<close> is that pointer.
\<close>

subsection \<open>Outcome and environment\<close>

datatype about_us = AboutNone | AboutRemoved | AboutGroupFull

record receive_outcome =
  ro_suppress_inbox_chrome :: bool
  ro_about_us :: about_us
  ro_about_us_thread :: string
  ro_publish_group :: "string option"
  ro_publish_member :: "string option"
  ro_publish_epoch :: u64
  ro_publish_nonce :: string
  ro_refuse_group :: "string option"
  ro_refuse_nonce :: string
  ro_refuse_member :: string
  ro_refuse_reason :: string
  ro_admit_group :: "string option"
  ro_admit_nonce :: string
  ro_admit_member :: string
  ro_fold_group :: "string option"
  ro_catch_up_group :: "string option"
  ro_catch_up_ask :: string
  ro_took_group :: "string option"
  ro_took_transfer :: "owner_transfer option"
  ro_dissolved_thread :: "string option"
  ro_voided_cards :: "(string \<times> string) list"

record 'o inbound = "'o world" +
  in_outcome :: receive_outcome
  in_message :: thread_message
  in_gate :: "invite_gate option"
  in_last_asked :: "(string \<times> time_ms) list"

text \<open>The account this device speaks for, and which of the callbacks are set.\<close>

record ('o, 'v) inbound_env = "('o, 'v) world_env" +
  ie_account :: "string option"
  ie_on_roster_member :: bool
  ie_on_unknown_device :: bool
  ie_on_sender_card :: bool

type_synonym ('o, 'a) inbound_op = "('o inbound, 'a) state"

definition kGroupInviteNeedsContactError :: string where
  "kGroupInviteNeedsContactError = ''Invite refused: the inviter is not a contact''"

definition set_outcome :: "(receive_outcome \<Rightarrow> receive_outcome) \<Rightarrow> ('o, unit) inbound_op" where
  "set_outcome f = State_Monad.update (\<lambda>w. w\<lparr>in_outcome := f (in_outcome w)\<rparr>)"

definition the_message :: "('o, thread_message) inbound_op" where
  "the_message = do { w \<leftarrow> State_Monad.get; State_Monad.return (in_message w) }"

text \<open>What is stored of the message: its type with another detail.\<close>

definition store_detail :: "('o, 'v) inbound_env \<Rightarrow> control_type \<Rightarrow> string \<Rightarrow> ('o, unit) inbound_op" where
  "store_detail e type detail = State_Monad.update (\<lambda>w. w\<lparr>in_message := (in_message w)\<lparr>tm_payload_json :=
     jl_dump (we_lib e) (set_text (we_lib e) ''detail'' detail
       (set_text (we_lib e) ''control_type'' (GroupMembershipControlTypeToWire type) (jl_empty (we_lib e))))\<rparr>\<rparr>)"

definition is_true :: "bool roe \<Rightarrow> bool" where
  "is_true r \<longleftrightarrow> r = Inr True"

subsection \<open>After the roster was computed again\<close>

definition MarkRemovedHere :: "string \<Rightarrow> ('o, unit) inbound_op" where
  "MarkRemovedHere g = do {
     ignore (on_store (ClearGroupTarget g));
     metadata \<leftarrow> on_store (LoadMetadata g);
     case metadata of
       Inr (Some md) \<Rightarrow>
         if md_sync_state md = Active then ignore (on_store (UpsertMetadata (md\<lparr>md_sync_state := Removed\<rparr>))) else nothing
     | _ \<Rightarrow> nothing
   }"

definition FinishView ::
  "('o, 'v) inbound_env \<Rightarrow> string \<Rightarrow> group_view_applied \<Rightarrow> string \<Rightarrow> bool \<Rightarrow> ('o, unit) inbound_op" where
  "FinishView e g applied local out = do {
     metadata \<leftarrow> on_store (LoadMetadata g);
     case metadata of
       Inr (Some md) \<Rightarrow> do {
         (case va_new_title applied of None \<Rightarrow> nothing | Some title \<Rightarrow> ignore (FollowTitle e g title));
         about \<leftarrow> AppendChangeLines e g (va_newly_applied applied) (md_roster_epoch md) local;
         if local \<noteq> [] \<and> local \<in> set (va_gone applied) then do {
           MarkRemovedHere g;
           case about of
             Inr (Some thread) \<Rightarrow>
               if out then set_outcome (\<lambda>x. x\<lparr>ro_about_us := AboutRemoved, ro_about_us_thread := thread\<rparr>) else nothing
           | _ \<Rightarrow> nothing
         }
         else if out \<and> md_owner md = local then do {
           stored \<leftarrow> on_store (ListGroupChanges g);
           case stored of
             Inr (_ # _) \<Rightarrow> set_outcome (\<lambda>x. x\<lparr>ro_fold_group := Some g\<rparr>)
           | _ \<Rightarrow> nothing
         }
         else nothing
       }
     | _ \<Rightarrow> nothing
   }"

definition KeepCarriedStatement :: "('o, 'v) inbound_env \<Rightarrow> string \<Rightarrow> ('o, unit) inbound_op" where
  "KeepCarriedStatement e local = do {
     m \<leftarrow> the_message;
     case Option.bind (DetailOf (we_lib e) m) (StatementIn (we_lib e)) of
       None \<Rightarrow> nothing
     | Some st \<Rightarrow> do {
         now \<leftarrow> clock e;
         kept \<leftarrow> on_store (KeepAndCatchUp (we_crypto e) (we_json e) st (we_cards e) now);
         case kept of
           Inl _ \<Rightarrow> nothing
         | Inr (_, applied) \<Rightarrow> FinishView e (s_group_id st) (value_or applied nothing_applied) local True
       }
   }"

subsection \<open>Cards that ride along\<close>

text \<open>
  The loop of \<open>KeepBundleCards\<close>; \<open>listed\<close> is the roster's answer for an entry, asked only of others than
  ourselves.
\<close>

fun keep_cards ::
  "('o, 'v) inbound_env \<Rightarrow> string \<Rightarrow> (string \<Rightarrow> ('o, bool) inbound_op) \<Rightarrow> 'o joined_entry list
    \<Rightarrow> ('o, unit) inbound_op" where
  "keep_cards e local listed [] = nothing"
| "keep_cards e local listed (entry # entries) = do {
     (if jn_identity entry = local then nothing
      else do {
        inside \<leftarrow> listed (jn_identity entry);
        if inside \<and> (jn_card entry \<noteq> None \<or> jn_relay_user entry \<noteq> []) \<and> ie_on_roster_member e
        then ignore (make_call (we_result e) (OnRosterMember entry)) else nothing
      });
     keep_cards e local listed entries
   }"

definition KeepBundleCards ::
  "('o, 'v) inbound_env \<Rightarrow> 'o joined_message \<Rightarrow> string \<Rightarrow> (string \<Rightarrow> ('o, bool) inbound_op)
    \<Rightarrow> ('o, unit) inbound_op" where
  "KeepBundleCards e joined local listed = do {
     keep_cards e local listed (jm_members joined);
     if \<exists>entry \<in> set (jm_members joined). jn_card entry \<noteq> None
     then store_detail e MemberJoined (WithoutCards (we_lib e) joined) else nothing
   }"

definition on_roster :: "string \<Rightarrow> string \<Rightarrow> ('o, bool) inbound_op" where
  "on_roster g identity = do {
     inside \<leftarrow> on_store (IsMember g identity);
     State_Monad.return (is_true inside)
   }"

definition KeepChangeNewcomer :: "('o, 'v) inbound_env \<Rightarrow> group_change \<Rightarrow> string \<Rightarrow> ('o, unit) inbound_op" where
  "KeepChangeNewcomer e change local = do {
     m \<leftarrow> the_message;
     case Option.bind (DetailOf (we_lib e) m) (NewcomerIn (we_lib e)) of
       None \<Rightarrow> nothing
     | Some newcomer \<Rightarrow> do {
         inside \<leftarrow> on_roster (c_group_id change) (c_member change);
         (if c_kind change = KAdd \<and> cn_identity newcomer = c_member change \<and> c_member change \<noteq> local \<and> inside
             \<and> ie_on_roster_member e
          then ignore (make_call (we_result e) (OnRosterMember \<lparr>jn_identity = cn_identity newcomer, jn_role = Member,
            jn_card = cn_card newcomer, jn_relay_user = cn_relay_user newcomer\<rparr>))
          else nothing);
         store_detail e GroupChangeCtl (EncodeChange (we_lib e) change None)
       }
   }"

subsection \<open>Signed changes and join bundles\<close>

text \<open>The callbacks for a change whose card is missing, or came with it.\<close>

definition change_card_calls :: "('o, 'v) inbound_env \<Rightarrow> group_change \<Rightarrow> change_held \<Rightarrow> time_ms \<Rightarrow> ('o, unit) inbound_op" where
  "change_card_calls e change outcome now = do {
     (if outcome = HeldNoCard \<and> ie_on_unknown_device e
      then ignore (make_call (we_result e) (OnUnknownSenderDevice (c_signer change) (c_signer_device change) now))
      else nothing);
     case c_signer_card change of
       None \<Rightarrow> nothing
     | Some ac \<Rightarrow>
         if outcome = HeldProved \<and> ie_on_sender_card e \<and> k_account_id (a_keys ac) = c_signer change
             \<and> VerifyAccountCard (we_crypto e) ac now = Inr ()
         then ignore (make_call (we_result e) (OnSenderCard ac)) else nothing
   }"

definition TakeChange :: "('o, 'v) inbound_env \<Rightarrow> group_change \<Rightarrow> string \<Rightarrow> ('o, unit roe) inbound_op" where
  "TakeChange e change local = do {
     now \<leftarrow> clock e;
     roe_then (on_store (ReceiveChange (we_crypto e) (we_json e) change (we_cards e) now)) (\<lambda>received.
       if rcv_held received = Refused
       then ret_err ''group_change: it does not prove itself (forged, damaged, or the group holds too many)''
       else do {
         change_card_calls e change (rcv_held received) now;
         FinishView e (c_group_id change) (rcv_applied received) local True;
         KeepChangeNewcomer e change local;
         ret_ok ()
       })
   }"

definition ApplyGroupChange :: "('o, 'v) inbound_env \<Rightarrow> string \<Rightarrow> string \<Rightarrow> ('o, unit roe) inbound_op" where
  "ApplyGroupChange e actor local = do {
     set_outcome (\<lambda>x. x\<lparr>ro_suppress_inbox_chrome := True\<rparr>);
     m \<leftarrow> the_message;
     case DetailOf (we_lib e) m of
       None \<Rightarrow> ret_err ''group_change: no detail''
     | Some detail \<Rightarrow> roe_then (State_Monad.return (DecodeChange (we_lib e) detail)) (\<lambda>change.
         roe_then (on_store (IsMember (c_group_id change) local)) (\<lambda>member.
           if local = [] \<or> \<not> member then ret_ok ()
           else if actor = c_signer change then TakeChange e change local
           else do {
             sender \<leftarrow> on_store (IsMember (c_group_id change) actor);
             if \<not> is_true sender then ret_err ''group_change: handed on by someone outside the group''
             else TakeChange e change local
           }))
   }"

definition prefixed :: "string \<Rightarrow> ('s, 'a roe) state \<Rightarrow> ('s, 'a roe) state" where
  "prefixed p m = do {
     r \<leftarrow> m;
     State_Monad.return (case r of Inl (Error x) \<Rightarrow> Inl (Error (p @ x)) | Inr y \<Rightarrow> Inr y)
   }"

text \<open>The bundle with the owner's statement, and with no statement, from the owner.\<close>

definition JoinByStatement ::
  "('o, 'v) inbound_env \<Rightarrow> 'o joined_message \<Rightarrow> statement \<Rightarrow> string \<Rightarrow> string \<Rightarrow> string \<Rightarrow> ('o, unit roe) inbound_op" where
  "JoinByStatement e joined st detail actor local = do {
     now \<leftarrow> clock e;
     let carried = ChangesIn (we_lib e) detail (jm_group_id joined);
     roe_then (prefixed ''join bundle: '' (on_store (CheckJoin (we_crypto e) (we_json e) st (cd_changes carried)
         (we_cards e) now local))) (\<lambda>_.
       roe_then (prefixed ''join bundle: '' (on_store (KeepStatement (we_crypto e) (we_json e) st))) (\<lambda>_.
         roe_then (on_store (HoldCarried (we_crypto e) (we_json e) (cd_changes carried) (we_cards e) now True)) (\<lambda>_.
           roe_then (on_store (ApplyView (we_crypto e) (we_json e) (jm_group_id joined) (we_cards e) now)) (\<lambda>applied.
             case va_view applied of
               None \<Rightarrow> ret_err ''join bundle: the roster it proves does not have us''
             | Some view \<Rightarrow>
                 if \<not> ViewLists view local then ret_err ''join bundle: the roster it proves does not have us''
                 else do {
                   KeepBundleCards e joined local (\<lambda>i. State_Monad.return (ViewLists view i));
                   (if cd_more carried
                    then set_outcome (\<lambda>x. x\<lparr>ro_catch_up_group := Some (jm_group_id joined), ro_catch_up_ask := actor\<rparr>)
                    else nothing);
                   FinishView e (jm_group_id joined) applied local True;
                   ret_ok ()
                 }))))
   }"

definition JoinByOwner :: "('o, 'v) inbound_env \<Rightarrow> 'o joined_message \<Rightarrow> string \<Rightarrow> string \<Rightarrow> ('o, unit roe) inbound_op" where
  "JoinByOwner e joined actor local = do {
     now \<leftarrow> clock e;
     roe_then (on_store (ApplyMemberJoinedToRoster (joined_event joined) actor now)) (\<lambda>_. do {
       KeepBundleCards e joined local (on_roster (jm_group_id joined));
       ret_ok ()
     })
   }"

definition invited_by :: "pending_group_invite option roe \<Rightarrow> string \<Rightarrow> string \<Rightarrow> string \<Rightarrow> bool" where
  "invited_by pending actor g local \<longleftrightarrow>
     (case pending of
        Inr (Some p) \<Rightarrow> \<not> pi_outbound p \<and> pi_inviter p = actor \<and> pi_group_id p = g \<and> pi_invitee p = local
      | _ \<Rightarrow> False)"

definition ApplyJoinBundle ::
  "('o, 'v) inbound_env \<Rightarrow> 'o joined_message \<Rightarrow> string \<Rightarrow> string \<Rightarrow> ('o, unit roe) inbound_op" where
  "ApplyJoinBundle e joined actor local = do {
     metadata \<leftarrow> on_store (LoadMetadata (jm_group_id joined));
     case metadata of
       Inr (Some md) \<Rightarrow> do {
         from_inviter \<leftarrow> (if jm_invite_nonce joined = [] then State_Monad.return False
           else do {
             pending \<leftarrow> on_store (LoadPendingInvite (jm_invite_nonce joined));
             State_Monad.return (invited_by pending actor (jm_group_id joined) local)
           });
         if \<not> from_inviter \<and> md_owner md \<noteq> actor then ret_err ''join bundle: not from the one who invited us''
         else do {
           m \<leftarrow> the_message;
           let detail = DetailOf (we_lib e) m;
           case Option.bind detail (StatementIn (we_lib e)) of
             None \<Rightarrow> if md_owner md \<noteq> actor then ret_err ''join bundle: no owner statement''
               else JoinByOwner e joined actor local
           | Some st \<Rightarrow> JoinByStatement e joined st (value_or detail []) actor local
         }
       }
     | _ \<Rightarrow> ret_err ''join bundle: a group we do not hold''
   }"

subsection \<open>The owner's settings, statements and dissolves\<close>

text \<open>
  What \<open>ApplyGroupSettingChanged\<close> reads of the message: the group, the event written again, its text
  and whether a statement agrees with it.
\<close>

definition setting_parts ::
  "('o, 'v) json_lib \<Rightarrow> thread_message \<Rightarrow> control_type \<Rightarrow> (string \<times> string \<times> string \<times> (statement \<Rightarrow> bool)) roe" where
  "setting_parts L m kind =
     (if kind = MemberRoleChanged
      then roe_bind (DecodeMemberRoleChangedFromMessage L m) (\<lambda>changed.
        roe_bind (EncodeMemberRoleChanged L changed) (\<lambda>encoded.
          Inr (rl_group_id changed, encoded,
            if rl_role changed = Admin then ''Member made admin'' else ''Member no longer admin'',
            \<lambda>st. \<exists>x \<in> set (s_members st). sm_identity x = rl_identity changed \<and> sm_role x = rl_role changed)))
      else roe_bind (DecodeGroupPresetChangedFromMessage L m) (\<lambda>changed.
        Inr (pc_group_id changed, EncodeGroupPresetChanged L changed,
          if pc_preset changed = Managed then ''Group set to managed'' else ''Group set to open'',
          \<lambda>st. s_preset st = pc_preset changed)))"

definition ApplyGroupSettingChanged ::
  "('o, 'v) inbound_env \<Rightarrow> control_type \<Rightarrow> string \<Rightarrow> string \<Rightarrow> ('o, unit roe) inbound_op" where
  "ApplyGroupSettingChanged e kind actor local = do {
     m \<leftarrow> the_message;
     roe_then (State_Monad.return (setting_parts (we_lib e) m kind)) (\<lambda>(g, detail_json, display, agrees). do {
       inside \<leftarrow> on_roster g local;
       if \<not> inside then ret_ok ()
       else case Option.bind (DetailOf (we_lib e) m) (StatementIn (we_lib e)) of
         None \<Rightarrow> ret_err ''group setting: not from the owner its roster names''
       | Some st \<Rightarrow>
           if s_group_id st \<noteq> g \<or> s_owner st \<noteq> actor
           then ret_err ''group setting: not from the owner its roster names''
           else if \<not> agrees st then ret_err ''group setting: the event does not match the roster it carries''
           else do {
             now \<leftarrow> clock e;
             roe_then (on_store (KeepAndCatchUp (we_crypto e) (we_json e) st (we_cards e) now)) (\<lambda>(kept, applied).
               if \<not> kept then ret_ok ()
               else do {
                 FinishView e g (value_or applied nothing_applied) local False;
                 group_line e g kind display detail_json actor;
                 ret_ok ()
               })
           }
     })
   }"

definition ApplyRosterStatement :: "('o, 'v) inbound_env \<Rightarrow> string \<Rightarrow> string \<Rightarrow> ('o, unit roe) inbound_op" where
  "ApplyRosterStatement e actor local = do {
     set_outcome (\<lambda>x. x\<lparr>ro_suppress_inbox_chrome := True\<rparr>);
     m \<leftarrow> the_message;
     case DetailOf (we_lib e) m of
       None \<Rightarrow> ret_err ''roster statement: no detail''
     | Some detail \<Rightarrow> roe_then (State_Monad.return (DecodeStatement (we_lib e) detail)) (\<lambda>st. do {
         inside \<leftarrow> on_roster (s_group_id st) local;
         if \<not> inside \<or> s_owner st \<noteq> actor then ret_ok ()
         else do {
           now \<leftarrow> clock e;
           kept \<leftarrow> on_store (KeepAndCatchUp (we_crypto e) (we_json e) st (we_cards e) now);
           case kept of
             Inl _ \<Rightarrow> ret_ok ()
           | Inr (_, applied) \<Rightarrow> do {
               FinishView e (s_group_id st) (value_or applied nothing_applied) local True;
               ret_ok ()
             }
         }
       })
   }"

text \<open>The thread of a dissolved group that got its line just now, for the notice.\<close>

definition note_dissolved_line :: "('o, 'v) inbound_env \<Rightarrow> string \<Rightarrow> string \<Rightarrow> ('o, unit) inbound_op" where
  "note_dissolved_line e g actor = do {
     added \<leftarrow> EnsureDissolvedLine e g actor actor;
     case added of
       Inr (Some thread) \<Rightarrow> set_outcome (\<lambda>x. x\<lparr>ro_dissolved_thread := Some thread\<rparr>)
     | _ \<Rightarrow> nothing
   }"

definition ApplyGroupDissolved :: "('o, 'v) inbound_env \<Rightarrow> string \<Rightarrow> string \<Rightarrow> ('o, unit roe) inbound_op" where
  "ApplyGroupDissolved e actor local = do {
     set_outcome (\<lambda>x. x\<lparr>ro_suppress_inbox_chrome := True\<rparr>);
     m \<leftarrow> the_message;
     case DetailOf (we_lib e) m of
       None \<Rightarrow> ret_err ''group_dissolved: no detail''
     | Some detail \<Rightarrow> roe_then (State_Monad.return (DecodeStatement (we_lib e) detail)) (\<lambda>st.
         roe_then (on_store (ApplyGroupDissolvedToRoster (we_crypto e) (we_json e) st actor local)) (\<lambda>applied. do {
           metadata \<leftarrow> on_store (LoadMetadata (s_group_id st));
           (case metadata of
              Inr (Some md) \<Rightarrow>
                if md_sync_state md = Dissolved \<and> md_owner md = actor
                then note_dissolved_line e (s_group_id st) actor else nothing
            | _ \<Rightarrow> nothing);
           set_outcome (\<lambda>x. x\<lparr>ro_voided_cards := ro_voided_cards x
             @ map (\<lambda>p. (pi_inviter p, pi_nonce p)) (filter (\<lambda>p. \<not> pi_outbound p) (da_voided applied))\<rparr>);
           ret_ok ()
         }))
   }"

subsection \<open>Invites refused and accepted\<close>

definition drop_refused_group :: "('o, 'v) inbound_env \<Rightarrow> invite_response_payload \<Rightarrow> string \<Rightarrow> string \<Rightarrow> ('o, unit) inbound_op" where
  "drop_refused_group e refused actor local = do {
     (if local \<noteq> [] then ignore (on_store (RemoveMember (ir_group_id refused) local)) else nothing);
     ignore (on_store (ClearGroupTarget (ir_group_id refused)));
     metadata \<leftarrow> on_store (LoadMetadata (ir_group_id refused));
     (case metadata of
        Inr (Some md) \<Rightarrow> ignore (on_store (UpsertMetadata (md\<lparr>md_sync_state := Removed\<rparr>)))
      | _ \<Rightarrow> nothing);
     thread \<leftarrow> group_line e (ir_group_id refused) GroupInviteRefused
       (if ir_reason refused = kInviteRefusedNotAllowed then ''You were not added to the group''
        else ''The group is full: you were not added'')
       (EncodeInviteRefused (we_lib e) (ir_nonce refused) (ir_group_id refused) (ir_reason refused)) actor;
     case thread of
       None \<Rightarrow> nothing
     | Some t \<Rightarrow> set_outcome (\<lambda>x. x\<lparr>ro_about_us := AboutGroupFull, ro_about_us_thread := t\<rparr>)
   }"

definition end_refused_group :: "('o, 'v) inbound_env \<Rightarrow> invite_response_payload \<Rightarrow> string \<Rightarrow> ('o, unit) inbound_op" where
  "end_refused_group e refused actor = do {
     ended \<leftarrow> on_store (EndGroupInRoster (ir_group_id refused) actor 0 [] []);
     (case ended of
        Inr d \<Rightarrow> if da_applied d then note_dissolved_line e (ir_group_id refused) actor else nothing
      | Inl _ \<Rightarrow> nothing);
     set_outcome (\<lambda>x. x\<lparr>ro_voided_cards := ro_voided_cards x @ [(actor, ir_nonce refused)]\<rparr>)
   }"

definition ApplyInviteRefused :: "('o, 'v) inbound_env \<Rightarrow> string \<Rightarrow> string \<Rightarrow> ('o, unit roe) inbound_op" where
  "ApplyInviteRefused e actor local = do {
     m \<leftarrow> the_message;
     roe_then (State_Monad.return (DecodeInviteResponseFromMessage (we_lib e) m)) (\<lambda>refused. do {
       pending \<leftarrow> on_store (LoadPendingInvite (ir_nonce refused));
       if \<not> (case pending of
              Inr (Some p) \<Rightarrow> \<not> pi_outbound p \<and> pi_inviter p = actor \<and> pi_group_id p = ir_group_id refused
            | _ \<Rightarrow> False)
       then ret_err ''group_invite_refused for no invite of ours from its sender''
       else do {
         ignore (on_store (UpdateInviteStatus (ir_nonce refused) Expired));
         (if ir_reason refused = kInviteRefusedGroupDissolved then end_refused_group e refused actor
          else drop_refused_group e refused actor local);
         ret_ok ()
       }
     })
   }"

text \<open>Why an accept is refused, where the invitee is to hear it.\<close>

definition refuse_reason :: "string \<Rightarrow> string option" where
  "refuse_reason why =
     (if why = kGroupFullError then Some kInviteRefusedGroupFull
      else if why = kGroupDissolvedError then Some kInviteRefusedGroupDissolved
      else if why = kGroupInviteNotAllowedError then Some kInviteRefusedNotAllowed
      else None)"

definition ApplyInviteAccepted ::
  "('o, 'v) inbound_env \<Rightarrow> invite_response_payload \<Rightarrow> string \<Rightarrow> string \<Rightarrow> ('o, unit roe) inbound_op" where
  "ApplyInviteAccepted e response actor local = do {
     now \<leftarrow> clock e;
     applied \<leftarrow> on_store (ApplyInviteAcceptToRoster (ir_nonce response) actor (ir_group_id response) local now);
     case applied of
       Inl (Error why) \<Rightarrow>
         (case refuse_reason why of
            None \<Rightarrow> ret_err why
          | Some reason \<Rightarrow> do {
              set_outcome (\<lambda>x. x\<lparr>ro_refuse_group := Some (ir_group_id response), ro_refuse_nonce := ir_nonce response,
                ro_refuse_member := actor, ro_refuse_reason := reason\<rparr>);
              (if why = kGroupInviteNotAllowedError
               then ignore (on_store (UpdateInviteStatus (ir_nonce response) Expired)) else nothing);
              ret_ok ()
            })
     | Inr Already \<Rightarrow> ret_ok ()
     | Inr SignAdd \<Rightarrow> do {
         set_outcome (\<lambda>x. x\<lparr>ro_admit_group := Some (ir_group_id response), ro_admit_nonce := ir_nonce response,
           ro_admit_member := actor\<rparr>);
         ret_ok ()
       }
     | Inr Added \<Rightarrow> do {
         metadata \<leftarrow> on_store (LoadMetadata (ir_group_id response));
         (case metadata of
            Inr (Some md) \<Rightarrow> set_outcome (\<lambda>x. x\<lparr>ro_publish_group := Some (ir_group_id response),
              ro_publish_member := Some actor, ro_publish_epoch := md_roster_epoch md,
              ro_publish_nonce := ir_nonce response\<rparr>)
          | _ \<Rightarrow> nothing);
         ret_ok ()
       }
   }"

definition ApplyInviteDeclined ::
  "('o, 'v) inbound_env \<Rightarrow> invite_response_payload \<Rightarrow> string \<Rightarrow> ('o, unit roe) inbound_op" where
  "ApplyInviteDeclined e response actor =
     roe_then (on_store (ApplyInviteDeclineToRoster (ir_nonce response) actor (ir_group_id response))) (\<lambda>_. do {
       group_line e (ir_group_id response) GroupInviteDecline ''Invitation declined''
         (EncodeInviteResponse (we_lib e) (ir_nonce response) (ir_group_id response)) actor;
       ret_ok ()
     })"

end
