(* ===== verification/InboundDispatch.thy ===== *)
theory InboundDispatch
  imports InboundMembership
begin

section \<open>The dispatcher of membership messages\<close>

text \<open>
  Models \<open>ApplyInboundMembershipMessage\<close> of \<open>RelayReceivePipeline.cpp\<close>: a definition per branch, and
  the dispatch on the message's type; and \<open>NoteCopyState\<close>, which asks for what a newer copy has.
\<close>

subsection \<open>Branches\<close>

text \<open>\<open>ignore_if_not_member\<close>: events of groups we are not in (any more) do nothing; a read that fails ignores nothing.\<close>

definition ignored :: "string \<Rightarrow> string \<Rightarrow> ('o, bool) inbound_op" where
  "ignored g local =
     (if local = [] \<or> g = [] then State_Monad.return False
      else do {
        inside \<leftarrow> on_store (IsMember g local);
        State_Monad.return (inside = Inr False)
      })"

definition inbound_joined :: "('o, 'v) inbound_env \<Rightarrow> 'o joined_message \<Rightarrow> string \<Rightarrow> string \<Rightarrow> ('o, unit roe) inbound_op" where
  "inbound_joined e joined actor local = do {
     skip \<leftarrow> ignored (jm_group_id joined) local;
     if skip then ret_ok ()
     else if local \<noteq> [] \<and> jm_identity joined = local then ApplyJoinBundle e joined actor local
     else do {
       now \<leftarrow> clock e;
       roe_then (on_store (ApplyMemberJoinedToRoster (joined_event joined) actor now)) (\<lambda>_. do {
         KeepCarriedStatement e local;
         KeepBundleCards e joined local (on_roster (jm_group_id joined));
         (if jm_identity joined \<noteq> local
          then ignore (group_line e (jm_group_id joined) MemberJoined ''Member joined the group''
            (EncodeMemberJoined (we_lib e) (joined\<lparr>jm_members := [], jm_invite_nonce := []\<rparr>)) actor)
          else ignore (make_call (we_found e) (FindGroupThread (jm_group_id joined))));
         ret_ok ()
       })
     }
   }"

definition inbound_transferred ::
  "('o, 'v) inbound_env \<Rightarrow> owner_transferred_payload \<Rightarrow> string \<Rightarrow> string \<Rightarrow> ('o, unit roe) inbound_op" where
  "inbound_transferred e transferred actor local = do {
     skip \<leftarrow> ignored (ot_group_id transferred) local;
     if skip then ret_ok ()
     else do {
       now \<leftarrow> clock e;
       roe_then (on_store (ApplyOwnerTransferredToRoster transferred actor now)) (\<lambda>_. do {
         m \<leftarrow> the_message;
         (if ot_new_owner transferred = local
          then case Option.bind (DetailOf (we_lib e) m) (TransferIn (we_lib e)) of
              None \<Rightarrow> nothing
            | Some handed \<Rightarrow> set_outcome (\<lambda>x. x\<lparr>ro_took_group := Some (ot_group_id transferred),
                ro_took_transfer := Some handed\<rparr>)
          else nothing);
         group_line e (ot_group_id transferred) OwnerTransferred
           (if ot_leave_previous transferred then ''Ownership transferred; previous owner left''
            else ''Group ownership transferred'')
           (EncodeOwnerTransferred (we_lib e) transferred) actor;
         ret_ok ()
       })
     }
   }"

definition inbound_removed ::
  "('o, 'v) inbound_env \<Rightarrow> removed_message \<Rightarrow> string \<Rightarrow> string \<Rightarrow> ('o, unit roe) inbound_op" where
  "inbound_removed e removed actor local = do {
     skip \<leftarrow> ignored (mr_group_id removed) local;
     if skip then ret_ok ()
     else roe_then (on_store (ApplyMemberRemovedToRoster (member_removed_payload.truncate removed) actor)) (\<lambda>_. do {
       KeepCarriedStatement e local;
       (if local \<noteq> [] \<and> mr_identity removed = local then MarkRemovedHere (mr_group_id removed) else nothing);
       thread \<leftarrow> group_line e (mr_group_id removed) MemberRemoved ''Member removed''
         (EncodeMemberRemoved (we_lib e) (removed\<lparr>mr_removed_by := actor\<rparr>)) actor;
       (case thread of
          None \<Rightarrow> nothing
        | Some t \<Rightarrow>
            if local \<noteq> [] \<and> mr_identity removed = local
            then set_outcome (\<lambda>x. x\<lparr>ro_about_us := AboutRemoved, ro_about_us_thread := t\<rparr>) else nothing);
       ret_ok ()
     })
   }"

definition inbound_renamed ::
  "('o, 'v) inbound_env \<Rightarrow> group_renamed_payload \<Rightarrow> string \<Rightarrow> string \<Rightarrow> ('o, unit roe) inbound_op" where
  "inbound_renamed e renamed actor local = do {
     skip \<leftarrow> ignored (gr_group_id renamed) local;
     if skip then ret_ok ()
     else roe_then (on_store (ApplyGroupRenamedToRoster renamed actor)) (\<lambda>applied.
       if \<not> applied then ret_ok ()
       else do {
         thread \<leftarrow> make_call (we_found e) (FindGroupThread (gr_group_id renamed));
         (case thread of
            Inr (Some t) \<Rightarrow> do {
              now \<leftarrow> clock e;
              ignore (make_call (we_result e) (UpsertThread (t\<lparr>th_title := gr_title renamed, th_updated_at := now\<rparr>)));
              line \<leftarrow> SystemLine e (th_id t) GroupRenamed (''Group renamed to '' @ gr_title renamed)
                (EncodeGroupRenamed (we_lib e) renamed) actor;
              ignore (make_call (we_result e) (AppendMessage line))
            }
          | _ \<Rightarrow> nothing);
         ret_ok ()
       })
   }"

text \<open>An invite: for us, from its sender, to a group that is not over and that we are not in, and let in by the gate.\<close>

definition known_group :: "string \<Rightarrow> string \<Rightarrow> ('o, bool roe) inbound_op" where
  "known_group g local =
     roe_then (on_store (LoadMetadata g)) (\<lambda>known.
       case known of
         None \<Rightarrow> ret_ok False
       | Some md \<Rightarrow>
           if md_sync_state md = Dissolved then ret_ok True
           else roe_then (on_store (IsMember g local)) (\<lambda>member.
             if member then ret_err ''Invite rejected: already a member'' else ret_ok False))"

definition invite_record :: "group_invite_payload \<Rightarrow> time_ms \<Rightarrow> pending_group_invite" where
  "invite_record invite now = \<lparr>pi_nonce = ip_nonce invite, pi_group_id = ip_group_id invite,
     pi_group_title = ip_group_title invite, pi_inviter = ip_inviter invite, pi_invitee = ip_invitee invite,
     pi_roster_epoch = (if ip_roster_epoch invite = 0 then 1 else ip_roster_epoch invite), pi_status = Pending,
     pi_expires_at = ip_expires_at invite, pi_created_at = now, pi_outbound = False, pi_owner = PayloadOwner invite\<rparr>"

definition inbound_invite ::
  "('o, 'v) inbound_env \<Rightarrow> invite_gate \<Rightarrow> group_invite_payload \<Rightarrow> string \<Rightarrow> string \<Rightarrow> ('o, unit roe) inbound_op" where
  "inbound_invite e gate invite actor local =
     (if ip_inviter invite \<noteq> actor then ret_err ''Invite rejected: inviter is not the sender''
      else if local = [] \<or> ip_invitee invite \<noteq> local then ret_err ''Invite rejected: not addressed to the local account''
      else roe_then (known_group (ip_group_id invite) local) (\<lambda>over.
        if over then ret_ok ()
        else do {
          t \<leftarrow> clock e;
          t' \<leftarrow> clock e;
          roe_then (on_store (AllowsInboundInvite gate invite t t')) (\<lambda>allowed.
            if \<not> allowed
            then ret_err (if RefusesUnknownInviter gate (ip_inviter invite) then kGroupInviteNeedsContactError
              else ''Invite blocked by policy'')
            else do {
              now \<leftarrow> clock e;
              roe_then (on_store (UpsertPendingInvite (invite_record invite now))) (\<lambda>_. do {
                State_Monad.update (\<lambda>w. w\<lparr>in_gate := Some (NoteInviteInCall invite gate),
                  in_message := (in_message w)\<lparr>tm_chat_actions := BuildInviteChatActions (we_lib e) invite\<rparr>\<rparr>);
                ret_ok ()
              })
            })
        }))"

subsection \<open>The dispatch\<close>

definition ApplyInboundMembershipMessage :: "('o, 'v) inbound_env \<Rightarrow> string \<Rightarrow> ('o, unit roe) inbound_op" where
  "ApplyInboundMembershipMessage e actor = do {
     w \<leftarrow> State_Monad.get;
     let m = in_message w;
     let local = value_or (ie_account e) [];
     case ControlTypeFromMessage (we_lib e) m of
       Some GroupInviteRefused \<Rightarrow> ApplyInviteRefused e actor local
     | Some GroupInviteAccept \<Rightarrow> given (DecodeInviteResponseFromMessage (we_lib e) m)
         (\<lambda>response. ApplyInviteAccepted e response actor local)
     | Some GroupInviteDecline \<Rightarrow> given (DecodeInviteResponseFromMessage (we_lib e) m)
         (\<lambda>response. ApplyInviteDeclined e response actor)
     | Some MemberJoined \<Rightarrow> given (DecodeMemberJoinedFromMessage (we_lib e) m)
         (\<lambda>joined. inbound_joined e joined actor local)
     | Some OwnerTransferred \<Rightarrow> given (DecodeOwnerTransferredFromMessage (we_lib e) m)
         (\<lambda>transferred. inbound_transferred e transferred actor local)
     | Some GroupChangeCtl \<Rightarrow> ApplyGroupChange e actor local
     | Some MemberRemoved \<Rightarrow> given (DecodeMemberRemovedFromMessage (we_lib e) m)
         (\<lambda>removed. inbound_removed e removed actor local)
     | Some GroupRenamed \<Rightarrow> given (DecodeGroupRenamedFromMessage (we_lib e) m)
         (\<lambda>renamed. inbound_renamed e renamed actor local)
     | Some GroupRosterStatementCtl \<Rightarrow> ApplyRosterStatement e actor local
     | Some MemberRoleChanged \<Rightarrow> ApplyGroupSettingChanged e MemberRoleChanged actor local
     | Some GroupPresetChanged \<Rightarrow> ApplyGroupSettingChanged e GroupPresetChanged actor local
     | Some GroupDissolved \<Rightarrow> ApplyGroupDissolved e actor local
     | Some GroupInvite \<Rightarrow>
         (case in_gate w of
            None \<Rightarrow> ret_ok ()
          | Some gate \<Rightarrow> given (DecodeInviteFromMessage (we_lib e) m)
              (\<lambda>invite. inbound_invite e gate invite actor local))
     | _ \<Rightarrow> ret_ok ()
   }"

text \<open>A copy of a group message says which roster its sender holds.\<close>

definition NoteCopyState :: "('o, 'v) inbound_env \<Rightarrow> string \<Rightarrow> group_copy_state \<Rightarrow> string \<Rightarrow> ('o, unit) inbound_op" where
  "NoteCopyState e g theirs sender = do {
     ours \<leftarrow> on_store (CopyState (we_crypto e) (we_json e) g);
     if \<not> NeedsCatchUp ours theirs then nothing
     else do {
       now \<leftarrow> clock e;
       w \<leftarrow> State_Monad.get;
       let (allowed, last_asked) = Allow g now (in_last_asked w);
       State_Monad.update (\<lambda>w. w\<lparr>in_last_asked := last_asked\<rparr>);
       if allowed then set_outcome (\<lambda>x. x\<lparr>ro_catch_up_group := Some g, ro_catch_up_ask := sender\<rparr>) else nothing
     }
   }"

end
