(* ===== verification/WorldLaws.thy ===== *)
theory WorldLaws
  imports GroupChangeLines SyncClaims
begin

section \<open>Laws of the world\<close>

text \<open>
  \<open>holds m Q w\<close> says that \<open>m\<close>, run in the world \<open>w\<close>, ends with a result and a world that satisfy \<open>Q\<close>.
  Each construct has a rule that reduces it to its steps; an operation of the roster store is reduced
  to what \<open>after\<close> says of it, so under any failures of the database.
\<close>

definition holds :: "('s, 'a) state \<Rightarrow> ('a \<Rightarrow> 's \<Rightarrow> bool) \<Rightarrow> 's \<Rightarrow> bool" where
  "holds m Q w \<longleftrightarrow> (case run_state m w of (r, w') \<Rightarrow> Q r w')"

named_theorems world_intros "rules that reduce an operation of the world to its steps"

lemma holdsD: "holds m Q w \<Longrightarrow> run_state m w = (r, w') \<Longrightarrow> Q r w'"
  by (simp add: holds_def)

lemma holds_run: "holds m Q w \<Longrightarrow> Q (fst (run_state m w)) (snd (run_state m w))"
  by (simp add: holds_def case_prod_unfold)

lemma holds_weaken: "holds m Q w \<Longrightarrow> (\<And>r w'. Q r w' \<Longrightarrow> Q' r w') \<Longrightarrow> holds m Q' w"
  by (auto simp: holds_def split: prod.splits)

lemma holds_conj: "holds m Q w \<Longrightarrow> holds m Q' w \<Longrightarrow> holds m (\<lambda>r w'. Q r w' \<and> Q' r w') w"
  by (auto simp: holds_def split: prod.splits)

lemma holds_return [world_intros]: "Q r w \<Longrightarrow> holds (State_Monad.return r) Q w"
  by (simp add: holds_def State_Monad.return_def)

lemma holds_ret_ok [world_intros]: "Q (Inr x) w \<Longrightarrow> holds (ret_ok x) Q w"
  unfolding ret_ok_def by (rule holds_return)

lemma holds_ret_err [world_intros]: "Q (Inl (Error m)) w \<Longrightarrow> holds (ret_err m) Q w"
  unfolding ret_err_def by (rule holds_return)

lemma holds_bind [world_intros]: "holds m (\<lambda>r. holds (f r) Q) w \<Longrightarrow> holds (State_Monad.bind m f) Q w"
  by (simp add: holds_def State_Monad.bind_def split: prod.splits)

lemma holds_roe_then [world_intros]:
  "holds m (\<lambda>r w'. case r of Inl x \<Rightarrow> Q (Inl x) w' | Inr x \<Rightarrow> holds (f x) Q w') w \<Longrightarrow> holds (roe_then m f) Q w"
  unfolding roe_then_def
  by (rule holds_bind, erule holds_weaken) (auto intro: holds_return split: sum.splits)

lemma holds_update [world_intros]: "Q () (u w) \<Longrightarrow> holds (State_Monad.update u) Q w"
  by (simp add: holds_def State_Monad.update_def State_Monad.bind_def State_Monad.get_def State_Monad.set_def)

lemma holds_get [world_intros]: "Q w w \<Longrightarrow> holds State_Monad.get Q w"
  by (simp add: holds_def State_Monad.get_def)

lemma holds_clock: "(\<And>n. Q (we_clock e n) (w\<lparr>ww_tick := Suc n\<rparr>)) \<Longrightarrow> holds (clock e) Q w"
  by (simp add: holds_def clock_def next_tick_def State_Monad.bind_def State_Monad.return_def)

lemma holds_fresh_id: "(\<And>n. Q (we_uuid e n) (w\<lparr>ww_tick := Suc n\<rparr>)) \<Longrightarrow> holds (fresh_id e) Q w"
  by (simp add: holds_def fresh_id_def next_tick_def State_Monad.bind_def State_Monad.return_def)

lemma holds_make_call:
  "(\<And>n. Q (answers n) (w\<lparr>ww_calls := ww_calls w @ [c], ww_tick := Suc n\<rparr>)) \<Longrightarrow> holds (make_call answers c) Q w"
  by (simp add: holds_def make_call_def next_tick_def State_Monad.bind_def State_Monad.return_def
      State_Monad.update_def State_Monad.get_def State_Monad.set_def)

lemma holds_ignore: "holds m (\<lambda>_. Q ()) w \<Longrightarrow> holds (ignore m) Q w"
  unfolding ignore_def by (rule holds_bind, erule holds_weaken) (rule holds_return)

lemma holds_just: "holds m (\<lambda>x. Q (Inr x)) w \<Longrightarrow> holds (just m) Q w"
  unfolding just_def by (rule holds_bind, erule holds_weaken) (rule holds_ret_ok)

lemma holds_nothing [world_intros]: "Q () w \<Longrightarrow> holds nothing Q w"
  unfolding nothing_def by (rule holds_return)

lemma holds_on_store:
  assumes "after m (\<lambda>r s. \<forall>fs. Q r (w\<lparr>ww_store := s\<lparr>db_faults := fs\<rparr>\<rparr>)) (ww_store w)"
  shows "holds (on_store m) Q w"
proof -
  obtain r s where run: "run_state m (ww_store w) = (r, s)" by (cases "run_state m (ww_store w)")
  from spec [OF afterD [OF assms run], of "db_faults s"] show ?thesis by (simp add: holds_def on_store_def run)
qed

lemma holds_if: "(b \<Longrightarrow> holds m Q w) \<Longrightarrow> (\<not> b \<Longrightarrow> holds n Q w) \<Longrightarrow> holds (if b then m else n) Q w"
  by simp

lemma holds_option:
  "(x = None \<Longrightarrow> holds m Q w) \<Longrightarrow> (\<And>v. x = Some v \<Longrightarrow> holds (f v) Q w) \<Longrightarrow>
    holds (case x of None \<Rightarrow> m | Some v \<Rightarrow> f v) Q w"
  by (cases x) simp_all

lemma holds_sum:
  "(\<And>x. r = Inl x \<Longrightarrow> holds (m x) Q w) \<Longrightarrow> (\<And>x. r = Inr x \<Longrightarrow> holds (f x) Q w) \<Longrightarrow>
    holds (case r of Inl x \<Rightarrow> m x | Inr x \<Rightarrow> f x) Q w"
  by (cases r) simp_all

lemma holds_list:
  "(xs = [] \<Longrightarrow> holds m Q w) \<Longrightarrow> (\<And>y ys. xs = y # ys \<Longrightarrow> holds (f y ys) Q w) \<Longrightarrow>
    holds (case xs of [] \<Rightarrow> m | y # ys \<Rightarrow> f y ys) Q w"
  by (cases xs) simp_all

subsection \<open>What a run keeps of the store\<close>

text \<open>
  \<open>world_keeps P m\<close>: from a world whose store satisfies \<open>P\<close>, \<open>m\<close> ends in one whose store does. The
  calls and the clock do not touch the store, so only its own operations have to be looked at.
\<close>

definition world_keeps :: "(roster_store \<Rightarrow> bool) \<Rightarrow> (('o, 'w) world_scheme, 'a) state \<Rightarrow> bool" where
  "world_keeps P m \<longleftrightarrow> (\<forall>w. P (ww_store w) \<longrightarrow> P (ww_store (snd (run_state m w))))"

named_theorems keeps_intros "rules for what a run keeps of the store"

lemma world_keepsD: "world_keeps P m \<Longrightarrow> P (ww_store w) \<Longrightarrow> holds m (\<lambda>_ w'. P (ww_store w')) w"
  by (simp add: world_keeps_def holds_def case_prod_unfold)

lemma world_keepsI: "(\<And>w. P (ww_store w) \<Longrightarrow> holds m (\<lambda>_ w'. P (ww_store w')) w) \<Longrightarrow> world_keeps P m"
  by (simp add: world_keeps_def holds_def case_prod_unfold)

lemma keeps_seq [keeps_intros]:
  "world_keeps P m \<Longrightarrow> (\<And>x. world_keeps P (f x)) \<Longrightarrow> world_keeps P (State_Monad.bind m f)"
  by (simp add: world_keeps_def State_Monad.bind_def case_prod_unfold)

lemma keeps_return [keeps_intros]: "world_keeps P (State_Monad.return x)"
  by (simp add: world_keeps_def State_Monad.return_def)

lemma keeps_ret [keeps_intros]: "world_keeps P (ret_ok x)" "world_keeps P (ret_err m)" "world_keeps P nothing"
  by (simp_all add: ret_ok_def ret_err_def nothing_def keeps_return)

lemma keeps_roe_then [keeps_intros]:
  "world_keeps P m \<Longrightarrow> (\<And>x. world_keeps P (f x)) \<Longrightarrow> world_keeps P (roe_then m f)"
  unfolding roe_then_def by (rule keeps_seq) (auto intro: keeps_return split: sum.split)

lemma keeps_ignore [keeps_intros]: "world_keeps P m \<Longrightarrow> world_keeps P (ignore m)"
  unfolding ignore_def by (intro keeps_seq keeps_return)

lemma keeps_just [keeps_intros]: "world_keeps P m \<Longrightarrow> world_keeps P (just m)"
  unfolding just_def by (intro keeps_seq keeps_ret)

lemma keeps_update [keeps_intros]: "(\<And>w. ww_store (u w) = ww_store w) \<Longrightarrow> world_keeps P (State_Monad.update u)"
  by (simp add: world_keeps_def State_Monad.update_def State_Monad.bind_def State_Monad.get_def State_Monad.set_def)

lemma keeps_get [keeps_intros]: "world_keeps P State_Monad.get"
  by (simp add: world_keeps_def State_Monad.get_def)

lemma keeps_next_tick [keeps_intros]: "world_keeps P next_tick"
  by (simp add: world_keeps_def next_tick_def)

lemma keeps_asks [keeps_intros]: "world_keeps P (clock e)" "world_keeps P (fresh_id e)" "world_keeps P (make_call answers c)"
  unfolding clock_def fresh_id_def make_call_def by (auto intro!: keeps_intros)

lemma keeps_on_store:
  assumes "\<And>s fs. P s \<Longrightarrow> P (s\<lparr>db_faults := fs\<rparr>)" and "\<And>s. P s \<Longrightarrow> after m (\<lambda>_. P) s"
  shows "world_keeps P (on_store m)"
proof (rule world_keepsI, rule holds_on_store)
  show "after m (\<lambda>r s. \<forall>fs. P (ww_store (w\<lparr>ww_store := s\<lparr>db_faults := fs\<rparr>\<rparr>))) (ww_store w)"
    if "P (ww_store w)" for w :: "('o, 'w) world_scheme"
    by (rule after_weaken [OF assms(2) [OF that]]) (simp add: assms(1))
qed

lemma keeps_if [keeps_intros]: "(b \<Longrightarrow> world_keeps P m) \<Longrightarrow> (\<not> b \<Longrightarrow> world_keeps P n) \<Longrightarrow> world_keeps P (if b then m else n)"
  by simp

lemma keeps_option [keeps_intros]:
  "(x = None \<Longrightarrow> world_keeps P m) \<Longrightarrow> (\<And>v. x = Some v \<Longrightarrow> world_keeps P (f v)) \<Longrightarrow>
    world_keeps P (case x of None \<Rightarrow> m | Some v \<Rightarrow> f v)"
  by (cases x) simp_all

lemma keeps_sum [keeps_intros]:
  "(\<And>x. r = Inl x \<Longrightarrow> world_keeps P (m x)) \<Longrightarrow> (\<And>x. r = Inr x \<Longrightarrow> world_keeps P (f x)) \<Longrightarrow>
    world_keeps P (case r of Inl x \<Rightarrow> m x | Inr x \<Rightarrow> f x)"
  by (cases r) simp_all

lemma keeps_list [keeps_intros]:
  "world_keeps P m \<Longrightarrow> (\<And>y ys. world_keeps P (f y ys)) \<Longrightarrow> world_keeps P (case xs of [] \<Rightarrow> m | y # ys \<Rightarrow> f y ys)"
  by (cases xs) simp_all

lemma keeps_pair [keeps_intros]: "(\<And>x y. p = (x, y) \<Longrightarrow> world_keeps P (f x y)) \<Longrightarrow> world_keeps P (case p of (x, y) \<Rightarrow> f x y)"
  by (cases p) simp

lemma keeps_error [keeps_intros]: "(\<And>m. world_keeps P (f m)) \<Longrightarrow> world_keeps P (case x of Error m \<Rightarrow> f m)"
  by (cases x) simp

lemma keeps_Let [keeps_intros]: "world_keeps P (f x) \<Longrightarrow> world_keeps P (let y = x in f y)"
  by simp

text \<open>The lines of the chat are calls only.\<close>

lemma keeps_SystemLine [keeps_intros]: "world_keeps P (SystemLine e thread type display detail sender)"
  unfolding SystemLine_def by (intro keeps_intros)

lemma keeps_LineFor [keeps_intros]: "world_keeps P (LineFor e thread c epoch)"
  unfolding LineFor_def by (intro keeps_intros)

lemma keeps_append_lines [keeps_intros]: "world_keeps P (append_lines e thread cs epoch local about)"
  by (induction cs arbitrary: about) (auto intro!: keeps_intros)

lemma keeps_AppendChangeLines [keeps_intros]: "world_keeps P (AppendChangeLines e g cs epoch local)"
  unfolding AppendChangeLines_def by (intro keeps_intros)

lemma keeps_FollowTitle [keeps_intros]: "world_keeps P (FollowTitle e g title)"
  unfolding FollowTitle_def by (intro keeps_intros)

lemma keeps_EnsureDissolvedLine [keeps_intros]: "world_keeps P (EnsureDissolvedLine e g owner sender)"
  unfolding EnsureDissolvedLine_def by (intro keeps_intros)

lemma keeps_group_line [keeps_intros]: "world_keeps P (group_line e g type display detail sender)"
  unfolding group_line_def by (intro keeps_intros)

end
