(* ===== verification/JsonSample.thy ===== *)
theory JsonSample
  imports JsonLib
begin

section \<open>A library that keeps the laws\<close>

text \<open>
  A small library for the witnesses: objects and values are texts, an object the list of its keys and
  values, a list of texts written with each character escaped and each text closed. It is not the
  program's library; it shows that \<open>json_laws\<close> can hold.
\<close>

definition esc :: "string \<Rightarrow> string" where
  "esc s = concat (map (\<lambda>c. [CHR ''a'', c]) s) @ ''bb''"

fun unesc :: "string \<Rightarrow> string \<Rightarrow> string list" where
  "unesc acc (x # c # r) = (if x = CHR ''a'' then unesc (acc @ [c]) r else acc # unesc [] r)"
| "unesc acc _ = []"

fun key_value :: "string list \<Rightarrow> string \<Rightarrow> string option" where
  "key_value (j # v # r) k = (if k = j then Some v else key_value r k)"
| "key_value _ k = None"

fun binary :: "nat \<Rightarrow> string" where
  "binary n = (if n = 0 then [] else (if even n then CHR ''0'' else CHR ''1'') # binary (n div 2))"

declare binary.simps [simp del]

fun of_binary :: "string \<Rightarrow> nat" where
  "of_binary [] = 0"
| "of_binary (c # r) = (if c = CHR ''1'' then 1 else 0) + 2 * of_binary r"

definition sample_lib :: "(string, string) json_lib" where
  "sample_lib = \<lparr>jl_empty = [], jl_set = (\<lambda>k v ob. esc k @ esc v @ ob), jl_get = (\<lambda>ob. key_value (unesc [] ob)),
     jl_of_string = (\<lambda>s. s), jl_of_bool = (\<lambda>b. if b then ''1'' else ''0''),
     jl_of_int = (\<lambda>i. if i < 0 then CHR ''-'' # binary (nat (- i)) else binary (nat i)),
     jl_of_uint = (\<lambda>n. binary (unat n)), jl_of_object = (\<lambda>ob. ob), jl_of_array = (\<lambda>vs. concat (map esc vs)),
     jl_as_string = Some, jl_as_bool = (\<lambda>v. Some (v = ''1'')),
     jl_as_int = (\<lambda>v. Some (case v of [] \<Rightarrow> 0 | c # r \<Rightarrow> if c = CHR ''-'' then - int (of_binary r) else int (of_binary v))),
     jl_as_nonneg = (\<lambda>v. Some (of_nat (of_binary v))), jl_as_object = Some, jl_as_array = (\<lambda>v. Some (unesc [] v)),
     jl_dump = (\<lambda>ob. CHR ''{'' # ob), jl_parse = (\<lambda>t. if t = [] then None else Some (tl t))\<rparr>"

lemma unesc_chars: "unesc acc (concat (map (\<lambda>c. [CHR ''a'', c]) s) @ r) = unesc (acc @ s) r"
  by (induction s arbitrary: acc) simp_all

lemma unesc_esc: "unesc [] (esc s @ r) = s # unesc [] r"
  by (simp add: esc_def unesc_chars)

lemma unesc_all: "unesc [] (concat (map esc ss)) = ss"
  by (induction ss) (simp_all add: unesc_esc)

lemma of_binary_binary: "of_binary (binary n) = n"
proof (induction n rule: binary.induct)
  case (1 n)
  then show ?case by (cases "n = 0") (simp_all add: binary.simps [of n] binary.simps [of 0])
qed

lemma binary_digits: "c # r = binary n \<Longrightarrow> c \<noteq> CHR ''-''"
  by (subst (asm) binary.simps) (auto split: if_splits)

lemma sample_lib_laws: "json_laws sample_lib"
proof -
  have int: "jl_as_int sample_lib (jl_of_int sample_lib i) = Some i" for i
  proof (cases "i < 0")
    case True
    then show ?thesis by (simp add: sample_lib_def of_binary_binary)
  next
    case False
    then show ?thesis
      using binary_digits [of _ _ "nat i"] of_binary_binary [of "nat i"]
      by (cases "binary (nat i)") (auto simp: sample_lib_def)
  qed
  show ?thesis
    unfolding json_laws_def using int by (simp add: sample_lib_def unesc_esc unesc_all of_binary_binary)
qed

end
