(* ===== verification/CodecClaims.thy ===== *)
theory CodecClaims
  imports SyncCodec JsonSample SyncClaims
begin

section \<open>What the codec promises\<close>

text \<open>
  The claims on \<open>SyncCodec\<close>: messages are read back as they were written, what a reply or a message
  brings is the group's own, and a statement kept in the store is the one that is held afterwards.
\<close>

subsection \<open>Round trips\<close>

definition request_fine :: "roster_request \<Rightarrow> bool" where
  "request_fine rq \<longleftrightarrow> rq_group_id rq \<noteq> [] \<and> rq_request_id rq \<noteq> [] \<and> json_num (rq_roster_epoch rq)
     \<and> json_num (rq_statement_epoch rq)"

definition reply_fine :: "roster_reply \<Rightarrow> bool" where
  "reply_fine r \<longleftrightarrow> rp_group_id r \<noteq> [] \<and> rp_request_id r \<noteq> []
     \<and> (\<forall>st. rp_statement r = Some st \<longrightarrow> statement_fine st \<and> s_group_id st = rp_group_id r)
     \<and> (\<forall>c\<in>set (rp_changes r). change_fine c \<and> c_group_id c = rp_group_id r)"

lemma request_roundtrip:
  assumes "json_laws L" "request_fine rq"
  shows "DecodeRequest L (EncodeRequest L rq) = Inr rq"
  using assms(2) unfolding DecodeRequest_def EncodeRequest_def ParseDetail_def Let_def request_fine_def
  by (simp add: json_laws_back [OF assms(1)] json_back)

lemma changes_back:
  assumes "json_laws L" "\<forall>c\<in>set cs. change_fine c \<and> c_group_id c = g"
    and "jl_get L detail ''changes'' = (if cs \<noteq> [] then Some (jl_of_array L (map (jl_of_object L) (map (ChangeToJson L) cs))) else None)"
  shows "ChangesFrom L detail g = cs"
proof (cases "cs = []")
  case True
  then show ?thesis using assms(3) by (simp add: ChangesFrom_def keep_items_def get_array_def List.map_filter_simps)
next
  case False
  have "List.map_filter (change_in L) (map (jl_of_object L) (map (ChangeToJson L) cs)) = cs"
    unfolding change_in_def using change_codec.kept_rows [OF assms(1)] assms(2) by blast
  then show ?thesis
    using False assms(2,3) by (simp add: ChangesFrom_def keep_items_def get_array_def json_values [OF assms(1)] del: map_map)
qed

lemma reply_gets:
  assumes "json_laws L"
  obtains J where "EncodeReply L r = jl_dump L J" "jl_get L J ''group_id'' = Some (jl_of_string L (rp_group_id r))"
    and "jl_get L J ''request_id'' = Some (jl_of_string L (rp_request_id r))"
    and "jl_get L J ''roster_statement'' = map_option (\<lambda>st. jl_of_object L (StatementToJson L st)) (rp_statement r)"
    and "jl_get L J ''removed'' = Some (jl_of_bool L (rp_removed r))"
    and "jl_get L J ''changes'' = (if rp_changes r \<noteq> []
      then Some (jl_of_array L (map (jl_of_object L) (map (ChangeToJson L) (rp_changes r)))) else None)"
    and "jl_get L J ''more'' = (if rp_more r then Some (jl_of_bool L True) else None)"
proof (rule that, unfold EncodeReply_def Let_def set_objects_def, rule refl)
qed (cases "rp_statement r"; simp add: json_get [OF assms] del: map_map)+

lemma reply_roundtrip:
  assumes "json_laws L" "reply_fine r"
  shows "DecodeReply L (EncodeReply L r) = Inr r"
proof -
  obtain J where J: "EncodeReply L r = jl_dump L J" and gets: "jl_get L J ''group_id'' = Some (jl_of_string L (rp_group_id r))"
    "jl_get L J ''request_id'' = Some (jl_of_string L (rp_request_id r))"
    "jl_get L J ''roster_statement'' = map_option (\<lambda>st. jl_of_object L (StatementToJson L st)) (rp_statement r)"
    "jl_get L J ''removed'' = Some (jl_of_bool L (rp_removed r))"
    "jl_get L J ''more'' = (if rp_more r then Some (jl_of_bool L True) else None)"
    and "jl_get L J ''changes'' = (if rp_changes r \<noteq> []
      then Some (jl_of_array L (map (jl_of_object L) (map (ChangeToJson L) (rp_changes r)))) else None)"
    by (rule reply_gets [OF assms(1)])
  from changes_back [OF assms(1) _ this(7)] have changes: "ChangesFrom L J (rp_group_id r) = rp_changes r"
    using assms(2) by (simp add: reply_fine_def)
  show ?thesis
    unfolding DecodeReply_def ParseDetail_def J Let_def using assms(2) statement_codec.roundtrip [OF assms(1)]
    by (cases "rp_statement r")
      (simp_all add: json_readers json_values [OF assms(1)] gets changes reply_fine_def)
qed

lemma statement_roundtrip:
  assumes "json_laws L" "statement_fine st"
  shows "DecodeStatement L (EncodeStatement L st) = Inr st"
  using statement_codec.roundtrip [OF assms]
  by (simp add: DecodeStatement_def EncodeStatement_def ParseDetail_def json_laws_back [OF assms(1)] json_readers)

definition newcomer_fine :: "'o change_newcomer option \<Rightarrow> bool" where
  "newcomer_fine n \<longleftrightarrow> (case n of None \<Rightarrow> True | Some m \<Rightarrow> cn_identity m \<noteq> [])"

lemma change_roundtrip:
  assumes "json_laws L" "change_fine c" "newcomer_fine n"
  shows "DecodeChange L (EncodeChange L c n) = Inr c" "NewcomerIn L (EncodeChange L c n) = n"
proof -
  note json = json_laws_back [OF assms(1)] json_readers Let_def
  show "DecodeChange L (EncodeChange L c n) = Inr c"
    using change_codec.roundtrip [OF assms(1,2)]
    by (cases n) (simp_all add: DecodeChange_def EncodeChange_def ParseDetail_def json)
  show "NewcomerIn L (EncodeChange L c n) = n"
  proof (cases n)
    case None
    then show ?thesis by (simp add: NewcomerIn_def EncodeChange_def json)
  next
    case (Some m)
    then show ?thesis using assms(3)
      by (cases "cn_card m"; cases m) (simp_all add: NewcomerIn_def EncodeChange_def json newcomer_fine_def json_when)
  qed
qed

lemma stored_roundtrip:
  assumes "json_laws L"
  shows "statement_fine st \<Longrightarrow> js_read_statement (roster_json_of L) (js_statement (roster_json_of L) st) = Some st"
    and "change_fine c \<Longrightarrow> js_read_change (roster_json_of L) (js_change (roster_json_of L) c) = Some c"
  using statement_codec.roundtrip [OF assms, of st] change_codec.roundtrip [OF assms, of c]
  by (simp_all add: roster_json_of_def read_text_def json_values [OF assms])

text \<open>
  C21: what a member sends is what the others read. With a JSON library that gives back what was put
  in, requests, replies, statements and changes with their newcomer are decoded exactly as they were
  encoded, and so are the texts in which the store keeps statements and changes, for all of them with
  their required fields, times that are not negative and numbers below 2^63.
\<close>

theorem messages_roundtrip:
  assumes "json_laws L"
  shows "(request_fine rq \<longrightarrow> DecodeRequest L (EncodeRequest L rq) = Inr rq)
    \<and> (reply_fine r \<longrightarrow> DecodeReply L (EncodeReply L r) = Inr r)
    \<and> (statement_fine st \<longrightarrow> DecodeStatement L (EncodeStatement L st) = Inr st
      \<and> js_read_statement (roster_json_of L) (js_statement (roster_json_of L) st) = Some st)
    \<and> (change_fine c \<longrightarrow> js_read_change (roster_json_of L) (js_change (roster_json_of L) c) = Some c
      \<and> (newcomer_fine n \<longrightarrow> DecodeChange L (EncodeChange L c n) = Inr c \<and> NewcomerIn L (EncodeChange L c n) = n))"
  using request_roundtrip [OF assms] reply_roundtrip [OF assms] statement_roundtrip [OF assms] stored_roundtrip [OF assms]
    change_roundtrip [OF assms]
  by blast

lemma sample_change_fine: "change_fine sample_change"
  by (simp add: change_fine_def sample_change_def CheckShape_def NoForeignFields_def no_fields_def CheckBody_def check_named_def
      DistinctBounded_def kMaxNamedChanges_def json_time_def json_num_def)

lemma sample_statement_fine: "statement_fine sample_statement"
  by (simp add: statement_fine_def sample_statement_def empty_statement_def sample_transfer_def transfer_fine_def link_fine_def
      json_num_def json_time_def)

definition sample_reply :: roster_reply where
  "sample_reply = \<lparr>rp_group_id = ''g'', rp_request_id = ''q'', rp_statement = Some sample_statement, rp_removed = False,
     rp_changes = [sample_change], rp_more = True\<rparr>"

lemma sample_reply_fine: "reply_fine sample_reply"
  using sample_change_fine sample_statement_fine
  by (simp add: reply_fine_def sample_reply_def sample_change_def sample_statement_def empty_statement_def)

theorem messages_roundtrip_witness:
  "DecodeReply sample_lib (EncodeReply sample_lib sample_reply) = Inr sample_reply"
  using messages_roundtrip [OF sample_lib_laws, of undefined sample_reply] sample_reply_fine by blast

subsection \<open>What a message brings is the group's\<close>

lemma change_read: "ChangeFromJson L json = Inr c \<Longrightarrow> CheckShape c = Inr ()"
  by (auto simp: ChangeFromJson_def Let_def roe_bind_Inr_iff split: option.splits if_splits)

lemma changes_read:
  "c \<in> set (ChangesFrom L detail g) \<Longrightarrow> c_group_id c = g \<and> CheckShape c = Inr ()"
  by (auto simp: ChangesFrom_def keep_items_def change_in_def List.map_filter_def change_read split: option.splits sum.splits)

text \<open>
  A reply, whoever wrote it, speaks of one group: whatever the JSON library makes of a text, a reply
  that decodes names its group and its request, and its statement and changes are of that group.
\<close>

lemma decoded_group:
  assumes "DecodeReply L text = Inr r"
  shows "rp_group_id r \<noteq> [] \<and> rp_request_id r \<noteq> [] \<and> map_option s_group_id (rp_statement r) \<in> {None, Some (rp_group_id r)}
    \<and> list_all (\<lambda>c. c_group_id c = rp_group_id r \<and> CheckShape c = Inr ()) (rp_changes r)"
  using assms changes_read [of _ L _ "rp_group_id r"]
  by (auto simp: DecodeReply_def Let_def roe_bind_Inr_iff list_all_iff split: option.splits if_splits)

text \<open>With such a library, a statement that was kept is the one held afterwards.\<close>

lemma kept_statement_is_held:
  assumes "json_laws L" "statement_fine st" "run_state (KeepStatement cr (roster_json_of L) st) s = (Inr True, t)"
  shows "\<exists>md. map_of (db_metadata t) (s_group_id st) = Some md \<and> Held (roster_json_of L) md = Some st"
proof -
  from afterD [OF after_KeepStatement assms(3)] obtain md where md: "map_of (db_metadata t) (s_group_id st) = Some md"
    "md_statement_json md = js_statement (roster_json_of L) st"
    by (auto simp: statement_stored_def)
  have "js_statement (roster_json_of L) st \<noteq> []" by (simp add: roster_json_of_def json_values [OF assms(1)])
  with md stored_roundtrip(1) [OF assms(1,2)] have "Held (roster_json_of L) md = Some st" by (simp add: Held_def)
  with md(1) show ?thesis by blast
qed

end
