(* ===== verification/EventClaims.thy ===== *)
theory EventClaims
  imports MembershipCodec CodecClaims
begin

section \<open>Membership events over the wire\<close>

text \<open>
  The claims on \<open>MembershipCodec\<close>: an event is read back as it was sent, in the message that carries
  it, and what is marked on a message can be read from it.
\<close>

lemma parse_dump: "json_laws L \<Longrightarrow> parse_or L (jl_dump L ob) e f = f ob"
  by (simp add: parse_or_def json_values)

lemmas wire = parse_dump json_readers ReadRosterEpoch_def Let_def json_when

subsection \<open>The details\<close>

definition invite_fine :: "group_invite_payload \<Rightarrow> bool" where
  "invite_fine p \<longleftrightarrow> json_num (ip_roster_epoch p) \<and> json_num (ip_member_count p)
     \<and> (\<forall>t. ip_expires_at p = Some t \<longrightarrow> - (2 ^ 63) \<le> t \<and> t < 2 ^ 63)"

text \<open>An owner that is the inviter is left out.\<close>

definition invite_as_read :: "group_invite_payload \<Rightarrow> group_invite_payload" where
  "invite_as_read p = p\<lparr>ip_owner := (if ip_owner p = ip_inviter p then [] else ip_owner p)\<rparr>"

lemma invite_gets:
  assumes "json_laws L"
  obtains J where "EncodeInvite L p = jl_dump L J" "jl_get L J ''group_id'' = Some (jl_of_string L (ip_group_id p))"
    and "jl_get L J ''group_title'' = Some (jl_of_string L (ip_group_title p))"
    and "jl_get L J ''inviter_identity'' = Some (jl_of_string L (ip_inviter p))"
    and "jl_get L J ''invitee_identity'' = Some (jl_of_string L (ip_invitee p))"
    and "jl_get L J ''invite_nonce'' = Some (jl_of_string L (ip_nonce p))"
    and "jl_get L J ''roster_epoch'' = Some (jl_of_uint L (ip_roster_epoch p))"
    and "jl_get L J ''actor_role'' = Some (jl_of_string L (MemberRoleToString (ip_actor_role p)))"
    and "jl_get L J ''expires_at'' = map_option (jl_of_int L) (ip_expires_at p)"
    and "jl_get L J ''owner_identity'' =
      (if ip_owner p \<noteq> [] \<and> ip_owner p \<noteq> ip_inviter p then Some (jl_of_string L (ip_owner p)) else None)"
    and "jl_get L J ''member_count'' = (if ip_member_count p > 0 then Some (jl_of_uint L (ip_member_count p)) else None)"
    and "jl_get L J ''context'' = (if ip_context p \<noteq> [] then Some (jl_of_string L (ip_context p)) else None)"
    and "jl_get L J ''call_id'' = (if ip_call_id p \<noteq> [] then Some (jl_of_string L (ip_call_id p)) else None)"
proof (rule that, unfold EncodeInvite_def Let_def set_text_def set_uint_def, rule refl)
qed (cases "ip_expires_at p"; simp add: json_get [OF assms])+

lemma invite_roundtrip:
  assumes "json_laws L" "invite_fine p"
  shows "DecodeInvite L (EncodeInvite L p) = Inr (invite_as_read p)"
proof (rule invite_gets [OF assms(1), of p], goal_cases)
  case (1 J)
  have "get_int L J ''expires_at'' = ip_expires_at p"
    using assms(2) 1(9) by (cases "ip_expires_at p") (simp_all add: get_int_def invite_fine_def json_values [OF assms(1)])
  moreover have "value_or (get_text L J ''owner_identity'') [] = ip_owner (invite_as_read p)"
    using 1(10) by (simp add: get_text_def json_values [OF assms(1)] invite_as_read_def)
  moreover have "value_or (get_uint L J ''member_count'') 0 = ip_member_count p"
    using assms(2) 1(11) by (simp add: get_uint_def json_values [OF assms(1)] invite_fine_def word_gt_0)
  moreover have "value_or (get_text L J ''context'') [] = ip_context p" "value_or (get_text L J ''call_id'') [] = ip_call_id p"
    using 1(12,13) by (simp_all add: get_text_def json_values [OF assms(1)])
  moreover have "value_or (get_uint L J ''roster_epoch'') 0 = ip_roster_epoch p"
    using assms(2) 1(7) by (simp add: get_uint_def json_values [OF assms(1)] invite_fine_def)
  ultimately show ?case
    using 1(1-6,8) by (simp add: DecodeInvite_def parse_dump [OF assms(1)] get_text_def json_values [OF assms(1)] MemberRole_roundtrip)
      (simp add: invite_as_read_def)
qed

lemma invite_as_read_owner: "PayloadOwner (invite_as_read p) = PayloadOwner p"
  by (auto simp: PayloadOwner_def invite_as_read_def)

lemma response_roundtrip:
  assumes "json_laws L"
  shows "DecodeInviteResponse L (EncodeInviteResponse L nonce g) = Inr (nonce, g)"
    and "DecodeInviteResponse L (EncodeInviteRefused L nonce g reason) = Inr (nonce, g)"
  by (simp_all add: DecodeInviteResponse_def EncodeInviteResponse_def EncodeInviteRefused_def MakeStringObject_def
      json_laws_back [OF assms] json_readers parse_dump [OF assms])

lemma entry_roundtrip:
  assumes "json_laws L"
  shows "joined_entry_from_json L (jl_of_object L (joined_entry_to_json L e)) = Some e"
  by (cases "jn_card e"; cases e)
    (simp_all add: joined_entry_from_json_def joined_entry_to_json_def Let_def json_laws_back [OF assms] json_readers
      json_when MemberRole_roundtrip)

lemma entries_roundtrip:
  "json_laws L \<Longrightarrow> List.map_filter (joined_entry_from_json L) (map (jl_of_object L) (map (joined_entry_to_json L) es)) = es"
  by (induction es) (simp_all add: entry_roundtrip List.map_filter_simps)

lemma joined_gets:
  assumes "json_laws L"
  obtains J where "EncodeMemberJoined L m = jl_dump L J" "jl_get L J ''group_id'' = Some (jl_of_string L (jm_group_id m))"
    and "jl_get L J ''member_identity'' = Some (jl_of_string L (jm_identity m))"
    and "jl_get L J ''role'' = Some (jl_of_string L (MemberRoleToString (jm_role m)))"
    and "jl_get L J ''roster_epoch'' = Some (jl_of_uint L (jm_roster_epoch m))"
    and "jl_get L J ''members'' = (if jm_members m \<noteq> []
      then Some (jl_of_array L (map (jl_of_object L) (map (joined_entry_to_json L) (jm_members m)))) else None)"
    and "jl_get L J ''context'' = (if jm_context m \<noteq> [] then Some (jl_of_string L (jm_context m)) else None)"
    and "jl_get L J ''added_by'' = (if jm_added_by m \<noteq> [] then Some (jl_of_string L (jm_added_by m)) else None)"
    and "jl_get L J ''by_link'' = (if jm_by_link m then Some (jl_of_bool L True) else None)"
    and "jl_get L J ''invite_nonce'' = (if jm_invite_nonce m \<noteq> [] then Some (jl_of_string L (jm_invite_nonce m)) else None)"
proof (rule that, unfold EncodeMemberJoined_def Let_def set_objects_def set_text_def set_uint_def, rule refl)
qed (simp_all add: json_get [OF assms] del: map_map)

lemma joined_roundtrip:
  assumes "json_laws L" "jm_group_id m \<noteq> []" "jm_identity m \<noteq> []" "json_num (jm_roster_epoch m)"
  shows "DecodeMemberJoined L (EncodeMemberJoined L m) = Inr m"
proof (rule joined_gets [OF assms(1), of m], goal_cases)
  case (1 J)
  have "keep_items (joined_entry_from_json L) (get_array L J ''members'') = jm_members m"
    using 1(6) entries_roundtrip [OF assms(1), of "jm_members m"]
    by (cases "jm_members m = []")
      (simp_all add: keep_items_def get_array_def json_values [OF assms(1)] List.map_filter_simps del: map_map)
  then show ?case
    using assms(2-4) 1
    by (simp add: DecodeMemberJoined_def parse_dump [OF assms(1)] json_readers ReadRosterEpoch_def json_values [OF assms(1)]
        MemberRole_roundtrip)
qed

lemma without_cards:
  assumes "json_laws L" "jm_group_id m \<noteq> []" "jm_identity m \<noteq> []" "json_num (jm_roster_epoch m)"
  shows "DecodeMemberJoined L (WithoutCards L m) = Inr (m\<lparr>jm_members := map (\<lambda>e. e\<lparr>jn_card := None\<rparr>) (jm_members m)\<rparr>)"
  unfolding WithoutCards_def by (rule joined_roundtrip [OF assms(1)]) (simp_all add: assms)

lemma events_read_back:
  assumes "json_laws L"
  shows "ml_group_id p \<noteq> [] \<Longrightarrow> ml_identity p \<noteq> [] \<Longrightarrow> json_num (ml_roster_epoch p) \<Longrightarrow>
      DecodeMemberLeft L (EncodeMemberLeft L p) = Inr p"
    and "mr_group_id r \<noteq> [] \<Longrightarrow> mr_identity r \<noteq> [] \<Longrightarrow> json_num (mr_roster_epoch r) \<Longrightarrow>
      DecodeMemberRemoved L (EncodeMemberRemoved L r) = Inr r"
    and "rl_group_id q \<noteq> [] \<Longrightarrow> rl_identity q \<noteq> [] \<Longrightarrow> json_num (rl_roster_epoch q) \<Longrightarrow>
      roe_bind (EncodeMemberRoleChanged L q) (DecodeMemberRoleChanged L) =
        (if rl_role q = Owner then Inl (Error ''member_role_changed: ownership moves by transfer only'') else Inr q)"
    and "pc_group_id c \<noteq> [] \<Longrightarrow> json_num (pc_roster_epoch c) \<Longrightarrow>
      DecodeGroupPresetChanged L (EncodeGroupPresetChanged L c) = Inr c"
    and "ot_group_id ow \<noteq> [] \<Longrightarrow> ot_new_owner ow \<noteq> [] \<Longrightarrow> json_num (ot_roster_epoch ow) \<Longrightarrow>
      DecodeOwnerTransferred L (EncodeOwnerTransferred L ow) = Inr ow"
    and "gr_group_id t \<noteq> [] \<Longrightarrow> gr_title t \<noteq> [] \<Longrightarrow> json_num (gr_roster_epoch t) \<Longrightarrow> json_num (gr_title_version t) \<Longrightarrow>
      DecodeGroupRenamed L (EncodeGroupRenamed L t) = Inr t"
    and "DecodeGroupPolicy L (EncodeGroupPolicy L preset) = Inr preset"
proof -
  note json = json_laws_back [OF assms] json_readers parse_dump [OF assms] ReadRosterEpoch_def Let_def
  show "ml_group_id p \<noteq> [] \<Longrightarrow> ml_identity p \<noteq> [] \<Longrightarrow> json_num (ml_roster_epoch p) \<Longrightarrow>
      DecodeMemberLeft L (EncodeMemberLeft L p) = Inr p"
    by (simp add: DecodeMemberLeft_def EncodeMemberLeft_def json)
  show "mr_group_id r \<noteq> [] \<Longrightarrow> mr_identity r \<noteq> [] \<Longrightarrow> json_num (mr_roster_epoch r) \<Longrightarrow>
      DecodeMemberRemoved L (EncodeMemberRemoved L r) = Inr r"
    by (simp add: DecodeMemberRemoved_def EncodeMemberRemoved_def json json_when)
  show "rl_group_id q \<noteq> [] \<Longrightarrow> rl_identity q \<noteq> [] \<Longrightarrow> json_num (rl_roster_epoch q) \<Longrightarrow>
      roe_bind (EncodeMemberRoleChanged L q) (DecodeMemberRoleChanged L) =
        (if rl_role q = Owner then Inl (Error ''member_role_changed: ownership moves by transfer only'') else Inr q)"
    by (cases q; cases "rl_role q") (simp_all add: DecodeMemberRoleChanged_def EncodeMemberRoleChanged_def json MemberRoleFromString_def)
  show "pc_group_id c \<noteq> [] \<Longrightarrow> json_num (pc_roster_epoch c) \<Longrightarrow>
      DecodeGroupPresetChanged L (EncodeGroupPresetChanged L c) = Inr c"
    by (cases c; cases "pc_preset c") (simp_all add: DecodeGroupPresetChanged_def EncodeGroupPresetChanged_def json GroupPresetFromString_def GroupPresetToString_def)
  show "ot_group_id ow \<noteq> [] \<Longrightarrow> ot_new_owner ow \<noteq> [] \<Longrightarrow> json_num (ot_roster_epoch ow) \<Longrightarrow>
      DecodeOwnerTransferred L (EncodeOwnerTransferred L ow) = Inr ow"
    by (simp add: DecodeOwnerTransferred_def EncodeOwnerTransferred_def json)
  show "gr_group_id t \<noteq> [] \<Longrightarrow> gr_title t \<noteq> [] \<Longrightarrow> json_num (gr_roster_epoch t) \<Longrightarrow> json_num (gr_title_version t) \<Longrightarrow>
      DecodeGroupRenamed L (EncodeGroupRenamed L t) = Inr t"
    by (simp add: DecodeGroupRenamed_def EncodeGroupRenamed_def json)
  show "DecodeGroupPolicy L (EncodeGroupPolicy L preset) = Inr preset"
    by (simp add: DecodeGroupPolicy_def EncodeGroupPolicy_def json GroupPreset_roundtrip)
qed

subsection \<open>The messages\<close>

lemma message_carries:
  fixes L :: "('o, 'v) json_lib" and uuid now thread words sender
  assumes "json_laws L"
  defines "m \<equiv> \<lambda>type detail. BuildSystemMessage L uuid now thread type words detail sender"
  shows "ControlTypeFromMessage L (m type detail) = Some type" "DetailOf L (m type detail) = Some detail"
    and "DetailFromMessage L (m type detail) type e f = Inr detail"
proof -
  show type: "ControlTypeFromMessage L (m type detail) = Some type" and detail: "DetailOf L (m type detail) = Some detail"
    by (simp_all add: m_def BuildSystemMessage_def ControlTypeFromMessage_def DetailOf_def json_laws_back [OF assms(1)] json_readers
        control_type_from_to_wire)
  show "DetailFromMessage L (m type detail) type e f = Inr detail"
    by (simp add: DetailFromMessage_def type detail)
qed

lemma responses_in_message:
  assumes "json_laws L"
  shows "type \<in> {GroupInviteAccept, GroupInviteDecline} \<Longrightarrow>
      DecodeInviteResponseFromMessage L (BuildSystemMessage L uuid now thread type words (EncodeInviteResponse L nonce g) sender)
        = Inr \<lparr>ir_nonce = nonce, ir_group_id = g, ir_control_type = type, ir_reason = []\<rparr>"
    and "DecodeInviteResponseFromMessage L (BuildSystemMessage L uuid now thread GroupInviteRefused words
        (EncodeInviteRefused L nonce g reason) sender)
      = Inr \<lparr>ir_nonce = nonce, ir_group_id = g, ir_control_type = GroupInviteRefused, ir_reason = reason\<rparr>"
  by (auto simp: DecodeInviteResponseFromMessage_def message_carries [OF assms(1)] response_roundtrip [OF assms(1)])
    (simp_all add: EncodeInviteResponse_def EncodeInviteRefused_def MakeStringObject_def json_laws_back [OF assms(1)] json_readers)

text \<open>
  C22: a membership event arrives as it was sent. Put into a system message and read from it again, an
  invite (an owner who is the inviter is left out, which changes nothing of who owns the group), an answer
  to one (an accept, a decline, or a refusal with its reason), a join with its whole roster, a leave, a
  removal, a change of role, of preset, of owner or of title, and the signed statement of a dissolve are the
  same; a join stripped of its cards is the same but for the cards; making someone owner is refused, since
  ownership moves by transfer. Required names must not be empty and numbers must be below 2^63. (The
  lines that show a fork or a dissolve in a chat are written only: nothing of the program reads them.)
\<close>

theorem events_roundtrip:
  fixes L :: "('o, 'v) json_lib" and uuid now thread words sender
  assumes "json_laws L"
  defines "sent \<equiv> \<lambda>type detail. BuildSystemMessage L uuid now thread type words detail sender"
  shows "(invite_fine i \<longrightarrow> DecodeInviteFromMessage L (sent GroupInvite (EncodeInvite L i)) = Inr (invite_as_read i)
        \<and> PayloadOwner (invite_as_read i) = PayloadOwner i)
    \<and> DecodeInviteResponseFromMessage L (sent GroupInviteAccept (EncodeInviteResponse L nonce g))
        = Inr \<lparr>ir_nonce = nonce, ir_group_id = g, ir_control_type = GroupInviteAccept, ir_reason = []\<rparr>
    \<and> DecodeInviteResponseFromMessage L (sent GroupInviteDecline (EncodeInviteResponse L nonce g))
        = Inr \<lparr>ir_nonce = nonce, ir_group_id = g, ir_control_type = GroupInviteDecline, ir_reason = []\<rparr>
    \<and> DecodeInviteResponseFromMessage L (sent GroupInviteRefused (EncodeInviteRefused L nonce g reason))
        = Inr \<lparr>ir_nonce = nonce, ir_group_id = g, ir_control_type = GroupInviteRefused, ir_reason = reason\<rparr>
    \<and> (statement_fine st \<longrightarrow> roe_bind (DetailFromMessage L (sent GroupDissolved (EncodeStatement L st)) GroupDissolved e f)
        (DecodeStatement L) = Inr st)
    \<and> (jm_group_id j \<noteq> [] \<and> jm_identity j \<noteq> [] \<and> json_num (jm_roster_epoch j) \<longrightarrow>
        DecodeMemberJoinedFromMessage L (sent MemberJoined (EncodeMemberJoined L j)) = Inr j
        \<and> DecodeMemberJoinedFromMessage L (sent MemberJoined (WithoutCards L j))
          = Inr (j\<lparr>jm_members := map (\<lambda>e. e\<lparr>jn_card := None\<rparr>) (jm_members j)\<rparr>))
    \<and> (ml_group_id p \<noteq> [] \<and> ml_identity p \<noteq> [] \<and> json_num (ml_roster_epoch p) \<longrightarrow>
        DecodeMemberLeftFromMessage L (sent MemberLeft (EncodeMemberLeft L p)) = Inr p)
    \<and> (mr_group_id r \<noteq> [] \<and> mr_identity r \<noteq> [] \<and> json_num (mr_roster_epoch r) \<longrightarrow>
        DecodeMemberRemovedFromMessage L (sent MemberRemoved (EncodeMemberRemoved L r)) = Inr r)
    \<and> (rl_group_id q \<noteq> [] \<and> rl_identity q \<noteq> [] \<and> json_num (rl_roster_epoch q) \<longrightarrow>
        roe_bind (EncodeMemberRoleChanged L q) (\<lambda>d. DecodeMemberRoleChangedFromMessage L (sent MemberRoleChanged d))
          = (if rl_role q = Owner then Inl (Error ''member_role_changed: ownership moves by transfer only'') else Inr q))
    \<and> (pc_group_id c \<noteq> [] \<and> json_num (pc_roster_epoch c) \<longrightarrow>
        DecodeGroupPresetChangedFromMessage L (sent GroupPresetChanged (EncodeGroupPresetChanged L c)) = Inr c)
    \<and> (ot_group_id ow \<noteq> [] \<and> ot_new_owner ow \<noteq> [] \<and> json_num (ot_roster_epoch ow) \<longrightarrow>
        DecodeOwnerTransferredFromMessage L (sent OwnerTransferred (EncodeOwnerTransferred L ow)) = Inr ow)
    \<and> (gr_group_id t \<noteq> [] \<and> gr_title t \<noteq> [] \<and> json_num (gr_roster_epoch t) \<and> json_num (gr_title_version t) \<longrightarrow>
        DecodeGroupRenamedFromMessage L (sent GroupRenamed (EncodeGroupRenamed L t)) = Inr t)"
proof (intro conjI impI; (elim conjE)?)
qed (simp_all add: sent_def message_carries [OF assms(1)] invite_roundtrip [OF assms(1)] invite_as_read_owner
    statement_roundtrip [OF assms(1)] responses_in_message [OF assms(1)] joined_roundtrip [OF assms(1)] without_cards [OF assms(1)] events_read_back [OF assms(1)]
    DecodeInviteFromMessage_def DecodeMemberJoinedFromMessage_def DecodeMemberLeftFromMessage_def DecodeMemberRemovedFromMessage_def
    DecodeMemberRoleChangedFromMessage_def DecodeGroupPresetChangedFromMessage_def DecodeOwnerTransferredFromMessage_def
    DecodeGroupRenamedFromMessage_def)

theorem events_roundtrip_witness:
  "DecodeGroupRenamedFromMessage sample_lib (BuildSystemMessage sample_lib ''u'' 5 ''th'' GroupRenamed ''renamed''
      (EncodeGroupRenamed sample_lib \<lparr>gr_group_id = ''g'', gr_title = ''tea'', gr_roster_epoch = 4, gr_title_version = 2\<rparr>) ''ann'')
    = Inr \<lparr>gr_group_id = ''g'', gr_title = ''tea'', gr_roster_epoch = 4, gr_title_version = 2\<rparr>"
  using events_roundtrip [OF sample_lib_laws, where uuid = "''u''" and now = 5 and thread = "''th''" and words = "''renamed''"
      and sender = "''ann''" and t = "\<lparr>gr_group_id = ''g'', gr_title = ''tea'', gr_roster_epoch = 4, gr_title_version = 2\<rparr>"]
  by (simp only: group_renamed_payload.simps) (simp add: json_num_def)

subsection \<open>What is marked on a message\<close>

lemma resolution_read_back:
  assumes "json_laws L"
  shows "InviteResolutionFromMessage L (ApplyInviteResolution L m status words)
      = Some (if status = Pending then Expired else status)"
    and "ControlTypeFromMessage L (ApplyInviteResolution L m status words) = (if tm_system m then Some GroupInvite else None)"
    and "jl_parse L (tm_payload_json m) \<noteq> None \<Longrightarrow> DetailOf L (ApplyInviteResolution L m status words) = DetailOf L m"
    and "IsOwnerUnreachableResolved L (ApplyOwnerUnreachableResolution L m)"
  by (cases status; auto simp: InviteResolutionFromMessage_def ApplyInviteResolution_def json_laws_back [OF assms] json_readers
      ControlTypeFromMessage_def DetailOf_def payload_or_empty_def IsOwnerUnreachableResolved_def ApplyOwnerUnreachableResolution_def
      GroupMembershipControlTypeFromWire_def)+

end
