(* ===== verification/FamilyClaims.thy ===== *)
theory FamilyClaims
  imports GroupSyncFamily EventClaims
begin

section \<open>What a control message can do\<close>

text \<open>
  The claim on \<open>GroupSyncFamily\<close>: from the text that arrived to the store. The hypothesis of the claims
  on replies, that a reply's statement is of the reply's group, is what its decoder checks.
\<close>

text \<open>What one of the family's messages may do, by what the store said before.\<close>

definition answers_only :: "roster_store \<Rightarrow> string option \<Rightarrow> string \<Rightarrow> family_call list \<Rightarrow> bool" where
  "answers_only s account sender calls \<longleftrightarrow> list_all (\<lambda>call. \<exists>rq local. call = CallAnswer rq sender
     \<and> account = Some local \<and> sender \<noteq> local \<and> is_member s (rq_group_id rq) local) calls"

definition reply_acted ::
  "crypto \<Rightarrow> ('o, 'v) json_lib \<Rightarrow> roster_store \<Rightarrow> thread_message \<Rightarrow> string option \<Rightarrow> string \<Rightarrow> roster_store \<Rightarrow> bool" where
  "reply_acted cr L s m account sender t \<longleftrightarrow>
     (\<exists>local detail reply ra. LaneTypeOf L m = Some GroupRosterReply \<and> account = Some local \<and> DetailOf L m = Some detail
       \<and> DecodeReply L detail = Inr reply
       \<and> ra_outcome ra \<noteq> Ignored \<and> reply_entitled cr (roster_json_of L) s reply local sender ra
       \<and> state_in t (rp_group_id reply) (settled_as (ra_outcome ra)))"

definition reply_with_word :: "crypto \<Rightarrow> ('o, 'v) json_lib \<Rightarrow> roster_store \<Rightarrow> thread_message \<Rightarrow> string \<Rightarrow> bool" where
  "reply_with_word cr L s m sender \<longleftrightarrow>
     (\<exists>detail reply. LaneTypeOf L m = Some GroupRosterReply \<and> DetailOf L m = Some detail \<and> DecodeReply L detail = Inr reply
       \<and> reply_authorised cr s reply sender)"

definition own_dissolve ::
  "crypto \<Rightarrow> ('o, 'v) json_lib \<Rightarrow> roster_store \<Rightarrow> thread_message \<Rightarrow> string option \<Rightarrow> string \<Rightarrow> roster_store \<Rightarrow> bool" where
  "own_dissolve cr L s m account sender t \<longleftrightarrow>
     (\<exists>detail st. LaneTypeOf L m = Some GroupDissolvedSibling \<and> account = Some sender \<and> DetailOf L m = Some detail \<and> DecodeStatement L detail = Inr st
       \<and> dissolve_entitled cr (roster_json_of L) s st sender \<and> state_in t (s_group_id st) Dissolved)"

lemma answers_only_Nil [simp]: "answers_only s account sender []"
  by (simp add: answers_only_def)

lemma reply_acted_clean: "reply_acted cr L s m account sender (clean t) = reply_acted cr L s m account sender t"
  by (simp add: reply_acted_def)

lemma own_dissolve_clean: "own_dissolve cr L s m account sender (clean t) = own_dissolve cr L s m account sender t"
  by (simp add: own_dissolve_def)

lemma after_ApplyRequest:
  "after (ApplyRequest L hooks local detail sender) (\<lambda>r t. t = clean s
     \<and> (\<forall>calls. r = Inr calls \<longrightarrow> answers_only s (Some local) sender calls)) s"
  unfolding ApplyRequest_def
  by (rule after_sum) (auto intro!: after_return after_roe_then after_IsMember_row after_ret_ok simp: answers_only_def)

lemma after_ApplyReplyMessage:
  assumes "store_ok s" "DetailOf L m = Some detail" "LaneTypeOf L m = Some GroupRosterReply"
  shows "after (ApplyReplyMessage cr L hooks local detail sender cards now) (\<lambda>r t. case r of
     Inl _ \<Rightarrow> t = clean s \<or> reply_with_word cr L s m sender
   | Inr calls \<Rightarrow> t = clean s \<and> calls = [] \<or> reply_acted cr L s m (Some local) sender t) s"
  unfolding ApplyReplyMessage_def
proof (rule after_sum, simp add: after_return, goal_cases)
  case (1 reply)
  have "\<forall>st \<in> set_option (rp_statement reply). s_group_id st = rp_group_id reply"
    using decoded_group [OF 1] by (cases "rp_statement reply") auto
  note reply = after_ApplyReply [OF assms(1) this, of cr "roster_json_of L" local sender cards now]
  show ?case
    by (rule after_roe_then, rule after_weaken [OF reply])
      (use 1 assms(2,3) in \<open>auto simp: reply_acted_def reply_with_word_def reply_calls_def split: sum.splits if_splits option.splits intro!: after_ret_ok\<close>)
qed

lemma after_ApplySiblingDissolved:
  assumes "store_ok s" "DetailOf L m = Some detail" "LaneTypeOf L m = Some GroupDissolvedSibling"
  shows "after (ApplySiblingDissolved cr L hooks local detail sender) (\<lambda>r t. case r of
     Inl _ \<Rightarrow> t = clean s
   | Inr calls \<Rightarrow> t = clean s \<and> calls = [] \<or> own_dissolve cr L s m (Some local) sender t) s"
  unfolding ApplySiblingDissolved_def
proof (rule after_if, simp add: after_ret_ok, rule after_sum, simp add: after_return, goal_cases)
  case (1 st)
  show ?case
    by (rule after_roe_then, rule after_weaken [OF dissolve_outcome [OF assms(1)]])
      (use 1 assms(2,3) in \<open>auto simp: own_dissolve_def state_in_def split: sum.splits if_splits intro!: after_ret_ok\<close>)
qed

text \<open>
  C10: what a control message can do, whoever sends it. A message of the member check that is applied
  without an error leaves the store as it is, and at most asks for an answer to its sender, who is not
  this account, in a group this account is in; or it is a reply, to the request that is open in its
  group, that carries the owner's word (see the claim on replies), and the group is then in the state
  this says; or it came from this account and carries a dissolve that ends its group by the owner's
  own word. One that ends in an error, whatever failed, leaves the store as it is as well, unless it is
  a reply to the open request with the owner's word.
\<close>

theorem control_message_needs_owners_word:
  assumes "store_ok s" "run_state (FamilyApply cr L hooks m account sender cards now) s = (r, t)"
  shows "case r of
      Inl _ \<Rightarrow> clean t = clean s \<or> reply_with_word cr L s m sender
    | Inr calls \<Rightarrow> clean t = clean s \<and> answers_only s account sender calls \<or> reply_acted cr L s m account sender t
        \<or> own_dissolve cr L s m account sender t"
proof -
  let ?Q = "\<lambda>r t. case r of
      Inl _ \<Rightarrow> t = clean s \<or> reply_with_word cr L s m sender
    | Inr calls \<Rightarrow> t = clean s \<and> answers_only s account sender calls \<or> reply_acted cr L s m account sender t
        \<or> own_dissolve cr L s m account sender t"
  have "after (FamilyApply cr L hooks m account sender cards now) ?Q s"
  proof (cases "\<exists>kind local detail. LaneTypeOf L m = Some kind \<and> account = Some local \<and> sender \<noteq> [] \<and> DetailOf L m = Some detail")
    case False
    then have "FamilyApply cr L hooks m account sender cards now = ret_ok []
        \<or> FamilyApply cr L hooks m account sender cards now = ret_err ''roster sync: no detail''"
      by (cases "LaneTypeOf L m"; cases account; cases "DetailOf L m"; cases "sender = []") (simp_all add: FamilyApply_def)
    moreover have "after (ret_ok []) ?Q s" "after (ret_err ''roster sync: no detail'') ?Q s"
      by (rule after_ret_ok, simp) (rule after_ret_err, simp)
    ultimately show ?thesis by (elim disjE) simp_all
  next
    case True
    then obtain kind local detail where m: "LaneTypeOf L m = Some kind" "account = Some local" "sender \<noteq> []" "DetailOf L m = Some detail"
      by blast
    have "kind \<in> {GroupRosterRequest, GroupDissolvedSibling, GroupRosterReply}"
      using m(1) by (auto simp: LaneTypeOf_def split: if_splits option.splits)
    moreover have "after (ApplyRequest L hooks local detail sender) ?Q s"
      by (rule after_weaken [OF after_ApplyRequest]) (use m(2) in \<open>simp split: sum.split\<close>)
    moreover have "after (ApplySiblingDissolved cr L hooks local detail sender) ?Q s" if "kind = GroupDissolvedSibling"
      by (rule after_weaken [OF after_ApplySiblingDissolved [OF assms(1) m(4) m(1) [unfolded that]]])
        (use m(2) answers_only_Nil in \<open>auto split: sum.splits\<close>)
    moreover have "after (ApplyReplyMessage cr L hooks local detail sender cards now) ?Q s" if "kind = GroupRosterReply"
      by (rule after_weaken [OF after_ApplyReplyMessage [OF assms(1) m(4) m(1) [unfolded that]]])
        (use m(2) answers_only_Nil in \<open>auto split: sum.splits\<close>)
    ultimately show ?thesis
      unfolding FamilyApply_def m prod.case option.case using m(3) by auto
  qed
  from afterD [OF this assms(2)] show ?thesis by (cases r) (simp_all add: reply_acted_clean own_dissolve_clean)
qed

definition sample_request_message :: thread_message where
  "sample_request_message = BuildSystemMessage sample_lib ''u'' 5 ''th'' GroupRosterRequest ''roster''
     (EncodeRequest sample_lib \<lparr>rq_group_id = ''g'', rq_request_id = ''q'', rq_roster_epoch = 0, rq_statement_epoch = 0,
       rq_changes_hash = [], rq_after = []\<rparr>) ''ann''"

definition all_hooks :: family_hooks where
  "all_hooks = \<lparr>fh_answer = True, fh_dissolved = True, fh_applied = True, fh_ask_more = True\<rparr>"

text \<open>The owner's own reply that we are out, to the request that is open.\<close>

definition sample_told_message :: thread_message where
  "sample_told_message = BuildSystemMessage sample_lib ''u'' 5 ''th'' GroupRosterReply ''roster''
     (EncodeReply sample_lib sample_told) ''z''"

lemma sample_told_fields:
  "rp_group_id sample_told = ''g''" "rp_request_id sample_told = ''q''" "rp_statement sample_told = None"
  "rp_removed sample_told" "rp_changes sample_told = []" "\<not> rp_more sample_told"
  by (simp_all add: sample_told_def)

lemma told_message:
  "LaneTypeOf sample_lib sample_told_message = Some GroupRosterReply"
  "DetailOf sample_lib sample_told_message = Some (EncodeReply sample_lib sample_told)"
  "DecodeReply sample_lib (EncodeReply sample_lib sample_told) = Inr sample_told"
proof -
  have "reply_fine sample_told" by (simp add: reply_fine_def sample_told_def)
  then show "DecodeReply sample_lib (EncodeReply sample_lib sample_told) = Inr sample_told"
    by (rule reply_roundtrip [OF sample_lib_laws])
qed (unfold sample_told_message_def LaneTypeOf_def, simp_all add: message_carries [OF sample_lib_laws],
    simp add: BuildSystemMessage_def)

theorem control_message_needs_owners_word_witness:
  "reply_acted sample_crypto sample_lib sample_following sample_told_message (Some ''ann'') ''z''
     (snd (run_state (FamilyApply sample_crypto sample_lib all_hooks sample_told_message (Some ''ann'') ''z'' (\<lambda>_. None) 10)
       sample_following))
   \<and> clean (snd (run_state (FamilyApply sample_crypto sample_lib all_hooks sample_request_message (Some ''ann'') ''bob'' (\<lambda>_. None) 10)
    sample_following)) = clean sample_following"
proof
  let ?t = "run_state (FamilyApply sample_crypto sample_lib all_hooks sample_request_message (Some ''ann'') ''bob'' (\<lambda>_. None) 10)
    sample_following"
  let ?rq = "\<lparr>rq_group_id = ''g'', rq_request_id = ''q'', rq_roster_epoch = 0, rq_statement_epoch = 0, rq_changes_hash = [], rq_after = []\<rparr>"
  have "request_fine ?rq" by (simp add: request_fine_def)
  note decoded = request_roundtrip [OF sample_lib_laws this]
  have lane: "LaneTypeOf sample_lib sample_request_message = Some GroupRosterRequest"
    "DetailOf sample_lib sample_request_message = Some (EncodeRequest sample_lib ?rq)"
    unfolding sample_request_message_def LaneTypeOf_def by (simp_all add: message_carries [OF sample_lib_laws])
      (simp add: BuildSystemMessage_def)
  have "\<exists>calls. fst ?t = Inr calls"
    by (simp add: FamilyApply_def lane ApplyRequest_def decoded IsMember_def run_rules calm_runs sample_following_fields)
  then obtain calls where run: "?t = (Inr calls, snd ?t)" by (metis prod.collapse)
  from control_message_needs_owners_word [OF sample_following_ok run] show "clean (snd ?t) = clean sample_following"
    unfolding reply_acted_def own_dissolve_def lane by simp
next
  let ?r = "run_state (FamilyApply sample_crypto sample_lib all_hooks sample_told_message (Some ''ann'') ''z'' (\<lambda>_. None) 10)
    sample_following"
  have "?r = (Inr [], snd ?r) \<and> state_in (snd ?r) ''g'' Removed"
    by (simp add: FamilyApply_def told_message ApplyReplyMessage_def ApplyReply_def settle_state_def sample_told_fields run_rules
        calm_runs sample_following_fields sample_metadata_def NotifyChanged_def reply_calls_def outcome_only_def AskMore_def
        state_in_def)
  then have run: "?r = (Inr [], snd ?r)" and out: "state_in (snd ?r) ''g'' Removed" by simp_all
  have "clean (snd ?r) \<noteq> clean sample_following"
  proof
    assume "clean (snd ?r) = clean sample_following"
    from arg_cong [OF this, of db_metadata] have "db_metadata (snd ?r) = db_metadata sample_following" by simp
    then show False using out by (simp add: state_in_def sample_following_fields sample_metadata_def)
  qed
  with control_message_needs_owners_word [OF sample_following_ok run]
  show "reply_acted sample_crypto sample_lib sample_following sample_told_message (Some ''ann'') ''z'' (snd ?r)"
    unfolding own_dissolve_def told_message(1) by simp
qed

end
