(* ===== verification/InboundClaims.thy ===== *)
theory InboundClaims
  imports InboundDispatch WorldLaws FamilyClaims
begin

section \<open>What a message that arrived may change\<close>

text \<open>
  The dispatcher as a whole: a message of a sender changes a group only where it has a right of its kind
  in it (\<open>inbound_right\<close>), or as the refusal of an invite, within its bounds (\<open>refused_here\<close>), whatever the
  chat store, the callbacks and the database do.
\<close>

subsection \<open>A group's part of the store\<close>

definition same_group :: "string \<Rightarrow> roster_store \<Rightarrow> roster_store \<Rightarrow> bool" where
  "same_group g s t \<longleftrightarrow> map_of (db_metadata t) g = map_of (db_metadata s) g
     \<and> rows_of g (db_rosters t) = rows_of g (db_rosters s) \<and> rows_of g (db_changes t) = rows_of g (db_changes s)
     \<and> map_of (db_targets t) g = map_of (db_targets s) g"

definition apart :: "string \<Rightarrow> roster_store \<Rightarrow> roster_store \<Rightarrow> bool" where
  "apart g s t \<longleftrightarrow> store_ok t \<and> same_group g s t"

lemma apart_faults [simp]: "apart g s (t\<lparr>db_faults := fs\<rparr>) = apart g s t"
  by (simp add: apart_def same_group_def)

lemma apart_refl: "store_ok s \<Longrightarrow> apart g s s"
  by (simp add: apart_def same_group_def)

lemma apart_elsewhere: "apart g s t \<Longrightarrow> within h t u \<Longrightarrow> h \<noteq> g \<Longrightarrow> apart g s u"
  by (auto simp: apart_def same_group_def within_def same_elsewhere_def)

lemma apart_invites: "apart g s t \<Longrightarrow> keyed_by pi_nonce i \<Longrightarrow> apart g s (t\<lparr>db_invites := i\<rparr>)"
  by (simp add: apart_def same_group_def)

lemma apart_after:
  assumes "h \<noteq> g" and "\<And>t. store_ok t \<Longrightarrow> after m (\<lambda>_. within h t) t"
  shows "world_keeps (apart g s) (on_store m)"
proof (rule keeps_on_store)
  show "after m (\<lambda>_. apart g s) t" if "apart g s t" for t
  proof -
    have "store_ok t" using that by (simp add: apart_def)
    from assms(2) [OF this] show ?thesis by (rule after_weaken) (rule apart_elsewhere [OF that _ assms(1)])
  qed
qed simp

text \<open>Reads, and operations that turn out to do nothing.\<close>

lemma apart_same:
  assumes "\<And>t. after m (\<lambda>_ u. u = clean t) t" shows "world_keeps (apart g s) (on_store m)"
proof (rule keeps_on_store)
  show "after m (\<lambda>_. apart g s) t" if "apart g s t" for t
    by (rule after_weaken [OF assms]) (simp add: that)
qed simp

lemma same_reads:
  "after (LoadMetadata g') (\<lambda>_ u. u = clean t) t" "after (ListGroupChanges g') (\<lambda>_ u. u = clean t) t"
  "after (IsMember g' i) (\<lambda>_ u. u = clean t) t" "after (LoadPendingInvite n) (\<lambda>_ u. u = clean t) t"
  "after (CountPendingInvitesSince since) (\<lambda>_ u. u = clean t) t"
  unfolding CountPendingInvitesSince_def
  by (auto intro!: after_LoadMetadata after_ListGroupChanges after_IsMember after_LoadPendingInvite after_roe_then
      after_db_rows after_ret_ok split: list.split)

lemma apart_reads [keeps_intros]:
  "world_keeps (apart g s) (on_store (LoadMetadata g'))" "world_keeps (apart g s) (on_store (ListGroupChanges g'))"
  "world_keeps (apart g s) (on_store (IsMember g' i))" "world_keeps (apart g s) (on_store (LoadPendingInvite n))"
  by (rule apart_same, rule same_reads)+

text \<open>Invites are no part of it.\<close>

lemma apart_status [keeps_intros]: "world_keeps (apart g s) (on_store (UpdateInviteStatus n status))"
proof (rule keeps_on_store)
  show "after (UpdateInviteStatus n status) (\<lambda>_. apart g s) t" if "apart g s t" for t
    unfolding UpdateInviteStatus_def
    by (rule after_roe_then, rule after_db_write_unchecked)
      (use that in \<open>auto intro!: after_ret_ok apart_invites simp: apart_def [of g s t]\<close>)
qed simp

lemma apart_set_outcome [keeps_intros]: "world_keeps (apart g s) (set_outcome f)"
  unfolding set_outcome_def by (rule keeps_update) simp

lemma apart_store_detail [keeps_intros]: "world_keeps (apart g s) (store_detail e type detail)"
  unfolding store_detail_def by (rule keeps_update) simp

lemma apart_the_message [keeps_intros]: "world_keeps (apart g s) the_message"
  unfolding the_message_def by (intro keeps_intros)

lemma apart_on_roster [keeps_intros]: "world_keeps (apart g s) (on_roster g' i)"
  unfolding on_roster_def by (intro keeps_intros)

lemma apart_ignored [keeps_intros]: "world_keeps (apart g s) (ignored g' local)"
  unfolding ignored_def by (intro keeps_intros)

lemma apart_keep_cards:
  "(\<And>i. world_keeps (apart g s) (listed i)) \<Longrightarrow> world_keeps (apart g s) (keep_cards e local listed entries)"
  by (induction entries) (auto intro!: keeps_intros)

lemma apart_KeepBundleCards [keeps_intros]:
  "(\<And>i. world_keeps (apart g s) (listed i)) \<Longrightarrow> world_keeps (apart g s) (KeepBundleCards e joined local listed)"
  unfolding KeepBundleCards_def by (intro keeps_intros apart_keep_cards)

lemma apart_KeepChangeNewcomer [keeps_intros]: "world_keeps (apart g s) (KeepChangeNewcomer e c local)"
  unfolding KeepChangeNewcomer_def by (intro keeps_intros)

lemma apart_change_card_calls [keeps_intros]: "world_keeps (apart g s) (change_card_calls e c outcome now)"
  unfolding change_card_calls_def by (intro keeps_intros)

lemma apart_note_line [keeps_intros]: "world_keeps (apart g s) (note_dissolved_line e g' actor)"
  unfolding note_dissolved_line_def by (intro keeps_intros)

lemma apart_prefixed [keeps_intros]: "world_keeps (apart g s) m \<Longrightarrow> world_keeps (apart g s) (prefixed p m)"
  unfolding prefixed_def by (intro keeps_intros)

subsection \<open>Another group's operations\<close>

lemma within_refl: "within h t t"
  by (rule in_group.R_refl)

lemma within_ClearGroupTarget: "after (ClearGroupTarget h) (\<lambda>_. within h t) t"
  unfolding ClearGroupTarget_def
  by (rule after_roe_then, rule after_db_write_unchecked)
    (auto simp: within_def same_elsewhere_def map_of_om_erase_other intro!: after_ret_ok)

lemma apart_ops:
  assumes "h \<noteq> g"
  shows "md_group_id md = h \<Longrightarrow> world_keeps (apart g s) (on_store (UpsertMetadata md))"
    "world_keeps (apart g s) (on_store (ClearGroupTarget h))"
    "world_keeps (apart g s) (on_store (RemoveMember h i))"
    "world_keeps (apart g s) (on_store (ApplyView cr js h cards now))"
    "world_keeps (apart g s) (on_store (EndGroupInRoster h owner epoch' text sends))"
  by (rule apart_after [OF assms]; auto simp: EndGroupInRoster_def intro!: in_group.keeps_UpsertMetadata
      in_group.keeps_RemoveMember within_ClearGroupTarget in_group.keeps_ApplyView in_group.keeps_then
      in_group.keeps_EndGroup in_group.keeps_returns within_refl)+

lemma keeps_loaded:
  fixes f :: "group_metadata option roe \<Rightarrow> (('o, 'w) world_scheme, 'x) state"
  assumes "\<And>x. world_keeps (apart g s) (f (Inl x))" "world_keeps (apart g s) (f (Inr None))"
    and "\<And>md. md_group_id md = h \<Longrightarrow> world_keeps (apart g s) (f (Inr (Some md)))"
  shows "world_keeps (apart g s) (State_Monad.bind (on_store (LoadMetadata h)) f)"
proof (rule world_keepsI, rule holds_bind, rule holds_on_store, rule after_LoadMetadata)
  fix w :: "('o, 'w) world_scheme"
  assume w: "apart g s (ww_store w)"
  let ?w = "\<lambda>fs. w\<lparr>ww_store := clean (ww_store w)\<lparr>db_faults := fs\<rparr>\<rparr>"
  show "\<forall>fs. holds (f (Inl x)) (\<lambda>_ w'. apart g s (ww_store w')) (?w fs)" for x
    by (rule allI, rule world_keepsD [OF assms(1)]) (simp add: w)
  show "\<forall>fs. holds (f (Inr None)) (\<lambda>_ w'. apart g s (ww_store w')) (?w fs)"
    by (rule allI, rule world_keepsD [OF assms(2)]) (simp add: w)
  show "\<forall>fs. holds (f (Inr (Some (md\<lparr>md_group_id := h, md_session_epoch := epoch\<rparr>)))) (\<lambda>_ w'. apart g s (ww_store w')) (?w fs)"
    for md epoch
    by (rule allI, rule world_keepsD [OF assms(3)]) (simp_all add: w)
qed

lemma apart_MarkRemovedHere: "h \<noteq> g \<Longrightarrow> world_keeps (apart g s) (MarkRemovedHere h)"
  unfolding MarkRemovedHere_def by (intro keeps_seq keeps_intros apart_ops keeps_loaded) simp_all

lemma apart_FinishView:
  "(h = g \<Longrightarrow> va_gone applied = []) \<Longrightarrow> world_keeps (apart g s) (FinishView e h applied local out)"
  unfolding FinishView_def
  by (intro keeps_seq keeps_intros) (use apart_MarkRemovedHere in force)+

lemma keeps_note_line: "world_keeps P (note_dissolved_line e g actor)"
  unfolding note_dissolved_line_def set_outcome_def by (intro keeps_intros) simp

subsection \<open>What the owner's word is needed for\<close>

definition owners_statement :: "crypto \<Rightarrow> roster_store \<Rightarrow> string \<Rightarrow> statement \<Rightarrow> bool" where
  "owners_statement cr s g st \<longleftrightarrow> s_group_id st = g
     \<and> (\<exists>md. map_of (db_metadata s) g = Some md \<and> Verify cr st (md_owner md) = Inr ())"

lemma apart_metadata: "apart g s t \<Longrightarrow> map_of (db_metadata t) g = map_of (db_metadata s) g"
  by (simp add: apart_def same_group_def)

lemma apart_member: "apart g s t \<Longrightarrow> is_member t g i = is_member s g i"
  by (simp add: apart_def same_group_def is_member_def)

lemma apart_clean: "apart g s t \<Longrightarrow> u = clean t \<Longrightarrow> apart g s u"
  by simp

lemma after_apart_KeepStatement:
  assumes "apart g s t" "\<not> owners_statement cr s g st"
  shows "after (KeepStatement cr js st) (\<lambda>r u. apart g s u \<and> (s_group_id st = g \<longrightarrow> r \<noteq> Inr True)) t"
proof (cases "s_group_id st = g")
  case True
  with assms have "\<not> statement_entitled cr js md st" if "map_of (db_metadata t) g = Some md" for md
    using that by (auto simp: owners_statement_def statement_entitled_def apart_metadata)
  then show ?thesis
    by (intro after_weaken [OF after_KeepStatement]) (use True assms(1) in \<open>auto split: if_splits\<close>)
next
  case False
  have "store_ok t" using assms(1) by (simp add: apart_def)
  show ?thesis
    by (rule after_weaken [OF in_group.keeps_KeepStatement [OF within_refl refl]])
      (use False apart_elsewhere [OF assms(1)] in auto)
qed

lemma apart_KeepStatement:
  "\<not> owners_statement cr s g st \<Longrightarrow> world_keeps (apart g s) (on_store (KeepStatement cr js st))"
  by (rule keeps_on_store, simp) (erule after_weaken [OF after_apart_KeepStatement], simp_all)

lemma after_apart_KeepAndCatchUp:
  assumes "apart g s t" "\<not> owners_statement cr s g st"
  shows "after (KeepAndCatchUp cr js st cards now)
    (\<lambda>r u. apart g s u \<and> (s_group_id st = g \<longrightarrow> (\<forall>k a. r = Inr (k, a) \<longrightarrow> a = None))) t"
proof (cases "s_group_id st = g")
  case True
  show ?thesis
    unfolding KeepAndCatchUp_def
    by (rule after_roe_then, rule after_weaken [OF after_apart_KeepStatement [OF assms]])
      (use True in \<open>auto intro!: after_ret_ok split: sum.split\<close>)
next
  case False
  have ok: "store_ok t" using assms(1) by (simp add: apart_def)
  show ?thesis
    by (rule after_weaken [OF in_group.keeps_KeepAndCatchUp [OF within_refl ok refl]])
      (use False apart_elsewhere [OF assms(1)] in auto)
qed

lemma keeps_kept:
  fixes f :: "(bool \<times> group_view_applied option) roe \<Rightarrow> (('o, 'w) world_scheme, 'x) state"
  assumes "\<not> owners_statement cr s g st"
    and "\<And>r. (\<And>k a. s_group_id st = g \<Longrightarrow> r = Inr (k, a) \<Longrightarrow> a = None) \<Longrightarrow> world_keeps (apart g s) (f r)"
  shows "world_keeps (apart g s) (State_Monad.bind (on_store (KeepAndCatchUp cr js st cards now)) f)"
proof (rule world_keepsI, rule holds_bind, rule holds_on_store, rule after_weaken, rule after_apart_KeepAndCatchUp [OF _ assms(1)])
  fix w :: "('o, 'w) world_scheme" and r :: "(bool \<times> group_view_applied option) roe" and u
  assume "apart g s u \<and> (s_group_id st = g \<longrightarrow> (\<forall>k a. r = Inr (k, a) \<longrightarrow> a = None))"
  then show "\<forall>fs. holds (f r) (\<lambda>_ w'. apart g s (ww_store w')) (w\<lparr>ww_store := u\<lparr>db_faults := fs\<rparr>\<rparr>)"
    by (intro allI world_keepsD assms(2)) simp_all
qed

text \<open>A dissolve that is not by the owner we know changes nothing.\<close>

lemma after_apart_dissolve:
  assumes "apart g s t" and "s_group_id st = g \<Longrightarrow> \<not> (dissolve_entitled cr js s st local \<and> s_owner st = actor \<and> actor \<noteq> [])"
  shows "after (ApplyDissolved cr js st local (Some actor)) (\<lambda>_. apart g s) t"
proof (cases "s_group_id st = g")
  case True
  with assms have "\<not> (dissolve_entitled cr js t st local \<and> s_owner st = actor \<and> actor \<noteq> [])"
    by (auto simp: dissolve_entitled_def apart_metadata apart_member split: option.splits)
  then show ?thesis
    by (intro after_weaken [OF after_conj [OF unapplied_dissolve not_entitled_dissolve]])
      (use assms(1) in \<open>auto split: sum.splits\<close>)
next
  case False
  show ?thesis
    by (rule after_weaken [OF in_group.keeps_dissolve [OF within_refl refl]])
      (use False apart_elsewhere [OF assms(1)] in auto)
qed

subsection \<open>Before the first write\<close>

text \<open>A world whose store and message are as they came.\<close>

definition as_came :: "roster_store \<Rightarrow> thread_message \<Rightarrow> 'o inbound \<Rightarrow> bool" where
  "as_came s m w \<longleftrightarrow> clean (ww_store w) = clean s \<and> in_message w = m"

lemma as_came_refl: "as_came (ww_store w) (in_message w) w"
  by (simp add: as_came_def)

lemma as_came_updates [simp]:
  "as_came s m (w\<lparr>ww_tick := n\<rparr>) = as_came s m w" "as_came s m (w\<lparr>ww_calls := cs\<rparr>) = as_came s m w"
  "as_came s m (w\<lparr>in_outcome := x\<rparr>) = as_came s m w"
  by (simp_all add: as_came_def)

lemma as_came_apart: "as_came s m w \<Longrightarrow> store_ok s \<Longrightarrow> apart g s (ww_store w)"
  by (metis apart_faults apart_refl as_came_def)

lemma clean_apart: "clean t = clean s \<Longrightarrow> store_ok s \<Longrightarrow> apart g s t"
  by (metis apart_faults apart_refl)

lemma apart_eq: "apart g s t \<Longrightarrow> clean u = clean t \<Longrightarrow> apart g s u"
  by (metis apart_faults)

text \<open>From there on, whatever keeps the group's part.\<close>

lemma holds_apart:
  "as_came s m w \<Longrightarrow> store_ok s \<Longrightarrow> world_keeps (apart g s) f \<Longrightarrow> holds f (\<lambda>_ w'. apart g s (ww_store w')) w"
  by (rule world_keepsD) (simp_all add: as_came_apart)

lemma same_after: "clean t = clean s \<Longrightarrow> after m Q t = after m Q s"
  by (metis after_clean)

lemma holds_first:
  assumes "as_came s m w" "after f Q0 s" "\<And>r t w'. Q0 r t \<Longrightarrow> clean (ww_store w') = clean t \<Longrightarrow> in_message w' = m \<Longrightarrow> Q r w'"
  shows "holds (on_store f) Q w"
proof (rule holds_on_store)
  have w: "clean (ww_store w) = clean s" "in_message w = m" using assms(1) by (simp_all add: as_came_def)
  show "after f (\<lambda>r u. \<forall>fs. Q r (w\<lparr>ww_store := u\<lparr>db_faults := fs\<rparr>\<rparr>)) (ww_store w)"
    unfolding same_after [OF w(1)]
    by (rule after_weaken [OF assms(2)]) (simp add: assms(3) w(2))
qed

lemma came_again: "clean (ww_store w') = clean (clean s) \<Longrightarrow> in_message w' = m \<Longrightarrow> as_came s m w'"
  by (simp add: as_came_def)

lemma holds_IsMember:
  assumes "as_came s m w" "\<And>x w'. as_came s m w' \<Longrightarrow> Q (Inl x) w'"
    "\<And>b w'. as_came s m w' \<Longrightarrow> (b \<Longrightarrow> is_member s g' i) \<Longrightarrow> Q (Inr b) w'"
  shows "holds (on_store (IsMember g' i)) Q w"
proof (rule holds_first [OF assms(1)])
  show "after (IsMember g' i) (\<lambda>r t. t = clean s \<and> (\<forall>b. r = Inr b \<longrightarrow> b \<longrightarrow> is_member s g' i)) s"
    by (rule after_IsMember_row) simp_all
qed (use assms(2,3) came_again in \<open>metis sum.exhaust\<close>)

lemma holds_LoadMetadata:
  assumes "as_came s m w" "\<And>x w'. as_came s m w' \<Longrightarrow> Q (Inl x) w'" "\<And>w'. as_came s m w' \<Longrightarrow> Q (Inr None) w'"
    "\<And>md epoch w'. as_came s m w' \<Longrightarrow> map_of (db_metadata s) g' = Some md \<Longrightarrow>
      Q (Inr (Some (md\<lparr>md_group_id := g', md_session_epoch := epoch\<rparr>))) w'"
  shows "holds (on_store (LoadMetadata g')) Q w"
proof (rule holds_first [OF assms(1)])
  show "after (LoadMetadata g') (\<lambda>r t. t = clean s \<and> ((\<exists>x. r = Inl x) \<or> r = Inr None \<or> (\<exists>md epoch.
      map_of (db_metadata s) g' = Some md \<and> r = Inr (Some (md\<lparr>md_group_id := g', md_session_epoch := epoch\<rparr>))))) s"
    by (rule after_LoadMetadata) auto
qed (use assms(2-4) came_again in blast)

lemma holds_LoadPendingInvite:
  assumes "as_came s m w" "\<And>x w'. as_came s m w' \<Longrightarrow> Q (Inl x) w'" "\<And>w'. as_came s m w' \<Longrightarrow> Q (Inr None) w'"
    "\<And>p w'. as_came s m w' \<Longrightarrow> map_of (db_invites s) n = Some p \<Longrightarrow> Q (Inr (Some (p\<lparr>pi_nonce := n\<rparr>))) w'"
  shows "holds (on_store (LoadPendingInvite n)) Q w"
proof (rule holds_first [OF assms(1)])
  show "after (LoadPendingInvite n) (\<lambda>r t. t = clean s \<and> ((\<exists>x. r = Inl x) \<or> r = Inr None \<or> (\<exists>p.
      map_of (db_invites s) n = Some p \<and> r = Inr (Some (p\<lparr>pi_nonce := n\<rparr>))))) s"
    by (rule after_LoadPendingInvite) auto
qed (use assms(2-4) came_again in blast)

subsection \<open>Rights in a group\<close>

text \<open>The statements a message may carry: beside an event, or as its detail.\<close>

definition carries_statement :: "('o, 'v) json_lib \<Rightarrow> thread_message \<Rightarrow> statement \<Rightarrow> bool" where
  "carries_statement L m st \<longleftrightarrow> (\<exists>detail. DetailOf L m = Some detail
     \<and> (StatementIn L detail = Some st \<or> DecodeStatement L detail = Inr st))"

text \<open>A change that may be held: it proves itself, or its signer's card is missing.\<close>

definition may_be_held :: "crypto \<Rightarrow> group_change \<Rightarrow> card_lookup \<Rightarrow> time_ms \<Rightarrow> bool" where
  "may_be_held cr c cards now \<longleftrightarrow>
     (case CheckChanges cr [c] cards now of [] \<Rightarrow> False | checked # _ \<Rightarrow> cc_proof checked \<in> {Proved, NoCard})"

definition change_right :: "('o, 'v) inbound_env \<Rightarrow> roster_store \<Rightarrow> thread_message \<Rightarrow> string \<Rightarrow> string \<Rightarrow> bool" where
  "change_right e s m actor g \<longleftrightarrow>
     (\<exists>detail c n. DetailOf (we_lib e) m = Some detail \<and> DecodeChange (we_lib e) detail = Inr c \<and> c_group_id c = g
       \<and> is_member s g (value_or (ie_account e) []) \<and> (c_signer c = actor \<or> is_member s g actor)
       \<and> may_be_held (we_crypto e) c (we_cards e) (we_clock e n))"

text \<open>A statement of the group by the owner we know rides on the message.\<close>

definition statement_right :: "('o, 'v) inbound_env \<Rightarrow> roster_store \<Rightarrow> thread_message \<Rightarrow> string \<Rightarrow> bool" where
  "statement_right e s m g \<longleftrightarrow> (\<exists>st. carries_statement (we_lib e) m st \<and> owners_statement (we_crypto e) s g st)"

text \<open>The membership event a message is, at a time; its entitlement is that of C6.\<close>

definition carried_event :: "('o, 'v) inbound_env \<Rightarrow> thread_message \<Rightarrow> string \<Rightarrow> time_ms \<Rightarrow> membership_event option" where
  "carried_event e m actor now =
     (let L = we_lib e; local = value_or (ie_account e) [] in
      case ControlTypeFromMessage L m of
        Some GroupInviteAccept \<Rightarrow> (case DecodeInviteResponseFromMessage L m of
          Inl _ \<Rightarrow> None | Inr x \<Rightarrow> Some (AcceptCame (ir_nonce x) actor (ir_group_id x) local now))
      | Some MemberJoined \<Rightarrow> (case DecodeMemberJoinedFromMessage L m of
          Inl _ \<Rightarrow> None | Inr x \<Rightarrow> Some (JoinedCame (joined_event x) actor now))
      | Some OwnerTransferred \<Rightarrow> (case DecodeOwnerTransferredFromMessage L m of
          Inl _ \<Rightarrow> None | Inr x \<Rightarrow> Some (TransferCame x actor now))
      | Some MemberRemoved \<Rightarrow> (case DecodeMemberRemovedFromMessage L m of
          Inl _ \<Rightarrow> None | Inr x \<Rightarrow> Some (RemovalCame (member_removed_payload.truncate x) actor))
      | Some GroupRenamed \<Rightarrow> (case DecodeGroupRenamedFromMessage L m of
          Inl _ \<Rightarrow> None | Inr x \<Rightarrow> Some (RenameCame x actor))
      | Some GroupDissolved \<Rightarrow> (case DetailOf L m of None \<Rightarrow> None | Some detail \<Rightarrow>
          (case DecodeStatement L detail of Inl _ \<Rightarrow> None | Inr st \<Rightarrow> Some (DissolveCame st actor local)))
      | _ \<Rightarrow> None)"

definition came_entitled :: "('o, 'v) inbound_env \<Rightarrow> roster_store \<Rightarrow> thread_message \<Rightarrow> string \<Rightarrow> membership_event \<Rightarrow> bool" where
  "came_entitled e s m actor ev \<longleftrightarrow> (\<exists>n. carried_event e m actor (we_clock e n) = Some ev)
     \<and> event_entitled (we_crypto e) (we_json e) s ev"

text \<open>
  The bundle we join by: it says we joined, comes from the owner or from who invited us to that group,
  and brings a statement, of a group that goes on, that verifies for the owner we know of it.
\<close>

definition invited_here :: "roster_store \<Rightarrow> string \<Rightarrow> string \<Rightarrow> string \<Rightarrow> string \<Rightarrow> bool" where
  "invited_here s n actor g local \<longleftrightarrow> n \<noteq> [] \<and> (\<exists>i. map_of (db_invites s) n = Some i \<and> \<not> pi_outbound i
     \<and> pi_inviter i = actor \<and> pi_group_id i = g \<and> pi_invitee i = local)"

definition bundle_right :: "('o, 'v) inbound_env \<Rightarrow> roster_store \<Rightarrow> thread_message \<Rightarrow> string \<Rightarrow> string \<Rightarrow> bool" where
  "bundle_right e s m actor g \<longleftrightarrow> (\<exists>j st. DecodeMemberJoinedFromMessage (we_lib e) m = Inr j
     \<and> jm_identity j = value_or (ie_account e) [] \<and> jm_identity j \<noteq> []
     \<and> (owner_event s (jm_group_id j) actor (\<lambda>_. True)
        \<or> invited_here s (jm_invite_nonce j) actor (jm_group_id j) (jm_identity j))
     \<and> carries_statement (we_lib e) m st \<and> \<not> s_dissolved st \<and> owners_statement (we_crypto e) s (s_group_id st) st
     \<and> (g = jm_group_id j \<or> g = s_group_id st))"

text \<open>A statement sent by the owner it names, of a group we are in.\<close>

definition sent_statement :: "('o, 'v) inbound_env \<Rightarrow> roster_store \<Rightarrow> thread_message \<Rightarrow> string \<Rightarrow> string \<Rightarrow> bool" where
  "sent_statement e s m actor g \<longleftrightarrow> is_member s g (value_or (ie_account e) [])
     \<and> (\<exists>st. carries_statement (we_lib e) m st \<and> owners_statement (we_crypto e) s g st \<and> s_owner st = actor)"

definition inbound_right :: "('o, 'v) inbound_env \<Rightarrow> roster_store \<Rightarrow> thread_message \<Rightarrow> string \<Rightarrow> string \<Rightarrow> bool" where
  "inbound_right e s m actor g \<longleftrightarrow>
     (\<exists>ev. came_entitled e s m actor ev \<and> event_group ev = g)
     \<or> (case ControlTypeFromMessage (we_lib e) m of
          Some MemberJoined \<Rightarrow> bundle_right e s m actor g \<or> (statement_right e s m g \<and> (\<exists>ev. came_entitled e s m actor ev))
        | Some MemberRemoved \<Rightarrow> statement_right e s m g \<and> (\<exists>ev. came_entitled e s m actor ev)
        | Some GroupRosterStatementCtl \<Rightarrow> sent_statement e s m actor g
        | Some MemberRoleChanged \<Rightarrow> sent_statement e s m actor g
        | Some GroupPresetChanged \<Rightarrow> sent_statement e s m actor g
        | Some GroupChangeCtl \<Rightarrow> change_right e s m actor g
        | _ \<Rightarrow> False)"

text \<open>
  A refusal, for an invite that came to us from the sender, to the group it names. It is no right: the
  code asks neither for an accept of ours that is still open nor for the group's owner. What it may do
  is bounded: it ends our copy, or it takes us out of it.
\<close>

definition refusal_taken :: "('o, 'v) inbound_env \<Rightarrow> roster_store \<Rightarrow> thread_message \<Rightarrow> string \<Rightarrow> string
    \<Rightarrow> invite_response_payload \<Rightarrow> bool" where
  "refusal_taken e s m actor g r \<longleftrightarrow> ControlTypeFromMessage (we_lib e) m = Some GroupInviteRefused
     \<and> DecodeInviteResponseFromMessage (we_lib e) m = Inr r \<and> ir_group_id r = g
     \<and> (\<exists>i. map_of (db_invites s) (ir_nonce r) = Some i \<and> \<not> pi_outbound i \<and> pi_inviter i = actor \<and> pi_group_id i = g)"

definition dropped_here :: "string \<Rightarrow> string \<Rightarrow> roster_store \<Rightarrow> roster_store \<Rightarrow> bool" where
  "dropped_here g local s t \<longleftrightarrow> rows_of g (db_changes t) = rows_of g (db_changes s)
     \<and> (rows_of g (db_rosters t) = rows_of g (db_rosters s)
        \<or> rows_of g (db_rosters t) = filter (\<lambda>m. rm_identity m \<noteq> local) (rows_of g (db_rosters s)))
     \<and> (map_of (db_targets t) g = map_of (db_targets s) g \<or> map_of (db_targets t) g = None)
     \<and> (map_of (db_metadata t) g = map_of (db_metadata s) g
        \<or> (\<exists>md epoch. map_of (db_metadata s) g = Some md
             \<and> map_of (db_metadata t) g = Some (md\<lparr>md_group_id := g, md_session_epoch := epoch, md_sync_state := Removed\<rparr>)))"

definition refused_here :: "string \<Rightarrow> string \<Rightarrow> string \<Rightarrow> string \<Rightarrow> roster_store \<Rightarrow> roster_store \<Rightarrow> bool" where
  "refused_here g reason actor local s t \<longleftrightarrow>
     (if reason = kInviteRefusedGroupDissolved
      then is_ended g \<lparr>ge_owner = actor, ge_roster_epoch = 0, ge_statement_json = [], ge_sends = []\<rparr> t
      else dropped_here g local s t)"

lemma not_came:
  "\<not> inbound_right e s m actor g \<Longrightarrow> carried_event e m actor (we_clock e n) = Some ev \<Longrightarrow> event_group ev = g \<Longrightarrow>
    \<not> event_entitled (we_crypto e) (we_json e) s ev"
  by (auto simp: inbound_right_def came_entitled_def)

lemma entitled_came: "carried_event e m actor (we_clock e n) = Some ev \<Longrightarrow> event_entitled (we_crypto e) (we_json e) s ev \<Longrightarrow>
    came_entitled e s m actor ev"
  by (auto simp: came_entitled_def)

lemma carries_in: "Option.bind (DetailOf L m) (StatementIn L) = Some st \<Longrightarrow> carries_statement L m st"
  by (auto simp: carries_statement_def Option.bind_eq_Some_conv)

subsection \<open>Events of the owner\<close>

text \<open>An event that does not come from the owner writes nothing.\<close>

definition stays :: "string \<Rightarrow> roster_store \<Rightarrow> thread_message \<Rightarrow> 'o inbound \<Rightarrow> bool" where
  "stays g s m w \<longleftrightarrow> apart g s (ww_store w) \<and> in_message w = m"

lemma holds_stays_then:
  assumes "as_came s m w" "after f (\<lambda>_. apart g s) s"
    and "\<And>x w'. stays g s m w' \<Longrightarrow> holds (F x) (\<lambda>_ w'. apart g s (ww_store w')) w'"
  shows "holds (roe_then (on_store f) F) (\<lambda>_ w'. apart g s (ww_store w')) w"
proof (rule holds_roe_then, rule holds_first [OF assms(1,2)])
  fix r :: "roe_error + 'b" and t and w' :: "'a inbound"
  assume t: "apart g s t" "clean (ww_store w') = clean t" "in_message w' = m"
  have "apart g s (ww_store w')" using t(1,2) by (metis apart_faults)
  then show "case r of Inl x \<Rightarrow> apart g s (ww_store w') | Inr x \<Rightarrow> holds (F x) (\<lambda>_ w'. apart g s (ww_store w')) w'"
    using assms(3) t(3) by (auto simp: stays_def split: sum.split)
qed

lemma unentitled_stops:
  "\<not> event_entitled cr js s (JoinedCame p actor now) \<Longrightarrow>
    after (ApplyMemberJoinedToRoster p actor now) (\<lambda>r t. t = clean s \<and> (\<exists>x. r = Inl x)) s"
  "\<not> event_entitled cr js s (TransferCame q actor now) \<Longrightarrow>
    after (ApplyOwnerTransferredToRoster q actor now) (\<lambda>r t. t = clean s \<and> (\<exists>x. r = Inl x)) s"
  "\<not> event_entitled cr js s (RemovalCame d actor) \<Longrightarrow>
    after (ApplyMemberRemovedToRoster d actor) (\<lambda>r t. t = clean s \<and> (\<exists>x. r = Inl x)) s"
  unfolding ApplyMemberJoinedToRoster_def ApplyOwnerTransferredToRoster_def ApplyMemberRemovedToRoster_def
  by (rule after_roe_then, rule after_LoadMetadataRequired; auto simp: owner_event_def RequireNewerEpoch_def
      intro!: after_ret_err after_roe_then after_return after_IsMember_row)+

lemma unentitled_rename:
  "\<not> event_entitled cr js s (RenameCame p actor) \<Longrightarrow> after (ApplyGroupRenamedToRoster p actor) (\<lambda>_ t. t = clean s) s"
  unfolding ApplyGroupRenamedToRoster_def
  by (rule after_roe_then, rule after_LoadMetadataRequired)
    (auto simp: owner_event_def intro!: after_ret_err after_ret_ok)

lemma holds_stopped:
  assumes "as_came s m w" "store_ok s" "after f (\<lambda>r t. t = clean s \<and> (\<exists>x. r = Inl x)) s"
  shows "holds (roe_then (on_store f) F) (\<lambda>_ w'. apart g s (ww_store w')) w"
  by (rule holds_roe_then, rule holds_first [OF assms(1,3)]) (auto split: sum.split intro: clean_apart assms(2))

lemma apart_within: "store_ok s \<Longrightarrow> after f (\<lambda>_. within h s) s \<Longrightarrow> h \<noteq> g \<Longrightarrow> after f (\<lambda>_. apart g s) s"
  by (erule after_weaken) (rule apart_elsewhere [OF apart_refl])

lemma apart_events:
  assumes "store_ok s"
  shows "jp_group_id p \<noteq> g \<Longrightarrow> after (ApplyMemberJoinedToRoster p actor now) (\<lambda>_. apart g s) s"
    and "ot_group_id q \<noteq> g \<Longrightarrow> after (ApplyOwnerTransferredToRoster q actor now) (\<lambda>_. apart g s) s"
    and "mr_group_id d \<noteq> g \<Longrightarrow> after (ApplyMemberRemovedToRoster d actor) (\<lambda>_. apart g s) s"
    and "gr_group_id n \<noteq> g \<Longrightarrow> after (ApplyGroupRenamedToRoster n actor) (\<lambda>_. apart g s) s"
  by (auto intro: apart_within [OF assms in_group.keeps_joined [OF within_refl refl]]
      apart_within [OF assms in_group.keeps_transferred [OF within_refl refl]]
      apart_within [OF assms in_group.keeps_removed [OF within_refl refl]]
      apart_within [OF assms in_group.keeps_renamed [OF within_refl refl]])

lemma stays_KeepCarriedStatement:
  assumes "stays g s m w" "\<And>st. carries_statement (we_lib e) m st \<Longrightarrow> \<not> owners_statement (we_crypto e) s g st"
  shows "holds (KeepCarriedStatement e local) (\<lambda>_ w'. apart g s (ww_store w')) w"
  unfolding KeepCarriedStatement_def the_message_def
proof (rule holds_bind, rule holds_bind, rule holds_get, rule holds_return, rule holds_option, goal_cases)
  case 1
  then show ?case using assms(1) by (intro holds_nothing) (simp add: stays_def)
next
  case (2 st)
  have m: "in_message w = m" "apart g s (ww_store w)" using assms(1) by (simp_all add: stays_def)
  have st: "\<not> owners_statement (we_crypto e) s g st" using 2 m(1) by (intro assms(2) carries_in) simp
  have "world_keeps (apart g s) (State_Monad.bind (clock e) (\<lambda>now. State_Monad.bind
      (on_store (KeepAndCatchUp (we_crypto e) (we_json e) st (we_cards e) now))
      (\<lambda>kept. case kept of Inl _ \<Rightarrow> nothing
         | Inr (_, applied) \<Rightarrow> FinishView e (s_group_id st) (value_or applied nothing_applied) local True)))"
    by (intro keeps_seq keeps_asks keeps_kept [OF st] keeps_intros apart_FinishView)
      (auto simp: nothing_applied_def)
  from world_keepsD [OF this m(2)] show ?case .
qed

lemma holds_ignored:
  assumes "as_came s m w" "\<And>b w'. as_came s m w' \<Longrightarrow> Q b w'" shows "holds (ignored h local) Q w"
  unfolding ignored_def
  by (intro holds_if holds_return assms holds_bind holds_IsMember [OF assms(1)])

lemma came_clock:
  assumes "as_came s m w" "\<And>n w'. as_came s m w' \<Longrightarrow> Q (we_clock e n) w'" shows "holds (clock e) Q w"
  by (rule holds_clock) (simp add: assms)

text \<open>What follows the statement that rides along.\<close>

lemma stays_after_carried:
  assumes "stays g s m w" "\<And>st. carries_statement (we_lib e) m st \<Longrightarrow> \<not> owners_statement (we_crypto e) s g st"
    "world_keeps (apart g s) f"
  shows "holds (State_Monad.bind (KeepCarriedStatement e local) (\<lambda>_. f)) (\<lambda>_ w'. apart g s (ww_store w')) w"
  by (rule holds_bind, rule holds_weaken [OF stays_KeepCarriedStatement [OF assms(1,2)]]) (auto intro: world_keepsD assms(3))

lemma stays_rest: "stays g s m w \<Longrightarrow> world_keeps (apart g s) f \<Longrightarrow> holds f (\<lambda>_ w'. apart g s (ww_store w')) w"
  by (rule world_keepsD) (simp_all add: stays_def)

lemma inbound_removed_stays:
  assumes "as_came s m w" "store_ok s"
    and "event_entitled (we_crypto e) (we_json e) s (RemovalCame (member_removed_payload.truncate removed) actor) \<Longrightarrow>
      mr_group_id removed \<noteq> g \<and> \<not> statement_right e s m g"
  shows "holds (inbound_removed e removed actor local) (\<lambda>_ w'. apart g s (ww_store w')) w"
  unfolding inbound_removed_def
proof (rule holds_bind, rule holds_ignored [OF assms(1)], rule holds_if, goal_cases)
  case (1 skip w')
  then show ?case by (intro holds_ret_ok as_came_apart assms(2))
next
  case (2 skip w')
  show ?case
  proof (cases "event_entitled (we_crypto e) (we_json e) s (RemovalCame (member_removed_payload.truncate removed) actor)")
    case True
    note other = assms(3) [OF this]
    have rest: "world_keeps (apart g s) (if local \<noteq> [] \<and> mr_identity removed = local then MarkRemovedHere (mr_group_id removed) else nothing)"
      using other by (intro keeps_intros apart_MarkRemovedHere) simp
    have carried: "\<not> owners_statement (we_crypto e) s g st" if "carries_statement (we_lib e) m st" for st
      using other that by (auto simp: statement_right_def)
    show ?thesis
      by (rule holds_stays_then [OF 2(1) apart_events(3) [OF assms(2)]], simp add: other member_removed_payload.defs,
          erule stays_after_carried, erule carried)
        (intro keeps_seq keeps_intros rest)
  qed (rule holds_stopped [OF 2(1) assms(2) unentitled_stops(3)])
qed

lemma inbound_renamed_stays:
  assumes "as_came s m w" "store_ok s"
    and "event_entitled (we_crypto e) (we_json e) s (RenameCame renamed actor) \<Longrightarrow> gr_group_id renamed \<noteq> g"
  shows "holds (inbound_renamed e renamed actor local) (\<lambda>_ w'. apart g s (ww_store w')) w"
  unfolding inbound_renamed_def
proof (rule holds_bind, rule holds_ignored [OF assms(1)], rule holds_if, goal_cases)
  case (1 skip w')
  then show ?case by (intro holds_ret_ok as_came_apart assms(2))
next
  case (2 skip w')
  have applied: "after (ApplyGroupRenamedToRoster renamed actor) (\<lambda>_. apart g s) s"
  proof (cases "event_entitled (we_crypto e) (we_json e) s (RenameCame renamed actor)")
    case False
    show ?thesis by (rule after_weaken [OF unentitled_rename [OF False]]) (simp add: apart_refl assms(2))
  qed (intro apart_events(4) assms(2,3))
  show ?case
    by (rule holds_stays_then [OF 2(1) applied], erule stays_rest) (intro keeps_seq keeps_intros)
qed

lemma inbound_transferred_stays:
  assumes "as_came s m w" "store_ok s"
    and "\<And>n. event_entitled (we_crypto e) (we_json e) s (TransferCame transferred actor (we_clock e n)) \<Longrightarrow> ot_group_id transferred \<noteq> g"
  shows "holds (inbound_transferred e transferred actor local) (\<lambda>_ w'. apart g s (ww_store w')) w"
  unfolding inbound_transferred_def
proof (rule holds_bind, rule holds_ignored [OF assms(1)], rule holds_if, goal_cases)
  case (1 skip w')
  then show ?case by (intro holds_ret_ok as_came_apart assms(2))
next
  case (2 skip w')
  show ?case
  proof (rule holds_bind, rule came_clock [OF 2(1)], goal_cases)
    case (1 n w')
    have applied: "after (ApplyOwnerTransferredToRoster transferred actor (we_clock e n)) (\<lambda>_. apart g s) s"
    proof (cases "event_entitled (we_crypto e) (we_json e) s (TransferCame transferred actor (we_clock e n))")
      case False
      show ?thesis by (rule after_weaken [OF unentitled_stops(2) [OF False]]) (auto simp: apart_refl assms(2))
    qed (rule apart_events(2) [OF assms(2)], erule assms(3))
    show ?case
      by (rule holds_stays_then [OF 1 applied], erule stays_rest) (intro keeps_seq keeps_intros)
  qed
qed

lemma as_came_set_outcome:
  "as_came s m w \<Longrightarrow> (\<And>w'. as_came s m w' \<Longrightarrow> holds f Q w') \<Longrightarrow> holds (State_Monad.bind (set_outcome u) (\<lambda>_. f)) Q w"
  unfolding set_outcome_def by (rule holds_bind, rule holds_update) simp

lemma as_came_message: "as_came s m w \<Longrightarrow> holds (f m) Q w \<Longrightarrow> holds (State_Monad.bind the_message f) Q w"
  unfolding the_message_def by (rule holds_bind, rule holds_bind, rule holds_get, rule holds_return) (simp add: as_came_def)

lemma as_came_on_roster:
  "as_came s m w \<Longrightarrow> (\<And>b w'. as_came s m w' \<Longrightarrow> (b \<Longrightarrow> is_member s h i) \<Longrightarrow> Q b w') \<Longrightarrow> holds (on_roster h i) Q w"
  unfolding on_roster_def by (rule holds_bind, erule holds_IsMember) (auto simp: is_true_def intro!: holds_return)

text \<open>The bundle we join by.\<close>

lemma JoinByStatement_keeps:
  assumes "jm_group_id joined \<noteq> g" "\<not> owners_statement (we_crypto e) s g st"
  shows "world_keeps (apart g s) (JoinByStatement e joined st detail actor local)"
proof -
  have check: "world_keeps (apart g s) (on_store (CheckJoin cr js st cs cards now i))" for cr js cs cards now i
    by (rule keeps_on_store, simp, unfold CheckJoin_def Let_def, rule after_roe_then, rule after_MetadataOf)
      (auto intro!: after_if after_ret_err after_ret_ok after_roe_then after_return after_bind after_HeldChanges split: sum.split)
  have hold: "world_keeps (apart g s) (on_store (HoldCarried cr js (cd_changes (ChangesIn L detail (jm_group_id joined))) cards now shown))"
    for cr js L cards now shown
    by (rule apart_after [OF assms(1)], rule in_group.keeps_HoldCarried [OF within_refl])
      (auto simp: ChangesIn_def dest: changes_read split: option.splits)
  show ?thesis
    unfolding JoinByStatement_def Let_def
    by (intro keeps_seq keeps_asks keeps_roe_then apart_prefixed check apart_KeepStatement [OF assms(2)] hold apart_ops
        assms(1) keeps_intros apart_FinishView) (simp_all add: assms(1))
qed

lemma JoinByOwner_keeps:
  assumes "jm_group_id joined \<noteq> g" shows "world_keeps (apart g s) (JoinByOwner e joined actor local)"
proof -
  have "world_keeps (apart g s) (on_store (ApplyMemberJoinedToRoster (joined_event joined) actor now))" for now
    by (rule apart_after [OF assms(1)], rule in_group.keeps_joined [OF within_refl]) (simp add: joined_event_def)
  then show ?thesis
    unfolding JoinByOwner_def by (intro keeps_seq keeps_asks keeps_roe_then keeps_intros apart_on_roster)
qed

lemma unproved_join:
  assumes "\<not> (\<not> s_dissolved st \<and> owners_statement cr s (s_group_id st) st)"
  shows "after (CheckJoin cr js st cs cards now i) (\<lambda>r t. t = clean s \<and> (\<exists>x. r = Inl x)) s"
  unfolding CheckJoin_def
proof (rule after_roe_then, rule after_MetadataOf, goal_cases)
  case (2 md epoch)
  then show ?case
    using assms
    by (cases "Verify cr st (md_owner md)")
      (auto simp: owners_statement_def intro!: after_ret_err after_roe_then after_return)
qed (auto intro: after_ret_err)

lemma JoinByStatement_stays:
  assumes "as_came s m w" "store_ok s"
    and "\<not> s_dissolved st \<Longrightarrow> owners_statement (we_crypto e) s (s_group_id st) st \<Longrightarrow> jm_group_id joined \<noteq> g \<and> s_group_id st \<noteq> g"
  shows "holds (JoinByStatement e joined st detail actor local) (\<lambda>_ w'. apart g s (ww_store w')) w"
proof (cases "\<not> s_dissolved st \<and> owners_statement (we_crypto e) s (s_group_id st) st")
  case True
  with assms(3) show ?thesis
    by (intro holds_apart [OF assms(1,2)] JoinByStatement_keeps) (auto simp: owners_statement_def)
next
  case False
  show ?thesis
    unfolding JoinByStatement_def Let_def prefixed_def
    by (rule holds_bind, rule came_clock [OF assms(1)], rule holds_roe_then, rule holds_bind,
        erule holds_first [OF _ unproved_join [OF False]])
      (auto intro!: holds_return clean_apart [OF _ assms(2)] split: roe_error.split)
qed

lemma ApplyJoinBundle_stays:
  assumes "as_came s m w" "store_ok s" "\<not> inbound_right e s m actor g"
    and "ControlTypeFromMessage (we_lib e) m = Some MemberJoined" "DecodeMemberJoinedFromMessage (we_lib e) m = Inr joined"
    and "local = value_or (ie_account e) []" "local \<noteq> []" "jm_identity joined = local"
  shows "holds (ApplyJoinBundle e joined actor local) (\<lambda>_ w'. apart g s (ww_store w')) w"
  unfolding ApplyJoinBundle_def Let_def
proof (rule holds_bind, rule holds_LoadMetadata [OF assms(1)], goal_cases)
  case (3 md epoch w')
  have joined: "\<not> event_entitled (we_crypto e) (we_json e) s (JoinedCame (joined_event joined) actor (we_clock e n))"
    if "jm_group_id joined = g" for n
    by (rule not_came [OF assms(3)]) (use assms(4,5) that in \<open>simp_all add: carried_event_def joined_event_def\<close>)
  have by_owner: "holds (JoinByOwner e joined actor local) (\<lambda>_ w'. apart g s (ww_store w')) w'"
    if came: "as_came s m w'" for w'
  proof (cases "jm_group_id joined = g")
    case True
    show ?thesis
      unfolding JoinByOwner_def
      by (rule holds_bind, rule came_clock [OF came], erule holds_stopped [OF _ assms(2) unentitled_stops(1) [OF joined [OF True]]])
  qed (rule holds_apart [OF came assms(2)], rule JoinByOwner_keeps)
  let ?word = "md_owner md = actor \<or> invited_here s (jm_invite_nonce joined) actor (jm_group_id joined) local"
  have rest: "holds (State_Monad.bind the_message (\<lambda>m. case Option.bind (DetailOf (we_lib e) m) (StatementIn (we_lib e)) of
        None \<Rightarrow> if X then ret_err x else JoinByOwner e joined actor local
      | Some st \<Rightarrow> JoinByStatement e joined st (value_or (DetailOf (we_lib e) m) []) actor local))
    (\<lambda>_ w'. apart g s (ww_store w')) w''" if came: "as_came s m w''" and word: ?word for w'' X x
  proof (rule as_came_message [OF came], rule holds_option, goal_cases)
    case 1
    show ?case by (intro holds_if holds_ret_err as_came_apart [OF came assms(2)] by_owner came)
  next
    case (2 st)
    show ?case
    proof (rule JoinByStatement_stays [OF came assms(2)])
      assume st: "\<not> s_dissolved st" "owners_statement (we_crypto e) s (s_group_id st) st"
      have "\<not> bundle_right e s m actor g"
        using assms(3,4) by (simp add: inbound_right_def)
      then show "jm_group_id joined \<noteq> g \<and> s_group_id st \<noteq> g"
        using st carries_in [OF 2] assms(5-8) word 3(2) unfolding bundle_right_def owner_event_def by fastforce
    qed
  qed
  have inviter: "holds (if jm_invite_nonce joined = [] then State_Monad.return False
      else State_Monad.bind (on_store (LoadPendingInvite (jm_invite_nonce joined))) (\<lambda>pending.
        State_Monad.return (invited_by pending actor (jm_group_id joined) local)))
      (\<lambda>b w'. as_came s m w' \<and> (b \<longrightarrow> invited_here s (jm_invite_nonce joined) actor (jm_group_id joined) local)) w'"
    by (intro holds_if holds_bind holds_return holds_LoadPendingInvite [OF 3(1)]) (auto simp: invited_by_def invited_here_def 3(1))
  show ?case
    unfolding sum.case option.case
  proof (rule holds_bind, rule holds_weaken [OF inviter], rule holds_if, goal_cases)
    case (1 b w'')
    then show ?case by (intro holds_ret_err as_came_apart [OF _ assms(2)]) simp
  next
    case (2 b w'')
    then show ?case by (intro rest) auto
  qed
qed (auto intro!: holds_ret_err as_came_apart [OF _ assms(2)])

lemma inbound_joined_stays:
  assumes "as_came s m w" "store_ok s" "\<not> inbound_right e s m actor g"
    and "ControlTypeFromMessage (we_lib e) m = Some MemberJoined" "DecodeMemberJoinedFromMessage (we_lib e) m = Inr joined"
    and "local = value_or (ie_account e) []"
  shows "holds (inbound_joined e joined actor local) (\<lambda>_ w'. apart g s (ww_store w')) w"
  unfolding inbound_joined_def
proof (rule holds_bind, rule holds_ignored [OF assms(1)], intro holds_if, goal_cases)
  case (1 skip w')
  then show ?case by (intro holds_ret_ok as_came_apart assms(2))
next
  case (2 skip w')
  then show ?case by (intro ApplyJoinBundle_stays [OF _ assms(2-6)]) simp_all
next
  case (3 skip w')
  show ?case
  proof (rule holds_bind, rule came_clock [OF 3(1)], goal_cases)
    case (1 n w')
    let ?ev = "JoinedCame (joined_event joined) actor (we_clock e n)"
    have ev: "carried_event e m actor (we_clock e n) = Some ?ev"
      using assms(4,5) by (simp add: carried_event_def)
    show ?case
    proof (cases "event_entitled (we_crypto e) (we_json e) s ?ev")
      case True
      have other: "jm_group_id joined \<noteq> g" using not_came [OF assms(3) ev] True by (auto simp: joined_event_def)
      have "\<not> statement_right e s m g"
        using assms(3,4) entitled_came [OF ev True] by (auto simp: inbound_right_def)
      then have carried: "\<not> owners_statement (we_crypto e) s g st" if "carries_statement (we_lib e) m st" for st
        using that by (auto simp: statement_right_def)
      show ?thesis
        by (rule holds_stays_then [OF 1 apart_events(1) [OF assms(2)]], simp add: other joined_event_def,
            erule stays_after_carried, erule carried)
          (intro keeps_seq keeps_intros apart_on_roster)
    qed (rule holds_stopped [OF 1 assms(2) unentitled_stops(1)])
  qed
qed

subsection \<open>Statements, settings and dissolves\<close>

lemma holds_decoded:
  "as_came s m w \<Longrightarrow> store_ok s \<Longrightarrow> (\<And>x. r = Inr x \<Longrightarrow> holds (f x) (\<lambda>_ w'. apart g s (ww_store w')) w) \<Longrightarrow>
    holds (roe_then (State_Monad.return r) f) (\<lambda>_ w'. apart g s (ww_store w')) w"
  by (rule holds_roe_then, rule holds_return) (auto split: sum.split intro: as_came_apart)

lemma not_sent:
  "\<not> sent_statement e s m actor g \<Longrightarrow> is_member s (s_group_id st) (value_or (ie_account e) []) \<Longrightarrow>
    carries_statement (we_lib e) m st \<Longrightarrow> s_owner st = actor \<Longrightarrow> \<not> owners_statement (we_crypto e) s g st"
  by (auto simp: sent_statement_def owners_statement_def)

lemma ApplyRosterStatement_stays:
  assumes "as_came s m w" "store_ok s" "\<not> sent_statement e s m actor g" "local = value_or (ie_account e) []"
  shows "holds (ApplyRosterStatement e actor local) (\<lambda>_ w'. apart g s (ww_store w')) w"
  unfolding ApplyRosterStatement_def
proof (rule as_came_set_outcome [OF assms(1)], rule as_came_message, assumption, rule holds_option, goal_cases)
  case (1 w')
  then show ?case by (intro holds_ret_err as_came_apart [OF _ assms(2)])
next
  case (2 w' detail)
  show ?case
  proof (rule holds_decoded [OF 2(1) assms(2)], rule holds_bind, rule as_came_on_roster [OF 2(1)], rule holds_if, goal_cases)
    case (1 st b w'')
    then show ?case by (intro holds_ret_ok as_came_apart [OF _ assms(2)])
  next
    case (2 st b w'')
    have st: "\<not> owners_statement (we_crypto e) s g st"
      using 2 \<open>DetailOf (we_lib e) m = Some detail\<close> assms(4)
      by (intro not_sent [OF assms(3)]) (auto simp: carries_statement_def)
    show ?case
      by (rule holds_apart [OF 2(2) assms(2)])
        (intro keeps_seq keeps_asks keeps_kept [OF st] keeps_intros apart_FinishView, auto simp: nothing_applied_def)
  qed
qed

lemma ApplyGroupSettingChanged_stays:
  assumes "as_came s m w" "store_ok s" "\<not> sent_statement e s m actor g" "local = value_or (ie_account e) []"
  shows "holds (ApplyGroupSettingChanged e kind actor local) (\<lambda>_ w'. apart g s (ww_store w')) w"
  unfolding ApplyGroupSettingChanged_def
proof (rule as_came_message [OF assms(1)], rule holds_decoded [OF assms(1,2)], goal_cases)
  case (1 parts)
  obtain h detail_json display agrees where parts: "parts = (h, detail_json, display, agrees)" by (cases parts)
  have rest: "world_keeps (apart g s) (case Option.bind (DetailOf (we_lib e) m) (StatementIn (we_lib e)) of
      None \<Rightarrow> ret_err ''group setting: not from the owner its roster names''
    | Some st \<Rightarrow>
        if s_group_id st \<noteq> h \<or> s_owner st \<noteq> actor
        then ret_err ''group setting: not from the owner its roster names''
        else if \<not> agrees st then ret_err ''group setting: the event does not match the roster it carries''
        else do {
          now \<leftarrow> clock e;
          roe_then (on_store (KeepAndCatchUp (we_crypto e) (we_json e) st (we_cards e) now)) (\<lambda>(kept, applied).
            if \<not> kept then ret_ok ()
            else do {
              FinishView e h (value_or applied nothing_applied) local False;
              group_line e h kind display detail_json actor;
              ret_ok ()
            })
        })" if inside: "is_member s h local"
  proof (intro keeps_option keeps_ret keeps_if keeps_seq keeps_asks, goal_cases)
    case (1 st now)
    then have st: "\<not> owners_statement (we_crypto e) s g st"
      using inside assms(4) by (intro not_sent [OF assms(3)] carries_in) auto
    show ?case
      unfolding roe_then_def
      by (rule keeps_kept [OF st]) (intro keeps_seq keeps_intros apart_FinishView, use 1 in \<open>auto simp: nothing_applied_def\<close>)
  qed
  show ?case
    unfolding parts prod.case
  proof (rule holds_bind, rule as_came_on_roster [OF assms(1)], rule holds_if, goal_cases)
    case (1 b w')
    then show ?case by (intro holds_ret_ok as_came_apart [OF _ assms(2)])
  next
    case (2 b w')
    then show ?case by (intro holds_apart [OF _ assms(2)] rest) simp_all
  qed
qed

lemma ApplyGroupDissolved_stays:
  assumes "as_came s m w" "store_ok s" "\<not> inbound_right e s m actor g"
    and "ControlTypeFromMessage (we_lib e) m = Some GroupDissolved" "local = value_or (ie_account e) []"
  shows "holds (ApplyGroupDissolved e actor local) (\<lambda>_ w'. apart g s (ww_store w')) w"
  unfolding ApplyGroupDissolved_def
proof (rule as_came_set_outcome [OF assms(1)], rule as_came_message, assumption, rule holds_option, goal_cases)
  case (1 w')
  then show ?case by (intro holds_ret_err as_came_apart [OF _ assms(2)])
next
  case (2 w' detail)
  show ?case
  proof (rule holds_decoded [OF 2(1) assms(2)], goal_cases)
    case (1 st)
    have ev: "carried_event e m actor (we_clock e 0) = Some (DissolveCame st actor local)"
      using 1 2 assms(4,5) by (simp add: carried_event_def)
    have "s_group_id st = g \<Longrightarrow> \<not> (dissolve_entitled (we_crypto e) (we_json e) s st local \<and> s_owner st = actor \<and> actor \<noteq> [])"
      using not_came [OF assms(3) ev] by auto
    then have "world_keeps (apart g s) (on_store (ApplyGroupDissolvedToRoster (we_crypto e) (we_json e) st actor local))"
      unfolding ApplyGroupDissolvedToRoster_def
      by (intro keeps_on_store, simp) (rule after_apart_dissolve)
    then show ?case
      by (intro holds_apart [OF 2(1) assms(2)]) (intro keeps_seq keeps_intros)
  qed
qed

subsection \<open>Invites\<close>

lemma ApplyInviteDeclined_keeps: "world_keeps (apart g s) (ApplyInviteDeclined e response actor)"
proof -
  have "world_keeps (apart g s) (on_store (ApplyInviteDeclineToRoster n i h))" for n i h
  proof (rule keeps_on_store)
    show "after (ApplyInviteDeclineToRoster n i h) (\<lambda>_. apart g s) t" if t: "apart g s t" for t
    proof -
      have "after (UpdateInviteStatus n Declined) (\<lambda>_. apart g s) t"
        unfolding UpdateInviteStatus_def
        by (rule after_roe_then, rule after_db_write_unchecked)
          (use t in \<open>auto intro!: after_ret_ok apart_invites simp: apart_def [of g s t]\<close>)
      then show ?thesis
        unfolding ApplyInviteDeclineToRoster_def
        by (intro after_roe_then after_LoadPendingInvite) (auto simp: t intro: after_ret_err)
    qed
  qed simp
  then show ?thesis unfolding ApplyInviteDeclined_def by (intro keeps_seq keeps_intros)
qed

text \<open>An accept touches neither held changes nor targets.\<close>

definition same_held :: "roster_store \<Rightarrow> roster_store \<Rightarrow> bool" where
  "same_held s t \<longleftrightarrow> db_changes t = db_changes s \<and> db_targets t = db_targets s"

lemma same_held_writes [simp]:
  "same_held s s" "same_held s (t\<lparr>db_faults := fs\<rparr>) = same_held s t" "same_held s (t\<lparr>db_invites := i\<rparr>) = same_held s t"
  "same_held s (t\<lparr>db_rosters := x\<rparr>) = same_held s t" "same_held s (t\<lparr>db_metadata := y\<rparr>) = same_held s t"
  "same_held s (NotifyChanged c t) = same_held s t"
  by (simp_all add: same_held_def NotifyChanged_def)

lemma same_held_then:
  assumes "after m (\<lambda>_. same_held s) t" and "\<And>x u. same_held s u \<Longrightarrow> after (f x) (\<lambda>_. same_held s) u"
  shows "after (roe_then m f) (\<lambda>_. same_held s) t" "after (State_Monad.bind m (\<lambda>_. f x)) (\<lambda>_. same_held s) t"
  using assms by (auto intro!: after_roe_then after_bind elim!: after_weaken split: sum.split)

lemma same_held_steps:
  assumes "same_held s t"
  shows "after (UpsertMember g m) (\<lambda>_. same_held s) t" "after (UpsertMetadata md) (\<lambda>_. same_held s) t"
    and "after (UpdateInviteStatus n st) (\<lambda>_. same_held s) t" "after (ExpireOutboundInvitesTo g i) (\<lambda>_. same_held s) t"
    and "after (LoadPendingInvite n) (\<lambda>_. same_held s) t" "after (LoadMetadata g) (\<lambda>_. same_held s) t"
    and "after (FindMember g i) (\<lambda>_. same_held s) t" "after (ListMembers g) (\<lambda>_. same_held s) t"
  unfolding UpsertMember_def UpsertMetadata_def UpdateInviteStatus_def ExpireOutboundInvitesTo_def set_status_def
  by (auto intro!: after_roe_then after_db_write after_db_write_unchecked after_ret_ok after_LoadPendingInvite after_LoadMetadata
      after_FindMember after_ListMembers simp: assms)

lemma same_held_accept: "after (ApplyInviteAcceptToRoster n m g l now) (\<lambda>_. same_held s) s"
proof -
  have rets: "after (ret_ok x) (\<lambda>_. same_held s) t" "after (ret_err y) (\<lambda>_. same_held s) t" if "same_held s t" for x y t
    using that by (auto intro: after_ret_ok after_ret_err)
  have listed: "after (State_Monad.bind (ListMembers h) f) (\<lambda>_. same_held s) t"
    if "same_held s t" "\<And>x u. same_held s u \<Longrightarrow> after (f x) (\<lambda>_. same_held s) u" for h t and f :: "_ \<Rightarrow> _ store_op"
    by (rule after_bind, rule after_weaken [OF same_held_steps(8) [OF that(1)]]) (rule that(2))
  note steps = same_held_steps same_held_then rets after_if listed
  have check: "after (CheckAcceptedInvite i m g now) (\<lambda>_. same_held s) t" if "same_held s t" for i t
    unfolding CheckAcceptedInvite_def using that by (intro steps)
  have add: "after (AddAsOwner i md m l now) (\<lambda>_. same_held s) t" if "same_held s t" for i md l t
    unfolding AddAsOwner_def using that by (intro steps)
  show ?thesis
    unfolding ApplyInviteAcceptToRoster_def
    by (intro same_held_then(1) same_held_steps same_held_writes; auto intro!: steps check add split: option.split)
qed

lemma ApplyInviteAccepted_stays:
  assumes "as_came s m w" "store_ok s"
    and "\<And>n. ir_group_id response = g \<Longrightarrow>
      \<not> event_entitled (we_crypto e) (we_json e) s (AcceptCame (ir_nonce response) actor g local (we_clock e n))"
  shows "holds (ApplyInviteAccepted e response actor local) (\<lambda>_ w'. apart g s (ww_store w')) w"
proof -
  have applied: "after (ApplyInviteAcceptToRoster (ir_nonce response) actor (ir_group_id response) local (we_clock e n)) (\<lambda>_. apart g s) s" for n
  proof (cases "ir_group_id response = g")
    case False
    show ?thesis by (rule apart_within [OF assms(2) in_group.keeps_accept [OF within_refl] False])
  next
    case True
    show ?thesis
      unfolding True
      by (rule after_weaken [OF after_conj [OF after_conj [OF entitled_accept [where cr = "we_crypto e" and js = "we_json e"]
            same_held_accept] in_group.keeps_accept [OF within_refl]]])
        (use assms(2) assms(3) [OF True] in \<open>auto simp: apart_def same_group_def same_roster_def same_held_def within_def
            simp del: event_entitled.simps\<close>)
  qed
  show ?thesis
    unfolding ApplyInviteAccepted_def
    by (rule holds_bind, rule came_clock [OF assms(1)], rule holds_bind, erule holds_first [OF _ applied])
      (rule world_keepsD, intro keeps_seq keeps_intros; auto split: roe_error.split invite_accepted.split intro!: keeps_seq keeps_intros intro: apart_eq)
qed

lemma drop_refused_keeps: "ir_group_id refused \<noteq> g \<Longrightarrow> world_keeps (apart g s) (drop_refused_group e refused actor local)"
  unfolding drop_refused_group_def
  by (intro keeps_seq keeps_loaded keeps_intros apart_ops) auto

lemma end_refused_keeps: "ir_group_id refused \<noteq> g \<Longrightarrow> world_keeps (apart g s) (end_refused_group e refused actor)"
  unfolding end_refused_group_def
  by (intro keeps_seq keeps_intros apart_ops)

text \<open>A refusal of the group's own invite: the group ends here, or we drop out of it.\<close>

lemma is_ended_notified [simp]: "is_ended g ending (NotifyChanged c t) = is_ended g ending t"
  by (simp add: is_ended_def NotifyChanged_def)

lemma dropped_here_notified [simp]:
  "dropped_here g local s (NotifyChanged c t) = dropped_here g local s t"
  "dropped_here g local s (t\<lparr>db_faults := fs\<rparr>) = dropped_here g local s t"
  by (simp_all add: dropped_here_def NotifyChanged_def)

lemma end_refused_bounded:
  fixes actor g :: string
  defines "ending \<equiv> \<lparr>ge_owner = actor, ge_roster_epoch = 0, ge_statement_json = [], ge_sends = []\<rparr>"
  defines "P \<equiv> \<lambda>s t. store_ok t \<and> (same_group g s t \<or> is_ended g ending t)"
  assumes "ir_group_id refused = g"
  shows "world_keeps (P s) (end_refused_group e refused actor)"
proof -
  have clean: "P s (t\<lparr>db_faults := fs\<rparr>) = P s t" for t fs
    by (simp add: P_def same_group_def is_ended_def)
  have "after (EndGroupInRoster g actor 0 [] []) (\<lambda>_. P s) t" if t: "P s t" for t
  proof -
    have ended: "P s (NotifyChanged c (ended_store g ending t))" if "map_of (db_metadata t) g = Some md" for c md
      using t ended_store_ended [OF _ that, of ending] shape.R_ended [of t g ending]
      by (auto simp: P_def is_ended_notified)
    show ?thesis
      unfolding EndGroupInRoster_def ending_def [symmetric]
      by (rule after_roe_then, rule after_EndGroup) (auto simp: clean t intro!: after_ret_ok ended)
  qed
  then have "world_keeps (P s) (on_store (EndGroupInRoster g actor 0 [] []))"
    by (intro keeps_on_store) (simp_all add: clean)
  then show ?thesis
    unfolding end_refused_group_def assms(3) set_outcome_def
    by (intro keeps_seq keeps_intros keeps_note_line) simp_all
qed

lemma rows_of_gone:
  "rosters_ok t \<Longrightarrow> rows_of g (om_erase (g, i) t) = filter (\<lambda>m. rm_identity m \<noteq> i) (rows_of g t)"
proof (induction "(g, i)" t rule: om_erase.induct)
  case (2 a b m)
  obtain h j where a: "a = (h, j)" by (cases a)
  from 2(2) have m: "rosters_ok m" and new: "\<forall>(k, x) \<in> set m. a < k \<and> rm_identity x = snd k" and b: "rm_identity b = j"
    by (auto simp: rosters_ok_def a)
  show ?case
  proof (cases "(g, i) = a")
    case True
    have "filter (\<lambda>x. rm_identity x \<noteq> i) (rows_of g m) = rows_of g m"
      by (rule filter_True) (use new True in \<open>force simp: rows_of_def a\<close>)
    then show ?thesis using True b by (simp add: rows_of_def a)
  next
    case False
    with 2(1) [OF False m] b show ?thesis by (auto simp: rows_of_def a)
  qed
qed (simp add: rows_of_def)

lemma dropped_here_writes:
  assumes "dropped_here g local s t"
  shows "rows_of g rs = filter (\<lambda>m. rm_identity m \<noteq> local) (rows_of g (db_rosters t)) \<Longrightarrow> dropped_here g local s (t\<lparr>db_rosters := rs\<rparr>)"
    and "map_of ts g = None \<Longrightarrow> dropped_here g local s (t\<lparr>db_targets := ts\<rparr>)"
    and "map_of (db_metadata t) g = Some md \<Longrightarrow> map_of mds g = Some (md\<lparr>md_group_id := g, md_session_epoch := epoch, md_sync_state := Removed\<rparr>)
      \<Longrightarrow> dropped_here g local s (t\<lparr>db_metadata := mds\<rparr>)"
proof -
  let ?f = "filter (\<lambda>m. rm_identity m \<noteq> local)"
  from assms have rows: "?f (rows_of g (db_rosters t)) = ?f (rows_of g (db_rosters s))"
    unfolding dropped_here_def by (elim conjE disjE) simp_all
  from assms have row: "map_of (db_metadata t) g = map_of (db_metadata s) g \<or> (\<exists>md epoch. map_of (db_metadata s) g = Some md
      \<and> map_of (db_metadata t) g = Some (md\<lparr>md_group_id := g, md_session_epoch := epoch, md_sync_state := Removed\<rparr>))"
    unfolding dropped_here_def by (elim conjE)
  show "rows_of g rs = ?f (rows_of g (db_rosters t)) \<Longrightarrow> dropped_here g local s (t\<lparr>db_rosters := rs\<rparr>)"
    using assms unfolding rows dropped_here_def by (elim conjE, intro conjI) simp_all
  show "map_of ts g = None \<Longrightarrow> dropped_here g local s (t\<lparr>db_targets := ts\<rparr>)"
    using assms unfolding dropped_here_def by (elim conjE, intro conjI) simp_all
  assume md: "map_of (db_metadata t) g = Some md" "map_of mds g = Some (md\<lparr>md_group_id := g, md_session_epoch := epoch, md_sync_state := Removed\<rparr>)"
  from row have "\<exists>md epoch. map_of (db_metadata s) g = Some md
      \<and> map_of mds g = Some (md\<lparr>md_group_id := g, md_session_epoch := epoch, md_sync_state := Removed\<rparr>)"
    unfolding md(2) using md(1) by (elim disjE exE conjE) (metis, force)
  then show "dropped_here g local s (t\<lparr>db_metadata := mds\<rparr>)"
    using assms unfolding dropped_here_def by (elim conjE, intro conjI) simp_all
qed

lemma drop_refused_bounded:
  fixes local g :: string
  assumes "ir_group_id refused = g"
  defines "P \<equiv> \<lambda>s t. store_ok t \<and> dropped_here g local s t"
  shows "world_keeps (P s) (drop_refused_group e refused actor local)"
proof -
  have clean [simp]: "P s (t\<lparr>db_faults := fs\<rparr>) = P s t" "P s (NotifyChanged c t) = P s t" for t fs c
    by (simp_all add: P_def)
  have gone: "P s (t\<lparr>db_rosters := om_erase (g, local) (db_rosters t)\<rparr>)" if "P s t" for t
    using that unfolding P_def by (intro conjI dropped_here_writes(1) rows_of_gone) simp_all
  have cleared: "P s (t\<lparr>db_targets := om_erase g (db_targets t)\<rparr>)" if "P s t" for t
    using that unfolding P_def by (intro conjI dropped_here_writes(2)) (simp_all add: map_of_om_erase om_ok_targets)
  have removed: "P s (t\<lparr>db_metadata := om_put g (md\<lparr>md_group_id := g, md_session_epoch := epoch, md_sync_state := Removed\<rparr>) (db_metadata t)\<rparr>)"
    if "P s t" "map_of (db_metadata t) g = Some md" for t md epoch
    using that unfolding P_def by (intro conjI dropped_here_writes(3) [OF _ that(2)]) (simp_all add: shape.R_metadata)
  have member: "world_keeps (P s) (on_store (RemoveMember g local))"
    unfolding RemoveMember_def
    by (rule keeps_on_store, simp, rule after_get, rule after_roe_then, rule after_db_write_unchecked)
      (auto simp: gone intro!: after_intros after_bind)
  have target: "world_keeps (P s) (on_store (ClearGroupTarget g))"
    unfolding ClearGroupTarget_def
    by (rule keeps_on_store, simp, rule after_roe_then, rule after_db_write_unchecked) (auto simp: cleared intro!: after_ret_ok)
  have marked: "world_keeps (P s) (State_Monad.bind (on_store (LoadMetadata g)) (\<lambda>metadata. State_Monad.bind
      (case metadata of Inr (Some md) \<Rightarrow> ignore (on_store (UpsertMetadata (md\<lparr>md_sync_state := Removed\<rparr>))) | _ \<Rightarrow> nothing)
      (\<lambda>_. rest)))" if rest: "world_keeps (P s) rest" for rest :: "('a, unit) inbound_op"
  proof (rule world_keepsI, rule holds_bind, rule holds_on_store, rule after_LoadMetadata)
    fix w :: "'a inbound" assume w: "P s (ww_store w)"
    have plain: "world_keeps (P s) (State_Monad.bind nothing (\<lambda>_. rest))" by (intro keeps_seq keeps_intros rest)
    show "\<forall>fs. holds (State_Monad.bind (case Inl x of Inr (Some md) \<Rightarrow> ignore (on_store (UpsertMetadata (md\<lparr>md_sync_state := Removed\<rparr>)))
        | _ \<Rightarrow> nothing) (\<lambda>_. rest)) (\<lambda>_ w'. P s (ww_store w')) (w\<lparr>ww_store := clean (ww_store w)\<lparr>db_faults := fs\<rparr>\<rparr>)" for x
      using world_keepsD [OF plain] w by simp
    show "\<forall>fs. holds (State_Monad.bind (case Inr None of Inr (Some md) \<Rightarrow> ignore (on_store (UpsertMetadata (md\<lparr>md_sync_state := Removed\<rparr>)))
        | _ \<Rightarrow> nothing) (\<lambda>_. rest)) (\<lambda>_ w'. P s (ww_store w')) (w\<lparr>ww_store := clean (ww_store w)\<lparr>db_faults := fs\<rparr>\<rparr>)"
      using world_keepsD [OF plain] w by simp
    show "\<forall>fs. holds (State_Monad.bind (case Inr (Some (md\<lparr>md_group_id := g, md_session_epoch := epoch\<rparr>)) of
          Inr (Some md) \<Rightarrow> ignore (on_store (UpsertMetadata (md\<lparr>md_sync_state := Removed\<rparr>))) | _ \<Rightarrow> nothing) (\<lambda>_. rest))
        (\<lambda>_ w'. P s (ww_store w')) (w\<lparr>ww_store := clean (ww_store w)\<lparr>db_faults := fs\<rparr>\<rparr>)"
      if md: "map_of (db_metadata (ww_store w)) g = Some md" for md epoch
      unfolding sum.case option.case
    proof (intro allI, rule holds_bind, unfold ignore_def, rule holds_bind, rule holds_on_store, unfold UpsertMetadata_def,
        rule after_db_write, goal_cases)
      case (1 fs x)
      then show ?case using w by (auto intro!: holds_return world_keepsD [OF rest])
    next
      case (2 fs)
      have "P s (ww_store w\<lparr>db_faults := fs'\<rparr>)" for fs' using w by simp
      from removed [OF this, where md = md] md 2 show ?case by (auto intro!: holds_return world_keepsD [OF rest])
    qed
  qed
  show ?thesis
    unfolding drop_refused_group_def assms(1) set_outcome_def
    by (intro keeps_seq keeps_intros member target marked) simp_all
qed

definition bounded_here :: "('o, 'v) inbound_env \<Rightarrow> roster_store \<Rightarrow> thread_message \<Rightarrow> string \<Rightarrow> string \<Rightarrow> roster_store \<Rightarrow> bool" where
  "bounded_here e s m actor g t \<longleftrightarrow> store_ok t \<and> (same_group g s t
     \<or> (\<exists>r. refusal_taken e s m actor g r \<and> refused_here g (ir_reason r) actor (value_or (ie_account e) []) s t))"

lemma apart_bounded: "apart g s t \<Longrightarrow> bounded_here e s m actor g t"
  by (simp add: apart_def bounded_here_def)

lemma ApplyInviteRefused_bounded:
  assumes "as_came s m w" "store_ok s" "ControlTypeFromMessage (we_lib e) m = Some GroupInviteRefused"
    and "local = value_or (ie_account e) []"
  shows "holds (ApplyInviteRefused e actor local) (\<lambda>_ w'. bounded_here e s m actor g (ww_store w')) w"
  unfolding ApplyInviteRefused_def
proof (rule as_came_message [OF assms(1)], rule holds_roe_then, rule holds_return,
    cases "DecodeInviteResponseFromMessage (we_lib e) m", simp_all only: sum.case, goal_cases)
  case (1 x)
  show ?case by (intro apart_bounded as_came_apart [OF assms(1,2)])
next
  case (2 refused)
  note stopped = apart_bounded [OF as_came_apart [OF _ assms(2)]]
  let ?rest = "\<lambda>refused. do {
         ignore (on_store (UpdateInviteStatus (ir_nonce refused) Expired));
         (if ir_reason refused = kInviteRefusedGroupDissolved then end_refused_group e refused actor
          else drop_refused_group e refused actor local);
         ret_ok ()
       }"
  have rest: "holds (?rest refused) (\<lambda>_ w'. bounded_here e s m actor g (ww_store w')) w'"
    if came: "as_came s m w'" and row: "map_of (db_invites s) (ir_nonce refused) = Some i" "\<not> pi_outbound i" "pi_inviter i = actor"
      "pi_group_id i = ir_group_id refused" for w' i
  proof (cases "ir_group_id refused = g")
    case False
    have "world_keeps (apart g s) (?rest refused)"
      by (intro keeps_seq keeps_intros end_refused_keeps drop_refused_keeps False)
    from world_keepsD [OF this as_came_apart [OF came assms(2)]] show ?thesis
      by (rule holds_weaken) (rule apart_bounded)
  next
    case True
    have taken: "refusal_taken e s m actor g refused"
      using True row assms(3) 2 by (auto simp: refusal_taken_def)
    have bounded: "bounded_here e s m actor g t"
      if "store_ok t" "same_group g s t \<or> refused_here g (ir_reason refused) actor local s t" for t
      using that taken assms(4) by (auto simp: bounded_here_def)
    let ?P = "\<lambda>t. store_ok t \<and> (same_group g s t \<or> refused_here g (ir_reason refused) actor local s t)"
    have same: "dropped_here g local s t" if "same_group g s t" for t
      using that by (simp add: dropped_here_def same_group_def)
    have kept: "world_keeps ?P (if ir_reason refused = kInviteRefusedGroupDissolved then end_refused_group e refused actor
        else drop_refused_group e refused actor local)"
      using end_refused_bounded [where s = s and actor = actor and e = e, OF True]
        drop_refused_bounded [where s = s and local = local and actor = actor and e = e, OF True] same
      by (auto simp: refused_here_def world_keeps_def)
    show ?thesis
      by (rule holds_bind, rule holds_weaken [OF world_keepsD [where P = "apart g s", OF _ as_came_apart [OF came assms(2)]]], intro keeps_intros,
          rule holds_weaken [OF world_keepsD [where P = ?P]], intro keeps_seq kept keeps_intros)
        (auto simp: apart_def intro: bounded)
  qed
  show ?case
  proof (rule holds_bind, rule holds_LoadPendingInvite [OF assms(1)], goal_cases)
    case (1 x w')
    then show ?case by (simp add: holds_ret_err stopped)
  next
    case (2 w')
    then show ?case by (simp add: holds_ret_err stopped)
  next
    case (3 p w')
    show ?case
    proof (rule holds_if, goal_cases)
      case 1
      show ?case by (rule holds_ret_err) (rule stopped [OF 3(1)])
    next
      case 2
      then show ?case by (intro rest [OF 3]) simp_all
    qed
  qed
qed

lemma inbound_invite_keeps: "world_keeps (apart g s) (inbound_invite e gate invite actor local)"
proof -
  have known: "world_keeps (apart g s) (known_group h local)" for h
    unfolding known_group_def by (intro keeps_roe_then keeps_intros)
  have allows: "world_keeps (apart g s) (on_store (AllowsInboundInvite gate invite t t'))" for t t'
    by (rule apart_same, unfold AllowsInboundInvite_def Let_def)
      (intro after_if after_ret_ok refl after_roe_then after_weaken [OF same_reads(5)], auto split: sum.split intro: after_ret_ok)
  have kept: "world_keeps (apart g s) (on_store (UpsertPendingInvite p))" for p
  proof (rule keeps_on_store)
    show "after (UpsertPendingInvite p) (\<lambda>_. apart g s) t" if "apart g s t" for t
      unfolding UpsertPendingInvite_def
      by (rule after_db_write) (use that in \<open>auto intro!: apart_invites simp: apart_def [of g s t]\<close>)
  qed simp
  show ?thesis
    unfolding inbound_invite_def
    by (intro keeps_seq keeps_asks keeps_roe_then known allows kept keeps_intros) simp
qed

subsection \<open>Changes\<close>

lemma not_held_refused:
  assumes "\<not> may_be_held cr c cards now"
  shows "after (ReceiveChange cr js c cards now) (\<lambda>r t. t = clean s \<and> (\<forall>x. r = Inr x \<longrightarrow> rcv_held x = Refused)) s"
  unfolding ReceiveChange_def HoldChange_def
  by (rule after_roe_then, rule after_roe_then, rule after_LoadMetadata)
    (use assms in \<open>auto simp: may_be_held_def split: list.splits option.splits intro!: after_ret_ok\<close>)

lemma TakeChange_stays:
  assumes "as_came s m w" "store_ok s"
    "\<And>n. c_group_id c = g \<Longrightarrow> \<not> may_be_held (we_crypto e) c (we_cards e) (we_clock e n)"
  shows "holds (TakeChange e c local) (\<lambda>_ w'. apart g s (ww_store w')) w"
  unfolding TakeChange_def
proof (rule holds_bind, rule came_clock [OF assms(1)], goal_cases)
  case (1 n w')
  show ?case
  proof (cases "c_group_id c = g")
    case True
    show ?thesis
      by (rule holds_roe_then, rule holds_first [OF 1 not_held_refused [OF assms(3) [OF True]]])
        (auto split: sum.split intro!: holds_ret_err intro: clean_apart assms(2))
  next
    case False
    have "world_keeps (apart g s) (on_store (ReceiveChange (we_crypto e) (we_json e) c (we_cards e) now))" for now
      by (rule apart_after [OF False]) (rule in_group.keeps_ReceiveChange [OF within_refl _ refl])
    then show ?thesis
      by (intro holds_apart [OF 1 assms(2)] keeps_roe_then keeps_seq keeps_intros apart_FinishView) (use False in simp_all)
  qed
qed

lemma ApplyGroupChange_stays:
  assumes "as_came s m w" "store_ok s" "\<not> change_right e s m actor g"
  shows "holds (ApplyGroupChange e actor (value_or (ie_account e) [])) (\<lambda>_ w'. apart g s (ww_store w')) w"
  unfolding ApplyGroupChange_def
proof (rule as_came_set_outcome [OF assms(1)], rule as_came_message, assumption, rule holds_option, goal_cases)
  case (1 w')
  then show ?case by (intro holds_ret_err as_came_apart [OF _ assms(2)])
next
  case (2 w' detail)
  show ?case
  proof (rule holds_decoded [OF 2(1) assms(2)], goal_cases)
    case (1 c)
    have right: "\<not> may_be_held (we_crypto e) c (we_cards e) (we_clock e n)"
      if "c_group_id c = g" "is_member s g (value_or (ie_account e) [])" "c_signer c = actor \<or> is_member s g actor" for n
      using assms(3) 1 2(2) that unfolding change_right_def by blast
    show ?case
    proof (rule holds_roe_then, rule holds_IsMember [OF 2(1)], goal_cases)
      case (1 x w')
      then show ?case by (simp add: as_came_apart [OF _ assms(2)])
    next
      case (2 b w')
      then show ?case
        using right
        by (auto intro!: holds_ret_ok holds_ret_err TakeChange_stays [OF _ assms(2)] holds_bind
            as_came_apart [OF _ assms(2)] holds_IsMember [where s = s and m = m] simp: is_true_def)
    qed
  qed
qed

subsection \<open>The dispatcher\<close>

lemma dispatch_stays:
  assumes "store_ok (ww_store w)" "\<not> inbound_right e (ww_store w) (in_message w) actor g"
  shows "holds (ApplyInboundMembershipMessage e actor)
    (\<lambda>_ w'. bounded_here e (ww_store w) (in_message w) actor g (ww_store w')) w"
proof -
  let ?s = "ww_store w" and ?m = "in_message w" and ?L = "we_lib e" and ?local = "value_or (ie_account e) []"
  let ?type = "ControlTypeFromMessage (we_lib e) (in_message w)"
  let ?Q = "\<lambda>_ w'. apart g ?s (ww_store w')"
  note came = as_came_refl [of w]
  note here = as_came_apart [OF came assms(1)]
  note unentitled = not_came [OF assms(2)]
  have stays: "holds (ApplyInboundMembershipMessage e actor) ?Q w" if "?type \<noteq> Some GroupInviteRefused"
  proof -
    have accepted: "holds (ApplyInviteAccepted e response actor ?local) ?Q w"
      if "?type = Some GroupInviteAccept" "DecodeInviteResponseFromMessage ?L ?m = Inr response" for response
      by (rule ApplyInviteAccepted_stays [OF came assms(1)], rule unentitled) (use that in \<open>simp_all add: carried_event_def\<close>)
    have declined: "holds (ApplyInviteDeclined e response actor) ?Q w" for response
      by (rule holds_apart [OF came assms(1) ApplyInviteDeclined_keeps])
    have invited: "holds (inbound_invite e gate invite actor ?local) ?Q w" for gate invite
      by (rule holds_apart [OF came assms(1) inbound_invite_keeps])
    have joined: "holds (inbound_joined e joined actor ?local) ?Q w"
      if "?type = Some MemberJoined" "DecodeMemberJoinedFromMessage ?L ?m = Inr joined" for joined
      by (rule inbound_joined_stays [OF came assms that refl])
    have transferred: "holds (inbound_transferred e transferred actor ?local) ?Q w"
      if "?type = Some OwnerTransferred" "DecodeOwnerTransferredFromMessage ?L ?m = Inr transferred" for transferred
    proof (rule inbound_transferred_stays [OF came assms(1)])
      fix n assume "event_entitled (we_crypto e) (we_json e) ?s (TransferCame transferred actor (we_clock e n))"
      with unentitled [of n "TransferCame transferred actor (we_clock e n)"] that show "ot_group_id transferred \<noteq> g"
        by (auto simp: carried_event_def)
    qed
    have removed: "holds (inbound_removed e removed actor ?local) ?Q w"
      if "?type = Some MemberRemoved" "DecodeMemberRemovedFromMessage ?L ?m = Inr removed" for removed
    proof (rule inbound_removed_stays [OF came assms(1)])
      let ?ev = "RemovalCame (member_removed_payload.truncate removed) actor"
      assume right: "event_entitled (we_crypto e) (we_json e) ?s ?ev"
      have ev: "carried_event e ?m actor (we_clock e n) = Some ?ev" for n using that by (simp add: carried_event_def)
      show "mr_group_id removed \<noteq> g \<and> \<not> statement_right e ?s ?m g"
        using unentitled [OF ev] entitled_came [OF ev right] right assms(2) that(1)
        by (auto simp: inbound_right_def member_removed_payload.defs)
    qed
    have renamed: "holds (inbound_renamed e renamed actor ?local) ?Q w"
      if "?type = Some GroupRenamed" "DecodeGroupRenamedFromMessage ?L ?m = Inr renamed" for renamed
    proof (rule inbound_renamed_stays [OF came assms(1)])
      assume "event_entitled (we_crypto e) (we_json e) ?s (RenameCame renamed actor)"
      with unentitled [of 0 "RenameCame renamed actor"] that show "gr_group_id renamed \<noteq> g" by (auto simp: carried_event_def)
    qed
    have change: "holds (ApplyGroupChange e actor ?local) ?Q w" if "?type = Some GroupChangeCtl"
      by (rule ApplyGroupChange_stays [OF came assms(1)]) (use assms(2) that in \<open>simp add: inbound_right_def\<close>)
    have statement: "holds (ApplyRosterStatement e actor ?local) ?Q w" if "?type = Some GroupRosterStatementCtl"
      by (rule ApplyRosterStatement_stays [OF came assms(1) _ refl]) (use assms(2) that in \<open>simp add: inbound_right_def\<close>)
    have setting: "holds (ApplyGroupSettingChanged e kind actor ?local) ?Q w"
      if "?type = Some MemberRoleChanged \<or> ?type = Some GroupPresetChanged" for kind
      by (rule ApplyGroupSettingChanged_stays [OF came assms(1) _ refl]) (use assms(2) that in \<open>auto simp: inbound_right_def\<close>)
    have dissolved: "holds (ApplyGroupDissolved e actor ?local) ?Q w" if "?type = Some GroupDissolved"
      by (rule ApplyGroupDissolved_stays [OF came assms that refl])
    note handlers = accepted declined invited joined transferred removed renamed change statement setting dissolved
    show ?thesis
      unfolding ApplyInboundMembershipMessage_def Let_def given_def
      by (rule holds_bind, rule holds_get)
        (use that here in \<open>auto intro!: handlers holds_ret_ok holds_decoded [OF came assms(1)] split: option.split control_type.split\<close>)
  qed
  show ?thesis
  proof (cases "?type = Some GroupInviteRefused")
    case True
    then show ?thesis
      unfolding ApplyInboundMembershipMessage_def Let_def
      by (intro holds_bind holds_get) (simp add: ApplyInviteRefused_bounded [OF came assms(1) True refl])
  next
    case False
    show ?thesis by (rule holds_weaken [OF stays [OF False]]) (rule apart_bounded)
  qed
qed

text \<open>A group the store knows nothing of: nobody has a right in it, and no invite is there to refuse.\<close>

lemma no_right_elsewhere:
  assumes "map_of (db_metadata s) g = None" "rows_of g (db_rosters s) = []"
    "\<And>n i. map_of (db_invites s) n = Some i \<Longrightarrow> pi_group_id i \<noteq> g"
  shows "\<not> inbound_right e s m actor g"
proof -
  have "event_group ev \<noteq> g" if "event_entitled cr js s ev" for cr js ev
    using that assms(1) by (cases ev) (auto simp: owner_event_def dissolve_entitled_def split: option.splits)
  moreover have "\<not> bundle_right e s m actor g"
    using assms(1,3) by (auto simp: bundle_right_def owner_event_def invited_here_def owners_statement_def)
  ultimately show ?thesis
    using assms(1,2) by (auto simp: inbound_right_def came_entitled_def statement_right_def sent_statement_def owners_statement_def
        change_right_def is_member_def split: option.splits control_type.splits)
qed

lemma unknown_group: "\<exists>g. \<not> inbound_right e s m actor g"
proof -
  let ?known = "fst ` set (db_metadata s) \<union> (fst \<circ> fst) ` set (db_rosters s) \<union> (pi_group_id \<circ> snd) ` set (db_invites s)"
  have known: "finite ?known" by simp
  obtain g where g: "g \<notin> ?known" using ex_new_if_finite [OF infinite_UNIV_listI known] ..
  have "\<not> inbound_right e s m actor g"
  proof (rule no_right_elsewhere)
    show "map_of (db_metadata s) g = None" using g by (auto simp: map_of_eq_None_iff)
    show "rows_of g (db_rosters s) = []" using g by (auto simp: rows_of_def filter_empty_conv image_iff)
    show "pi_group_id i \<noteq> g" if "map_of (db_invites s) n = Some i" for n i
      using g map_of_SomeD [OF that] by (force simp: image_iff)
  qed
  then show ?thesis ..
qed

text \<open>
  C11: a message that arrives changes a group only where it has the right to. Take any world (a
  well-shaped store, and whatever the chat store, the callbacks, the clock and the database do) and
  any message of any sender that \<open>ApplyInboundMembershipMessage\<close> is given. The tables keep their shape,
  and a group's metadata, members, held changes and target are the same afterwards, unless the
  message has a right in the group as the store was before, by its kind: it is a membership event of
  the group (an accept, a join, a transfer, a removal, a rename or a dissolve) that is entitled in
  the sense of C6; it is an entitled join or removal and brings a statement of the group that
  verifies for the owner we know; it is the bundle we join by, from the owner or from who invited us
  to that group, and brings such a statement; it is a statement or a setting of a group we are in,
  sent by the owner its verified statement names; or it is a change of a group we are in that may be
  held, sent by its signer or by a member. One kind needs no such right: the refusal of an invite
  that came to us from its sender to that group, whatever has become of the invite and whoever owns
  the group. What it can do is bounded: it ends our copy of the group if it says the group was
  dissolved, and otherwise takes no row but our own from the roster, clears the group's target,
  marks it removed and leaves its held changes alone.
\<close>

theorem inbound_changes_by_right:
  assumes "store_ok (ww_store w)" and run: "run_state (ApplyInboundMembershipMessage e actor) w = (r, w')"
  shows "store_ok (ww_store w') \<and> (\<forall>g. same_group g (ww_store w) (ww_store w')
    \<or> inbound_right e (ww_store w) (in_message w) actor g
    \<or> (\<exists>refused. refusal_taken e (ww_store w) (in_message w) actor g refused
        \<and> refused_here g (ir_reason refused) actor (value_or (ie_account e) []) (ww_store w) (ww_store w')))"
proof -
  have bounded: "bounded_here e (ww_store w) (in_message w) actor g (ww_store w')"
    if "\<not> inbound_right e (ww_store w) (in_message w) actor g" for g
    using holdsD [OF dispatch_stays [OF assms(1) that] run] .
  obtain g where "\<not> inbound_right e (ww_store w) (in_message w) actor g" using unknown_group by blast
  from bounded [OF this] show ?thesis using bounded unfolding bounded_here_def by blast
qed

text \<open>A stranger's word that somebody was removed.\<close>

definition sample_removed_message :: thread_message where
  "sample_removed_message = BuildSystemMessage sample_lib ''u'' 5 ''th'' MemberRemoved ''Member removed''
     (EncodeMemberRemoved sample_lib \<lparr>mr_group_id = ''g'', mr_identity = ''bob'', mr_roster_epoch = 9, mr_removed_by = ''mal''\<rparr>) ''mal''"

definition sample_outcome :: receive_outcome where
  "sample_outcome = \<lparr>ro_suppress_inbox_chrome = False, ro_about_us = AboutNone, ro_about_us_thread = [], ro_publish_group = None,
     ro_publish_member = None, ro_publish_epoch = 0, ro_publish_nonce = [], ro_refuse_group = None, ro_refuse_nonce = [],
     ro_refuse_member = [], ro_refuse_reason = [], ro_admit_group = None, ro_admit_nonce = [], ro_admit_member = [],
     ro_fold_group = None, ro_catch_up_group = None, ro_catch_up_ask = [], ro_took_group = None, ro_took_transfer = None,
     ro_dissolved_thread = None, ro_voided_cards = []\<rparr>"

definition arrived :: "roster_store \<Rightarrow> thread_message \<Rightarrow> 'o inbound" where
  "arrived s m = \<lparr>ww_store = s, ww_calls = [], ww_tick = 0, in_outcome = sample_outcome, in_message = m, in_gate = None,
     in_last_asked = []\<rparr>"

definition sample_inbound_env :: "(string, string) inbound_env" where
  "sample_inbound_env = \<lparr>we_lib = sample_lib, we_crypto = sample_crypto, we_cards = \<lambda>_. None, we_clock = int,
     we_uuid = \<lambda>_. ''id'', we_thread = \<lambda>_. Inl (Error []), we_found = \<lambda>_. Inr None, we_page = \<lambda>_. Inr [],
     we_result = \<lambda>_. Inr (), ie_account = Some ''ann'', ie_on_roster_member = True, ie_on_unknown_device = True,
     ie_on_sender_card = True\<rparr>"

theorem inbound_changes_by_right_witness:
  "same_group ''g'' sample_following (ww_store (snd (run_state (ApplyInboundMembershipMessage sample_inbound_env ''mal'')
    (arrived sample_following sample_removed_message))))"
proof -
  let ?w = "arrived sample_following sample_removed_message :: string inbound"
  let ?e = "sample_inbound_env"
  have type: "ControlTypeFromMessage (we_lib ?e) sample_removed_message = Some MemberRemoved"
    by (simp add: sample_inbound_env_def sample_removed_message_def message_carries [OF sample_lib_laws])
  have "\<not> came_entitled ?e sample_following sample_removed_message ''mal'' ev" for ev
    by (auto simp: came_entitled_def carried_event_def type owner_event_def sample_following_def sample_store_def
        empty_store_def sample_metadata_def split: sum.splits option.splits if_splits)
  then have "\<not> inbound_right ?e sample_following sample_removed_message ''mal'' ''g''"
    by (simp add: inbound_right_def type)
  moreover have "\<not> refusal_taken ?e sample_following sample_removed_message ''mal'' ''g'' refused" for refused
    by (simp add: refusal_taken_def type)
  ultimately show ?thesis
    using inbound_changes_by_right [of ?w ?e "''mal''", OF _ surjective_pairing] sample_following_ok
    by (auto simp: arrived_def)
qed

subsection \<open>A refusal\<close>

text \<open>
  The refusal of an accept is checked against the invite alone: it must have come to us from the
  sender, for this group. Neither does the invite have to be one whose accept is still open, nor its
  sender the group's owner. So whoever once invited us to a group we are in, with the owner's leave or
  as any member of an open group, can end our copy of it for good: its members go, its owner becomes
  the sender, and nothing opens it again.
\<close>

lemma store_stays: "world_keeps P m \<Longrightarrow> P (ww_store w) \<Longrightarrow> P (ww_store (snd (run_state m w)))"
  by (simp add: world_keeps_def)

theorem refusal_ends_group:
  assumes "store_ok (ww_store w)" "db_faults (ww_store w) = []"
    and "ControlTypeFromMessage (we_lib e) (in_message w) = Some GroupInviteRefused"
    and "DecodeInviteResponseFromMessage (we_lib e) (in_message w) = Inr refused"
    and "ir_reason refused = kInviteRefusedGroupDissolved"
    and "map_of (db_invites (ww_store w)) (ir_nonce refused) = Some i"
    and "\<not> pi_outbound i" "pi_inviter i = actor" "pi_group_id i = ir_group_id refused"
    and "map_of (db_metadata (ww_store w)) (ir_group_id refused) = Some md" "md_sync_state md \<noteq> Dissolved"
  shows "is_ended (ir_group_id refused) \<lparr>ge_owner = actor, ge_roster_epoch = 0, ge_statement_json = [], ge_sends = []\<rparr>
    (ww_store (snd (run_state (ApplyInboundMembershipMessage e actor) w)))"
proof -
  let ?ending = "\<lparr>ge_owner = actor, ge_roster_epoch = 0, ge_statement_json = [], ge_sends = []\<rparr>"
  let ?ended = "is_ended (ir_group_id refused) ?ending"
  define s where "s = (ww_store w)\<lparr>db_invites := map (\<lambda>(n, i). (n, if n = ir_nonce refused then i\<lparr>pi_status := Expired\<rparr> else i))
    (db_invites (ww_store w))\<rparr>"
  have s: "store_ok s" "db_faults s = []" "db_metadata s = db_metadata (ww_store w)"
    using assms(1,2) by (auto simp: s_def)
  have pending: "run_state (on_store (LoadPendingInvite (ir_nonce refused))) w = (Inr (Some (i\<lparr>pi_nonce := ir_nonce refused\<rparr>)), w)"
    using assms(2,6) by (simp add: on_store_def LoadPendingInvite_def run_rules)
  have expired: "run_state (ignore (on_store (UpdateInviteStatus (ir_nonce refused) Expired))) w = ((), w\<lparr>ww_store := s\<rparr>)"
    using assms(2) by (simp add: ignore_def on_store_def UpdateInviteStatus_def run_rules s_def)
  let ?t = "NotifyChanged \<lparr>rc_group_id = ir_group_id refused, rc_member_gone = [], rc_ended = True\<rparr> (ended_store (ir_group_id refused) ?ending s)"
  have "run_state (EndGroupInRoster (ir_group_id refused) actor 0 [] []) s
      = (Inr \<lparr>da_applied = True, da_voided = voided_invites (ir_group_id refused) s\<rparr>, ?t)"
    using s(2) assms(10,11) by (simp add: EndGroupInRoster_def run_rules s(3) run_EndGroup_ok)
  then have ended: "run_state (on_store (EndGroupInRoster (ir_group_id refused) actor 0 [] [])) (w\<lparr>ww_store := s\<rparr>)
      = (Inr \<lparr>da_applied = True, da_voided = voided_invites (ir_group_id refused) s\<rparr>, w\<lparr>ww_store := ?t\<rparr>)"
    by (simp add: on_store_def)
  have over: "?ended ?t"
    using s assms(10,11) by (auto intro: ended_store_ended)
  have last: "world_keeps ?ended (do { note_dissolved_line e (ir_group_id refused) actor; set_outcome u; ret_ok () })" for u
    unfolding set_outcome_def by (intro keeps_seq keeps_note_line keeps_intros) simp
  show ?thesis
    using store_stays [OF last, of "w\<lparr>ww_store := ?t\<rparr>"] over assms(3-5,7-9)
    by (simp add: ApplyInboundMembershipMessage_def Let_def ApplyInviteRefused_def the_message_def run_rules pending
        expired end_refused_group_def ended)
qed

end
