(* ===== verification/GroupInviteLink.thy ===== *)
theory GroupInviteLink
  imports GroupRosterStatement
begin

section \<open>Invite links\<close>

text \<open>
  Models \<open>GroupInviteLink.cpp\<close>: the text form of an invite link, found again in any text it was pasted
  into, and the hash of its secret. Hex, base64url and BLAKE2b-256 (\<open>CryptoUtil.h\<close>, another repository)
  are the record \<open>link_lib\<close>; \<open>link_laws\<close> says that the two encodings are read back and that base64url
  writes the characters \<open>IsBase64UrlChar\<close> accepts. The random bytes of \<open>Mint\<close> are arguments.
\<close>

record link_lib =
  ll_to_hex :: "bytes \<Rightarrow> string"
  ll_from_hex :: "string \<Rightarrow> bytes option"
  ll_to_url :: "bytes \<Rightarrow> string"
  ll_from_url :: "string \<Rightarrow> bytes option"
  ll_blake2b :: "bytes \<Rightarrow> bytes"

text \<open>\<open>std::isalnum\<close> and \<open>std::isgraph\<close> of the C locale.\<close>

definition isalnum :: "char \<Rightarrow> bool" where
  "isalnum c = (let n = of_char c :: nat in 48 \<le> n \<and> n \<le> 57 \<or> 65 \<le> n \<and> n \<le> 90 \<or> 97 \<le> n \<and> n \<le> 122)"

definition isgraph :: "char \<Rightarrow> bool" where
  "isgraph c = (let n = of_char c :: nat in 33 \<le> n \<and> n \<le> 126)"

definition IsBase64UrlChar :: "char \<Rightarrow> bool" where
  "IsBase64UrlChar c \<longleftrightarrow> isalnum c \<or> c = CHR ''-'' \<or> c = CHR ''_''"

definition link_laws :: "link_lib \<Rightarrow> bool" where
  "link_laws K \<longleftrightarrow> (\<forall>b. ll_from_hex K (ll_to_hex K b) = Some b) \<and> (\<forall>b. ll_from_url K (ll_to_url K b) = Some b)
     \<and> (\<forall>b. list_all IsBase64UrlChar (ll_to_url K b))"

subsection \<open>The text form\<close>

definition kGroupJoinLinkPrefix :: string where
  "kGroupJoinLinkPrefix = ''pp://join/''"

definition kLinkIdBytes :: nat where
  "kLinkIdBytes = 16"

definition kSecretBytes :: nat where
  "kSecretBytes = 16"

definition kMaxMakerBytes :: nat where
  "kMaxMakerBytes = 128"

definition kFixedBytes :: nat where
  "kFixedBytes = kLinkIdBytes + kSecretBytes + 8"

record join_link =
  gj_link_id :: string
  gj_secret :: bytes
  gj_expires_at :: time_ms
  gj_maker :: string

definition Mint :: "link_lib \<Rightarrow> bytes \<Rightarrow> bytes \<Rightarrow> string \<Rightarrow> time_ms \<Rightarrow> join_link" where
  "Mint K id_bytes secret maker expires_at = \<lparr>gj_link_id = ll_to_hex K id_bytes, gj_secret = secret,
     gj_expires_at = expires_at, gj_maker = maker\<rparr>"

definition link_bytes :: "link_lib \<Rightarrow> join_link \<Rightarrow> bytes" where
  "link_bytes K link =
     (case ll_from_hex K (gj_link_id link) of
        Some i \<Rightarrow> if length i = kLinkIdBytes then i else replicate kLinkIdBytes 0
      | None \<Rightarrow> replicate kLinkIdBytes 0)
     @ gj_secret link @ put_time (if gj_expires_at link < 0 then 0 else gj_expires_at link)
     @ bytes_of_string (gj_maker link)"

definition EncodeLink :: "link_lib \<Rightarrow> join_link \<Rightarrow> string" where
  "EncodeLink K link = kGroupJoinLinkPrefix @ ll_to_url K (link_bytes K link)"

text \<open>\<open>text.find(prefix)\<close>: what follows the first place where the prefix stands.\<close>

fun after_first :: "string \<Rightarrow> string \<Rightarrow> string option" where
  "after_first p [] = (if p = [] then Some [] else None)"
| "after_first p (c # cs) =
     (if take (length p) (c # cs) = p then Some (drop (length p) (c # cs)) else after_first p cs)"

definition read_u64 :: "bytes \<Rightarrow> u64" where
  "read_u64 bs = foldl (\<lambda>v b. push_bit 8 v OR ucast b) 0 bs"

definition read_link :: "link_lib \<Rightarrow> bytes \<Rightarrow> join_link roe" where
  "read_link K b =
     (let expires = read_u64 (take 8 (drop (kLinkIdBytes + kSecretBytes) b));
          maker = text_of_bytes (drop kFixedBytes b)
      in if length b \<le> kFixedBytes \<or> length b > kFixedBytes + kMaxMakerBytes
         then Inl (Error ''Invite link has the wrong length'')
         else if expires = 0 \<or> expires > 2 ^ 63 - 1 then Inl (Error ''Invite link has no expiry'')
         else if take 8 maker \<noteq> ''account:'' \<or> length maker = 8 then Inl (Error ''Invite link names no account'')
         else if \<exists>c \<in> set maker. \<not> isgraph c then Inl (Error ''Invite link names no account'')
         else Inr \<lparr>gj_link_id = ll_to_hex K (take kLinkIdBytes b), gj_secret = take kSecretBytes (drop kLinkIdBytes b),
           gj_expires_at = uint expires, gj_maker = maker\<rparr>)"

definition FindLink :: "link_lib \<Rightarrow> string \<Rightarrow> join_link roe" where
  "FindLink K text =
     (case after_first kGroupJoinLinkPrefix text of
        None \<Rightarrow> Inl (Error ''No invite link'')
      | Some rest \<Rightarrow> (case ll_from_url K (takeWhile IsBase64UrlChar rest) of
          None \<Rightarrow> Inl (Error ''Invite link does not decode'')
        | Some b \<Rightarrow> read_link K b))"

subsection \<open>The secret\<close>

definition kSecretHashTag :: string where
  "kSecretHashTag = ''pp-browser:group-link-secret-v1''"

definition put_bytes :: "bytes \<Rightarrow> bytes" where
  "put_bytes bs = put_u32 (word_of_nat (length bs)) @ bs"

definition secret_preimage :: "string \<Rightarrow> bytes \<Rightarrow> bytes" where
  "secret_preimage link_id secret = put_string kSecretHashTag @ put_string link_id @ put_bytes secret"

definition SecretHash :: "link_lib \<Rightarrow> string \<Rightarrow> bytes \<Rightarrow> string" where
  "SecretHash K link_id secret = ll_to_hex K (ll_blake2b K (secret_preimage link_id secret))"

text \<open>\<open>sodium_memcmp\<close> is equality.\<close>

definition SecretMatches :: "link_lib \<Rightarrow> invite_link \<Rightarrow> bytes \<Rightarrow> bool" where
  "SecretMatches K link secret \<longleftrightarrow> SecretHash K (l_link_id link) secret = l_secret_hash link"

definition SecretsEqual :: "bytes \<Rightarrow> bytes \<Rightarrow> bool" where
  "SecretsEqual a b \<longleftrightarrow> a \<noteq> [] \<and> a = b"

subsection \<open>Finding a link again\<close>

definition link_fine :: "link_lib \<Rightarrow> join_link \<Rightarrow> bool" where
  "link_fine K l \<longleftrightarrow> (\<exists>rid. length rid = kLinkIdBytes \<and> gj_link_id l = ll_to_hex K rid)
     \<and> length (gj_secret l) = kSecretBytes \<and> 0 < gj_expires_at l \<and> gj_expires_at l < 2 ^ 63
     \<and> take 8 (gj_maker l) = ''account:'' \<and> length (gj_maker l) \<noteq> 8 \<and> length (gj_maker l) \<le> kMaxMakerBytes
     \<and> list_all isgraph (gj_maker l)"

lemma after_first_length: "after_first p s = Some r \<Longrightarrow> length p \<le> length s"
  by (induction p s rule: after_first.induct) (auto split: if_splits dest: arg_cong [of _ _ length])

lemma after_first_append: "after_first p s = Some r \<Longrightarrow> after_first p (s @ t) = Some (r @ t)"
proof (induction p s rule: after_first.induct)
  case (1 p)
  then show ?case by (cases t) (auto split: if_splits)
next
  case (2 p c cs)
  have "length p \<le> length (c # cs)" by (rule after_first_length [OF "2.prems"])
  then have "take (length p) ((c # cs) @ t) = take (length p) (c # cs)"
    and "drop (length p) ((c # cs) @ t) = drop (length p) (c # cs) @ t"
    by (simp_all only: take_append drop_append diff_is_0_eq [THEN iffD2] take_0 drop_0 append_Nil2)
  with 2 show ?case by (auto simp del: take_Suc_Cons drop_Suc_Cons split: if_splits)
qed

text \<open>Each byte read brings the value one byte further.\<close>

lemma read_step: "push_bit 8 (drop_bit (k + 8) v) OR ucast (ucast (drop_bit k v) :: byte) = drop_bit k (v :: u64)"
proof (rule bit_word_eqI)
  fix n :: nat
  assume "n < LENGTH(64)"
  then show "bit (push_bit 8 (drop_bit (k + 8) v) OR ucast (ucast (drop_bit k v) :: byte)) n = bit (drop_bit k v) n"
    by (cases "n < 8") (auto simp: bit_simps intro!: arg_cong [where f = "bit v"] dest: bit_imp_le_length)
qed

lemma read_put_u64: "read_u64 (put_u64 v) = v"
proof -
  have "drop_bit 64 v = 0" by (rule bit_word_eqI) (auto simp: bit_simps dest: bit_imp_le_length)
  then show ?thesis
    using read_step [of 56 v] read_step [of 48 v] read_step [of 40 v] read_step [of 32 v]
      read_step [of 24 v] read_step [of 16 v] read_step [of 8 v] read_step [of 0 v]
    by (simp add: read_u64_def put_u64_def)
qed

lemma account_length: "take 8 m = ''account:'' \<Longrightarrow> 8 \<le> length m"
  by (drule arg_cong [of _ _ length]) simp

text \<open>The bytes of a fine link, and what is read of them.\<close>

lemma link_bytes_fine:
  assumes laws: "link_laws K" and fine: "link_fine K l"
  obtains rid where "length rid = kLinkIdBytes" "gj_link_id l = ll_to_hex K rid"
    and "link_bytes K l = rid @ gj_secret l @ put_time (gj_expires_at l) @ bytes_of_string (gj_maker l)"
proof -
  from fine obtain rid where rid: "length rid = kLinkIdBytes" "gj_link_id l = ll_to_hex K rid"
    by (auto simp: link_fine_def)
  then show ?thesis using that laws fine by (simp add: link_bytes_def link_laws_def link_fine_def)
qed

lemma time_u64: "0 \<le> t \<Longrightarrow> t < 2 ^ 63 \<Longrightarrow> uint (u64_of_time t) = t"
  by (simp add: u64_of_time_def uint_word_of_int)

lemma read_link_bytes:
  assumes laws: "link_laws K" and fine: "link_fine K l"
  shows "read_link K (link_bytes K l) = Inr l"
proof -
  obtain rid where rid: "length rid = kLinkIdBytes" "gj_link_id l = ll_to_hex K rid"
    and b: "link_bytes K l = rid @ gj_secret l @ put_time (gj_expires_at l) @ bytes_of_string (gj_maker l)"
    by (rule link_bytes_fine [OF laws fine])
  let ?e = "u64_of_time (gj_expires_at l)"
  have e: "uint ?e = gj_expires_at l" using fine by (simp add: time_u64 link_fine_def)
  have pos: "?e \<noteq> 0" using e fine by (auto simp: link_fine_def)
  have small: "\<not> ?e > 2 ^ 63 - 1" using e fine by (simp add: word_less_def link_fine_def)
  have maker: "8 < length (gj_maker l)"
    using fine account_length [of "gj_maker l"] by (auto simp: link_fine_def)
  show ?thesis
    unfolding read_link_def Let_def b
    using fine rid maker pos small
    by (cases "gj_maker l") (simp_all add: link_fine_def kLinkIdBytes_def kSecretBytes_def kFixedBytes_def kMaxMakerBytes_def put_time_def
        read_put_u64 e list_all_iff)
qed

lemma read_link_fine: "read_link K b = Inr l \<Longrightarrow> link_fine K l"
  unfolding read_link_def Let_def guard_Inr
proof (elim conjE, goal_cases)
  case 1
  let ?e = "read_u64 (take 8 (drop (kLinkIdBytes + kSecretBytes) b))"
  from 1 have l: "gj_link_id l = ll_to_hex K (take kLinkIdBytes b)" "gj_secret l = take kSecretBytes (drop kLinkIdBytes b)"
      "gj_expires_at l = uint ?e" "gj_maker l = text_of_bytes (drop kFixedBytes b)"
    by (auto simp del: take_drop)
  have size: "kFixedBytes < length b" "length b \<le> kFixedBytes + kMaxMakerBytes" using 1 by auto
  have "0 < uint ?e" "uint ?e < 2 ^ 63"
    using 1 by (auto simp: not_less word_le_def uint_0_iff less_le [of 0] simp del: take_drop)
  then show ?case
    using 1 size unfolding link_fine_def l
    by (auto simp: kFixedBytes_def kLinkIdBytes_def kSecretBytes_def text_of_bytes_def list_all_iff
        intro!: exI [of _ "take 16 b"])
qed

subsection \<open>The secret's hash\<close>

lemma secret_preimage_injective:
  assumes "short_string i" "short_string j" and "secret_preimage i a = secret_preimage j b"
  shows "i = j \<and> a = b"
proof -
  have "put_string i @ put_bytes a = put_string j @ put_bytes b" using assms(3) by (simp add: secret_preimage_def)
  then have "i = j" and "put_bytes a = put_bytes b" using string_code.cancel [OF assms(1,2)] by auto
  then show ?thesis using arg_cong [of "put_bytes a" "put_bytes b" "drop 4"] by (simp add: put_bytes_def)
qed

text \<open>A link in the roster that carries the hash of a secret is matched by that secret.\<close>

lemma own_secret_matches:
  "l_link_id link = i \<Longrightarrow> l_secret_hash link = SecretHash K i secret \<Longrightarrow> SecretMatches K link secret"
  by (simp add: SecretMatches_def)

subsection \<open>A concrete library\<close>

text \<open>Both encodings as two letters per byte; the hash keeps its input.\<close>

definition letters :: "byte \<Rightarrow> string" where
  "letters b = [char_of (97 + unat b div 16), char_of (97 + unat b mod 16)]"

fun of_letters :: "string \<Rightarrow> bytes option" where
  "of_letters [] = Some []"
| "of_letters [c] = None"
| "of_letters (c # d # cs) =
     map_option (Cons (word_of_nat (16 * (of_char c - 97) + (of_char d - 97)))) (of_letters cs)"

definition sample_links :: link_lib where
  "sample_links = \<lparr>ll_to_hex = \<lambda>bs. concat (map letters bs), ll_from_hex = of_letters,
     ll_to_url = \<lambda>bs. concat (map letters bs), ll_from_url = of_letters, ll_blake2b = \<lambda>bs. bs\<rparr>"

lemma nibbles: "unat (b :: byte) div 16 < 16" "unat b mod 16 < 16" "16 * (unat b div 16) + unat b mod 16 = unat b"
  using unsigned_less [of b, where ?'a = nat] by (auto simp: less_mult_imp_div_less)

lemma of_letters_letters: "of_letters (concat (map letters bs)) = Some bs"
proof (induction bs)
  case (Cons b bs)
  then show ?case using nibbles [of b] by (simp add: letters_def)
qed simp

lemma letters_are_link_chars: "list_all IsBase64UrlChar (concat (map letters bs))"
proof (induction bs)
  case (Cons b bs)
  then show ?case
    using nibbles(1,2) [of b] less_imp_le_nat by (fastforce simp: letters_def IsBase64UrlChar_def isalnum_def Let_def)
qed simp

lemma sample_links_laws: "link_laws sample_links"
  by (simp add: link_laws_def sample_links_def of_letters_letters letters_are_link_chars)

end
