(* ===== verification/GroupLinkJoin.thy ===== *)
theory GroupLinkJoin
  imports MembershipCodec GroupInviteLink
begin

section \<open>Joining by an invite link\<close>

text \<open>
  Models \<open>GroupLinkJoin.cpp\<close> and \<open>GroupLinkJoinFamily.cpp\<close>: the four messages of a join by link, how the
  answering device judges a request, and the limits on what it answers. The dereferences of
  \<open>JudgeJoin\<close> are written out: a null pointer or an empty optional would make the result \<open>None\<close>.
\<close>

subsection \<open>The messages\<close>

datatype join_refusal = JoinExpired | JoinRevoked | JoinUsedUp | JoinRemoved | JoinGroupFull | JoinRate

record join_request =
  jq_request_id :: string
  jq_link_id :: string
  jq_secret :: bytes

record join_preview =
  jv_request_id :: string
  jv_group_id :: string
  jv_owner :: string
  jv_group_title :: string
  jv_member_count :: u64
  jv_device :: string

record join_refused =
  jr_request_id :: string
  jr_reason :: join_refusal

record join_confirm =
  jc_request_id :: string
  jc_device :: string

datatype join_message =
    JoinRequest join_request
  | JoinPreview join_preview
  | JoinRefused join_refused
  | JoinConfirm join_confirm

definition kRefusalWords :: "(join_refusal \<times> string) list" where
  "kRefusalWords = [(JoinExpired, ''expired''), (JoinRevoked, ''revoked''), (JoinUsedUp, ''used_up''),
     (JoinRemoved, ''removed''), (JoinGroupFull, ''group_full''), (JoinRate, ''rate'')]"

definition RefusalToString :: "join_refusal \<Rightarrow> string" where
  "RefusalToString reason = (case List.find (\<lambda>(r, _). r = reason) kRefusalWords of
     None \<Rightarrow> ''revoked'' | Some (_, word) \<Rightarrow> word)"

definition RefusalFromString :: "string \<Rightarrow> join_refusal" where
  "RefusalFromString v = (case List.find (\<lambda>(_, word). v = word) kRefusalWords of
     None \<Rightarrow> JoinRevoked | Some (r, _) \<Rightarrow> r)"

definition kGroupJoinRequestType :: string where "kGroupJoinRequestType = ''group_join_request''"
definition kGroupJoinPreviewType :: string where "kGroupJoinPreviewType = ''group_join_preview''"
definition kGroupJoinRefusedType :: string where "kGroupJoinRefusedType = ''group_join_refused''"
definition kGroupJoinConfirmType :: string where "kGroupJoinConfirmType = ''group_join_confirm''"

fun JoinTypeWord :: "join_message \<Rightarrow> string" where
  "JoinTypeWord (JoinRequest _) = kGroupJoinRequestType"
| "JoinTypeWord (JoinPreview _) = kGroupJoinPreviewType"
| "JoinTypeWord (JoinRefused _) = kGroupJoinRefusedType"
| "JoinTypeWord (JoinConfirm _) = kGroupJoinConfirmType"

fun JoinDetailOf :: "link_lib \<Rightarrow> ('o, 'v) json_lib \<Rightarrow> join_message \<Rightarrow> 'o" where
  "JoinDetailOf K L (JoinRequest m) = set_text L ''secret'' (ll_to_hex K (jq_secret m))
     (set_text L ''link_id'' (jq_link_id m) (set_text L ''request_id'' (jq_request_id m) (jl_empty L)))"
| "JoinDetailOf K L (JoinPreview m) = set_text L ''device'' (jv_device m)
     (set_uint L ''member_count'' (jv_member_count m)
     (set_text L ''group_title'' (jv_group_title m)
     (set_text L ''owner'' (jv_owner m)
     (set_text L ''group_id'' (jv_group_id m) (set_text L ''request_id'' (jv_request_id m) (jl_empty L))))))"
| "JoinDetailOf K L (JoinRefused m) = set_text L ''reason'' (RefusalToString (jr_reason m))
     (set_text L ''request_id'' (jr_request_id m) (jl_empty L))"
| "JoinDetailOf K L (JoinConfirm m) = set_text L ''device'' (jc_device m)
     (set_text L ''request_id'' (jc_request_id m) (jl_empty L))"

definition JoinFromDetail :: "link_lib \<Rightarrow> ('o, 'v) json_lib \<Rightarrow> string \<Rightarrow> 'o \<Rightarrow> join_message roe" where
  "JoinFromDetail K L type d =
     (let request_id = value_or (get_text L d ''request_id'') []; device = value_or (get_text L d ''device'') []
      in if request_id = [] then Inl (Error ''join by link: no request id'')
         else if type = kGroupJoinRequestType then
           (let link_id = value_or (get_text L d ''link_id'') []
            in case ll_from_hex K (value_or (get_text L d ''secret'') []) of
                 None \<Rightarrow> Inl (Error ''join by link: a malformed request'')
               | Some secret \<Rightarrow> if link_id = [] \<or> length secret \<noteq> kSecretBytes
                   then Inl (Error ''join by link: a malformed request'')
                   else Inr (JoinRequest \<lparr>jq_request_id = request_id, jq_link_id = link_id, jq_secret = secret\<rparr>))
         else if type = kGroupJoinPreviewType then
           (let p = \<lparr>jv_request_id = request_id, jv_group_id = value_or (get_text L d ''group_id'') [],
                  jv_owner = value_or (get_text L d ''owner'') [], jv_group_title = value_or (get_text L d ''group_title'') [],
                  jv_member_count = value_or (get_uint L d ''member_count'') 0, jv_device = device\<rparr>
            in if jv_group_id p = [] \<or> jv_owner p = [] \<or> jv_device p = []
               then Inl (Error ''join by link: a malformed preview'') else Inr (JoinPreview p))
         else if type = kGroupJoinRefusedType then
           Inr (JoinRefused \<lparr>jr_request_id = request_id,
             jr_reason = RefusalFromString (value_or (get_text L d ''reason'') [])\<rparr>)
         else if device = [] then Inl (Error ''join by link: a confirm names no device'')
         else Inr (JoinConfirm \<lparr>jc_request_id = request_id, jc_device = device\<rparr>))"

text \<open>\<open>JoinTypeOf\<close>: the type and the payload it stands in.\<close>

definition JoinTypeOf :: "('o, 'v) json_lib \<Rightarrow> thread_message \<Rightarrow> (string \<times> 'o) option" where
  "JoinTypeOf L m =
     (if \<not> tm_system m then None
      else case jl_parse L (tm_payload_json m) of
        None \<Rightarrow> None
      | Some payload \<Rightarrow>
          let type = value_or (get_text L payload ''control_type'') []
          in if type \<noteq> kGroupJoinRequestType \<and> type \<noteq> kGroupJoinPreviewType \<and> type \<noteq> kGroupJoinRefusedType
               \<and> type \<noteq> kGroupJoinConfirmType
             then None else Some (type, payload))"

definition BuildJoin ::
  "link_lib \<Rightarrow> ('o, 'v) json_lib \<Rightarrow> string \<Rightarrow> time_ms \<Rightarrow> join_message \<Rightarrow> thread_message" where
  "BuildJoin K L uuid now m = \<lparr>tm_id = uuid, tm_thread_id = [], tm_sender = [], tm_system = True,
     tm_text = ''Group join'',
     tm_payload_json = jl_dump L (set_text L ''detail'' (jl_dump L (JoinDetailOf K L m))
       (set_text L ''control_type'' (JoinTypeWord m) (jl_empty L))),
     tm_content_rml = None, tm_chat_actions = [], tm_timestamp = now, tm_delivery = DeliveryLocal,
     tm_relay_visible = True\<rparr>"

definition ParseJoin :: "link_lib \<Rightarrow> ('o, 'v) json_lib \<Rightarrow> thread_message \<Rightarrow> join_message option roe" where
  "ParseJoin K L m =
     (case JoinTypeOf L m of
        None \<Rightarrow> Inr None
      | Some (type, payload) \<Rightarrow> (case jl_parse L (value_or (get_text L payload ''detail'') []) of
          None \<Rightarrow> Inl (Error ''join by link: no detail'')
        | Some detail \<Rightarrow> roe_bind (JoinFromDetail K L type detail) (\<lambda>parsed. Inr (Some parsed))))"

definition IsJoinMessage :: "('o, 'v) json_lib \<Rightarrow> thread_message \<Rightarrow> bool" where
  "IsJoinMessage L m \<longleftrightarrow> JoinTypeOf L m \<noteq> None"

subsection \<open>The judgement\<close>

text \<open>\<open>within_rate\<close> is the limiter's answer with its state after, where the caller asks for it.\<close>

record 's join_case =
  jk_view :: "roster_view option"
  jk_made_here_expires :: "time_ms option"
  jk_made_here_secret :: bytes
  jk_link_id :: string
  jk_secret :: bytes
  jk_joiner :: string
  jk_local :: string
  jk_now :: time_ms
  jk_within_rate :: "('s \<Rightarrow> bool \<times> 's) option"

datatype join_kind = KindAccept | KindRefuse | KindDrop

record join_judgement =
  jj_kind :: join_kind
  jj_reason :: join_refusal

definition DropJoin :: join_judgement where
  "DropJoin = \<lparr>jj_kind = KindDrop, jj_reason = JoinRevoked\<rparr>"

definition RefuseJoin :: "join_refusal \<Rightarrow> join_judgement" where
  "RefuseJoin reason = \<lparr>jj_kind = KindRefuse, jj_reason = reason\<rparr>"

definition AcceptJoin :: join_judgement where
  "AcceptJoin = \<lparr>jj_kind = KindAccept, jj_reason = JoinRevoked\<rparr>"

definition MayAdmit :: "roster_view \<Rightarrow> string \<Rightarrow> bool" where
  "MayAdmit view local = (case ViewFind view local of None \<Rightarrow> False
     | Some self \<Rightarrow> GroupAllows Invite (vm_role self) (w_preset view) Member)"

definition SecretChecks :: "link_lib \<Rightarrow> 's join_case \<Rightarrow> invite_link option \<Rightarrow> bool" where
  "SecretChecks K join known =
     (case known of
        Some link \<Rightarrow> SecretMatches K link (jk_secret join)
      | None \<Rightarrow> jk_made_here_expires join \<noteq> None \<and> SecretsEqual (jk_made_here_secret join) (jk_secret join))"

text \<open>\<open>LinkEnded\<close>; the outer \<open>None\<close> is the dereference of an empty optional.\<close>

definition LinkEnded :: "'s join_case \<Rightarrow> ended_link option \<Rightarrow> bool \<Rightarrow> join_refusal option option" where
  "LinkEnded join ended known =
     (if \<not> known then (case jk_made_here_expires join of
          None \<Rightarrow> None
        | Some t \<Rightarrow> Some (Some (if jk_now join \<ge> t then JoinExpired else JoinRevoked)))
      else case ended of
        Some e \<Rightarrow> Some (Some (if e_end e = LinkExpired then JoinExpired else JoinRevoked))
      | None \<Rightarrow> Some None)"

definition judge_view :: "'s join_case \<Rightarrow> roster_view \<Rightarrow> invite_link option \<Rightarrow> join_judgement option" where
  "judge_view join view live =
     (if \<not> MayAdmit view (jk_local join) then Some (RefuseJoin JoinRevoked)
      else case live of
        None \<Rightarrow> None
      | Some l \<Rightarrow> Some (
          if l_max_uses l > 0 \<and> l_uses l \<ge> l_max_uses l then RefuseJoin JoinUsedUp
          else if \<exists>r \<in> set (w_removed view). rv_identity r = jk_joiner join then RefuseJoin JoinRemoved
          else if \<not> ViewLists view (jk_joiner join) \<and> length (w_members view) \<ge> kMaxGroupMembers
               then RefuseJoin JoinGroupFull
          else AcceptJoin))"

definition JudgeJoin :: "link_lib \<Rightarrow> 's join_case \<Rightarrow> 's \<Rightarrow> join_judgement option \<times> 's" where
  "JudgeJoin K join s =
     (let live = Option.bind (jk_view join) (\<lambda>v. LiveLink v (jk_link_id join));
          ended = Option.bind (jk_view join) (\<lambda>v. EndedLink v (jk_link_id join));
          known = (case live of Some l \<Rightarrow> Some l | None \<Rightarrow> map_option e_link ended)
      in if \<not> SecretChecks K join known then (Some DropJoin, s)
         else let (within, s) = (case jk_within_rate join of None \<Rightarrow> (True, s) | Some f \<Rightarrow> f s)
              in (if \<not> within then Some (RefuseJoin JoinRate)
                  else case LinkEnded join ended (known \<noteq> None) of
                    None \<Rightarrow> None
                  | Some (Some why) \<Rightarrow> Some (RefuseJoin why)
                  | Some None \<Rightarrow> Option.bind (jk_view join) (\<lambda>view. judge_view join view live), s))"

subsection \<open>The group of a link\<close>

text \<open>\<open>text.find(part) != npos\<close>.\<close>

definition text_has :: "string \<Rightarrow> string \<Rightarrow> bool" where
  "text_has part text \<longleftrightarrow> after_first part text \<noteq> None"

definition MayName :: "string \<Rightarrow> string \<Rightarrow> bool store_read" where
  "MayName g link_id = do {
     metadata \<leftarrow> LoadMetadata g;
     if (case metadata of Inr (Some md) \<Rightarrow> text_has link_id (md_statement_json md) | _ \<Rightarrow> False)
     then State_Monad.return True
     else do {
       stored \<leftarrow> ListGroupChanges g;
       State_Monad.return (case stored of Inl _ \<Rightarrow> False | Inr rows \<Rightarrow> \<exists>c \<in> set rows. text_has link_id (sc_change_json c))
     }
   }"

fun find_link_group ::
  "crypto \<Rightarrow> roster_json \<Rightarrow> string \<Rightarrow> card_lookup \<Rightarrow> time_ms \<Rightarrow> string list \<Rightarrow> (string \<times> roster_view) option store_read" where
  "find_link_group cr js link_id cards now [] = State_Monad.return None"
| "find_link_group cr js link_id cards now (g # gs) = do {
     named \<leftarrow> MayName g link_id;
     if \<not> named then find_link_group cr js link_id cards now gs
     else do {
       view \<leftarrow> CurrentView cr js g cards now;
       case view of
         Some w \<Rightarrow> if LiveLink w link_id \<noteq> None \<or> EndedLink w link_id \<noteq> None
           then State_Monad.return (Some (g, w)) else find_link_group cr js link_id cards now gs
       | None \<Rightarrow> find_link_group cr js link_id cards now gs
     }
   }"

definition FindLinkGroup ::
  "crypto \<Rightarrow> roster_json \<Rightarrow> string \<Rightarrow> card_lookup \<Rightarrow> time_ms \<Rightarrow> (string \<times> roster_view) option store_read" where
  "FindLinkGroup cr js link_id cards now = do {
     ids \<leftarrow> ListGroupIds;
     case ids of
       Inl _ \<Rightarrow> State_Monad.return None
     | Inr gs \<Rightarrow> if link_id = [] then State_Monad.return None else find_link_group cr js link_id cards now gs
   }"

definition JoinRecord ::
  "string \<Rightarrow> string \<Rightarrow> string \<Rightarrow> string \<Rightarrow> string \<Rightarrow> string \<Rightarrow> time_ms \<Rightarrow> pending_group_invite" where
  "JoinRecord request_id g title owner answerer local now =
     \<lparr>pi_nonce = request_id, pi_group_id = g, pi_group_title = title, pi_inviter = answerer, pi_invitee = local,
      pi_roster_epoch = 1, pi_status = Accepted, pi_expires_at = None, pi_created_at = now, pi_outbound = False,
      pi_owner = (if owner = answerer then [] else owner)\<rparr>"

subsection \<open>Limits\<close>

definition kRequestsPerHour :: nat where
  "kRequestsPerHour = 20"

definition kRateWindowMs :: time_ms where
  "kRateWindowMs = 60 * 60 * 1000"

text \<open>\<open>JoinRequestLimiter::Allow\<close> on its map \<open>seen_\<close>.\<close>

definition AllowJoin ::
  "string \<Rightarrow> time_ms \<Rightarrow> (string \<times> time_ms list) list \<Rightarrow> bool \<times> (string \<times> time_ms list) list" where
  "AllowJoin link_id now seen =
     (let times = dropWhile (\<lambda>t. t \<le> now - kRateWindowMs) (value_or (map_of seen link_id) [])
      in if length times \<ge> kRequestsPerHour then (False, om_put link_id times seen)
         else (True, om_put link_id (times @ [now]) seen))"

definition kLogGapMs :: time_ms where
  "kLogGapMs = 60000"

record dropped_log =
  dl_count :: u64
  dl_last_logged :: "time_ms option"

definition Note :: "time_ms \<Rightarrow> dropped_log \<Rightarrow> u64 option \<times> dropped_log" where
  "Note now d =
     (let d = d\<lparr>dl_count := dl_count d + 1\<rparr>
      in if (case dl_last_logged d of None \<Rightarrow> False | Some t \<Rightarrow> now - t < kLogGapMs) then (None, d)
         else (Some (dl_count d), d\<lparr>dl_last_logged := Some now, dl_count := 0\<rparr>))"

subsection \<open>The control family\<close>

record join_handlers =
  jh_on_request :: bool
  jh_on_preview :: bool
  jh_on_refused :: bool
  jh_on_confirm :: bool

definition kJoinMaxAgeMs :: time_ms where
  "kJoinMaxAgeMs = 10 * 60 * 1000"

text \<open>The family's \<open>apply\<close>: the message handed on with its sender, where its handler is set.\<close>

definition JoinFamilyApply ::
  "link_lib \<Rightarrow> ('o, 'v) json_lib \<Rightarrow> join_handlers \<Rightarrow> thread_message \<Rightarrow> string option \<Rightarrow> string
    \<Rightarrow> (join_message \<times> string) option roe" where
  "JoinFamilyApply K L h m local_account sender = roe_bind (ParseJoin K L m) (\<lambda>parsed.
     case (parsed, local_account) of
       (Some msg, Some local) \<Rightarrow>
         if sender = [] \<or> sender = local then Inr None
         else Inr (if (case msg of JoinRequest _ \<Rightarrow> jh_on_request h | JoinPreview _ \<Rightarrow> jh_on_preview h
             | JoinRefused _ \<Rightarrow> jh_on_refused h | JoinConfirm _ \<Rightarrow> jh_on_confirm h) then Some (msg, sender) else None)
     | _ \<Rightarrow> Inr None)"

end
