(* ===== verification/LinkClaims.thy ===== *)
theory LinkClaims
  imports GroupInviteLink
begin

section \<open>What is proved of invite links\<close>

text \<open>
  C23: an invite link is found again wherever it was pasted. In a text in which the prefix does not
  stand before, and behind which no character of a link follows, \<open>Find\<close> gives back exactly the link
  that was encoded. And whatever \<open>Find\<close> accepts, of any text at all, is a well-formed link: an id and a
  secret of sixteen bytes, an expiry, and the account of a maker in printable characters; so it can be
  encoded and found again.
\<close>

theorem link_found_again:
  assumes "link_laws K"
  shows "(link_fine K l \<and> after_first kGroupJoinLinkPrefix (before @ kGroupJoinLinkPrefix) = Some []
      \<and> (behind = [] \<or> \<not> IsBase64UrlChar (hd behind)) \<longrightarrow> FindLink K (before @ EncodeLink K l @ behind) = Inr l)
    \<and> (FindLink K text = Inr l \<longrightarrow> link_fine K l \<and> FindLink K (EncodeLink K l) = Inr l)"
proof -
  have found: "FindLink K (before @ EncodeLink K l @ behind) = Inr l"
    if fine: "link_fine K l" and first: "after_first kGroupJoinLinkPrefix (before @ kGroupJoinLinkPrefix) = Some []"
      and ends: "behind = [] \<or> \<not> IsBase64UrlChar (hd behind)" for before behind
  proof -
    let ?code = "ll_to_url K (link_bytes K l)"
    have "after_first kGroupJoinLinkPrefix (before @ EncodeLink K l @ behind) = Some (?code @ behind)"
      using after_first_append [OF first, of "?code @ behind"] by (simp add: EncodeLink_def)
    moreover have "takeWhile IsBase64UrlChar (?code @ behind) = ?code"
    proof -
      have "takeWhile IsBase64UrlChar behind = []" using ends by (cases behind) auto
      then show ?thesis using assms by (simp add: takeWhile_append link_laws_def list_all_iff)
    qed
    ultimately show ?thesis using assms read_link_bytes [OF assms fine] by (simp add: FindLink_def link_laws_def)
  qed
  have fine: "link_fine K l" if "FindLink K text = Inr l"
    using that by (auto simp: FindLink_def split: option.splits intro: read_link_fine)
  have "after_first kGroupJoinLinkPrefix ([] @ kGroupJoinLinkPrefix) = Some []" by (simp add: kGroupJoinLinkPrefix_def)
  then show ?thesis using found fine found [of "[]" "[]"] by auto
qed

theorem link_found_again_witness:
  "FindLink sample_links (''join: '' @ EncodeLink sample_links
      (Mint sample_links (replicate 16 7) (replicate 16 9) ''account:ann'' 5000) @ '' !'')
    = Inr (Mint sample_links (replicate 16 7) (replicate 16 9) ''account:ann'' 5000)"
proof -
  let ?l = "Mint sample_links (replicate 16 7) (replicate 16 9) ''account:ann'' 5000"
  have "link_fine sample_links ?l"
    by (auto simp: link_fine_def Mint_def kLinkIdBytes_def kSecretBytes_def kMaxMakerBytes_def isgraph_def
        intro!: exI [of _ "replicate 16 7"])
  moreover have "after_first kGroupJoinLinkPrefix (''join: '' @ kGroupJoinLinkPrefix) = Some []"
    by (simp add: kGroupJoinLinkPrefix_def)
  moreover have "\<not> IsBase64UrlChar (hd '' !'')" by (simp add: IsBase64UrlChar_def isalnum_def)
  ultimately show ?thesis
    using link_found_again [OF sample_links_laws, of ?l "''join: ''" "'' !''"] by blast
qed

end
