(* ===== verification/JoinClaims.thy ===== *)
theory JoinClaims
  imports GroupLinkJoin LinkClaims FamilyClaims
begin

section \<open>What is proved of joining by link\<close>

subsection \<open>The messages\<close>

lemma refusal_back: "RefusalFromString (RefusalToString r) = r"
  by (cases r) (simp_all add: RefusalFromString_def RefusalToString_def kRefusalWords_def)

lemma join_types:
  "kGroupJoinPreviewType \<noteq> kGroupJoinRequestType" "kGroupJoinRefusedType \<noteq> kGroupJoinRequestType"
  "kGroupJoinRefusedType \<noteq> kGroupJoinPreviewType" "kGroupJoinConfirmType \<noteq> kGroupJoinRequestType"
  "kGroupJoinConfirmType \<noteq> kGroupJoinPreviewType" "kGroupJoinConfirmType \<noteq> kGroupJoinRefusedType"
  by (simp_all add: kGroupJoinRequestType_def kGroupJoinPreviewType_def kGroupJoinRefusedType_def kGroupJoinConfirmType_def)

fun join_fine :: "join_message \<Rightarrow> bool" where
  "join_fine (JoinRequest m) \<longleftrightarrow> jq_request_id m \<noteq> [] \<and> jq_link_id m \<noteq> [] \<and> length (jq_secret m) = kSecretBytes"
| "join_fine (JoinPreview m) \<longleftrightarrow> jv_request_id m \<noteq> [] \<and> jv_group_id m \<noteq> [] \<and> jv_owner m \<noteq> [] \<and> jv_device m \<noteq> []
     \<and> json_num (jv_member_count m)"
| "join_fine (JoinRefused m) \<longleftrightarrow> jr_request_id m \<noteq> []"
| "join_fine (JoinConfirm m) \<longleftrightarrow> jc_request_id m \<noteq> [] \<and> jc_device m \<noteq> []"

lemma join_detail_roundtrip:
  assumes "json_laws L" "link_laws K" "join_fine m"
  shows "JoinFromDetail K L (JoinTypeWord m) (JoinDetailOf K L m) = Inr m"
proof (cases m)
  case (JoinRequest q)
  then show ?thesis
    using assms
    by (simp add: JoinFromDetail_def join_types json_readers json_get [OF assms(1)] json_values [OF assms(1)] link_laws_def)
next
  case (JoinPreview q)
  then show ?thesis
    using assms
    by (simp add: JoinFromDetail_def join_types json_readers json_get [OF assms(1)] json_values [OF assms(1)] Let_def)
next
  case (JoinRefused q)
  then show ?thesis
    using assms
    by (simp add: JoinFromDetail_def join_types json_readers json_get [OF assms(1)] json_values [OF assms(1)] refusal_back)
next
  case (JoinConfirm q)
  then show ?thesis
    using assms
    by (simp add: JoinFromDetail_def join_types json_readers json_get [OF assms(1)] json_values [OF assms(1)])
qed

lemma join_type_word:
  "JoinTypeWord m \<in> {kGroupJoinRequestType, kGroupJoinPreviewType, kGroupJoinRefusedType, kGroupJoinConfirmType}"
  by (cases m) simp_all

lemma join_message_roundtrip:
  assumes "json_laws L" "link_laws K" "join_fine m"
  shows "ParseJoin K L (BuildJoin K L uuid now m) = Inr (Some m)" and "IsJoinMessage L (BuildJoin K L uuid now m)"
proof -
  let ?payload = "set_text L ''detail'' (jl_dump L (JoinDetailOf K L m))
    (set_text L ''control_type'' (JoinTypeWord m) (jl_empty L))"
  have "get_text L ?payload ''control_type'' = Some (JoinTypeWord m)"
    and detail: "get_text L ?payload ''detail'' = Some (jl_dump L (JoinDetailOf K L m))"
    by (simp_all add: json_readers json_get [OF assms(1)] json_values [OF assms(1)])
  then have "JoinTypeOf L (BuildJoin K L uuid now m) = Some (JoinTypeWord m, ?payload)"
    using join_type_word [of m] by (auto simp: JoinTypeOf_def BuildJoin_def json_values [OF assms(1)])
  then show "ParseJoin K L (BuildJoin K L uuid now m) = Inr (Some m)" "IsJoinMessage L (BuildJoin K L uuid now m)"
    using detail join_detail_roundtrip [OF assms] by (simp_all add: ParseJoin_def IsJoinMessage_def json_values [OF assms(1)])
qed

subsection \<open>The judgement\<close>

text \<open>The link the roster knows, and whether the request has its secret.\<close>

definition known_link :: "'s join_case \<Rightarrow> invite_link option" where
  "known_link join = Option.bind (jk_view join) (\<lambda>v.
     case LiveLink v (jk_link_id join) of Some l \<Rightarrow> Some l | None \<Rightarrow> map_option e_link (EndedLink v (jk_link_id join)))"

definition knows_secret :: "link_lib \<Rightarrow> 's join_case \<Rightarrow> bool" where
  "knows_secret K join \<longleftrightarrow>
     (case known_link join of
        Some l \<Rightarrow> l_secret_hash l = SecretHash K (l_link_id l) (jk_secret join)
      | None \<Rightarrow> jk_made_here_expires join \<noteq> None \<and> jk_secret join \<noteq> [] \<and> jk_made_here_secret join = jk_secret join)"

definition rate_left :: "'s join_case \<Rightarrow> 's \<Rightarrow> bool" where
  "rate_left join s = (case jk_within_rate join of None \<Rightarrow> True | Some f \<Rightarrow> fst (f s))"

definition lets_in :: "roster_view \<Rightarrow> 's join_case \<Rightarrow> bool" where
  "lets_in v join \<longleftrightarrow>
     (\<exists>l. LiveLink v (jk_link_id join) = Some l \<and> EndedLink v (jk_link_id join) = None
        \<and> (l_max_uses l = 0 \<or> l_uses l < l_max_uses l))
     \<and> (\<exists>self. ViewFind v (jk_local join) = Some self \<and> GroupAllows Invite (vm_role self) (w_preset v) Member)
     \<and> \<not> (\<exists>r \<in> set (w_removed v). rv_identity r = jk_joiner join)
     \<and> (ViewLists v (jk_joiner join) \<or> length (w_members v) < kMaxGroupMembers)"

lemma MayAdmit_iff:
  "MayAdmit v i \<longleftrightarrow> (\<exists>self. ViewFind v i = Some self \<and> GroupAllows Invite (vm_role self) (w_preset v) Member)"
  by (simp add: MayAdmit_def split: option.splits)

lemma judge_view_live:
  "\<exists>j. judge_view join v (Some l) = Some j \<and> jj_kind j \<noteq> KindDrop
    \<and> (jj_kind j = KindAccept \<longleftrightarrow> MayAdmit v (jk_local join) \<and> (l_max_uses l = 0 \<or> l_uses l < l_max_uses l)
        \<and> \<not> (\<exists>r \<in> set (w_removed v). rv_identity r = jk_joiner join)
        \<and> (ViewLists v (jk_joiner join) \<or> length (w_members v) < kMaxGroupMembers))"
  by (auto simp: judge_view_def RefuseJoin_def AcceptJoin_def image_iff word_gt_0 not_less not_le)

lemma SecretChecks_iff: "SecretChecks K join (known_link join) = knows_secret K join"
  by (auto simp: SecretChecks_def knows_secret_def SecretMatches_def SecretsEqual_def split: option.splits)

lemma JudgeJoin_known:
  "JudgeJoin K join s =
     (if \<not> knows_secret K join then (Some DropJoin, s)
      else let s' = (case jk_within_rate join of None \<Rightarrow> s | Some f \<Rightarrow> snd (f s));
               live = Option.bind (jk_view join) (\<lambda>v. LiveLink v (jk_link_id join));
               ended = Option.bind (jk_view join) (\<lambda>v. EndedLink v (jk_link_id join))
           in (if \<not> rate_left join s then Some (RefuseJoin JoinRate)
               else case LinkEnded join ended (known_link join \<noteq> None) of
                 None \<Rightarrow> None
               | Some (Some why) \<Rightarrow> Some (RefuseJoin why)
               | Some None \<Rightarrow> Option.bind (jk_view join) (\<lambda>view. judge_view join view live), s'))"
proof -
  have known: "(case Option.bind (jk_view join) (\<lambda>v. LiveLink v (jk_link_id join)) of
        Some l \<Rightarrow> Some l
      | None \<Rightarrow> map_option e_link (Option.bind (jk_view join) (\<lambda>v. EndedLink v (jk_link_id join)))) = known_link join"
    by (cases "jk_view join") (simp_all add: known_link_def cong: option.case_cong)
  show ?thesis
    by (simp add: JudgeJoin_def Let_def known SecretChecks_iff rate_left_def split: option.split prod.split)
qed

lemma request_judged:
  "\<exists>j s'. JudgeJoin K join s = (Some j, s')
    \<and> (jj_kind j = KindDrop \<longleftrightarrow> \<not> knows_secret K join) \<and> (jj_kind j = KindDrop \<longrightarrow> s' = s)
    \<and> (jj_kind j = KindAccept \<longleftrightarrow> knows_secret K join \<and> rate_left join s \<and> (\<exists>v. jk_view join = Some v \<and> lets_in v join))"
proof (cases "knows_secret K join")
  case False
  then show ?thesis by (simp add: JudgeJoin_known DropJoin_def)
next
  case secret: True
  show ?thesis
  proof (cases "rate_left join s")
    case False
    with secret show ?thesis by (simp add: JudgeJoin_known RefuseJoin_def Let_def)
  next
    case rate: True
    show ?thesis
    proof (cases "known_link join")
      case None
      then obtain t where "jk_made_here_expires join = Some t" using secret by (auto simp: knows_secret_def)
      with None secret rate show ?thesis
        by (auto simp: JudgeJoin_known RefuseJoin_def Let_def LinkEnded_def known_link_def lets_in_def split: option.splits)
    next
      case (Some l)
      then obtain v where v: "jk_view join = Some v" by (auto simp: known_link_def bind_eq_Some_conv)
      show ?thesis
      proof (cases "EndedLink v (jk_link_id join)")
        case None
        then have live: "LiveLink v (jk_link_id join) = Some l"
          using Some v by (auto simp: known_link_def split: option.splits)
        obtain j where "judge_view join v (Some l) = Some j" "jj_kind j \<noteq> KindDrop"
          "jj_kind j = KindAccept \<longleftrightarrow> lets_in v join"
          using judge_view_live [of join v l] live None by (auto simp: lets_in_def MayAdmit_iff)
        with v live None Some secret rate show ?thesis by (simp add: JudgeJoin_known LinkEnded_def Let_def)
      next
        case (Some e)
        with v \<open>known_link join = Some l\<close> secret rate show ?thesis
          by (auto simp: JudgeJoin_known LinkEnded_def Let_def RefuseJoin_def lets_in_def)
      qed
    qed
  qed
qed

text \<open>
  C27: how a request to join is answered. The judgement always comes, with no null pointer and no empty
  optional read on the way. It is silence exactly when the request does not know the secret, by the
  hash of the link the roster knows or, where it knows none, by the secret this device kept; and a
  guess leaves the limiter as it was. It lets in exactly when the secret is right, the limiter agrees,
  and in the roster the link lives and has uses left, this device's account may invite, and the joiner
  was not removed and finds room or is in already. When the roster is the one the rules give, the
  link's maker is in it and its expiry is still to come.
\<close>

theorem join_judged:
  "\<exists>j s'. JudgeJoin K join s = (Some j, s')
    \<and> (jj_kind j = KindDrop \<longleftrightarrow> \<not> knows_secret K join) \<and> (jj_kind j = KindDrop \<longrightarrow> s' = s)
    \<and> (jj_kind j = KindAccept \<longleftrightarrow> knows_secret K join \<and> rate_left join s \<and> (\<exists>v. jk_view join = Some v \<and> lets_in v join))
    \<and> (jj_kind j = KindAccept \<and> \<not> s_dissolved st \<and> jk_view join = Some (roster_by_rules cr st changes cards (jk_now join)) \<longrightarrow>
        (\<exists>l \<in> set (w_links (roster_by_rules cr st changes cards (jk_now join))). l_link_id l = jk_link_id join
          \<and> l_secret_hash l = SecretHash K (jk_link_id join) (jk_secret join) \<and> jk_now join < l_expires_at l
          \<and> ViewLists (roster_by_rules cr st changes cards (jk_now join)) (l_maker l)))"
proof -
  let ?v = "roster_by_rules cr st changes cards (jk_now join)"
  have lives: "\<exists>l \<in> set (w_links ?v). l_link_id l = jk_link_id join
      \<and> l_secret_hash l = SecretHash K (jk_link_id join) (jk_secret join) \<and> jk_now join < l_expires_at l
      \<and> ViewLists ?v (l_maker l)"
    if "knows_secret K join" "lets_in ?v join" "jk_view join = Some ?v" "\<not> s_dissolved st"
  proof -
    have "\<exists>l. LiveLink ?v (jk_link_id join) = Some l" using that(2) unfolding lets_in_def by blast
    then obtain l where l: "LiveLink ?v (jk_link_id join) = Some l" ..
    then have mem: "l \<in> set (w_links ?v)" "l_link_id l = jk_link_id join" by (auto simp: LiveLink_def find_Some_iff)
    have "l_secret_hash l = SecretHash K (jk_link_id join) (jk_secret join)"
      using that l mem by (simp add: knows_secret_def known_link_def)
    with mem live_links [OF that(4), of "CheckChanges cr changes cards (jk_now join)" "jk_now join"] show ?thesis
      by (auto simp: roster_by_rules_def)
  qed
  then show ?thesis using request_judged [of K join s] by auto
qed

definition sample_view :: roster_view where
  "sample_view = \<lparr>w_group_id = ''g'', w_statement_epoch = 1, w_owner = ''a'', w_preset = Open, w_dissolved = False,
     w_members = [\<lparr>vm_identity = ''a'', vm_role = Owner, vm_joined_at = 1, vm_added_by = [], vm_added_in = []\<rparr>],
     w_removed = [], w_links = [\<lparr>l_link_id = ''k'', l_secret_hash = SecretHash sample_links ''k'' [1, 2], l_maker = ''a'',
       l_expires_at = 90, l_max_uses = 0, l_uses = 0\<rparr>],
     w_ended_links = [], w_title = ''t'', w_title_version = 0, w_verdicts = []\<rparr>"

definition sample_case :: "bytes \<Rightarrow> unit join_case" where
  "sample_case secret = \<lparr>jk_view = Some sample_view, jk_made_here_expires = None, jk_made_here_secret = [],
     jk_link_id = ''k'', jk_secret = secret, jk_joiner = ''z'', jk_local = ''a'', jk_now = 10, jk_within_rate = None\<rparr>"

lemma sample_hash: "SecretHash sample_links i a = SecretHash sample_links i b \<Longrightarrow> short_string i \<Longrightarrow> a = b"
  by (drule arg_cong [of _ _ of_letters])
    (auto simp: SecretHash_def sample_links_def of_letters_letters dest: secret_preimage_injective)

lemma sample_case_secret: "knows_secret sample_links (sample_case secret) \<longleftrightarrow> secret = [1, 2]"
  by (auto simp: knows_secret_def known_link_def sample_case_def sample_view_def LiveLink_def short_string_def
      dest: sample_hash)

lemma sample_case_lets_in: "lets_in sample_view (sample_case secret)"
  by (simp add: lets_in_def sample_view_def sample_case_def LiveLink_def EndedLink_def ViewFind_def ViewLists_def
      kMaxGroupMembers_def)

theorem join_judged_witness:
  "(\<exists>j. JudgeJoin sample_links (sample_case [1, 2]) () = (Some j, ()) \<and> jj_kind j = KindAccept)
    \<and> (\<exists>j. JudgeJoin sample_links (sample_case [1, 3]) () = (Some j, ()) \<and> jj_kind j = KindDrop)"
proof -
  have "rate_left (sample_case secret) ()" "jk_view (sample_case secret) = Some sample_view" for secret
    by (simp_all add: rate_left_def sample_case_def)
  then show ?thesis
    using join_judged [of sample_links "sample_case [1, 2]" "()" sample_statement sample_crypto "[]" "\<lambda>_. None"]
      join_judged [of sample_links "sample_case [1, 3]" "()" sample_statement sample_crypto "[]" "\<lambda>_. None"]
      sample_case_lets_in [of "[1, 2]"]
    by (auto simp: sample_case_secret)
qed

subsection \<open>The limiter\<close>

text \<open>The requests of a run with their answers, and the times at which a link let one through.\<close>

fun asks :: "(string \<times> time_ms) list \<Rightarrow> (string \<times> time_ms list) list \<Rightarrow> (string \<times> time_ms \<times> bool) list" where
  "asks [] seen = []"
| "asks ((i, t) # calls) seen = (let (b, seen') = AllowJoin i t seen in (i, t, b) # asks calls seen')"

definition let_through :: "string \<Rightarrow> (string \<times> time_ms \<times> bool) list \<Rightarrow> time_ms list" where
  "let_through i h = map (\<lambda>(_, t, _). t) (filter (\<lambda>(j, _, b). j = i \<and> b) h)"

definition lately :: "string \<Rightarrow> time_ms \<Rightarrow> (string \<times> time_ms \<times> bool) list \<Rightarrow> nat" where
  "lately i t h = length (filter (\<lambda>x. t - kRateWindowMs < x \<and> x \<le> t) (let_through i h))"

lemma let_through_append [simp]: "let_through i (h @ h') = let_through i h @ let_through i h'"
  by (simp add: let_through_def)

lemma let_through_single [simp]: "let_through i [(j, t, b)] = (if j = i \<and> b then [t] else [])"
  by (simp add: let_through_def)

text \<open>What the map holds of a link are its last times; those dropped are too old to count.\<close>

definition limiter_inv :: "(string \<times> time_ms list) list \<Rightarrow> (string \<times> time_ms \<times> bool) list \<Rightarrow> time_ms \<Rightarrow> bool" where
  "limiter_inv seen h now \<longleftrightarrow> (\<forall>i. sorted (let_through i h) \<and> (\<forall>x \<in> set (let_through i h). x \<le> now)
     \<and> (\<exists>old. let_through i h = old @ value_or (map_of seen i) [] \<and> (\<forall>x \<in> set old. x \<le> now - kRateWindowMs)))"

lemma dropWhile_sorted: "sorted xs \<Longrightarrow> dropWhile (\<lambda>x. x \<le> c) xs = filter (\<lambda>x. c < (x :: time_ms)) xs"
  by (induction xs) (auto simp: not_le intro!: filter_True [symmetric] intro: order.strict_trans2)

lemma limiter_window:
  assumes "limiter_inv seen h now" and "now \<le> t"
  shows "dropWhile (\<lambda>x. x \<le> t - kRateWindowMs) (value_or (map_of seen i) [])
      = filter (\<lambda>x. t - kRateWindowMs < x) (let_through i h)"
    and "lately i t h = length (filter (\<lambda>x. t - kRateWindowMs < x) (let_through i h))"
proof -
  obtain old where split: "let_through i h = old @ value_or (map_of seen i) []" and old: "\<forall>x \<in> set old. x \<le> now - kRateWindowMs"
    and sorted: "sorted (let_through i h)" and upto: "\<forall>x \<in> set (let_through i h). x \<le> now"
    using assms(1) unfolding limiter_inv_def by meson
  have "filter (\<lambda>x. t - kRateWindowMs < x) old = []" using old assms(2) by (force simp: filter_empty_conv)
  then show "dropWhile (\<lambda>x. x \<le> t - kRateWindowMs) (value_or (map_of seen i) [])
      = filter (\<lambda>x. t - kRateWindowMs < x) (let_through i h)"
    using split sorted by (simp add: dropWhile_sorted sorted_append)
  show "lately i t h = length (filter (\<lambda>x. t - kRateWindowMs < x) (let_through i h))"
    unfolding lately_def using upto assms(2) by (intro arg_cong [where f = length] filter_cong) auto
qed

lemma limiter_step:
  assumes inv: "limiter_inv seen h now" and now: "now \<le> t" and step: "AllowJoin i t seen = (b, seen')"
  shows "limiter_inv seen' (h @ [(i, t, b)]) t" and "b \<longleftrightarrow> lately i t h < kRequestsPerHour"
proof -
  let ?w = "filter (\<lambda>x. t - kRateWindowMs < x) (let_through i h)"
  note w = limiter_window [OF inv now, of i]
  have b: "b \<longleftrightarrow> length ?w < kRequestsPerHour" and seen': "seen' = om_put i (if b then ?w @ [t] else ?w) seen"
    using step by (auto simp: AllowJoin_def Let_def w split: if_splits)
  then show "b \<longleftrightarrow> lately i t h < kRequestsPerHour" by (simp add: w(2))
  show "limiter_inv seen' (h @ [(i, t, b)]) t"
    unfolding limiter_inv_def
  proof
    fix j
    obtain old where split: "let_through j h = old @ value_or (map_of seen j) []" and old: "\<forall>x \<in> set old. x \<le> now - kRateWindowMs"
      and sorted: "sorted (let_through j h)" and upto: "\<forall>x \<in> set (let_through j h). x \<le> now"
      using inv unfolding limiter_inv_def by meson
    have parts: "let_through j h = takeWhile (\<lambda>x. x \<le> t - kRateWindowMs) (let_through j h)
        @ filter (\<lambda>x. t - kRateWindowMs < x) (let_through j h)"
      using sorted by (metis dropWhile_sorted takeWhile_dropWhile_id)
    have "\<exists>old. let_through j (h @ [(i, t, b)]) = old @ value_or (map_of seen' j) []
        \<and> (\<forall>x \<in> set old. x \<le> t - kRateWindowMs)"
    proof (cases "j = i")
      case True
      then show ?thesis
        using parts by (intro exI [of _ "takeWhile (\<lambda>x. x \<le> t - kRateWindowMs) (let_through j h)"])
          (auto simp: seen' dest: set_takeWhileD)
    next
      case False
      then show ?thesis using split old now by (auto simp: seen' intro!: exI [of _ old])
    qed
    then show "sorted (let_through j (h @ [(i, t, b)])) \<and> (\<forall>x \<in> set (let_through j (h @ [(i, t, b)])). x \<le> t)
        \<and> (\<exists>old. let_through j (h @ [(i, t, b)]) = old @ value_or (map_of seen' j) []
            \<and> (\<forall>x \<in> set old. x \<le> t - kRateWindowMs))"
      using sorted upto now by (auto simp: sorted_append)
  qed
qed

text \<open>The answers of a history are those of a count of the last hour, and no hour has more than twenty.\<close>

definition by_count :: "(string \<times> time_ms \<times> bool) list \<Rightarrow> bool" where
  "by_count h \<longleftrightarrow> (\<forall>pre i t b post. h = pre @ (i, t, b) # post \<longrightarrow> (b \<longleftrightarrow> lately i t pre < kRequestsPerHour))
     \<and> (\<forall>i t. lately i t h \<le> kRequestsPerHour)"

lemma by_count_snoc:
  assumes h: "by_count h" and inv: "limiter_inv seen h now" and now: "now \<le> t"
    and b: "b \<longleftrightarrow> lately i t h < kRequestsPerHour"
  shows "by_count (h @ [(i, t, b)])"
  unfolding by_count_def
proof (intro conjI allI impI)
  fix pre j u c post
  assume "h @ [(i, t, b)] = pre @ (j, u, c) # post"
  then show "c \<longleftrightarrow> lately j u pre < kRequestsPerHour"
    using h b by (cases post rule: rev_cases) (auto simp: by_count_def)
next
  fix j u
  have upto: "\<forall>x \<in> set (let_through i h). x \<le> t" using inv now by (force simp: limiter_inv_def)
  show "lately j u (h @ [(i, t, b)]) \<le> kRequestsPerHour"
  proof (cases "j = i \<and> b \<and> u - kRateWindowMs < t \<and> t \<le> u")
    case True
    have "lately i u h \<le> lately i t h"
    proof -
      have "filter (\<lambda>x. u - kRateWindowMs < x \<and> x \<le> u) (let_through i h)
          = filter (\<lambda>x. u - kRateWindowMs < x) (filter (\<lambda>x. t - kRateWindowMs < x \<and> x \<le> t) (let_through i h))"
        using True upto by (auto intro!: filter_cong)
      then show ?thesis unfolding lately_def by (metis length_filter_le)
    qed
    then show ?thesis using True b by (simp add: lately_def)
  next
    case False
    then have "lately j u (h @ [(i, t, b)]) = lately j u h" by (auto simp: lately_def)
    then show ?thesis using h by (simp add: by_count_def)
  qed
qed

lemma asks_by_count:
  assumes "sorted (map snd calls)" and "\<And>t. t \<in> set (map snd calls) \<Longrightarrow> now \<le> t"
    and "limiter_inv seen h now" and "by_count h"
  shows "by_count (h @ asks calls seen)"
  using assms
proof (induction calls seen arbitrary: h now rule: asks.induct)
  case (1 seen)
  then show ?case by simp
next
  case (2 i t calls seen)
  obtain b seen' where step: "AllowJoin i t seen = (b, seen')" by fastforce
  have now: "now \<le> t" using "2.prems"(2) by simp
  note next_inv = limiter_step [OF "2.prems"(3) now step]
  have "by_count ((h @ [(i, t, b)]) @ asks calls seen')"
    by (rule "2.IH" [OF step [symmetric] refl]) (use "2.prems" next_inv by_count_snoc [OF "2.prems"(4,3) now next_inv(2)] in auto)
  then show ?case by (simp add: step)
qed

text \<open>
  C28: the limiter of join requests counts right. While the clock does not run backwards, whatever links
  are asked for in whatever order, a request is let through exactly when fewer than twenty for its link
  were let through in the hour before; so in no hour are more than twenty let through for one link.
\<close>

theorem join_rate_counts:
  assumes "sorted (map snd calls)"
  shows "(asks calls [] = pre @ (i, t, b) # post \<longrightarrow> (b \<longleftrightarrow> lately i t pre < kRequestsPerHour))
    \<and> lately j u (asks calls []) \<le> kRequestsPerHour"
proof -
  obtain now where now: "\<And>t. t \<in> set (map snd calls) \<Longrightarrow> now \<le> t"
    using assms by (cases "map snd calls") auto
  have "limiter_inv [] [] now" "by_count []"
    by (auto simp: limiter_inv_def by_count_def let_through_def lately_def)
  from asks_by_count [OF assms now this] show ?thesis by (auto simp: by_count_def)
qed

theorem join_rate_counts_witness:
  "let_through ''k'' (asks (replicate 25 (''k'', 5)) []) = replicate 20 5
    \<and> lately ''k'' 5 (asks (replicate 25 (''k'', 5)) []) \<le> kRequestsPerHour"
proof
  show "let_through ''k'' (asks (replicate 25 (''k'', 5)) []) = replicate 20 5" by code_simp
  show "lately ''k'' 5 (asks (replicate 25 (''k'', 5)) []) \<le> kRequestsPerHour"
    by (rule join_rate_counts [THEN conjunct2]) simp
qed

end
