(* ===== verification/RulesTermination.thy ===== *)
theory RulesTermination
  imports RosterClaims
begin

section \<open>The rules end by themselves\<close>

text \<open>
  Two loops of the rule engine are bounded in the model: the recursion through the memoised questions
  by \<open>rules_fuel\<close>, and \<open>RunAdds\<close>'s loop \<open>while (again)\<close> by one round more than there are open adds.
  Neither bound is ever reached: the memo's recursion stops because a question being answered is
  answered false when it is met again, and each round that goes on has taken an add in.
\<close>

subsection \<open>What asking leaves alone\<close>

definition only_facts :: "'a run \<Rightarrow> bool" where
  "only_facts m \<longleftrightarrow> (\<forall>s. frame s (snd (run_state m s)))"

lemma frame_trans: "frame s t \<Longrightarrow> frame t u \<Longrightarrow> frame s u"
  by (auto simp: frame_def)

lemma only_facts_return [simp]: "only_facts (State_Monad.return v)"
  by (simp add: only_facts_def State_Monad.return_def)

lemma only_facts_get [simp]: "only_facts State_Monad.get"
  by (simp add: only_facts_def State_Monad.get_def)

lemma only_facts_update [simp]: "only_facts (update_facts f)"
  by (auto simp: only_facts_def update_facts_def State_Monad.update_def State_Monad.bind_def State_Monad.get_def
      State_Monad.set_def frame_def)

lemma only_facts_bind:
  assumes m: "only_facts m" and f: "\<And>v. only_facts (f v)"
  shows "only_facts (State_Monad.bind m f)"
  unfolding only_facts_def
proof
  fix s
  obtain v t where run: "run_state m s = (v, t)" by (cases "run_state m s")
  have "frame s t" using m run by (metis only_facts_def snd_conv)
  moreover have "frame t (snd (run_state (f v) t))" using f by (simp add: only_facts_def)
  ultimately show "frame s (snd (run_state (State_Monad.bind m f) s))"
    by (simp add: State_Monad.bind_def run frame_trans)
qed

lemma only_facts_bind_get:
  "(\<And>v. only_facts (f v)) \<Longrightarrow> only_facts (State_Monad.bind State_Monad.get f)"
  by (rule only_facts_bind) simp_all

lemma only_facts_and_then: "only_facts m \<Longrightarrow> only_facts (and_then b m)"
  by (simp add: and_then_def)

lemma only_facts_not: "only_facts m \<Longrightarrow> only_facts (not_m m)"
  unfolding not_m_def by (auto intro!: only_facts_bind)

lemma only_facts_any: "(\<And>x. only_facts (f x)) \<Longrightarrow> only_facts (any_m f xs)"
  by (induction xs) (auto intro!: only_facts_bind)

lemma only_facts_case: "(\<And>r x. only_facts (f r x)) \<Longrightarrow> only_facts (case p of (r, x) \<Rightarrow> f r x)"
  by (simp split: prod.split)

lemmas only_facts_intros = only_facts_bind only_facts_and_then only_facts_not only_facts_any only_facts_case

lemma only_facts_Memo: "only_facts m \<Longrightarrow> only_facts (Memo key m)"
  unfolding Memo_def by (auto intro!: only_facts_intros split: option.split)

text \<open>The adds of a list that were not taken in yet.\<close>

definition waiting :: "checked_change list \<Rightarrow> rules_state \<Rightarrow> nat" where
  "waiting as s = card (cc_id ` set as - set (rs_accepted s))"

text \<open>An asker that changes only the memo table, and what is built from it.\<close>

locale quiet_asker =
  fixes A :: asker and ix :: rule_index
  assumes quiet: "only_facts (A q)"
begin

lemma LeftByChange: "only_facts (LeftByChange A ix i)"
  unfolding LeftByChange_def by (auto intro!: only_facts_intros quiet)

lemma FromStatement: "only_facts (FromStatement A ix i)"
  unfolding FromStatement_def by (auto intro!: only_facts_intros quiet LeftByChange)

lemma FromRoster: "only_facts (FromRoster A ix i)"
  unfolding FromRoster_def by (auto intro!: only_facts_intros FromStatement)

lemma NotInReason: "only_facts (NotInReason A ix i)"
  unfolding NotInReason_def by (auto intro!: only_facts_intros quiet LeftByChange)

lemma Entitlement: "(\<And>i. only_facts (state i)) \<Longrightarrow> only_facts (Entitlement A ix c action target state)"
  unfolding Entitlement_def Let_def by (auto intro!: only_facts_intros quiet NotInReason)

lemma AddEntitlement: "only_facts (AddEntitlement A ix a)"
  unfolding AddEntitlement_def by (auto intro!: only_facts_intros Entitlement FromRoster)

lemma RemoveReason: "only_facts (RemoveReason A ix r)"
  unfolding RemoveReason_def by (auto intro!: only_facts_intros Entitlement FromStatement)

lemma LeaveReason: "only_facts (LeaveReason A ix l)"
  unfolding LeaveReason_def by (auto intro!: only_facts_intros quiet)

lemma answer: "only_facts (answer A ix q)"
  by (cases q) (auto intro!: only_facts_intros quiet RemoveReason LeaveReason)

subsection \<open>Rounds of adds\<close>

lemma TryAccept:
  assumes "run_state (TryAccept A ix a) s = (got, t)"
  shows "set (rs_accepted s) \<subseteq> set (rs_accepted t) \<and> (got \<longrightarrow> cc_id a \<in> set (rs_accepted t))"
proof -
  obtain reason u where run: "run_state (AddEntitlement A ix a) s = (reason, u)"
    by (cases "run_state (AddEntitlement A ix a) s")
  then have "frame s u" using AddEntitlement by (metis only_facts_def snd_conv)
  then have "rs_accepted u = rs_accepted s" using frame_same by blast
  then show ?thesis
    using assms run
    by (auto simp: TryAccept_def State_Monad.bind_def State_Monad.return_def take_in_def Let_def split: if_splits)
qed

lemma adds_round:
  assumes "run_state (adds_round A ix as) s = (got, t)"
  shows "set (rs_accepted s) \<subseteq> set (rs_accepted t)
    \<and> (got \<longrightarrow> (\<exists>a \<in> set as. cc_id a \<notin> set (rs_accepted s) \<and> cc_id a \<in> set (rs_accepted t)))"
  using assms
proof (induction as arbitrary: s got t)
  case (Cons a as)
  obtain first u where first: "run_state (and_then (cc_id a \<notin> set (rs_accepted s)) (TryAccept A ix a)) s = (first, u)"
    by (cases "run_state (and_then (cc_id a \<notin> set (rs_accepted s)) (TryAccept A ix a)) s")
  obtain more t' where more: "run_state (adds_round A ix as) u = (more, t')"
    by (cases "run_state (adds_round A ix as) u")
  have head: "set (rs_accepted s) \<subseteq> set (rs_accepted u)
      \<and> (first \<longrightarrow> cc_id a \<notin> set (rs_accepted s) \<and> cc_id a \<in> set (rs_accepted u))"
    using first TryAccept by (auto simp: and_then_def State_Monad.return_def split: if_splits)
  have "got = (first \<or> more)" "t = t'"
    using Cons.prems first more by (auto simp: State_Monad.bind_def State_Monad.get_def State_Monad.return_def)
  with head Cons.IH [OF more] show ?case by auto
qed (simp add: State_Monad.return_def)

lemma adds_round_waiting:
  assumes "run_state (adds_round A ix as) s = (True, t)"
  shows "waiting as t < waiting as s"
  unfolding waiting_def by (rule psubset_card_mono) (use adds_round [OF assms] in auto)

text \<open>A round more makes no difference once there are more rounds than adds waiting.\<close>

lemma more_rounds:
  "waiting as s \<le> n \<Longrightarrow> run_state (adds_rounds (Suc n + k) A ix as) s = run_state (adds_rounds (Suc n) A ix as) s"
proof (induction n arbitrary: s)
  case 0
  obtain got t where run: "run_state (adds_round A ix as) s = (got, t)"
    by (cases "run_state (adds_round A ix as) s")
  have "\<not> got" using adds_round_waiting [of as s t] run 0 by (cases got) auto
  then show ?case using run by (simp add: State_Monad.bind_def State_Monad.return_def)
next
  case (Suc n)
  obtain got t where run: "run_state (adds_round A ix as) s = (got, t)"
    by (cases "run_state (adds_round A ix as) s")
  show ?case
  proof (cases got)
    case True
    then have "waiting as t \<le> n" using adds_round_waiting [of as s t] run Suc.prems by simp
    from Suc.IH [OF this] show ?thesis using run True by (simp add: State_Monad.bind_def)
  qed (use run in \<open>simp add: State_Monad.bind_def State_Monad.return_def\<close>)
qed

lemma waiting_le: "waiting as s \<le> length as"
proof -
  have "waiting as s \<le> card (cc_id ` set as)" unfolding waiting_def by (rule card_mono) auto
  also have "\<dots> \<le> card (set as)" by (rule card_image_le) simp
  also have "\<dots> \<le> length as" by (rule card_length)
  finally show ?thesis .
qed

end

lemma only_facts_ask: "only_facts (ask n ix q)"
proof (induction n arbitrary: q)
  case (Suc n)
  then have "quiet_asker (ask n ix)" by (rule quiet_asker.intro)
  from quiet_asker.answer [OF this] show ?case by (simp add: only_facts_Memo)
qed (simp add: only_facts_bind)

interpretation rounds: quiet_asker "Ask ix" ix for ix
  by unfold_locales (simp add: Ask_def only_facts_ask)

subsection \<open>The whole run\<close>

text \<open>
  C35: the rules end by themselves: neither bound of the model is ever reached. For any statement and
  any changes, in the run over them (all stages, then the rows of the removed) the recursion of the
  memoised questions never runs out of fuel; and in any state, giving the loop of adds more rounds than
  it has makes no difference, so it ends because a round took nothing in.
\<close>

theorem rules_end_by_themselves:
  "let ix = roster_index st cs now; start = start_state (k_verdicts (Classify st (Collapse cs))) in
     \<not> rf_exhausted (rs_facts (snd (run_state (do { judge_all (Ask ix) ix; RemovedRows (Ask ix) ix }) start)))
     \<and> run_state (adds_rounds (Suc (length as) + k) (Ask ix) ix as) s
       = run_state (adds_rounds (Suc (length as)) (Ask ix) ix as) s"
proof -
  let ?ix = "run_index st now (Collapse cs)"
  let ?start = "start_state (k_verdicts (Classify st (Collapse cs)))"
  obtain u f where f: "run_state (judge_all (Ask ?ix) ?ix) ?start = (u, f)"
    by (metis prod.exhaust)
  have ok: "facts_ok ?ix {} f" by (rule judged [OF Collapse_distinct f])
  obtain rows g where rows: "run_state (RemovedRows (Ask ?ix) ?ix) f = (rows, g)" by fastforce
  have "facts_ok ?ix {} g"
    using holds_afterD [OF run.asks_RemovedRows [OF removed_map_start, unfolded asks_def, THEN spec, of _ _ _ f] _ rows] ok
    by simp
  then have "\<not> rf_exhausted (rs_facts g)" by (simp add: facts_ok_def)
  moreover have "run_state (adds_rounds (Suc (length as) + k) (Ask ?ix) ?ix as) s
      = run_state (adds_rounds (Suc (length as)) (Ask ?ix) ?ix as) s"
    by (rule rounds.more_rounds [OF rounds.waiting_le])
  ultimately show ?thesis
    using f rows by (simp add: Let_def roster_index_def State_Monad.bind_def)
qed

end
