(* ===== verification/WorkflowSends.thy ===== *)
theory WorkflowSends
  imports GroupChangeLines GroupInviteGate
begin

section \<open>The membership workflow: its state and its messages\<close>

text \<open>
  Models the first part of \<open>GroupMembershipWorkflow.cpp\<close>, which does what this device's user and its
  timers ask of a group: the state it keeps, whom it speaks for, and the direct messages and control
  messages it sends; \<open>PairwiseFanoutLogic.cpp\<close>, its loop over recipients, without the branch for a
  callback that is not set (every caller sets it); and \<open>GroupInviteBatch.cpp\<close>, the loop over people to
  invite.

  The contacts, the device's identity and keys, its own card, the cards it keeps and the routes it knows
  are other parts of the program: fields of \<open>flow_env\<close>, which do not change while the workflow runs. A
  kept card is given as the JSON a message carries it in (\<open>CarriedCardJson\<close>). \<open>fe_words\<close> are the texts
  of \<open>Localized\<close>.
\<close>

subsection \<open>State and environment\<close>

record contact =
  ct_id :: string
  ct_account :: string
  ct_display_name :: string
  ct_server_nickname :: string

record device_identity =
  di_account_id :: string
  di_signing_key :: string

record ('o, 'v) flow_env = "('o, 'v) world_env" +
  fe_identity :: "device_identity roe"
  fe_signer :: account_signer
  fe_sign_device :: "bytes \<Rightarrow> string roe"
  fe_own_device :: "string roe"
  fe_own_card :: "time_ms \<Rightarrow> account_card roe"
  fe_contact :: "string \<Rightarrow> contact option roe"
  fe_contact_of :: "string \<Rightarrow> contact option roe"
  fe_route :: "string \<Rightarrow> string option"
  fe_kept_card :: "string \<Rightarrow> 'o option roe"
  fe_words :: "string \<Rightarrow> string"
  fe_shutting_down :: "nat \<Rightarrow> bool"

text \<open>\<open>unreachable_\<close> and \<open>folds_pending_\<close> are ordered sets.\<close>

record 'o flow = "'o world" +
  fl_gate :: invite_gate
  fl_unreachable :: "(string \<times> string) list"
  fl_folds_pending :: "string list"

text \<open>A call that answers nothing.\<close>

definition tell :: "'o chat_call \<Rightarrow> (('o, 'w) world_scheme, unit) state" where
  "tell c = make_call (\<lambda>_. ()) c"

definition kDefaultGroupTitle :: string where "kDefaultGroupTitle = ''Group chat''"
definition kGroupMadeInCallLine :: string where "kGroupMadeInCallLine = ''Group made during a call''"
definition kGroupInviteContextCall :: string where "kGroupInviteContextCall = ''call''"
definition kGroupInviteExpiredError :: string where "kGroupInviteExpiredError = ''chat.group.invite_expired''"
definition kLocalSelfContactId :: string where "kLocalSelfContactId = ''local:self''"
definition kGroupIdPrefix :: string where "kGroupIdPrefix = ''group:''"

definition GenerateGroupId :: "('o, 'v, 'e) world_env_scheme \<Rightarrow> (('o, 'w) world_scheme, string) state" where
  "GenerateGroupId e = do { i \<leftarrow> fresh_id e; State_Monad.return (kGroupIdPrefix @ i) }"

text \<open>\<open>GroupMetadata\<close> and \<open>GroupRosterMember\<close> with their defaults.\<close>

definition new_metadata :: group_metadata where
  "new_metadata = \<lparr>md_group_id = [], md_owner = [], md_title = [], md_roster_epoch = 1, md_preset = Open,
     md_session_epoch = 1, md_title_version = 0, md_statement_json = [], md_sync_state = Active,
     md_sync_request_id = [], md_sync_requested_at = 0\<rparr>"

definition new_member :: "string \<Rightarrow> member_role \<Rightarrow> time_ms \<Rightarrow> group_roster_member" where
  "new_member identity role joined_at = \<lparr>rm_identity = identity, rm_contact_id = [], rm_role = role,
     rm_joined_at = joined_at, rm_added_by = []\<rparr>"

subsection \<open>Whom it speaks for\<close>

definition LocalRelayIdentity :: "('o, 'v, 'e) flow_env_scheme \<Rightarrow> string roe" where
  "LocalRelayIdentity e = roe_bind (fe_identity e) (\<lambda>i.
     if di_account_id i = [] then Inl (Error ''Local account identity unavailable'') else Inr (di_account_id i))"

definition ResolveRelayIdentity :: "('o, 'v, 'e) flow_env_scheme \<Rightarrow> string \<Rightarrow> string roe" where
  "ResolveRelayIdentity e contact_id = roe_bind (fe_contact e contact_id) (\<lambda>found.
     case found of
       None \<Rightarrow> Inl (Error ''Contact not found'')
     | Some c \<Rightarrow> if ct_account c = [] then Inl (Error ''Contact has no Account ID'') else Inr (ct_account c))"

definition LoadMetadataOrError :: "string \<Rightarrow> (('o, 'w) world_scheme, group_metadata roe) state" where
  "LoadMetadataOrError g = on_store (LoadMetadataRequired g)"

definition AppendMembershipSystemEvent ::
  "('o, 'v, 'e) world_env_scheme \<Rightarrow> string \<Rightarrow> control_type \<Rightarrow> string \<Rightarrow> string \<Rightarrow> string
    \<Rightarrow> (('o, 'w) world_scheme, unit roe) state" where
  "AppendMembershipSystemEvent e thread type display detail sender = do {
     line \<leftarrow> SystemLine e thread type display detail sender;
     make_call (we_result e) (AppendMessage line)
   }"

subsection \<open>Direct messages\<close>

text \<open>What a system message carries: \<open>DumpJson\<close> of its type and detail.\<close>

definition control_payload :: "('o, 'v) json_lib \<Rightarrow> control_type \<Rightarrow> string \<Rightarrow> string" where
  "control_payload L type detail = jl_dump L (set_text L ''detail'' detail
     (set_text L ''control_type'' (GroupMembershipControlTypeToWire type) (jl_empty L)))"

definition system_options ::
  "('o, 'v) json_lib \<Rightarrow> bool \<Rightarrow> control_type \<Rightarrow> string \<Rightarrow> string option \<Rightarrow> string \<Rightarrow> send_options" where
  "system_options L preview type detail stored sender = \<lparr>so_update_preview = preview,
     so_payload_json = control_payload L type detail, so_stored_payload_json = map_option (control_payload L type) stored,
     so_sender = sender\<rparr>"

text \<open>The contact and the title of the direct chat with an account.\<close>

definition contact_title :: "contact \<Rightarrow> string" where
  "contact_title c = (if ct_display_name c = [] then ct_server_nickname c else ct_display_name c)"

definition direct_names :: "('o, 'v, 'e) flow_env_scheme \<Rightarrow> string \<Rightarrow> string \<times> string" where
  "direct_names e identity =
     (case fe_contact_of e identity of
        Inr (Some c) \<Rightarrow> (ct_id c, if contact_title c = [] then identity else contact_title c)
      | _ \<Rightarrow> ([], identity))"

definition direct_thread ::
  "('o, 'v, 'e) flow_env_scheme \<Rightarrow> string \<Rightarrow> (('o, 'w) world_scheme, chat_thread roe) state" where
  "direct_thread e identity = make_call (we_thread e)
     (FindOrCreateDirectThread identity (fst (direct_names e identity)) (snd (direct_names e identity)))"

definition SendMembershipDirectMessage ::
  "('o, 'v, 'e) flow_env_scheme \<Rightarrow> string \<Rightarrow> control_type \<Rightarrow> string \<Rightarrow> string \<Rightarrow> string option
    \<Rightarrow> (('o, 'w) world_scheme, unit roe) state" where
  "SendMembershipDirectMessage e peer type detail display stored =
     roe_then (direct_thread e peer) (\<lambda>thread.
       given (LocalRelayIdentity e) (\<lambda>local.
         make_call (we_result e) (SendUserMessage (th_id thread) display
           (system_options (we_lib e) False type detail stored local))))"

definition SendInviteResponseDirectMessage ::
  "('o, 'v, 'e) flow_env_scheme \<Rightarrow> string \<Rightarrow> string \<Rightarrow> string \<Rightarrow> control_type
    \<Rightarrow> (('o, 'w) world_scheme, unit roe) state" where
  "SendInviteResponseDirectMessage e inviter nonce g type =
     roe_then (direct_thread e inviter) (\<lambda>thread.
       given (LocalRelayIdentity e) (\<lambda>local.
         make_call (we_result e) (SendUserMessage (th_id thread)
           (if type = GroupInviteAccept then ''Accepted group invitation'' else ''Declined group invitation'')
           (system_options (we_lib e) False type (EncodeInviteResponse (we_lib e) nonce g) None local))))"

text \<open>The invite goes to the contact it was made for, else to the chat with the account.\<close>

definition invite_chat :: "('o, 'v, 'e) flow_env_scheme \<Rightarrow> string \<Rightarrow> string \<Rightarrow> (string \<times> string \<times> string) roe" where
  "invite_chat e identity contact_id =
     (if contact_id \<noteq> []
      then case fe_contact e contact_id of
          Inr (Some c) \<Rightarrow> Inr (ct_account c, contact_id, ct_display_name c)
        | _ \<Rightarrow> Inl (Error ''Invitee contact not found'')
      else case fe_contact_of e identity of
          Inr (Some c) \<Rightarrow> Inr (identity, ct_id c, contact_title c)
        | _ \<Rightarrow> Inr (identity, [], identity))"

definition SendInviteDirectMessage ::
  "('o, 'v, 'e) flow_env_scheme \<Rightarrow> group_invite_payload \<Rightarrow> string \<Rightarrow> (('o, 'w) world_scheme, unit roe) state" where
  "SendInviteDirectMessage e invite contact_id =
     given (invite_chat e (ip_invitee invite) contact_id) (\<lambda>(peer, contact, title).
       roe_then (make_call (we_thread e) (FindOrCreateDirectThread peer contact title)) (\<lambda>thread.
         given (LocalRelayIdentity e) (\<lambda>local.
           make_call (we_result e) (SendUserMessage (th_id thread) (''Group invitation: '' @ ip_group_title invite)
             (system_options (we_lib e) True GroupInvite (EncodeInvite (we_lib e) invite) None local)))))"

text \<open>The line of a refusal.\<close>

definition RefusedDisplay :: "string \<Rightarrow> string" where
  "RefusedDisplay reason = (if reason = kInviteRefusedGroupDissolved then ''Group invitation refused: the group was dissolved''
     else ''Group invitation refused: the group is full'')"

definition RefuseInvite ::
  "('o, 'v, 'e) flow_env_scheme \<Rightarrow> string \<Rightarrow> string \<Rightarrow> string \<Rightarrow> string \<Rightarrow> (('o, 'w) world_scheme, unit roe) state" where
  "RefuseInvite e g nonce invitee reason =
     (let why = (if reason = [] then kInviteRefusedGroupFull else reason)
      in SendMembershipDirectMessage e invitee GroupInviteRefused (EncodeInviteRefused (we_lib e) nonce g why)
           (RefusedDisplay why) None)"

definition SendRenameDirectMessage ::
  "('o, 'v, 'e) flow_env_scheme \<Rightarrow> string \<Rightarrow> group_renamed_payload \<Rightarrow> (('o, 'w) world_scheme, unit roe) state" where
  "SendRenameDirectMessage e peer renamed = SendMembershipDirectMessage e peer GroupRenamed
     (EncodeGroupRenamed (we_lib e) renamed) (''Group renamed to '' @ gr_title renamed) None"

text \<open>A roster request or reply, on the control lane and with our card.\<close>

definition SendRosterControl ::
  "('o, 'v, 'e) flow_env_scheme \<Rightarrow> string \<Rightarrow> control_type \<Rightarrow> string \<Rightarrow> string \<Rightarrow> string
    \<Rightarrow> (('o, 'w) world_scheme, unit roe) state" where
  "SendRosterControl e peer type detail display local = do {
     m \<leftarrow> SystemLine e [] type display detail local;
     make_call (we_result e) (SendControl peer m True)
   }"

text \<open>The invite's card in the direct chat shows how it ended; an end-to-end chat is looked in second.\<close>

definition invite_thread ::
  "('o, 'v, 'e) flow_env_scheme \<Rightarrow> string \<Rightarrow> (('o, 'w) world_scheme, chat_thread option roe) state" where
  "invite_thread e inviter =
     roe_then (make_call (we_found e) (FindDirectThread inviter True)) (\<lambda>found.
       case found of
         Some t \<Rightarrow> ret_ok (Some t)
       | None \<Rightarrow> do {
           found \<leftarrow> make_call (we_found e) (FindDirectThread inviter False);
           State_Monad.return (Inr (case found of Inr (Some t) \<Rightarrow> Some t | _ \<Rightarrow> None))
         })"

definition ResolveInviteCard ::
  "('o, 'v, 'e) flow_env_scheme \<Rightarrow> string \<Rightarrow> string \<Rightarrow> invite_status \<Rightarrow> string \<Rightarrow> (('o, 'w) world_scheme, unit roe) state" where
  "ResolveInviteCard e inviter nonce status text =
     roe_then (invite_thread e inviter) (\<lambda>thread.
       case thread of
         None \<Rightarrow> ret_ok ()
       | Some t \<Rightarrow> roe_then (make_call (we_page e) (GetMessagesPage (th_id t) 500)) (\<lambda>page. do {
           (case List.find (\<lambda>m. case DecodeInviteFromMessage (we_lib e) m of
                Inl _ \<Rightarrow> False | Inr invite \<Rightarrow> ip_nonce invite = nonce) page of
              None \<Rightarrow> nothing
            | Some m \<Rightarrow> ignore (make_call (we_result e) (UpdateMessage (ApplyInviteResolution (we_lib e) m status text))));
           ret_ok ()
         }))"

subsection \<open>To many\<close>

text \<open>A loop that ends with the first error.\<close>

fun each_ok :: "('a \<Rightarrow> ('s, unit roe) state) \<Rightarrow> 'a list \<Rightarrow> ('s, unit roe) state" where
  "each_ok f [] = ret_ok ()"
| "each_ok f (x # xs) = roe_then (f x) (\<lambda>_. each_ok f xs)"

datatype fanout_mode = BestEffort | FailFast

record fanout_result =
  fr_attempted :: nat
  fr_succeeded :: nat
  fr_failed :: "string list"
  fr_messages :: "string list"
  fr_first_error :: "roe_error option"

definition SelectPairwiseFanoutTargets :: "string list \<Rightarrow> string \<Rightarrow> (string \<Rightarrow> bool) option \<Rightarrow> string list" where
  "SelectPairwiseFanoutTargets identities skip include =
     filter (\<lambda>i. i \<noteq> [] \<and> i \<noteq> skip \<and> (case include of None \<Rightarrow> True | Some f \<Rightarrow> f i)) identities"

fun error_message :: "roe_error \<Rightarrow> string" where
  "error_message (Error m) = m"

fun fan_out ::
  "fanout_mode \<Rightarrow> (string \<Rightarrow> ('s, unit roe) state) \<Rightarrow> string list \<Rightarrow> fanout_result \<Rightarrow> ('s, fanout_result) state" where
  "fan_out mode send [] result = State_Monad.return result"
| "fan_out mode send (identity # targets) result = do {
     sent \<leftarrow> send identity;
     let result = result\<lparr>fr_attempted := Suc (fr_attempted result)\<rparr>;
     case sent of
       Inr _ \<Rightarrow> fan_out mode send targets (result\<lparr>fr_succeeded := Suc (fr_succeeded result)\<rparr>)
     | Inl x \<Rightarrow>
         let result = result\<lparr>fr_failed := fr_failed result @ [identity],
               fr_messages := fr_messages result @ [error_message x]\<rparr>
         in if mode = FailFast then State_Monad.return (result\<lparr>fr_first_error := Some x\<rparr>)
            else fan_out mode send targets result
   }"

definition FanOutPairwise ::
  "string list \<Rightarrow> fanout_mode \<Rightarrow> (string \<Rightarrow> ('s, unit roe) state) \<Rightarrow> ('s, fanout_result) state" where
  "FanOutPairwise targets mode send = fan_out mode send targets
     \<lparr>fr_attempted = 0, fr_succeeded = 0, fr_failed = [], fr_messages = [], fr_first_error = None\<rparr>"

definition FanOutMembershipEvent ::
  "('o, 'v, 'e) flow_env_scheme \<Rightarrow> string \<Rightarrow> control_type \<Rightarrow> string \<Rightarrow> string \<Rightarrow> string \<Rightarrow> string option
    \<Rightarrow> (('o, 'w) world_scheme, unit roe) state" where
  "FanOutMembershipEvent e g type detail display skip also_notify =
     roe_then (on_store (ListMembers g)) (\<lambda>members.
       let targets = SelectPairwiseFanoutTargets (map rm_identity members) skip None in do {
         result \<leftarrow> FanOutPairwise targets FailFast (\<lambda>identity. SendMembershipDirectMessage e identity type detail display None);
         case fr_first_error result of
           Some x \<Rightarrow> State_Monad.return (Inl x)
         | None \<Rightarrow> do {
             (case also_notify of
                None \<Rightarrow> nothing
              | Some i \<Rightarrow> if i \<noteq> [] \<and> i \<noteq> skip \<and> i \<notin> set targets
                  then ignore (SendMembershipDirectMessage e i type detail display None) else nothing);
             ret_ok ()
           }
       })"

subsection \<open>A batch of invites\<close>

text \<open>\<open>GroupInviteBatch.cpp\<close>: one call per person, a failure does not stop the others.\<close>

definition kGroupMemberLimit :: nat where
  "kGroupMemberLimit = 50"

definition CheckGroupHasRoom :: "nat \<Rightarrow> unit roe" where
  "CheckGroupHasRoom roster_size = (if roster_size \<ge> kGroupMemberLimit then Inl (Error ''Group is full'') else Inr ())"

record invite_batch =
  ib_sent :: "string list"
  ib_failed :: "(string \<times> string) list"

fun invite_each :: "(string \<Rightarrow> ('s, unit roe) state) \<Rightarrow> string list \<Rightarrow> invite_batch \<Rightarrow> ('s, invite_batch) state" where
  "invite_each invite [] result = State_Monad.return result"
| "invite_each invite (i # ids) result = do {
     invited \<leftarrow> invite i;
     invite_each invite ids (case invited of
       Inr _ \<Rightarrow> result\<lparr>ib_sent := ib_sent result @ [i]\<rparr>
     | Inl x \<Rightarrow> result\<lparr>ib_failed := ib_failed result @ [(i, error_message x)]\<rparr>)
   }"

definition InviteEach :: "string list \<Rightarrow> (string \<Rightarrow> ('s, unit roe) state) \<Rightarrow> ('s, invite_batch) state" where
  "InviteEach ids invite = invite_each invite ids \<lparr>ib_sent = [], ib_failed = []\<rparr>"

end
