(* ===== verification/WorkflowSigning.thy ===== *)
theory WorkflowSigning
  imports WorkflowSends
begin

section \<open>What the workflow signs and sends of a roster\<close>

text \<open>
  Models the parts of \<open>GroupMembershipWorkflow.cpp\<close> on statements and changes of our own: a roster signed
  as its owner, with the changes it folds in; a change signed by this device, held, applied and sent to
  the members; the fold a few seconds later; and the roster checks sent and answered. The lock taken in
  some of them is left out: each operation is one computation. A timer set is a call; what it does when
  it fires is an operation of its own.
\<close>

subsection \<open>Statements\<close>

definition SigningKey :: "('o, 'v, 'e) flow_env_scheme \<Rightarrow> string roe" where
  "SigningKey e = roe_bind (fe_identity e) (\<lambda>i.
     if di_signing_key i = [] then Inl (Error ''No account signing key yet'') else Inr (di_signing_key i))"

text \<open>The rows are \<open>roster_rows\<close>; the chain is the held one, and the transfer that made us owner.\<close>

definition RosterPartsOf ::
  "roster_json \<Rightarrow> group_metadata \<Rightarrow> group_roster_member list \<Rightarrow> owner_transfer option
    \<Rightarrow> statement_member list \<times> owner_transfer list" where
  "RosterPartsOf js md members handed =
     (roster_rows members, (case Held js md of None \<Rightarrow> [] | Some st \<Rightarrow> s_owner_chain st)
        @ (case handed of None \<Rightarrow> [] | Some t \<Rightarrow> [t]))"

definition SignDissolved ::
  "('o, 'v, 'e) flow_env_scheme \<Rightarrow> group_metadata \<Rightarrow> group_roster_member list \<Rightarrow> u64 \<Rightarrow> statement roe" where
  "SignDissolved e md members epoch = roe_bind (SigningKey e) (\<lambda>key.
     case RosterPartsOf (we_json e) md members None of (rows, chain) \<Rightarrow>
       Sign (fe_signer e) key (md_group_id md) epoch rows chain True (md_preset md))"

definition SignRoster ::
  "('o, 'v, 'e) flow_env_scheme \<Rightarrow> string \<Rightarrow> owner_transfer option \<Rightarrow> (('o, 'w) world_scheme, statement roe) state" where
  "SignRoster e g handed =
     given (SigningKey e) (\<lambda>key.
     given (sg_account_id (fe_signer e)) (\<lambda>account.
     roe_then (LoadMetadataOrError g) (\<lambda>md.
       if md_owner md \<noteq> account then ret_err ''Only the group owner signs its roster''
       else roe_then (on_store (ListMembers g)) (\<lambda>members. do {
         now \<leftarrow> clock e;
         draft \<leftarrow> on_store (OwnerDraft (we_crypto e) (we_json e) md (fst (RosterPartsOf (we_json e) md members handed))
           (snd (RosterPartsOf (we_json e) md members handed)) account key (we_cards e) now);
         given (SignStatement (fe_signer e) key draft) (\<lambda>st.
           roe_then (if s_roster_epoch st > md_roster_epoch md
               then on_store (UpsertMetadata (md\<lparr>md_roster_epoch := s_roster_epoch st\<rparr>)) else ret_ok ()) (\<lambda>_.
           roe_then (on_store (KeepStatement (we_crypto e) (we_json e) st)) (\<lambda>_.
           roe_then (on_store (ApplyView (we_crypto e) (we_json e) g (we_cards e) now)) (\<lambda>_. ret_ok st))))
       }))))"

definition SignAndSendRoster ::
  "('o, 'v, 'e) flow_env_scheme \<Rightarrow> string \<Rightarrow> owner_transfer option \<Rightarrow> (('o, 'w) world_scheme, unit roe) state" where
  "SignAndSendRoster e g handed =
     given (LocalRelayIdentity e) (\<lambda>local.
     roe_then (SignRoster e g handed) (\<lambda>st. do {
       FanOutPairwise (SelectPairwiseFanoutTargets (map sm_identity (s_members st)) local None) BestEffort
         (\<lambda>identity. SendMembershipDirectMessage e identity GroupRosterStatementCtl (EncodeStatement (we_lib e) st)
           ''Group members updated'' None);
       ret_ok ()
     }))"

definition WithSignedRoster ::
  "('o, 'v, 'e) flow_env_scheme \<Rightarrow> string \<Rightarrow> string \<Rightarrow> (('o, 'w) world_scheme, string) state" where
  "WithSignedRoster e g detail = do {
     st \<leftarrow> SignRoster e g None;
     State_Monad.return (case st of
       Inl _ \<Rightarrow> detail
     | Inr st \<Rightarrow> (case WithStatement (we_lib e) detail st of Inl _ \<Rightarrow> detail | Inr with \<Rightarrow> with))
   }"

subsection \<open>Changes\<close>

text \<open>The first send of a change carries our card.\<close>

definition SignOwnChange ::
  "('o, 'v, 'e) flow_env_scheme \<Rightarrow> group_change \<Rightarrow> (('o, 'w) world_scheme, group_change roe) state" where
  "SignOwnChange e draft = do {
     now \<leftarrow> clock e;
     State_Monad.return (SignChange (fe_sign_device e)
       (case fe_own_card e now of Inl _ \<Rightarrow> draft | Inr ac \<Rightarrow> draft\<lparr>c_signer_card := Some ac\<rparr>))
   }"

definition KeptCard :: "('o, 'v, 'e) flow_env_scheme \<Rightarrow> string \<Rightarrow> 'o option" where
  "KeptCard e account = (case fe_kept_card e account of Inl _ \<Rightarrow> None | Inr kept \<Rightarrow> kept)"

definition FanOutChange ::
  "('o, 'v, 'e) flow_env_scheme \<Rightarrow> string \<Rightarrow> group_change \<Rightarrow> string \<Rightarrow> 'o change_newcomer option
    \<Rightarrow> (('o, 'w) world_scheme, unit) state" where
  "FanOutChange e g c removed newcomer = do {
     members \<leftarrow> on_store (ListMembers g);
     case (LocalRelayIdentity e, members) of
       (Inr local, Inr rows) \<Rightarrow>
         let identities = filter (\<lambda>i. i \<noteq> removed \<and> i \<noteq> (case newcomer of None \<Rightarrow> [] | Some n \<Rightarrow> cn_identity n))
               (map rm_identity rows);
             detail = EncodeChange (we_lib e) c newcomer;
             stored = (case newcomer of None \<Rightarrow> None | Some _ \<Rightarrow> Some (EncodeChange (we_lib e) c None)) in do {
           FanOutPairwise (SelectPairwiseFanoutTargets identities local None) BestEffort
             (\<lambda>identity. SendMembershipDirectMessage e identity GroupChangeCtl detail ''Group members changed'' stored);
           if removed \<noteq> [] \<and> removed \<noteq> local
           then ignore (SendMembershipDirectMessage e removed GroupChangeCtl detail ''Group members changed'' None)
           else nothing
         }
     | _ \<Rightarrow> nothing
   }"

subsection \<open>The fold\<close>

definition FoldNow :: "('o, 'v, 'e) flow_env_scheme \<Rightarrow> string \<Rightarrow> (('o, 'w) world_scheme, bool roe) state" where
  "FoldNow e g =
     given (LocalRelayIdentity e) (\<lambda>local.
     roe_then (LoadMetadataOrError g) (\<lambda>md.
       if md_owner md \<noteq> local then ret_ok False
       else do {
         now \<leftarrow> clock e;
         foldable \<leftarrow> on_store (HoldsFoldable (we_crypto e) (we_json e) g (we_cards e) now);
         if \<not> foldable then ret_ok False
         else roe_then (SignAndSendRoster e g None) (\<lambda>_. ret_ok True)
       }))"

definition FoldHeldChanges :: "('o, 'v, 'e) flow_env_scheme \<Rightarrow> (('o, 'w) world_scheme, unit) state" where
  "FoldHeldChanges e = do {
     groups \<leftarrow> on_store ListGroupsWithChanges;
     case groups of
       Inl _ \<Rightarrow> nothing
     | Inr gs \<Rightarrow> for_m (\<lambda>g. ignore (FoldNow e g)) gs
   }"

text \<open>One fold is on its way at a time: it folds what arrives meanwhile too.\<close>

definition ScheduleFold :: "string \<Rightarrow> (('o, 'w) flow_scheme, unit) state" where
  "ScheduleFold g = do {
     w \<leftarrow> State_Monad.get;
     if g \<in> set (fl_folds_pending w) then nothing
     else do {
       State_Monad.update (\<lambda>w. w\<lparr>fl_folds_pending := os_insert g (fl_folds_pending w)\<rparr>);
       tell (FoldTimer g)
     }
   }"

definition shutting_down :: "('o, 'v, 'e) flow_env_scheme \<Rightarrow> (('o, 'w) world_scheme, bool) state" where
  "shutting_down e = do { n \<leftarrow> next_tick; State_Monad.return (fe_shutting_down e n) }"

definition fold_timer_fires :: "('o, 'v, 'e) flow_env_scheme \<Rightarrow> string \<Rightarrow> (('o, 'w) flow_scheme, unit) state" where
  "fold_timer_fires e g = do {
     stop \<leftarrow> shutting_down e;
     if stop then nothing
     else do {
       State_Monad.update (\<lambda>w. w\<lparr>fl_folds_pending := os_erase g (fl_folds_pending w)\<rparr>);
       ignore (FoldNow e g)
     }
   }"

text \<open>After a change of ours: its line, and the fold when the group is ours.\<close>

definition after_own_change ::
  "('o, 'v, 'e) flow_env_scheme \<Rightarrow> string \<Rightarrow> group_change \<Rightarrow> string \<Rightarrow> (('o, 'w) flow_scheme, unit) state" where
  "after_own_change e g c local = do {
     metadata \<leftarrow> on_store (LoadMetadata g);
     case metadata of
       Inr (Some md) \<Rightarrow> do {
         ignore (AppendChangeLines e g [c] (md_roster_epoch md) local);
         if md_owner md = local then ScheduleFold g else nothing
       }
     | _ \<Rightarrow> nothing
   }"

definition CommitOwnChange ::
  "('o, 'v, 'e) flow_env_scheme \<Rightarrow> group_change \<Rightarrow> (('o, 'w) flow_scheme, group_change roe) state" where
  "CommitOwnChange e draft =
     given (LocalRelayIdentity e) (\<lambda>local. do {
       now \<leftarrow> clock e;
       roe_then (SignOwnChange e draft) (\<lambda>c.
       roe_then (on_store (HoldChange (we_crypto e) (we_json e) c (we_cards e) now True)) (\<lambda>outcome.
         if outcome \<noteq> HeldProved then ret_err ''The change does not prove itself on this device''
         else roe_then (on_store (ApplyView (we_crypto e) (we_json e) (c_group_id c) (we_cards e) now)) (\<lambda>applied. do {
           FanOutChange e (c_group_id c) c [] None;
           (case va_new_title applied of None \<Rightarrow> nothing | Some title \<Rightarrow> ignore (FollowTitle e (c_group_id c) title));
           after_own_change e (c_group_id c) c local;
           ret_ok c
         })))
     })"

text \<open>Changes that count now: a reply brought them, or a card they waited for.\<close>

definition OnChangesApplied ::
  "('o, 'v, 'e) flow_env_scheme \<Rightarrow> string \<Rightarrow> group_change list \<Rightarrow> (('o, 'w) flow_scheme, unit) state" where
  "OnChangesApplied e g changes = do {
     metadata \<leftarrow> on_store (LoadMetadata g);
     case (LocalRelayIdentity e, metadata) of
       (Inr local, Inr (Some md)) \<Rightarrow> do {
         ignore (FollowTitle e g (md_title md));
         ignore (AppendChangeLines e g changes (md_roster_epoch md) local);
         if md_owner md = local then ScheduleFold g else nothing
       }
     | _ \<Rightarrow> nothing
   }"

definition RecheckChangesBy :: "('o, 'v, 'e) flow_env_scheme \<Rightarrow> string \<Rightarrow> (('o, 'w) flow_scheme, unit) state" where
  "RecheckChangesBy e account = do {
     groups \<leftarrow> on_store (GroupsWithChangesBy (we_json e) account);
     for_m (\<lambda>g. do {
       now \<leftarrow> clock e;
       applied \<leftarrow> on_store (ApplyView (we_crypto e) (we_json e) g (we_cards e) now);
       case applied of Inl _ \<Rightarrow> nothing | Inr a \<Rightarrow> OnChangesApplied e g (va_newly_applied a)
     }) groups
   }"

subsection \<open>Roster checks\<close>

definition stated_members :: "statement option \<Rightarrow> group_roster_member list" where
  "stated_members st = (case st of None \<Rightarrow> [] | Some s \<Rightarrow>
     map (\<lambda>m. \<lparr>rm_identity = sm_identity m, rm_contact_id = [], rm_role = sm_role m, rm_joined_at = sm_joined_at m,
       rm_added_by = []\<rparr>) (s_members s))"

text \<open>The reply to a request: none where nobody is to be answered.\<close>

definition roster_answer ::
  "('o, 'v, 'e) flow_env_scheme \<Rightarrow> roster_request \<Rightarrow> string \<Rightarrow> string \<Rightarrow> group_metadata
    \<Rightarrow> (('o, 'w) world_scheme, roster_reply option roe) state" where
  "roster_answer e request who_asks local md =
     (if md_sync_state md = Dissolved \<and> md_owner md = local then
        let held = Held (we_json e) md
        in ret_ok (Some \<lparr>rp_group_id = rq_group_id request, rp_request_id = rq_request_id request,
             rp_statement = (case SignDissolved e md (stated_members held) (md_roster_epoch md) of
               Inl _ \<Rightarrow> held | Inr fresh \<Rightarrow> Some fresh),
             rp_removed = False, rp_changes = [], rp_more = False\<rparr>)
      else if md_owner md = local \<and> md_sync_state md = Active then do {
        ignore (FoldNow e (rq_group_id request));
        roe_then (SignRoster e (rq_group_id request) None) (\<lambda>st. do {
          reply \<leftarrow> on_store (AddChangesTo (we_crypto e) (we_json e) request
            \<lparr>rp_group_id = rq_group_id request, rp_request_id = rq_request_id request, rp_statement = Some st,
             rp_removed = \<not> StatementLists st who_asks, rp_changes = [], rp_more = False\<rparr>);
          ret_ok (Some reply)
        })
      }
      else on_store (Answer (we_crypto e) (we_json e) request who_asks))"

definition AnswerRosterRequest ::
  "('o, 'v, 'e) flow_env_scheme \<Rightarrow> roster_request \<Rightarrow> string \<Rightarrow> (('o, 'w) world_scheme, unit roe) state" where
  "AnswerRosterRequest e request who_asks =
     given (LocalRelayIdentity e) (\<lambda>local.
     roe_then (on_store (LoadMetadata (rq_group_id request))) (\<lambda>metadata.
       case metadata of
         None \<Rightarrow> ret_ok ()
       | Some md \<Rightarrow> roe_then (roster_answer e request who_asks local md) (\<lambda>reply.
           case reply of
             None \<Rightarrow> ret_ok ()
           | Some r \<Rightarrow> SendRosterControl e who_asks GroupRosterReply (EncodeReply (we_lib e) r) ''Group members'' local)))"

definition StartCatchUp ::
  "('o, 'v, 'e) flow_env_scheme \<Rightarrow> string \<Rightarrow> string \<Rightarrow> string \<Rightarrow> (('o, 'w) world_scheme, unit roe) state" where
  "StartCatchUp e g whom after_id =
     given (LocalRelayIdentity e) (\<lambda>local.
       if whom = [] \<or> whom = local then ret_ok ()
       else do {
         now \<leftarrow> clock e;
         i \<leftarrow> fresh_id e;
         roe_then (on_store (BeginCatchUp (we_crypto e) (we_json e) i g now after_id)) (\<lambda>request.
           case request of
             None \<Rightarrow> ret_ok ()
           | Some r \<Rightarrow> SendRosterControl e whom GroupRosterRequest (EncodeRequest (we_lib e) r) ''Checking group members'' local)
       })"

definition kRosterReaskDelaysMs :: "time_ms list" where
  "kRosterReaskDelaysMs = [15000, 60000, 300000]"

text \<open>Each copy is sealed for its pair; a copy per identity asked, with our card.\<close>

fun check_copies ::
  "('o, 'v, 'e) flow_env_scheme \<Rightarrow> string \<Rightarrow> string \<Rightarrow> string list
    \<Rightarrow> (('o, 'w) world_scheme, (string \<times> thread_message) list) state" where
  "check_copies e detail local [] = State_Monad.return []"
| "check_copies e detail local (identity # ids) = do {
     m \<leftarrow> SystemLine e [] GroupRosterRequest ''Checking group members'' detail local;
     rest \<leftarrow> check_copies e detail local ids;
     State_Monad.return ((identity, m) # rest)
   }"

definition ScheduleRosterReask :: "string \<Rightarrow> string \<Rightarrow> nat \<Rightarrow> (('o, 'w) world_scheme, unit) state" where
  "ScheduleRosterReask g request_id attempt =
     (if attempt \<ge> length kRosterReaskDelaysMs then nothing else tell (ReaskTimer g request_id attempt))"

definition StartRosterCheckAttempt ::
  "('o, 'v, 'e) flow_env_scheme \<Rightarrow> string \<Rightarrow> nat \<Rightarrow> (('o, 'w) world_scheme, unit roe) state" where
  "StartRosterCheckAttempt e g attempt =
     given (LocalRelayIdentity e) (\<lambda>local. do {
       now \<leftarrow> clock e;
       i \<leftarrow> fresh_id e;
       roe_then (on_store (BeginCheck (we_crypto e) (we_json e) i g local now)) (\<lambda>check. do {
         copies \<leftarrow> check_copies e (EncodeRequest (we_lib e) (ck_request check)) local (ck_ask check);
         tell (SendControlToMany copies);
         ScheduleRosterReask g (rq_request_id (ck_request check)) attempt;
         ret_ok ()
       })
     })"

definition StartRosterCheck ::
  "('o, 'v, 'e) flow_env_scheme \<Rightarrow> string \<Rightarrow> (('o, 'w) world_scheme, unit roe) state" where
  "StartRosterCheck e g = StartRosterCheckAttempt e g 0"

definition reask_timer_fires ::
  "('o, 'v, 'e) flow_env_scheme \<Rightarrow> string \<Rightarrow> string \<Rightarrow> nat \<Rightarrow> (('o, 'w) world_scheme, unit) state" where
  "reask_timer_fires e g request_id attempt = do {
     stop \<leftarrow> shutting_down e;
     if stop then nothing
     else do {
       metadata \<leftarrow> on_store (LoadMetadata g);
       case metadata of
         Inr (Some md) \<Rightarrow>
           if StillAwaiting md request_id then ignore (StartRosterCheckAttempt e g (attempt + 1)) else nothing
       | _ \<Rightarrow> nothing
     }
   }"

end
