(* ===== verification/WorkflowInvites.thy ===== *)
theory WorkflowInvites
  imports WorkflowSigning GroupLinkJoin
begin

section \<open>The workflow's groups, invites and newcomers\<close>

text \<open>
  Models the parts of \<open>GroupMembershipWorkflow.cpp\<close> that bring people in: a group made, invites sent,
  accepted and declined, a join by link, and the newcomer admitted with its join bundle.
\<close>

subsection \<open>What it reads of a group\<close>

definition IsDissolved :: "string \<Rightarrow> (('o, 'w) world_scheme, bool) state" where
  "IsDissolved g = do {
     metadata \<leftarrow> on_store (LoadMetadata g);
     State_Monad.return (case metadata of Inr (Some md) \<Rightarrow> md_sync_state md = Dissolved | _ \<Rightarrow> False)
   }"

definition LocalRole :: "('o, 'v, 'e) flow_env_scheme \<Rightarrow> string \<Rightarrow> (('o, 'w) world_scheme, member_role option) state" where
  "LocalRole e g = do {
     metadata \<leftarrow> on_store (LoadMetadata g);
     case (LocalRelayIdentity e, metadata) of
       (Inr local, Inr (Some md)) \<Rightarrow>
         if md_owner md = local then State_Monad.return (Some Owner)
         else do {
           self \<leftarrow> on_store (FindMember g local);
           State_Monad.return (case self of Inr (Some m) \<Rightarrow> Some (rm_role m) | _ \<Rightarrow> None)
         }
     | _ \<Rightarrow> State_Monad.return None
   }"

definition ListInvitedWaiting ::
  "('o, 'v, 'e) world_env_scheme \<Rightarrow> string \<Rightarrow> (('o, 'w) world_scheme, pending_group_invite list) state" where
  "ListInvitedWaiting e g = do {
     now \<leftarrow> clock e;
     invites \<leftarrow> on_store (ListOutboundPendingInvites g now);
     State_Monad.return (case invites of Inl _ \<Rightarrow> [] | Inr is \<Rightarrow> is)
   }"

definition SetInboundPolicy :: "group_invite_policy \<Rightarrow> (('o, 'w) flow_scheme, unit) state" where
  "SetInboundPolicy policy = State_Monad.update (\<lambda>w. w\<lparr>fl_gate := (fl_gate w)\<lparr>ig_policy := policy\<rparr>\<rparr>)"

subsection \<open>Invites\<close>

text \<open>The invite and its record; \<open>members\<close> is the roster, when it could be read.\<close>

definition new_invite ::
  "string \<Rightarrow> group_metadata \<Rightarrow> string \<Rightarrow> string \<Rightarrow> member_role \<Rightarrow> nat \<Rightarrow> string \<Rightarrow> time_ms \<Rightarrow> string
    \<Rightarrow> group_invite_payload" where
  "new_invite g md local invitee role members nonce now call_id = \<lparr>ip_group_id = g, ip_group_title = md_title md,
     ip_inviter = local, ip_invitee = invitee, ip_nonce = nonce, ip_roster_epoch = md_roster_epoch md,
     ip_expires_at = Some (now + kGroupInviteTtlMs), ip_actor_role = role, ip_owner = md_owner md,
     ip_member_count = of_nat members, ip_context = (if call_id \<noteq> [] then kGroupInviteContextCall else []),
     ip_call_id = call_id\<rparr>"

definition outbound_invite :: "group_invite_payload \<Rightarrow> time_ms \<Rightarrow> pending_group_invite" where
  "outbound_invite invite now = \<lparr>pi_nonce = ip_nonce invite, pi_group_id = ip_group_id invite,
     pi_group_title = ip_group_title invite, pi_inviter = ip_inviter invite, pi_invitee = ip_invitee invite,
     pi_roster_epoch = ip_roster_epoch invite, pi_status = Pending, pi_expires_at = ip_expires_at invite,
     pi_created_at = now, pi_outbound = True, pi_owner = []\<rparr>"

definition send_invite ::
  "('o, 'v, 'e) flow_env_scheme \<Rightarrow> string \<Rightarrow> group_metadata \<Rightarrow> string \<Rightarrow> string \<Rightarrow> string \<Rightarrow> string \<Rightarrow> member_role
    \<Rightarrow> (('o, 'w) world_scheme, unit roe) state" where
  "send_invite e g md local invitee contact_id call_id role = do {
     members \<leftarrow> on_store (ListMembers g);
     let count = (case members of Inl _ \<Rightarrow> 0 | Inr rows \<Rightarrow> length rows);
     if count \<ge> kMaxGroupMembers then ret_err kGroupFullError
     else do {
       nonce \<leftarrow> fresh_id e;
       now \<leftarrow> clock e;
       let invite = new_invite g md local invitee role count nonce now call_id;
       now \<leftarrow> clock e;
       roe_then (on_store (RecordPendingInvite (outbound_invite invite now))) (\<lambda>_.
         SendInviteDirectMessage e invite contact_id)
     }
   }"

definition InviteIdentity ::
  "('o, 'v, 'e) flow_env_scheme \<Rightarrow> string \<Rightarrow> string \<Rightarrow> string \<Rightarrow> string \<Rightarrow> (('o, 'w) world_scheme, unit roe) state" where
  "InviteIdentity e g invitee contact_id call_id =
     roe_then (LoadMetadataOrError g) (\<lambda>md.
     given (LocalRelayIdentity e) (\<lambda>local.
       if md_sync_state md = Dissolved then ret_err kGroupDissolvedError
       else do {
         role \<leftarrow> LocalRole e g;
         case role of
           None \<Rightarrow> ret_err kGroupInviteNotAllowedError
         | Some r \<Rightarrow>
             if \<not> GroupAllows Invite r (md_preset md) Member then ret_err kGroupInviteNotAllowedError
             else if r \<noteq> Owner \<and> \<not> MaySend md
               then ret_err (if md_sync_state md = Removed then kGroupRemovedError else kGroupCheckingError)
             else if GroupAllows Readmit r (md_preset md) Member
               then send_invite e g md local invitee contact_id call_id r
             else do {
               now \<leftarrow> clock e;
               removed \<leftarrow> on_store (RemovedEntry (we_crypto e) (we_json e) g invitee (we_cards e) now);
               if removed \<noteq> None then ret_err kGroupInviteRemovedError
               else send_invite e g md local invitee contact_id call_id r
             }
       }))"

definition InviteMember ::
  "('o, 'v, 'e) flow_env_scheme \<Rightarrow> string \<Rightarrow> string \<Rightarrow> (('o, 'w) world_scheme, unit roe) state" where
  "InviteMember e g contact_id =
     given (ResolveRelayIdentity e contact_id) (\<lambda>invitee. InviteIdentity e g invitee contact_id [])"

definition InviteFromCall ::
  "('o, 'v, 'e) flow_env_scheme \<Rightarrow> string \<Rightarrow> string \<Rightarrow> string \<Rightarrow> (('o, 'w) world_scheme, unit roe) state" where
  "InviteFromCall e g invitee call_id =
     (if invitee = [] \<or> call_id = [] then ret_err ''An invite made in a call names the person and the call''
      else InviteIdentity e g invitee [] call_id)"

definition known_contact :: "('o, 'v, 'e) flow_env_scheme \<Rightarrow> string \<Rightarrow> string option" where
  "known_contact e identity = (case fe_contact_of e identity of Inr (Some c) \<Rightarrow> Some (ct_id c) | _ \<Rightarrow> None)"

definition InviteByIdentity ::
  "('o, 'v, 'e) flow_env_scheme \<Rightarrow> string \<Rightarrow> string \<Rightarrow> (('o, 'w) world_scheme, unit roe) state" where
  "InviteByIdentity e g invitee =
     (if invitee = [] then ret_err ''Choose someone to invite''
      else InviteIdentity e g invitee (value_or (known_contact e invitee) []) [])"

subsection \<open>A new group\<close>

definition StartGroup ::
  "('o, 'v, 'e) flow_env_scheme \<Rightarrow> string \<Rightarrow> string list \<Rightarrow> nat \<Rightarrow> string
    \<Rightarrow> (('o, 'w) world_scheme, chat_thread roe) state" where
  "StartGroup e title participants invitee_count context =
     given (LocalRelayIdentity e) (\<lambda>local.
       if invitee_count + 1 > kMaxGroupMembers then ret_err kGroupFullError
       else do {
         g \<leftarrow> GenerateGroupId e;
         roe_then (make_call (we_thread e) (FindOrCreateGroupThread g title participants)) (\<lambda>thread.
         roe_then (on_store (UpsertMetadata (new_metadata\<lparr>md_group_id := g, md_owner := local, md_title := title\<rparr>))) (\<lambda>_. do {
           now \<leftarrow> clock e;
           roe_then (on_store (UpsertMember g (new_member local Owner now))) (\<lambda>_. do {
             ignore (SignRoster e g None);
             roe_then (AppendMembershipSystemEvent e (th_id thread) MemberJoined
               (if context = [] then ''Owner created the group'' else kGroupMadeInCallLine)
               (EncodeMemberJoined (we_lib e) ((joined_alone g local Owner 1)\<lparr>jm_context := context\<rparr>)) local) (\<lambda>_.
               ret_ok thread)
           })
         }))
       })"

definition CreateGroup ::
  "('o, 'v, 'e) flow_env_scheme \<Rightarrow> string \<Rightarrow> string list \<Rightarrow> (('o, 'w) world_scheme, chat_thread roe) state" where
  "CreateGroup e title contact_ids =
     roe_then (StartGroup e title contact_ids (length contact_ids) []) (\<lambda>thread.
     roe_then (each_ok (InviteMember e (value_or (th_group_id thread) [])) contact_ids) (\<lambda>_. ret_ok thread))"

definition call_invitees :: "string \<Rightarrow> string list \<Rightarrow> string list" where
  "call_invitees local identities =
     fold (\<lambda>i invitees. if i \<noteq> [] \<and> i \<noteq> local \<and> i \<notin> set invitees then invitees @ [i] else invitees) identities []"

definition CreateGroupFromCall ::
  "('o, 'v, 'e) flow_env_scheme \<Rightarrow> string \<Rightarrow> string \<Rightarrow> string list \<Rightarrow> (('o, 'w) world_scheme, chat_thread roe) state" where
  "CreateGroupFromCall e title call_id identities =
     (if call_id = [] then ret_err ''call_id required''
      else given (LocalRelayIdentity e) (\<lambda>local.
        let invitees = call_invitees local identities
        in if invitees = [] then ret_err ''Pick someone from the call''
           else roe_then (StartGroup e title (List.map_filter (known_contact e) invitees) (length invitees)
               kGroupInviteContextCall) (\<lambda>thread. do {
             for_m (\<lambda>i. ignore (InviteIdentity e (value_or (th_group_id thread) []) i [] call_id)) invitees;
             ret_ok thread
           })))"

subsection \<open>An invite accepted or declined\<close>

definition EnterAcceptedGroup ::
  "('o, 'v, 'e) flow_env_scheme \<Rightarrow> pending_group_invite \<Rightarrow> string \<Rightarrow> bool \<Rightarrow> (('o, 'w) flow_scheme, chat_thread roe) state" where
  "EnterAcceptedGroup e pending local by_link =
     (let title = (if pi_group_title pending = [] then kDefaultGroupTitle else pi_group_title pending);
          epoch = (if pi_roster_epoch pending = 0 then 1 else pi_roster_epoch pending);
          owner = InviteOwner pending; g = pi_group_id pending
      in roe_then (on_store (UpsertMetadata (new_metadata\<lparr>md_group_id := g, md_owner := owner, md_title := title,
             md_roster_epoch := epoch\<rparr>))) (\<lambda>_.
         roe_then (make_call (we_thread e) (FindOrCreateGroupThread g title [])) (\<lambda>thread. do {
           now \<leftarrow> clock e;
           roe_then (on_store (UpsertMember g (new_member owner Owner now))) (\<lambda>_. do {
             (if pi_inviter pending \<noteq> owner
              then ignore (on_store (UpsertMember g (new_member (pi_inviter pending) Member now))) else nothing);
             now \<leftarrow> clock e;
             roe_then (on_store (UpsertMember g (new_member local Member now))) (\<lambda>_. do {
               ignore (on_store (UpdateInviteStatus (pi_nonce pending) Accepted));
               ignore (on_store (UpsertGroupTarget g (th_id thread) 1 1));
               w \<leftarrow> State_Monad.get;
               let made_in_call = CallOfInvite (fl_gate w) (pi_nonce pending) \<noteq> [];
               State_Monad.update (\<lambda>w. w\<lparr>fl_gate := ForgetInviteInCall (pi_nonce pending) (fl_gate w)\<rparr>);
               roe_then (AppendMembershipSystemEvent e (th_id thread) MemberJoined
                 (if made_in_call then kGroupMadeInCallLine else ''You joined the group'')
                 (EncodeMemberJoined (we_lib e) ((joined_alone g local Member epoch)
                   \<lparr>jm_context := (if made_in_call then kGroupInviteContextCall else []),
                    jm_added_by := (if by_link then pi_inviter pending else []), jm_by_link := by_link\<rparr>)) local) (\<lambda>_.
                 ret_ok thread)
             })
           })
         })))"

text \<open>In already: the answerer sends the bundle again.\<close>

definition thread_if_inside ::
  "('o, 'v, 'e) flow_env_scheme \<Rightarrow> string \<Rightarrow> string \<Rightarrow> (('o, 'w) world_scheme, chat_thread option) state" where
  "thread_if_inside e g local = do {
     inside \<leftarrow> on_store (IsMember g local);
     if inside \<noteq> Inr True then State_Monad.return None
     else do {
       over \<leftarrow> IsDissolved g;
       if over then State_Monad.return None
       else do {
         thread \<leftarrow> make_call (we_found e) (FindGroupThread g);
         State_Monad.return (case thread of Inr t \<Rightarrow> t | Inl _ \<Rightarrow> None)
       }
     }
   }"

definition JoinByLink ::
  "('o, 'v, 'e) flow_env_scheme \<Rightarrow> string \<Rightarrow> string \<Rightarrow> string \<Rightarrow> string \<Rightarrow> string
    \<Rightarrow> (('o, 'w) flow_scheme, chat_thread roe) state" where
  "JoinByLink e request_id g title owner answerer =
     given (LocalRelayIdentity e) (\<lambda>local. do {
       now \<leftarrow> clock e;
       let pending = JoinRecord request_id g title owner answerer local now;
       roe_then (on_store (UpsertPendingInvite pending)) (\<lambda>_. do {
         thread \<leftarrow> thread_if_inside e g local;
         case thread of Some t \<Rightarrow> ret_ok t | None \<Rightarrow> EnterAcceptedGroup e pending local True
       })
     })"

definition AcceptInvite ::
  "('o, 'v, 'e) flow_env_scheme \<Rightarrow> string \<Rightarrow> (('o, 'w) flow_scheme, chat_thread roe) state" where
  "AcceptInvite e nonce = do {
     loaded \<leftarrow> on_store (LoadPendingInvite nonce);
     now \<leftarrow> clock e;
     case loaded of
       Inr (Some pending) \<Rightarrow>
         if pi_outbound pending then ret_err ''Invite not found''
         else if pi_status pending \<noteq> Pending then ret_err ''Invite is not pending''
         else if (case pi_expires_at pending of None \<Rightarrow> False | Some t \<Rightarrow> now > t) then do {
           ignore (on_store (UpdateInviteStatus nonce Expired));
           ret_err kGroupInviteExpiredError
         }
         else given (LocalRelayIdentity e) (\<lambda>local.
           if local \<noteq> pi_invitee pending then ret_err ''Invite not addressed to local identity''
           else do {
             over \<leftarrow> IsDissolved (pi_group_id pending);
             if over then do {
               ignore (on_store (UpdateInviteStatus nonce Expired));
               ret_err kGroupDissolvedError
             }
             else roe_then (EnterAcceptedGroup e pending local False) (\<lambda>thread.
               roe_then (SendInviteResponseDirectMessage e (pi_inviter pending) nonce (pi_group_id pending) GroupInviteAccept) (\<lambda>_. do {
                 ignore (ResolveInviteCard e (pi_inviter pending) nonce Accepted (''You joined ''
                   @ (if pi_group_title pending = [] then kDefaultGroupTitle else pi_group_title pending)));
                 ret_ok thread
               }))
           })
     | _ \<Rightarrow> ret_err ''Invite not found''
   }"

definition DeclineInvite ::
  "('o, 'v, 'e) flow_env_scheme \<Rightarrow> string \<Rightarrow> (('o, 'w) flow_scheme, unit roe) state" where
  "DeclineInvite e nonce = do {
     loaded \<leftarrow> on_store (LoadPendingInvite nonce);
     case loaded of
       Inr (Some pending) \<Rightarrow>
         if pi_outbound pending then ret_err ''Invite not found''
         else if pi_status pending \<noteq> Pending then ret_err ''Invite is not pending''
         else given (LocalRelayIdentity e) (\<lambda>local.
           if local \<noteq> pi_invitee pending then ret_err ''Invite not addressed to local identity''
           else roe_then (on_store (UpdateInviteStatus nonce Declined)) (\<lambda>_. do {
             State_Monad.update (\<lambda>w. w\<lparr>fl_gate := ForgetInviteInCall nonce (fl_gate w)\<rparr>);
             ignore (SendInviteResponseDirectMessage e (pi_inviter pending) nonce (pi_group_id pending) GroupInviteDecline);
             ignore (ResolveInviteCard e (pi_inviter pending) nonce Declined (''You declined ''
               @ (if pi_group_title pending = [] then ''group invitation'' else pi_group_title pending)));
             ret_ok ()
           }))
     | _ \<Rightarrow> ret_err ''Invite not found''
   }"

definition DismissLocalGroup ::
  "('o, 'v, 'e) flow_env_scheme \<Rightarrow> string \<Rightarrow> (('o, 'w) world_scheme, unit roe) state" where
  "DismissLocalGroup e g =
     (if g = [] then ret_err ''group_id required''
      else do {
        (case LocalRelayIdentity e of Inl _ \<Rightarrow> nothing | Inr local \<Rightarrow> ignore (on_store (RemoveMember g local)));
        ignore (on_store (ClearGroupTarget g));
        ret_ok ()
      })"

end
