(* ===== verification/WorkflowNewcomers.thy ===== *)
theory WorkflowNewcomers
  imports WorkflowInvites
begin

section \<open>Newcomers admitted by this device\<close>

text \<open>
  Models \<open>AdmitInvitee\<close>, \<open>AdmitByLink\<close>, \<open>PublishMemberJoined\<close> and the join bundle of
  \<open>GroupMembershipWorkflow.cpp\<close>. \<open>AdmitNewcomer\<close> is given the lock and says by holding on to it that no
  add went out; here it returns that flag beside its result.
\<close>

subsection \<open>The join bundle\<close>

definition kRosterCardsBudgetBytes :: nat where
  "kRosterCardsBudgetBytes = 128 * 1024"

definition routed :: "('o, 'v, 'e) flow_env_scheme \<Rightarrow> 'o joined_entry \<Rightarrow> 'o joined_entry" where
  "routed e entry = (case fe_route e (jn_identity entry) of None \<Rightarrow> entry | Some r \<Rightarrow> entry\<lparr>jn_relay_user := r\<rparr>)"

text \<open>The loop of \<open>JoinBundleDetail\<close>; \<open>spent\<close> is \<open>card_bytes\<close>, which counts the cards left out, too.\<close>

fun bundle_entries ::
  "('o, 'v, 'e) flow_env_scheme \<Rightarrow> string \<Rightarrow> string \<Rightarrow> nat \<Rightarrow> 'o joined_entry list \<Rightarrow> 'o joined_entry list" where
  "bundle_entries e local newcomer spent [] = []"
| "bundle_entries e local newcomer spent (entry # entries) =
     (if jn_identity entry = local \<or> jn_identity entry = newcomer
      then entry # bundle_entries e local newcomer spent entries
      else case KeptCard e (jn_identity entry) of
        None \<Rightarrow> routed e entry # bundle_entries e local newcomer spent entries
      | Some card_json \<Rightarrow>
          let spent = spent + length (jl_dump (we_lib e) card_json)
          in (if spent \<le> kRosterCardsBudgetBytes then (routed e entry)\<lparr>jn_card := Some card_json\<rparr> else routed e entry)
             # bundle_entries e local newcomer spent entries)"

definition JoinBundleDetail ::
  "('o, 'v, 'e) flow_env_scheme \<Rightarrow> 'o joined_message \<Rightarrow> statement \<Rightarrow> string \<Rightarrow> (('o, 'w) world_scheme, string roe) state" where
  "JoinBundleDetail e joined st first =
     given (LocalRelayIdentity e) (\<lambda>local.
     given (WithStatement (we_lib e) (EncodeMemberJoined (we_lib e)
         (joined\<lparr>jm_members := bundle_entries e local (jm_identity joined) 0 (jm_members joined)\<rparr>)) st) (\<lambda>with_statement. do {
       changes \<leftarrow> on_store (ChangesForNewcomer (we_json e) (jm_group_id joined) first);
       State_Monad.return (WithChanges (we_lib e) with_statement changes)
     }))"

definition listed_entries :: "group_roster_member list \<Rightarrow> 'o joined_entry list" where
  "listed_entries = map (\<lambda>m. \<lparr>jn_identity = rm_identity m, jn_role = rm_role m, jn_card = None, jn_relay_user = []\<rparr>)"

text \<open>Our own copy keeps the line, not the bundle.\<close>

definition SendJoinBundle ::
  "('o, 'v, 'e) flow_env_scheme \<Rightarrow> string \<Rightarrow> string \<Rightarrow> string \<Rightarrow> string \<Rightarrow> string
    \<Rightarrow> (('o, 'w) world_scheme, unit roe) state" where
  "SendJoinBundle e g newcomer nonce added_by first =
     roe_then (LoadMetadataOrError g) (\<lambda>md.
       case Held (we_json e) md of
         None \<Rightarrow> ret_err ''No owner statement to bring a newcomer in with''
       | Some st \<Rightarrow> roe_then (on_store (ListMembers g)) (\<lambda>roster.
           let joined = (joined_alone g newcomer Member (md_roster_epoch md))\<lparr>jm_added_by := added_by,
                 jm_invite_nonce := nonce, jm_members := listed_entries roster\<rparr>
           in roe_then (JoinBundleDetail e joined st first) (\<lambda>detail.
                SendMembershipDirectMessage e newcomer MemberJoined detail ''Member joined the group''
                  (Some (EncodeMemberJoined (we_lib e) (joined\<lparr>jm_members := [], jm_invite_nonce := []\<rparr>))))))"

subsection \<open>The owner's newcomer\<close>

text \<open>The members get the routes we know and the newcomer's card.\<close>

definition member_entry ::
  "('o, 'v, 'e) flow_env_scheme \<Rightarrow> string \<Rightarrow> string \<Rightarrow> 'o joined_entry \<Rightarrow> 'o joined_entry" where
  "member_entry e local newcomer entry =
     (if jn_identity entry = local then entry
      else if jn_identity entry = newcomer then (routed e entry)\<lparr>jn_card := KeptCard e newcomer\<rparr>
      else routed e entry)"

definition PublishMemberJoined ::
  "('o, 'v, 'e) flow_env_scheme \<Rightarrow> string \<Rightarrow> string \<Rightarrow> u64 \<Rightarrow> string \<Rightarrow> (('o, 'w) world_scheme, unit roe) state" where
  "PublishMemberJoined e g newcomer epoch nonce =
     given (LocalRelayIdentity e) (\<lambda>local.
     roe_then (on_store (ListMembers g)) (\<lambda>roster.
       let payload = (joined_alone g newcomer Member epoch)\<lparr>jm_added_by := local, jm_members := listed_entries roster\<rparr>;
           plain = EncodeMemberJoined (we_lib e) payload in do {
         thread \<leftarrow> make_call (we_found e) (FindGroupThread g);
         (case thread of
            Inr (Some t) \<Rightarrow> ignore (AppendMembershipSystemEvent e (th_id t) MemberJoined ''Member joined the group'' plain local)
          | _ \<Rightarrow> nothing);
         roe_then (SignRoster e g None) (\<lambda>st. do {
           let members_detail = WithStatement (we_lib e) (EncodeMemberJoined (we_lib e)
             (payload\<lparr>jm_members := map (member_entry e local newcomer) (jm_members payload)\<rparr>)) st;
           newcomer_detail \<leftarrow> JoinBundleDetail e (payload\<lparr>jm_invite_nonce := nonce\<rparr>) st [];
           case (members_detail, newcomer_detail) of
             (Inr for_members, Inr for_newcomer) \<Rightarrow> do {
               FanOutPairwise (SelectPairwiseFanoutTargets (filter (\<lambda>i. i \<noteq> newcomer) (map rm_identity roster)) local None)
                 BestEffort (\<lambda>identity.
                   SendMembershipDirectMessage e identity MemberJoined for_members ''Member joined the group'' (Some plain));
               ignore (SendMembershipDirectMessage e newcomer MemberJoined for_newcomer ''Member joined the group'' (Some plain));
               ret_ok ()
             }
           | _ \<Rightarrow> ret_err ''member_joined: could not encode''
         })
       }))"

subsection \<open>Anyone's newcomer\<close>

record admission =
  ad_group_id :: string
  ad_member :: string
  ad_invite_nonce :: string
  ad_link_id :: string
  ad_bundle_nonce :: string

definition RefuseAdmit ::
  "('o, 'v, 'e) flow_env_scheme \<Rightarrow> string \<Rightarrow> string \<Rightarrow> string \<Rightarrow> string \<Rightarrow> (('o, 'w) world_scheme, unit) state" where
  "RefuseAdmit e g nonce member reason = do {
     ignore (on_store (UpdateInviteStatus nonce Expired));
     ignore (RefuseInvite e g nonce member reason)
   }"

definition by_invite :: "admission \<Rightarrow> bool" where
  "by_invite a \<longleftrightarrow> ad_invite_nonce a \<noteq> []"

definition accepted_invite :: "admission \<Rightarrow> (('o, 'w) world_scheme, unit) state" where
  "accepted_invite a = (if by_invite a then ignore (on_store (UpdateInviteStatus (ad_invite_nonce a) Accepted)) else nothing)"

definition signed_add ::
  "('o, 'v, 'e) flow_env_scheme \<Rightarrow> admission \<Rightarrow> string \<Rightarrow> string \<Rightarrow> time_ms \<Rightarrow> (('o, 'w) world_scheme, group_change roe) state" where
  "signed_add e a local device now =
     roe_then (on_store (if by_invite a
         then DraftAdd (we_crypto e) (we_json e) (ad_group_id a) local device (ad_member a) (ad_invite_nonce a) (we_cards e) now
         else DraftLinkJoin (we_crypto e) (we_json e) (ad_group_id a) local device (ad_member a) (ad_link_id a) (we_cards e) now))
       (SignOwnChange e)"

text \<open>Whether the add counts in the roster recomputed with it, and why it does not.\<close>

definition counts_in :: "group_view_applied roe \<Rightarrow> string \<Rightarrow> bool" where
  "counts_in applied member = (case applied of Inl _ \<Rightarrow> False | Inr a \<Rightarrow>
     (case va_view a of None \<Rightarrow> False | Some view \<Rightarrow> ViewLists view member))"

definition found_full :: "group_view_applied roe \<Rightarrow> string \<Rightarrow> bool" where
  "found_full applied add_id = (case applied of Inl _ \<Rightarrow> False | Inr a \<Rightarrow>
     (case va_view a of None \<Rightarrow> False | Some view \<Rightarrow>
       (case ViewVerdict view add_id of None \<Rightarrow> False | Some v \<Rightarrow> v_reason v = GroupFull)))"

text \<open>The add held and applied; one that does not count is dropped again.\<close>

definition take_add ::
  "('o, 'v, 'e) flow_env_scheme \<Rightarrow> string \<Rightarrow> string \<Rightarrow> group_change \<Rightarrow> time_ms \<Rightarrow> (('o, 'w) world_scheme, unit roe) state" where
  "take_add e g member add now =
     roe_then (on_store (HoldChange (we_crypto e) (we_json e) add (we_cards e) now True)) (\<lambda>outcome.
       if outcome \<noteq> HeldProved then ret_err ''The add does not prove itself on this device''
       else do {
         applied \<leftarrow> on_store (ApplyView (we_crypto e) (we_json e) g (we_cards e) now);
         if counts_in applied member then ret_ok ()
         else do {
           ignore (on_store (DeleteGroupChanges g [ChangeId (we_crypto e) add]));
           ignore (on_store (ApplyView (we_crypto e) (we_json e) g (we_cards e) now));
           ret_err (if found_full applied (ChangeId (we_crypto e) add) then kGroupFullError else kGroupInviteNotAllowedError)
         }
       })"

definition publish_add ::
  "('o, 'v, 'e) flow_env_scheme \<Rightarrow> admission \<Rightarrow> group_change \<Rightarrow> string \<Rightarrow> (('o, 'w) flow_scheme, unit roe) state" where
  "publish_add e a add local = do {
     accepted_invite a;
     ignore (on_store (ExpireOutboundInvitesTo (ad_group_id a) (ad_member a)));
     FanOutChange e (ad_group_id a) add [] (Some \<lparr>cn_identity = ad_member a, cn_card = KeptCard e (ad_member a),
       cn_relay_user = value_or (fe_route e (ad_member a)) []\<rparr>);
     after_own_change e (ad_group_id a) add local;
     SendJoinBundle e (ad_group_id a) (ad_member a) (ad_bundle_nonce a) local (ChangeId (we_crypto e) add)
   }"

definition AdmitNewcomer ::
  "('o, 'v, 'e) flow_env_scheme \<Rightarrow> admission \<Rightarrow> (('o, 'w) flow_scheme, bool \<times> unit roe) state" where
  "AdmitNewcomer e a =
     (case (LocalRelayIdentity e, fe_own_device e) of
        (Inl x, _) \<Rightarrow> State_Monad.return (True, Inl x)
      | (Inr local, Inl x) \<Rightarrow> State_Monad.return (True, Inl x)
      | (Inr local, Inr device) \<Rightarrow> do {
          now \<leftarrow> clock e;
          inside \<leftarrow> on_store (IsMember (ad_group_id a) (ad_member a));
          if inside = Inr True then do {
            accepted_invite a;
            sent \<leftarrow> SendJoinBundle e (ad_group_id a) (ad_member a) (ad_bundle_nonce a) [] [];
            State_Monad.return (False, sent)
          }
          else do {
            add \<leftarrow> signed_add e a local device now;
            case add of
              Inl x \<Rightarrow> State_Monad.return (True, Inl x)
            | Inr c \<Rightarrow> do {
                counted \<leftarrow> take_add e (ad_group_id a) (ad_member a) c now;
                case counted of
                  Inl x \<Rightarrow> State_Monad.return (True, Inl x)
                | Inr _ \<Rightarrow> do {
                    sent \<leftarrow> publish_add e a c local;
                    State_Monad.return (False, sent)
                  }
              }
          }
        })"

text \<open>An invite of ours to them, for this group.\<close>

definition our_invite :: "string \<Rightarrow> string \<Rightarrow> pending_group_invite \<Rightarrow> bool" where
  "our_invite g member pending \<longleftrightarrow> pi_outbound pending \<and> pi_group_id pending = g \<and> pi_invitee pending = member"

definition AdmitInvitee ::
  "('o, 'v, 'e) flow_env_scheme \<Rightarrow> string \<Rightarrow> string \<Rightarrow> string \<Rightarrow> (('o, 'w) flow_scheme, unit roe) state" where
  "AdmitInvitee e g nonce member = do {
     loaded \<leftarrow> on_store (LoadPendingInvite nonce);
     case loaded of
       Inr (Some pending) \<Rightarrow>
         if \<not> our_invite g member pending then ret_err ''No invite of ours for this accept''
         else if pi_status pending = Accepted then ret_ok ()
         else do {
           (none_sent, admitted) \<leftarrow> AdmitNewcomer e \<lparr>ad_group_id = g, ad_member = member, ad_invite_nonce = nonce,
             ad_link_id = [], ad_bundle_nonce = nonce\<rparr>;
           (case admitted of
              Inl x \<Rightarrow> if none_sent
                then RefuseAdmit e g nonce member
                  (if error_message x = kGroupFullError then kInviteRefusedGroupFull else kInviteRefusedNotAllowed)
                else nothing
            | Inr _ \<Rightarrow> nothing);
           State_Monad.return admitted
         }
     | _ \<Rightarrow> ret_err ''No invite of ours for this accept''
   }"

definition AdmitByLink ::
  "('o, 'v, 'e) flow_env_scheme \<Rightarrow> string \<Rightarrow> string \<Rightarrow> string \<Rightarrow> string \<Rightarrow> (('o, 'w) flow_scheme, unit roe) state" where
  "AdmitByLink e g link_id member request_id = do {
     (none_sent, admitted) \<leftarrow> AdmitNewcomer e \<lparr>ad_group_id = g, ad_member = member, ad_invite_nonce = [],
       ad_link_id = link_id, ad_bundle_nonce = request_id\<rparr>;
     State_Monad.return admitted
   }"

end
