(* ===== verification/WorkflowGroups.thy ===== *)
theory WorkflowGroups
  imports WorkflowNewcomers
begin

section \<open>What the workflow does to a group\<close>

text \<open>
  Models the rest of \<open>GroupMembershipWorkflow.cpp\<close>: members removed, the group left, handed over and
  dissolved, what a dissolve still has to send, members out of reach, forks, roles, presets and renames,
  and the groups written to and restored from the account's locker.
\<close>

subsection \<open>Members out of reach\<close>

definition IsMemberUnreachable :: "string \<Rightarrow> string \<Rightarrow> (('o, 'w) flow_scheme, bool) state" where
  "IsMemberUnreachable g member = do { w \<leftarrow> State_Monad.get; State_Monad.return ((g, member) \<in> set (fl_unreachable w)) }"

definition ListUnreachable :: "string \<Rightarrow> (('o, 'w) flow_scheme, string list) state" where
  "ListUnreachable g = do {
     w \<leftarrow> State_Monad.get;
     State_Monad.return (map snd (filter (\<lambda>p. fst p = g) (fl_unreachable w)))
   }"

definition IsOwnerUnreachable :: "string \<Rightarrow> (('o, 'w) flow_scheme, bool) state" where
  "IsOwnerUnreachable g = do {
     metadata \<leftarrow> on_store (LoadMetadata g);
     case metadata of
       Inr (Some md) \<Rightarrow> if md_sync_state md = Dissolved then State_Monad.return False else IsMemberUnreachable g (md_owner md)
     | _ \<Rightarrow> State_Monad.return False
   }"

text \<open>
  The note on an owner out of reach. Its texts have typographic characters in the code (a right single
  quotation mark and a dash), written as UTF-8 by \<open>CHR\<close>.
\<close>

definition quote_mark :: string where
  "quote_mark = [CHR 0xE2, CHR 0x80, CHR 0x99]"

definition dash :: string where
  "dash = [CHR 0xE2, CHR 0x80, CHR 0x94]"

definition advisory_title :: string where
  "advisory_title = ''Owner hasn'' @ quote_mark @ ''t been reachable''"

definition advisory_body :: string where
  "advisory_body = ''You can keep chatting with people who are online. Inviting, renaming for everyone, and removing ''
     @ ''members need the owner. If they'' @ quote_mark @ ''ve left for good, start a new group from this one.''"

definition noted_text :: string where
  "noted_text = ''Noted '' @ dash @ '' you can keep chatting with people who are online.''"

definition open_advisory :: "('o, 'v) json_lib \<Rightarrow> thread_message \<Rightarrow> bool" where
  "open_advisory L m \<longleftrightarrow> IsOwnerUnreachableAdvisory L m \<and> \<not> IsOwnerUnreachableResolved L m"

definition EnsureOwnerUnreachableAdvisory ::
  "('o, 'v, 'e) flow_env_scheme \<Rightarrow> string \<Rightarrow> (('o, 'w) world_scheme, unit roe) state" where
  "EnsureOwnerUnreachableAdvisory e g =
     roe_then (LoadMetadataOrError g) (\<lambda>md.
       if md_sync_state md = Dissolved then ret_ok ()
       else do {
         thread \<leftarrow> make_call (we_found e) (FindGroupThread g);
         case thread of
           Inr (Some t) \<Rightarrow> roe_then (make_call (we_page e) (GetMessagesPage (th_id t) 500)) (\<lambda>page.
             if \<exists>m \<in> set page. open_advisory (we_lib e) m then ret_ok ()
             else do {
               m \<leftarrow> SystemLine e (th_id t) GroupOwnerUnreachable (advisory_title @ [CHR 10] @ advisory_body)
                 (jl_dump (we_lib e) (set_text (we_lib e) ''owner_identity'' (md_owner md)
                   (set_text (we_lib e) ''group_id'' g (jl_empty (we_lib e))))) (md_owner md);
               make_call (we_result e) (AppendMessage (m\<lparr>tm_chat_actions :=
                 BuildOwnerUnreachableChatActions (we_lib e) g (md_owner md), tm_text := advisory_title\<rparr>))
             })
         | _ \<Rightarrow> ret_ok ()
       })"

definition ResolveOwnerUnreachableAdvisory ::
  "('o, 'v, 'e) flow_env_scheme \<Rightarrow> string \<Rightarrow> (('o, 'w) world_scheme, unit roe) state" where
  "ResolveOwnerUnreachableAdvisory e g = do {
     thread \<leftarrow> make_call (we_found e) (FindGroupThread g);
     case thread of
       Inr (Some t) \<Rightarrow> roe_then (make_call (we_page e) (GetMessagesPage (th_id t) 500)) (\<lambda>page. do {
         for_m (\<lambda>m. ignore (make_call (we_result e) (UpdateMessage
           ((ApplyOwnerUnreachableResolution (we_lib e) m)\<lparr>tm_text := noted_text\<rparr>))))
           (filter (open_advisory (we_lib e)) page);
         ret_ok ()
       })
     | _ \<Rightarrow> ret_ok ()
   }"

definition MarkMemberUnreachable ::
  "('o, 'v, 'e) flow_env_scheme \<Rightarrow> string \<Rightarrow> string \<Rightarrow> (('o, 'w) flow_scheme, unit) state" where
  "MarkMemberUnreachable e g member =
     (if g = [] \<or> member = [] then nothing
      else do {
        State_Monad.update (\<lambda>w. w\<lparr>fl_unreachable := os_insert (g, member) (fl_unreachable w)\<rparr>);
        metadata \<leftarrow> on_store (LoadMetadata g);
        case (metadata, LocalRelayIdentity e) of
          (Inr (Some md), Inr local) \<Rightarrow>
            if md_owner md = member \<and> local \<noteq> member then ignore (EnsureOwnerUnreachableAdvisory e g) else nothing
        | _ \<Rightarrow> nothing
      })"

definition ClearMemberUnreachable ::
  "('o, 'v, 'e) flow_env_scheme \<Rightarrow> string \<Rightarrow> string \<Rightarrow> (('o, 'w) flow_scheme, unit) state" where
  "ClearMemberUnreachable e g member =
     (if g = [] \<or> member = [] then nothing
      else do {
        State_Monad.update (\<lambda>w. w\<lparr>fl_unreachable := os_erase (g, member) (fl_unreachable w)\<rparr>);
        metadata \<leftarrow> on_store (LoadMetadata g);
        case metadata of
          Inr (Some md) \<Rightarrow> if md_owner md = member then ignore (ResolveOwnerUnreachableAdvisory e g) else nothing
        | _ \<Rightarrow> nothing
      })"

definition OpenOwnerDirectMessage ::
  "('o, 'v, 'e) flow_env_scheme \<Rightarrow> string \<Rightarrow> (('o, 'w) world_scheme, chat_thread roe) state" where
  "OpenOwnerDirectMessage e owner = (if owner = [] then ret_err ''owner_identity required'' else direct_thread e owner)"

subsection \<open>Members removed\<close>

definition RemoveAsOwner ::
  "('o, 'v, 'e) flow_env_scheme \<Rightarrow> string \<Rightarrow> string \<Rightarrow> group_change option \<Rightarrow> (('o, 'w) flow_scheme, unit roe) state" where
  "RemoveAsOwner e g member removal =
     given (LocalRelayIdentity e) (\<lambda>local.
     roe_then (LoadMetadataOrError g) (\<lambda>md. do {
       (case removal of
          None \<Rightarrow> nothing
        | Some c \<Rightarrow> do {
            now \<leftarrow> clock e;
            ignore (on_store (HoldChange (we_crypto e) (we_json e) c (we_cards e) now True))
          });
       let event = \<lparr>mr_group_id = g, mr_identity = member, mr_roster_epoch = md_roster_epoch md + 1\<rparr>;
       roe_then (on_store (ApplyMemberRemovedToRoster event local)) (\<lambda>_. do {
         let detail = EncodeMemberRemoved (we_lib e) (member_removed_payload.extend event (removed_message.fields local));
         sent \<leftarrow> WithSignedRoster e g detail;
         ignore (on_store (ExpireOutboundInvitesTo g member));
         ClearMemberUnreachable e g member;
         thread \<leftarrow> make_call (we_found e) (FindGroupThread g);
         case thread of
           Inr (Some t) \<Rightarrow>
             roe_then (AppendMembershipSystemEvent e (th_id t) MemberRemoved ''Member removed'' detail local) (\<lambda>_.
               FanOutMembershipEvent e g MemberRemoved sent ''Member removed'' local (Some member))
         | _ \<Rightarrow> ret_err ''Group thread not found''
       })
     }))"

definition RemoveAsAdmin ::
  "('o, 'v, 'e) flow_env_scheme \<Rightarrow> string \<Rightarrow> group_change \<Rightarrow> (('o, 'w) flow_scheme, unit roe) state" where
  "RemoveAsAdmin e g removal =
     given (LocalRelayIdentity e) (\<lambda>local. do {
       now \<leftarrow> clock e;
       roe_then (on_store (HoldChange (we_crypto e) (we_json e) removal (we_cards e) now True)) (\<lambda>outcome.
         if outcome \<noteq> HeldProved then ret_err ''The removal does not prove itself on this device (its card is not here)''
         else do {
           FanOutChange e g removal (c_member removal) None;
           roe_then (on_store (ApplyView (we_crypto e) (we_json e) g (we_cards e) now)) (\<lambda>_. do {
             ignore (on_store (ExpireOutboundInvitesTo g (c_member removal)));
             ClearMemberUnreachable e g (c_member removal);
             metadata \<leftarrow> on_store (LoadMetadata g);
             (case metadata of
                Inr (Some md) \<Rightarrow> ignore (AppendChangeLines e g [removal] (md_roster_epoch md) local)
              | _ \<Rightarrow> nothing);
             ret_ok ()
           })
         })
     })"

text \<open>A change of this device drafted: it names the device.\<close>

definition own_draft ::
  "('o, 'v, 'e) flow_env_scheme \<Rightarrow> (string \<Rightarrow> time_ms \<Rightarrow> group_change store_op)
    \<Rightarrow> (('o, 'w) world_scheme, group_change roe) state" where
  "own_draft e draft = given (fe_own_device e) (\<lambda>device. do { now \<leftarrow> clock e; on_store (draft device now) })"

definition RemoveMemberInternal ::
  "('o, 'v, 'e) flow_env_scheme \<Rightarrow> string \<Rightarrow> string \<Rightarrow> (('o, 'w) flow_scheme, unit roe) state" where
  "RemoveMemberInternal e g member =
     given (LocalRelayIdentity e) (\<lambda>local.
     roe_then (LoadMetadataOrError g) (\<lambda>md.
       if md_sync_state md = Dissolved then ret_err kGroupDissolvedError
       else if member = local
         then ret_err (if local = md_owner md
           then ''Owner cannot remove self '' @ dash @ '' transfer ownership or leave'' else ''Leave the group instead'')
       else do {
         draft \<leftarrow> own_draft e (\<lambda>device now. DraftRemove (we_crypto e) (we_json e) g local device member now);
         case draft of
           Inl x \<Rightarrow> if local \<noteq> md_owner md then State_Monad.return (Inl x) else RemoveAsOwner e g member None
         | Inr d \<Rightarrow> do {
             signed \<leftarrow> SignOwnChange e d;
             let removal = (case signed of Inl _ \<Rightarrow> None | Inr c \<Rightarrow> Some c);
             if local = md_owner md then RemoveAsOwner e g member removal
             else case removal of
               None \<Rightarrow> ret_err ''The removal could not be signed on this device''
             | Some c \<Rightarrow> RemoveAsAdmin e g c
           }
       }))"

definition RemoveMemberOf ::
  "('o, 'v, 'e) flow_env_scheme \<Rightarrow> string \<Rightarrow> string \<Rightarrow> (('o, 'w) flow_scheme, unit roe) state" where
  "RemoveMemberOf e g contact_id = given (ResolveRelayIdentity e contact_id) (RemoveMemberInternal e g)"

definition RemoveMemberByIdentity ::
  "('o, 'v, 'e) flow_env_scheme \<Rightarrow> string \<Rightarrow> string \<Rightarrow> (('o, 'w) flow_scheme, unit roe) state" where
  "RemoveMemberByIdentity e g member =
     (if member = [] then ret_err ''member_identity required'' else RemoveMemberInternal e g member)"

text \<open>One call per account; how many went through.\<close>

fun count_ok :: "('a \<Rightarrow> ('s, unit roe) state) \<Rightarrow> 'a list \<Rightarrow> nat \<Rightarrow> ('s, nat) state" where
  "count_ok f [] n = State_Monad.return n"
| "count_ok f (x # xs) n = do { r \<leftarrow> f x; count_ok f xs (case r of Inl _ \<Rightarrow> n | Inr _ \<Rightarrow> Suc n) }"

definition MembersAddedBy :: "string \<Rightarrow> string \<Rightarrow> (('o, 'w) world_scheme, string list) state" where
  "MembersAddedBy g account = do {
     members \<leftarrow> on_store (ListMembers g);
     State_Monad.return (case members of
       Inl _ \<Rightarrow> []
     | Inr rows \<Rightarrow> if account = [] then []
         else map rm_identity (filter (\<lambda>m. rm_added_by m = account \<and> rm_identity m \<noteq> account) rows))
   }"

definition AccountsRemovedBy ::
  "('o, 'v, 'e) world_env_scheme \<Rightarrow> string \<Rightarrow> string \<Rightarrow> (('o, 'w) world_scheme, string list) state" where
  "AccountsRemovedBy e g account = do {
     now \<leftarrow> clock e;
     on_store (RemovedBy (we_crypto e) (we_json e) g account (we_cards e) now)
   }"

definition RemoveEveryoneAddedBy ::
  "('o, 'v, 'e) flow_env_scheme \<Rightarrow> string \<Rightarrow> string \<Rightarrow> (('o, 'w) flow_scheme, nat roe) state" where
  "RemoveEveryoneAddedBy e g account =
     given (LocalRelayIdentity e) (\<lambda>local. do {
       role \<leftarrow> LocalRole e g;
       if role \<noteq> Some Owner \<and> role \<noteq> Some Admin
       then ret_err ''Only the owner and admins remove people from the group''
       else do {
         added \<leftarrow> on_store (RemovableAddedBy g local account);
         just (count_ok (RemoveMemberInternal e g) added 0)
       }
     })"

definition ReinviteEveryoneRemovedBy ::
  "('o, 'v, 'e) flow_env_scheme \<Rightarrow> string \<Rightarrow> string \<Rightarrow> (('o, 'w) flow_scheme, nat roe) state" where
  "ReinviteEveryoneRemovedBy e g account = do {
     role \<leftarrow> LocalRole e g;
     if role \<noteq> Some Owner then ret_err ''Only the group owner re-invites everyone someone removed''
     else do {
       removed \<leftarrow> AccountsRemovedBy e g account;
       just (count_ok (InviteByIdentity e g) removed 0)
     }
   }"

subsection \<open>Leaving\<close>

text \<open>Leaving here always proceeds, signed or not.\<close>

definition LeaveGroup ::
  "('o, 'v, 'e) flow_env_scheme \<Rightarrow> string \<Rightarrow> (('o, 'w) world_scheme, unit roe) state" where
  "LeaveGroup e g =
     given (LocalRelayIdentity e) (\<lambda>local.
     roe_then (LoadMetadataOrError g) (\<lambda>md.
       if local = md_owner md then ret_err ''Owner must transfer ownership before leaving''
       else do {
         now \<leftarrow> clock e;
         signed \<leftarrow> roe_then (given (fe_own_device e) (\<lambda>device.
             on_store (DraftLeave (we_crypto e) (we_json e) g local device now))) (SignOwnChange e);
         (case signed of
            Inl _ \<Rightarrow> nothing
          | Inr c \<Rightarrow> do {
              ignore (on_store (HoldChange (we_crypto e) (we_json e) c (we_cards e) now True));
              FanOutChange e g c [] None;
              ignore (on_store (ApplyView (we_crypto e) (we_json e) g (we_cards e) now))
            });
         still \<leftarrow> on_store (IsMember g local);
         (if still = Inr True then ignore (on_store (RemoveMember g local)) else nothing);
         ignore (on_store (ClearGroupTarget g));
         ret_ok ()
       }))"

text \<open>The hand-over, signed, lets members trust the new owner's statements.\<close>

definition with_hand_over ::
  "('o, 'v, 'e) flow_env_scheme \<Rightarrow> owner_transferred_payload \<Rightarrow> string \<Rightarrow> string" where
  "with_hand_over e transfer detail =
     (case SigningKey e of
        Inl _ \<Rightarrow> detail
      | Inr key \<Rightarrow> (case SignTransfer (fe_signer e) key (ot_group_id transfer) (ot_new_owner transfer) (ot_roster_epoch transfer) of
          Inl _ \<Rightarrow> detail
        | Inr handed \<Rightarrow> (case WithTransfer (we_lib e) detail handed of Inl _ \<Rightarrow> detail | Inr with \<Rightarrow> with)))"

definition LeaveAsOwner ::
  "('o, 'v, 'e) flow_env_scheme \<Rightarrow> string \<Rightarrow> string \<Rightarrow> (('o, 'w) flow_scheme, unit roe) state" where
  "LeaveAsOwner e g successor =
     given (LocalRelayIdentity e) (\<lambda>local.
     roe_then (LoadMetadataOrError g) (\<lambda>md.
       if local \<noteq> md_owner md then ret_err ''Only the group owner may transfer ownership''
       else if successor = [] \<or> successor = local then ret_err ''Choose a different member as the new owner''
       else roe_then (on_store (IsMember g successor)) (\<lambda>member.
         if \<not> member then ret_err ''Successor must be a group member''
         else do {
           unreachable \<leftarrow> IsMemberUnreachable g successor;
           if unreachable
           then ret_err (''Successor is unreachable '' @ dash @ '' dismiss locally or pick someone else'')
           else do {
             let transfer = \<lparr>ot_group_id = g, ot_new_owner = successor, ot_roster_epoch = md_roster_epoch md + 1,
               ot_leave_previous = True\<rparr>;
             now \<leftarrow> clock e;
             roe_then (on_store (ApplyOwnerTransferredToRoster transfer local now)) (\<lambda>_. do {
               ignore (FanOutMembershipEvent e g OwnerTransferred
                 (with_hand_over e transfer (EncodeOwnerTransferred (we_lib e) transfer)) ''Group ownership transferred'' local None);
               ignore (on_store (ClearGroupTarget g));
               ret_ok ()
             })
           }
         })))"

subsection \<open>The group ended\<close>

definition AppendDissolvedLine ::
  "('o, 'v, 'e) flow_env_scheme \<Rightarrow> string \<Rightarrow> string \<Rightarrow> string \<Rightarrow> (('o, 'w) world_scheme, unit) state" where
  "AppendDissolvedLine e g owner sender = do {
     added \<leftarrow> EnsureDissolvedLine e g owner sender;
     case added of
       Inr (Some thread_id) \<Rightarrow> do {
         thread \<leftarrow> make_call (we_found e) (GetThread thread_id);
         case thread of
           Inr (Some t) \<Rightarrow> do {
             now \<leftarrow> clock e;
             ignore (make_call (we_result e) (UpsertThread (t\<lparr>th_preview := fe_words e ''chat.group.dissolved_preview'',
               th_updated_at := now\<rparr>)))
           }
         | _ \<Rightarrow> nothing
       }
     | _ \<Rightarrow> nothing
   }"

definition OnGroupDissolvedElsewhere ::
  "('o, 'v, 'e) flow_env_scheme \<Rightarrow> group_dissolved_end \<Rightarrow> (('o, 'w) world_scheme, unit) state" where
  "OnGroupDissolvedElsewhere e ended =
     (case LocalRelayIdentity e of
        Inl _ \<Rightarrow> nothing
      | Inr local \<Rightarrow> do {
          added \<leftarrow> EnsureDissolvedLine e (de_group_id ended) (de_owner ended)
            (if de_owner ended = local then kLocalSelfContactId else de_owner ended);
          (case added of Inr (Some thread) \<Rightarrow> tell (SurfaceGroupDissolved thread) | _ \<Rightarrow> nothing);
          for_m (\<lambda>i. ignore (ResolveInviteCard e (pi_inviter i) (pi_nonce i) Expired ''This group was dissolved''))
            (filter (\<lambda>i. \<not> pi_outbound i) (de_voided ended))
        })"

record state_group_member =
  gm_identity :: string
  gm_role :: string
  gm_joined_at :: time_ms
  gm_contact_id :: string

record state_group =
  ag_group_id :: string
  ag_title :: string
  ag_owner :: string
  ag_roster_epoch :: u64
  ag_title_version :: u64
  ag_policy_json :: string
  ag_members :: "state_group_member list"
  ag_statement_json :: string
  ag_left :: bool
  ag_dissolved :: bool

definition EndDissolvedFromLocker ::
  "('o, 'v, 'e) flow_env_scheme \<Rightarrow> state_group \<Rightarrow> (('o, 'w) world_scheme, unit) state" where
  "EndDissolvedFromLocker e ag =
     (case LocalRelayIdentity e of
        Inl _ \<Rightarrow> nothing
      | Inr local \<Rightarrow> do {
          member \<leftarrow> on_store (IsMember (ag_group_id ag) local);
          if member \<noteq> Inr True then nothing
          else do {
            over \<leftarrow> IsDissolved (ag_group_id ag);
            if over then nothing
            else do {
              ended \<leftarrow> on_store (EndGroupInRoster (ag_group_id ag) (ag_owner ag) (ag_roster_epoch ag) [] []);
              case ended of
                Inr x \<Rightarrow> if da_applied x
                  then OnGroupDissolvedElsewhere e \<lparr>de_group_id = ag_group_id ag, de_owner = ag_owner ag, de_voided = da_voided x\<rparr>
                  else nothing
              | Inl _ \<Rightarrow> nothing
            }
          }
        })"

text \<open>A row goes once its copy has reached the outbox; a row of a type unknown here cannot be sent.\<close>

fun resume_sends ::
  "('o, 'v, 'e) flow_env_scheme \<Rightarrow> pending_group_send list \<Rightarrow> bool \<Rightarrow> (('o, 'w) world_scheme, bool) state" where
  "resume_sends e [] all_sent = State_Monad.return all_sent"
| "resume_sends e (send # sends) all_sent =
     (case GroupMembershipControlTypeFromWire (ps_control_type send) of
        None \<Rightarrow> do {
          ignore (on_store (DeletePendingSend send));
          resume_sends e sends all_sent
        }
      | Some type \<Rightarrow> do {
          sent \<leftarrow> SendMembershipDirectMessage e (ps_recipient send) type (ps_detail_json send) (ps_display send) None;
          case sent of
            Inr _ \<Rightarrow> do {
              ignore (on_store (DeletePendingSend send));
              resume_sends e sends all_sent
            }
          | Inl _ \<Rightarrow> resume_sends e sends False
        })"

definition kRetryDelaysMs :: "time_ms list" where
  "kRetryDelaysMs = [30000, 120000, 600000]"

definition ResumePendingGroupSends ::
  "('o, 'v, 'e) flow_env_scheme \<Rightarrow> nat \<Rightarrow> (('o, 'w) world_scheme, unit) state" where
  "ResumePendingGroupSends e attempt = do {
     stop \<leftarrow> shutting_down e;
     if stop then nothing
     else do {
       pending \<leftarrow> on_store (ListPendingSends []);
       case pending of
         Inl _ \<Rightarrow> nothing
       | Inr sends \<Rightarrow> do {
           all_sent \<leftarrow> resume_sends e sends True;
           if \<not> all_sent \<and> attempt < length kRetryDelaysMs then tell (ResumeTimer attempt) else nothing
         }
     }
   }"

definition resume_timer_fires :: "('o, 'v, 'e) flow_env_scheme \<Rightarrow> nat \<Rightarrow> (('o, 'w) world_scheme, unit) state" where
  "resume_timer_fires e attempt = ResumePendingGroupSends e (attempt + 1)"

definition dissolve_rows :: "string \<Rightarrow> string list \<Rightarrow> string \<Rightarrow> pending_group_send list" where
  "dissolve_rows g recipients detail = map (\<lambda>i. \<lparr>ps_group_id = g, ps_recipient = i,
     ps_control_type = GroupMembershipControlTypeToWire GroupDissolved, ps_detail_json = detail,
     ps_display = ''The group owner dissolved this group''\<rparr>) recipients"

definition refusal_rows :: "('o, 'v) json_lib \<Rightarrow> string \<Rightarrow> pending_group_invite list \<Rightarrow> pending_group_send list" where
  "refusal_rows L g invites = map (\<lambda>i. \<lparr>ps_group_id = g, ps_recipient = pi_invitee i,
     ps_control_type = GroupMembershipControlTypeToWire GroupInviteRefused,
     ps_detail_json = EncodeInviteRefused L (pi_nonce i) g kInviteRefusedGroupDissolved,
     ps_display = RefusedDisplay kInviteRefusedGroupDissolved\<rparr>) invites"

text \<open>
  The part of \<open>DissolveGroup\<close> under the lock: signed before anything changes here, and what has to be
  sent written with the ending itself. The detail for our other devices.
\<close>

definition end_own_group ::
  "('o, 'v, 'e) flow_env_scheme \<Rightarrow> string \<Rightarrow> group_metadata \<Rightarrow> string \<Rightarrow> (('o, 'w) world_scheme, string roe) state" where
  "end_own_group e g md local =
     roe_then (on_store (ListMembers g)) (\<lambda>members.
       let recipients = filter (\<lambda>i. i \<noteq> local) (map rm_identity members);
           epoch = md_roster_epoch md + 1;
           signed = SignDissolved e md members epoch;
           detail = (case signed of Inl _ \<Rightarrow> [] | Inr st \<Rightarrow> EncodeStatement (we_lib e) st);
           text = (case signed of Inl _ \<Rightarrow> [] | Inr st \<Rightarrow> js_statement (we_json e) st)
       in case (signed, recipients) of
         (Inl x, _ # _) \<Rightarrow> State_Monad.return (Inl x)
       | _ \<Rightarrow> do {
           waiting \<leftarrow> ListInvitedWaiting e g;
           roe_then (on_store (EndGroupInRoster g local epoch text
             (dissolve_rows g recipients detail @ refusal_rows (we_lib e) g waiting))) (\<lambda>_. ret_ok detail)
         })"

definition DissolveGroup ::
  "('o, 'v, 'e) flow_env_scheme \<Rightarrow> string \<Rightarrow> (('o, 'w) world_scheme, unit roe) state" where
  "DissolveGroup e g =
     given (LocalRelayIdentity e) (\<lambda>local.
     roe_then (LoadMetadataOrError g) (\<lambda>md.
       if local \<noteq> md_owner md then ret_err ''Only the group owner may dissolve the group''
       else if md_sync_state md = Dissolved then do {
         ResumePendingGroupSends e 0;
         ret_ok ()
       }
       else roe_then (end_own_group e g md local) (\<lambda>sibling. do {
         AppendDissolvedLine e g local kLocalSelfContactId;
         (if sibling \<noteq> [] then do {
            notice \<leftarrow> SystemLine e [] GroupDissolvedSibling ''Group dissolved'' sibling local;
            ignore (make_call (we_result e) (NotifyOwnDevices notice))
          }
          else nothing);
         ResumePendingGroupSends e 0;
         ret_ok ()
       })))"

end
