(* ===== verification/WorkflowSettings.thy ===== *)
theory WorkflowSettings
  imports WorkflowGroups
begin

section \<open>Settings, titles, forks and the locker\<close>

text \<open>
  Models the rest of \<open>GroupMembershipWorkflow.cpp\<close>: the owner's settings, renames by the owner and by
  members, a fork of a group, and the groups written to and restored from the account's locker.
\<close>

subsection \<open>What it says of a group\<close>

definition ListRoster :: "string \<Rightarrow> (('o, 'w) world_scheme, group_roster_member list roe) state" where
  "ListRoster g = on_store (ListMembers g)"

definition OwnerIdentity :: "string \<Rightarrow> (('o, 'w) world_scheme, string roe) state" where
  "OwnerIdentity g = roe_then (LoadMetadataOrError g) (\<lambda>md. ret_ok (md_owner md))"

definition IsLocalOwner :: "('o, 'v, 'e) flow_env_scheme \<Rightarrow> string \<Rightarrow> (('o, 'w) world_scheme, bool roe) state" where
  "IsLocalOwner e g = given (LocalRelayIdentity e) (\<lambda>local. roe_then (OwnerIdentity g) (\<lambda>owner. ret_ok (local = owner)))"

definition GroupPresetOf :: "string \<Rightarrow> (('o, 'w) world_scheme, group_preset roe) state" where
  "GroupPresetOf g = roe_then (LoadMetadataOrError g) (\<lambda>md. ret_ok (md_preset md))"

subsection \<open>The owner's settings\<close>

text \<open>\<open>apply\<close> gives the metadata changed, or none when there is nothing to change.\<close>

definition ChangeGroupSetting ::
  "('o, 'v, 'e) flow_env_scheme \<Rightarrow> string \<Rightarrow> control_type \<Rightarrow> string
    \<Rightarrow> (group_metadata \<Rightarrow> group_metadata option store_op) \<Rightarrow> (u64 \<Rightarrow> string roe)
    \<Rightarrow> (('o, 'w) world_scheme, unit roe) state" where
  "ChangeGroupSetting e g type display apply_to detail =
     given (LocalRelayIdentity e) (\<lambda>local.
     roe_then (LoadMetadataOrError g) (\<lambda>md.
       if local \<noteq> md_owner md then ret_err ''Only the group owner may change who does what in the group''
       else if md_sync_state md = Dissolved then ret_err kGroupDissolvedError
       else roe_then (on_store (apply_to md)) (\<lambda>changed.
         case changed of
           None \<Rightarrow> ret_ok ()
         | Some md' \<Rightarrow>
             let epoch = md_roster_epoch md' + 1
             in roe_then (on_store (UpsertMetadata (md'\<lparr>md_roster_epoch := epoch\<rparr>))) (\<lambda>_.
                given (detail epoch) (\<lambda>encoded. do {
                  thread \<leftarrow> make_call (we_found e) (FindGroupThread g);
                  case thread of
                    Inr (Some t) \<Rightarrow>
                      roe_then (AppendMembershipSystemEvent e (th_id t) type display encoded local) (\<lambda>_. do {
                        sent \<leftarrow> WithSignedRoster e g encoded;
                        FanOutMembershipEvent e g type sent display local None
                      })
                  | _ \<Rightarrow> ret_err ''Group thread not found''
                })))))"

definition apply_role :: "string \<Rightarrow> string \<Rightarrow> member_role \<Rightarrow> group_metadata \<Rightarrow> group_metadata option store_op" where
  "apply_role g member role md =
     roe_then (FindMember g member) (\<lambda>found.
       case found of
         None \<Rightarrow> ret_err ''Not a member of this group''
       | Some m \<Rightarrow>
           if \<not> GroupAllows SetRole Owner (md_preset md) (rm_role m)
             then ret_err ''The owner's role is not changed this way''
           else if rm_role m = role then ret_ok None
           else roe_then (UpsertMember g (m\<lparr>rm_role := role\<rparr>)) (\<lambda>_. ret_ok (Some md)))"

definition SetMemberRole ::
  "('o, 'v, 'e) flow_env_scheme \<Rightarrow> string \<Rightarrow> string \<Rightarrow> member_role \<Rightarrow> (('o, 'w) world_scheme, unit roe) state" where
  "SetMemberRole e g member role =
     (if role = Owner then ret_err ''Ownership moves by handing the group over, not by a role''
      else ChangeGroupSetting e g MemberRoleChanged (if role = Admin then ''Member made admin'' else ''Member no longer admin'')
        (apply_role g member role) (\<lambda>epoch. EncodeMemberRoleChanged (we_lib e)
          \<lparr>rl_group_id = g, rl_identity = member, rl_role = role, rl_roster_epoch = epoch\<rparr>))"

definition apply_preset :: "group_preset \<Rightarrow> group_metadata \<Rightarrow> group_metadata option store_op" where
  "apply_preset preset md = ret_ok (if md_preset md = preset then None else Some (md\<lparr>md_preset := preset\<rparr>))"

definition SetGroupPreset ::
  "('o, 'v, 'e) flow_env_scheme \<Rightarrow> string \<Rightarrow> group_preset \<Rightarrow> (('o, 'w) world_scheme, unit roe) state" where
  "SetGroupPreset e g preset = ChangeGroupSetting e g GroupPresetChanged
     (if preset = Managed then ''Group set to managed'' else ''Group set to open'') (apply_preset preset)
     (\<lambda>epoch. Inr (EncodeGroupPresetChanged (we_lib e) \<lparr>pc_group_id = g, pc_preset = preset, pc_roster_epoch = epoch\<rparr>))"

subsection \<open>Titles\<close>

definition RenameAsMember ::
  "('o, 'v, 'e) flow_env_scheme \<Rightarrow> string \<Rightarrow> string \<Rightarrow> (('o, 'w) flow_scheme, unit roe) state" where
  "RenameAsMember e g title =
     given (LocalRelayIdentity e) (\<lambda>local.
     roe_then (own_draft e (\<lambda>device now. DraftRename (we_crypto e) (we_json e) g local device title (we_cards e) now)) (\<lambda>draft.
     roe_then (CommitOwnChange e draft) (\<lambda>_. ret_ok ())))"

text \<open>The chat's title and line, when the chat is there.\<close>

definition rename_chat ::
  "('o, 'v, 'e) flow_env_scheme \<Rightarrow> group_renamed_payload \<Rightarrow> string \<Rightarrow> (('o, 'w) world_scheme, unit roe) state" where
  "rename_chat e renamed local =
     roe_then (make_call (we_found e) (FindGroupThread (gr_group_id renamed))) (\<lambda>thread.
       case thread of
         None \<Rightarrow> ret_ok ()
       | Some t \<Rightarrow> do {
           now \<leftarrow> clock e;
           roe_then (make_call (we_result e) (UpsertThread (t\<lparr>th_title := gr_title renamed, th_updated_at := now\<rparr>))) (\<lambda>_.
             AppendMembershipSystemEvent e (th_id t) GroupRenamed (''Group renamed to '' @ gr_title renamed)
               (EncodeGroupRenamed (we_lib e) renamed) local)
         })"

definition RenameGroupShared ::
  "('o, 'v, 'e) flow_env_scheme \<Rightarrow> string \<Rightarrow> string \<Rightarrow> (('o, 'w) flow_scheme, unit roe) state" where
  "RenameGroupShared e g title =
     (if title = [] then ret_err ''Group title required''
      else roe_then (LoadMetadataOrError g) (\<lambda>md.
      given (LocalRelayIdentity e) (\<lambda>local.
        if md_sync_state md = Dissolved then ret_err kGroupDissolvedError
        else if local \<noteq> md_owner md then RenameAsMember e g title
        else
          let md = md\<lparr>md_title := title, md_title_version := md_title_version md + 1\<rparr>;
              renamed = \<lparr>gr_group_id = g, gr_title = title, gr_roster_epoch = md_roster_epoch md,
                gr_title_version = md_title_version md\<rparr>
          in roe_then (on_store (UpsertMetadata md)) (\<lambda>_.
             roe_then (rename_chat e renamed local) (\<lambda>_.
             roe_then (on_store (ListMembers g)) (\<lambda>members.
               each_ok (\<lambda>i. SendRenameDirectMessage e i renamed)
                 (filter (\<lambda>i. i \<noteq> local) (map rm_identity members))))))))"

definition ApplyInboundGroupRenamed ::
  "('o, 'v, 'e) flow_env_scheme \<Rightarrow> group_renamed_payload \<Rightarrow> string \<Rightarrow> (('o, 'w) world_scheme, unit roe) state" where
  "ApplyInboundGroupRenamed e renamed actor =
     roe_then (on_store (ApplyGroupRenamedToRoster renamed actor)) (\<lambda>applied.
       if \<not> applied then ret_ok ()
       else roe_then (make_call (we_found e) (FindGroupThread (gr_group_id renamed))) (\<lambda>thread.
         case thread of
           None \<Rightarrow> ret_ok ()
         | Some t \<Rightarrow> do {
             now \<leftarrow> clock e;
             roe_then (make_call (we_result e) (UpsertThread (t\<lparr>th_title := gr_title renamed, th_updated_at := now\<rparr>))) (\<lambda>_. do {
               ignore (AppendMembershipSystemEvent e (th_id t) GroupRenamed (''Group renamed to '' @ gr_title renamed)
                 (EncodeGroupRenamed (we_lib e) renamed) actor);
               ret_ok ()
             })
           }))"

subsection \<open>A fork\<close>

definition resolved :: "('o, 'v, 'e) flow_env_scheme \<Rightarrow> string \<Rightarrow> string option" where
  "resolved e contact_id = (case ResolveRelayIdentity e contact_id of Inl _ \<Rightarrow> None | Inr identity \<Rightarrow> Some identity)"

definition ForkGroup ::
  "('o, 'v, 'e) flow_env_scheme \<Rightarrow> string \<Rightarrow> string \<Rightarrow> string list \<Rightarrow> (('o, 'w) world_scheme, chat_thread roe) state" where
  "ForkGroup e g title contact_ids =
     given (LocalRelayIdentity e) (\<lambda>local. do {
       source_thread \<leftarrow> make_call (we_found e) (FindGroupThread g);
       case source_thread of
         Inr (Some from_thread) \<Rightarrow> do {
           g' \<leftarrow> GenerateGroupId e;
           let fork_detail = EncodeGroupForked (we_lib e) \<lparr>gf_source_group_id = g, gf_new_group_id = g',
             gf_new_group_title = title, gf_selected = List.map_filter (resolved e) contact_ids, gf_history_mode = Fresh,
             gf_fork_message_id = None, gf_actor = local, gf_roster_epoch = 1\<rparr>;
           roe_then (make_call (we_thread e) (FindOrCreateGroupThread g' title contact_ids)) (\<lambda>thread.
           roe_then (on_store (UpsertMetadata (new_metadata\<lparr>md_group_id := g', md_owner := local, md_title := title\<rparr>))) (\<lambda>_. do {
             now \<leftarrow> clock e;
             ignore (on_store (UpsertMember g' (new_member local Owner now)));
             ignore (on_store (UpsertGroupTarget g' (th_id thread) 1 1));
             for_m (\<lambda>i. ignore (InviteMember e g' i)) contact_ids;
             ignore (AppendMembershipSystemEvent e (th_id from_thread) GroupForked ''Group forked'' fork_detail local);
             ignore (AppendMembershipSystemEvent e (th_id thread) GroupForked ''Forked from group'' fork_detail local);
             ret_ok thread
           }))
         }
       | _ \<Rightarrow> ret_err ''Source group not found''
     })"

subsection \<open>The account's locker\<close>

text \<open>A group as the locker keeps it; one we are out of, and one that ended, only as a tombstone.\<close>

definition tombstone :: "group_metadata \<Rightarrow> string \<Rightarrow> bool \<Rightarrow> state_group" where
  "tombstone md g dissolved = \<lparr>ag_group_id = g, ag_title = [], ag_owner = md_owner md, ag_roster_epoch = md_roster_epoch md,
     ag_title_version = 0, ag_policy_json = [], ag_members = [], ag_statement_json = [], ag_left = True,
     ag_dissolved = dissolved\<rparr>"

definition locker_member :: "group_roster_member \<Rightarrow> state_group_member" where
  "locker_member m = \<lparr>gm_identity = rm_identity m, gm_role = MemberRoleToString (rm_role m), gm_joined_at = rm_joined_at m,
     gm_contact_id = rm_contact_id m\<rparr>"

definition locker_group ::
  "('o, 'v) json_lib \<Rightarrow> string roe \<Rightarrow> string \<Rightarrow> group_metadata \<Rightarrow> group_roster_member list \<Rightarrow> state_group" where
  "locker_group L local g md members =
     (if md_sync_state md = Dissolved then tombstone md g True
      else if md_sync_state md = Removed
        \<or> (case local of Inl _ \<Rightarrow> False | Inr i \<Rightarrow> i \<notin> set (map rm_identity members)) then tombstone md g False
      else \<lparr>ag_group_id = g, ag_title = md_title md, ag_owner = md_owner md, ag_roster_epoch = md_roster_epoch md,
        ag_title_version = md_title_version md, ag_policy_json = EncodeGroupPolicy L (md_preset md),
        ag_members = map locker_member members, ag_statement_json = md_statement_json md, ag_left = False,
        ag_dissolved = False\<rparr>)"

fun state_groups ::
  "('o, 'v, 'e) flow_env_scheme \<Rightarrow> string list \<Rightarrow> (('o, 'w) world_scheme, state_group list) state" where
  "state_groups e [] = State_Monad.return []"
| "state_groups e (g # gs) = do {
     metadata \<leftarrow> on_store (LoadMetadata g);
     members \<leftarrow> on_store (ListMembers g);
     rest \<leftarrow> state_groups e gs;
     State_Monad.return (case (metadata, members) of
       (Inr (Some md), Inr rows) \<Rightarrow> locker_group (we_lib e) (LocalRelayIdentity e) g md rows # rest
     | _ \<Rightarrow> rest)
   }"

definition StateGroups :: "('o, 'v, 'e) flow_env_scheme \<Rightarrow> (('o, 'w) world_scheme, state_group list roe) state" where
  "StateGroups e = roe_then (on_store ListGroupIds) (\<lambda>ids. just (state_groups e ids))"

definition restored_metadata :: "('o, 'v) json_lib \<Rightarrow> state_group \<Rightarrow> group_metadata" where
  "restored_metadata L ag = new_metadata\<lparr>md_group_id := ag_group_id ag, md_owner := ag_owner ag, md_title := ag_title ag,
     md_roster_epoch := ag_roster_epoch ag, md_title_version := ag_title_version ag,
     md_preset := (case DecodeGroupPolicy L (ag_policy_json ag) of Inl _ \<Rightarrow> Open | Inr preset \<Rightarrow> preset),
     md_statement_json := ag_statement_json ag, md_sync_state := Checking\<rparr>"

definition restored_member :: "state_group_member \<Rightarrow> group_roster_member" where
  "restored_member m = \<lparr>rm_identity = gm_identity m, rm_contact_id = gm_contact_id m, rm_role = MemberRoleFromString (gm_role m),
     rm_joined_at = gm_joined_at m, rm_added_by = []\<rparr>"

definition RestoreGroup ::
  "('o, 'v, 'e) flow_env_scheme \<Rightarrow> state_group \<Rightarrow> (('o, 'w) world_scheme, unit roe) state" where
  "RestoreGroup e ag =
     roe_then (on_store (UpsertMetadata (restored_metadata (we_lib e) ag))) (\<lambda>_.
     roe_then (on_store (each_ok (\<lambda>m. UpsertMember (ag_group_id ag) (restored_member m)) (ag_members ag))) (\<lambda>_.
     roe_then (make_call (we_thread e) (FindOrCreateGroupThread (ag_group_id ag) (ag_title ag) [])) (\<lambda>_. ret_ok ())))"

end
