(* ===== verification/LinkStore.thy ===== *)
theory LinkStore
  imports WorkflowSettings
begin

section \<open>The invite links this device made\<close>

text \<open>
  Models \<open>SqliteGroupInviteLinkStore.cpp\<close>: the table of the links made here, each with its secret sealed
  under the profile's data key. \<open>FileCipher\<close>, which seals and opens with an authenticated cipher of
  libsodium, is the parameter \<open>file_cipher\<close>; its additional data is the one of this profile. Opening the
  database and its schema are the environment: each call takes the next answer of \<open>le_db\<close>, so every
  pattern of failures is covered. An error's category is left out.
\<close>

record file_cipher =
  fc_seal :: "bytes \<Rightarrow> bytes \<Rightarrow> bytes roe"
  fc_open :: "bytes \<Rightarrow> bytes \<Rightarrow> bytes roe"

definition cipher_laws :: "file_cipher \<Rightarrow> bool" where
  "cipher_laws C \<longleftrightarrow> (\<forall>dek plain sealed. fc_seal C dek plain = Inr sealed \<longrightarrow> sealed \<noteq> [] \<and> fc_open C dek sealed = Inr plain)"

record sealed_link =
  sl_link_id :: string
  sl_group_id :: string
  sl_secret_enc :: bytes
  sl_maker :: string
  sl_expires_at :: time_ms
  sl_max_uses :: u64
  sl_created_at :: time_ms

record kept_link =
  kl_link_id :: string
  kl_group_id :: string
  kl_secret :: bytes
  kl_maker :: string
  kl_expires_at :: time_ms
  kl_max_uses :: u64
  kl_created_at :: time_ms

record answering =
  aw_joiner :: string
  aw_group_id :: string
  aw_link_id :: string
  aw_secret :: bytes
  aw_at :: time_ms

datatype join_phase = PhaseAsking | PhasePreview | PhaseRefused | PhaseNoAnswer | PhaseJoined | PhaseCancelled

record join_state =
  jt_request_id :: string
  jt_maker :: string
  jt_phase :: join_phase
  jt_preview :: "join_preview option"
  jt_reason :: join_refusal
  jt_thread_id :: string

text \<open>The workflow of links extends the membership workflow it calls; \<open>dek_\<close> is the store's.\<close>

record 'o links = "'o flow" +
  lk_table :: "(string \<times> sealed_link) list"
  lk_dek :: bytes
  lk_answering :: "(string \<times> answering) list"
  lk_joins :: "(string \<times> (join_state \<times> time_ms)) list"
  lk_seen :: "(string \<times> time_ms list) list"
  lk_dropped :: dropped_log

record ('o, 'v) links_env = "('o, 'v) flow_env" +
  le_link_lib :: link_lib
  le_cipher :: file_cipher
  le_db :: "nat \<Rightarrow> fault"
  le_random :: "nat \<Rightarrow> bytes"
  le_keeps_links :: bool

definition kDataEncryptionKeySize :: nat where
  "kDataEncryptionKeySize = 32"

definition SetDek :: "bytes \<Rightarrow> (('o, 'w) links_scheme, unit roe) state" where
  "SetDek dek =
     (if length dek \<noteq> kDataEncryptionKeySize then ret_err ''Invalid DEK size''
      else do { State_Monad.update (\<lambda>w. w\<lparr>lk_dek := dek\<rparr>); ret_ok () })"

definition ClearDek :: "(('o, 'w) links_scheme, unit) state" where
  "ClearDek = State_Monad.update (\<lambda>w. w\<lparr>lk_dek := []\<rparr>)"

text \<open>A statement that writes: it takes effect unless the call fails.\<close>

definition link_write ::
  "('o, 'v, 'e) links_env_scheme \<Rightarrow> string \<Rightarrow> ((string \<times> sealed_link) list \<Rightarrow> (string \<times> sealed_link) list)
    \<Rightarrow> (('o, 'w) links_scheme, unit roe) state" where
  "link_write e failure f = do {
     n \<leftarrow> next_tick;
     case le_db e n of
       NoFault \<Rightarrow> do { State_Monad.update (\<lambda>w. w\<lparr>lk_table := f (lk_table w)\<rparr>); ret_ok () }
     | OpFails x \<Rightarrow> State_Monad.return (Inl x)
     | StepFails _ \<Rightarrow> ret_err failure
   }"

definition KeepLink :: "('o, 'v, 'e) links_env_scheme \<Rightarrow> kept_link \<Rightarrow> (('o, 'w) links_scheme, unit roe) state" where
  "KeepLink e link =
     (if kl_link_id link = [] \<or> kl_group_id link = [] \<or> kl_secret link = []
      then ret_err ''An invite link to keep has its id, group and secret''
      else do {
        w \<leftarrow> State_Monad.get;
        if length (lk_dek w) \<noteq> kDataEncryptionKeySize
        then ret_err ''Invite link store DEK not set (unlock profile vault first)''
        else given (fc_seal (le_cipher e) (lk_dek w) (kl_secret link)) (\<lambda>sealed.
          link_write e ''Failed to keep invite link'' (om_put (kl_link_id link)
            \<lparr>sl_link_id = kl_link_id link, sl_group_id = kl_group_id link, sl_secret_enc = sealed, sl_maker = kl_maker link,
             sl_expires_at = kl_expires_at link, sl_max_uses = kl_max_uses link, sl_created_at = kl_created_at link\<rparr>))
      })"

text \<open>A row read: its secret is empty when the data key is not set or does not open it.\<close>

definition opened_link :: "file_cipher \<Rightarrow> bytes \<Rightarrow> sealed_link \<Rightarrow> kept_link" where
  "opened_link C dek row = \<lparr>kl_link_id = sl_link_id row, kl_group_id = sl_group_id row,
     kl_secret = (if length dek = kDataEncryptionKeySize \<and> sl_secret_enc row \<noteq> []
       then case fc_open C dek (sl_secret_enc row) of Inl _ \<Rightarrow> [] | Inr plain \<Rightarrow> plain else []),
     kl_maker = sl_maker row, kl_expires_at = sl_expires_at row, kl_max_uses = sl_max_uses row,
     kl_created_at = sl_created_at row\<rparr>"

definition SelectLinks ::
  "('o, 'v, 'e) links_env_scheme \<Rightarrow> ((string \<times> sealed_link) list \<Rightarrow> sealed_link list)
    \<Rightarrow> (('o, 'w) links_scheme, kept_link list roe) state" where
  "SelectLinks e q = do {
     n \<leftarrow> next_tick;
     w \<leftarrow> State_Monad.get;
     let rows = map (opened_link (le_cipher e) (lk_dek w)) (q (lk_table w));
     State_Monad.return (case le_db e n of
       NoFault \<Rightarrow> Inr rows | OpFails x \<Rightarrow> Inl x | StepFails k \<Rightarrow> Inr (take k rows))
   }"

definition FindKeptLink ::
  "('o, 'v, 'e) links_env_scheme \<Rightarrow> string \<Rightarrow> (('o, 'w) links_scheme, kept_link option roe) state" where
  "FindKeptLink e link_id =
     roe_then (SelectLinks e (\<lambda>t. case map_of t link_id of None \<Rightarrow> [] | Some r \<Rightarrow> [r])) (\<lambda>rows.
       ret_ok (case rows of [] \<Rightarrow> None | r # _ \<Rightarrow> Some r))"

definition ListLinksForGroup ::
  "('o, 'v, 'e) links_env_scheme \<Rightarrow> string \<Rightarrow> (('o, 'w) links_scheme, kept_link list roe) state" where
  "ListLinksForGroup e g = SelectLinks e (\<lambda>t.
     sort_key (\<lambda>r. (- sl_created_at r, sl_link_id r)) (filter (\<lambda>r. sl_group_id r = g) (map snd t)))"

definition ForgetLink :: "('o, 'v, 'e) links_env_scheme \<Rightarrow> string \<Rightarrow> (('o, 'w) links_scheme, unit roe) state" where
  "ForgetLink e link_id = link_write e ''Failed to update invite links'' (om_erase link_id)"

definition ForgetExpiredBefore :: "('o, 'v, 'e) links_env_scheme \<Rightarrow> time_ms \<Rightarrow> (('o, 'w) links_scheme, unit roe) state" where
  "ForgetExpiredBefore e before =
     link_write e ''Failed to update invite links'' (filter (\<lambda>(_, r). \<not> sl_expires_at r < before))"

end
