(* ===== verification/LinkWorkflow.thy ===== *)
theory LinkWorkflow
  imports LinkStore
begin

section \<open>The workflow of invite links\<close>

text \<open>
  Models \<open>GroupInviteLinkWorkflow.cpp\<close>: the maker's links, the join requests its devices answer, and the
  joins this device asks for. What it keeps in memory is part of \<open>links\<close>: the previews it answered
  (\<open>lk_answering\<close>), its own joins with when they were asked (\<open>lk_joins\<close>), the limiter and the log's
  counter. \<open>JudgeJoin\<close> never dereferences nothing (\<open>JoinClaims\<close>), so its outer \<open>None\<close> is not met; it
  reads as a drop.
\<close>

definition kMaxOpenJoins :: nat where "kMaxOpenJoins = 256"
definition kOwnLinkError :: string where "kOwnLinkError = ''group_join.err.own_link''"
definition kDefaultLifetimeMs :: time_ms where "kDefaultLifetimeMs = 7 * 24 * 60 * 60 * 1000"
definition kPreviewLifetimeMs :: time_ms where "kPreviewLifetimeMs = 10 * 60 * 1000"

subsection \<open>The maker\<close>

record made_link =
  mk_link_id :: string
  mk_text :: string
  mk_expires_at :: time_ms
  mk_max_uses :: u64

definition random_bytes :: "('o, 'v, 'e) links_env_scheme \<Rightarrow> (('o, 'w) world_scheme, bytes) state" where
  "random_bytes e = do { n \<leftarrow> next_tick; State_Monad.return (le_random e n) }"

text \<open>A link we could not show again is not worth making; kept before it goes out.\<close>

definition keep_made :: "('o, 'v, 'e) links_env_scheme \<Rightarrow> kept_link \<Rightarrow> (('o, 'w) links_scheme, unit roe) state" where
  "keep_made e link = (if le_keeps_links e then KeepLink e link else ret_ok ())"

definition MakeLink ::
  "('o, 'v, 'e) links_env_scheme \<Rightarrow> string \<Rightarrow> u64 \<Rightarrow> time_ms \<Rightarrow> (('o, 'w) links_scheme, made_link roe) state" where
  "MakeLink e g max_uses lifetime =
     given (LocalRelayIdentity e) (\<lambda>local.
     given (fe_own_device e) (\<lambda>device. do {
       now \<leftarrow> clock e;
       id_bytes \<leftarrow> random_bytes e;
       secret \<leftarrow> random_bytes e;
       let link = Mint (le_link_lib e) id_bytes secret local (now + (if lifetime > 0 then lifetime else kDefaultLifetimeMs));
       roe_then (on_store (DraftLinkAdd (we_crypto e) (we_json e) g local device (gj_link_id link)
           (SecretHash (le_link_lib e) (gj_link_id link) (gj_secret link)) (gj_expires_at link) max_uses (we_cards e) now)) (\<lambda>draft.
       roe_then (keep_made e \<lparr>kl_link_id = gj_link_id link, kl_group_id = g, kl_secret = gj_secret link, kl_maker = local,
           kl_expires_at = gj_expires_at link, kl_max_uses = max_uses, kl_created_at = now\<rparr>) (\<lambda>_. do {
         committed \<leftarrow> CommitOwnChange e draft;
         case committed of
           Inl x \<Rightarrow> do {
             (if le_keeps_links e then ignore (ForgetLink e (gj_link_id link)) else nothing);
             State_Monad.return (Inl x)
           }
         | Inr _ \<Rightarrow> ret_ok \<lparr>mk_link_id = gj_link_id link, mk_text = EncodeLink (le_link_lib e) link,
             mk_expires_at = gj_expires_at link, mk_max_uses = max_uses\<rparr>
       }))
     }))"

definition RevokeLink ::
  "('o, 'v, 'e) links_env_scheme \<Rightarrow> string \<Rightarrow> string \<Rightarrow> (('o, 'w) links_scheme, unit roe) state" where
  "RevokeLink e g link_id =
     given (LocalRelayIdentity e) (\<lambda>local.
     roe_then (own_draft e (\<lambda>device now.
         DraftLinkRevoke (we_crypto e) (we_json e) g local device link_id (we_cards e) now)) (\<lambda>draft.
     roe_then (CommitOwnChange e draft) (\<lambda>_. ret_ok ())))"

record link_row =
  lr_link_id :: string
  lr_maker :: string
  lr_expires_at :: time_ms
  lr_max_uses :: u64
  lr_uses :: u64
  lr_text :: string
  lr_can_revoke :: bool

text \<open>The text of a live link, when it is ours and its secret is kept here.\<close>

definition link_text ::
  "('o, 'v, 'e) links_env_scheme \<Rightarrow> string \<Rightarrow> invite_link \<Rightarrow> (('o, 'w) links_scheme, string) state" where
  "link_text e local link =
     (if l_maker link \<noteq> local \<or> \<not> le_keeps_links e then State_Monad.return []
      else do {
        kept \<leftarrow> FindKeptLink e (l_link_id link);
        State_Monad.return (case kept of
          Inr (Some k) \<Rightarrow> if kl_secret k = [] then []
            else EncodeLink (le_link_lib e) \<lparr>gj_link_id = l_link_id link, gj_secret = kl_secret k,
              gj_expires_at = l_expires_at link, gj_maker = l_maker link\<rparr>
        | _ \<Rightarrow> [])
      })"

fun link_rows ::
  "('o, 'v, 'e) links_env_scheme \<Rightarrow> string \<Rightarrow> roster_view \<Rightarrow> invite_link list \<Rightarrow> (('o, 'w) links_scheme, link_row list) state" where
  "link_rows e local view [] = State_Monad.return []"
| "link_rows e local view (link # ls) = do {
     text \<leftarrow> link_text e local link;
     rest \<leftarrow> link_rows e local view ls;
     State_Monad.return (\<lparr>lr_link_id = l_link_id link, lr_maker = l_maker link, lr_expires_at = l_expires_at link,
       lr_max_uses = l_max_uses link, lr_uses = l_uses link, lr_text = text,
       lr_can_revoke = (case ViewFind view local of None \<Rightarrow> False
         | Some self \<Rightarrow> l_maker link = local \<or> GroupAllows RevokeInviteLink (vm_role self) (w_preset view) Member)\<rparr> # rest)
   }"

definition LiveLinks :: "('o, 'v, 'e) links_env_scheme \<Rightarrow> string \<Rightarrow> (('o, 'w) links_scheme, link_row list) state" where
  "LiveLinks e g = do {
     now \<leftarrow> clock e;
     view \<leftarrow> on_store (CurrentView (we_crypto e) (we_json e) g (we_cards e) now);
     case (LocalRelayIdentity e, view) of
       (Inr local, Some v) \<Rightarrow> do {
         rows \<leftarrow> link_rows e local v (w_links v);
         State_Monad.return (sort_key (\<lambda>r. (lr_expires_at r, lr_link_id r)) rows)
       }
     | _ \<Rightarrow> State_Monad.return []
   }"

definition newest_row :: "link_row list \<Rightarrow> link_row option" where
  "newest_row rows = fold (\<lambda>row newest.
     if lr_text row \<noteq> [] \<and> (case newest of None \<Rightarrow> True | Some n \<Rightarrow> lr_expires_at row > lr_expires_at n)
     then Some row else newest) rows None"

definition OwnLiveLink :: "('o, 'v, 'e) links_env_scheme \<Rightarrow> string \<Rightarrow> (('o, 'w) links_scheme, link_row option) state" where
  "OwnLiveLink e g = do { rows \<leftarrow> LiveLinks e g; State_Monad.return (newest_row rows) }"

subsection \<open>The answerer\<close>

text \<open>The group that knows the link, else the one our kept link names.\<close>

definition link_group ::
  "('o, 'v, 'e) links_env_scheme \<Rightarrow> string \<Rightarrow> kept_link option \<Rightarrow> time_ms
    \<Rightarrow> (('o, 'w) world_scheme, string \<times> roster_view option) state" where
  "link_group e link_id kept now = do {
     found \<leftarrow> on_store (FindLinkGroup (we_crypto e) (we_json e) link_id (we_cards e) now);
     case (found, kept) of
       (Some (g, view), _) \<Rightarrow> State_Monad.return (g, Some view)
     | (None, Some k) \<Rightarrow> do {
         view \<leftarrow> on_store (CurrentView (we_crypto e) (we_json e) (kl_group_id k) (we_cards e) now);
         State_Monad.return (kl_group_id k, view)
       }
     | (None, None) \<Rightarrow> State_Monad.return ([], None)
   }"

definition join_case_of ::
  "string \<Rightarrow> bytes \<Rightarrow> string \<Rightarrow> bool \<Rightarrow> string \<Rightarrow> time_ms \<Rightarrow> kept_link option \<Rightarrow> roster_view option
    \<Rightarrow> (string \<times> time_ms list) list join_case" where
  "join_case_of link_id secret joiner count_rate local now kept view =
     \<lparr>jk_view = view, jk_made_here_expires = map_option kl_expires_at kept,
      jk_made_here_secret = (case kept of None \<Rightarrow> [] | Some k \<Rightarrow> kl_secret k), jk_link_id = link_id, jk_secret = secret,
      jk_joiner = joiner, jk_local = local, jk_now = now,
      jk_within_rate = (if count_rate then Some (AllowJoin link_id now) else None)\<rparr>"

definition Judge ::
  "('o, 'v, 'e) links_env_scheme \<Rightarrow> string \<Rightarrow> bytes \<Rightarrow> string \<Rightarrow> bool
    \<Rightarrow> (('o, 'w) links_scheme, join_judgement \<times> string \<times> roster_view option) state" where
  "Judge e link_id secret joiner count_rate =
     (case LocalRelayIdentity e of
        Inl _ \<Rightarrow> State_Monad.return (DropJoin, [], None)
      | Inr local \<Rightarrow> do {
          now \<leftarrow> clock e;
          found \<leftarrow> (if le_keeps_links e then FindKeptLink e link_id else ret_ok None);
          let kept = (case found of Inl _ \<Rightarrow> None | Inr k \<Rightarrow> k);
          (g, view) \<leftarrow> link_group e link_id kept now;
          w \<leftarrow> State_Monad.get;
          let (judged, seen) = JudgeJoin (le_link_lib e)
            (join_case_of link_id secret joiner count_rate local now kept view) (lk_seen w);
          State_Monad.update (\<lambda>w. w\<lparr>lk_seen := seen\<rparr>);
          State_Monad.return (value_or judged DropJoin, g, view)
        })"

definition NoteDropped :: "('o, 'v, 'e) links_env_scheme \<Rightarrow> (('o, 'w) links_scheme, unit) state" where
  "NoteDropped e = do {
     now \<leftarrow> clock e;
     State_Monad.update (\<lambda>w. w\<lparr>lk_dropped := snd (Note now (lk_dropped w))\<rparr>)
   }"

definition SendJoin ::
  "('o, 'v, 'e) links_env_scheme \<Rightarrow> string \<Rightarrow> join_message \<Rightarrow> (('o, 'w) world_scheme, unit) state" where
  "SendJoin e peer message = do {
     i \<leftarrow> fresh_id e;
     now \<leftarrow> clock e;
     ignore (make_call (we_result e) (SendControl peer (BuildJoin (le_link_lib e) (we_lib e) i now message) True))
   }"

definition RefuseJoiner ::
  "('o, 'v, 'e) links_env_scheme \<Rightarrow> string \<Rightarrow> string \<Rightarrow> join_refusal \<Rightarrow> (('o, 'w) world_scheme, unit) state" where
  "RefuseJoiner e joiner request_id reason =
     SendJoin e joiner (JoinRefused \<lparr>jr_request_id = request_id, jr_reason = reason\<rparr>)"

definition DropStale :: "time_ms \<Rightarrow> (string \<times> answering) list \<Rightarrow> (string \<times> answering) list" where
  "DropStale now = filter (\<lambda>(_, a). \<not> now - aw_at a > kPreviewLifetimeMs)"

definition preview_of ::
  "join_request \<Rightarrow> string \<Rightarrow> roster_view \<Rightarrow> group_metadata \<Rightarrow> string \<Rightarrow> join_preview" where
  "preview_of request g view md device = \<lparr>jv_request_id = jq_request_id request, jv_group_id = g, jv_owner = w_owner view,
     jv_group_title = (if w_title view = [] then md_title md else w_title view),
     jv_member_count = of_nat (length (w_members view)), jv_device = device\<rparr>"

text \<open>A request accepted is answered with a preview, which is kept until it is confirmed or stale.\<close>

definition AnswerPreview ::
  "('o, 'v, 'e) links_env_scheme \<Rightarrow> join_request \<Rightarrow> string \<Rightarrow> join_preview \<Rightarrow> (('o, 'w) links_scheme, unit) state" where
  "AnswerPreview e request joiner preview = do {
     now \<leftarrow> clock e;
     State_Monad.update (\<lambda>w. w\<lparr>lk_answering := DropStale now (lk_answering w)\<rparr>);
     w \<leftarrow> State_Monad.get;
     if length (lk_answering w) \<ge> kMaxOpenJoins then RefuseJoiner e joiner (jq_request_id request) JoinRate
     else do {
       State_Monad.update (\<lambda>w. w\<lparr>lk_answering := om_put (jq_request_id request)
         \<lparr>aw_joiner = joiner, aw_group_id = jv_group_id preview, aw_link_id = jq_link_id request,
          aw_secret = jq_secret request, aw_at = now\<rparr> (lk_answering w)\<rparr>);
       SendJoin e joiner (JoinPreview preview)
     }
   }"

definition OnRequest :: "('o, 'v, 'e) links_env_scheme \<Rightarrow> join_request \<Rightarrow> string \<Rightarrow> (('o, 'w) links_scheme, unit) state" where
  "OnRequest e request joiner = do {
     (judged, g, view) \<leftarrow> Judge e (jq_link_id request) (jq_secret request) joiner True;
     case jj_kind judged of
       KindDrop \<Rightarrow> NoteDropped e
     | KindRefuse \<Rightarrow> RefuseJoiner e joiner (jq_request_id request) (jj_reason judged)
     | KindAccept \<Rightarrow> do {
         metadata \<leftarrow> on_store (LoadMetadata g);
         case (fe_own_device e, metadata, view) of
           (Inr device, Inr (Some md), Some v) \<Rightarrow> AnswerPreview e request joiner (preview_of request g v md device)
         | _ \<Rightarrow> RefuseJoiner e joiner (jq_request_id request) JoinRevoked
       }
   }"

text \<open>The link may have died, or the group filled, since the preview.\<close>

definition admission_refusal :: "string \<Rightarrow> join_refusal" where
  "admission_refusal why = (if why = kGroupFullError then JoinGroupFull
     else if why = kGroupInviteRemovedError then JoinRemoved else JoinRevoked)"

definition OnConfirm :: "('o, 'v, 'e) links_env_scheme \<Rightarrow> join_confirm \<Rightarrow> string \<Rightarrow> (('o, 'w) links_scheme, unit) state" where
  "OnConfirm e confirm joiner =
     (if fe_own_device e \<noteq> Inr (jc_device confirm) then nothing
      else do {
        now \<leftarrow> clock e;
        State_Monad.update (\<lambda>w. w\<lparr>lk_answering := DropStale now (lk_answering w)\<rparr>);
        w \<leftarrow> State_Monad.get;
        case map_of (lk_answering w) (jc_request_id confirm) of
          None \<Rightarrow> nothing
        | Some a \<Rightarrow>
            if aw_joiner a \<noteq> joiner then nothing
            else do {
              State_Monad.update (\<lambda>w. w\<lparr>lk_answering := om_erase (jc_request_id confirm) (lk_answering w)\<rparr>);
              (judged, g, view) \<leftarrow> Judge e (aw_link_id a) (aw_secret a) joiner False;
              if jj_kind judged \<noteq> KindAccept
              then RefuseJoiner e joiner (jc_request_id confirm)
                (if jj_kind judged = KindRefuse then jj_reason judged else JoinRevoked)
              else do {
                admitted \<leftarrow> AdmitByLink e g (aw_link_id a) joiner (jc_request_id confirm);
                case admitted of
                  Inl x \<Rightarrow> RefuseJoiner e joiner (jc_request_id confirm) (admission_refusal (error_message x))
                | Inr _ \<Rightarrow> nothing
              }
            }
      })"

subsection \<open>The joiner\<close>

text \<open>The loop of \<open>AskToJoin\<close>: stale joins go as long as too many are kept.\<close>

fun drop_old_joins ::
  "time_ms \<Rightarrow> nat \<Rightarrow> (string \<times> (join_state \<times> time_ms)) list \<Rightarrow> (string \<times> (join_state \<times> time_ms)) list" where
  "drop_old_joins now n [] = []"
| "drop_old_joins now n ((i, j, at) # joins) =
     (if \<not> n \<ge> kMaxOpenJoins then (i, j, at) # joins
      else if now - at > kPreviewLifetimeMs then drop_old_joins now (n - 1) joins
      else (i, j, at) # drop_old_joins now n joins)"

definition AskToJoin :: "('o, 'v, 'e) links_env_scheme \<Rightarrow> string \<Rightarrow> (('o, 'w) links_scheme, string roe) state" where
  "AskToJoin e text =
     given (FindLink (le_link_lib e) text) (\<lambda>link.
     given (LocalRelayIdentity e) (\<lambda>local.
       if gj_maker link = local then ret_err kOwnLinkError
       else do {
         now \<leftarrow> clock e;
         i \<leftarrow> fresh_id e;
         let expired = gj_expires_at link \<le> now;
         State_Monad.update (\<lambda>w. w\<lparr>lk_joins := om_put i
           (\<lparr>jt_request_id = i, jt_maker = gj_maker link, jt_phase = (if expired then PhaseRefused else PhaseAsking),
             jt_preview = None, jt_reason = (if expired then JoinExpired else JoinRevoked), jt_thread_id = []\<rparr>, now)
           (drop_old_joins now (length (lk_joins w)) (lk_joins w))\<rparr>);
         (if expired then nothing
          else do {
            SendJoin e (gj_maker link) (JoinRequest \<lparr>jq_request_id = i, jq_link_id = gj_link_id link, jq_secret = gj_secret link\<rparr>);
            tell (NoAnswerTimer i)
          });
         ret_ok i
       }))"

text \<open>A join of ours moved on; \<open>f\<close> gives its state and time after.\<close>

definition move_join ::
  "string \<Rightarrow> (join_state \<Rightarrow> time_ms \<Rightarrow> join_state \<times> time_ms) \<Rightarrow> (('o, 'w) links_scheme, unit) state" where
  "move_join i f = State_Monad.update (\<lambda>w. case map_of (lk_joins w) i of
     None \<Rightarrow> w | Some (j, at) \<Rightarrow> w\<lparr>lk_joins := om_put i (f j at) (lk_joins w)\<rparr>)"

definition no_answer_timer_fires :: "('o, 'v, 'e) links_env_scheme \<Rightarrow> string \<Rightarrow> (('o, 'w) links_scheme, unit) state" where
  "no_answer_timer_fires e i = do {
     stop \<leftarrow> shutting_down e;
     if stop then nothing
     else move_join i (\<lambda>j at. (if jt_phase j = PhaseAsking then j\<lparr>jt_phase := PhaseNoAnswer\<rparr> else j, at))
   }"

definition OnPreview :: "('o, 'v, 'e) links_env_scheme \<Rightarrow> join_preview \<Rightarrow> string \<Rightarrow> (('o, 'w) links_scheme, unit) state" where
  "OnPreview e preview answerer = do {
     now \<leftarrow> clock e;
     move_join (jv_request_id preview) (\<lambda>j at.
       if jt_maker j \<noteq> answerer \<or> jt_phase j \<noteq> PhaseAsking \<and> jt_phase j \<noteq> PhaseNoAnswer then (j, at)
       else (j\<lparr>jt_phase := PhasePreview, jt_preview := Some preview\<rparr>, now))
   }"

definition OnRefused :: "join_refused \<Rightarrow> string \<Rightarrow> (('o, 'w) links_scheme, unit) state" where
  "OnRefused refused answerer = move_join (jr_request_id refused) (\<lambda>j at.
     (if jt_maker j \<noteq> answerer \<or> jt_phase j = PhaseRefused \<or> jt_phase j = PhaseCancelled then j
      else j\<lparr>jt_phase := PhaseRefused, jt_reason := jr_reason refused\<rparr>, at))"

definition ConfirmJoin :: "('o, 'v, 'e) links_env_scheme \<Rightarrow> string \<Rightarrow> (('o, 'w) links_scheme, chat_thread roe) state" where
  "ConfirmJoin e i = do {
     w \<leftarrow> State_Monad.get;
     now \<leftarrow> clock e;
     case map_of (lk_joins w) i of
       None \<Rightarrow> ret_err ''group_join.err.no_preview''
     | Some (j, at) \<Rightarrow>
         if jt_phase j \<noteq> PhasePreview then ret_err ''group_join.err.no_preview''
         else case jt_preview j of
           None \<Rightarrow> ret_err ''group_join.err.no_preview''
         | Some preview \<Rightarrow>
             if now - at > kPreviewLifetimeMs then do {
               move_join i (\<lambda>j at. (j\<lparr>jt_phase := PhaseNoAnswer\<rparr>, at));
               ret_err ''group_join.err.no_preview''
             }
             else roe_then (JoinByLink e i (jv_group_id preview) (jv_group_title preview) (jv_owner preview) (jt_maker j)) (\<lambda>thread. do {
               SendJoin e (jt_maker j) (JoinConfirm \<lparr>jc_request_id = i, jc_device = jv_device preview\<rparr>);
               move_join i (\<lambda>_ at. (j\<lparr>jt_phase := PhaseJoined, jt_thread_id := th_id thread\<rparr>, at));
               ret_ok thread
             })
   }"

definition CancelJoin :: "string \<Rightarrow> (('o, 'w) links_scheme, unit) state" where
  "CancelJoin i = move_join i (\<lambda>j at. (j\<lparr>jt_phase := PhaseCancelled\<rparr>, at))"

definition JoinState :: "string \<Rightarrow> (('o, 'w) links_scheme, join_state option) state" where
  "JoinState i = do { w \<leftarrow> State_Monad.get; State_Monad.return (map_option fst (map_of (lk_joins w) i)) }"

text \<open>What a message of the family does here: the handler of its kind.\<close>

fun on_join_message :: "('o, 'v, 'e) links_env_scheme \<Rightarrow> join_message \<Rightarrow> string \<Rightarrow> (('o, 'w) links_scheme, unit) state" where
  "on_join_message e (JoinRequest m) sender = OnRequest e m sender"
| "on_join_message e (JoinPreview m) sender = OnPreview e m sender"
| "on_join_message e (JoinRefused m) sender = OnRefused m sender"
| "on_join_message e (JoinConfirm m) sender = OnConfirm e m sender"

end
