(* ===== verification/FlowLaws.thy ===== *)
theory FlowLaws
  imports WorldLaws LinkWorkflow
begin

section \<open>Laws of the workflows\<close>

text \<open>
  \<open>leaves f m\<close>: no run of \<open>m\<close> changes what \<open>f\<close> reads of the world. The locale \<open>unseen\<close> is the interface
  of such a reading: one that does not see the roster store, the clock, the calls and the fields of the
  membership workflow. Everything the membership workflow does leaves it, so that the workflow of invite
  links, which calls it, has to look at its own fields only.
\<close>

lemma given_Inr [simp]: "given (Inr x) f = f x"
  by (simp add: given_def roe_then_def State_Monad.bind_def State_Monad.return_def)

definition leaves :: "('s \<Rightarrow> 'x) \<Rightarrow> ('s, 'a) state \<Rightarrow> bool" where
  "leaves f m \<longleftrightarrow> (\<forall>w. f (snd (run_state m w)) = f w)"

named_theorems leaves_intros "rules for what a run leaves as it was"

lemma leavesD: "leaves f m \<Longrightarrow> run_state m w = (r, w') \<Longrightarrow> f w' = f w"
  by (metis leaves_def snd_conv)

lemma leaves_holds: "leaves f m \<Longrightarrow> holds m (\<lambda>_ w'. f w' = f w) w"
  by (simp add: leaves_def holds_def case_prod_unfold)

lemma leaves_seq [leaves_intros]:
  "leaves f m \<Longrightarrow> (\<And>x. leaves f (g x)) \<Longrightarrow> leaves f (State_Monad.bind m g)"
  by (simp add: leaves_def State_Monad.bind_def case_prod_unfold)

lemma leaves_return [leaves_intros]: "leaves f (State_Monad.return x)"
  by (simp add: leaves_def State_Monad.return_def)

lemma leaves_ret [leaves_intros]: "leaves f (ret_ok x)" "leaves f (ret_err m)" "leaves f nothing"
  by (simp_all add: ret_ok_def ret_err_def nothing_def leaves_return)

lemma leaves_roe_then [leaves_intros]: "leaves f m \<Longrightarrow> (\<And>x. leaves f (g x)) \<Longrightarrow> leaves f (roe_then m g)"
  unfolding roe_then_def by (rule leaves_seq) (auto intro: leaves_return split: sum.split)

lemma leaves_given [leaves_intros]: "(\<And>x. leaves f (g x)) \<Longrightarrow> leaves f (given r g)"
  unfolding given_def by (intro leaves_intros)

lemma leaves_ignore [leaves_intros]: "leaves f m \<Longrightarrow> leaves f (ignore m)"
  unfolding ignore_def by (intro leaves_intros)

lemma leaves_get [leaves_intros]: "leaves f State_Monad.get"
  by (simp add: leaves_def State_Monad.get_def)

lemma leaves_update: "(\<And>w. f (u w) = f w) \<Longrightarrow> leaves f (State_Monad.update u)"
  by (simp add: leaves_def State_Monad.update_def State_Monad.bind_def State_Monad.get_def State_Monad.set_def)

lemma leaves_if [leaves_intros]: "leaves f m \<Longrightarrow> leaves f n \<Longrightarrow> leaves f (if b then m else n)"
  by simp

lemma leaves_option [leaves_intros]:
  "leaves f m \<Longrightarrow> (\<And>v. leaves f (g v)) \<Longrightarrow> leaves f (case x of None \<Rightarrow> m | Some v \<Rightarrow> g v)"
  by (cases x) simp_all

lemma leaves_sum [leaves_intros]:
  "(\<And>x. leaves f (m x)) \<Longrightarrow> (\<And>x. leaves f (g x)) \<Longrightarrow> leaves f (case r of Inl x \<Rightarrow> m x | Inr x \<Rightarrow> g x)"
  by (cases r) simp_all

lemma leaves_pair [leaves_intros]: "(\<And>x y. leaves f (g x y)) \<Longrightarrow> leaves f (case p of (x, y) \<Rightarrow> g x y)"
  by (cases p) simp

lemma leaves_for_m [leaves_intros]: "(\<And>x. leaves f (g x)) \<Longrightarrow> leaves f (for_m g xs)"
  by (induction xs) (auto intro: leaves_intros)

lemma leaves_fan_out: "(\<And>i. leaves f (send i)) \<Longrightarrow> leaves f (fan_out mode send targets result)"
  by (induction targets arbitrary: result) (auto simp: Let_def intro!: leaves_intros)

lemma leaves_FanOutPairwise [leaves_intros]: "(\<And>i. leaves f (send i)) \<Longrightarrow> leaves f (FanOutPairwise targets mode send)"
  unfolding FanOutPairwise_def by (rule leaves_fan_out)

subsection \<open>Operations of the roster store alone\<close>

locale storeless =
  fixes f :: "('o, 'w) world_scheme \<Rightarrow> 'x"
  assumes f_store: "f (w\<lparr>ww_store := s\<rparr>) = f w" and f_tick: "f (w\<lparr>ww_tick := n\<rparr>) = f w"
begin

lemma leaves_on_store [leaves_intros]: "leaves f (on_store m)"
  by (simp add: leaves_def on_store_def f_store split: prod.splits)

lemma leaves_next_tick [leaves_intros]: "leaves f next_tick"
  by (simp add: leaves_def next_tick_def f_tick)

lemma leaves_clock [leaves_intros]: "leaves f (clock e)"
  unfolding clock_def by (intro leaves_intros)

lemma leaves_fresh_id [leaves_intros]: "leaves f (fresh_id e)"
  unfolding fresh_id_def by (intro leaves_intros)

lemma leaves_LoadMetadataOrError [leaves_intros]: "leaves f (LoadMetadataOrError g)"
  unfolding LoadMetadataOrError_def by (rule leaves_on_store)

lemma leaves_SignOwnChange [leaves_intros]: "leaves f (SignOwnChange e draft)"
  unfolding SignOwnChange_def by (intro leaves_intros)

lemma leaves_SignRoster [leaves_intros]: "leaves f (SignRoster e g handed)"
  unfolding SignRoster_def by (intro leaves_intros)

lemma leaves_WithSignedRoster [leaves_intros]: "leaves f (WithSignedRoster e g detail)"
  unfolding WithSignedRoster_def by (intro leaves_intros)

lemma leaves_signed_add [leaves_intros]: "leaves f (signed_add e a local device now)"
  unfolding signed_add_def by (intro leaves_intros)

lemma leaves_take_add [leaves_intros]: "leaves f (take_add e g member add now)"
  unfolding take_add_def by (intro leaves_intros)

lemma leaves_accepted_invite [leaves_intros]: "leaves f (accepted_invite a)"
  unfolding accepted_invite_def by (intro leaves_intros)

lemma leaves_JoinBundleDetail [leaves_intros]: "leaves f (JoinBundleDetail e joined st first)"
  unfolding JoinBundleDetail_def by (intro leaves_intros)

lemma leaves_IsDissolved [leaves_intros]: "leaves f (IsDissolved g)"
  unfolding IsDissolved_def by (intro leaves_intros)

lemma leaves_LocalRole [leaves_intros]: "leaves f (LocalRole e g)"
  unfolding LocalRole_def by (auto intro!: leaves_intros)

end

text \<open>What was said to the neighbours is such a reading.\<close>

interpretation said: storeless ww_calls
  by unfold_locales simp_all

subsection \<open>Everything the membership workflow does for a link\<close>

locale unseen = storeless f for f :: "('o, 'w) flow_scheme \<Rightarrow> 'x" +
  assumes f_calls: "f (w\<lparr>ww_calls := cs\<rparr>) = f w"
    and f_gate: "f (w\<lparr>fl_gate := gate\<rparr>) = f w"
    and f_folds: "f (w\<lparr>fl_folds_pending := folds\<rparr>) = f w"
begin

lemma leaves_make_call [leaves_intros]: "leaves f (make_call answers c)"
  unfolding make_call_def by (intro leaves_intros leaves_update f_calls)

lemma leaves_tell [leaves_intros]: "leaves f (tell c)"
  unfolding tell_def by (rule leaves_make_call)

lemma leaves_lines [leaves_intros]:
  "leaves f (SystemLine e thread type display detail sender)" "leaves f (LineFor e thread c epoch)"
  unfolding SystemLine_def LineFor_def by (intro leaves_intros)+

lemma leaves_append_lines [leaves_intros]: "leaves f (append_lines e thread cs epoch local about)"
  by (induction cs arbitrary: about) (auto intro!: leaves_intros)

lemma leaves_change_lines [leaves_intros]:
  "leaves f (AppendChangeLines e g cs epoch local)" "leaves f (FollowTitle e g title)"
  unfolding AppendChangeLines_def FollowTitle_def by (intro leaves_intros)+

lemma leaves_event [leaves_intros]: "leaves f (AppendMembershipSystemEvent e thread type display detail sender)"
  unfolding AppendMembershipSystemEvent_def by (intro leaves_intros)

lemma leaves_direct [leaves_intros]: "leaves f (SendMembershipDirectMessage e peer type detail display stored)"
  unfolding SendMembershipDirectMessage_def direct_thread_def by (intro leaves_intros)

lemma leaves_FanOutChange [leaves_intros]: "leaves f (FanOutChange e g c removed newcomer)"
  unfolding FanOutChange_def Let_def by (intro leaves_intros)

lemma leaves_ScheduleFold [leaves_intros]: "leaves f (ScheduleFold g)"
  unfolding ScheduleFold_def by (intro leaves_intros leaves_update f_folds)

lemma leaves_after_own_change [leaves_intros]: "leaves f (after_own_change e g c local)"
  unfolding after_own_change_def by (intro leaves_intros)

lemma leaves_CommitOwnChange [leaves_intros]: "leaves f (CommitOwnChange e draft)"
  unfolding CommitOwnChange_def by (intro leaves_intros)

lemma leaves_SendJoinBundle [leaves_intros]: "leaves f (SendJoinBundle e g newcomer nonce added_by first)"
  unfolding SendJoinBundle_def Let_def by (intro leaves_intros)

lemma leaves_publish_add [leaves_intros]: "leaves f (publish_add e a add local)"
  unfolding publish_add_def by (intro leaves_intros)

lemma leaves_AdmitNewcomer [leaves_intros]: "leaves f (AdmitNewcomer e a)"
  unfolding AdmitNewcomer_def by (intro leaves_intros)

lemma leaves_AdmitByLink [leaves_intros]: "leaves f (AdmitByLink e g link_id member request_id)"
  unfolding AdmitByLink_def by (intro leaves_intros)

lemma leaves_EnterAcceptedGroup [leaves_intros]: "leaves f (EnterAcceptedGroup e pending local by_link)"
  unfolding EnterAcceptedGroup_def Let_def by (intro leaves_intros leaves_update f_gate)

lemma leaves_JoinByLink [leaves_intros]: "leaves f (JoinByLink e request_id g title owner answerer)"
  unfolding JoinByLink_def thread_if_inside_def Let_def by (intro leaves_intros)

lemma leaves_SendJoin [leaves_intros]: "leaves f (SendJoin e peer message)"
  unfolding SendJoin_def by (intro leaves_intros)

lemma leaves_RefuseJoiner [leaves_intros]: "leaves f (RefuseJoiner e joiner request_id reason)"
  unfolding RefuseJoiner_def by (intro leaves_intros)

lemma leaves_link_group [leaves_intros]: "leaves f (link_group e link_id kept now)"
  unfolding link_group_def by (intro leaves_intros)

end

text \<open>The joins and the previews of the workflow of links.\<close>

interpretation of_joins: unseen lk_joins
  by unfold_locales simp_all

interpretation of_previews: unseen lk_answering
  by unfold_locales simp_all

end
