(* ===== verification/FlowSample.thy ===== *)
theory FlowSample
  imports FlowLaws LinkClaims JoinClaims
begin

section \<open>Sample worlds of the workflows\<close>

text \<open>
  An environment and a world for the witnesses: the chat store answers with the chat of the group or of
  nobody, every send succeeds, and the cipher keeps the plain text behind one byte.
\<close>

definition sample_thread :: chat_thread where
  "sample_thread = \<lparr>th_id = ''t1'', th_group_id = Some ''g'', th_title = ''walks'', th_preview = [], th_updated_at = 0\<rparr>"

definition sample_cipher :: file_cipher where
  "sample_cipher = \<lparr>fc_seal = \<lambda>_ plain. Inr (1 # plain), fc_open = \<lambda>_ sealed. Inr (drop 1 sealed)\<rparr>"

lemma sample_cipher_laws: "cipher_laws sample_cipher"
  by (simp add: cipher_laws_def sample_cipher_def)

definition sample_flow_env :: "string \<Rightarrow> (string, string) links_env" where
  "sample_flow_env local = \<lparr>we_lib = sample_lib, we_crypto = sample_crypto, we_cards = \<lambda>_. None, we_clock = \<lambda>n. 100,
     we_uuid = \<lambda>_. ''id'', we_thread = \<lambda>_. Inr sample_thread, we_found = \<lambda>_. Inr (Some sample_thread),
     we_page = \<lambda>_. Inr [], we_result = \<lambda>_. Inr (),
     fe_identity = Inr \<lparr>di_account_id = local, di_signing_key = ''a''\<rparr>, fe_signer = sample_signer,
     fe_sign_device = \<lambda>_. Inr ''sig'', fe_own_device = Inr ''dev'', fe_own_card = \<lambda>_. Inl (Error ''no card''),
     fe_contact = \<lambda>_. Inr None, fe_contact_of = \<lambda>_. Inr None, fe_route = \<lambda>_. None, fe_kept_card = \<lambda>_. Inr None,
     fe_words = \<lambda>k. k, fe_shutting_down = \<lambda>_. False,
     le_link_lib = sample_links, le_cipher = sample_cipher, le_db = \<lambda>_. NoFault, le_random = \<lambda>_. replicate 16 7,
     le_keeps_links = True\<rparr>"

lemma sample_flow_env_fields [simp]:
  "we_lib (sample_flow_env i) = sample_lib" "we_crypto (sample_flow_env i) = sample_crypto"
  "we_cards (sample_flow_env i) = (\<lambda>_. None)" "we_clock (sample_flow_env i) n = 100" "we_uuid (sample_flow_env i) n = ''id''"
  "we_thread (sample_flow_env i) n = Inr sample_thread" "we_found (sample_flow_env i) n = Inr (Some sample_thread)"
  "we_page (sample_flow_env i) n = Inr []" "we_result (sample_flow_env i) n = Inr ()"
  "fe_signer (sample_flow_env i) = sample_signer" "fe_own_device (sample_flow_env i) = Inr ''dev''"
  "fe_contact_of (sample_flow_env i) j = Inr None" "le_cipher (sample_flow_env i) = sample_cipher"
  "le_db (sample_flow_env i) n = NoFault" "le_link_lib (sample_flow_env i) = sample_links"
  by (simp_all add: sample_flow_env_def)

lemma sample_local: "i \<noteq> [] \<Longrightarrow> LocalRelayIdentity (sample_flow_env i) = Inr i"
  by (simp add: LocalRelayIdentity_def sample_flow_env_def)

definition sample_gate :: invite_gate where
  "sample_gate = \<lparr>ig_policy = Everyone, ig_standing = None, ig_in_live_call = None, ig_in_call = [], ig_in_call_order = []\<rparr>"

definition sample_flow :: "roster_store \<Rightarrow> string links" where
  "sample_flow s = \<lparr>ww_store = s, ww_calls = [], ww_tick = 0, fl_gate = sample_gate, fl_unreachable = [],
     fl_folds_pending = [], lk_table = [], lk_dek = replicate 32 1, lk_answering = [], lk_joins = [], lk_seen = [],
     lk_dropped = \<lparr>dl_count = 0, dl_last_logged = None\<rparr>\<rparr>"

lemma sample_flow_fields [simp]:
  "ww_store (sample_flow s) = s" "ww_calls (sample_flow s) = []" "lk_table (sample_flow s) = []"
  "lk_dek (sample_flow s) = replicate 32 1" "lk_joins (sample_flow s) = []" "lk_answering (sample_flow s) = []"
  by (simp_all add: sample_flow_def)

end
