(* ===== verification/LinkFlowClaims.thy ===== *)
theory LinkFlowClaims
  imports FlowSample
begin

section \<open>Properties of the links' workflow\<close>

text \<open>
  The links kept here are found again and only with the data key; a join of ours is moved on by the
  link's maker alone; and what strangers can make this device keep is bounded.
\<close>

subsection \<open>A link kept is found again\<close>

definition quiet :: "('o, 'v, 'e) links_env_scheme \<Rightarrow> bool" where
  "quiet e \<longleftrightarrow> (\<forall>n. le_db e n = NoFault)"

lemmas run_monad = State_Monad.bind_def State_Monad.return_def State_Monad.get_def State_Monad.set_def State_Monad.update_def
  next_tick_def roe_then_def given_def ret_ok_def ret_err_def

lemma keep_then_find:
  fixes w :: "('o, 'w) links_scheme"
  assumes "cipher_laws (le_cipher e)" "quiet e" "run_state (KeepLink e link) w = (Inr (), w')"
  shows "\<exists>w''. run_state (FindKeptLink e (kl_link_id link)) w' = (Inr (Some link), w'')"
proof -
  have ids: "kl_link_id link \<noteq> []" "kl_group_id link \<noteq> []" "kl_secret link \<noteq> []"
    and key: "length (lk_dek w) = kDataEncryptionKeySize"
    using assms(3) by (auto simp: KeepLink_def run_monad split: if_splits)
  obtain sealed where sealed: "fc_seal (le_cipher e) (lk_dek w) (kl_secret link) = Inr sealed"
    using assms(3) ids key by (auto simp: KeepLink_def run_monad split: sum.splits)
  have w': "w' = w\<lparr>ww_tick := Suc (ww_tick w), lk_table := om_put (kl_link_id link)
      \<lparr>sl_link_id = kl_link_id link, sl_group_id = kl_group_id link, sl_secret_enc = sealed, sl_maker = kl_maker link,
       sl_expires_at = kl_expires_at link, sl_max_uses = kl_max_uses link, sl_created_at = kl_created_at link\<rparr> (lk_table w)\<rparr>"
    using assms(2,3) ids key sealed by (simp add: KeepLink_def link_write_def run_monad quiet_def)
  have "sealed \<noteq> []" "fc_open (le_cipher e) (lk_dek w) sealed = Inr (kl_secret link)"
    using assms(1) sealed by (auto simp: cipher_laws_def)
  then show ?thesis
    using assms(2) key by (simp add: w' FindKeptLink_def SelectLinks_def opened_link_def run_monad quiet_def Let_def)
qed

text \<open>A locked store shows no secret, and a link forgotten is gone.\<close>

lemma keep_then_find_locked:
  fixes w :: "('o, 'w) links_scheme"
  assumes "quiet e" "run_state (KeepLink e link) w = (Inr (), w')"
  shows "\<exists>w''. run_state (do { ClearDek; FindKeptLink e (kl_link_id link) }) w' = (Inr (Some (link\<lparr>kl_secret := []\<rparr>)), w'')"
  using assms
  by (auto simp: KeepLink_def link_write_def ClearDek_def FindKeptLink_def SelectLinks_def opened_link_def run_monad quiet_def
      Let_def kDataEncryptionKeySize_def split: if_splits sum.splits)

lemma keep_then_forget:
  fixes w :: "('o, 'w) links_scheme"
  assumes "quiet e" "om_ok (lk_table w)" "run_state (KeepLink e link) w = (Inr (), w')"
  shows "\<exists>w''. run_state (do { ForgetLink e (kl_link_id link); FindKeptLink e (kl_link_id link) }) w' = (Inr None, w'')"
  using assms
  by (auto simp: KeepLink_def link_write_def ForgetLink_def FindKeptLink_def SelectLinks_def run_monad quiet_def
      map_of_om_erase Let_def split: if_splits sum.splits)

text \<open>
  C26: a link this device made is found again. Once \<open>Keep\<close> succeeded, the link is read back as it was
  kept, its secret included, as long as the data key is set; with the vault locked the same row is read
  with no secret; and once forgotten, there is none. (The cipher opens what it sealed, and the database
  does not fail.)
\<close>

theorem kept_link_comes_back:
  fixes w :: "('o, 'w) links_scheme"
  assumes "cipher_laws (le_cipher e)" "quiet e" "om_ok (lk_table w)" "run_state (KeepLink e link) w = (Inr (), w')"
  shows "(\<exists>w''. run_state (FindKeptLink e (kl_link_id link)) w' = (Inr (Some link), w''))
    \<and> (\<exists>w''. run_state (do { ClearDek; FindKeptLink e (kl_link_id link) }) w' = (Inr (Some (link\<lparr>kl_secret := []\<rparr>)), w''))
    \<and> (\<exists>w''. run_state (do { ForgetLink e (kl_link_id link); FindKeptLink e (kl_link_id link) }) w' = (Inr None, w''))"
  using keep_then_find [OF assms(1,2,4)] keep_then_find_locked [OF assms(2,4)] keep_then_forget [OF assms(2-4)] by blast

definition sample_kept :: kept_link where
  "sample_kept = \<lparr>kl_link_id = ''l'', kl_group_id = ''g'', kl_secret = [1, 2], kl_maker = ''ann'', kl_expires_at = 500,
     kl_max_uses = 0, kl_created_at = 1\<rparr>"

theorem kept_link_comes_back_witness:
  "\<exists>w' w''. run_state (KeepLink (sample_flow_env ''ann'') sample_kept) (sample_flow (sample_store [])) = (Inr (), w')
     \<and> run_state (FindKeptLink (sample_flow_env ''ann'') ''l'') w' = (Inr (Some sample_kept), w'')"
proof -
  have quiet: "quiet (sample_flow_env ''ann'')" by (simp add: quiet_def)
  obtain w' where keep: "run_state (KeepLink (sample_flow_env ''ann'') sample_kept) (sample_flow (sample_store [])) = (Inr (), w')"
    by (simp add: KeepLink_def link_write_def run_monad sample_kept_def sample_cipher_def kDataEncryptionKeySize_def)
  have "kl_link_id sample_kept = ''l''" by (simp add: sample_kept_def)
  with kept_link_comes_back [OF _ quiet _ keep] sample_cipher_laws keep show ?thesis by (auto simp: om_ok_def)
qed

subsection \<open>The previews this device answered\<close>

lemma of_links_ops [leaves_intros]:
  "leaves lk_joins (SelectLinks e q)" "leaves lk_answering (SelectLinks e q)"
  "leaves lk_joins (FindKeptLink e i)" "leaves lk_answering (FindKeptLink e i)"
  unfolding FindKeptLink_def SelectLinks_def Let_def by (intro leaves_intros)+

lemma of_Judge [leaves_intros]:
  "leaves lk_joins (Judge e link_id secret joiner count_rate)" "leaves lk_answering (Judge e link_id secret joiner count_rate)"
  unfolding Judge_def Let_def by (intro leaves_intros leaves_update; simp)+

lemma of_NoteDropped [leaves_intros]: "leaves lk_joins (NoteDropped e)" "leaves lk_answering (NoteDropped e)"
  unfolding NoteDropped_def by (intro leaves_intros leaves_update; simp)+

lemma joins_AnswerPreview [leaves_intros]: "leaves lk_joins (AnswerPreview e request joiner preview)"
  unfolding AnswerPreview_def by (intro leaves_intros leaves_update; simp)

lemma joins_OnRequest: "leaves lk_joins (OnRequest e request joiner)"
  unfolding OnRequest_def
  by (intro leaves_seq leaves_pair of_Judge, split join_kind.split)
    (auto intro!: leaves_intros split: sum.split option.split)

lemma joins_OnConfirm: "leaves lk_joins (OnConfirm e confirm joiner)"
  unfolding OnConfirm_def by (intro leaves_intros leaves_update; simp)

lemma previews_move_join [leaves_intros]: "leaves lk_answering (move_join i f)"
  unfolding move_join_def by (rule leaves_update) (simp split: option.split)

lemma length_om_put: "length (om_put k v m) \<le> Suc (length m)"
  by (induction k v m rule: om_put.induct) auto

lemma length_om_erase: "length (om_erase k m) \<le> length m"
  by (induction k m rule: om_erase.induct) auto

definition few_previews :: "('o, 'w) links_scheme \<Rightarrow> bool" where
  "few_previews w \<longleftrightarrow> length (lk_answering w) \<le> kMaxOpenJoins"

lemma few_left: "leaves lk_answering m \<Longrightarrow> few_previews w \<Longrightarrow> holds m (\<lambda>_. few_previews) w"
  unfolding few_previews_def by (rule holds_weaken [OF leaves_holds]) auto

lemma few_then: "leaves lk_answering m \<Longrightarrow> few_previews w \<Longrightarrow> (\<And>r w'. few_previews w' \<Longrightarrow> holds (f r) Q w') \<Longrightarrow>
    holds (State_Monad.bind m f) Q w"
  by (rule holds_bind, rule holds_weaken [OF few_left]) auto

lemma few_stale: "few_previews w \<Longrightarrow> few_previews (w\<lparr>lk_answering := DropStale now (lk_answering w)\<rparr>)"
  unfolding few_previews_def DropStale_def by (auto intro: le_trans [OF length_filter_le])

lemma few_AnswerPreview: "few_previews w \<Longrightarrow> holds (AnswerPreview e request joiner preview) (\<lambda>_. few_previews) w"
  unfolding AnswerPreview_def
proof (rule few_then [OF of_previews.leaves_clock], assumption, rule holds_bind, rule holds_update, rule holds_bind,
    rule holds_get, rule holds_if, goal_cases)
  case (1 now w)
  show ?case by (rule few_left [OF of_previews.leaves_RefuseJoiner few_stale [OF 1(2)]])
next
  case (2 now w)
  show ?case
  proof (rule holds_bind, rule holds_update, rule few_left [OF of_previews.leaves_SendJoin], goal_cases)
    case 1
    show ?case using 2(3) by (auto simp: few_previews_def not_le intro!: le_trans [OF length_om_put])
  qed
qed

lemma few_OnRequest: "few_previews w \<Longrightarrow> holds (OnRequest e request joiner) (\<lambda>_. few_previews) w"
  unfolding OnRequest_def
proof (rule few_then [OF of_Judge(2)], assumption, goal_cases)
  case (1 r w')
  have refuse: "few_previews w \<Longrightarrow> holds (RefuseJoiner e joiner i reason) (\<lambda>_. few_previews) w"
    for i reason and w :: "('a, 'b) links_scheme"
    by (rule few_left [OF of_previews.leaves_RefuseJoiner])
  obtain judged g view where r: "r = (judged, g, view)" by (cases r)
  show ?case
  proof (cases "jj_kind judged")
    case KindAccept
    show ?thesis
      unfolding r prod.case KindAccept join_kind.case
      by (rule few_then [OF of_previews.leaves_on_store 1(2)])
        (auto intro: refuse few_AnswerPreview split: sum.split option.split)
  qed (use 1 in \<open>auto simp: r intro: refuse few_left [OF of_NoteDropped(2)]\<close>)
qed

lemma few_OnConfirm: "few_previews w \<Longrightarrow> holds (OnConfirm e confirm joiner) (\<lambda>_. few_previews) w"
  unfolding OnConfirm_def
proof (rule holds_if, goal_cases)
  case 1
  then show ?case by (auto intro: few_left [OF leaves_ret(3)])
next
  case 2
  have erase: "few_previews w \<Longrightarrow> few_previews (w\<lparr>lk_answering := om_erase i (lk_answering w)\<rparr>)"
    for i and w :: "('a, 'b) links_scheme"
    unfolding few_previews_def by (auto intro: le_trans [OF length_om_erase])
  show ?case
  proof (rule few_then [OF of_previews.leaves_clock 2(1)], rule holds_bind, rule holds_update, rule holds_bind, rule holds_get,
      goal_cases)
    case (1 now w)
    note few = few_stale [OF 1, of now]
    show ?case
    proof (cases "map_of (lk_answering (w\<lparr>lk_answering := DropStale now (lk_answering w)\<rparr>)) (jc_request_id confirm)")
      case None
      then show ?thesis using few by (auto intro: few_left [OF leaves_ret(3)])
    next
      case (Some a)
      show ?thesis
        unfolding Some option.case
      proof (rule holds_if, goal_cases)
        case 1
        then show ?case using few by (auto intro: few_left [OF leaves_ret(3)])
      next
        case 2
        show ?case
          by (rule holds_bind, rule holds_update, rule few_left [OF _ erase [OF few]])
            (intro leaves_intros of_Judge of_previews.leaves_RefuseJoiner of_previews.leaves_AdmitByLink)
      qed
    qed
  qed
qed

lemma few_on_join_message: "few_previews w \<Longrightarrow> holds (on_join_message e m sender) (\<lambda>_. few_previews) w"
  by (cases m)
    (auto intro: few_OnRequest few_OnConfirm few_left simp: OnPreview_def OnRefused_def intro!: leaves_intros
      of_previews.leaves_clock)

text \<open>
  C24: strangers cannot make this device keep previews without bound: whatever messages of the join
  family it handles, in whatever order and from whomever, it keeps at most 256 previews it answered.
\<close>

theorem open_previews_bounded:
  fixes w :: "('o, 'w) links_scheme"
  assumes "length (lk_answering w) \<le> kMaxOpenJoins"
  shows "length (lk_answering (snd (run_state (for_m (\<lambda>(m, sender). on_join_message e m sender) arrived) w))) \<le> kMaxOpenJoins"
proof -
  have "few_previews (snd (run_state (for_m (\<lambda>(m, sender). on_join_message e m sender) arrived) w))"
    if "few_previews w" for w :: "('o, 'w) links_scheme"
    using that
  proof (induction arrived arbitrary: w)
    case Nil
    then show ?case by (simp add: State_Monad.return_def)
  next
    case (Cons a rest)
    obtain m sender where a: "a = (m, sender)" by (cases a)
    obtain w' where w': "run_state (on_join_message e m sender) w = ((), w')" by (cases "run_state (on_join_message e m sender) w") auto
    have "few_previews w'" using few_on_join_message [OF Cons.prems, of e m sender] w' by (simp add: holds_def)
    then show ?case using Cons.IH by (simp add: a State_Monad.bind_def w')
  qed
  then show ?thesis using assms by (simp add: few_previews_def)
qed

theorem open_previews_bounded_witness:
  "length (lk_answering (snd (run_state (for_m (\<lambda>(m, sender). on_join_message (sample_flow_env ''ann'') m sender)
     [(JoinRequest \<lparr>jq_request_id = ''r'', jq_link_id = ''l'', jq_secret = [1]\<rparr>, ''mal''),
      (JoinConfirm \<lparr>jc_request_id = ''r'', jc_device = ''dev''\<rparr>, ''mal'')]) (sample_flow (sample_store []))))) \<le> kMaxOpenJoins"
  by (rule open_previews_bounded) simp

subsection \<open>A join of this device\<close>

text \<open>The steps a message of the link's maker takes a join: shown a preview, or refused.\<close>

definition answered_by_maker :: "string \<Rightarrow> join_state \<Rightarrow> join_state \<Rightarrow> bool" where
  "answered_by_maker sender j j' \<longleftrightarrow> jt_maker j = sender
     \<and> ((\<exists>preview. jt_phase j \<in> {PhaseAsking, PhaseNoAnswer} \<and> j' = j\<lparr>jt_phase := PhasePreview, jt_preview := Some preview\<rparr>)
        \<or> (\<exists>reason. jt_phase j \<notin> {PhaseRefused, PhaseCancelled} \<and> j' = j\<lparr>jt_phase := PhaseRefused, jt_reason := reason\<rparr>))"

definition moved_by :: "string \<Rightarrow> (string \<times> (join_state \<times> time_ms)) list \<Rightarrow> (string \<times> (join_state \<times> time_ms)) list \<Rightarrow> bool" where
  "moved_by sender joins joins' \<longleftrightarrow> (\<forall>i. rel_option (\<lambda>(j, _) (j', _). j' = j \<or> answered_by_maker sender j j')
     (map_of joins i) (map_of joins' i))"

lemma moved_by_refl [simp]: "moved_by sender joins joins"
  by (auto simp: moved_by_def intro: option.rel_refl)

lemma moved_by_move_join:
  "(\<And>j at. fst (f j at) = j \<or> answered_by_maker sender j (fst (f j at))) \<Longrightarrow>
    run_state (move_join i f) w = (r, w') \<Longrightarrow> moved_by sender (lk_joins w) (lk_joins w')"
  by (auto simp: move_join_def run_monad moved_by_def split: option.splits prod.splits intro!: option.rel_refl)
     (metis fst_conv)+

text \<open>
  C25: only the maker of a link moves a join asked with it. Whatever message of the join family arrives,
  from whomever, no join of ours appears or goes; each one stays as it was unless the sender is the maker
  of its link, who can show a preview to a join still asked (or given up on) and refuse one that is not
  refused or cancelled already.
\<close>

theorem only_maker_moves_join:
  fixes w :: "('o, 'w) links_scheme"
  shows "moved_by sender (lk_joins w) (lk_joins (snd (run_state (on_join_message e m sender) w)))"
proof (cases m)
  case (JoinRequest request)
  then show ?thesis by (simp add: joins_OnRequest [unfolded leaves_def, rule_format])
next
  case (JoinConfirm confirm)
  then show ?thesis by (simp add: joins_OnConfirm [unfolded leaves_def, rule_format])
next
  case (JoinPreview preview)
  show ?thesis
    unfolding JoinPreview on_join_message.simps OnPreview_def
    by (simp add: State_Monad.bind_def clock_def next_tick_def State_Monad.return_def)
      (rule moved_by_move_join [OF _ surjective_pairing, where w = "w\<lparr>ww_tick := Suc (ww_tick w)\<rparr>", simplified],
        auto simp: answered_by_maker_def)
next
  case (JoinRefused refused)
  show ?thesis
    unfolding JoinRefused on_join_message.simps OnRefused_def
    by (rule moved_by_move_join [OF _ surjective_pairing]) (auto simp: answered_by_maker_def)
qed

subsection \<open>The joins kept are not bounded\<close>

lemma recent_joins_stay:
  "\<forall>(i, j, at) \<in> set joins. now - at \<le> kPreviewLifetimeMs \<Longrightarrow> drop_old_joins now n joins = joins"
  by (induction now n joins rule: drop_old_joins.induct) auto

lemma length_om_put_new: "map_of m k = None \<Longrightarrow> length (om_put k v m) = Suc (length m)"
  by (induction k v m rule: om_put.induct) (auto split: if_splits)

lemmas joins_left = of_joins.leaves_SendJoin [unfolded leaves_def, rule_format]
  of_joins.leaves_tell [unfolded leaves_def, rule_format]

text \<open>
  The bound of 256 holds for the previews only: the joins this device asked go when they are stale, and
  as many as were asked within ten minutes stay, the new one beside them.
\<close>

theorem joins_not_bounded:
  fixes w :: "('o, 'w) links_scheme"
  assumes "FindLink (le_link_lib e) text = Inr link" "LocalRelayIdentity e = Inr local" "gj_maker link \<noteq> local"
    and recent: "\<And>i j at. (i, j, at) \<in> set (lk_joins w) \<Longrightarrow> we_clock e (ww_tick w) - at \<le> kPreviewLifetimeMs"
    and fresh: "map_of (lk_joins w) (we_uuid e (Suc (ww_tick w))) = None"
  shows "length (lk_joins (snd (run_state (AskToJoin e text) w))) = Suc (length (lk_joins w))"
proof -
  have stay: "drop_old_joins (we_clock e (ww_tick w)) n (lk_joins w) = lk_joins w" for n
    by (rule recent_joins_stay) (use recent in auto)
  show ?thesis
    using assms(1-3) fresh
    by (simp add: AskToJoin_def run_monad clock_def fresh_id_def nothing_def Let_def stay length_om_put_new case_prod_unfold
        joins_left)
qed

end
