(* ===== verification/FlowRights.thy ===== *)
theory FlowRights
  imports FlowSample DraftClaims
begin

section \<open>Who may do what to a group from here\<close>

text \<open>
  The actions of the user on a group as one type, and the right each needs of the roster this device
  holds: without it an action changes nothing in the store and says nothing to anyone. \<open>only_if P w w'\<close>
  is the relation the proofs carry from guard to guard: nothing happened since \<open>w\<close>, or \<open>P\<close>.
\<close>

subsection \<open>Nothing happened\<close>

definition untouched :: "('o, 'w) world_scheme \<Rightarrow> ('o, 'w) world_scheme \<Rightarrow> bool" where
  "untouched w w' \<longleftrightarrow> clean (ww_store w') = clean (ww_store w) \<and> ww_calls w' = ww_calls w"

lemma untouched_refl [simp]: "untouched w w"
  by (simp add: untouched_def)

definition only_if :: "bool \<Rightarrow> ('o, 'w) world_scheme \<Rightarrow> ('o, 'w) world_scheme \<Rightarrow> bool" where
  "only_if P w w' \<longleftrightarrow> untouched w w' \<or> P"

named_theorems right_intros "rules that lead an action through its guards"

lemma only_if_right: "P \<Longrightarrow> holds m (\<lambda>_. only_if P w) w'"
  by (simp add: holds_def only_if_def case_prod_unfold)

lemma only_if_returns [right_intros]:
  "untouched w w' \<Longrightarrow> holds (State_Monad.return x) (\<lambda>_. only_if P w) w'"
  "untouched w w' \<Longrightarrow> holds (ret_ok y) (\<lambda>_. only_if P w) w'" "untouched w w' \<Longrightarrow> holds (ret_err m) (\<lambda>_. only_if P w) w'"
  by (auto simp: only_if_def intro: holds_return holds_ret_ok holds_ret_err)

lemma only_if_given [right_intros]:
  "untouched w w' \<Longrightarrow> (\<And>x. r = Inr x \<Longrightarrow> holds (f x) (\<lambda>_. only_if P w) w') \<Longrightarrow> holds (given r f) (\<lambda>_. only_if P w) w'"
  by (auto simp: given_def only_if_def intro!: holds_roe_then holds_return split: sum.split)

text \<open>A read of the store, and what its answer is known to be.\<close>

definition reads :: "roster_store \<Rightarrow> (roster_store, 'a) state \<Rightarrow> ('a \<Rightarrow> bool) \<Rightarrow> bool" where
  "reads s m A \<longleftrightarrow> after m (\<lambda>r t. t = clean s \<and> A r) s"

lemma untouched_read:
  assumes "untouched w w0" "reads (ww_store w) m A" "\<And>r w'. untouched w w' \<Longrightarrow> A r \<Longrightarrow> Q r w'"
  shows "holds (on_store m) Q w0"
proof (rule holds_on_store)
  have same: "clean (ww_store w0) = clean (ww_store w)" using assms(1) by (simp add: untouched_def)
  have "after m (\<lambda>r t. t = clean (ww_store w) \<and> A r) (ww_store w0)"
    using assms(2) unfolding reads_def by (metis same after_clean)
  then show "after m (\<lambda>r s. \<forall>fs. Q r (w0\<lparr>ww_store := s\<lparr>db_faults := fs\<rparr>\<rparr>)) (ww_store w0)"
    by (rule after_weaken) (use assms(1,3) in \<open>simp add: untouched_def\<close>)
qed

lemma read_then:
  assumes "untouched w w0" "reads (ww_store w) m A"
    "\<And>r w'. untouched w w' \<Longrightarrow> A r \<Longrightarrow> holds (f r) Q w'"
  shows "holds (State_Monad.bind (on_store m) f) Q w0"
  by (rule holds_bind, rule untouched_read [OF assms(1,2)]) (rule assms(3))

lemma read_or_error:
  assumes "untouched w w0" "reads (ww_store w) m A"
    "\<And>x w'. untouched w w' \<Longrightarrow> A (Inr x) \<Longrightarrow> holds (f x) (\<lambda>_. only_if P w) w'"
  shows "holds (roe_then (on_store m) f) (\<lambda>_. only_if P w) w0"
  unfolding roe_then_def
proof (rule read_then [OF assms(1,2)])
  show "holds (case r of Inl e \<Rightarrow> State_Monad.return (Inl e) | Inr x \<Rightarrow> f x) (\<lambda>_. only_if P w) w'"
    if "untouched w w'" "A r" for r w'
    using that assms(3) by (cases r) (auto intro: only_if_returns(1))
qed

lemma untouched_clock: "untouched w w0 \<Longrightarrow> (\<And>n w'. untouched w w' \<Longrightarrow> holds (f n) Q w') \<Longrightarrow> holds (State_Monad.bind (clock e) f) Q w0"
  by (rule holds_bind, rule holds_clock) (simp add: untouched_def)

lemma untouched_fresh: "untouched w w0 \<Longrightarrow> (\<And>n w'. untouched w w' \<Longrightarrow> holds (f n) Q w') \<Longrightarrow> holds (State_Monad.bind (fresh_id e) f) Q w0"
  by (rule holds_bind, rule holds_fresh_id) (simp add: untouched_def)

subsection \<open>What the reads of an action say\<close>

definition metadata_read :: "roster_store \<Rightarrow> string \<Rightarrow> group_metadata \<Rightarrow> bool" where
  "metadata_read s g md' \<longleftrightarrow> (\<exists>md epoch. map_of (db_metadata s) g = Some md \<and> md' = md\<lparr>md_group_id := g, md_session_epoch := epoch\<rparr>)"

lemma reads_LoadMetadata: "reads s (LoadMetadata g) (\<lambda>r. \<forall>md. r = Inr (Some md) \<longrightarrow> metadata_read s g md)"
  unfolding reads_def metadata_read_def by (rule after_LoadMetadata) auto

lemma reads_LoadMetadataRequired: "reads s (LoadMetadataRequired g) (\<lambda>r. \<forall>md. r = Inr md \<longrightarrow> metadata_read s g md)"
  unfolding reads_def metadata_read_def by (rule after_LoadMetadataRequired) auto

lemma reads_FindMember:
  "reads s (FindMember g i) (\<lambda>r. \<forall>m. r = Inr (Some m) \<longrightarrow> m \<in> set (rows_of g (db_rosters s)) \<and> rm_identity m = i)"
  unfolding reads_def by (rule after_FindMember) auto

lemma reads_IsMember: "reads s (IsMember g i) (\<lambda>r. r = Inr True \<longrightarrow> is_member s g i)"
  unfolding reads_def by (rule after_IsMember_row) auto

lemma reads_any:
  "reads s (ListMembers g) (\<lambda>_. True)" "reads s (RemovedEntry cr js g m cards now) (\<lambda>_. True)"
  unfolding reads_def by (rule after_ListMembers, auto) (rule after_RemovedEntry, auto)

text \<open>A draft is only made by right (\<open>DraftClaims\<close>), and it is of the kind that was asked for.\<close>

lemma kind_of_DraftOn: "after (DraftOn js g local device kind now) (\<lambda>r t. t = clean s \<and> (\<forall>c. r = Inr c \<longrightarrow> c_kind c = kind)) s"
  by (rule after_DraftOn) (simp_all add: blank_change_def)

lemma kind_of_DraftRename: "after (DraftRename cr js g local device title cards now) (\<lambda>r _. \<forall>c. r = Inr c \<longrightarrow> c_kind c = KRename) s"
  unfolding DraftRename_def
  by (rule after_roe_then, rule after_weaken [OF kind_of_DraftOn])
    (auto intro!: after_if after_ret_err after_roe_then after_MetadataOf after_bind after_OwnRole after_CurrentView after_ret_ok
      after_return split: sum.split)

lemma kind_of_DraftRemove:
  "after (DraftRemove cr js g local device m now) (\<lambda>r _. \<forall>c. r = Inr c \<longrightarrow> c_kind c = KRemove \<and> c_member c = m) s"
  unfolding DraftRemove_def
  by (rule after_roe_then, rule after_weaken [OF kind_of_DraftOn])
    (auto intro!: after_if after_ret_err after_roe_then after_MetadataOf after_bind after_FindMember after_HeldChanges after_ret_ok
      after_return split: sum.split)

lemma reads_DraftRename:
  "reads s (DraftRename cr js g local device title cards now)
     (\<lambda>r. \<forall>c. r = Inr c \<longrightarrow> (\<exists>t. draft_right cr js s g local cards t c) \<and> c_kind c = KRename)"
  unfolding reads_def
  by (rule after_weaken [OF after_conj [OF drafted_rename kind_of_DraftRename]]) (auto simp: good_draft_def)

lemma reads_DraftRemove:
  "reads s (DraftRemove cr js g local device m now)
     (\<lambda>r. \<forall>c. r = Inr c \<longrightarrow> (\<exists>t. draft_right cr js s g local (\<lambda>_. None) t c) \<and> c_kind c = KRemove \<and> c_member c = m)"
  unfolding reads_def
  by (rule after_weaken [OF after_conj [OF drafted_remove kind_of_DraftRemove]]) (auto simp: good_draft_def)

subsection \<open>The actions\<close>

datatype user_action =
    DoInvite string string string
  | DoSetRole string member_role
  | DoSetPreset group_preset
  | DoRename string
  | DoRemove string
  | DoLeave
  | DoHandOver string
  | DoDissolve
  | DoRemoveAddedBy string
  | DoReinviteRemovedBy string

fun act ::
  "('o, 'v, 'e) flow_env_scheme \<Rightarrow> string \<Rightarrow> user_action \<Rightarrow> (('o, 'w) flow_scheme, unit roe) state" where
  "act e g (DoInvite invitee contact_id call_id) = InviteIdentity e g invitee contact_id call_id"
| "act e g (DoSetRole member role) = SetMemberRole e g member role"
| "act e g (DoSetPreset preset) = SetGroupPreset e g preset"
| "act e g (DoRename title) = RenameGroupShared e g title"
| "act e g (DoRemove member) = RemoveMemberByIdentity e g member"
| "act e g DoLeave = LeaveGroup e g"
| "act e g (DoHandOver successor) = LeaveAsOwner e g successor"
| "act e g DoDissolve = DissolveGroup e g"
| "act e g (DoRemoveAddedBy account) = roe_then (RemoveEveryoneAddedBy e g account) (\<lambda>_. ret_ok ())"
| "act e g (DoReinviteRemovedBy account) = roe_then (ReinviteEveryoneRemovedBy e g account) (\<lambda>_. ret_ok ())"

text \<open>The right of an account, by the metadata and the roster here.\<close>

definition group_here :: "roster_store \<Rightarrow> string \<Rightarrow> (group_metadata \<Rightarrow> bool) \<Rightarrow> bool" where
  "group_here s g P \<longleftrightarrow> (\<exists>md. map_of (db_metadata s) g = Some md \<and> P md)"

fun action_right :: "roster_store \<Rightarrow> string \<Rightarrow> string \<Rightarrow> user_action \<Rightarrow> bool" where
  "action_right s g local (DoInvite _ _ _) = group_here s g (\<lambda>md. md_sync_state md \<noteq> Dissolved
     \<and> (\<exists>mine. role_of s md g local mine \<and> GroupAllows Invite mine (md_preset md) Member))"
| "action_right s g local (DoSetRole _ role) = group_here s g (\<lambda>md. md_sync_state md \<noteq> Dissolved \<and> md_owner md = local \<and> role \<noteq> Owner)"
| "action_right s g local (DoSetPreset _) = group_here s g (\<lambda>md. md_sync_state md \<noteq> Dissolved \<and> md_owner md = local)"
| "action_right s g local (DoRename _) = group_here s g (\<lambda>md. md_sync_state md \<noteq> Dissolved
     \<and> (md_owner md = local \<or> (\<exists>mine. role_of s md g local mine \<and> GroupAllows Rename mine (md_preset md) Member)))"
| "action_right s g local (DoRemove member) = group_here s g (\<lambda>md. md_sync_state md \<noteq> Dissolved \<and> member \<noteq> local
     \<and> (md_owner md = local \<or> (\<exists>mine theirs. role_of s md g local mine \<and> role_of s md g member theirs
          \<and> GroupAllows Remove mine (md_preset md) theirs)))"
| "action_right s g local DoLeave = group_here s g (\<lambda>md. md_owner md \<noteq> local)"
| "action_right s g local (DoHandOver successor) = group_here s g (\<lambda>md. md_owner md = local \<and> successor \<noteq> local
     \<and> is_member s g successor)"
| "action_right s g local DoDissolve = group_here s g (\<lambda>md. md_owner md = local)"
| "action_right s g local (DoRemoveAddedBy _) = group_here s g (\<lambda>md. role_of s md g local Owner \<or> role_of s md g local Admin)"
| "action_right s g local (DoReinviteRemovedBy _) = group_here s g (\<lambda>md. role_of s md g local Owner)"

lemma holds_metadata [right_intros]:
  assumes "untouched w w0"
    "\<And>md md' w'. untouched w w' \<Longrightarrow> map_of (db_metadata (ww_store w)) g = Some md \<Longrightarrow> md_owner md' = md_owner md \<Longrightarrow>
      md_sync_state md' = md_sync_state md \<Longrightarrow> md_preset md' = md_preset md \<Longrightarrow> holds (f md') (\<lambda>_. only_if P w) w'"
  shows "holds (roe_then (LoadMetadataOrError g) f) (\<lambda>_. only_if P w) w0"
  unfolding LoadMetadataOrError_def
  by (rule read_or_error [OF assms(1) reads_LoadMetadataRequired]) (auto simp: metadata_read_def intro: assms(2))

lemma holds_LocalRole:
  assumes "untouched w w0" "LocalRelayIdentity e = Inr local"
    "\<And>role w'. untouched w w' \<Longrightarrow>
      (\<And>r. role = Some r \<Longrightarrow> group_here (ww_store w) g (\<lambda>md. role_of (ww_store w) md g local r)) \<Longrightarrow> holds (f role) Q w'"
  shows "holds (State_Monad.bind (LocalRole e g) f) Q w0"
  unfolding LocalRole_def
proof (rule holds_bind, rule read_then [OF assms(1) reads_LoadMetadata], goal_cases)
  case (1 r w')
  show ?case
  proof (cases "\<exists>md. r = Inr (Some md)")
    case True
    then obtain md' md where r: "r = Inr (Some md')" and md: "map_of (db_metadata (ww_store w)) g = Some md" "md_owner md' = md_owner md"
      using 1(2) by (auto simp: metadata_read_def)
    have here: "group_here (ww_store w) g (\<lambda>md. role_of (ww_store w) md g local x)" if "role_of (ww_store w) md g local x" for x
      using that md by (auto simp: group_here_def)
    show ?thesis
      unfolding r assms(2) prod.case sum.case option.case
    proof (rule holds_if, goal_cases)
      case 1
      then show ?case by (intro holds_return assms(3) \<open>untouched w w'\<close> here) (simp add: role_of_def md)
    next
      case 2
      show ?case
      proof (rule read_then [OF \<open>untouched w w'\<close> reads_FindMember], rule holds_return, rule assms(3), assumption, goal_cases)
        case (1 r w' x)
        then show ?case by (intro here) (auto simp: role_of_def split: sum.splits option.splits)
      qed
    qed
  next
    case False
    then show ?thesis using 1(1) assms(2,3) by (auto intro!: holds_return split: sum.split option.split)
  qed
qed

lemma holds_own_draft:
  assumes "untouched w w0" "\<And>device now. reads (ww_store w) (dr device now) (\<lambda>r. \<forall>c. r = Inr c \<longrightarrow> A c)"
    "\<And>r w'. untouched w w' \<Longrightarrow> (\<And>c. r = Inr c \<Longrightarrow> A c) \<Longrightarrow> Q r w'"
  shows "holds (own_draft e dr) Q w0"
proof (cases "fe_own_device e")
  case (Inl x)
  then show ?thesis using assms(3) [OF assms(1), of "Inl x"] by (simp add: own_draft_def given_def roe_then_def holds_def State_Monad.bind_def State_Monad.return_def)
next
  case (Inr device)
  have "holds (do { now \<leftarrow> clock e; on_store (dr device now) }) Q w0"
    by (rule untouched_clock [OF assms(1)], rule untouched_read [OF _ assms(2)]) (use assms(3) in auto)
  then show ?thesis by (simp add: own_draft_def given_def roe_then_def Inr holds_def State_Monad.bind_def State_Monad.return_def)
qed

text \<open>An action that stopped with an error did nothing either.\<close>

definition only_if_stopped :: "bool \<Rightarrow> ('o, 'w) world_scheme \<Rightarrow> 'a roe \<Rightarrow> ('o, 'w) world_scheme \<Rightarrow> bool" where
  "only_if_stopped P w r w' \<longleftrightarrow> (\<exists>x. r = Inl x) \<and> untouched w w' \<or> P"

lemma only_if_stop: "untouched w w' \<Longrightarrow> holds (ret_err m) (only_if_stopped P w) w'"
  by (auto simp: only_if_stopped_def intro: holds_ret_err)

lemma only_if_stopped_right: "P \<Longrightarrow> holds m (only_if_stopped P w) w'"
  by (simp add: holds_def only_if_stopped_def case_prod_unfold)

lemma only_if_first:
  assumes "holds m (only_if_stopped P w) w0" shows "holds (roe_then m (\<lambda>_. ret_ok ())) (\<lambda>_. only_if P w) w0"
  unfolding roe_then_def
  by (rule holds_bind, rule holds_weaken [OF assms])
    (auto simp: only_if_stopped_def only_if_def ret_ok_def intro!: holds_return split: sum.split)

subsection \<open>Each action\<close>

lemma invite_by_right:
  assumes "LocalRelayIdentity e = Inr local"
  shows "holds (InviteIdentity e g invitee contact_id call_id)
    (\<lambda>_. only_if (action_right (ww_store w) g local (DoInvite invitee contact_id call_id)) w) w"
  unfolding InviteIdentity_def
proof (rule holds_metadata [OF untouched_refl], rule only_if_given, assumption, goal_cases)
  case (1 md md' w1 local')
  then have local: "local' = local" using assms by simp
  show ?case
    unfolding local
  proof (intro holds_if only_if_returns(3) 1(1), rule holds_LocalRole [OF 1(1) assms], goal_cases)
    case (1 role w2)
    note w2 = 1(2)
    show ?case
    proof (cases role)
      case None
      then show ?thesis by (simp add: only_if_returns(3) w2)
    next
      case (Some r)
      have right: "action_right (ww_store w) g local (DoInvite invitee contact_id call_id)"
        if "GroupAllows Invite r (md_preset md') Member"
        using that 1 \<open>map_of _ g = Some md\<close> \<open>md_sync_state md' = md_sync_state md\<close> \<open>md_preset md' = md_preset md\<close> Some
        by (auto simp: group_here_def simp del: GroupAllows.simps)
      show ?thesis
        unfolding Some option.case
        by (rule holds_if, rule only_if_returns(3) [OF w2], rule only_if_right, rule right) simp
    qed
  qed
qed

lemma setting_by_owner:
  assumes "LocalRelayIdentity e = Inr local"
  shows "holds (ChangeGroupSetting e g type display apply_to detail)
    (\<lambda>_. only_if (group_here (ww_store w) g (\<lambda>md. md_sync_state md \<noteq> Dissolved \<and> md_owner md = local)) w) w"
  unfolding ChangeGroupSetting_def assms given_Inr
proof (rule holds_metadata [OF untouched_refl], goal_cases)
  case (1 md md' w1)
  show ?case
    by (intro holds_if only_if_returns(3) 1(1), rule only_if_right) (use 1 in \<open>auto simp: group_here_def\<close>)
qed

lemma role_by_owner:
  assumes "LocalRelayIdentity e = Inr local"
  shows "holds (SetMemberRole e g member role) (\<lambda>_. only_if (action_right (ww_store w) g local (DoSetRole member role)) w) w"
  unfolding SetMemberRole_def
  by (rule holds_if, rule only_if_returns(3), simp, rule holds_weaken [OF setting_by_owner [OF assms]])
    (auto simp: only_if_def group_here_def)

lemma preset_by_owner:
  assumes "LocalRelayIdentity e = Inr local"
  shows "holds (SetGroupPreset e g preset) (\<lambda>_. only_if (action_right (ww_store w) g local (DoSetPreset preset)) w) w"
  unfolding SetGroupPreset_def action_right.simps by (rule setting_by_owner [OF assms])

lemma rename_by_right:
  assumes "LocalRelayIdentity e = Inr local"
  shows "holds (RenameGroupShared e g title) (\<lambda>_. only_if (action_right (ww_store w) g local (DoRename title)) w) w"
  unfolding RenameGroupShared_def
proof (rule holds_if, rule only_if_returns(3), simp, rule holds_metadata [OF untouched_refl], rule only_if_given, assumption, goal_cases)
  case (1 md md' w1 local')
  then have local: "local' = local" using assms by simp
  have member: "holds (RenameAsMember e g title) (\<lambda>_. only_if (action_right (ww_store w) g local (DoRename title)) w) w1"
    if alive: "md_sync_state md' \<noteq> Dissolved"
    unfolding RenameAsMember_def
  proof (rule only_if_given [OF 1(2)], unfold roe_then_def, rule holds_bind, rule holds_own_draft [OF 1(2) reads_DraftRename], goal_cases)
    case (1 local' r w2)
    show ?case
    proof (cases r)
      case (Inl x)
      then show ?thesis by (simp add: only_if_returns(1) 1(2))
    next
      case (Inr c)
      from 1(3) [OF Inr] have "action_right (ww_store w) g local (DoRename title)"
        using 1(1) assms alive \<open>map_of _ g = Some md\<close> \<open>md_sync_state md' = md_sync_state md\<close>
        by (auto simp: draft_right_def group_here_def simp del: GroupAllows.simps)
      then show ?thesis by (rule only_if_right)
    qed
  qed
  show ?case
    unfolding local
    by (rule holds_if, rule only_if_returns(3) [OF 1(2)], rule holds_if, erule member, rule only_if_right)
      (use 1 in \<open>auto simp: group_here_def\<close>)
qed

lemma remove_by_right:
  assumes "LocalRelayIdentity e = Inr local"
  shows "holds (RemoveMemberByIdentity e g member) (\<lambda>_. only_if (action_right (ww_store w) g local (DoRemove member)) w) w"
  unfolding RemoveMemberByIdentity_def RemoveMemberInternal_def assms given_Inr
proof (rule holds_if, rule only_if_returns(3), simp, rule holds_metadata [OF untouched_refl], goal_cases)
  case (1 md md' w1)
  have right: "action_right (ww_store w) g local (DoRemove member)"
    if "md_sync_state md' \<noteq> Dissolved" "member \<noteq> local"
      "md_owner md = local \<or> (\<exists>c t. draft_right cr js (ww_store w) g local cards t c \<and> c_kind c = KRemove \<and> c_member c = member)"
    for cr js cards
    using that 1 by (auto simp: draft_right_def group_here_def simp del: GroupAllows.simps)
  show ?case
  proof (rule holds_if, rule only_if_returns(3) [OF 1(2)], rule holds_if, rule only_if_returns(3) [OF 1(2)],
      rule holds_bind, rule holds_own_draft [OF 1(2) reads_DraftRemove], goal_cases)
    case (1 r w2)
    show ?case
    proof (cases r)
      case (Inl x)
      show ?thesis
        unfolding Inl sum.case
        by (rule holds_if, rule only_if_returns(1) [OF 1(3)], rule only_if_right, rule right)
          (use 1 \<open>md_owner md' = md_owner md\<close> in auto)
    next
      case (Inr c)
      have "action_right (ww_store w) g local (DoRemove member)"
        by (rule right) (use 1(1,2) 1(4) [OF Inr] in blast)+
      then show ?thesis by (rule only_if_right)
    qed
  qed
qed

lemma leave_by_right:
  assumes "LocalRelayIdentity e = Inr local"
  shows "holds (LeaveGroup e g) (\<lambda>_. only_if (action_right (ww_store w) g local DoLeave) w) w"
  unfolding LeaveGroup_def assms given_Inr
proof (rule holds_metadata [OF untouched_refl], goal_cases)
  case (1 md md' w1)
  show ?case
    by (rule holds_if, rule only_if_returns(3) [OF 1(1)], rule only_if_right) (use 1 in \<open>auto simp: group_here_def\<close>)
qed

lemma hand_over_by_right:
  assumes "LocalRelayIdentity e = Inr local"
  shows "holds (LeaveAsOwner e g successor) (\<lambda>_. only_if (action_right (ww_store w) g local (DoHandOver successor)) w) w"
  unfolding LeaveAsOwner_def assms given_Inr
proof (rule holds_metadata [OF untouched_refl], goal_cases)
  case (1 md md' w1)
  show ?case
  proof (rule holds_if, rule only_if_returns(3) [OF 1(1)], rule holds_if, rule only_if_returns(3) [OF 1(1)],
      rule read_or_error [OF 1(1) reads_IsMember], rule holds_if, rule only_if_returns(3), assumption, rule only_if_right, goal_cases)
    case (1 member w2)
    then show ?case using \<open>map_of _ g = Some md\<close> \<open>md_owner md' = md_owner md\<close> by (auto simp: group_here_def)
  qed
qed

lemma dissolve_by_right:
  assumes "LocalRelayIdentity e = Inr local"
  shows "holds (DissolveGroup e g) (\<lambda>_. only_if (action_right (ww_store w) g local DoDissolve) w) w"
  unfolding DissolveGroup_def assms given_Inr
proof (rule holds_metadata [OF untouched_refl], goal_cases)
  case (1 md md' w1)
  show ?case
    by (rule holds_if, rule only_if_returns(3) [OF 1(1)], rule only_if_right) (use 1 in \<open>auto simp: group_here_def\<close>)
qed

lemma many_by_right:
  assumes "LocalRelayIdentity e = Inr local"
  shows "holds (act e g (DoRemoveAddedBy account)) (\<lambda>_. only_if (action_right (ww_store w) g local (DoRemoveAddedBy account)) w) w"
    "holds (act e g (DoReinviteRemovedBy account)) (\<lambda>_. only_if (action_right (ww_store w) g local (DoReinviteRemovedBy account)) w) w"
  unfolding act.simps atomize_conj
proof (intro conjI; rule only_if_first)
  show "holds (RemoveEveryoneAddedBy e g account) (\<lambda>r. only_if_stopped (action_right (ww_store w) g local (DoRemoveAddedBy account)) w r) w"
    unfolding RemoveEveryoneAddedBy_def assms given_Inr
    by (rule holds_LocalRole [OF untouched_refl assms], rule holds_if, erule only_if_stop, rule only_if_stopped_right)
      (auto simp: group_here_def)
  show "holds (ReinviteEveryoneRemovedBy e g account) (\<lambda>r. only_if_stopped (action_right (ww_store w) g local (DoReinviteRemovedBy account)) w r) w"
    unfolding ReinviteEveryoneRemovedBy_def
    by (rule holds_LocalRole [OF untouched_refl assms], rule holds_if, erule only_if_stop, rule only_if_stopped_right)
      (auto simp: group_here_def)
qed

subsection \<open>The claim\<close>

text \<open>
  C12: what the user of this device does to a group needs the right by the roster the device holds.
  Without it nothing happens: the store stays as it was, and nothing is sent, written in the chat or
  scheduled. Inviting needs a role the preset lets invite; roles and the preset, handing over (to
  another member) and dissolving need the owner; renaming needs the owner or a role the preset lets rename;
  removing needs the owner, or a role that may remove a member of that rank (and never oneself); removing
  everyone someone added needs the owner or an admin, re-inviting everyone someone removed the owner; and
  the owner does not leave. Inviting, settings, renames and removals stop in a dissolved group.
\<close>

theorem actions_within_rights:
  fixes w :: "('o, 'w) flow_scheme"
  assumes "LocalRelayIdentity e = Inr local" "run_state (act e g a) w = (r, w')"
  shows "action_right (ww_store w) g local a \<or> clean (ww_store w') = clean (ww_store w) \<and> ww_calls w' = ww_calls w"
proof -
  have "holds (act e g a) (\<lambda>_. only_if (action_right (ww_store w) g local a) w) w"
    by (cases a)
      (simp_all only: act.simps, (rule invite_by_right role_by_owner preset_by_owner rename_by_right remove_by_right leave_by_right
          hand_over_by_right dissolve_by_right many_by_right [unfolded act.simps]; rule assms(1))+)
  from holdsD [OF this assms(2)] show ?thesis by (auto simp: only_if_def untouched_def)
qed

text \<open>Bob, a member of the sample group, cannot dissolve it: nothing is changed and nobody is told.\<close>

theorem actions_within_rights_witness:
  "ww_calls (snd (run_state (act (sample_flow_env ''bob'') ''g'' DoDissolve) (sample_flow (sample_store [])))) = []"
proof -
  have "LocalRelayIdentity (sample_flow_env ''bob'') = Inr ''bob''" by (rule sample_local) simp
  moreover have "\<not> action_right (sample_store []) ''g'' ''bob'' DoDissolve"
    by (simp add: group_here_def sample_store_def empty_store_def sample_metadata_def)
  ultimately show ?thesis
    using actions_within_rights [OF _ surjective_pairing, where e = "sample_flow_env ''bob''" and a = DoDissolve
        and w = "sample_flow (sample_store [])"] by force
qed

end
