(* ===== verification/CalmRuns.thy ===== *)
theory CalmRuns
  imports FlowSample DraftClaims CalmStore
begin

section \<open>Workflows in which no store call fails\<close>

text \<open>
  \<open>calm_ok\<close>, the tables in shape and no failure to come, is kept by every step of the workflow
  (\<open>world_keeps calm_ok\<close>), whatever the neighbours answer.
\<close>

lemma calm_LoadMetadataRequired:
  "db_faults s = [] \<Longrightarrow> map_of (db_metadata s) g = Some md \<Longrightarrow>
    run_state (LoadMetadataRequired g) s = (Inr (loaded s g md), s)"
  by (simp add: LoadMetadataRequired_def run_rules calm_LoadMetadata)

subsection \<open>In the workflow\<close>

definition calm_ok :: "roster_store \<Rightarrow> bool" where
  "calm_ok s \<longleftrightarrow> store_ok s \<and> db_faults s = []"

lemma calm_keeps:
  assumes "stays_calm m" "\<And>s. store_ok s \<Longrightarrow> after m (\<lambda>_. store_ok) s"
  shows "world_keeps calm_ok (on_store m)"
proof (rule world_keepsI)
  fix w :: "('o, 'w) world_scheme" assume ok: "calm_ok (ww_store w)"
  obtain r s where run: "run_state m (ww_store w) = (r, s)" by (cases "run_state m (ww_store w)")
  have "after m (\<lambda>_. store_ok) (ww_store w)" using assms(2) ok by (simp add: calm_ok_def)
  from afterD [OF this run] have "store_ok (clean s)" .
  moreover have "db_faults (snd (run_state m (ww_store w))) = []"
    using assms(1) ok unfolding stays_calm_def calm_ok_def by blast
  ultimately show "holds (on_store m) (\<lambda>_ w'. calm_ok (ww_store w')) w"
    by (simp add: holds_def on_store_def run calm_ok_def)
qed

lemma within_ok: "within g s t \<Longrightarrow> store_ok s \<Longrightarrow> store_ok t"
  by (simp add: within_def)

lemma calm_world [keeps_intros]:
  "world_keeps calm_ok (on_store (ListMembers g))" "world_keeps calm_ok (on_store (IsMember g i))"
  "world_keeps calm_ok (on_store (LoadMetadata g))" "world_keeps calm_ok (on_store (LoadMetadataRequired g))"
  "world_keeps calm_ok (on_store (HoldChange cr js c cards now shown))" "world_keeps calm_ok (on_store (ApplyView cr js g cards now))"
  "world_keeps calm_ok (on_store (DraftLeave cr js g local device now))"
proof -
  show "world_keeps calm_ok (on_store (HoldChange cr js c cards now shown))"
    by (rule calm_keeps [OF calm_HoldChange], rule after_weaken [OF in_group.keeps_HoldChange [OF in_group.R_refl _ refl]])
      (auto dest: within_ok)
  show "world_keeps calm_ok (on_store (ApplyView cr js g cards now))"
    by (rule calm_keeps [OF stays_ApplyView], rule after_weaken [OF in_group.keeps_ApplyView [OF in_group.R_refl]])
      (auto dest: within_ok)
  show "world_keeps calm_ok (on_store (DraftLeave cr js g local device now))"
    by (rule calm_keeps [OF calm_DraftLeave], rule after_weaken [OF drafted_leave]) auto
  show "world_keeps calm_ok (on_store (ListMembers g))"
    by (rule calm_keeps, rule calm_intros, rule after_ListMembers) auto
  show "world_keeps calm_ok (on_store (IsMember g i))"
    by (rule calm_keeps, rule calm_intros, rule after_IsMember) auto
  show "world_keeps calm_ok (on_store (LoadMetadata g))"
    by (rule calm_keeps, rule calm_intros, rule after_LoadMetadata) auto
  show "world_keeps calm_ok (on_store (LoadMetadataRequired g))"
    by (rule calm_keeps, rule calm_intros, rule after_LoadMetadataRequired) auto
qed

text \<open>Messages are calls only, so they keep whatever is said of the store.\<close>

lemma keeps_given [keeps_intros]: "(\<And>x. r = Inr x \<Longrightarrow> world_keeps P (f x)) \<Longrightarrow> world_keeps P (given r f)"
  by (cases r) (simp_all add: given_def roe_then_def world_keeps_def State_Monad.bind_def State_Monad.return_def)

lemma keeps_tell [keeps_intros]: "world_keeps P (tell c)"
  unfolding tell_def by (intro keeps_intros)

lemma keeps_direct [keeps_intros]: "world_keeps P (SendMembershipDirectMessage e peer type detail display stored)"
  unfolding SendMembershipDirectMessage_def direct_thread_def by (intro keeps_intros)

lemma keeps_fan_out: "(\<And>i. world_keeps P (send i)) \<Longrightarrow> world_keeps P (fan_out mode send targets result)"
  by (induction targets arbitrary: result) (auto simp: Let_def intro!: keeps_intros)

lemma keeps_FanOutPairwise [keeps_intros]: "(\<And>i. world_keeps P (send i)) \<Longrightarrow> world_keeps P (FanOutPairwise targets mode send)"
  unfolding FanOutPairwise_def by (rule keeps_fan_out)

lemma calm_FanOutChange [keeps_intros]: "world_keeps calm_ok (FanOutChange e g c removed newcomer)"
  unfolding FanOutChange_def Let_def by (intro keeps_intros)

lemma keeps_SignOwnChange [keeps_intros]: "world_keeps P (SignOwnChange e c)"
  unfolding SignOwnChange_def by (intro keeps_intros)

end
