(* ===== verification/LeavingClaims.thy ===== *)
theory LeavingClaims
  imports CalmRuns
begin

section \<open>Leaving a group\<close>

text \<open>
  A member is out of a group it left, whatever its neighbours answer: the last steps of \<open>LeaveGroup\<close> do
  what the drafted leave may have failed to do.
\<close>

lemma member_erased:
  assumes "store_ok s" shows "\<not> is_member (s\<lparr>db_rosters := om_erase (g, i) (db_rosters s)\<rparr>) g i"
proof
  assume "is_member (s\<lparr>db_rosters := om_erase (g, i) (db_rosters s)\<rparr>) g i"
  then obtain k m where row: "(k, m) \<in> set (om_erase (g, i) (db_rosters s))" "fst k = g" "rm_identity m = i"
    by (auto simp: is_member_def rows_of_def)
  have ok: "om_ok (db_rosters s)" "\<forall>(k, m) \<in> set (db_rosters s). rm_identity m = snd k"
    using store_ok_tables(2) [OF assms] by (auto simp: rosters_ok_def)
  have "(k, m) \<in> set (db_rosters s)" by (rule subsetD [OF set_om_erase row(1)])
  then have "rm_identity m = snd k" using ok(2) by blast
  then have "k = (g, i)" using row(2,3) by (cases k) simp
  then have "(g, i) \<in> fst ` set (om_erase (g, i) (db_rosters s))" using row(1) by force
  moreover have "map_of (om_erase (g, i) (db_rosters s)) (g, i) = None" using ok(1) by (simp add: map_of_om_erase)
  ultimately show False by (simp add: map_of_eq_None_iff)
qed

definition out_of :: "string \<Rightarrow> string \<Rightarrow> roster_store \<Rightarrow> bool" where
  "out_of g i s \<longleftrightarrow> \<not> is_member s g i \<and> map_of (db_targets s) g = None"

lemma calm_IsMember_then:
  "db_faults (ww_store w) = [] \<Longrightarrow> holds (f (Inr (is_member (ww_store w) g i))) Q w \<Longrightarrow>
    holds (State_Monad.bind (on_store (IsMember g i)) f) Q w"
  by (rule holds_bind, unfold holds_def [of "on_store _"]) (simp add: on_store_def calm_IsMember)

lemma member_elsewhere [simp]:
  "is_member (NotifyChanged c s) g i = is_member s g i" "is_member (s\<lparr>db_targets := t\<rparr>) g i = is_member s g i"
  by (simp_all add: is_member_def NotifyChanged_def)

lemma calm_elsewhere [simp]: "db_faults (NotifyChanged c s) = db_faults s"
  by (simp add: NotifyChanged_def)

lemma removed_now:
  assumes "calm_ok (ww_store w)"
  shows "holds (ignore (on_store (RemoveMember g i)))
    (\<lambda>_ w'. calm_ok (ww_store w') \<and> \<not> is_member (ww_store w') g i) w"
proof (rule holds_ignore)
  have ok: "db_faults (ww_store w) = []" "store_ok (ww_store w)" using assms by (simp_all add: calm_ok_def)
  have "store_ok ((ww_store w)\<lparr>db_rosters := om_erase (g, i) (db_rosters (ww_store w))\<rparr>)"
    using ok(2) by simp
  then show "holds (on_store (RemoveMember g i)) (\<lambda>_ w'. calm_ok (ww_store w') \<and> \<not> is_member (ww_store w') g i) w"
    unfolding holds_def on_store_def calm_ok_def
    by (simp add: calm_writes(5) [OF ok(1)] ok(1) member_erased [OF ok(2)])
qed

lemma target_cleared:
  assumes "calm_ok (ww_store w)" "\<not> is_member (ww_store w) g i"
  shows "holds (ignore (on_store (ClearGroupTarget g))) (\<lambda>_ w'. out_of g i (ww_store w')) w"
proof (rule holds_ignore)
  have ok: "db_faults (ww_store w) = []" "om_ok (db_targets (ww_store w))"
    using assms(1) store_ok_tables(6) [of "ww_store w"] by (simp_all add: calm_ok_def targets_ok_def)
  have "run_state (ClearGroupTarget g) (ww_store w) =
      (Inr (), (ww_store w)\<lparr>db_targets := om_erase g (db_targets (ww_store w))\<rparr>)"
    by (simp add: ClearGroupTarget_def run_rules ok(1))
  then show "holds (on_store (ClearGroupTarget g)) (\<lambda>_ w'. out_of g i (ww_store w')) w"
    unfolding holds_def on_store_def out_of_def using assms(2) by (simp add: map_of_om_erase [OF ok(2)])
qed

lemma leaves_at_last:
  assumes "calm_ok (ww_store w)"
  shows "holds (do {
      still \<leftarrow> on_store (IsMember g local);
      (if still = Inr True then ignore (on_store (RemoveMember g local)) else nothing);
      ignore (on_store (ClearGroupTarget g));
      ret_ok ()
    }) (\<lambda>r w'. r = Inr () \<and> out_of g local (ww_store w')) w"
proof (rule calm_IsMember_then, use assms in \<open>simp add: calm_ok_def\<close>, rule holds_bind, goal_cases)
  case 1
  have last: "holds (do { ignore (on_store (ClearGroupTarget g)); ret_ok () })
      (\<lambda>r w'. r = Inr () \<and> out_of g local (ww_store w')) w'"
    if "calm_ok (ww_store w') \<and> \<not> is_member (ww_store w') g local" for w'
    by (rule holds_bind, rule holds_weaken [OF target_cleared]) (use that in \<open>auto simp: ret_ok_def intro!: holds_return\<close>)
  show ?case
  proof (cases "is_member (ww_store w) g local")
    case True
    then show ?thesis by (simp only: True refl if_True) (rule holds_weaken [OF removed_now [OF assms] last])
  next
    case False
    have "holds nothing (\<lambda>_ w'. calm_ok (ww_store w') \<and> \<not> is_member (ww_store w') g local) w"
      using assms False by (auto intro!: holds_nothing)
    from holds_weaken [OF this last] show ?thesis using False by simp
  qed
qed

lemma metadata_then:
  "run_state (LoadMetadataOrError g) w = (Inr md, w) \<Longrightarrow> holds (f md) Q w \<Longrightarrow> holds (roe_then (LoadMetadataOrError g) f) Q w"
  by (simp add: holds_def roe_then_def State_Monad.bind_def)

lemma then_calm:
  "world_keeps calm_ok m \<Longrightarrow> calm_ok (ww_store w) \<Longrightarrow> (\<And>r w'. calm_ok (ww_store w') \<Longrightarrow> holds (f r) Q w') \<Longrightarrow>
    holds (State_Monad.bind m f) Q w"
  by (rule holds_bind, rule holds_weaken [OF world_keepsD])

lemma leaving:
  fixes w :: "('o, 'w) world_scheme"
  assumes "calm_ok (ww_store w)" "LocalRelayIdentity e = Inr local"
    "map_of (db_metadata (ww_store w)) g = Some md" "md_owner md \<noteq> local"
  shows "holds (LeaveGroup e g) (\<lambda>r w'. r = Inr () \<and> out_of g local (ww_store w')) w"
proof -
  have calm: "db_faults (ww_store w) = []" using assms(1) by (simp add: calm_ok_def)
  have md: "run_state (LoadMetadataOrError g) w = (Inr (loaded (ww_store w) g md), w)"
    by (simp add: LoadMetadataOrError_def on_store_def calm_LoadMetadataRequired [OF calm] assms(3))
  have signed: "world_keeps calm_ok (roe_then (given (fe_own_device e) (\<lambda>device.
      on_store (DraftLeave (we_crypto e) (we_json e) g local device now))) (SignOwnChange e))" for now
    by (intro keeps_intros)
  have told: "world_keeps calm_ok (case signed of Inl _ \<Rightarrow> nothing | Inr c \<Rightarrow> do {
      ignore (on_store (HoldChange (we_crypto e) (we_json e) c (we_cards e) now True));
      FanOutChange e g c [] None;
      ignore (on_store (ApplyView (we_crypto e) (we_json e) g (we_cards e) now))
    })" for signed :: "group_change roe" and now
    by (intro keeps_intros)
  have "holds (do {
      now \<leftarrow> clock e;
      signed \<leftarrow> roe_then (given (fe_own_device e) (\<lambda>device.
          on_store (DraftLeave (we_crypto e) (we_json e) g local device now))) (SignOwnChange e);
      (case signed of Inl _ \<Rightarrow> nothing | Inr c \<Rightarrow> do {
        ignore (on_store (HoldChange (we_crypto e) (we_json e) c (we_cards e) now True));
        FanOutChange e g c [] None;
        ignore (on_store (ApplyView (we_crypto e) (we_json e) g (we_cards e) now))
      });
      still \<leftarrow> on_store (IsMember g local);
      (if still = Inr True then ignore (on_store (RemoveMember g local)) else nothing);
      ignore (on_store (ClearGroupTarget g));
      ret_ok ()
    }) (\<lambda>r w'. r = Inr () \<and> out_of g local (ww_store w')) w"
    by (rule then_calm [OF keeps_asks(1) assms(1)], rule then_calm [OF signed], assumption, rule then_calm [OF told], assumption,
        rule leaves_at_last)
  then show ?thesis
    unfolding LeaveGroup_def assms(2) given_Inr by (intro metadata_then [OF md]) (simp add: assms(4) [symmetric])
qed

text \<open>
  C14: whoever leaves is out. When the database works, a member (who is not the owner) asking to leave is
  out of the roster and the chat can no longer be sent to, and the call succeeds: whether or not the leave
  could be drafted, signed, proved or told to anyone, and whatever the roster computed with it says.
\<close>

theorem leaving_always_leaves:
  fixes w :: "('o, 'w) world_scheme"
  assumes "store_ok (ww_store w)" "db_faults (ww_store w) = []" "LocalRelayIdentity e = Inr local"
    "map_of (db_metadata (ww_store w)) g = Some md" "md_owner md \<noteq> local" "run_state (LeaveGroup e g) w = (r, w')"
  shows "r = Inr () \<and> \<not> is_member (ww_store w') g local \<and> map_of (db_targets (ww_store w')) g = None"
  using holdsD [OF leaving [OF _ assms(3-5)] assms(6)] assms(1,2) by (simp add: calm_ok_def out_of_def)

theorem leaving_always_leaves_witness:
  "\<not> is_member (ww_store (snd (run_state (LeaveGroup (sample_flow_env ''bob'') ''g'') (sample_flow (sample_store []))))) ''g'' ''bob''
    \<and> is_member (sample_store []) ''g'' ''bob''"
proof -
  have md: "map_of (db_metadata (ww_store (sample_flow (sample_store [])))) ''g'' = Some sample_metadata"
    "md_owner sample_metadata \<noteq> ''bob''" "db_faults (ww_store (sample_flow (sample_store []))) = []"
    by (simp_all add: sample_store_def empty_store_def sample_metadata_def)
  have "LocalRelayIdentity (sample_flow_env ''bob'') = Inr ''bob''" by (rule sample_local) simp
  from leaving_always_leaves [OF _ md(3) this md(1,2) surjective_pairing]
  have "\<not> is_member (ww_store (snd (run_state (LeaveGroup (sample_flow_env ''bob'') ''g'') (sample_flow (sample_store []))))) ''g'' ''bob''"
    by simp
  moreover have "is_member (sample_store []) ''g'' ''bob''"
    by (simp add: is_member_def sample_store_def rows_of_def sample_member_def)
  ultimately show ?thesis by (rule conjI)
qed

end
