(* ===== verification/DissolveClaims.thy ===== *)
theory DissolveClaims
  imports CalmRuns "HOL-Library.Sublist"
begin

section \<open>An owner's dissolve\<close>

text \<open>
  What an owner's dissolve keeps due and what it hands to the outbox. \<open>says m\<close>: \<open>m\<close> leaves the roster
  store alone and only adds to what was said to the neighbours.
\<close>

subsection \<open>Steps that only speak\<close>

definition says :: "(('o, 'w) world_scheme, 'a) state \<Rightarrow> bool" where
  "says m \<longleftrightarrow> (\<forall>w. ww_store (snd (run_state m w)) = ww_store w \<and> prefix (ww_calls w) (ww_calls (snd (run_state m w))))"

named_theorems says_intros "rules for steps that only speak"

lemma says_holds: "says m \<Longrightarrow> holds m (\<lambda>_ w'. ww_store w' = ww_store w \<and> prefix (ww_calls w) (ww_calls w')) w"
  by (simp add: says_def holds_def case_prod_unfold)

lemma says_seq [says_intros]: "says m \<Longrightarrow> (\<And>x. says (f x)) \<Longrightarrow> says (State_Monad.bind m f)"
  unfolding says_def by (auto simp: State_Monad.bind_def case_prod_unfold intro: prefix_order.trans)

lemma says_return [says_intros]: "says (State_Monad.return x)"
  by (simp add: says_def State_Monad.return_def)

lemma says_ret [says_intros]: "says (ret_ok x)" "says (ret_err m)" "says nothing"
  by (simp_all add: ret_ok_def ret_err_def nothing_def says_return)

lemma says_roe_then [says_intros]: "says m \<Longrightarrow> (\<And>x. says (f x)) \<Longrightarrow> says (roe_then m f)"
  unfolding roe_then_def by (rule says_seq) (auto intro: says_return split: sum.split)

lemma says_given [says_intros]: "(\<And>x. says (f x)) \<Longrightarrow> says (given r f)"
  unfolding given_def by (intro says_intros)

lemma says_ignore [says_intros]: "says m \<Longrightarrow> says (ignore m)"
  unfolding ignore_def by (intro says_intros)

lemma says_asks [says_intros]:
  "says (clock e)" "says (fresh_id e)" "says (make_call answers c)" "says (shutting_down (e' :: (_, _, _) flow_env_scheme))" "says (tell c)"
  by (simp_all add: says_def clock_def fresh_id_def make_call_def tell_def shutting_down_def next_tick_def
      State_Monad.bind_def State_Monad.return_def State_Monad.update_def State_Monad.get_def State_Monad.set_def)

lemma says_option [says_intros]:
  "says m \<Longrightarrow> (\<And>v. says (f v)) \<Longrightarrow> says (case x of None \<Rightarrow> m | Some v \<Rightarrow> f v)"
  by (cases x) simp_all

lemma says_sum [says_intros]:
  "(\<And>x. says (m x)) \<Longrightarrow> (\<And>x. says (f x)) \<Longrightarrow> says (case r of Inl x \<Rightarrow> m x | Inr x \<Rightarrow> f x)"
  by (cases r) simp_all

lemma says_if [says_intros]: "says m \<Longrightarrow> says n \<Longrightarrow> says (if b then m else n)"
  by simp

lemma says_lines [says_intros]:
  "says (SystemLine e thread type display detail sender)" "says (AppendDissolvedLine e' g owner sender)"
  "says (SendMembershipDirectMessage e' peer type detail display stored)"
  unfolding SystemLine_def AppendDissolvedLine_def EnsureDissolvedLine_def SendMembershipDirectMessage_def direct_thread_def
  by (intro says_intros)+

subsection \<open>Due or handed over\<close>

definition handed_over :: "('o, 'v, 'e) flow_env_scheme \<Rightarrow> pending_group_send \<Rightarrow> ('o, 'w) world_scheme \<Rightarrow> bool" where
  "handed_over e row w \<longleftrightarrow> (\<exists>(w1 :: ('o, 'w) world_scheme) w2.
     run_state (SendMembershipDirectMessage e (ps_recipient row) GroupDissolved (ps_detail_json row) (ps_display row) None) w1
       = (Inr (), w2) \<and> prefix (ww_calls w2) (ww_calls w))"

definition due :: "pending_group_send \<Rightarrow> roster_store \<Rightarrow> bool" where
  "due row s \<longleftrightarrow> map_of (db_sends s) (send_key row) = Some row"

definition due_or_told ::
  "('o, 'v, 'e) flow_env_scheme \<Rightarrow> pending_group_send list \<Rightarrow> (string \<times> group_metadata) list \<Rightarrow> ('o, 'w) world_scheme \<Rightarrow> bool" where
  "due_or_told e rows known w \<longleftrightarrow> db_faults (ww_store w) = [] \<and> db_metadata (ww_store w) = known
     \<and> (\<forall>row \<in> set rows. due row (ww_store w) \<or> handed_over e row w)"

lemma handed_over_stays:
  fixes w w' :: "('o, 'w) world_scheme"
  shows "handed_over e row w \<Longrightarrow> prefix (ww_calls w) (ww_calls w') \<Longrightarrow> handed_over e row w'"
  unfolding handed_over_def by (meson prefix_order.trans)

lemma owed_said:
  fixes w w' :: "('o, 'w) world_scheme"
  shows "due_or_told e rows known w \<Longrightarrow> ww_store w' = ww_store w \<Longrightarrow> prefix (ww_calls w) (ww_calls w') \<Longrightarrow> due_or_told e rows known w'"
  unfolding due_or_told_def by (auto dest: handed_over_stays)

lemma says_owed: "says m \<Longrightarrow> due_or_told e rows known w \<Longrightarrow> holds m (\<lambda>_. due_or_told e rows known) w"
  by (rule holds_weaken [OF says_holds]) (auto intro: owed_said)

lemma calm_DeletePendingSend:
  "db_faults s = [] \<Longrightarrow> run_state (DeletePendingSend row) s =
    (Inr (), s\<lparr>db_sends := om_erase (ps_group_id row, ps_recipient row, ps_control_type row) (db_sends s)\<rparr>)"
  by (simp add: DeletePendingSend_def run_rules)

text \<open>A row goes when it is of no known type, or once its copy was handed over.\<close>

lemma row_settled:
  fixes w :: "('o, 'w) world_scheme"
  assumes "due_or_told e rows known w" "\<And>row. row \<in> set rows \<Longrightarrow> send_key row = send_key gone \<Longrightarrow> handed_over e row w"
  shows "holds (ignore (on_store (DeletePendingSend gone))) (\<lambda>_. due_or_told e rows known) w"
proof (rule holds_ignore)
  have calm: "db_faults (ww_store w) = []" using assms(1) by (simp add: due_or_told_def)
  let ?s = "(ww_store w)\<lparr>db_sends := om_erase (send_key gone) (db_sends (ww_store w))\<rparr>"
  have "due row ?s \<or> handed_over e row (w\<lparr>ww_store := ?s\<rparr>)" if row: "row \<in> set rows" for row
  proof (cases "send_key row = send_key gone")
    case True
    with assms(2) [OF row] have "handed_over e row w" .
    then show ?thesis by (simp add: handed_over_stays)
  next
    case False
    then show ?thesis using assms(1) row
      by (auto simp: due_or_told_def due_def map_of_om_erase_other intro: handed_over_stays)
  qed
  then have "due_or_told e rows known (w\<lparr>ww_store := ?s\<rparr>)"
    using assms(1) by (simp add: due_or_told_def)
  then show "holds (on_store (DeletePendingSend gone)) (\<lambda>_. due_or_told e rows known) w"
    unfolding holds_def on_store_def by (simp add: calm_DeletePendingSend [OF calm])
qed

lemma run_on_store: "run_state m (ww_store w) = (r, s) \<Longrightarrow> run_state (on_store m) w = (r, w\<lparr>ww_store := s\<rparr>)"
  by (simp add: on_store_def)

lemma holds_run_then: "run_state m w = (r, w') \<Longrightarrow> holds (f r) Q w' \<Longrightarrow> holds (State_Monad.bind m f) Q w"
  by (simp add: holds_def State_Monad.bind_def)

lemma store_then:
  "run_state m (ww_store w) = (r, s) \<Longrightarrow> holds (f r) Q (w\<lparr>ww_store := s\<rparr>) \<Longrightarrow> holds (State_Monad.bind (on_store m) f) Q w"
  by (rule holds_run_then [OF run_on_store])

definition dissolving :: "pending_group_send \<Rightarrow> bool" where
  "dissolving row \<longleftrightarrow> GroupMembershipControlTypeFromWire (ps_control_type row) = Some GroupDissolved"

lemma resume_owed:
  fixes w :: "('o, 'w) world_scheme"
  assumes "\<And>row gone. row \<in> set rows \<Longrightarrow> gone \<in> set sends \<Longrightarrow> send_key row = send_key gone \<Longrightarrow> row = gone"
    "\<And>row. row \<in> set rows \<Longrightarrow> dissolving row" "due_or_told e rows known w"
  shows "holds (resume_sends e sends flag) (\<lambda>_. due_or_told e rows known) w"
  using assms
proof (induction sends arbitrary: flag w)
  case Nil
  then show ?case by (auto intro: holds_return)
next
  case (Cons gone sends)
  have rest: "holds (resume_sends e sends b) (\<lambda>_. due_or_told e rows known) w'" if "due_or_told e rows known w'" for b and w' :: "('o, 'w) world_scheme"
    by (rule Cons.IH) (use Cons.prems that in auto)
  show ?case
  proof (cases "GroupMembershipControlTypeFromWire (ps_control_type gone)")
    case None
    have "holds (ignore (on_store (DeletePendingSend gone))) (\<lambda>_. due_or_told e rows known) w"
    proof (rule row_settled [OF Cons.prems(3)])
      fix row assume row: "row \<in> set rows" "send_key row = send_key gone"
      then show "handed_over e row w" using Cons.prems(2) [OF row(1)] None by (simp add: dissolving_def)
    qed
    then show ?thesis unfolding resume_sends.simps None option.case
      by (intro holds_bind) (erule holds_weaken, rule rest)
  next
    case (Some type)
    let ?send = "SendMembershipDirectMessage e (ps_recipient gone) type (ps_detail_json gone) (ps_display gone) None"
    obtain r w1 where run: "run_state ?send w = (r, w1)" by (cases "run_state ?send w")
    have said: "due_or_told e rows known w1" by (rule holdsD [OF says_owed [OF says_lines(3) Cons.prems(3)] run])
    have settled: "holds (ignore (on_store (DeletePendingSend gone))) (\<lambda>_. due_or_told e rows known) w1" if "r = Inr ()"
    proof (rule row_settled [OF said])
      fix row assume row: "row \<in> set rows" "send_key row = send_key gone"
      then have "row = gone" using Cons.prems(1) [of row gone] by simp
      moreover from this have "type = GroupDissolved" using Cons.prems(2) [OF row(1)] Some by (simp add: dissolving_def)
      ultimately show "handed_over e row w1" using run that by (auto simp: handed_over_def)
    qed
    have "holds (case r of
        Inr _ \<Rightarrow> do { ignore (on_store (DeletePendingSend gone)); resume_sends e sends flag }
      | Inl _ \<Rightarrow> resume_sends e sends False) (\<lambda>_. due_or_told e rows known) w1"
      by (cases r) (auto intro!: rest [OF said] holds_bind holds_weaken [OF settled] rest)
    then show ?thesis unfolding resume_sends.simps Some option.case by (rule holds_run_then [OF run])
  qed
qed

lemma calm_ListPendingSends:
  "db_faults s = [] \<Longrightarrow> run_state (ListPendingSends []) s = (Inr (map snd (db_sends s)), s)"
  by (simp add: ListPendingSends_def run_rules)

lemma resumed_owed:
  fixes w :: "('o, 'w) world_scheme"
  assumes "keyed_by send_key (db_sends (ww_store w))" "\<And>row. row \<in> set rows \<Longrightarrow> dissolving row"
    "db_faults (ww_store w) = []" "\<And>row. row \<in> set rows \<Longrightarrow> due row (ww_store w)"
  shows "holds (ResumePendingGroupSends e n) (\<lambda>_. due_or_told e rows (db_metadata (ww_store w))) w"
proof -
  let ?known = "db_metadata (ww_store w)"
  have owed: "due_or_told e rows ?known w" using assms(3,4) by (simp add: due_or_told_def)
  have same: "row = gone" if "row \<in> set rows" "gone \<in> set (map snd (db_sends (ww_store w)))" "send_key row = send_key gone"
    for row gone
  proof -
    from that(2) obtain k where k: "(k, gone) \<in> set (db_sends (ww_store w))" by auto
    with assms(1) have "k = send_key gone" "distinct (map fst (db_sends (ww_store w)))"
      by (auto simp: keyed_by_def dest: om_ok_distinct)
    with k have "map_of (db_sends (ww_store w)) (send_key gone) = Some gone" by simp
    with assms(4) [OF that(1)] that(3) show ?thesis by (simp add: due_def)
  qed
  have listed: "holds (do {
      pending \<leftarrow> on_store (ListPendingSends []);
      case pending of
        Inl _ \<Rightarrow> nothing
      | Inr sends \<Rightarrow> do {
          all_sent \<leftarrow> resume_sends e sends True;
          if \<not> all_sent \<and> n < length kRetryDelaysMs then tell (ResumeTimer n) else nothing
        }
    }) (\<lambda>_. due_or_told e rows ?known) w'" if "ww_store w' = ww_store w" "due_or_told e rows ?known w'"
    for w' :: "('o, 'w) world_scheme"
  proof (rule store_then)
    show "run_state (ListPendingSends []) (ww_store w') = (Inr (map snd (db_sends (ww_store w))), ww_store w')"
      unfolding that(1) by (rule calm_ListPendingSends [OF assms(3)])
    show "holds (case Inr (map snd (db_sends (ww_store w))) of
        Inl _ \<Rightarrow> nothing
      | Inr sends \<Rightarrow> do {
          all_sent \<leftarrow> resume_sends e sends True;
          if \<not> all_sent \<and> n < length kRetryDelaysMs then tell (ResumeTimer n) else nothing
        }) (\<lambda>_. due_or_told e rows ?known) (w'\<lparr>ww_store := ww_store w'\<rparr>)"
      unfolding sum.case
      by (rule holds_bind, simp, rule holds_weaken [OF resume_owed [OF same assms(2) that(2)]], assumption+)
        (auto intro: says_owed says_intros)
  qed
  show ?thesis
    unfolding ResumePendingGroupSends_def
    by (rule holds_bind, rule holds_weaken [OF holds_conj [OF says_holds says_owed [OF _ owed]]], rule says_asks, rule says_asks)
      (auto intro!: holds_nothing listed)
qed

subsection \<open>The dissolve\<close>

lemma fold_put_last:
  "x \<in> set xs \<Longrightarrow> (\<And>y. y \<in> set xs \<Longrightarrow> key y = key x \<Longrightarrow> val y = val x) \<Longrightarrow>
    map_of (fold (\<lambda>x. om_put (key x) (val x)) xs t) (key x) = Some (val x)"
proof (induction xs arbitrary: x t)
  case (Cons a xs)
  show ?case
  proof (cases "key x \<in> key ` set xs")
    case True
    then obtain y where y: "y \<in> set xs" "key y = key x" by (auto simp: image_iff)
    have "map_of (fold (\<lambda>x. om_put (key x) (val x)) xs (om_put (key a) (val a) t)) (key y) = Some (val y)"
      by (rule Cons.IH, rule y(1)) (use Cons.prems(2) y in simp)
    then show ?thesis using Cons.prems(2) [of y] y by simp
  next
    case False
    then have "x = a" using Cons.prems(1) by auto
    then show ?thesis using False by (simp add: fold_put_unknown)
  qed
qed simp

definition dissolve_row :: "string \<Rightarrow> string \<Rightarrow> string \<Rightarrow> pending_group_send" where
  "dissolve_row g detail i = \<lparr>ps_group_id = g, ps_recipient = i,
     ps_control_type = GroupMembershipControlTypeToWire GroupDissolved, ps_detail_json = detail,
     ps_display = ''The group owner dissolved this group''\<rparr>"

lemma dissolve_rows_map: "dissolve_rows g is detail = map (dissolve_row g detail) is"
  by (simp add: dissolve_rows_def dissolve_row_def)

lemma dissolve_row_simps [simp]:
  "ps_group_id (dissolve_row g d i) = g" "ps_recipient (dissolve_row g d i) = i" "dissolving (dissolve_row g d i)"
  "ps_control_type (dissolve_row g d i) = GroupMembershipControlTypeToWire GroupDissolved"
  by (simp_all add: dissolve_row_def dissolving_def GroupMembershipControlTypeFromWire_def)

lemma due_when_ended:
  assumes "i \<in> set is" "ge_sends ending = dissolve_rows g is d @ refusal_rows L g invites"
  shows "due (dissolve_row g d i) (ended_store g ending s)"
proof -
  let ?key = "\<lambda>send. (g, ps_recipient send, ps_control_type send)"
  let ?val = "\<lambda>send. send\<lparr>ps_group_id := g\<rparr>"
  have same: "?val y = ?val (dissolve_row g d i)"
    if "y \<in> set (ge_sends ending)" "?key y = ?key (dissolve_row g d i)" for y
    using that by (auto simp: assms(2) dissolve_rows_map refusal_rows_def)
  have "map_of (fold (\<lambda>send. om_put (?key send) (?val send)) (ge_sends ending) (db_sends s)) (?key (dissolve_row g d i))
      = Some (?val (dissolve_row g d i))"
    by (rule fold_put_last [where key = ?key and val = ?val], simp add: assms dissolve_rows_map, rule same)
  moreover have "?val (dissolve_row g d i) = dissolve_row g d i" by (simp add: dissolve_row_def)
  ultimately show ?thesis by (simp add: due_def ended_store_def)
qed

lemma run_ListInvitedWaiting:
  assumes "db_faults (ww_store w) = []"
  shows "\<exists>invites. run_state (ListInvitedWaiting e g) w = (invites, w\<lparr>ww_tick := Suc (ww_tick w)\<rparr>)"
  using assms
  by (simp add: ListInvitedWaiting_def ListOutboundPendingInvites_def clock_def next_tick_def on_store_def run_rules)

lemma run_world_roe: "run_state m w = (r, w') \<Longrightarrow> run_state (roe_then m f) w =
    (case r of Inl x \<Rightarrow> (Inl x, w') | Inr x \<Rightarrow> run_state (f x) w')"
  by (simp add: roe_then_def State_Monad.bind_def State_Monad.return_def split: sum.split)

lemma run_world_seq: "run_state m w = (r, w') \<Longrightarrow> run_state (State_Monad.bind m f) w = run_state (f r) w'"
  by (simp add: State_Monad.bind_def)

text \<open>The part under the lock: refused by a signer that fails, else the ending with every notice due.\<close>

lemma run_end_own_group:
  fixes w :: "('o, 'w) world_scheme"
  assumes "db_faults (ww_store w) = []" "map_of (db_metadata (ww_store w)) g = Some known" "md_sync_state known \<noteq> Dissolved"
    "members = rows_of g (db_rosters (ww_store w))" "is = filter (\<lambda>i. i \<noteq> local) (map rm_identity members)"
    "sealed = SignDissolved e md members (md_roster_epoch md + 1)"
  shows "(\<exists>x. sealed = Inl x \<and> is \<noteq> [] \<and> run_state (end_own_group e g md local) w = (Inl x, w))
    \<or> (\<exists>d ending c invites n. (is = [] \<or> (\<exists>st. sealed = Inr st \<and> d = EncodeStatement (we_lib e) st))
        \<and> ge_sends ending = dissolve_rows g is d @ refusal_rows (we_lib e) g invites
        \<and> run_state (end_own_group e g md local) w =
          (Inr d, w\<lparr>ww_tick := n, ww_store := NotifyChanged c (ended_store g ending (ww_store w))\<rparr>))"
proof -
  have listed: "run_state (on_store (ListMembers g)) w = (Inr members, w)"
    by (simp add: on_store_def calm_reads [OF assms(1)] assms(4))
  obtain invites where waiting: "run_state (ListInvitedWaiting e g) w = (invites, w\<lparr>ww_tick := Suc (ww_tick w)\<rparr>)"
    using run_ListInvitedWaiting [OF assms(1)] by blast
  let ?d = "case sealed of Inl _ \<Rightarrow> [] | Inr st \<Rightarrow> EncodeStatement (we_lib e) st"
  let ?sends = "dissolve_rows g is ?d @ refusal_rows (we_lib e) g invites"
  let ?ending = "\<lparr>ge_owner = local, ge_roster_epoch = md_roster_epoch md + 1,
    ge_statement_json = (case sealed of Inl _ \<Rightarrow> [] | Inr st \<Rightarrow> js_statement (we_json e) st), ge_sends = ?sends\<rparr>"
  let ?c = "\<lparr>rc_group_id = g, rc_member_gone = [], rc_ended = True\<rparr>"
  have ended: "run_state (on_store (EndGroupInRoster g local (md_roster_epoch md + 1)
      (case sealed of Inl _ \<Rightarrow> [] | Inr st \<Rightarrow> js_statement (we_json e) st) ?sends)) (w\<lparr>ww_tick := Suc (ww_tick w)\<rparr>) =
    (Inr \<lparr>da_applied = True, da_voided = voided_invites g (ww_store w)\<rparr>,
      w\<lparr>ww_tick := Suc (ww_tick w), ww_store := NotifyChanged ?c (ended_store g ?ending (ww_store w))\<rparr>)"
    by (rule run_on_store [THEN trans])
      (simp_all add: EndGroupInRoster_def run_rules run_EndGroup_ok [OF assms(1-3)])
  have go: "run_state (end_own_group e g md local) w =
      (Inr ?d, w\<lparr>ww_tick := Suc (ww_tick w), ww_store := NotifyChanged ?c (ended_store g ?ending (ww_store w))\<rparr>)"
    if "is = [] \<or> (\<exists>st. sealed = Inr st)"
  proof -
    have inner: "run_state (do {
        waiting \<leftarrow> ListInvitedWaiting e g;
        roe_then (on_store (EndGroupInRoster g local (md_roster_epoch md + 1)
          (case sealed of Inl _ \<Rightarrow> [] | Inr st \<Rightarrow> js_statement (we_json e) st)
          (dissolve_rows g is ?d @ refusal_rows (we_lib e) g waiting))) (\<lambda>_. ret_ok ?d)
      }) w = (Inr ?d, w\<lparr>ww_tick := Suc (ww_tick w), ww_store := NotifyChanged ?c (ended_store g ?ending (ww_store w))\<rparr>)"
      by (simp only: run_world_seq [OF waiting] run_world_roe [OF ended] sum.case) (simp add: ret_ok_def State_Monad.return_def)
    show ?thesis
      unfolding end_own_group_def run_world_roe [OF listed] sum.case Let_def assms(5) [symmetric] assms(6) [symmetric]
      by (rule trans [OF _ inner], rule arg_cong [where f = "\<lambda>m. run_state m w"])
        (use that in \<open>auto split: list.split sum.split\<close>)
  qed
  show ?thesis
  proof (cases "is = [] \<or> (\<exists>st. sealed = Inr st)")
    case True
    then have "is = [] \<or> (\<exists>st. sealed = Inr st \<and> ?d = EncodeStatement (we_lib e) st)" by auto
    moreover have "ge_sends ?ending = ?sends" by simp
    ultimately show ?thesis using go [OF True] by blast
  next
    case False
    then obtain x a rest where "sealed = Inl x" "is = a # rest" by (cases sealed; cases "is") auto
    then show ?thesis
      unfolding end_own_group_def run_world_roe [OF listed] sum.case Let_def assms(5) [symmetric] assms(6) [symmetric]
      by (simp add: State_Monad.return_def)
  qed
qed

lemma said_then_resumed:
  fixes w :: "('o, 'w) world_scheme"
  assumes "says m" "says m'" "keyed_by send_key (db_sends (ww_store w))" "\<And>row. row \<in> set rows \<Longrightarrow> dissolving row"
    "db_faults (ww_store w) = []" "\<And>row. row \<in> set rows \<Longrightarrow> due row (ww_store w)"
  shows "holds (do { m; m'; ResumePendingGroupSends e 0; ret_ok () })
    (\<lambda>r w'. r = Inr () \<and> due_or_told e rows (db_metadata (ww_store w)) w') w"
proof -
  have resumed: "holds (do { ResumePendingGroupSends e 0; ret_ok () })
      (\<lambda>r w'. r = Inr () \<and> due_or_told e rows (db_metadata (ww_store w)) w') w'"
    if "ww_store w' = ww_store w" for w' :: "('o, 'w) world_scheme"
  proof (rule holds_bind, rule holds_weaken)
    show "holds (ResumePendingGroupSends e 0) (\<lambda>_. due_or_told e rows (db_metadata (ww_store w))) w'"
      using resumed_owed [of w' rows e 0] assms(3-6) by (simp add: that)
  qed (auto intro: holds_ret_ok)
  show ?thesis
    by (rule holds_bind, rule holds_weaken [OF says_holds [OF assms(1)]],
        rule holds_bind, rule holds_weaken [OF says_holds [OF assms(2)]], rule resumed, simp)
qed

lemma ended_metadata:
  assumes "store_ok s" "map_of (db_metadata s) g = Some md"
  shows "\<exists>md'. map_of (db_metadata (NotifyChanged c (ended_store g ending s))) g = Some md' \<and> md_sync_state md' = Dissolved"
  using ended_store_ended [OF assms, of ending] by (auto simp: is_ended_def NotifyChanged_def split: option.splits)

lemma listed_as_member: "is_member s g i \<Longrightarrow> i \<noteq> local \<Longrightarrow>
    i \<in> set (filter (\<lambda>i. i \<noteq> local) (map rm_identity (rows_of g (db_rosters s))))"
  by (auto simp: is_member_def)

text \<open>
  C13: an owner's dissolve loses nobody. When the database works, an owner's dissolve either fails before
  anything changed here (the last statement could not be signed and there is someone to tell), with nothing
  stored and nobody told; or the group has ended here and, for every other member, the notice with the
  signed statement is still due in the store, to be tried again, or was handed to that member's chat with
  success. No failure of a send leaves a member neither due nor told.
\<close>

theorem dissolve_loses_nobody:
  fixes w :: "('o, 'w) world_scheme"
  assumes "store_ok (ww_store w)" "db_faults (ww_store w) = []" "LocalRelayIdentity e = Inr local"
    "map_of (db_metadata (ww_store w)) g = Some md" "md_owner md = local" "md_sync_state md \<noteq> Dissolved"
    "run_state (DissolveGroup e g) w = (r, w')"
  shows "case r of
      Inl x \<Rightarrow> SignDissolved e (loaded (ww_store w) g md) (rows_of g (db_rosters (ww_store w))) (md_roster_epoch md + 1) = Inl x
        \<and> w' = w
    | Inr _ \<Rightarrow> (\<exists>md'. map_of (db_metadata (ww_store w')) g = Some md' \<and> md_sync_state md' = Dissolved)
        \<and> (\<forall>i. is_member (ww_store w) g i \<and> i \<noteq> local \<longrightarrow> (\<exists>st.
            SignDissolved e (loaded (ww_store w) g md) (rows_of g (db_rosters (ww_store w))) (md_roster_epoch md + 1) = Inr st
            \<and> (let row = dissolve_row g (EncodeStatement (we_lib e) st) i in due row (ww_store w') \<or> handed_over e row w')))"
proof -
  let ?s = "ww_store w" and ?md = "loaded (ww_store w) g md" and ?members = "rows_of g (db_rosters (ww_store w))"
  let ?is = "filter (\<lambda>i. i \<noteq> local) (map rm_identity ?members)"
  let ?signed = "SignDissolved e ?md ?members (md_roster_epoch md + 1)"
  have found: "run_state (LoadMetadataOrError g) w = (Inr ?md, w)"
    by (simp add: LoadMetadataOrError_def on_store_def calm_LoadMetadataRequired [OF assms(2)] assms(4))
  have owned: "local = md_owner ?md" "md_sync_state ?md \<noteq> Dissolved" using assms(5,6) by simp_all
  have start: "run_state (DissolveGroup e g) w = run_state (roe_then (end_own_group e g ?md local) (\<lambda>sibling. do {
      AppendDissolvedLine e g local kLocalSelfContactId;
      (if sibling \<noteq> [] then do {
         notice \<leftarrow> SystemLine e [] GroupDissolvedSibling ''Group dissolved'' sibling local;
         ignore (make_call (we_result e) (NotifyOwnDevices notice))
       }
       else nothing);
      ResumePendingGroupSends e 0;
      ret_ok ()
    })) w"
    unfolding DissolveGroup_def assms(3) given_Inr run_world_roe [OF found] sum.case
    using owned by simp
  consider x where "?signed = Inl x" "?is \<noteq> []" "run_state (end_own_group e g ?md local) w = (Inl x, w)"
    | d ending c invites n where "?is = [] \<or> (\<exists>st. ?signed = Inr st \<and> d = EncodeStatement (we_lib e) st)"
      "ge_sends ending = dissolve_rows g ?is d @ refusal_rows (we_lib e) g invites"
      "run_state (end_own_group e g ?md local) w =
        (Inr d, w\<lparr>ww_tick := n, ww_store := NotifyChanged c (ended_store g ending ?s)\<rparr>)"
    using run_end_own_group [OF assms(2,4,6) refl refl refl, of e ?md local] by (simp only: loaded_same) blast
  then show ?thesis
  proof cases
    case 1
    then have "(r, w') = (Inl x, w)" using assms(7) unfolding start by (simp add: run_world_roe)
    then show ?thesis using 1(1) by simp
  next
    case 2
    let ?w1 = "w\<lparr>ww_tick := n, ww_store := NotifyChanged c (ended_store g ending ?s)\<rparr>"
    let ?rows = "dissolve_rows g ?is d"
    have ok: "keyed_by send_key (db_sends (ww_store ?w1))" "db_faults (ww_store ?w1) = []"
      using store_ok_tables(4) [OF store_ok_ended [OF assms(1)]] assms(2) by (simp_all add: NotifyChanged_def ended_store_def void_pending_def set_status_def)
    have rows: "dissolving row \<and> due row (ww_store ?w1)" if "row \<in> set ?rows" for row
    proof -
      from that obtain i where i: "i \<in> set ?is" "row = dissolve_row g d i" by (auto simp: dissolve_rows_map)
      have "due row (ended_store g ending ?s)" unfolding i(2) by (rule due_when_ended [OF i(1) 2(2)])
      then show ?thesis by (simp add: i(2) due_def NotifyChanged_def)
    qed
    have "r = Inr () \<and> due_or_told e ?rows (db_metadata (ww_store ?w1)) w'"
      by (rule holdsD [OF said_then_resumed [OF _ _ ok(1) _ ok(2)]])
        (use rows assms(7) in \<open>auto simp: start run_world_roe [OF 2(3)] intro!: says_intros\<close>)
    then show ?thesis using 2(1) ended_metadata [OF assms(1,4), of c ending]
      by (auto simp: due_or_told_def dissolve_rows_map Let_def dest!: listed_as_member)
  qed
qed

text \<open>Ann owns the sample group and dissolves it: Bob's notice is due or was handed over.\<close>

lemma sample_dissolve_signed:
  "\<exists>st. SignDissolved (sample_flow_env ''ann'') (loaded (sample_store []) ''g'' sample_metadata)
    (rows_of ''g'' (db_rosters (sample_store []))) (md_roster_epoch sample_metadata + 1) = Inr st"
  by (simp add: SignDissolved_def SigningKey_def sample_flow_env_def RosterPartsOf_def Sign_def SignStatement_def
      sample_signer_def)

theorem dissolve_loses_nobody_witness:
  "\<exists>r w' d. run_state (DissolveGroup (sample_flow_env ''ann'') ''g'') (sample_flow (sample_store [])) = (r, w') \<and> r = Inr ()
    \<and> (due (dissolve_row ''g'' d ''bob'') (ww_store w') \<or> handed_over (sample_flow_env ''ann'') (dissolve_row ''g'' d ''bob'') w')"
proof -
  let ?w = "sample_flow (sample_store [])" and ?e = "sample_flow_env ''ann''"
  have md: "map_of (db_metadata (ww_store ?w)) ''g'' = Some sample_metadata" "md_owner sample_metadata = ''ann''"
    "md_sync_state sample_metadata \<noteq> Dissolved" "db_faults (ww_store ?w) = []"
    by (simp_all add: sample_store_def empty_store_def sample_metadata_def)
  have ok: "store_ok (ww_store ?w)" by simp
  have bob: "is_member (ww_store ?w) ''g'' ''bob''" by (simp add: is_member_def sample_store_def rows_of_def sample_member_def)
  obtain st where st: "SignDissolved ?e (loaded (ww_store ?w) ''g'' sample_metadata)
      (rows_of ''g'' (db_rosters (ww_store ?w))) (md_roster_epoch sample_metadata + 1) = Inr st"
    using sample_dissolve_signed by auto
  obtain r w' where run: "run_state (DissolveGroup ?e ''g'') ?w = (r, w')" by fastforce
  have local: "LocalRelayIdentity ?e = Inr ''ann''" by (rule sample_local) simp
  have ann: "''bob'' \<noteq> ''ann''" by simp
  from dissolve_loses_nobody [OF ok md(4) local md(1-3) run] have told: "r = Inr () \<and>
      (due (dissolve_row ''g'' (EncodeStatement (we_lib ?e) st) ''bob'') (ww_store w')
        \<or> handed_over ?e (dissolve_row ''g'' (EncodeStatement (we_lib ?e) st) ''bob'') w')"
    unfolding st Let_def using bob ann by (cases r) simp_all
  show ?thesis using run told by blast
qed

end
