(* ===== verification/Spec2Isabelle.thy ===== *)
theory Spec2Isabelle
  imports CatchUpClaims InboundClaims EventClaims JoinClaims SyncClaims SyncKeeps HeldBound RulesTermination
    LinkFlowClaims FlowRights LeavingClaims DissolveClaims
begin

text \<open>
  A verification development for the group rosters of pp-browser.

  A group of pp-browser has no server: every member keeps a copy of its roster. What all copies must
  agree on follows from two kinds of signed data, the owner's statement and the changes members sign
  between two statements; a set of rules computes the roster from them. The code is in
  \<open>src/capabilities/messaging/src/lib/messaging\<close> (below: M), the cards of accounts in
  \<open>src/capabilities/people/src/lib/people\<close>, the database in \<open>src/src/lib/storage\<close>.

  \<^item> The data. \<open>GroupTypes\<close> (M \<open>GroupTypes\<close>, \<open>GroupPermissions\<close>): roles, presets, the words of
    the wire and the permission table. \<open>ByteCodec\<close>: the length-prefixed bytes that are signed.
    \<open>AccountCard\<close>, \<open>GroupChange\<close>, \<open>GroupRosterStatement\<close> (the files of these names): cards, changes
    and statements, how they are signed and verified, which of several statements wins. Hashes,
    signatures and base64 are the parameters of the record \<open>crypto\<close>.
  \<^item> The rules. \<open>RulesCheck\<close>, \<open>RulesEngine\<close> (M \<open>GroupRosterRules.cpp\<close>): proving and collapsing the
    changes, then the class \<open>RosterRules\<close> as a state \<open>rules_state\<close> and one operation per method.
    Its memoised, mutually recursive questions are \<open>Memo\<close>, \<open>ask\<close> and \<open>answer\<close> with fuel, its loop over
    the adds \<open>adds_rounds\<close> with a bound; \<open>RulesTermination\<close> shows that \<open>rules_fuel\<close> (five questions per
    change held, and two) and the bound (a round per change) are never reached, so neither fuel is
    part of any result. \<open>RulesMemo\<close>, \<open>RosterProps\<close>, \<open>RosterJudge\<close>, \<open>RosterLinks\<close> and \<open>RosterView\<close> hold
    what each question answers and what each pass leaves; \<open>RosterClaims\<close> the properties of the roster.
    \<open>GroupFold\<close>: the statement that folds the changes in, and that folding is not to be seen in the
    roster.
  \<^item> The store. \<open>GroupStore\<close> (\<open>SqliteGroupRosterStore.cpp\<close>, M \<open>IGroupRosterStore\<close>): the tables as
    ordered maps in \<open>roster_store\<close>, an operation each in the state monad. \<open>db_faults\<close> is the script of
    the failures to come: each call to the database takes its next entry, so a statement about every
    store is one about every pattern of failures. \<open>StoreLaws\<close> has the calculus: \<open>after m Q s\<close> says that
    \<open>Q\<close> holds of the result and state of \<open>m\<close> from \<open>s\<close>, whatever fails, and its rules follow the
    operations (\<open>after_intros\<close>); \<open>StoreClaims\<close> the properties. The one transaction, \<open>EndGroup\<close>, is written
    statement by statement: each takes a fault of its own, and a failed one ends in \<open>rollback\<close>; that
    the group then ends wholly or not at all is proved, not built in.
  \<^item> The events. \<open>GroupMembership\<close> (M \<open>GroupMembershipApply.cpp\<close>): invites accepted and declined,
    members joined and removed, transfers, renames and dissolves applied to the store;
    \<open>MembershipClaims\<close> the properties, among them who may change a roster at all.
  \<^item> The sync. \<open>GroupSync\<close>, \<open>RosterDrafts\<close>, \<open>MemberCheck\<close> (M \<open>GroupRosterSync.cpp\<close>): the roster
    recomputed, changes taken in, changes and statements drafted, the member check; \<open>GroupSyncFamily\<close>
    (M \<open>GroupRosterSyncFamily.cpp\<close>): when to ask again. \<open>SyncLaws\<close> adds the equations \<open>calm_runs\<close> for
    runs in which nothing fails, \<open>CalmStore\<close> that no failure comes where none is to come. \<open>ViewClaims\<close> shows that the recompute leaves what the rules give;
    \<open>SyncKeeps\<close>, \<open>SyncClaims\<close>, \<open>HeldBound\<close>, \<open>DraftClaims\<close> and \<open>CatchUpClaims\<close> that the sync stays in its
    group, keeps only the owner's statements, holds a bounded number of changes, drafts only what is
    allowed, and brings a member everything the others have.

  \<^item> The texts. \<open>JsonLib\<close>: the JSON library, which is outside the repository, as the record \<open>json_lib\<close>
    of the calls the code makes and the laws \<open>json_laws\<close> it relies on; \<open>JsonSample\<close> shows the laws can
    hold. \<open>RosterJson\<close>: the JSON of cards, changes and statements, read and written; its
    \<open>roster_json_of\<close> is the instance the store's operations use. \<open>SyncCodec\<close>, \<open>MembershipCodec\<close>
    (M \<open>GroupRosterSyncCodec\<close>, \<open>GroupMembershipCodec\<close>): the messages. \<open>JsonClaims\<close>, \<open>CodecClaims\<close> and
    \<open>EventClaims\<close> show that what is written is read again, and what reading promises of any text.
  \<^item> Invite links. \<open>GroupInviteLink\<close>, \<open>GroupLinkJoin\<close> (the files of these names): the signed link, its
    text, and the join requests made with it, with their limits; \<open>LinkClaims\<close>, \<open>JoinClaims\<close>.
  \<^item> The neighbours. \<open>ChatWorld\<close>: a \<open>world\<close> is the store and the calls made to the chat store, to the
    delivery and to timers; every answer of theirs, and the clock, comes from the environment by the
    number of the question, so that a statement about every environment covers every neighbour.
    \<open>WorldLaws\<close> has its calculus (\<open>holds\<close>, \<open>world_keeps\<close>), on that of the store. \<open>GroupChangeLines\<close>
    and \<open>GroupInviteGate\<close>: the lines a chat shows of a change, and who may invite.
    \<open>InboundMembership\<close>, \<open>InboundDispatch\<close> (the handlers of \<open>RelayReceivePipeline.cpp\<close>): what each
    membership message that arrives does; \<open>InboundClaims\<close> shows by what right it changes a roster.

  \<^item> What this device does. \<open>WorkflowSends\<close>, \<open>WorkflowSigning\<close>, \<open>WorkflowInvites\<close>,
    \<open>WorkflowNewcomers\<close>, \<open>WorkflowGroups\<close>, \<open>WorkflowSettings\<close> (\<open>GroupMembershipWorkflow.cpp\<close>, in its
    order): what the user and the timers ask of a group, on a \<open>flow\<close>, a world with the workflow's own
    fields. \<open>LinkStore\<close> (\<open>SqliteGroupLinkStore.cpp\<close>) keeps the links sealed under the key of the vault;
    \<open>LinkWorkflow\<close> (\<open>GroupInviteLinkWorkflow.cpp\<close>) makes links, joins by them and answers joins.
    \<open>FlowLaws\<close> says what a run leaves alone, \<open>CalmRuns\<close> what it keeps when the database works, and
    \<open>FlowSample\<close> has the world of the witnesses. \<open>FlowRights\<close>: nothing happens that the user may not
    do; \<open>LeavingClaims\<close>: a member who leaves is out; \<open>DissolveClaims\<close>: an owner's dissolve loses
    nobody; \<open>LinkFlowClaims\<close>: links come back, and joins and previews go the way they should.

  \<open>Prelude\<close> and \<open>OrderedMap\<close> hold what the components share: errors as sums with \<open>roe_then\<close>, loops in
  the state monad, ordered maps and sets as sorted lists.

  Not modelled. Opening the database and its schema, random ids and locks are the environment: times
  and ids are arguments or answers of the environment, and an operation that holds the store's lock
  throughout is one computation. The receive pipeline is modelled from a message that was opened and
  authenticated on: envelopes, decryption, the window against replays and the filing of messages
  are not. The workflows call the chat store and the delivery, which answer from the environment. What
  drives them, the conversations hub and the windows, and the network, calls, media, pricing and the
  other capabilities are not about rosters.
\<close>

end
